(* ===== verification/Rune_Prelude.thy ===== *)
theory Rune_Prelude
  imports Main "HOL-Library.Word" "HOL-Library.Sublist" "HOL-Library.Char_ord"
    "HOL-Library.List_Lexorder"
begin

text \<open>
  Shared vocabulary of the development: the types that stand for Go's built-in types, the
  collections of simplification facts, the interface of a component that is driven by a sequence
  of operations, and generic list and option lemmas.

  Conventions used by every component theory:
  \<^item> a Go \<open>string\<close> or \<open>[]byte\<close> is a HOL \<open>string\<close>, one \<open>char\<close> per byte;
  \<^item> a Go \<open>int\<close> used as a counter or index is an \<open>int\<close> or a \<open>nat\<close>; where the width matters
    (token accounting) it is a \<open>64 word\<close> read with \<open>sint\<close>;
  \<^item> a \<open>time.Time\<close> is a \<open>gotime\<close>: nanoseconds since the zero time, so that
    \<open>IsZero t\<close> is \<open>t = 0\<close>; a \<open>time.Duration\<close> is an \<open>int\<close> of nanoseconds. Every operation that
    reads the clock in the code takes the reading as its argument \<open>now\<close>;
  \<^item> a Go error return \<open>(x, err)\<close> is a \<open>result\<close>: \<open>Inl\<close> the error, \<open>Inr\<close> the value;
  \<^item> a method that mutates its receiver returns the new receiver. The mutexes of the code make
    each exported method one atomic step, which is what one application of a model function is.
\<close>

section \<open>Types\<close>

type_synonym gotime = int
type_synonym duration = int
type_synonym ('e, 'a) result = "'e + 'a"

abbreviation is_zero_time :: "gotime \<Rightarrow> bool" where
  "is_zero_time t \<equiv> t = 0"

text \<open>\<^verbatim>\<open>Time.Unix\<close>: whole seconds since 1970, for a time in nanoseconds since the zero time.\<close>

definition unix_secs :: "gotime \<Rightarrow> int" where
  "unix_secs t = t div 1000000000 - 62135596800"

section \<open>Collections of facts\<close>

named_theorems go_str_defs \<open>definitions of the string routines of Go's standard library\<close>
named_theorems state_simps \<open>rewrites that project a field out of an updated component state\<close>

section \<open>Components driven by a sequence of operations\<close>

text \<open>
  The contract of a mutex-protected object: whatever operation is applied, the invariant is kept.
  Every component that has an invariant interprets this locale, and the run lemmas are then its
  statements about arbitrary interleavings of complete method calls.
\<close>

locale invariant_machine =
  fixes step :: "'s \<Rightarrow> 'e \<Rightarrow> 's"
    and inv :: "'s \<Rightarrow> bool"
  assumes inv_step: "inv s \<Longrightarrow> inv (step s e)"
begin

lemma run_inv: "inv s \<Longrightarrow> inv (foldl step s es)"
  by (induction es arbitrary: s) (auto intro: inv_step)

lemma run_prefix_inv: "inv s \<Longrightarrow> inv (foldl step s (take n es))"
  by (rule run_inv)

end

text \<open>
  The same with a quantity that no operation decreases (a sequence number, a counter, a set of
  used identifiers): it never decreases over a run either.
\<close>

locale monotone_machine = invariant_machine step inv
  for step :: "'s \<Rightarrow> 'e \<Rightarrow> 's" and inv :: "'s \<Rightarrow> bool" +
  fixes level :: "'s \<Rightarrow> 'l::preorder"
  assumes level_step: "inv s \<Longrightarrow> level s \<le> level (step s e)"
begin

lemma run_level: "inv s \<Longrightarrow> level s \<le> level (foldl step s es)"
proof (induction es arbitrary: s)
  case Nil
  then show ?case by simp
next
  case (Cons e es)
  have "level s \<le> level (step s e)" using Cons.prems by (rule level_step)
  also have "\<dots> \<le> level (foldl step (step s e) es)"
    using Cons.prems by (intro Cons.IH inv_step)
  finally show ?case by simp
qed

end

section \<open>Generic lemmas\<close>

lemma find_None_all: "find P xs = None \<longleftrightarrow> (\<forall>x \<in> set xs. \<not> P x)"
  by (auto simp: find_None_iff)

lemma find_first:
  "find P xs = Some x \<longleftrightarrow> (\<exists>ys zs. xs = ys @ x # zs \<and> P x \<and> (\<forall>y \<in> set ys. \<not> P y))"
proof (induction xs)
  case Nil
  then show ?case by simp
next
  case (Cons a xs)
  show ?case
  proof (cases "P a")
    case True
    then show ?thesis
      by (auto simp: Cons_eq_append_conv)
  next
    case False
    then have "find P (a # xs) = Some x \<longleftrightarrow> find P xs = Some x" by simp
    also have "\<dots> \<longleftrightarrow> (\<exists>ys zs. xs = ys @ x # zs \<and> P x \<and> (\<forall>y \<in> set ys. \<not> P y))"
      by (rule Cons.IH)
    also have "\<dots> \<longleftrightarrow> (\<exists>ys zs. a # xs = ys @ x # zs \<and> P x \<and> (\<forall>y \<in> set ys. \<not> P y))"
    proof
      assume "\<exists>ys zs. xs = ys @ x # zs \<and> P x \<and> (\<forall>y \<in> set ys. \<not> P y)"
      then obtain ys zs where "xs = ys @ x # zs" "P x" "\<forall>y \<in> set ys. \<not> P y" by blast
      with False have "a # xs = (a # ys) @ x # zs \<and> P x \<and> (\<forall>y \<in> set (a # ys). \<not> P y)" by simp
      then show "\<exists>ys zs. a # xs = ys @ x # zs \<and> P x \<and> (\<forall>y \<in> set ys. \<not> P y)" by blast
    next
      assume "\<exists>ys zs. a # xs = ys @ x # zs \<and> P x \<and> (\<forall>y \<in> set ys. \<not> P y)"
      with False show "\<exists>ys zs. xs = ys @ x # zs \<and> P x \<and> (\<forall>y \<in> set ys. \<not> P y)"
        by (auto simp: Cons_eq_append_conv)
    qed
    finally show ?thesis .
  qed
qed

lemma find_append: "find P (xs @ ys) = (case find P xs of None \<Rightarrow> find P ys | Some x \<Rightarrow> Some x)"
  by (induction xs) auto

lemma option_ext: "(\<And>x. a = Some x \<longleftrightarrow> b = Some x) \<Longrightarrow> a = b"
  by (cases a; cases b) auto

lemma lookup_map_of_distinct:
  "distinct (map fst xs) \<Longrightarrow> (k, v) \<in> set xs \<Longrightarrow> map_of xs k = Some v"
  by (rule map_of_is_SomeI)

end
