(* ===== verification/Go_Strings.thy ===== *)
theory Go_Strings
  imports Rune_Prelude
begin

text \<open>
  The routines of Go's \<^verbatim>\<open>strings\<close>, \<^verbatim>\<open>bytes\<close> and \<^verbatim>\<open>strconv\<close> packages that the
  modelled code calls, on byte strings.

  White space (\<^verbatim>\<open>TrimSpace\<close>, \<^verbatim>\<open>Fields\<close>) is Go's \<^verbatim>\<open>unicode.IsSpace\<close>: the list
  \<open>space_seqs\<close> holds the UTF-8 encoding of each of its 25 code points. None of them starts with a
  UTF-8 continuation byte, so an encoding that occurs in a byte string occurs at a rune boundary
  and byte-wise matching finds exactly the runes Go finds.

  Case folding (\<^verbatim>\<open>ToLower\<close>, \<^verbatim>\<open>EqualFold\<close>) is modelled on ASCII letters; bytes from
  \<^verbatim>\<open>0x80\<close> on are left as they are. The modelled code folds host names, environment switches
  and fixed keywords only.
\<close>

section \<open>Prefixes, suffixes, search\<close>

definition has_prefix :: "string \<Rightarrow> string \<Rightarrow> bool" where
  "has_prefix s p = prefix p s"

definition has_suffix :: "string \<Rightarrow> string \<Rightarrow> bool" where
  "has_suffix s p = suffix p s"

definition cut_prefix :: "string \<Rightarrow> string \<Rightarrow> string option" where
  "cut_prefix s p = (if prefix p s then Some (drop (length p) s) else None)"

fun str_index :: "string \<Rightarrow> string \<Rightarrow> nat option" where
  "str_index [] t = (if t = [] then Some 0 else None)"
| "str_index (c # s) t = (if prefix t (c # s) then Some 0 else map_option Suc (str_index s t))"

definition str_contains :: "string \<Rightarrow> string \<Rightarrow> bool" where
  "str_contains s t = (str_index s t \<noteq> None)"

fun index_any :: "string \<Rightarrow> char list \<Rightarrow> nat option" where
  "index_any [] cs = None"
| "index_any (c # s) cs = (if c \<in> set cs then Some 0 else map_option Suc (index_any s cs))"

definition index_byte :: "string \<Rightarrow> char \<Rightarrow> nat option" where
  "index_byte s c = index_any s [c]"

fun last_index_byte :: "string \<Rightarrow> char \<Rightarrow> nat option" where
  "last_index_byte [] c = None"
| "last_index_byte (x # s) c =
     (case last_index_byte s c of
        Some i \<Rightarrow> Some (Suc i)
      | None \<Rightarrow> if x = c then Some 0 else None)"

lemmas search_defs [go_str_defs] =
  has_prefix_def has_suffix_def cut_prefix_def str_contains_def index_byte_def

lemma index_any_None [simp]: "index_any s cs = None \<longleftrightarrow> set s \<inter> set cs = {}"
  by (induction s) auto

lemma index_any_Some:
  "index_any s cs = Some i \<Longrightarrow>
     i < length s \<and> s ! i \<in> set cs \<and> set (take i s) \<inter> set cs = {}"
  by (induction s arbitrary: i) (auto split: if_splits)

lemma last_index_byte_None [simp]: "last_index_byte s c = None \<longleftrightarrow> c \<notin> set s"
  by (induction s) (auto split: option.splits)

lemma last_index_byte_last: "c \<notin> set t \<Longrightarrow> last_index_byte (s @ c # t) c = Some (length s)"
  by (induction s) (auto split: option.splits)

lemma last_index_byte_Some:
  "last_index_byte s c = Some i \<Longrightarrow>
     i < length s \<and> s ! i = c \<and> c \<notin> set (drop (Suc i) s)"
proof (induction s arbitrary: i)
  case Nil
  then show ?case by simp
next
  case (Cons x s)
  show ?case
  proof (cases "last_index_byte s c")
    case None
    with Cons.prems show ?thesis by (auto split: if_splits)
  next
    case (Some j)
    with Cons.prems Cons.IH [OF Some] show ?thesis by auto
  qed
qed

lemma str_index_Some:
  "str_index s t = Some i \<Longrightarrow> i \<le> length s \<and> prefix t (drop i s)"
  by (induction s arbitrary: i) (auto split: if_splits)

lemma str_index_None: "str_index s t = None \<Longrightarrow> \<not> sublist t s"
  by (induction s) (auto split: if_splits simp: sublist_Cons_right)

lemma str_contains_sublist: "str_contains s t \<longleftrightarrow> sublist t s"
proof
  assume "str_contains s t"
  then obtain i where "str_index s t = Some i" by (auto simp: str_contains_def)
  then have "prefix t (drop i s)" by (simp add: str_index_Some)
  then show "sublist t s"
    by (metis sublist_drop prefix_imp_sublist sublist_order.order_trans)
next
  assume "sublist t s"
  then show "str_contains s t"
    using str_index_None by (auto simp: str_contains_def)
qed

section \<open>White space\<close>

definition space_seqs :: "string list" where
  "space_seqs =
     [ [CHR 0x09], [CHR 0x0A], [CHR 0x0B], [CHR 0x0C], [CHR 0x0D], [CHR 0x20],
       [CHR 0xC2, CHR 0x85], [CHR 0xC2, CHR 0xA0],
       [CHR 0xE1, CHR 0x9A, CHR 0x80],
       [CHR 0xE2, CHR 0x80, CHR 0x80], [CHR 0xE2, CHR 0x80, CHR 0x81],
       [CHR 0xE2, CHR 0x80, CHR 0x82], [CHR 0xE2, CHR 0x80, CHR 0x83],
       [CHR 0xE2, CHR 0x80, CHR 0x84], [CHR 0xE2, CHR 0x80, CHR 0x85],
       [CHR 0xE2, CHR 0x80, CHR 0x86], [CHR 0xE2, CHR 0x80, CHR 0x87],
       [CHR 0xE2, CHR 0x80, CHR 0x88], [CHR 0xE2, CHR 0x80, CHR 0x89],
       [CHR 0xE2, CHR 0x80, CHR 0x8A],
       [CHR 0xE2, CHR 0x80, CHR 0xA8], [CHR 0xE2, CHR 0x80, CHR 0xA9],
       [CHR 0xE2, CHR 0x80, CHR 0xAF], [CHR 0xE2, CHR 0x81, CHR 0x9F],
       [CHR 0xE3, CHR 0x80, CHR 0x80] ]"

text \<open>The number of bytes of the space rune at the head of \<open>s\<close>, \<open>0\<close> if there is none.\<close>

definition space_len :: "string list \<Rightarrow> string \<Rightarrow> nat" where
  "space_len seqs s = (case find (\<lambda>p. prefix p s) seqs of None \<Rightarrow> 0 | Some p \<Rightarrow> length p)"

function trim_left_with :: "string list \<Rightarrow> string \<Rightarrow> string" where
  "trim_left_with seqs s =
     (if space_len seqs s = 0 \<or> s = [] then s
      else trim_left_with seqs (drop (space_len seqs s) s))"
  by pat_completeness auto
termination
  by (relation "measure (\<lambda>(seqs, s). length s)") auto

declare trim_left_with.simps [simp del]

definition trim_left :: "string \<Rightarrow> string" where
  "trim_left s = trim_left_with space_seqs s"

definition trim_right :: "string \<Rightarrow> string" where
  "trim_right s = rev (trim_left_with (map rev space_seqs) (rev s))"

definition trim_space :: "string \<Rightarrow> string" where
  "trim_space s = trim_right (trim_left s)"

function fields_from :: "string \<Rightarrow> string \<Rightarrow> string list" where
  "fields_from acc [] = (if acc = [] then [] else [rev acc])"
| "fields_from acc (c # s) =
     (if space_len space_seqs (c # s) = 0 then fields_from (c # acc) s
      else (if acc = [] then [] else [rev acc]) @
           fields_from [] (drop (space_len space_seqs (c # s)) (c # s)))"
  by pat_completeness auto
termination
  by (relation "measure (\<lambda>(acc, s). length s)") auto

definition str_fields :: "string \<Rightarrow> string list" where
  "str_fields s = fields_from [] s"

lemma trim_left_with_suffix: "suffix (trim_left_with seqs s) s"
proof (induction seqs s rule: trim_left_with.induct)
  case (1 seqs s)
  show ?case
  proof (cases "space_len seqs s = 0 \<or> s = []")
    case True
    then show ?thesis by (subst trim_left_with.simps) simp
  next
    case False
    then have "suffix (trim_left_with seqs (drop (space_len seqs s) s)) (drop (space_len seqs s) s)"
      by (rule "1.IH")
    with False show ?thesis
      by (subst trim_left_with.simps) (auto intro: suffix_order.order_trans suffix_drop)
  qed
qed

lemma trim_left_with_stop: "space_len seqs s = 0 \<or> s = [] \<Longrightarrow> trim_left_with seqs s = s"
  by (subst trim_left_with.simps) simp

lemma trim_space_Nil [simp]: "trim_space [] = []"
  by (simp add: trim_space_def trim_left_def trim_right_def trim_left_with_stop)

lemma trim_space_length: "length (trim_space s) \<le> length s"
proof -
  have "length (trim_right (trim_left s)) \<le> length (trim_left s)"
    using suffix_length_le [OF trim_left_with_suffix, of "map rev space_seqs" "rev (trim_left s)"]
    by (simp add: trim_right_def)
  also have "\<dots> \<le> length s"
    unfolding trim_left_def by (rule suffix_length_le [OF trim_left_with_suffix])
  finally show ?thesis by (simp add: trim_space_def)
qed

text \<open>A string that neither starts nor ends with a space rune is left alone.\<close>

lemma trim_space_id:
  "space_len space_seqs s = 0 \<Longrightarrow> space_len (map rev space_seqs) (rev s) = 0 \<Longrightarrow> trim_space s = s"
  by (simp add: trim_space_def trim_left_def trim_right_def trim_left_with_stop)

lemma space_seqs_nonempty: "[] \<notin> set space_seqs"
  by (simp add: space_seqs_def)

lemma fields_from_nonempty: "t \<in> set (fields_from acc s) \<Longrightarrow> t \<noteq> []"
  by (induction acc s rule: fields_from.induct) (auto split: if_splits)

lemma str_fields_nonempty: "t \<in> set (str_fields s) \<Longrightarrow> t \<noteq> []"
  by (simp add: str_fields_def fields_from_nonempty)

section \<open>Case\<close>

definition lower_char :: "char \<Rightarrow> char" where
  "lower_char c =
     (let n = of_char c :: nat in
      if 65 \<le> n \<and> n \<le> 90 then char_of (n + 32) else c)"

definition to_lower :: "string \<Rightarrow> string" where
  "to_lower s = map lower_char s"

definition equal_fold :: "string \<Rightarrow> string \<Rightarrow> bool" where
  "equal_fold s t = (to_lower s = to_lower t)"

lemma lower_char_idem [simp]: "lower_char (lower_char c) = lower_char c"
  by (auto simp: lower_char_def Let_def)

lemma to_lower_idem [simp]: "to_lower (to_lower s) = to_lower s"
  by (simp add: to_lower_def comp_def)

lemma to_lower_append [simp]: "to_lower (s @ t) = to_lower s @ to_lower t"
  by (simp add: to_lower_def)

lemma to_lower_Nil [simp]: "to_lower [] = []"
  by (simp add: to_lower_def)

lemma to_lower_eq_Nil [simp]: "to_lower s = [] \<longleftrightarrow> s = []"
  by (simp add: to_lower_def)

lemma length_to_lower [simp]: "length (to_lower s) = length s"
  by (simp add: to_lower_def)

section \<open>Split, join, replace\<close>

fun str_join :: "string list \<Rightarrow> string \<Rightarrow> string" where
  "str_join [] sep = []"
| "str_join [x] sep = x"
| "str_join (x # y # zs) sep = x @ sep @ str_join (y # zs) sep"

text \<open>\<^verbatim>\<open>strings.Split\<close> at a one-byte separator.\<close>

fun split_byte :: "char \<Rightarrow> string \<Rightarrow> string list" where
  "split_byte c [] = [[]]"
| "split_byte c (x # s) =
     (if x = c then [] # split_byte c s
      else (case split_byte c s of [] \<Rightarrow> [[x]] | t # ts \<Rightarrow> (x # t) # ts))"

lemma split_byte_nonempty [simp]: "split_byte c s \<noteq> []"
  by (cases s) (auto split: list.splits)

lemma split_byte_no_sep: "c \<notin> set s \<Longrightarrow> split_byte c s = [s]"
  by (induction s) auto

lemma split_byte_append:
  "c \<notin> set s \<Longrightarrow> split_byte c (s @ c # t) = s # split_byte c t"
  by (induction s) auto

lemma split_byte_pieces: "t \<in> set (split_byte c s) \<Longrightarrow> c \<notin> set t"
  by (induction s arbitrary: t) (auto split: if_splits list.splits)

text \<open>\<^verbatim>\<open>strings.ReplaceAll(s, old, new)\<close> for a non-empty \<open>old\<close>: non-overlapping occurrences,
  left to right. (The code never calls it with an empty \<open>old\<close>.)\<close>

function replace_all :: "string \<Rightarrow> string \<Rightarrow> string \<Rightarrow> string" where
  "replace_all old new s =
     (if s = [] \<or> old = [] then s
      else if prefix old s then new @ replace_all old new (drop (length old) s)
      else hd s # replace_all old new (tl s))"
  by pat_completeness auto
termination
  by (relation "measure (\<lambda>(old, new, s). length s)") auto

declare replace_all.simps [simp del]

lemma replace_all_Nil [simp]: "replace_all old new [] = []"
  by (subst replace_all.simps) simp

lemma replace_all_absent: "\<not> sublist old s \<Longrightarrow> replace_all old new s = s"
proof (induction old new s rule: replace_all.induct)
  case (1 old new s)
  show ?case
  proof (cases "s = [] \<or> old = []")
    case True
    then show ?thesis by (subst replace_all.simps) simp
  next
    case False
    then obtain c s' where s: "s = c # s'" by (cases s) auto
    from "1.prems" s have "\<not> prefix old s" and "\<not> sublist old s'"
      by (auto simp: sublist_Cons_right)
    moreover from this False "1.IH"(2) s have "replace_all old new s' = s'" by simp
    ultimately show ?thesis using False s by (subst replace_all.simps) simp
  qed
qed

section \<open>Decimal numbers\<close>

fun show_nat :: "nat \<Rightarrow> string" where
  "show_nat n = (if n < 10 then [char_of (48 + n)]
                 else show_nat (n div 10) @ [char_of (48 + n mod 10)])"

declare show_nat.simps [simp del]

text \<open>\<^verbatim>\<open>strconv.FormatInt(i, 10)\<close>.\<close>

definition show_int :: "int \<Rightarrow> string" where
  "show_int i = (if i < 0 then CHR ''-'' # show_nat (nat (- i)) else show_nat (nat i))"

fun read_nat :: "nat \<Rightarrow> string \<Rightarrow> nat" where
  "read_nat acc [] = acc"
| "read_nat acc (c # s) = read_nat (acc * 10 + (of_char c - 48)) s"

text \<open>\<^verbatim>\<open>strconv.Atoi\<close> on a 64 bit platform, and \<^verbatim>\<open>strconv.ParseInt(_, 10, 64)\<close>.\<close>

definition atoi :: "string \<Rightarrow> int option" where
  "atoi s =
     (let neg = (s \<noteq> [] \<and> hd s = CHR ''-'');
          digits = (if s \<noteq> [] \<and> (hd s = CHR ''-'' \<or> hd s = CHR ''+'') then tl s else s)
      in if digits = [] \<or> \<not> list_all (\<lambda>c. (of_char c :: nat) \<ge> 48 \<and> (of_char c :: nat) \<le> 57) digits then None
         else (let n = int (read_nat 0 digits); v = (if neg then - n else n) in
               if v < - (2 ^ 63) \<or> v \<ge> 2 ^ 63 then None else Some v))"

text \<open>\<^verbatim>\<open>strconv.ParseUint(_, 10, 64)\<close>.\<close>

definition parse_uint :: "string \<Rightarrow> nat option" where
  "parse_uint s =
     (if s = [] \<or> \<not> list_all (\<lambda>c. (of_char c :: nat) \<ge> 48 \<and> (of_char c :: nat) \<le> 57) s then None
      else if read_nat 0 s \<ge> 2 ^ 64 then None else Some (read_nat 0 s))"

lemma read_nat_append: "read_nat acc (s @ t) = read_nat (read_nat acc s) t"
  by (induction s arbitrary: acc) auto

lemma read_show_nat: "read_nat 0 (show_nat n) = n"
proof (induction n rule: show_nat.induct)
  case (1 n)
  show ?case
  proof (cases "n < 10")
    case True
    then show ?thesis by (subst show_nat.simps) simp
  next
    case False
    with "1.IH" show ?thesis by (subst show_nat.simps) (simp add: read_nat_append)
  qed
qed

lemma show_nat_inject [simp]: "show_nat m = show_nat n \<longleftrightarrow> m = n"
  by (metis read_show_nat)

lemma show_nat_digits: "c \<in> set (show_nat n) \<Longrightarrow> 48 \<le> (of_char c :: nat) \<and> (of_char c :: nat) \<le> 57"
proof (induction n rule: show_nat.induct)
  case (1 n)
  show ?case
  proof (cases "n < 10")
    case True
    with "1.prems" show ?thesis by (subst (asm) show_nat.simps) simp
  next
    case False
    with "1.prems" "1.IH" show ?thesis
      by (subst (asm) show_nat.simps) auto
  qed
qed

lemma show_nat_nonempty [simp]: "show_nat n \<noteq> []"
  by (subst show_nat.simps) simp

lemma show_nat_no_minus: "hd (show_nat n) \<noteq> CHR ''-''"
proof
  assume "hd (show_nat n) = CHR ''-''"
  then have "CHR ''-'' \<in> set (show_nat n)"
    by (metis hd_in_set show_nat_nonempty)
  from show_nat_digits [OF this] show False by simp
qed

lemma show_int_inject [simp]: "show_int i = show_int j \<longleftrightarrow> i = j"
proof
  assume eq: "show_int i = show_int j"
  show "i = j"
  proof (cases "i < 0"; cases "j < 0")
    assume "i < 0" "\<not> j < 0"
    with eq have "hd (show_nat (nat j)) = CHR ''-''"
      by (metis list.sel(1) show_int_def)
    then show ?thesis by (simp add: show_nat_no_minus)
  next
    assume "\<not> i < 0" "j < 0"
    with eq have "hd (show_nat (nat i)) = CHR ''-''"
      by (metis list.sel(1) show_int_def)
    then show ?thesis by (simp add: show_nat_no_minus)
  qed (use eq in \<open>simp_all add: show_int_def\<close>)
qed simp

end
