(* ===== verification/Ledger_Encoding.thy ===== *)
theory Ledger_Encoding
  imports Go_Strings "HOL-Library.Multiset"
begin

text \<open>
  Events of the audit ledger (\<^verbatim>\<open>internal/ledger/ledger.go\<close>) and the byte string that
  \<^verbatim>\<open>hashEvent\<close> and \<^verbatim>\<open>hashPayload\<close> feed to SHA-256: every field preceded by its length as
  eight big-endian bytes, the metadata in sorted key order.

  SHA-256 (with its hexadecimal rendering) and the RFC 3339 rendering of a time are the fields of
  the record \<open>prims\<close>, an argument of the definitions that use them. A Go map is an association list
  whose keys are distinct; its order is the iteration order, which Go does not determine.
\<close>

section \<open>Events\<close>

record event =
  ev_seq :: int
  ev_time :: gotime
  ev_session :: string
  ev_sandbox :: string
  ev_profile :: string
  ev_tool :: string
  ev_action :: string
  ev_args :: "string list"
  ev_verdict :: string
  ev_exit_code :: int
  ev_duration_ms :: int
  ev_meta :: "(string \<times> string) list"
  ev_redacted :: bool
  ev_payload_hash :: string
  ev_prev_hash :: string
  ev_hash :: string
  ev_key_id :: string
  ev_sig :: string

record prims =
  sha256hex :: "string \<Rightarrow> string"
  rfc3339nano :: "gotime \<Rightarrow> string"

definition zero_event :: event where
  "zero_event = \<lparr>ev_seq = 0, ev_time = 0, ev_session = [], ev_sandbox = [], ev_profile = [],
     ev_tool = [], ev_action = [], ev_args = [], ev_verdict = [], ev_exit_code = 0,
     ev_duration_ms = 0, ev_meta = [], ev_redacted = False, ev_payload_hash = [],
     ev_prev_hash = [], ev_hash = [], ev_key_id = [], ev_sig = []\<rparr>"

section \<open>The encoding\<close>

text \<open>\<^verbatim>\<open>binary.BigEndian.PutUint64\<close> of a length.\<close>

definition be64 :: "nat \<Rightarrow> string" where
  "be64 n = map (\<lambda>i. char_of (n div 256 ^ i mod 256)) [7, 6, 5, 4, 3, 2, 1, 0]"

definition putField :: "string \<Rightarrow> string" where
  "putField b = be64 (length b) @ b"

definition putStr :: "string \<Rightarrow> string" where
  "putStr s = putField s"

definition putInt :: "int \<Rightarrow> string" where
  "putInt i = putStr (show_int i)"

definition putBool :: "bool \<Rightarrow> string" where
  "putBool b = (if b then putStr ''1'' else putStr ''0'')"

definition putMeta :: "(string \<times> string) list \<Rightarrow> string" where
  "putMeta m =
     putInt (int (length m)) @
     (if m = [] then []
      else concat (map (\<lambda>(k, v). putStr k @ putStr v) (sort_key fst m)))"

definition encodeEvent :: "prims \<Rightarrow> event \<Rightarrow> string" where
  "encodeEvent P ev =
     putInt (ev_seq ev) @ putStr (rfc3339nano P (ev_time ev)) @ putStr (ev_session ev) @
     putStr (ev_sandbox ev) @ putStr (ev_profile ev) @ putStr (ev_tool ev) @ putStr (ev_action ev) @
     putInt (int (length (ev_args ev))) @ concat (map putStr (ev_args ev)) @
     putStr (ev_verdict ev) @ putInt (ev_exit_code ev) @ putInt (ev_duration_ms ev) @
     putMeta (ev_meta ev) @ putBool (ev_redacted ev) @ putStr (ev_payload_hash ev) @
     putStr (ev_prev_hash ev)"

definition hashEvent :: "prims \<Rightarrow> event \<Rightarrow> string" where
  "hashEvent P ev = sha256hex P (encodeEvent P ev)"

definition encodePayload :: "event \<Rightarrow> string" where
  "encodePayload ev =
     putStr (ev_action ev) @ putInt (int (length (ev_args ev))) @ concat (map putStr (ev_args ev)) @
     putMeta (ev_meta ev)"

definition hashPayload :: "prims \<Rightarrow> event \<Rightarrow> string" where
  "hashPayload P ev = sha256hex P (encodePayload ev)"

section \<open>The encoding is a list of fields, and a list of fields can be read back\<close>

definition flatten_meta :: "(string \<times> string) list \<Rightarrow> string list" where
  "flatten_meta m = concat (map (\<lambda>(k, v). [k, v]) m)"

definition event_fields :: "prims \<Rightarrow> event \<Rightarrow> string list" where
  "event_fields P ev =
     [show_int (ev_seq ev), rfc3339nano P (ev_time ev), ev_session ev, ev_sandbox ev, ev_profile ev,
      ev_tool ev, ev_action ev, show_int (int (length (ev_args ev)))] @ ev_args ev @
     [ev_verdict ev, show_int (ev_exit_code ev), show_int (ev_duration_ms ev),
      show_int (int (length (ev_meta ev)))] @ flatten_meta (sort_key fst (ev_meta ev)) @
     [if ev_redacted ev then ''1'' else ''0'', ev_payload_hash ev, ev_prev_hash ev]"

lemmas put_defs = putInt_def putStr_def putBool_def

lemma putMeta_fields:
  "putMeta m = concat (map putField (show_int (int (length m)) # flatten_meta (sort_key fst m)))"
proof -
  have "concat (map (\<lambda>(k, v). putStr k @ putStr v) xs) = concat (map putField (flatten_meta xs))" for xs
    by (induction xs) (auto simp: flatten_meta_def putStr_def)
  then show ?thesis by (simp add: putMeta_def put_defs flatten_meta_def)
qed

lemma encodeEvent_fields: "encodeEvent P ev = concat (map putField (event_fields P ev))"
proof -
  have "putStr = putField" by (simp add: fun_eq_iff putStr_def)
  then show ?thesis by (simp add: encodeEvent_def event_fields_def putMeta_fields putInt_def putBool_def)
qed

text \<open>Lengths below \<open>2^64\<close> (all that a Go string can have) are recovered from their eight bytes.\<close>

lemma be64_length [simp]: "length (be64 n) = 8"
  by (simp add: be64_def)

lemma char_of_mod_256_inject: "(char_of (m mod 256 :: nat) :: char) = char_of (n mod 256) \<longleftrightarrow> m mod 256 = n mod 256"
  by (metis char_of_mod_256 of_char_of mod_mod_trivial)

lemma base256_split:
  fixes n :: nat
  assumes "n < 256 ^ Suc k"
  shows "n = (n div 256 ^ k mod 256) * 256 ^ k + n mod 256 ^ k"
proof -
  have "n div 256 ^ k < 256" using assms by (simp add: less_mult_imp_div_less)
  then show ?thesis using div_mult_mod_eq [of n "256 ^ k"] by simp
qed

lemma base256_inject:
  fixes m n :: nat
  shows "m < 256 ^ k \<Longrightarrow> n < 256 ^ k \<Longrightarrow> (\<And>i. i < k \<Longrightarrow> m div 256 ^ i mod 256 = n div 256 ^ i mod 256) \<Longrightarrow> m = n"
proof (induction k arbitrary: m n)
  case 0
  then show ?case by simp
next
  case (Suc k)
  have digit: "(x mod 256 ^ k) div 256 ^ i mod 256 = x div 256 ^ i mod 256" if ik: "i < k" for x i :: nat
  proof -
    obtain j where j: "k = Suc (i + j)" using less_imp_Suc_add [OF ik] by blast
    have "x mod 256 ^ k div 256 ^ i = x div 256 ^ i mod 256 ^ Suc j"
    proof -
      have "(256::nat) ^ k = 256 ^ i * 256 ^ Suc j" by (simp add: j power_add)
      then have "x mod 256 ^ k = 256 ^ i * (x div 256 ^ i mod 256 ^ Suc j) + x mod 256 ^ i"
        by (simp only: mod_mult2_eq)
      then show ?thesis by (simp del: power_Suc)
    qed
    then show ?thesis by (simp add: mod_mod_cancel)
  qed
  have "m mod 256 ^ k = n mod 256 ^ k"
  proof (rule Suc.IH)
    fix i
    assume "i < k"
    then show "m mod 256 ^ k div 256 ^ i mod 256 = n mod 256 ^ k div 256 ^ i mod 256"
      using Suc.prems(3) [of i] by (simp only: digit)
  qed simp_all
  moreover have "m div 256 ^ k mod 256 = n div 256 ^ k mod 256" using Suc.prems(3) by simp
  ultimately show ?case by (subst base256_split [OF Suc.prems(1)], subst base256_split [OF Suc.prems(2)]) simp
qed

lemma be64_inject:
  assumes "be64 m = be64 n" "m < 2 ^ 64" "n < 2 ^ 64"
  shows "m = n"
proof (rule base256_inject [of _ 8])
  show "m < 256 ^ 8" "n < 256 ^ 8" using assms(2,3) by simp_all
  have bytes: "\<forall>i \<in> set [7, 6, 5, 4, 3, 2, 1, 0 :: nat].
      (char_of (m div 256 ^ i mod 256) :: char) = char_of (n div 256 ^ i mod 256)"
    using assms(1) unfolding be64_def map_eq_conv .
  fix i :: nat
  assume "i < 8"
  then have "i \<in> set [7, 6, 5, 4, 3, 2, 1, 0]" by auto
  with bytes have "(char_of (m div 256 ^ i mod 256) :: char) = char_of (n div 256 ^ i mod 256)" by blast
  then show "m div 256 ^ i mod 256 = n div 256 ^ i mod 256"
    by (simp only: char_of_mod_256_inject)
qed

lemma putField_inject:
  assumes "putField a @ x = putField b @ y" "length a < 2 ^ 64" "length b < 2 ^ 64"
  shows "a = b \<and> x = y"
proof -
  from assms(1) have "be64 (length a) = be64 (length b)" and rest: "a @ x = b @ y"
    by (auto simp: putField_def)
  with assms(2,3) have "length a = length b" by (blast intro: be64_inject)
  with rest show ?thesis by simp
qed

lemma putField_nonempty [simp]: "putField a \<noteq> []"
  by (simp add: putField_def be64_def)

lemma fields_inject:
  "concat (map putField xs) = concat (map putField ys) \<Longrightarrow>
   \<forall>s \<in> set xs \<union> set ys. length s < 2 ^ 64 \<Longrightarrow> xs = ys"
proof (induction xs arbitrary: ys)
  case Nil
  then show ?case by (cases ys) auto
next
  case (Cons x xs)
  then obtain y ys' where ys: "ys = y # ys'" by (cases ys) auto
  with Cons.prems have "x = y \<and> concat (map putField xs) = concat (map putField ys')"
    by (intro putField_inject) auto
  with Cons ys show ?case by auto
qed

lemma flatten_meta_inject: "flatten_meta m = flatten_meta m' \<Longrightarrow> m = m'"
proof (induction m arbitrary: m')
  case Nil
  then show ?case by (cases m') (auto simp: flatten_meta_def)
next
  case (Cons a m)
  then show ?case by (cases a; cases m') (auto simp: flatten_meta_def)
qed

lemma flatten_meta_length: "length (flatten_meta m) = 2 * length m"
  by (induction m) (auto simp: flatten_meta_def)

section \<open>What the record hash commits to\<close>

text \<open>
  Two events have the same core when they agree on every hashed field: the metadata as a multiset of
  pairs, the time up to its rendering. \<open>ev_hash\<close>, \<open>ev_key_id\<close> and \<open>ev_sig\<close> are not hashed.
\<close>

definition same_core :: "prims \<Rightarrow> event \<Rightarrow> event \<Rightarrow> bool" where
  "same_core P e e' \<longleftrightarrow>
     ev_seq e = ev_seq e' \<and> rfc3339nano P (ev_time e) = rfc3339nano P (ev_time e') \<and>
     ev_session e = ev_session e' \<and> ev_sandbox e = ev_sandbox e' \<and> ev_profile e = ev_profile e' \<and>
     ev_tool e = ev_tool e' \<and> ev_action e = ev_action e' \<and> ev_args e = ev_args e' \<and>
     ev_verdict e = ev_verdict e' \<and> ev_exit_code e = ev_exit_code e' \<and>
     ev_duration_ms e = ev_duration_ms e' \<and> mset (ev_meta e) = mset (ev_meta e') \<and>
     ev_redacted e = ev_redacted e' \<and> ev_payload_hash e = ev_payload_hash e' \<and>
     ev_prev_hash e = ev_prev_hash e'"

definition small_event :: "prims \<Rightarrow> event \<Rightarrow> bool" where
  "small_event P ev \<longleftrightarrow> list_all (\<lambda>s. length s < 2 ^ 64) (event_fields P ev)"

lemma event_fields_inject:
  assumes "event_fields P e = event_fields P e'"
  shows "same_core P e e'"
proof -
  let ?tail = "\<lambda>e. [ev_verdict e, show_int (ev_exit_code e), show_int (ev_duration_ms e),
      show_int (int (length (ev_meta e)))] @ flatten_meta (sort_key fst (ev_meta e)) @
     [if ev_redacted e then ''1'' else ''0'', ev_payload_hash e, ev_prev_hash e]"
  from assms have head: "ev_seq e = ev_seq e'" "rfc3339nano P (ev_time e) = rfc3339nano P (ev_time e')"
    "ev_session e = ev_session e'" "ev_sandbox e = ev_sandbox e'" "ev_profile e = ev_profile e'"
    "ev_tool e = ev_tool e'" "ev_action e = ev_action e'" "length (ev_args e) = length (ev_args e')"
    and rest: "ev_args e @ ?tail e = ev_args e' @ ?tail e'"
    by (auto simp: event_fields_def)
  from rest head(8) have args: "ev_args e = ev_args e'" and tail: "?tail e = ?tail e'"
    by (auto simp: append_eq_append_conv)
  from tail have mid: "ev_verdict e = ev_verdict e'" "ev_exit_code e = ev_exit_code e'"
    "ev_duration_ms e = ev_duration_ms e'" "length (ev_meta e) = length (ev_meta e')"
    and last: "flatten_meta (sort_key fst (ev_meta e)) @
      [if ev_redacted e then ''1'' else ''0'', ev_payload_hash e, ev_prev_hash e] =
      flatten_meta (sort_key fst (ev_meta e')) @
      [if ev_redacted e' then ''1'' else ''0'', ev_payload_hash e', ev_prev_hash e']"
    by auto
  from last mid(4) have "flatten_meta (sort_key fst (ev_meta e)) = flatten_meta (sort_key fst (ev_meta e'))"
    and fin: "[if ev_redacted e then ''1'' else ''0'', ev_payload_hash e, ev_prev_hash e] =
      [if ev_redacted e' then ''1'' else ''0'', ev_payload_hash e', ev_prev_hash e']"
    by (auto simp: append_eq_append_conv flatten_meta_length)
  then have "sort_key fst (ev_meta e) = sort_key fst (ev_meta e')" by (simp add: flatten_meta_inject)
  then have "mset (ev_meta e) = mset (ev_meta e')" by (metis mset_sort)
  with head args mid fin show ?thesis by (auto simp: same_core_def split: if_splits)
qed

lemma encodeEvent_inject:
  assumes "encodeEvent P e = encodeEvent P e'" "small_event P e" "small_event P e'"
  shows "same_core P e e'"
proof -
  have "event_fields P e = event_fields P e'"
    using assms by (intro fields_inject) (auto simp: encodeEvent_fields small_event_def list_all_iff)
  then show ?thesis by (rule event_fields_inject)
qed

text \<open>Conversely, a map's iteration order does not reach the encoding.\<close>

lemma sort_key_distinct_unique:
  assumes "mset m = mset m'" "distinct (map fst m)"
  shows "sort_key fst m = sort_key fst m'"
proof (rule properties_for_sort_key)
  have d': "distinct (map fst m')"
    using assms by (metis distinct_map mset_eq_imp_distinct_iff mset_map)
  show "mset (sort_key fst m') = mset m" using assms(1) by simp
  show "sorted (map fst (sort_key fst m'))" by simp
  fix k
  assume k: "k \<in> set (sort_key fst m')"
  have one: "filter (\<lambda>x. fst k = fst x) xs = [k]" if "distinct (map fst xs)" "k \<in> set xs" for xs
    using that
  proof (induction xs)
    case Nil
    then show ?case by simp
  next
    case (Cons a xs)
    then show ?case by (auto simp: filter_empty_conv rev_image_eqI)
  qed
  have "distinct (map fst (sort_key fst m'))"
    using d' by (metis mset_eq_imp_distinct_iff mset_map mset_sort)
  moreover have "k \<in> set m" using k assms(1) by (metis mset_eq_setD set_sort)
  ultimately show "filter (\<lambda>x. fst k = fst x) (sort_key fst m') = filter (\<lambda>x. fst k = fst x) m"
    using one k assms(2) by metis
qed

lemma encodeEvent_meta_order:
  assumes "mset m = mset (ev_meta e)" "distinct (map fst m)"
  shows "encodeEvent P (e\<lparr>ev_meta := m\<rparr>) = encodeEvent P e"
proof -
  have "length m = length (ev_meta e)" using assms(1) by (metis size_mset)
  with sort_key_distinct_unique [OF assms] show ?thesis
    by (simp add: encodeEvent_fields event_fields_def)
qed

lemma encodeEvent_unhashed [simp]:
  "encodeEvent P (e\<lparr>ev_hash := h\<rparr>) = encodeEvent P e"
  "encodeEvent P (e\<lparr>ev_key_id := k\<rparr>) = encodeEvent P e"
  "encodeEvent P (e\<lparr>ev_sig := g\<rparr>) = encodeEvent P e"
  by (simp_all add: encodeEvent_def)

lemma hashEvent_unhashed [simp]:
  "hashEvent P (e\<lparr>ev_hash := h\<rparr>) = hashEvent P e"
  "hashEvent P (e\<lparr>ev_key_id := k\<rparr>) = hashEvent P e"
  "hashEvent P (e\<lparr>ev_sig := g\<rparr>) = hashEvent P e"
  by (simp_all add: hashEvent_def)

section \<open>Property\<close>

text \<open>
  C4. The record hash commits to the record: for events whose strings have lengths a Go string can
  have, equal pre-images of the hash mean equal sequence number, time rendering, session, sandbox,
  profile, tool, action, arguments, verdict, exit code, duration, metadata, redaction flag, payload
  hash and previous hash; and the pre-image does not depend on the iteration order of the metadata
  map. So no field can imitate another, and two events that differ in a hashed field and have the
  same record hash are a SHA-256 collision.
\<close>

theorem encodeEvent_commits:
  assumes "small_event P e" "small_event P e'"
  shows "(encodeEvent P e = encodeEvent P e' \<longrightarrow> same_core P e e') \<and>
    (mset m = mset (ev_meta e) \<and> distinct (map fst m) \<longrightarrow>
       hashEvent P (e\<lparr>ev_meta := m\<rparr>) = hashEvent P e)"
  using encodeEvent_inject [OF _ assms] encodeEvent_meta_order by (auto simp: hashEvent_def)

theorem encodeEvent_commits_witness:
  "hashEvent \<lparr>sha256hex = id, rfc3339nano = show_int\<rparr>
     (zero_event\<lparr>ev_meta := [(''b'', ''2''), (''a'', ''1'')]\<rparr>) =
   hashEvent \<lparr>sha256hex = id, rfc3339nano = show_int\<rparr>
     (zero_event\<lparr>ev_meta := [(''a'', ''1''), (''b'', ''2'')]\<rparr>)"
proof -
  let ?P = "\<lparr>sha256hex = id, rfc3339nano = show_int\<rparr>"
  let ?e = "zero_event\<lparr>ev_meta := [(''a'', ''1''), (''b'', ''2'')]\<rparr>"
  have "list_all (\<lambda>s. length s < 3) (event_fields ?P ?e)" by code_simp
  then have small: "small_event ?P ?e" by (auto simp: small_event_def list_all_iff)
  have "mset [(''b'', ''2''), (''a'', ''1'')] = mset (ev_meta ?e)"
    by (simp add: zero_event_def add_mset_commute)
  moreover have "distinct (map fst [(''b'', ''2''), (''a'', ''1'')])" by simp
  ultimately have "hashEvent ?P (?e\<lparr>ev_meta := [(''b'', ''2''), (''a'', ''1'')]\<rparr>) = hashEvent ?P ?e"
    using encodeEvent_commits [OF small small, of "[(''b'', ''2''), (''a'', ''1'')]"] by blast
  then show ?thesis by simp
qed

end
