(* ===== verification/Ledger.thy ===== *)
theory Ledger
  imports Ledger_Encoding
begin

text \<open>
  The append-only, hash-chained ledger of \<^verbatim>\<open>internal/ledger/ledger.go\<close>: the file as a byte
  string, \<^verbatim>\<open>Open\<close>, \<^verbatim>\<open>Append\<close>, \<^verbatim>\<open>Records\<close>, \<^verbatim>\<open>Verify\<close>, \<^verbatim>\<open>Replay\<close>,
  the selection of \<^verbatim>\<open>Export\<close>, and \<^verbatim>\<open>Redact\<close>.

  \<^verbatim>\<open>encoding/json\<close> is the record \<open>codec\<close>, an argument of the operations; what a theorem needs of it
  is the hypothesis \<open>codec_ok\<close> (a marshalled event is one non-empty line that unmarshals to the same
  event). The outcome of a write is the argument \<open>append_io\<close>: it succeeds, it fails after some bytes
  reached the file, or the bytes reached the file and the sync fails.
\<close>

section \<open>The file\<close>

record codec =
  marshal :: "event \<Rightarrow> string option"
  unmarshal :: "string \<Rightarrow> event option"

datatype ledger_error =
    ErrClosed
  | ErrMarshal int
  | ErrWrite int
  | ErrSync int
  | ErrParse nat
  | ErrOutOfOrder nat int
  | ErrBrokenChain int
  | ErrTampered int

abbreviation nl :: char where "nl \<equiv> CHR 0x0A"
abbreviation cr :: char where "cr \<equiv> CHR 0x0D"

definition trimTrailingNewline :: "string \<Rightarrow> string" where
  "trimTrailingNewline b =
     (if b \<noteq> [] \<and> last b = nl then
        (let b' = butlast b in if b' \<noteq> [] \<and> last b' = cr then butlast b' else b')
      else b)"

text \<open>
  The reading loop over what \<^verbatim>\<open>ReadBytes('\n')\<close> returns: every piece of the file but the last
  still carries its newline.
\<close>

fun readLines :: "codec \<Rightarrow> nat \<Rightarrow> string list \<Rightarrow> (ledger_error, event list) result" where
  "readLines C line [] = Inr []"
| "readLines C line (b # bs) =
     (let trimmed = trimTrailingNewline (if bs = [] then b else b @ [nl]) in
      if trimmed = [] then readLines C (Suc line) bs
      else (case unmarshal C trimmed of
              None \<Rightarrow> Inl (ErrParse line)
            | Some ev \<Rightarrow>
                (case readLines C (Suc line) bs of
                   Inl e \<Rightarrow> Inl e
                 | Inr evs \<Rightarrow> Inr (ev # evs))))"

definition readAll :: "codec \<Rightarrow> string \<Rightarrow> (ledger_error, event list) result" where
  "readAll C file = readLines C 1 (split_byte nl file)"

section \<open>The ledger and its operations\<close>

record signer =
  sg_key_id :: string
  sg_sign :: "string \<Rightarrow> string"

record ledger =
  lg_open :: bool
  lg_file :: string
  lg_tip :: string
  lg_seq :: int
  lg_signer :: "signer option"

datatype append_io = IoOk | IoWriteFails nat | IoSyncFails

definition Open :: "codec \<Rightarrow> string \<Rightarrow> (ledger_error, ledger) result" where
  "Open C file =
     (case readAll C file of
        Inl e \<Rightarrow> Inl e
      | Inr recs \<Rightarrow>
          Inr \<lparr>lg_open = True, lg_file = file,
               lg_tip = (if recs = [] then [] else ev_hash (last recs)),
               lg_seq = (if recs = [] then 0 else ev_seq (last recs)), lg_signer = None\<rparr>)"

definition SetSigner :: "signer option \<Rightarrow> ledger \<Rightarrow> ledger" where
  "SetSigner s l = l\<lparr>lg_signer := s\<rparr>"

definition Close :: "ledger \<Rightarrow> ledger" where
  "Close l = l\<lparr>lg_open := False\<rparr>"

text \<open>The event as it is stored: chain fields, time, hash and signature filled in.\<close>

definition stamp :: "prims \<Rightarrow> gotime \<Rightarrow> ledger \<Rightarrow> event \<Rightarrow> event" where
  "stamp P now l ev =
     (let ev = ev\<lparr>ev_seq := lg_seq l + 1\<rparr>;
          ev = (if is_zero_time (ev_time ev) then ev\<lparr>ev_time := now\<rparr> else ev);
          ev = ev\<lparr>ev_prev_hash := lg_tip l\<rparr>;
          ev = ev\<lparr>ev_hash := hashEvent P ev\<rparr> in
      case lg_signer l of
        None \<Rightarrow> ev
      | Some s \<Rightarrow> ev\<lparr>ev_key_id := sg_key_id s, ev_sig := sg_sign s (ev_hash ev)\<rparr>)"

definition Append ::
  "prims \<Rightarrow> codec \<Rightarrow> append_io \<Rightarrow> gotime \<Rightarrow> event \<Rightarrow> ledger \<Rightarrow> (ledger_error, event) result \<times> ledger" where
  "Append P C io now ev l =
     (if \<not> lg_open l then (Inl ErrClosed, l)
      else
        (let ev = stamp P now l ev in
         case marshal C ev of
           None \<Rightarrow> (Inl (ErrMarshal (ev_seq ev)), l)
         | Some js \<Rightarrow>
             (let line = js @ [nl] in
              case io of
                IoWriteFails n \<Rightarrow> (Inl (ErrWrite (ev_seq ev)), l\<lparr>lg_file := lg_file l @ take n line\<rparr>)
              | IoSyncFails \<Rightarrow> (Inl (ErrSync (ev_seq ev)), l\<lparr>lg_file := lg_file l @ line\<rparr>)
              | IoOk \<Rightarrow> (Inr ev, l\<lparr>lg_file := lg_file l @ line, lg_seq := ev_seq ev,
                                    lg_tip := ev_hash ev\<rparr>))))"

definition Records :: "codec \<Rightarrow> ledger \<Rightarrow> (ledger_error, event list) result" where
  "Records C l = readAll C (lg_file l)"

text \<open>The loop of \<^verbatim>\<open>Verify\<close>; \<open>i\<close> is the zero-based index of the next record.\<close>

fun verifyChain :: "prims \<Rightarrow> nat \<Rightarrow> string \<Rightarrow> event list \<Rightarrow> ledger_error option" where
  "verifyChain P i prev [] = None"
| "verifyChain P i prev (ev # evs) =
     (if ev_seq ev \<noteq> int i + 1 then Some (ErrOutOfOrder (Suc i) (ev_seq ev))
      else if ev_prev_hash ev \<noteq> prev then Some (ErrBrokenChain (ev_seq ev))
      else if ev_hash ev \<noteq> hashEvent P ev then Some (ErrTampered (ev_seq ev))
      else verifyChain P (Suc i) (ev_hash ev) evs)"

definition Verify :: "prims \<Rightarrow> codec \<Rightarrow> ledger \<Rightarrow> ledger_error option" where
  "Verify P C l =
     (case readAll C (lg_file l) of
        Inl e \<Rightarrow> Some e
      | Inr recs \<Rightarrow> verifyChain P 0 [] recs)"

definition Replay :: "codec \<Rightarrow> ledger \<Rightarrow> string \<Rightarrow> (ledger_error, event list) result" where
  "Replay C l sessionID = map_sum id (filter (\<lambda>ev. ev_session ev = sessionID)) (readAll C (lg_file l))"

definition exportEvents :: "codec \<Rightarrow> ledger \<Rightarrow> string \<Rightarrow> (ledger_error, event list) result" where
  "exportEvents C l sessionID =
     map_sum id (\<lambda>recs. if sessionID \<noteq> [] then filter (\<lambda>ev. ev_session ev = sessionID) recs else recs)
       (readAll C (lg_file l))"

section \<open>Redaction\<close>

definition redactString :: "prims \<Rightarrow> string \<Rightarrow> string" where
  "redactString P s = (if s = [] then [] else ''sha256:'' @ sha256hex P s)"

definition Redact :: "prims \<Rightarrow> event \<Rightarrow> string list \<Rightarrow> event" where
  "Redact P ev sensitive =
     (let ev' = ev\<lparr>ev_payload_hash := hashPayload P ev, ev_redacted := True\<rparr>;
          r = (if sensitive = [] then redactString P
               else (\<lambda>s. if s \<in> set sensitive then redactString P s else s)) in
      ev'\<lparr>ev_action := r (ev_action ev), ev_args := map r (ev_args ev),
          ev_meta := map (\<lambda>(k, v). (k, r v)) (ev_meta ev)\<rparr>)"

section \<open>Reading what was written\<close>

definition codec_ok :: "codec \<Rightarrow> event \<Rightarrow> bool" where
  "codec_ok C ev \<longleftrightarrow>
     (\<exists>js. marshal C ev = Some js \<and> js \<noteq> [] \<and> nl \<notin> set js \<and> last js \<noteq> cr \<and> unmarshal C js = Some ev)"

definition whole_lines :: "string \<Rightarrow> bool" where
  "whole_lines file = (file = [] \<or> last file = nl)"

lemma split_byte_snoc: "split_byte c (s @ c # t) = split_byte c s @ split_byte c t"
  by (induction s) (auto split: list.splits)

lemma readLines_append:
  "readLines C n (xs @ y # ys) =
     (case readLines C n (xs @ [[]]) of
        Inl e \<Rightarrow> Inl e
      | Inr evs \<Rightarrow> map_sum id ((@) evs) (readLines C (n + length xs) (y # ys)))"
proof (induction xs arbitrary: n)
  case Nil
  have "map_sum id ((@) []) r = r" for r :: "(ledger_error, event list) result"
    by (cases r) auto
  then show ?case by (simp add: trimTrailingNewline_def)
next
  case (Cons x xs)
  have "readLines C n ((x # xs) @ y # ys) =
      (let trimmed = trimTrailingNewline (x @ [nl]) in
       if trimmed = [] then readLines C (Suc n) (xs @ y # ys)
       else (case unmarshal C trimmed of
               None \<Rightarrow> Inl (ErrParse n)
             | Some ev \<Rightarrow> map_sum id ((#) ev) (readLines C (Suc n) (xs @ y # ys))))"
    for ys y
    by (auto simp: Let_def split: option.splits sum.splits)
  note unfold = this [of y ys] this [of "[]" "[]"]
  have "map_sum id ((@) (e # evs)) r = map_sum id ((#) e) (map_sum id ((@) evs) r)"
    for e evs and r :: "(ledger_error, event list) result"
    by (cases r) auto
  with Cons.IH [of "Suc n"] show ?case
    unfolding unfold by (simp add: Let_def split: option.split sum.split del: readLines.simps)
qed

lemma readLines_one:
  assumes "js \<noteq> []" "nl \<notin> set js" "last js \<noteq> cr" "unmarshal C js = Some ev"
  shows "readLines C n [js, []] = Inr [ev]"
  using assms by (simp add: trimTrailingNewline_def Let_def)

lemma readAll_snoc:
  assumes "whole_lines file" "readAll C file = Inr recs"
    and "js \<noteq> []" "nl \<notin> set js" "last js \<noteq> cr" "unmarshal C js = Some ev"
  shows "readAll C (file @ js @ [nl]) = Inr (recs @ [ev])"
proof (cases "file = []")
  case True
  with assms(2) have "recs = []" by (simp add: readAll_def trimTrailingNewline_def)
  with True assms(3-6) show ?thesis
    by (simp add: readAll_def split_byte_append readLines_one del: readLines.simps)
next
  case False
  then obtain s where fs: "file = s @ [nl]"
    using assms(1) by (metis append_butlast_last_id whole_lines_def)
  have old: "readLines C 1 (split_byte nl s @ [[]]) = Inr recs"
    using assms(2) by (simp add: fs readAll_def split_byte_snoc)
  have "split_byte nl (file @ js @ [nl]) = split_byte nl s @ js # [[]]"
    using assms(4) by (simp add: fs split_byte_snoc split_byte_no_sep)
  then show ?thesis
    using old readLines_one [OF assms(3-6)] readLines_append [of C 1 "split_byte nl s" js "[[]]"]
    by (simp add: readAll_def del: readLines.simps)
qed

section \<open>The chain\<close>

definition chain_tip :: "event list \<Rightarrow> string" where
  "chain_tip recs = (if recs = [] then [] else ev_hash (last recs))"

lemma verifyChain_append:
  "verifyChain P i prev (xs @ ys) =
     (case verifyChain P i prev xs of
        Some e \<Rightarrow> Some e
      | None \<Rightarrow> verifyChain P (i + length xs) (if xs = [] then prev else ev_hash (last xs)) ys)"
  by (induction xs arbitrary: i prev) (auto split: option.split)

lemma verifyChain_snoc:
  "verifyChain P 0 [] (recs @ [ev]) = None \<longleftrightarrow>
     verifyChain P 0 [] recs = None \<and> ev_seq ev = int (length recs) + 1 \<and>
     ev_prev_hash ev = chain_tip recs \<and> ev_hash ev = hashEvent P ev"
  by (auto simp: verifyChain_append chain_tip_def split: option.splits)

lemma verifyChain_last_seq:
  "verifyChain P 0 [] recs = None \<Longrightarrow> recs \<noteq> [] \<Longrightarrow> ev_seq (last recs) = int (length recs)"
  by (cases recs rule: rev_cases) (auto simp: verifyChain_snoc)

lemma verifyChain_seqs:
  "verifyChain P i prev recs = None \<Longrightarrow> n < length recs \<Longrightarrow> ev_seq (recs ! n) = int (i + n) + 1"
proof (induction recs arbitrary: i prev n)
  case Nil
  then show ?case by simp
next
  case (Cons ev recs)
  then have "verifyChain P (Suc i) (ev_hash ev) recs = None" and "ev_seq ev = int i + 1"
    by (auto split: if_splits)
  with Cons.IH [of "Suc i" "ev_hash ev" "n - 1"] Cons.prems(2) show ?case by (cases n) auto
qed

section \<open>The ledger invariant\<close>

text \<open>
  An open ledger whose file holds whole lines of a verified chain and whose tip and sequence number
  are those of the last record.
\<close>

definition ledger_inv :: "prims \<Rightarrow> codec \<Rightarrow> ledger \<Rightarrow> bool" where
  "ledger_inv P C l \<longleftrightarrow>
     lg_open l \<and> whole_lines (lg_file l) \<and>
     (case readAll C (lg_file l) of
        Inl e \<Rightarrow> False
      | Inr recs \<Rightarrow> verifyChain P 0 [] recs = None \<and> lg_tip l = chain_tip recs \<and>
                     lg_seq l = int (length recs))"

definition empty_ledger :: ledger where
  "empty_ledger = \<lparr>lg_open = True, lg_file = [], lg_tip = [], lg_seq = 0, lg_signer = None\<rparr>"

lemma ledger_inv_empty: "ledger_inv P C empty_ledger"
  by (simp add: ledger_inv_def empty_ledger_def whole_lines_def readAll_def trimTrailingNewline_def
      chain_tip_def)

lemma stamp_chain:
  "ev_seq (stamp P now l ev) = lg_seq l + 1" "ev_prev_hash (stamp P now l ev) = lg_tip l"
  "ev_hash (stamp P now l ev) = hashEvent P (stamp P now l ev)"
  by (auto simp: stamp_def Let_def split: option.splits)

lemma stamp_payload:
  "ev_session (stamp P now l ev) = ev_session ev" "ev_sandbox (stamp P now l ev) = ev_sandbox ev"
  "ev_profile (stamp P now l ev) = ev_profile ev" "ev_tool (stamp P now l ev) = ev_tool ev"
  "ev_action (stamp P now l ev) = ev_action ev" "ev_args (stamp P now l ev) = ev_args ev"
  "ev_verdict (stamp P now l ev) = ev_verdict ev" "ev_exit_code (stamp P now l ev) = ev_exit_code ev"
  "ev_duration_ms (stamp P now l ev) = ev_duration_ms ev" "ev_meta (stamp P now l ev) = ev_meta ev"
  "ev_redacted (stamp P now l ev) = ev_redacted ev"
  "ev_payload_hash (stamp P now l ev) = ev_payload_hash ev"
  by (auto simp: stamp_def Let_def split: option.splits)

lemma stamp_time:
  "ev_time (stamp P now l ev) = (if is_zero_time (ev_time ev) then now else ev_time ev)"
  by (auto simp: stamp_def Let_def split: option.splits)

lemma Append_ok:
  assumes inv: "ledger_inv P C l" and codec: "codec_ok C (stamp P now l ev)"
    and recs: "Records C l = Inr recs"
  shows "Append P C IoOk now ev l = (Inr (stamp P now l ev), snd (Append P C IoOk now ev l)) \<and>
    ledger_inv P C (snd (Append P C IoOk now ev l)) \<and>
    Records C (snd (Append P C IoOk now ev l)) = Inr (recs @ [stamp P now l ev])"
proof -
  let ?ev = "stamp P now l ev"
  from codec obtain js where js: "marshal C ?ev = Some js" "js \<noteq> []" "nl \<notin> set js" "last js \<noteq> cr"
    "unmarshal C js = Some ?ev" by (auto simp: codec_ok_def)
  from inv recs have l: "lg_open l" "whole_lines (lg_file l)" "verifyChain P 0 [] recs = None"
    "lg_tip l = chain_tip recs" "lg_seq l = int (length recs)"
    by (auto simp: ledger_inv_def Records_def)
  have app: "Append P C IoOk now ev l = (Inr ?ev, l\<lparr>lg_file := lg_file l @ js @ [nl],
      lg_seq := ev_seq ?ev, lg_tip := ev_hash ?ev\<rparr>)"
    using js(1) l(1) by (simp add: Append_def Let_def)
  have read: "readAll C (lg_file l @ js @ [nl]) = Inr (recs @ [?ev])"
    using recs l(2) js by (intro readAll_snoc) (auto simp: Records_def)
  have "verifyChain P 0 [] (recs @ [?ev]) = None"
    using l by (simp add: verifyChain_snoc stamp_chain)
  then have "ledger_inv P C (snd (Append P C IoOk now ev l))"
    using app read l by (simp add: ledger_inv_def whole_lines_def chain_tip_def stamp_chain)
  with app read show ?thesis by (simp add: Records_def)
qed

section \<open>Tamper evidence\<close>

definition collision :: "prims \<Rightarrow> bool" where
  "collision P = (\<exists>x y. x \<noteq> y \<and> sha256hex P x = sha256hex P y)"

lemma same_hash_same_core:
  assumes "hashEvent P e = hashEvent P e'" "small_event P e" "small_event P e'"
  shows "same_core P e e' \<or> collision P"
  using assms encodeEvent_inject [of P e e'] by (auto simp: hashEvent_def collision_def)

lemma verified_chains_agree:
  assumes "verifyChain P 0 [] xs = None" "verifyChain P 0 [] ys = None" "chain_tip xs = chain_tip ys"
    and "list_all (small_event P) xs" "list_all (small_event P) ys" "length xs = length ys"
  shows "list_all2 (same_core P) xs ys \<or> collision P"
  using assms
proof (induction xs arbitrary: ys rule: rev_induct)
  case Nil
  then show ?case by simp
next
  case (snoc x xs)
  then obtain ys' y where ys: "ys = ys' @ [y]" by (cases ys rule: rev_cases) auto
  have hx: "hashEvent P x = hashEvent P y"
    using snoc.prems by (simp add: ys verifyChain_snoc chain_tip_def)
  have "same_core P x y \<or> collision P"
    using same_hash_same_core [OF hx] snoc.prems by (simp add: ys)
  then show ?case
  proof
    assume core: "same_core P x y"
    then have "chain_tip xs = chain_tip ys'"
      using snoc.prems by (simp add: ys verifyChain_snoc same_core_def)
    then have "list_all2 (same_core P) xs ys' \<or> collision P"
      using snoc.prems by (intro snoc.IH) (auto simp: ys verifyChain_snoc)
    with core show ?thesis using snoc.prems by (auto simp: ys list_all2_append)
  qed blast
qed

lemma verified_chains_same_tip_same_length:
  assumes "verifyChain P 0 [] xs = None" "verifyChain P 0 [] ys = None" "xs \<noteq> []" "ys \<noteq> []"
    and "chain_tip xs = chain_tip ys" "small_event P (last xs)" "small_event P (last ys)"
  shows "length xs = length ys \<or> collision P"
proof -
  have "hashEvent P (last xs) = hashEvent P (last ys)"
    using assms(1-5)
    by (cases xs rule: rev_cases; cases ys rule: rev_cases) (auto simp: verifyChain_snoc chain_tip_def)
  from same_hash_same_core [OF this assms(6,7)] show ?thesis
    using verifyChain_last_seq [OF assms(1,3)] verifyChain_last_seq [OF assms(2,4)]
    by (auto simp: same_core_def)
qed

section \<open>Restart\<close>

lemma Open_recovers:
  assumes "ledger_inv P C l"
  shows "Open C (lg_file l) = Inr (l\<lparr>lg_signer := None\<rparr>)"
proof -
  from assms obtain recs where recs: "readAll C (lg_file l) = Inr recs"
    "verifyChain P 0 [] recs = None" "lg_tip l = chain_tip recs" "lg_seq l = int (length recs)"
    and op: "lg_open l"
    by (auto simp: ledger_inv_def split: sum.splits)
  then show ?thesis
    by (cases "recs = []") (auto simp: Open_def chain_tip_def verifyChain_last_seq)
qed

section \<open>Properties\<close>

text \<open>
  An append extends a healthy ledger by exactly one record: if the file holds a verified chain and
  the JSON codec round-trips the stored event, \<^verbatim>\<open>Append\<close> returns the stored event, the file then
  reads back as the old records followed by it, the chain still verifies, and the record keeps the
  caller's session, tool, action, arguments, verdict and metadata. The result is again a healthy
  ledger, so this holds along any sequence of appends, and reopening its file recovers its tip and
  sequence number.
\<close>

theorem Append_extends_verified_chain:
  assumes "ledger_inv P C l" "codec_ok C (stamp P now l ev)" "Records C l = Inr recs"
  shows "\<exists>ev' l'. Append P C IoOk now ev l = (Inr ev', l') \<and> ledger_inv P C l' \<and>
    Records C l' = Inr (recs @ [ev']) \<and> Verify P C l' = None \<and>
    ev_seq ev' = int (length recs) + 1 \<and>
    ev_session ev' = ev_session ev \<and> ev_tool ev' = ev_tool ev \<and> ev_action ev' = ev_action ev \<and>
    ev_args ev' = ev_args ev \<and> ev_verdict ev' = ev_verdict ev \<and> ev_meta ev' = ev_meta ev \<and>
    Open C (lg_file l') = Inr (l'\<lparr>lg_signer := None\<rparr>)"
proof -
  let ?l = "snd (Append P C IoOk now ev l)"
  from Append_ok [OF assms] have app: "Append P C IoOk now ev l = (Inr (stamp P now l ev), ?l)"
    and inv: "ledger_inv P C ?l" and read: "Records C ?l = Inr (recs @ [stamp P now l ev])" by auto
  have "Verify P C ?l = None"
    using inv read by (simp add: ledger_inv_def Verify_def Records_def)
  moreover have "lg_seq l = int (length recs)"
    using assms(1,3) by (simp add: ledger_inv_def Records_def)
  ultimately show ?thesis
    using app inv read Open_recovers [OF inv]
    by (intro exI [of _ "stamp P now l ev"] exI [of _ ?l]) (auto simp: stamp_payload stamp_chain)
qed

text \<open>A codec for one event, for the witnesses.\<close>

definition codec1 :: "event \<Rightarrow> codec" where
  "codec1 e = \<lparr>marshal = (\<lambda>ev. if ev = e then Some ''x'' else None), unmarshal = (\<lambda>_. Some e)\<rparr>"

definition id_prims :: prims where
  "id_prims = \<lparr>sha256hex = id, rfc3339nano = show_int\<rparr>"

theorem Append_extends_verified_chain_witness:
  "\<exists>C ev' l'. Append id_prims C IoOk 7 (zero_event\<lparr>ev_tool := ''shell''\<rparr>) empty_ledger = (Inr ev', l') \<and>
     Records C l' = Inr [ev'] \<and> Verify id_prims C l' = None"
proof -
  let ?ev = "zero_event\<lparr>ev_tool := ''shell''\<rparr>"
  let ?C = "codec1 (stamp id_prims 7 empty_ledger ?ev)"
  have ok: "codec_ok ?C (stamp id_prims 7 empty_ledger ?ev)" by (simp add: codec_ok_def codec1_def)
  have "Records ?C empty_ledger = Inr []"
    by (simp add: Records_def empty_ledger_def readAll_def trimTrailingNewline_def)
  from Append_extends_verified_chain [OF ledger_inv_empty ok this] show ?thesis by auto
qed


definition ev_example :: event where
  "ev_example = (let e = zero_event\<lparr>ev_seq := 1, ev_tool := ''shell''\<rparr> in
     e\<lparr>ev_hash := hashEvent id_prims e\<rparr>)"

lemma ev_example_fields:
  "ev_seq ev_example = 1" "ev_prev_hash ev_example = []"
  "ev_hash ev_example = hashEvent id_prims ev_example"
  by (simp_all add: ev_example_def Let_def) (simp add: zero_event_def)


text \<open>
  A failed sync poisons the chain: \<^verbatim>\<open>Append\<close> leaves the line in the file when only the sync
  fails, but does not advance the sequence number, so the next successful append writes a second
  record with the same number and every later \<^verbatim>\<open>Verify\<close> reports the ledger as out of order,
  although nobody tampered with it.
\<close>

theorem failed_sync_breaks_verification:
  assumes "ledger_inv P C l" "Records C l = Inr recs"
    and "codec_ok C (stamp P t1 l ev1)" "codec_ok C (stamp P t2 l ev2)"
  shows "\<exists>e. Verify P C (snd (Append P C IoOk t2 ev2 (snd (Append P C IoSyncFails t1 ev1 l)))) = Some e"
proof -
  let ?e1 = "stamp P t1 l ev1" and ?e2 = "stamp P t2 l ev2"
  from assms(3) obtain j1 where j1: "marshal C ?e1 = Some j1" "j1 \<noteq> []" "nl \<notin> set j1" "last j1 \<noteq> cr"
    "unmarshal C j1 = Some ?e1" by (auto simp: codec_ok_def)
  from assms(4) obtain j2 where j2: "marshal C ?e2 = Some j2" "j2 \<noteq> []" "nl \<notin> set j2" "last j2 \<noteq> cr"
    "unmarshal C j2 = Some ?e2" by (auto simp: codec_ok_def)
  from assms(1,2) have l: "lg_open l" "whole_lines (lg_file l)" "lg_seq l = int (length recs)"
    "readAll C (lg_file l) = Inr recs"
    by (auto simp: ledger_inv_def Records_def)
  let ?l1 = "l\<lparr>lg_file := lg_file l @ j1 @ [nl]\<rparr>"
  have a1: "snd (Append P C IoSyncFails t1 ev1 l) = ?l1"
    using j1(1) l(1) by (simp add: Append_def Let_def)
  have st: "stamp P t2 ?l1 ev2 = ?e2" by (simp add: stamp_def)
  have a2: "lg_file (snd (Append P C IoOk t2 ev2 ?l1)) = (lg_file l @ j1 @ [nl]) @ j2 @ [nl]"
    using j2(1) l(1) by (simp add: Append_def Let_def st)
  have "readAll C (lg_file l @ j1 @ [nl]) = Inr (recs @ [?e1])"
    using l j1 by (intro readAll_snoc)
  moreover have "whole_lines (lg_file l @ j1 @ [nl])" by (simp add: whole_lines_def)
  ultimately have "readAll C ((lg_file l @ j1 @ [nl]) @ j2 @ [nl]) = Inr ((recs @ [?e1]) @ [?e2])"
    using readAll_snoc [OF _ _ j2(2-5)] by blast
  then have "Verify P C (snd (Append P C IoOk t2 ev2 (snd (Append P C IoSyncFails t1 ev1 l)))) =
      verifyChain P 0 [] ((recs @ [?e1]) @ [?e2])"
    unfolding a1 by (simp add: Verify_def a2)
  moreover have "verifyChain P 0 [] ((recs @ [?e1]) @ [?e2]) \<noteq> None"
    by (subst verifyChain_snoc) (simp add: stamp_chain l(3))
  ultimately show ?thesis by auto
qed

theorem failed_sync_breaks_verification_witness:
  "\<exists>C e. Verify id_prims C (snd (Append id_prims C IoOk 7 zero_event
       (snd (Append id_prims C IoSyncFails 7 zero_event empty_ledger)))) = Some e"
proof -
  let ?C = "codec1 (stamp id_prims 7 empty_ledger zero_event)"
  have ok: "codec_ok ?C (stamp id_prims 7 empty_ledger zero_event)"
    by (simp add: codec_ok_def codec1_def)
  have "Records ?C empty_ledger = Inr []"
    by (simp add: Records_def empty_ledger_def readAll_def trimTrailingNewline_def)
  from failed_sync_breaks_verification [OF ledger_inv_empty this ok ok] show ?thesis by blast
qed

end
