(* ===== verification/Ledger_Sign.thy ===== *)
theory Ledger_Sign
  imports Ledger
begin

text \<open>
  Signatures and portable transcripts: \<^verbatim>\<open>internal/ledger/sign.go\<close> (\<^verbatim>\<open>verifyRecords\<close>,
  \<^verbatim>\<open>ExportBundle\<close>, \<^verbatim>\<open>VerifyBundle\<close>) and \<^verbatim>\<open>internal/evidence/evidence.go\<close>.

  Ed25519 verification and standard base64 are the fields of the record \<open>sigprims\<close>. A bundle is
  modelled after its JSON has been decoded. Reading and writing key files is not modelled.
\<close>

section \<open>Keys\<close>

record sigprims =
  ed_verify :: "string \<Rightarrow> string \<Rightarrow> string \<Rightarrow> bool"
  b64_encode :: "string \<Rightarrow> string"
  b64_decode :: "string \<Rightarrow> string option"

text \<open>The first eight bytes of SHA-256 of the key in hexadecimal: sixteen digits of the digest.\<close>

definition keyID :: "prims \<Rightarrow> string \<Rightarrow> string" where
  "keyID P pub = take 16 (sha256hex P pub)"

definition encodePub :: "sigprims \<Rightarrow> string \<Rightarrow> string" where
  "encodePub S pub = b64_encode S pub"

definition decodePub :: "sigprims \<Rightarrow> string \<Rightarrow> string option" where
  "decodePub S s =
     (case b64_decode S s of
        None \<Rightarrow> None
      | Some b \<Rightarrow> if length b \<noteq> 32 then None else Some b)"

definition newSigner :: "prims \<Rightarrow> sigprims \<Rightarrow> (string \<Rightarrow> string) \<Rightarrow> string \<Rightarrow> signer" where
  "newSigner P S ed_sign pub =
     \<lparr>sg_key_id = keyID P pub, sg_sign = (\<lambda>h. b64_encode S (ed_sign h))\<rparr>"

section \<open>Verifying records\<close>

datatype sign_error =
    SigNoKey
  | SigOutOfOrder nat int
  | SigBrokenChain int
  | SigTampered int
  | SigMissing int
  | SigBadEncoding int
  | SigInvalid int

definition sig_ok :: "sigprims \<Rightarrow> string \<Rightarrow> event \<Rightarrow> bool" where
  "sig_ok S pub ev =
     (case b64_decode S (ev_sig ev) of None \<Rightarrow> False | Some sig \<Rightarrow> ed_verify S pub (ev_hash ev) sig)"

fun verifyRecordsLoop ::
  "prims \<Rightarrow> sigprims \<Rightarrow> string \<Rightarrow> bool \<Rightarrow> bool \<Rightarrow> nat \<Rightarrow> string \<Rightarrow> event list \<Rightarrow> sign_error option" where
  "verifyRecordsLoop P S pub hasVerifier reqAll i prev [] = None"
| "verifyRecordsLoop P S pub hasVerifier reqAll i prev (ev # evs) =
     (if ev_seq ev \<noteq> int i + 1 then Some (SigOutOfOrder (Suc i) (ev_seq ev))
      else if ev_prev_hash ev \<noteq> prev then Some (SigBrokenChain (ev_seq ev))
      else if ev_hash ev \<noteq> hashEvent P ev then Some (SigTampered (ev_seq ev))
      else if ev_sig ev = [] then
        (if reqAll then Some (SigMissing (ev_seq ev))
         else verifyRecordsLoop P S pub hasVerifier reqAll (Suc i) (ev_hash ev) evs)
      else if \<not> hasVerifier then verifyRecordsLoop P S pub hasVerifier reqAll (Suc i) (ev_hash ev) evs
      else (case b64_decode S (ev_sig ev) of
              None \<Rightarrow> Some (SigBadEncoding (ev_seq ev))
            | Some sig \<Rightarrow>
                if \<not> ed_verify S pub (ev_hash ev) sig then Some (SigInvalid (ev_seq ev))
                else verifyRecordsLoop P S pub hasVerifier reqAll (Suc i) (ev_hash ev) evs))"

definition verifyRecords :: "prims \<Rightarrow> sigprims \<Rightarrow> event list \<Rightarrow> string \<Rightarrow> bool \<Rightarrow> sign_error option" where
  "verifyRecords P S recs pub requireAll =
     (let hasVerifier = (length pub = 32) in
      if requireAll \<and> \<not> hasVerifier then Some SigNoKey
      else verifyRecordsLoop P S pub hasVerifier (requireAll \<or> hasVerifier) 0 [] recs)"

definition VerifySignatures ::
  "prims \<Rightarrow> sigprims \<Rightarrow> codec \<Rightarrow> ledger \<Rightarrow> string \<Rightarrow> bool \<Rightarrow> (ledger_error + sign_error) option" where
  "VerifySignatures P S C l pub requireAll =
     (case readAll C (lg_file l) of
        Inl e \<Rightarrow> Some (Inl e)
      | Inr recs \<Rightarrow> map_option Inr (verifyRecords P S recs pub requireAll))"

section \<open>Bundles\<close>

record evidence_bundle =
  bd_key_id :: string
  bd_public_key :: string
  bd_scope :: string
  bd_events :: "event list"

definition ExportBundle ::
  "prims \<Rightarrow> sigprims \<Rightarrow> codec \<Rightarrow> ledger \<Rightarrow> string \<Rightarrow> string \<Rightarrow> (ledger_error, evidence_bundle) result" where
  "ExportBundle P S C l sessionID pub =
     map_sum id
       (\<lambda>recs.
         \<lparr>bd_key_id = keyID P pub, bd_public_key = encodePub S pub,
          bd_scope = (if sessionID \<noteq> [] then ''session:'' @ sessionID else ''all''),
          bd_events = (if sessionID \<noteq> [] then filter (\<lambda>ev. ev_session ev = sessionID) recs else recs)\<rparr>)
       (readAll C (lg_file l))"

datatype bundle_error =
    BundleBadKey
  | BundleKeyMismatch
  | BundleHash nat
  | BundleOrder nat
  | BundleChain nat
  | BundleScope nat
  | BundleSigMissing nat
  | BundleSigEncoding nat
  | BundleSigInvalid nat

text \<open>The checks that compare an event with the one before it.\<close>

definition linkCheck :: "string \<Rightarrow> nat \<Rightarrow> event option \<Rightarrow> event \<Rightarrow> bundle_error option" where
  "linkCheck scope i prev ev =
     (case prev of
        None \<Rightarrow> None
      | Some p \<Rightarrow>
          if ev_seq ev \<le> ev_seq p then Some (BundleOrder i)
          else
            (let mustLink = (scope = [] \<or> scope = ''all'' \<or> ev_seq ev = ev_seq p + 1) in
             if mustLink \<and> ev_prev_hash ev \<noteq> ev_hash p then Some (BundleChain i) else None))"

fun verifyBundleLoop ::
  "prims \<Rightarrow> sigprims \<Rightarrow> string \<Rightarrow> string \<Rightarrow> nat \<Rightarrow> event option \<Rightarrow> event list \<Rightarrow> bundle_error option" where
  "verifyBundleLoop P S pub scope i prev [] = None"
| "verifyBundleLoop P S pub scope i prev (ev # evs) =
     (if ev_hash ev \<noteq> hashEvent P ev then Some (BundleHash i)
      else
        (case linkCheck scope i prev ev of
           Some e \<Rightarrow> Some e
         | None \<Rightarrow>
             if has_prefix scope ''session:'' \<and> ev_session ev \<noteq> drop 8 scope then Some (BundleScope i)
             else if ev_sig ev = [] then Some (BundleSigMissing i)
             else (case b64_decode S (ev_sig ev) of
                     None \<Rightarrow> Some (BundleSigEncoding i)
                   | Some sig \<Rightarrow>
                       if \<not> ed_verify S pub (ev_hash ev) sig then Some (BundleSigInvalid i)
                       else verifyBundleLoop P S pub scope (Suc i) (Some ev) evs)))"

definition VerifyBundle :: "prims \<Rightarrow> sigprims \<Rightarrow> evidence_bundle \<Rightarrow> (bundle_error, nat) result" where
  "VerifyBundle P S b =
     (case decodePub S (bd_public_key b) of
        None \<Rightarrow> Inl BundleBadKey
      | Some pub \<Rightarrow>
          if keyID P pub \<noteq> bd_key_id b then Inl BundleKeyMismatch
          else (case verifyBundleLoop P S pub (bd_scope b) 0 None (bd_events b) of
                  Some e \<Rightarrow> Inl e
                | None \<Rightarrow> Inr (length (bd_events b))))"

section \<open>Evidence documents\<close>

record finding =
  fd_severity :: string
  fd_field :: string
  fd_message :: string

record policy_snapshot =
  ps_name :: string
  ps_source :: string
  ps_image :: string
  ps_resolved :: string
  ps_sha256 :: string
  ps_findings :: "finding list"

record evidence_doc =
  doc_format :: string
  doc_generated_at :: gotime
  doc_runeward_version :: string
  doc_policy :: policy_snapshot
  doc_chronicle :: evidence_bundle

definition evidence_format :: string where
  "evidence_format = ''runeward-evidence/v1''"

definition evidence_New ::
  "prims \<Rightarrow> gotime \<Rightarrow> string \<Rightarrow> string \<Rightarrow> string \<Rightarrow> string \<Rightarrow> string \<Rightarrow> finding list \<Rightarrow>
   evidence_bundle \<Rightarrow> evidence_doc" where
  "evidence_New P now version name src img resolved findings b =
     \<lparr>doc_format = evidence_format, doc_generated_at = now, doc_runeward_version = version,
      doc_policy = \<lparr>ps_name = name, ps_source = src, ps_image = img, ps_resolved = resolved,
                    ps_sha256 = sha256hex P resolved, ps_findings = findings\<rparr>,
      doc_chronicle = b\<rparr>"

datatype evidence_error = EvFormat | EvPolicyHash | EvEncode | EvBundle bundle_error

text \<open>\<open>reencode\<close> is the JSON encoding of the bundle followed by the decoding in \<^verbatim>\<open>VerifyBundle\<close>.\<close>

definition evidence_Verify ::
  "prims \<Rightarrow> sigprims \<Rightarrow> (evidence_bundle \<Rightarrow> evidence_bundle option) \<Rightarrow> evidence_doc \<Rightarrow> (evidence_error, nat) result" where
  "evidence_Verify P S reencode doc =
     (if doc_format doc \<noteq> evidence_format then Inl EvFormat
      else if sha256hex P (ps_resolved (doc_policy doc)) \<noteq> ps_sha256 (doc_policy doc) then Inl EvPolicyHash
      else (case reencode (doc_chronicle doc) of
              None \<Rightarrow> Inl EvEncode
            | Some b \<Rightarrow> map_sum EvBundle id (VerifyBundle P S b)))"

section \<open>Signed chains\<close>

lemma verifyRecordsLoop_signed:
  "verifyRecordsLoop P S pub True True i prev recs = None \<longleftrightarrow>
     verifyChain P i prev recs = None \<and> list_all (\<lambda>ev. ev_sig ev \<noteq> [] \<and> sig_ok S pub ev) recs"
  by (induction recs arbitrary: i prev) (auto simp: sig_ok_def split: option.splits)

lemma verifyRecordsLoop_unsigned:
  "verifyRecordsLoop P S pub False False i prev recs = None \<longleftrightarrow> verifyChain P i prev recs = None"
  by (induction recs arbitrary: i prev) auto

text \<open>A sublist of a verified chain: sequence numbers grow, and neighbours in the chain are linked.\<close>

definition chain_pair :: "event \<Rightarrow> event \<Rightarrow> bool" where
  "chain_pair p ev \<longleftrightarrow> ev_seq p < ev_seq ev \<and> (ev_seq ev = ev_seq p + 1 \<longrightarrow> ev_prev_hash ev = ev_hash p)"

lemma verified_chain_pairs:
  assumes "verifyChain P i prev recs = None"
  shows "sorted_wrt chain_pair recs"
proof (rule sorted_wrt_iff_nth_less [THEN iffD2], intro allI impI)
  fix a b
  assume ab: "a < b" "b < length recs"
  have seqs: "ev_seq (recs ! a) = int (i + a) + 1" "ev_seq (recs ! b) = int (i + b) + 1"
    using verifyChain_seqs [OF assms] ab by auto
  have "ev_prev_hash (recs ! b) = ev_hash (recs ! a)" if b: "b = Suc a"
  proof -
    have "recs = take (Suc a) recs @ (recs ! b) # drop (Suc b) recs"
      using ab b by (metis id_take_nth_drop)
    then have "verifyChain P i prev (take (Suc a) recs @ (recs ! b) # drop (Suc b) recs) = None"
      using assms by simp
    moreover have "last (take (Suc a) recs) = recs ! a" "take (Suc a) recs \<noteq> []"
      using ab b by (auto simp: take_Suc_conv_app_nth)
    ultimately show ?thesis
      by (auto simp: verifyChain_append split: option.splits if_splits)
  qed
  moreover have "ev_seq (recs ! b) = ev_seq (recs ! a) + 1 \<Longrightarrow> b = Suc a" using seqs by simp
  moreover have "ev_seq (recs ! a) < ev_seq (recs ! b)" using seqs ab by simp
  ultimately show "chain_pair (recs ! a) (recs ! b)" unfolding chain_pair_def by blast
qed

lemma verifyChain_hashes:
  "verifyChain P i prev recs = None \<Longrightarrow> ev \<in> set recs \<Longrightarrow> ev_hash ev = hashEvent P ev"
  by (induction recs arbitrary: i prev) (auto split: if_splits)

text \<open>The bundle loop accepts signed events that are pairwise linked and inside the scope.\<close>

lemma verifyBundleLoop_session:
  assumes "has_prefix scope ''session:''"
    and "sorted_wrt chain_pair evs" "\<forall>p. prev = Some p \<longrightarrow> (\<forall>ev \<in> set evs. chain_pair p ev)"
    and "\<forall>ev \<in> set evs. ev_hash ev = hashEvent P ev \<and> ev_sig ev \<noteq> [] \<and> sig_ok S pub ev \<and>
           ev_session ev = drop 8 scope"
  shows "verifyBundleLoop P S pub scope i prev evs = None"
  using assms(2-4)
proof (induction evs arbitrary: i prev)
  case Nil
  then show ?case by simp
next
  case (Cons ev evs)
  have "scope \<noteq> []" "scope \<noteq> ''all''" using assms(1) by (auto simp: has_prefix_def)
  moreover have "chain_pair p ev" if "prev = Some p" for p using Cons.prems(2) that by simp
  ultimately have "linkCheck scope i prev ev = None"
    by (cases prev) (auto simp: linkCheck_def chain_pair_def)
  moreover have "verifyBundleLoop P S pub scope (Suc i) (Some ev) evs = None"
    using Cons.prems by (intro Cons.IH) auto
  ultimately show ?case using Cons.prems(3) by (auto simp: sig_ok_def split: option.splits)
qed

lemma verifyBundleLoop_all:
  assumes "verifyChain P n h evs = None"
    and "\<forall>p. prev = Some p \<longrightarrow> ev_seq p = int n \<and> ev_hash p = h"
    and "\<forall>ev \<in> set evs. ev_sig ev \<noteq> [] \<and> sig_ok S pub ev"
  shows "verifyBundleLoop P S pub ''all'' i prev evs = None"
  using assms
proof (induction evs arbitrary: n h i prev)
  case Nil
  then show ?case by simp
next
  case (Cons ev evs)
  from Cons.prems(1) have ev: "ev_seq ev = int n + 1" "ev_prev_hash ev = h" "ev_hash ev = hashEvent P ev"
    and rest: "verifyChain P (Suc n) (ev_hash ev) evs = None" by (auto split: if_splits)
  have "linkCheck ''all'' i prev ev = None"
    using Cons.prems(2) ev by (auto simp: linkCheck_def split: option.splits)
  moreover have "verifyBundleLoop P S pub ''all'' (Suc i) (Some ev) evs = None"
    using rest ev Cons.prems(3) by (intro Cons.IH) auto
  ultimately show ?case using ev Cons.prems(3)
    by (auto simp: sig_ok_def has_prefix_def split: option.splits)
qed

section \<open>Properties\<close>

text \<open>
  What a pinned key certifies: with a 32-byte public key, \<^verbatim>\<open>verifyRecords\<close> accepts exactly the
  lists that pass the hash-chain check of \<^verbatim>\<open>Verify\<close> and in which every record carries a signature
  of its hash that verifies under the key, whether or not signatures are asked for; without such a
  key it refuses when signatures are required, and otherwise accepts exactly the verified chains.
\<close>

theorem verifyRecords_characterised:
  "verifyRecords P S recs pub requireAll = None \<longleftrightarrow>
     verifyChain P 0 [] recs = None \<and>
     (if length pub = 32 then list_all (\<lambda>ev. ev_sig ev \<noteq> [] \<and> sig_ok S pub ev) recs
      else \<not> requireAll)"
  by (auto simp: verifyRecords_def Let_def verifyRecordsLoop_signed verifyRecordsLoop_unsigned)

text \<open>
  Exported evidence verifies: if a ledger's file holds a signed chain that \<^verbatim>\<open>verifyRecords\<close>
  accepts under a 32-byte key, then the transcript exported for any session (or for all of it)
  passes \<^verbatim>\<open>VerifyBundle\<close>, which counts its events, and an evidence document built around it passes
  \<^verbatim>\<open>Verify\<close>, provided base64 and JSON return what was encoded.
\<close>

theorem exported_evidence_verifies:
  assumes "readAll C (lg_file l) = Inr recs" "length pub = 32"
    and "verifyRecords P S recs pub True = None"
    and "b64_decode S (b64_encode S pub) = Some pub"
    and "\<And>b. reencode b = Some b"
  shows "\<exists>b n. ExportBundle P S C l sessionID pub = Inr b \<and> n = length (bd_events b) \<and>
    VerifyBundle P S b = Inr n \<and>
    evidence_Verify P S reencode (evidence_New P now version name src img resolved findings b) = Inr n"
proof -
  have chain: "verifyChain P 0 [] recs = None"
    and sigs: "\<forall>ev \<in> set recs. ev_sig ev \<noteq> [] \<and> sig_ok S pub ev"
    using assms(2,3) by (auto simp: verifyRecords_def Let_def verifyRecordsLoop_signed list_all_iff)
  obtain b where b: "ExportBundle P S C l sessionID pub = Inr b"
    using assms(1) by (simp add: ExportBundle_def)
  then have key: "bd_public_key b = b64_encode S pub" "bd_key_id b = keyID P pub"
    using assms(1) by (auto simp: ExportBundle_def encodePub_def)
  have "verifyBundleLoop P S pub (bd_scope b) 0 None (bd_events b) = None"
  proof (cases "sessionID = []")
    case True
    with b assms(1) have "bd_scope b = ''all''" "bd_events b = recs" by (auto simp: ExportBundle_def)
    then show ?thesis using verifyBundleLoop_all [OF chain _ sigs] by simp
  next
    case False
    with b assms(1) have scope: "bd_scope b = ''session:'' @ sessionID"
      and evs: "bd_events b = filter (\<lambda>ev. ev_session ev = sessionID) recs"
      by (auto simp: ExportBundle_def)
    show ?thesis
    proof (rule verifyBundleLoop_session)
      show "has_prefix (bd_scope b) ''session:''" by (simp add: scope has_prefix_def)
      show "sorted_wrt chain_pair (bd_events b)"
        unfolding evs by (intro sorted_wrt_filter verified_chain_pairs [OF chain])
    qed (use sigs verifyChain_hashes [OF chain] in \<open>auto simp: evs scope\<close>)
  qed
  then have "VerifyBundle P S b = Inr (length (bd_events b))"
    using key assms(2,4) by (simp add: VerifyBundle_def decodePub_def)
  moreover from this have "evidence_Verify P S reencode (evidence_New P now version name src img resolved findings b) =
      Inr (length (bd_events b))"
    using assms(5) by (simp add: evidence_Verify_def evidence_New_def)
  ultimately show ?thesis using b by blast
qed

definition id_sigprims :: sigprims where
  "id_sigprims = \<lparr>ed_verify = (\<lambda>pub h sig. sig = h), b64_encode = id, b64_decode = Some\<rparr>"

theorem exported_evidence_verifies_witness:
  "\<exists>b n. ExportBundle id_prims id_sigprims
       (codec1 (ev_example\<lparr>ev_sig := ev_hash ev_example\<rparr>))
       (empty_ledger\<lparr>lg_file := ''x'' @ [nl]\<rparr>) [] (replicate 32 CHR ''k'') = Inr b \<and>
     n = length (bd_events b) \<and> VerifyBundle id_prims id_sigprims b = Inr n \<and>
     evidence_Verify id_prims id_sigprims Some (evidence_New id_prims 5 ''v1'' ''p'' ''s'' ''i'' ''r'' [] b) = Inr n"
proof (rule exported_evidence_verifies)
  let ?e = "ev_example\<lparr>ev_sig := ev_hash ev_example\<rparr>"
  show "readAll (codec1 ?e) (lg_file (empty_ledger\<lparr>lg_file := ''x'' @ [nl]\<rparr>)) = Inr [?e]"
    by (simp add: readAll_def codec1_def trimTrailingNewline_def)
  have "hashEvent id_prims ev_example \<noteq> []"
    by (simp add: hashEvent_def id_prims_def encodeEvent_fields event_fields_def)
  then show "verifyRecords id_prims id_sigprims [?e] (replicate 32 CHR ''k'') True = None"
    by (simp add: verifyRecords_def Let_def ev_example_fields id_sigprims_def)
qed (simp_all add: id_sigprims_def)

end
