(* ===== verification/Glob.thy ===== *)
theory Glob
  imports Go_Strings
begin

text \<open>
  The glob matcher of \<^verbatim>\<open>internal/policy/policy.go\<close> (\<^verbatim>\<open>matchGlob\<close>), with its loop over
  the indices \<open>si\<close>, \<open>pi\<close> and the backtracking point \<open>star\<close>, \<open>starMark\<close>, and the reference
  semantics \<open>glob\<close> that its comment describes: an anchored match in which \<^verbatim>\<open>*\<close> stands for
  any run of characters and \<^verbatim>\<open>?\<close> for exactly one.

  The matcher only accepts what the reference accepts. The converse holds for subjects without a
  \<^verbatim>\<open>*\<close>: the loop compares \<^verbatim>\<open>pattern[pi] == s[si]\<close> before it asks whether
  \<^verbatim>\<open>pattern[pi]\<close> is a star, so a \<^verbatim>\<open>*\<close> of the pattern that meets a \<^verbatim>\<open>*\<close> of the
  subject is consumed as a literal and leaves no backtracking point.
\<close>

section \<open>The matcher\<close>

function glob_loop :: "string \<Rightarrow> string \<Rightarrow> nat \<Rightarrow> nat \<Rightarrow> nat option \<Rightarrow> nat \<Rightarrow> nat option" where
  "glob_loop p s si pi star starMark =
     (if si < length s then
        if pi < length p \<and> (p ! pi = CHR ''?'' \<or> p ! pi = s ! si) then
          glob_loop p s (Suc si) (Suc pi) star starMark
        else if pi < length p \<and> p ! pi = CHR ''*'' then
          glob_loop p s si (Suc pi) (Some pi) si
        else (case star of
                Some st \<Rightarrow> glob_loop p s (Suc starMark) (Suc st) star (Suc starMark)
              | None \<Rightarrow> None)
      else Some pi)"
  by pat_completeness auto
termination
  by (relation "measures [\<lambda>(p, s, si, pi, star, starMark). length s - min starMark si,
                          \<lambda>(p, s, si, pi, star, starMark). (length s - si) + (length p - pi)]")
     auto

declare glob_loop.simps [simp del]

function skip_stars :: "string \<Rightarrow> nat \<Rightarrow> nat" where
  "skip_stars p pi = (if pi < length p \<and> p ! pi = CHR ''*'' then skip_stars p (Suc pi) else pi)"
  by pat_completeness auto
termination
  by (relation "measure (\<lambda>(p, pi). length p - pi)") auto

declare skip_stars.simps [simp del]

definition matchGlob :: "string \<Rightarrow> string \<Rightarrow> bool" where
  "matchGlob pattern s =
     (case glob_loop pattern s 0 0 None 0 of
        None \<Rightarrow> False
      | Some pi \<Rightarrow> skip_stars pattern pi = length pattern)"

section \<open>Reference semantics\<close>

fun glob :: "string \<Rightarrow> string \<Rightarrow> bool" where
  "glob [] s = (s = [])"
| "glob (c # p) [] = (c = CHR ''*'' \<and> glob p [])"
| "glob (c # p) (d # s) =
     (if c = CHR ''*'' then glob p (d # s) \<or> glob (c # p) s
      else (c = CHR ''?'' \<or> c = d) \<and> glob p s)"

lemma glob_star_split:
  "glob (CHR ''*'' # p) s \<longleftrightarrow> (\<exists>k \<le> length s. glob p (drop k s))"
proof (induction s)
  case Nil
  then show ?case by simp
next
  case (Cons d s)
  have "(\<exists>k \<le> length (d # s). glob p (drop k (d # s))) \<longleftrightarrow>
        glob p (d # s) \<or> (\<exists>k \<le> length s. glob p (drop k s))" (is "?L \<longleftrightarrow> ?R")
  proof
    assume ?L
    then obtain k where "k \<le> length (d # s)" "glob p (drop k (d # s))" by blast
    then show ?R by (cases k) auto
  next
    assume ?R
    then show ?L by (metis Suc_le_mono drop0 drop_Suc_Cons le0 length_Cons)
  qed
  with Cons show ?case by simp
qed

lemma glob_star_absorb:
  assumes "glob (CHR ''*'' # p) (drop j s)" and "i \<le> j"
  shows "glob (CHR ''*'' # p) (drop i s)"
proof -
  from assms(1) obtain k where k: "k \<le> length (drop j s)" "glob p (drop k (drop j s))"
    by (auto simp: glob_star_split)
  have "glob p (drop (k + j - i) (drop i s))" using k(2) assms(2) by (simp add: add.commute)
  moreover have "k + j - i \<le> length (drop i s) \<or> drop j s = []"
    using k(1) assms(2) by auto
  ultimately show ?thesis
  proof (cases "drop j s = []")
    case False
    with \<open>k + j - i \<le> length (drop i s) \<or> drop j s = []\<close>
    show ?thesis using \<open>glob p (drop (k + j - i) (drop i s))\<close> by (auto simp: glob_star_split)
  next
    case True
    with k have "glob p []" by simp
    then have "glob p (drop (length (drop i s)) (drop i s))" by simp
    then show ?thesis by (metis glob_star_split le_refl)
  qed
qed

lemma glob_star_free_prefix:
  "CHR ''*'' \<notin> set q \<Longrightarrow> glob (q @ r) t \<Longrightarrow> length q \<le> length t \<and> glob r (drop (length q) t)"
proof (induction q arbitrary: t)
  case Nil
  then show ?case by simp
next
  case (Cons c q)
  then show ?case by (cases t) auto
qed

section \<open>Soundness\<close>

lemma skip_stars_glob: "skip_stars p pi = length p \<Longrightarrow> pi \<le> length p \<Longrightarrow> glob (drop pi p) []"
proof (induction p pi rule: skip_stars.induct)
  case (1 p pi)
  show ?case
  proof (cases "pi < length p \<and> p ! pi = CHR ''*''")
    case True
    with "1.prems" have "skip_stars p (Suc pi) = length p"
      by (simp add: skip_stars.simps [of p pi])
    with "1.IH" True have "glob (drop (Suc pi) p) []" by simp
    with True show ?thesis by (simp flip: Cons_nth_drop_Suc)
  next
    case False
    with "1.prems" have "pi = length p" by (simp add: skip_stars.simps [of p pi])
    then show ?thesis by simp
  qed
qed

lemma glob_skip_stars: "glob (drop pi p) [] \<Longrightarrow> pi \<le> length p \<Longrightarrow> skip_stars p pi = length p"
proof (induction p pi rule: skip_stars.induct)
  case (1 p pi)
  show ?case
  proof (cases "pi < length p")
    case True
    then have dp: "drop pi p = p ! pi # drop (Suc pi) p" by (simp add: Cons_nth_drop_Suc)
    with "1.prems" True have "p ! pi = CHR ''*''" and "glob (drop (Suc pi) p) []" by auto
    with True "1.IH" show ?thesis by (simp add: skip_stars.simps [of p pi])
  next
    case False
    with "1.prems" have "pi = length p" by simp
    then show ?thesis by (simp add: skip_stars.simps [of p "length p"])
  qed
qed

text \<open>
  What has been matched so far can be completed: a match of the rest of the pattern at the current
  position, or of what follows the last star at any later position, is a match of the whole.
\<close>

definition glob_sound_inv :: "string \<Rightarrow> string \<Rightarrow> nat \<Rightarrow> nat \<Rightarrow> nat option \<Rightarrow> nat \<Rightarrow> bool" where
  "glob_sound_inv p s si pi star starMark \<longleftrightarrow>
     pi \<le> length p \<and> (glob (drop pi p) (drop si s) \<longrightarrow> glob p s) \<and>
     (\<forall>st. star = Some st \<longrightarrow> st < length p \<and>
        (\<forall>k \<ge> starMark. glob (drop (Suc st) p) (drop k s) \<longrightarrow> glob p s))"

lemma glob_literal_step:
  assumes "pi < length p" "si < length s" "p ! pi = CHR ''?'' \<or> p ! pi = s ! si"
    and "glob (drop (Suc pi) p) (drop (Suc si) s)"
  shows "glob (drop pi p) (drop si s)"
proof -
  have dp: "drop pi p = p ! pi # drop (Suc pi) p" and ds: "drop si s = s ! si # drop (Suc si) s"
    using assms(1,2) by (simp_all add: Cons_nth_drop_Suc)
  show ?thesis
  proof (cases "p ! pi = CHR ''*''")
    case True
    have "glob (CHR ''*'' # drop (Suc pi) p) (drop (Suc si) s)"
      using assms(4) by (metis drop0 glob_star_split le0)
    with True dp ds show ?thesis by simp
  next
    case False
    with assms(3,4) dp ds show ?thesis by auto
  qed
qed

lemma glob_star_step:
  assumes "pi < length p" "p ! pi = CHR ''*''" "si \<le> k" "glob (drop (Suc pi) p) (drop k s)"
  shows "glob (drop pi p) (drop si s)"
proof -
  have "glob (CHR ''*'' # drop (Suc pi) p) (drop k s)"
    using assms(4) by (metis drop0 glob_star_split le0)
  then have "glob (CHR ''*'' # drop (Suc pi) p) (drop si s)"
    using assms(3) by (rule glob_star_absorb)
  with assms(1,2) show ?thesis by (simp flip: Cons_nth_drop_Suc)
qed

lemma glob_loop_sound:
  "glob_loop p s si pi star starMark = Some pe \<Longrightarrow> skip_stars p pe = length p \<Longrightarrow>
   glob_sound_inv p s si pi star starMark \<Longrightarrow> glob p s"
proof (induction p s si pi star starMark rule: glob_loop.induct)
  case (1 p s si pi star starMark)
  note eq = glob_loop.simps [of p s si pi star starMark]
  let ?lit = "pi < length p \<and> (p ! pi = CHR ''?'' \<or> p ! pi = s ! si)"
  let ?star = "pi < length p \<and> p ! pi = CHR ''*''"
  consider (fin) "\<not> si < length s"
    | (lit) "si < length s" "?lit"
    | (star) "si < length s" "\<not> ?lit" "?star"
    | (retry) "si < length s" "\<not> ?lit" "\<not> ?star" by blast
  then show ?case
  proof cases
    case fin
    with "1.prems" eq have "pe = pi" by simp
    with "1.prems" fin show ?thesis
      using skip_stars_glob [of p pi] by (auto simp: glob_sound_inv_def)
  next
    case lit
    have "glob_sound_inv p s (Suc si) (Suc pi) star starMark"
      using "1.prems"(3) lit glob_literal_step [of pi p si s] by (auto simp: glob_sound_inv_def)
    with lit "1.prems" eq show ?thesis by (intro "1.IH"(1)) auto
  next
    case star
    have "glob_sound_inv p s si (Suc pi) (Some pi) si"
      using "1.prems"(3) star glob_star_step [of pi p si _ s] by (auto simp: glob_sound_inv_def)
    with star "1.prems" eq show ?thesis by (intro "1.IH"(2)) auto
  next
    case retry
    with "1.prems"(1) eq obtain st where st: "star = Some st" by (auto split: option.splits)
    from "1.prems"(3) st have "glob p s" if "starMark \<le> k" "glob (drop (Suc st) p) (drop k s)" for k
      using that by (auto simp: glob_sound_inv_def)
    from this [OF Suc_leD] this [of "Suc starMark"]
    have "glob_sound_inv p s (Suc starMark) (Suc st) star (Suc starMark)"
      using "1.prems"(3) st by (auto simp: glob_sound_inv_def)
    with retry st "1.prems" eq show ?thesis by (intro "1.IH"(3)) auto
  qed
qed

lemma matchGlob_sound: "matchGlob p s \<Longrightarrow> glob p s"
proof -
  assume "matchGlob p s"
  then obtain pe where "glob_loop p s 0 0 None 0 = Some pe" "skip_stars p pe = length p"
    by (auto simp: matchGlob_def split: option.splits)
  then show "glob p s"
    by (rule glob_loop_sound) (simp add: glob_sound_inv_def)
qed

section \<open>Completeness on star-free subjects\<close>

definition glob_pos_inv :: "string \<Rightarrow> string \<Rightarrow> nat \<Rightarrow> nat \<Rightarrow> nat option \<Rightarrow> nat \<Rightarrow> bool" where
  "glob_pos_inv p s si pi star starMark \<longleftrightarrow>
     si \<le> length s \<and> pi \<le> length p \<and>
     (\<forall>st. star = Some st \<longrightarrow>
        st < pi \<and> si = starMark + (pi - Suc st) \<and> CHR ''*'' \<notin> set (take (pi - Suc st) (drop (Suc st) p)))"

definition glob_open :: "string \<Rightarrow> string \<Rightarrow> nat \<Rightarrow> nat \<Rightarrow> nat option \<Rightarrow> nat \<Rightarrow> bool" where
  "glob_open p s si pi star starMark \<longleftrightarrow>
     glob (drop pi p) (drop si s) \<or>
     (\<exists>st k. star = Some st \<and> starMark < k \<and> k \<le> length s \<and> glob (drop (Suc st) p) (drop k s))"

text \<open>A retry at a later start of the current segment leaves the rest of the pattern to match at
  a later position.\<close>

lemma glob_retry_segment:
  assumes inv: "glob_pos_inv p s si pi (Some st) starMark"
    and k: "starMark < k" "k \<le> length s" "glob (drop (Suc st) p) (drop k s)"
  shows "\<exists>j > si. j \<le> length s \<and> glob (drop pi p) (drop j s)"
proof -
  let ?q = "take (pi - Suc st) (drop (Suc st) p)"
  from inv have st: "st < pi" and si: "si = starMark + (pi - Suc st)"
    and q: "CHR ''*'' \<notin> set ?q" and pi: "pi \<le> length p"
    by (auto simp: glob_pos_inv_def)
  have lq: "length ?q = pi - Suc st" using pi st by simp
  have "drop (Suc st) p = ?q @ drop pi p"
    using st by (metis append_take_drop_id drop_drop le_add_diff_inverse2 less_eq_Suc_le)
  with k(3) q have "length ?q \<le> length (drop k s) \<and> glob (drop pi p) (drop (length ?q) (drop k s))"
    by (metis glob_star_free_prefix)
  with lq have "k + (pi - Suc st) \<le> length s" and "glob (drop pi p) (drop (k + (pi - Suc st)) s)"
    using k(2) by (auto simp: add.commute)
  with si k(1) show ?thesis by (intro exI [of _ "k + (pi - Suc st)"]) simp
qed

lemma glob_pos_inv_literal:
  assumes "glob_pos_inv p s si pi star starMark" "si < length s" "pi < length p"
    "p ! pi \<noteq> CHR ''*''"
  shows "glob_pos_inv p s (Suc si) (Suc pi) star starMark"
proof -
  have "CHR ''*'' \<notin> set (take (pi - st) (drop (Suc st) p))"
    if "star = Some st" for st
  proof -
    from assms(1) that have st: "st < pi" and q: "CHR ''*'' \<notin> set (take (pi - Suc st) (drop (Suc st) p))"
      by (auto simp: glob_pos_inv_def)
    have "pi - st = Suc (pi - Suc st)" using st by simp
    moreover have "take (Suc (pi - Suc st)) (drop (Suc st) p) =
        take (pi - Suc st) (drop (Suc st) p) @ [p ! pi]"
      using st assms(3) by (subst take_Suc_conv_app_nth) auto
    ultimately show ?thesis using q assms(4) by simp
  qed
  with assms show ?thesis by (fastforce simp: glob_pos_inv_def)
qed

lemma glob_loop_complete:
  assumes "CHR ''*'' \<notin> set s"
  shows "glob_pos_inv p s si pi star starMark \<Longrightarrow> glob_open p s si pi star starMark \<Longrightarrow>
    \<exists>pe. glob_loop p s si pi star starMark = Some pe \<and> skip_stars p pe = length p"
  using assms
proof (induction p s si pi star starMark rule: glob_loop.induct)
  case (1 p s si pi star starMark)
  note eq = glob_loop.simps [of p s si pi star starMark]
  let ?lit = "pi < length p \<and> (p ! pi = CHR ''?'' \<or> p ! pi = s ! si)"
  let ?star = "pi < length p \<and> p ! pi = CHR ''*''"
  consider (fin) "\<not> si < length s"
    | (lit) "si < length s" "?lit"
    | (star) "si < length s" "\<not> ?lit" "?star"
    | (retry) "si < length s" "\<not> ?lit" "\<not> ?star" by blast
  then show ?case
  proof cases
    case fin
    with "1.prems"(1) have "si = length s" by (simp add: glob_pos_inv_def)
    with "1.prems"(1,2) have "glob (drop pi p) []"
      using glob_retry_segment [of p s si pi _ starMark] by (fastforce simp: glob_open_def)
    with "1.prems"(1) fin eq show ?thesis
      by (simp add: glob_skip_stars glob_pos_inv_def)
  next
    case lit
    from "1.prems"(3) lit(1) have "s ! si \<noteq> CHR ''*''" by (metis nth_mem)
    with lit have ns: "p ! pi \<noteq> CHR ''*''" by auto
    have "glob_open p s (Suc si) (Suc pi) star starMark"
      using "1.prems"(2) lit ns
      by (auto simp: glob_open_def simp flip: Cons_nth_drop_Suc)
    with lit "1.prems" eq ns show ?thesis
      using "1.IH"(1) glob_pos_inv_literal by auto
  next
    case star
    have "\<exists>k \<ge> si. k \<le> length s \<and> glob (drop pi p) (drop k s)"
    proof (cases "glob (drop pi p) (drop si s)")
      case True
      with star show ?thesis by auto
    next
      case False
      with "1.prems"(2) obtain st k where "star = Some st" "starMark < k" "k \<le> length s"
        "glob (drop (Suc st) p) (drop k s)" by (auto simp: glob_open_def)
      with "1.prems"(1) glob_retry_segment [of p s si pi st starMark k] show ?thesis
        by (metis less_imp_le)
    qed
    then obtain k where k: "si \<le> k" "k \<le> length s" "glob (drop pi p) (drop k s)" by blast
    from star have dp: "drop pi p = CHR ''*'' # drop (Suc pi) p" by (metis Cons_nth_drop_Suc)
    with k glob_star_absorb have "glob (CHR ''*'' # drop (Suc pi) p) (drop si s)" by metis
    then obtain m where "m \<le> length (drop si s)" "glob (drop (Suc pi) p) (drop m (drop si s))"
      by (auto simp: glob_star_split)
    then have "si \<le> m + si" "m + si \<le> length s" "glob (drop (Suc pi) p) (drop (m + si) s)"
      using star(1) by auto
    then have "glob_open p s si (Suc pi) (Some pi) si"
      by (cases "m = 0") (auto simp: glob_open_def intro!: exI [of _ "m + si"])
    moreover have "glob_pos_inv p s si (Suc pi) (Some pi) si"
      using "1.prems"(1) star by (simp add: glob_pos_inv_def)
    ultimately show ?thesis using star "1.prems"(3) eq "1.IH"(2) by auto
  next
    case retry
    have "\<not> glob (drop pi p) (drop si s)"
    proof (cases "pi < length p")
      case True
      with retry show ?thesis by (auto simp flip: Cons_nth_drop_Suc)
    next
      case False
      with retry show ?thesis by simp
    qed
    with "1.prems"(2) obtain st k where st: "star = Some st" and k: "starMark < k" "k \<le> length s"
      "glob (drop (Suc st) p) (drop k s)" by (auto simp: glob_open_def)
    have "glob_open p s (Suc starMark) (Suc st) star (Suc starMark)"
      using st k by (cases "k = Suc starMark") (auto simp: glob_open_def)
    moreover have "glob_pos_inv p s (Suc starMark) (Suc st) star (Suc starMark)"
      using "1.prems"(1) st k by (auto simp: glob_pos_inv_def)
    ultimately show ?thesis using retry st "1.prems"(3) eq "1.IH"(3) by auto
  qed
qed

lemma matchGlob_complete:
  assumes "CHR ''*'' \<notin> set s" and "glob p s"
  shows "matchGlob p s"
proof -
  have "\<exists>pe. glob_loop p s 0 0 None 0 = Some pe \<and> skip_stars p pe = length p"
    using assms by (intro glob_loop_complete) (auto simp: glob_pos_inv_def glob_open_def)
  then show ?thesis by (auto simp: matchGlob_def)
qed

lemma matchGlob_iff_glob: "CHR ''*'' \<notin> set s \<Longrightarrow> matchGlob p s \<longleftrightarrow> glob p s"
  using matchGlob_sound matchGlob_complete by blast

section \<open>Running time\<close>

text \<open>
  The loop again, returning with its result the number of iterations of the code's \<^verbatim>\<open>for\<close>
  statement. The recursion retries from the last star only, so the work is bounded by the number of
  starting points of a segment times the length of one attempt.
\<close>

function glob_count :: "string \<Rightarrow> string \<Rightarrow> nat \<Rightarrow> nat \<Rightarrow> nat option \<Rightarrow> nat \<Rightarrow> nat option \<times> nat" where
  "glob_count p s si pi star starMark =
     (if si < length s then
        if pi < length p \<and> (p ! pi = CHR ''?'' \<or> p ! pi = s ! si) then
          map_prod id Suc (glob_count p s (Suc si) (Suc pi) star starMark)
        else if pi < length p \<and> p ! pi = CHR ''*'' then
          map_prod id Suc (glob_count p s si (Suc pi) (Some pi) si)
        else (case star of
                Some st \<Rightarrow> map_prod id Suc (glob_count p s (Suc starMark) (Suc st) star (Suc starMark))
              | None \<Rightarrow> (None, 1))
      else (Some pi, 0))"
  by pat_completeness auto
termination
  by (relation "measures [\<lambda>(p, s, si, pi, star, starMark). length s - min starMark si,
                          \<lambda>(p, s, si, pi, star, starMark). (length s - si) + (length p - pi)]")
     auto

declare glob_count.simps [simp del]

lemma fst_glob_count: "fst (glob_count p s si pi star starMark) = glob_loop p s si pi star starMark"
  by (induction p s si pi star starMark rule: glob_loop.induct)
     (subst glob_loop.simps, subst glob_count.simps, auto split: option.split)

lemma glob_count_bound:
  "starMark \<le> si \<Longrightarrow> si \<le> length s \<Longrightarrow> pi \<le> length p \<Longrightarrow> (\<forall>st. star = Some st \<longrightarrow> st < length p) \<Longrightarrow>
   snd (glob_count p s si pi star starMark)
     \<le> (length s - starMark) * (length s + length p + 1) + (length s - si) + (length p - pi) + 1"
proof (induction p s si pi star starMark rule: glob_loop.induct)
  case (1 p s si pi star starMark)
  let ?K = "length s + length p + 1"
  note eq = glob_count.simps [of p s si pi star starMark]
  let ?lit = "pi < length p \<and> (p ! pi = CHR ''?'' \<or> p ! pi = s ! si)"
  let ?star = "pi < length p \<and> p ! pi = CHR ''*''"
  consider (fin) "\<not> si < length s \<or> (\<not> ?lit \<and> \<not> ?star \<and> star = None)"
    | (lit) "si < length s" "?lit"
    | (star) "si < length s" "\<not> ?lit" "?star"
    | (retry) st where "si < length s" "\<not> ?lit" "\<not> ?star" "star = Some st" by (cases star) blast+
  then show ?case
  proof cases
    case fin
    then show ?thesis using eq by auto
  next
    case lit
    have "snd (glob_count p s (Suc si) (Suc pi) star starMark)
        \<le> (length s - starMark) * ?K + (length s - Suc si) + (length p - Suc pi) + 1"
      by (rule "1.IH"(1)) (use lit "1.prems" in auto)
    moreover have "snd (glob_count p s si pi star starMark) =
        Suc (snd (glob_count p s (Suc si) (Suc pi) star starMark))"
      using lit eq by simp
    moreover have "length s - si = Suc (length s - Suc si)" using lit by simp
    ultimately show ?thesis by linarith
  next
    case star
    have "snd (glob_count p s si (Suc pi) (Some pi) si)
        \<le> (length s - si) * ?K + (length s - si) + (length p - Suc pi) + 1"
      by (rule "1.IH"(2)) (use star "1.prems" in auto)
    moreover have "(length s - si) * ?K \<le> (length s - starMark) * ?K"
      using "1.prems"(1) by (intro mult_le_mono1) simp
    moreover have "snd (glob_count p s si pi star starMark) =
        Suc (snd (glob_count p s si (Suc pi) (Some pi) si))"
      using star eq by simp
    moreover have "length p - pi = Suc (length p - Suc pi)" using star by (simp add: Suc_diff_Suc)
    ultimately show ?thesis by linarith
  next
    case retry
    have "snd (glob_count p s (Suc starMark) (Suc st) star (Suc starMark))
        \<le> (length s - Suc starMark) * ?K + (length s - Suc starMark) + (length p - Suc st) + 1"
      by (rule "1.IH"(3)) (use retry "1.prems" in auto)
    moreover have "(length s - starMark) * ?K = (length s - Suc starMark) * ?K + ?K"
    proof -
      have "length s - starMark = Suc (length s - Suc starMark)" using "1.prems"(1) retry by simp
      then show ?thesis by simp
    qed
    moreover have "snd (glob_count p s si pi star starMark) =
        Suc (snd (glob_count p s (Suc starMark) (Suc st) star (Suc starMark)))"
      unfolding eq using retry by (cases "pi < length p") auto
    moreover have "length s - Suc starMark + 1 \<le> length s" using "1.prems"(1) retry by simp
    ultimately show ?thesis by linarith
  qed
qed

section \<open>Properties\<close>

text \<open>
  C33. The optimised matcher against the reference: whatever the pattern and the subject, an accepted
  subject is a match, and for a subject without a \<^verbatim>\<open>*\<close> the matcher decides the reference
  semantics exactly. (The matcher is a total function: its loop always ends.)
\<close>

theorem matchGlob_correct:
  "(matchGlob p s \<longrightarrow> glob p s) \<and> (CHR ''*'' \<notin> set s \<longrightarrow> (matchGlob p s \<longleftrightarrow> glob p s))"
  using matchGlob_sound matchGlob_iff_glob by blast

theorem matchGlob_correct_witness:
  "matchGlob ''*.example.?om'' ''a.b.example.com'' = glob ''*.example.?om'' ''a.b.example.com'' \<and>
   glob ''*.example.?om'' ''a.b.example.com''"
proof -
  have "CHR ''*'' \<notin> set ''a.b.example.com''" by simp
  moreover have "matchGlob ''*.example.?om'' ''a.b.example.com''" by code_simp
  ultimately show ?thesis
    using matchGlob_correct [of "''*.example.?om''" "''a.b.example.com''"] by blast
qed

text \<open>
  C34. The matcher always ends, and quickly: its loop returns after at most
  \<open>(|s| + 1) * (|s| + |pattern| + 1)\<close> iterations, whatever the number of stars in the pattern, so a
  hostile command line cannot make a rule match take exponential time. The counting loop returns the
  same result as the loop of \<^verbatim>\<open>matchGlob\<close>.
\<close>

theorem matchGlob_quadratic:
  "fst (glob_count p s 0 0 None 0) = glob_loop p s 0 0 None 0 \<and>
   snd (glob_count p s 0 0 None 0) \<le> (length s + 1) * (length s + length p + 1)"
  using fst_glob_count [of p s 0 0 None 0] glob_count_bound [of 0 0 s 0 p None]
  by (simp add: algebra_simps)

end
