(* ===== verification/Policy_Engine.thy ===== *)
theory Policy_Engine
  imports Glob
begin

text \<open>
  The authority engines of \<^verbatim>\<open>internal/policy\<close>: the built-in first-match rule engine
  (\<^verbatim>\<open>policy.go\<close>) with its argv-aware matching, and the adapters over the CEL and Rego engines
  (\<^verbatim>\<open>cel.go\<close>, \<^verbatim>\<open>rego.go\<close>). The CEL program of a rule and the prepared Rego query are
  third-party code: they are functions stored in the engine's state.

  A verdict is a Go string type, so it is a \<open>string\<close> here, and an engine may be built from rules
  whose verdict is none of the three constants. The locale \<open>evaluator\<close> is the contract the control
  plane relies on: a well-formed engine renders one of the three verdicts.
\<close>

section \<open>Verdicts, rules, actions, decisions\<close>

type_synonym verdict = string

definition VerdictAllow :: verdict where "VerdictAllow = ''allow''"
definition VerdictDeny :: verdict where "VerdictDeny = ''deny''"
definition VerdictRequireApprove :: verdict where "VerdictRequireApprove = ''require-approval''"

lemmas verdict_defs = VerdictAllow_def VerdictDeny_def VerdictRequireApprove_def

lemma verdict_distinct [simp]:
  "VerdictAllow \<noteq> VerdictDeny" "VerdictDeny \<noteq> VerdictAllow"
  "VerdictAllow \<noteq> VerdictRequireApprove" "VerdictRequireApprove \<noteq> VerdictAllow"
  "VerdictDeny \<noteq> VerdictRequireApprove" "VerdictRequireApprove \<noteq> VerdictDeny"
  by (simp_all add: verdict_defs)

lemma verdict_nonempty [simp]:
  "VerdictAllow \<noteq> []" "VerdictDeny \<noteq> []" "VerdictRequireApprove \<noteq> []"
  by (simp_all add: verdict_defs)

definition known_verdict :: "verdict \<Rightarrow> bool" where
  "known_verdict v = (v = VerdictAllow \<or> v = VerdictDeny \<or> v = VerdictRequireApprove)"

record policy_rule =
  pr_tool :: string
  pr_match :: string
  pr_match_argv :: string
  pr_verdict :: verdict
  pr_reason :: string

record action =
  act_tool :: string
  act_arg :: string
  act_args :: "string list"

record decision =
  dec_verdict :: verdict
  dec_reason :: string
  dec_rule :: "policy_rule option"

section \<open>Argv-aware matching\<close>

definition baseName :: "string \<Rightarrow> string" where
  "baseName p = (case last_index_byte p CHR ''/'' of Some i \<Rightarrow> drop (Suc i) p | None \<Rightarrow> p)"

definition isShellName :: "string \<Rightarrow> bool" where
  "isShellName p =
     (baseName p \<in> {''sh'', ''bash'', ''dash'', ''ash'', ''ksh'', ''zsh'', ''fish'', ''busybox''})"

definition isEnvAssignment :: "string \<Rightarrow> bool" where
  "isEnvAssignment s = (case index_byte s CHR ''='' of Some i \<Rightarrow> i > 0 | None \<Rightarrow> False)"

text \<open>The loop of \<^verbatim>\<open>unwrapEnvPrefix\<close> over \<^verbatim>\<open>argv[i:]\<close>.\<close>

fun unwrapEnvLoop :: "string list \<Rightarrow> string list" where
  "unwrapEnvLoop [] = []"
| "unwrapEnvLoop (x # xs) =
     (if x = ''--'' then xs
      else if has_prefix x ''-'' then unwrapEnvLoop xs
      else if isEnvAssignment x then unwrapEnvLoop xs
      else x # xs)"

definition unwrapEnvPrefix :: "string list \<Rightarrow> string list" where
  "unwrapEnvPrefix argv =
     (case argv of
        [] \<Rightarrow> argv
      | a0 # rest \<Rightarrow> if baseName a0 \<noteq> ''env'' then argv else unwrapEnvLoop rest)"

definition firstToken :: "string \<Rightarrow> string" where
  "firstToken s = (case str_fields s of [] \<Rightarrow> [] | f # _ \<Rightarrow> f)"

text \<open>The loop that looks for \<^verbatim>\<open>-c\<close> with a following argument.\<close>

fun dashCScript :: "string list \<Rightarrow> string option" where
  "dashCScript (x # y # ys) = (if x = ''-c'' then Some y else dashCScript (y # ys))"
| "dashCScript xs = None"

definition wrappedShellToken :: "string list \<Rightarrow> string" where
  "wrappedShellToken argv =
     (case unwrapEnvPrefix argv of
        [] \<Rightarrow> []
      | u0 # us \<Rightarrow>
          (let shell =
             (if baseName u0 = ''busybox'' then
                (case us of
                   [] \<Rightarrow> None
                 | u1 # us' \<Rightarrow> if isShellName u1 then Some (u1, us') else None)
              else Some (u0, us))
           in case shell of
                None \<Rightarrow> []
              | Some (sh, rest) \<Rightarrow>
                  if \<not> isShellName sh then []
                  else (case dashCScript rest of None \<Rightarrow> [] | Some script \<Rightarrow> firstToken script)))"

definition argvCandidates :: "action \<Rightarrow> string list" where
  "argvCandidates a =
     (let argv = (if act_args a = [] then str_fields (act_arg a) else act_args a) in
      case argv of
        [] \<Rightarrow> []
      | a0 # _ \<Rightarrow>
          (let tok = wrappedShellToken argv in
           [a0, baseName a0] @ (if tok \<noteq> [] then [tok, baseName tok] else [])))"

definition argvMatches :: "string \<Rightarrow> action \<Rightarrow> bool" where
  "argvMatches pattern a = list_ex (matchGlob pattern) (argvCandidates a)"

section \<open>The built-in engine\<close>

record engine =
  eng_rules :: "policy_rule list"
  eng_def :: verdict

definition New :: "policy_rule list \<Rightarrow> verdict \<Rightarrow> engine" where
  "New rules def = \<lparr>eng_rules = rules, eng_def = (if def = [] then VerdictAllow else def)\<rparr>"

definition toolMatches :: "string \<Rightarrow> string \<Rightarrow> bool" where
  "toolMatches ruleTool actionTool = (ruleTool = ''*'' \<or> ruleTool = actionTool)"

text \<open>The three \<^verbatim>\<open>continue\<close> guards of the loop body, as one condition.\<close>

definition rule_fires :: "policy_rule \<Rightarrow> action \<Rightarrow> bool" where
  "rule_fires r a =
     (toolMatches (pr_tool r) (act_tool a) \<and>
      \<not> (pr_match r \<noteq> [] \<and> \<not> matchGlob (pr_match r) (act_arg a)) \<and>
      \<not> (pr_match_argv r \<noteq> [] \<and> \<not> argvMatches (pr_match_argv r) a))"

definition rule_decision :: "policy_rule \<Rightarrow> decision" where
  "rule_decision r = \<lparr>dec_verdict = pr_verdict r, dec_reason = pr_reason r, dec_rule = Some r\<rparr>"

fun eval_rules :: "policy_rule list \<Rightarrow> verdict \<Rightarrow> action \<Rightarrow> decision" where
  "eval_rules [] def a = \<lparr>dec_verdict = def, dec_reason = [], dec_rule = None\<rparr>"
| "eval_rules (r # rs) def a = (if rule_fires r a then rule_decision r else eval_rules rs def a)"

definition Evaluate :: "engine \<Rightarrow> action \<Rightarrow> decision" where
  "Evaluate e a = eval_rules (eng_rules e) (eng_def e) a"

section \<open>The CEL and Rego adapters\<close>

text \<open>
  \<open>cr_prg\<close> is the compiled CEL program of a rule on the variables \<open>tool\<close> and \<open>arg\<close>: \<open>Inl\<close> an
  evaluation error (its text), \<open>Inr b\<close> a value, with \<open>b\<close> telling whether it is the boolean true.
\<close>

record compiled_rule =
  cr_prg :: "string \<Rightarrow> string \<Rightarrow> string + bool"
  cr_verdict :: verdict
  cr_reason :: string
  cr_expr :: string

record cel_engine =
  cel_rules :: "compiled_rule list"
  cel_def :: verdict

record cel_rule =
  cel_expr :: string
  cel_verdict :: verdict
  cel_reason :: string

text \<open>\<^verbatim>\<open>NewCEL\<close>: \<open>compile\<close> is the third-party compiler (\<open>None\<close>: it rejects the expression, or
  the expression is not boolean).\<close>

fun compile_rules ::
  "(string \<Rightarrow> (string \<Rightarrow> string \<Rightarrow> string + bool) option) \<Rightarrow> cel_rule list \<Rightarrow> compiled_rule list option" where
  "compile_rules compile [] = Some []"
| "compile_rules compile (r # rs) =
     (if cel_expr r = [] then None
      else (case compile (cel_expr r) of
              None \<Rightarrow> None
            | Some prg \<Rightarrow>
                (let v = (if cel_verdict r = [] then VerdictAllow else cel_verdict r) in
                 map_option ((#) \<lparr>cr_prg = prg, cr_verdict = v, cr_reason = cel_reason r,
                                  cr_expr = cel_expr r\<rparr>)
                            (compile_rules compile rs))))"

definition NewCEL ::
  "(string \<Rightarrow> (string \<Rightarrow> string \<Rightarrow> string + bool) option) \<Rightarrow> cel_rule list \<Rightarrow> verdict \<Rightarrow> cel_engine option" where
  "NewCEL compile rules def =
     map_option (\<lambda>rs. \<lparr>cel_rules = rs, cel_def = (if def = [] then VerdictAllow else def)\<rparr>)
       (compile_rules compile rules)"

definition synth_rule :: "action \<Rightarrow> string \<Rightarrow> verdict \<Rightarrow> string \<Rightarrow> policy_rule" where
  "synth_rule a m v reason =
     \<lparr>pr_tool = act_tool a, pr_match = m, pr_match_argv = [], pr_verdict = v, pr_reason = reason\<rparr>"

fun cel_eval :: "nat \<Rightarrow> compiled_rule list \<Rightarrow> verdict \<Rightarrow> action \<Rightarrow> decision" where
  "cel_eval i [] def a = \<lparr>dec_verdict = def, dec_reason = [], dec_rule = None\<rparr>"
| "cel_eval i (r # rs) def a =
     (case cr_prg r (act_tool a) (act_arg a) of
        Inl err \<Rightarrow>
          (let reason = ''policy: cel rule '' @ show_nat i @ '' evaluation error: '' @ err in
           \<lparr>dec_verdict = VerdictDeny, dec_reason = reason,
            dec_rule = Some (synth_rule a (cr_expr r) VerdictDeny reason)\<rparr>)
      | Inr b \<Rightarrow>
          if b then \<lparr>dec_verdict = cr_verdict r, dec_reason = cr_reason r,
                     dec_rule = Some (synth_rule a (cr_expr r) (cr_verdict r) (cr_reason r))\<rparr>
          else cel_eval (Suc i) rs def a)"

definition CEL_Evaluate :: "cel_engine \<Rightarrow> action \<Rightarrow> decision" where
  "CEL_Evaluate e a = cel_eval 0 (cel_rules e) (cel_def e) a"

text \<open>
  What evaluating the prepared Rego query can give: a panic, an error, no expression, or the value
  of the first expression, a string, an object (its \<open>verdict\<close> and \<open>reason\<close> members, when they are
  strings) or something else.
\<close>

datatype rego_value = RString string | RObject "string option" "string option" | ROther

datatype rego_outcome =
  RegoPanic string | RegoError string | RegoUndefined | RegoValue rego_value

record rego_engine =
  rego_pq :: "string \<Rightarrow> string \<Rightarrow> rego_outcome"
  rego_def :: verdict

definition NewRego :: "(string \<Rightarrow> string \<Rightarrow> rego_outcome) \<Rightarrow> verdict \<Rightarrow> rego_engine" where
  "NewRego pq def = \<lparr>rego_pq = pq, rego_def = (if def = [] then VerdictAllow else def)\<rparr>"

definition validVerdict :: "string \<Rightarrow> string \<Rightarrow> (verdict \<times> string) option" where
  "validVerdict s reason = (if known_verdict s then Some (s, reason) else None)"

fun parseRegoResult :: "rego_value \<Rightarrow> (verdict \<times> string) option" where
  "parseRegoResult (RString s) = validVerdict s []"
| "parseRegoResult (RObject v r) =
     validVerdict (case v of None \<Rightarrow> [] | Some s \<Rightarrow> s) (case r of None \<Rightarrow> [] | Some s \<Rightarrow> s)"
| "parseRegoResult ROther = None"

definition Rego_Evaluate :: "rego_engine \<Rightarrow> action \<Rightarrow> decision" where
  "Rego_Evaluate e a =
     (let fail = (\<lambda>reason. \<lparr>dec_verdict = VerdictDeny, dec_reason = reason,
                            dec_rule = Some (synth_rule a (act_arg a) VerdictDeny reason)\<rparr>);
          default = \<lparr>dec_verdict = rego_def e, dec_reason = [], dec_rule = None\<rparr> in
      case rego_pq e (act_tool a) (act_arg a) of
        RegoPanic p \<Rightarrow> fail (''policy: rego evaluation panic: '' @ p)
      | RegoError err \<Rightarrow> fail (''policy: rego evaluation error: '' @ err)
      | RegoUndefined \<Rightarrow> default
      | RegoValue v \<Rightarrow>
          (case parseRegoResult v of
             None \<Rightarrow> default
           | Some (verdict, reason) \<Rightarrow>
               \<lparr>dec_verdict = verdict, dec_reason = reason,
                dec_rule = Some (synth_rule a (act_arg a) verdict reason)\<rparr>))"

section \<open>First match wins\<close>

lemma eval_rules_find:
  "eval_rules rs def a =
     (case find (\<lambda>r. rule_fires r a) rs of
        Some r \<Rightarrow> rule_decision r
      | None \<Rightarrow> \<lparr>dec_verdict = def, dec_reason = [], dec_rule = None\<rparr>)"
  by (induction rs) auto

lemma eval_rules_append:
  "eval_rules (rs @ rs') def a =
     (if \<exists>r \<in> set rs. rule_fires r a then eval_rules rs def a else eval_rules rs' def a)"
  by (induction rs) auto

lemma eval_rules_verdict:
  "dec_verdict (eval_rules rs def a) \<in> insert def (pr_verdict ` set rs)"
  by (induction rs) (auto simp: rule_decision_def)

lemma cel_eval_verdict:
  "dec_verdict (cel_eval i rs def a) \<in> insert VerdictDeny (insert def (cr_verdict ` set rs))"
  by (induction i rs def a rule: cel_eval.induct) (auto simp: Let_def split: sum.splits)

section \<open>The contract of an engine\<close>

locale evaluator =
  fixes evaluate :: "'e \<Rightarrow> action \<Rightarrow> decision"
    and wf_engine :: "'e \<Rightarrow> bool"
  assumes evaluate_known: "wf_engine e \<Longrightarrow> known_verdict (dec_verdict (evaluate e a))"
begin

lemma evaluate_cases:
  assumes "wf_engine e"
  obtains (allow) "dec_verdict (evaluate e a) = VerdictAllow"
    | (deny) "dec_verdict (evaluate e a) = VerdictDeny"
    | (approval) "dec_verdict (evaluate e a) = VerdictRequireApprove"
  using evaluate_known [OF assms, of a] by (auto simp: known_verdict_def)

lemma evaluate_not_gated:
  "wf_engine e \<Longrightarrow> dec_verdict (evaluate e a) \<noteq> VerdictDeny \<Longrightarrow>
   dec_verdict (evaluate e a) \<noteq> VerdictRequireApprove \<Longrightarrow>
   dec_verdict (evaluate e a) = VerdictAllow"
  using evaluate_known [of e a] by (auto simp: known_verdict_def)

end

text \<open>
  Well-formedness is what the constructors and \<^verbatim>\<open>Profile.Validate\<close> establish: a known default,
  and known rule verdicts for the two rule-based engines.
\<close>

definition wf_builtin :: "engine \<Rightarrow> bool" where
  "wf_builtin e = (known_verdict (eng_def e) \<and> list_all (known_verdict \<circ> pr_verdict) (eng_rules e))"

definition wf_cel :: "cel_engine \<Rightarrow> bool" where
  "wf_cel e = (known_verdict (cel_def e) \<and> list_all (known_verdict \<circ> cr_verdict) (cel_rules e))"

definition wf_rego :: "rego_engine \<Rightarrow> bool" where
  "wf_rego e = known_verdict (rego_def e)"

lemma known_verdict_consts [simp]:
  "known_verdict VerdictAllow" "known_verdict VerdictDeny" "known_verdict VerdictRequireApprove"
  by (simp_all add: known_verdict_def)

interpretation builtin: evaluator Evaluate wf_builtin
proof
  fix e a
  assume "wf_builtin e"
  then show "known_verdict (dec_verdict (Evaluate e a))"
    using eval_rules_verdict [of "eng_rules e" "eng_def e" a]
    by (auto simp: Evaluate_def wf_builtin_def list_all_iff)
qed

interpretation cel: evaluator CEL_Evaluate wf_cel
proof
  fix e a
  assume "wf_cel e"
  then show "known_verdict (dec_verdict (CEL_Evaluate e a))"
    using cel_eval_verdict [of 0 "cel_rules e" "cel_def e" a]
    by (auto simp: CEL_Evaluate_def wf_cel_def list_all_iff)
qed

lemma parseRegoResult_known: "parseRegoResult v = Some (vd, r) \<Longrightarrow> known_verdict vd"
  by (cases v) (auto simp: validVerdict_def split: if_splits)

interpretation rego: evaluator Rego_Evaluate wf_rego
proof
  fix e a
  assume "wf_rego e"
  then show "known_verdict (dec_verdict (Rego_Evaluate e a))"
    by (auto simp: Rego_Evaluate_def wf_rego_def Let_def parseRegoResult_known
        split: rego_outcome.splits option.splits prod.splits)
qed

section \<open>Unwrapping shells\<close>

lemma unwrapEnvLoop_skip:
  "\<forall>x \<in> set opts. x \<noteq> ''--'' \<and> (has_prefix x ''-'' \<or> isEnvAssignment x) \<Longrightarrow>
   unwrapEnvLoop (opts @ rest) = unwrapEnvLoop rest"
  by (induction opts) auto

lemma unwrapEnvLoop_stop:
  "\<not> has_prefix x ''-'' \<Longrightarrow> \<not> isEnvAssignment x \<Longrightarrow> unwrapEnvLoop (x # xs) = x # xs"
  by (auto simp: has_prefix_def)

lemma dashCScript_found:
  "''-c'' \<notin> set flags \<Longrightarrow> dashCScript (flags @ ''-c'' # script # rest) = Some script"
proof (induction flags)
  case Nil
  then show ?case by simp
next
  case (Cons f flags)
  then show ?case by (cases flags) auto
qed

lemma wrappedShellToken_direct:
  assumes "isShellName sh" "baseName sh \<noteq> ''env''" "baseName sh \<noteq> ''busybox''" "''-c'' \<notin> set flags"
  shows "wrappedShellToken (sh # flags @ ''-c'' # script # rest) = firstToken script"
  using assms dashCScript_found [of flags script rest]
  by (simp add: wrappedShellToken_def unwrapEnvPrefix_def)

lemma wrappedShellToken_env:
  assumes "baseName e = ''env''"
    and "\<forall>x \<in> set opts. x \<noteq> ''--'' \<and> (has_prefix x ''-'' \<or> isEnvAssignment x)"
    and "isShellName sh" "baseName sh \<noteq> ''busybox''" "\<not> has_prefix sh ''-''" "\<not> isEnvAssignment sh"
    and "''-c'' \<notin> set flags"
  shows "wrappedShellToken (e # opts @ sh # flags @ ''-c'' # script # rest) = firstToken script"
  using assms dashCScript_found [of flags script rest]
  by (simp add: wrappedShellToken_def unwrapEnvPrefix_def unwrapEnvLoop_skip unwrapEnvLoop_stop
      del: unwrapEnvLoop.simps)

lemma argvMatches_token:
  assumes "act_args a = argv" "wrappedShellToken argv = tok" "tok \<noteq> []" "argv \<noteq> []"
    and "matchGlob pat tok \<or> matchGlob pat (baseName tok)"
  shows "argvMatches pat a"
  using assms by (auto simp: argvMatches_def argvCandidates_def Let_def split: list.splits)

section \<open>Properties\<close>

text \<open>
  First match wins: the engine's decision is attributed to rule \<open>r\<close> exactly when \<open>r\<close> fires and
  no rule before some occurrence of it does, and then carries that rule's verdict and reason. With
  no attributed rule the decision is the default verdict with an empty reason, and no rule fires.
\<close>

theorem Evaluate_first_match:
  "(dec_rule (Evaluate e a) = Some r \<longleftrightarrow>
      (\<exists>pre post. eng_rules e = pre @ r # post \<and> rule_fires r a \<and> (\<forall>q \<in> set pre. \<not> rule_fires q a))) \<and>
   (dec_rule (Evaluate e a) = Some r \<longrightarrow>
      dec_verdict (Evaluate e a) = pr_verdict r \<and> dec_reason (Evaluate e a) = pr_reason r) \<and>
   (dec_rule (Evaluate e a) = None \<longleftrightarrow> (\<forall>q \<in> set (eng_rules e). \<not> rule_fires q a)) \<and>
   (dec_rule (Evaluate e a) = None \<longrightarrow>
      dec_verdict (Evaluate e a) = eng_def e \<and> dec_reason (Evaluate e a) = [])"
proof (cases "find (\<lambda>r. rule_fires r a) (eng_rules e)")
  case None
  then have "\<forall>q \<in> set (eng_rules e). \<not> rule_fires q a" by (simp add: find_None_all)
  with None show ?thesis by (auto simp: Evaluate_def eval_rules_find)
next
  case (Some r')
  then have "\<exists>q \<in> set (eng_rules e). rule_fires q a" by (auto simp: find_first)
  with Some show ?thesis
    using find_first [of "\<lambda>r. rule_fires r a" "eng_rules e" r]
    by (auto simp: Evaluate_def eval_rules_find rule_decision_def)
qed

text \<open>
  The rules of the witnesses: a deny rule for \<^verbatim>\<open>rm\<close> by executable, and one by command line.
\<close>

definition deny_rm_argv :: policy_rule where
  "deny_rm_argv = \<lparr>pr_tool = ''shell'', pr_match = [], pr_match_argv = ''rm'',
                   pr_verdict = VerdictDeny, pr_reason = ''no rm''\<rparr>"

definition deny_rm_line :: policy_rule where
  "deny_rm_line = \<lparr>pr_tool = ''shell'', pr_match = ''rm *'', pr_match_argv = [],
                   pr_verdict = VerdictDeny, pr_reason = ''no rm''\<rparr>"

theorem Evaluate_first_match_witness:
  "dec_verdict (Evaluate (New [deny_rm_line] []) \<lparr>act_tool = ''shell'', act_arg = ''rm a'', act_args = []\<rparr>)
     = VerdictDeny"
proof -
  let ?a = "\<lparr>act_tool = ''shell'', act_arg = ''rm a'', act_args = []\<rparr>"
  have "rule_fires deny_rm_line ?a" by code_simp
  then have "\<exists>pre post. eng_rules (New [deny_rm_line] []) = pre @ deny_rm_line # post \<and>
      rule_fires deny_rm_line ?a \<and> (\<forall>q \<in> set pre. \<not> rule_fires q ?a)"
    by (intro exI [of _ "[]"]) (simp add: New_def)
  then have "dec_verdict (Evaluate (New [deny_rm_line] []) ?a) = pr_verdict deny_rm_line"
    using Evaluate_first_match [of "New [deny_rm_line] []" ?a deny_rm_line] by blast
  then show ?thesis by (simp add: deny_rm_line_def)
qed

text \<open>
  A rule that constrains the executable only (\<open>match_argv\<close>) is not evaded by a shell wrapper:
  it fires on \<^verbatim>\<open>env A=1 -i sh -x -c "cmd ..."\<close> (any path to \<^verbatim>\<open>env\<close> and the shell, any
  leading assignments, dash options and shell flags other than \<^verbatim>\<open>--\<close> and \<^verbatim>\<open>-c\<close>)
  whenever its glob matches the script's first token or that token's base name.
\<close>

theorem argv_rule_sees_through_env_shell:
  assumes tool: "pr_tool r = ''*'' \<or> pr_tool r = act_tool a" and any: "pr_match r = []"
    and args: "act_args a = e # opts @ sh # flags @ ''-c'' # script # rest"
    and env: "baseName e = ''env''"
    and opts: "\<forall>x \<in> set opts. x \<noteq> ''--'' \<and> (has_prefix x ''-'' \<or> isEnvAssignment x)"
    and sh: "isShellName sh" "baseName sh \<noteq> ''busybox''" "\<not> has_prefix sh ''-''" "\<not> isEnvAssignment sh"
    and flags: "''-c'' \<notin> set flags" and tok: "firstToken script \<noteq> []"
    and glob: "matchGlob (pr_match_argv r) (firstToken script) \<or>
               matchGlob (pr_match_argv r) (baseName (firstToken script))"
  shows "rule_fires r a"
proof -
  have "argvMatches (pr_match_argv r) a"
    using argvMatches_token [OF args wrappedShellToken_env [OF env opts sh flags] tok _ glob] by simp
  with tool any show ?thesis by (auto simp: rule_fires_def toolMatches_def)
qed

theorem argv_rule_sees_through_env_shell_witness:
  "rule_fires deny_rm_argv
     \<lparr>act_tool = ''shell'', act_arg = [],
      act_args = ''/usr/bin/env'' # [''A=1'', ''-i''] @ ''/bin/sh'' # [''-x''] @ ''-c'' # ''/bin/rm -rf /'' # []\<rparr>"
  by (rule argv_rule_sees_through_env_shell [OF _ _ action.select_convs(3)]) code_simp+

text \<open>
  The literal comparison that comes before the star test lets an argument that contains a
  \<^verbatim>\<open>*\<close> evade a deny rule: the pattern \<^verbatim>\<open>rm *\<close> describes \<^verbatim>\<open>rm *.txt\<close> by the
  reference semantics, the matcher rejects it, and an engine that denies \<^verbatim>\<open>rm *\<close> allows it.
\<close>

theorem star_argument_evades_deny:
  "glob ''rm *'' ''rm *.txt'' \<and> \<not> matchGlob ''rm *'' ''rm *.txt'' \<and>
   dec_verdict (Evaluate (New [deny_rm_line] VerdictAllow)
     \<lparr>act_tool = ''shell'', act_arg = ''rm *.txt'', act_args = [''rm'', ''*.txt'']\<rparr>) = VerdictAllow"
  by code_simp

end
