(* ===== verification/Guardrails.thy ===== *)
theory Guardrails
  imports Go_Strings
begin

text \<open>
  The per-session cost and loop guard of \<^verbatim>\<open>internal/policy/guardrails.go\<close>: the record of a
  \<^verbatim>\<open>Guard\<close>, its operations on every branch, the budget invariant over arbitrary sequences of
  calls, and the refinement of the sliding failure window to the history of outcomes.

  \<^verbatim>\<open>time.ParseDuration\<close> is a parameter of \<open>NewGuard\<close>.
\<close>

section \<open>State\<close>

datatype guard_error = ErrWallClock | ErrMaxExecs | ErrEgressBudget | ErrLoopDetected

text \<open>The fields of \<^verbatim>\<open>profile.Limits\<close> that the control plane reads; \<open>'c\<close> is the type of costs.\<close>

record 'c limits =
  lim_wall_clock :: string
  lim_max_execs :: int
  lim_egress_requests :: int
  lim_loop_window :: string
  lim_loop_threshold :: int
  lim_max_tokens :: "64 word"
  lim_max_cost_usd :: 'c

record guard =
  wallClock :: duration
  maxExecs :: int
  egressLimit :: int
  loopWindow :: duration
  loopThresh :: int
  started :: bool
  startTime :: gotime
  execs :: int
  egress :: int
  loopKey :: string
  tripped :: bool
  failures :: "string \<rightharpoonup> gotime list"

definition fresh_guard :: "duration \<Rightarrow> int \<Rightarrow> int \<Rightarrow> duration \<Rightarrow> int \<Rightarrow> guard" where
  "fresh_guard wall maxe maxg loop thresh =
     \<lparr>wallClock = wall, maxExecs = maxe, egressLimit = maxg, loopWindow = loop, loopThresh = thresh,
      started = False, startTime = 0, execs = 0, egress = 0, loopKey = [], tripped = False,
      failures = Map.empty\<rparr>"

section \<open>Operations\<close>

definition NewGuard :: "(string \<Rightarrow> duration option) \<Rightarrow> 'c limits \<Rightarrow> guard option" where
  "NewGuard parseDuration limits =
     (case (if lim_wall_clock limits \<noteq> [] then parseDuration (lim_wall_clock limits) else Some 0) of
        None \<Rightarrow> None
      | Some wall \<Rightarrow>
          (case (if lim_loop_window limits \<noteq> [] then parseDuration (lim_loop_window limits) else Some 0) of
             None \<Rightarrow> None
           | Some loop \<Rightarrow>
               Some (fresh_guard wall (lim_max_execs limits) (lim_egress_requests limits) loop
                       (lim_loop_threshold limits))))"

definition Start :: "gotime \<Rightarrow> guard \<Rightarrow> guard" where
  "Start now g = (if \<not> started g then g\<lparr>started := True, startTime := now\<rparr> else g)"

definition CheckExec :: "gotime \<Rightarrow> guard \<Rightarrow> guard_error option \<times> guard" where
  "CheckExec now g =
     (if wallClock g > 0 \<and> started g \<and> now - startTime g \<ge> wallClock g then (Some ErrWallClock, g)
      else if tripped g then (Some ErrLoopDetected, g)
      else if maxExecs g > 0 \<and> execs g \<ge> maxExecs g then (Some ErrMaxExecs, g)
      else (None, g\<lparr>execs := execs g + 1\<rparr>))"

definition CheckEgress :: "guard \<Rightarrow> guard_error option \<times> guard" where
  "CheckEgress g =
     (if egressLimit g > 0 \<and> egress g \<ge> egressLimit g then (Some ErrEgressBudget, g)
      else (None, g\<lparr>egress := egress g + 1\<rparr>))"

definition window :: "guard \<Rightarrow> string \<Rightarrow> gotime list" where
  "window g key = (case failures g key of None \<Rightarrow> [] | Some ts \<Rightarrow> ts)"

definition RecordOutcome :: "gotime \<Rightarrow> string \<Rightarrow> bool \<Rightarrow> guard \<Rightarrow> guard" where
  "RecordOutcome now key failed g =
     (if \<not> failed then g\<lparr>failures := (failures g)(key := None)\<rparr>
      else if loopWindow g \<le> 0 \<or> loopThresh g \<le> 0 then g
      else
        (let cutoff = now - loopWindow g;
             kept = filter (\<lambda>t. t > cutoff) (window g key) @ [now];
             g' = g\<lparr>failures := (failures g)(key \<mapsto> kept)\<rparr> in
         if int (length kept) \<ge> loopThresh g then g'\<lparr>tripped := True, loopKey := key\<rparr> else g'))"

definition LoopTripped :: "guard \<Rightarrow> bool \<times> string" where
  "LoopTripped g = (tripped g, loopKey g)"

definition Reset :: "guard \<Rightarrow> guard" where
  "Reset g = g\<lparr>started := False, startTime := 0, execs := 0, egress := 0, tripped := False,
               loopKey := [], failures := Map.empty\<rparr>"

text \<open>One method call on a guard, and the calls that were granted by it.\<close>

datatype guard_op =
  OpStart gotime | OpCheckExec gotime | OpCheckEgress | OpRecord gotime string bool | OpReset

fun guard_step :: "guard \<Rightarrow> guard_op \<Rightarrow> guard" where
  "guard_step g (OpStart t) = Start t g"
| "guard_step g (OpCheckExec t) = snd (CheckExec t g)"
| "guard_step g OpCheckEgress = snd (CheckEgress g)"
| "guard_step g (OpRecord t k f) = RecordOutcome t k f g"
| "guard_step g OpReset = Reset g"

fun exec_grants :: "guard \<Rightarrow> guard_op list \<Rightarrow> int" where
  "exec_grants g [] = 0"
| "exec_grants g (op # ops) =
     (case op of OpCheckExec t \<Rightarrow> if fst (CheckExec t g) = None then 1 else 0 | _ \<Rightarrow> 0) +
     exec_grants (guard_step g op) ops"

fun egress_grants :: "guard \<Rightarrow> guard_op list \<Rightarrow> int" where
  "egress_grants g [] = 0"
| "egress_grants g (op # ops) =
     (case op of OpCheckEgress \<Rightarrow> if fst (CheckEgress g) = None then 1 else 0 | _ \<Rightarrow> 0) +
     egress_grants (guard_step g op) ops"

section \<open>Budgets\<close>

definition guard_inv :: "guard \<Rightarrow> bool" where
  "guard_inv g \<longleftrightarrow>
     0 \<le> execs g \<and> 0 \<le> egress g \<and>
     (maxExecs g > 0 \<longrightarrow> execs g \<le> maxExecs g) \<and>
     (egressLimit g > 0 \<longrightarrow> egress g \<le> egressLimit g)"

lemmas guard_op_defs =
  Start_def CheckExec_def CheckEgress_def RecordOutcome_def Reset_def Let_def

lemma guard_inv_fresh: "guard_inv (fresh_guard w e g l t)"
  by (simp add: guard_inv_def fresh_guard_def)

lemma guard_step_inv: "guard_inv g \<Longrightarrow> guard_inv (guard_step g op)"
  by (cases op) (auto simp: guard_inv_def guard_op_defs)

lemma guard_step_limits [state_simps]:
  "maxExecs (guard_step g op) = maxExecs g" "egressLimit (guard_step g op) = egressLimit g"
  "wallClock (guard_step g op) = wallClock g" "loopWindow (guard_step g op) = loopWindow g"
  "loopThresh (guard_step g op) = loopThresh g"
  by (cases op; simp add: guard_op_defs)+

interpretation guard: invariant_machine guard_step guard_inv
  by unfold_locales (rule guard_step_inv)

lemma run_limits [state_simps]:
  "maxExecs (foldl guard_step g ops) = maxExecs g"
  "egressLimit (foldl guard_step g ops) = egressLimit g"
  by (induction ops arbitrary: g) (simp_all add: state_simps)

lemma exec_grants_count:
  "OpReset \<notin> set ops \<Longrightarrow> exec_grants g ops = execs (foldl guard_step g ops) - execs g"
proof (induction ops arbitrary: g)
  case Nil
  then show ?case by simp
next
  case (Cons op ops)
  then have "exec_grants (guard_step g op) ops =
      execs (foldl guard_step (guard_step g op) ops) - execs (guard_step g op)" by simp
  moreover have "op \<noteq> OpReset" using Cons.prems by auto
  ultimately show ?case by (cases op) (auto simp: guard_op_defs)
qed

lemma egress_grants_count:
  "OpReset \<notin> set ops \<Longrightarrow> egress_grants g ops = egress (foldl guard_step g ops) - egress g"
proof (induction ops arbitrary: g)
  case Nil
  then show ?case by simp
next
  case (Cons op ops)
  then have "egress_grants (guard_step g op) ops =
      egress (foldl guard_step (guard_step g op) ops) - egress (guard_step g op)" by simp
  moreover have "op \<noteq> OpReset" using Cons.prems by auto
  ultimately show ?case by (cases op) (auto simp: guard_op_defs)
qed

section \<open>The loop detector is sticky\<close>

lemma tripped_step: "tripped g \<Longrightarrow> op \<noteq> OpReset \<Longrightarrow> tripped (guard_step g op)"
  by (cases op) (auto simp: guard_op_defs)

lemma tripped_run: "tripped g \<Longrightarrow> OpReset \<notin> set ops \<Longrightarrow> tripped (foldl guard_step g ops)"
  by (induction ops arbitrary: g) (auto simp: tripped_step)

lemma clock_step:
  "op \<noteq> OpReset \<Longrightarrow> started g \<Longrightarrow>
   started (guard_step g op) \<and> startTime (guard_step g op) = startTime g"
  by (cases op) (auto simp: guard_op_defs)

lemma clock_run:
  "OpReset \<notin> set ops \<Longrightarrow> wallClock (foldl guard_step g ops) = wallClock g \<and>
     (started g \<longrightarrow> started (foldl guard_step g ops) \<and> startTime (foldl guard_step g ops) = startTime g)"
  by (induction ops arbitrary: g) (auto simp: state_simps clock_step)

section \<open>The failure window refines the history of outcomes\<close>

text \<open>
  The abstract view: the chronological list of outcomes. \<open>fail_times\<close> are the times at which a key
  failed since it last succeeded.
\<close>

type_synonym outcome = "gotime \<times> string \<times> bool"

fun fail_times :: "outcome list \<Rightarrow> string \<Rightarrow> gotime list" where
  "fail_times [] key = []"
| "fail_times ((t, k, failed) # h) key =
     (if list_ex (\<lambda>(t', k', f'). k' = key \<and> \<not> f') h then fail_times h key
      else if k = key \<and> failed then t # fail_times h key
      else fail_times h key)"

definition run_outcomes :: "guard \<Rightarrow> outcome list \<Rightarrow> guard" where
  "run_outcomes g h = foldl (\<lambda>g (t, k, failed). RecordOutcome t k failed g) g h"

lemma fail_times_snoc_success:
  "fail_times (h @ [(t, k, False)]) key = (if k = key then [] else fail_times h key)"
  by (induction h) auto

lemma fail_times_snoc_failure:
  "fail_times (h @ [(t, k, True)]) key = fail_times h key @ (if k = key then [t] else [])"
  by (induction h) auto

lemma run_outcomes_snoc:
  "run_outcomes g (h @ [(t, k, f)]) = RecordOutcome t k f (run_outcomes g h)"
  by (simp add: run_outcomes_def)

lemma RecordOutcome_params [state_simps]:
  "loopWindow (RecordOutcome t k f g) = loopWindow g" "loopThresh (RecordOutcome t k f g) = loopThresh g"
  by (simp_all add: RecordOutcome_def Let_def)

lemma run_outcomes_params [state_simps]:
  "loopWindow (run_outcomes g h) = loopWindow g" "loopThresh (run_outcomes g h) = loopThresh g"
  by (induction h rule: rev_induct) (auto simp: run_outcomes_def state_simps)

lemma RecordOutcome_window:
  assumes "loopWindow g > 0" "loopThresh g > 0"
  shows "window (RecordOutcome t k f g) key =
    (if k \<noteq> key then window g key
     else if f then filter (\<lambda>x. x > t - loopWindow g) (window g key) @ [t] else [])"
  using assms by (auto simp: RecordOutcome_def window_def Let_def)

lemma filter_window_later:
  "(a::int) \<le> b \<Longrightarrow> filter (\<lambda>t. t > b) (filter (\<lambda>t. t > a) xs) = filter (\<lambda>t. t > b) xs"
  by (induction xs) auto

lemma window_refines_history:
  assumes "loopWindow g > 0" "loopThresh g > 0" "failures g = Map.empty"
    and "sorted (map fst h)" "\<forall>x \<in> set (map fst h). x \<le> now"
  shows "filter (\<lambda>t. t > now - loopWindow g) (window (run_outcomes g h) key) =
         filter (\<lambda>t. t > now - loopWindow g) (fail_times h key)"
  using assms(4,5)
proof (induction h arbitrary: now rule: rev_induct)
  case Nil
  then show ?case using assms(3) by (simp add: run_outcomes_def window_def)
next
  case (snoc x h)
  obtain t k f where x: "x = (t, k, f)" by (cases x)
  have sorted: "sorted (map fst h)" and le: "\<forall>y \<in> set (map fst h). y \<le> t" and t: "t \<le> now"
    using snoc.prems x by (auto simp: sorted_append)
  have IH: "filter (\<lambda>y. y > now' - loopWindow g) (window (run_outcomes g h) key) =
      filter (\<lambda>y. y > now' - loopWindow g) (fail_times h key)" if "t \<le> now'" for now'
  proof (rule snoc.IH [OF sorted])
    show "\<forall>y \<in> set (map fst h). y \<le> now'" using le that by fastforce
  qed
  note win = RecordOutcome_window [of "run_outcomes g h" t k f key]
  show ?case
  proof (cases "k = key \<and> f")
    case True
    have "filter (\<lambda>y. y > now - loopWindow g) (window (run_outcomes g (h @ [x])) key) =
        filter (\<lambda>y. y > now - loopWindow g)
          (filter (\<lambda>y. y > t - loopWindow g) (window (run_outcomes g h) key) @ [t])"
      using True assms(1,2) win by (simp add: x run_outcomes_snoc state_simps)
    also have "\<dots> = filter (\<lambda>y. y > now - loopWindow g) (fail_times h key @ [t])"
      using IH [OF t] filter_window_later [of "t - loopWindow g" "now - loopWindow g"] t
      by (simp del: filter_filter)
    finally show ?thesis using True by (simp add: x fail_times_snoc_failure)
  next
    case False
    then show ?thesis
      using assms(1,2) win IH [OF t]
      by (cases f) (auto simp: x run_outcomes_snoc state_simps fail_times_snoc_failure
          fail_times_snoc_success)
  qed
qed

lemma RecordOutcome_tripped:
  "tripped (RecordOutcome now key failed g) \<longleftrightarrow>
     tripped g \<or> failed \<and> loopWindow g > 0 \<and> loopThresh g > 0 \<and>
       loopThresh g \<le> int (length (filter (\<lambda>t. t > now - loopWindow g) (window g key))) + 1"
  by (auto simp: RecordOutcome_def Let_def)

section \<open>Properties\<close>

text \<open>
  Budgets: over any sequence of method calls without a reset, starting from a guard that has
  granted nothing yet, the number of granted tool calls never exceeds a positive \<open>maxExecs\<close> and the
  number of granted outbound requests never exceeds a positive \<open>egressLimit\<close>.
\<close>

theorem guard_budgets_hold:
  assumes "execs g = 0" "egress g = 0" "OpReset \<notin> set ops"
  shows "(maxExecs g > 0 \<longrightarrow> exec_grants g ops \<le> maxExecs g) \<and>
         (egressLimit g > 0 \<longrightarrow> egress_grants g ops \<le> egressLimit g)"
proof -
  have "guard_inv g" using assms(1,2) by (simp add: guard_inv_def)
  then have "guard_inv (foldl guard_step g ops)" by (rule guard.run_inv)
  then show ?thesis
    using assms exec_grants_count [of ops g] egress_grants_count [of ops g]
    by (simp add: guard_inv_def state_simps)
qed

theorem guard_budgets_hold_witness:
  "exec_grants (fresh_guard 0 1 0 0 0) [OpCheckExec 5, OpCheckExec 6] \<le> 1 \<and>
   exec_grants (fresh_guard 0 1 0 0 0) [OpCheckExec 5, OpCheckExec 6] = 1"
proof -
  have "exec_grants (fresh_guard 0 1 0 0 0) [OpCheckExec 5, OpCheckExec 6] = 1"
    by (simp add: fresh_guard_def guard_op_defs)
  moreover have "exec_grants (fresh_guard 0 1 0 0 0) [OpCheckExec 5, OpCheckExec 6] \<le> 1"
    using guard_budgets_hold [of "fresh_guard 0 1 0 0 0" "[OpCheckExec 5, OpCheckExec 6]"]
    by (simp add: fresh_guard_def)
  ultimately show ?thesis by simp
qed

text \<open>
  The loop detector against the history: if outcomes are recorded in the order of their times on
  a guard with loop detection on, then recording a failure of \<open>key\<close> at \<open>now\<close> leaves the guard tripped
  exactly when it was tripped before or when, counting this one, \<open>key\<close> has failed at least
  \<open>loopThresh\<close> times within the last \<open>loopWindow\<close> since its last success.
\<close>

theorem loop_detector_spec:
  assumes "loopWindow g > 0" "loopThresh g > 0" "failures g = Map.empty"
    and "sorted (map fst h)" "\<forall>x \<in> set (map fst h). x \<le> now"
  shows "tripped (run_outcomes g (h @ [(now, key, True)])) \<longleftrightarrow>
    tripped (run_outcomes g h) \<or>
    loopThresh g \<le> int (length (filter (\<lambda>t. t > now - loopWindow g) (fail_times h key))) + 1"
  using window_refines_history [OF assms, of key] assms(1,2)
  by (simp add: run_outcomes_snoc RecordOutcome_tripped state_simps)

theorem loop_detector_spec_witness:
  "tripped (run_outcomes (fresh_guard 0 0 0 60 3) [(1, ''k'', True), (2, ''k'', True), (50, ''k'', True)]) \<and>
   \<not> tripped (run_outcomes (fresh_guard 0 0 0 60 3) [(1, ''k'', True), (2, ''k'', True), (61, ''k'', True)])"
proof -
  have h: "failures (fresh_guard 0 0 0 60 3) = Map.empty" "sorted (map fst [(1::int, ''k'', True), (2, ''k'', True)])"
    by (simp_all add: fresh_guard_def)
  have t: "\<not> tripped (run_outcomes (fresh_guard 0 0 0 60 3) [(1, ''k'', True), (2, ''k'', True)])"
    by (simp add: run_outcomes_def fresh_guard_def RecordOutcome_def window_def Let_def)
  show ?thesis
    using loop_detector_spec [of "fresh_guard 0 0 0 60 3" "[(1, ''k'', True), (2, ''k'', True)]" 50 "''k''"]
      loop_detector_spec [of "fresh_guard 0 0 0 60 3" "[(1, ''k'', True), (2, ''k'', True)]" 61 "''k''"] h t
    by (simp add: fresh_guard_def)
qed

text \<open>
  A guard that has tripped, or whose wall clock has run out, refuses every later tool call until
  it is reset, whatever is called in between: \<open>CheckExec\<close> then returns an error and counts nothing.
\<close>

theorem guard_refuses_after_trip_or_deadline:
  assumes "OpReset \<notin> set ops"
    and "tripped g \<or> wallClock g > 0 \<and> started g \<and> wallClock g \<le> now - startTime g"
    and "now \<le> later"
  shows "\<exists>err. CheckExec later (foldl guard_step g ops) = (Some err, foldl guard_step g ops)"
proof -
  let ?g = "foldl guard_step g ops"
  have clock: "wallClock ?g = wallClock g \<and> (started g \<longrightarrow> started ?g \<and> startTime ?g = startTime g)"
    using clock_run [OF assms(1)] by blast
  from assms(2) show ?thesis
  proof
    assume "tripped g"
    then have "tripped ?g" using assms(1) by (rule tripped_run)
    then show ?thesis by (simp add: CheckExec_def)
  next
    assume "wallClock g > 0 \<and> started g \<and> wallClock g \<le> now - startTime g"
    with clock assms(3) show ?thesis by (simp add: CheckExec_def)
  qed
qed

theorem guard_refuses_after_trip_or_deadline_witness:
  "\<exists>err. CheckExec 100 (Start 0 (fresh_guard 60 0 0 0 0)) = (Some err, Start 0 (fresh_guard 60 0 0 0 0))"
  using guard_refuses_after_trip_or_deadline [of "[]" "Start 0 (fresh_guard 60 0 0 0 0)" 70 100]
  by (simp add: fresh_guard_def Start_def)

end
