(* ===== verification/Accounting.thy ===== *)
theory Accounting
  imports Guardrails
begin

text \<open>
  The usage tracker of \<^verbatim>\<open>internal/accounting/accounting.go\<close>. Token counts are Go \<open>int64\<close>
  values: \<open>64 word\<close>s with wrap-around addition, read with \<open>sint\<close>. A cost is a Go \<open>float64\<close>; the
  model is generic in the cost type, which only has to offer a zero, an addition and a total order
  (so the rounding of floating-point addition is not assumed away; NaN, which the control plane
  rejects before it reaches the tracker, is not a cost). Prometheus counters are third-party and
  not part of the state.
\<close>

section \<open>State and operations\<close>

record 'c usage =
  Tokens :: "64 word"
  CostUSD :: 'c

record 'c tracker =
  trk_sandbox :: "string \<rightharpoonup> 'c usage"
  trk_profile :: "string \<rightharpoonup> 'c usage"

definition new_tracker :: "'c tracker" where
  "new_tracker = \<lparr>trk_sandbox = Map.empty, trk_profile = Map.empty\<rparr>"

definition zero_usage :: "'c::zero usage" where
  "zero_usage = \<lparr>Tokens = 0, CostUSD = 0\<rparr>"

definition usage_of :: "(string \<rightharpoonup> 'c::zero usage) \<Rightarrow> string \<Rightarrow> 'c usage" where
  "usage_of m k = (case m k of None \<Rightarrow> zero_usage | Some u \<Rightarrow> u)"

definition Usage :: "'c::zero tracker \<Rightarrow> string \<Rightarrow> 'c usage" where
  "Usage t sandbox = usage_of (trk_sandbox t) sandbox"

definition ProfileUsage :: "'c::zero tracker \<Rightarrow> string \<Rightarrow> 'c usage" where
  "ProfileUsage t profile = usage_of (trk_profile t) profile"

definition add_usage :: "64 word \<Rightarrow> 'c::plus \<Rightarrow> 'c usage \<Rightarrow> 'c usage" where
  "add_usage tokens cost u = \<lparr>Tokens = Tokens u + tokens, CostUSD = CostUSD u + cost\<rparr>"

definition Record :: "string \<Rightarrow> string \<Rightarrow> 64 word \<Rightarrow> 'c::{zero,plus,linorder} \<Rightarrow> 'c tracker \<Rightarrow> 'c tracker" where
  "Record profile sandbox tokens cost t =
     (let tokens = (if sint tokens < 0 then 0 else tokens);
          cost = (if cost < 0 then 0 else cost) in
      t\<lparr>trk_sandbox := (trk_sandbox t)(sandbox \<mapsto> add_usage tokens cost (Usage t sandbox)),
        trk_profile := (trk_profile t)(profile \<mapsto> add_usage tokens cost (ProfileUsage t profile))\<rparr>)"

text \<open>\<open>fmt_cost\<close> is the \<^verbatim>\<open>%.4f\<close> rendering of a cost.\<close>

definition Over ::
  "('c::{zero,linorder} \<Rightarrow> string) \<Rightarrow> 'c tracker \<Rightarrow> string \<Rightarrow> 64 word \<Rightarrow> 'c \<Rightarrow> bool \<times> string" where
  "Over fmt_cost t sandbox maxTokens maxCostUSD =
     (let u = Usage t sandbox in
      if sint maxTokens > 0 \<and> sint (Tokens u) \<ge> sint maxTokens then
        (True, ''token budget exhausted: '' @ show_int (sint (Tokens u)) @ ''/'' @
               show_int (sint maxTokens) @ '' tokens used'')
      else if maxCostUSD > 0 \<and> CostUSD u \<ge> maxCostUSD then
        (True, ''cost budget exhausted: $'' @ fmt_cost (CostUSD u) @ ''/$'' @
               fmt_cost maxCostUSD @ '' spent'')
      else (False, []))"

definition Forget :: "string \<Rightarrow> 'c tracker \<Rightarrow> 'c tracker" where
  "Forget sandbox t = t\<lparr>trk_sandbox := (trk_sandbox t)(sandbox := None)\<rparr>"

section \<open>Token arithmetic\<close>

definition fits_i64 :: "int \<Rightarrow> bool" where
  "fits_i64 i = (- (2 ^ 63) \<le> i \<and> i < 2 ^ 63)"

lemma sint_add_exact:
  fixes a b :: "64 word"
  assumes "fits_i64 (sint a + sint b)"
  shows "sint (a + b) = sint a + sint b"
  using assms by (simp add: fits_i64_def sint_word_ariths(1) signed_take_bit_int_eq_self)

lemma Usage_Record:
  "Usage (Record p s tok c t) s' =
     (if s' = s then add_usage (if sint tok < 0 then 0 else tok) (if c < 0 then 0 else c) (Usage t s)
      else Usage t s')"
  by (simp add: Record_def Usage_def usage_of_def Let_def)

lemma ProfileUsage_Record:
  "ProfileUsage (Record p s tok c t) p' =
     (if p' = p then add_usage (if sint tok < 0 then 0 else tok) (if c < 0 then 0 else c) (ProfileUsage t p)
      else ProfileUsage t p')"
  by (simp add: Record_def ProfileUsage_def usage_of_def Let_def)

lemma Usage_Forget: "Usage (Forget s t) s' = (if s' = s then zero_usage else Usage t s')"
  by (simp add: Forget_def Usage_def usage_of_def)

lemma ProfileUsage_Forget [simp]: "ProfileUsage (Forget s t) p = ProfileUsage t p"
  by (simp add: Forget_def ProfileUsage_def)

lemma zero_usage_sel [simp]: "Tokens zero_usage = 0" "CostUSD zero_usage = 0"
  by (simp_all add: zero_usage_def)

section \<open>A run of reports\<close>

type_synonym 'c report = "string \<times> string \<times> 64 word \<times> 'c"

definition run_reports :: "'c::{zero,plus,linorder} tracker \<Rightarrow> 'c report list \<Rightarrow> 'c tracker" where
  "run_reports t rs = foldl (\<lambda>t (p, s, tok, c). Record p s tok c t) t rs"

text \<open>The mathematical total of the tokens reported for one sandbox, negative reports clamped.\<close>

fun token_sum :: "'c report list \<Rightarrow> string \<Rightarrow> int" where
  "token_sum [] s = 0"
| "token_sum ((p, s', tok, c) # rs) s = (if s' = s then max 0 (sint tok) else 0) + token_sum rs s"

lemma token_sum_nonneg: "0 \<le> token_sum rs s"
  by (induction rs s rule: token_sum.induct) auto

lemma run_reports_tokens:
  assumes "0 \<le> sint (Tokens (Usage t s))" "sint (Tokens (Usage t s)) + token_sum rs s < 2 ^ 63"
  shows "sint (Tokens (Usage (run_reports t rs) s)) = sint (Tokens (Usage t s)) + token_sum rs s"
  using assms
proof (induction rs arbitrary: t)
  case Nil
  then show ?case by (simp add: run_reports_def)
next
  case (Cons r rs)
  obtain p s' tok c where r: "r = (p, s', tok, c)" by (cases r)
  let ?t = "Record p s' tok c t"
  have step: "sint (Tokens (Usage ?t s)) =
      sint (Tokens (Usage t s)) + (if s' = s then max 0 (sint tok) else 0)"
  proof (cases "s' = s \<and> 0 \<le> sint tok")
    case True
    with Cons.prems token_sum_nonneg [of rs s]
    have "fits_i64 (sint (Tokens (Usage t s)) + sint tok)"
      by (simp add: r fits_i64_def)
    with True show ?thesis by (simp add: Usage_Record add_usage_def sint_add_exact)
  qed (auto simp: Usage_Record add_usage_def)
  have "sint (Tokens (Usage (run_reports ?t rs) s)) = sint (Tokens (Usage ?t s)) + token_sum rs s"
    using Cons.prems by (intro Cons.IH) (auto simp: r step)
  then show ?case by (simp add: r run_reports_def step)
qed

section \<open>Properties\<close>

text \<open>
  Token accounting is exact and attributes every report to its own sandbox: after any run of
  reports whose total for a sandbox stays below \<open>2^63\<close>, that sandbox's counter is the sum of the
  non-negative reports made for it, whatever was reported for others; and a token budget is
  reported exhausted exactly when that sum reaches a positive limit (with no cost budget).
\<close>

theorem token_budget_exact:
  fixes rs :: "'c::{zero,plus,linorder} report list"
  assumes "token_sum rs s < 2 ^ 63"
  shows "sint (Tokens (Usage (run_reports new_tracker rs) s)) = token_sum rs s \<and>
    (fst (Over fmt (run_reports new_tracker rs) s lim 0) \<longleftrightarrow> 0 < sint lim \<and> sint lim \<le> token_sum rs s)"
proof -
  have "Tokens (Usage (new_tracker :: 'c tracker) s) = 0"
    by (simp add: Usage_def usage_of_def new_tracker_def)
  then have "sint (Tokens (Usage (run_reports new_tracker rs) s)) = token_sum rs s"
    using run_reports_tokens [of new_tracker s rs] assms by simp
  then show ?thesis by (simp add: Over_def Let_def)
qed

theorem token_budget_exact_witness:
  "sint (Tokens (Usage (run_reports new_tracker
     [(''p'', ''a'', 70, 1), (''p'', ''b'', 999, 0), (''p'', ''a'', -5, 0), (''p'', ''a'', 40, 0::int)]) ''a'')) = 110"
  using token_budget_exact [of "[(''p'', ''a'', 70, 1), (''p'', ''b'', 999, 0), (''p'', ''a'', -5, 0),
     (''p'', ''a'', 40, 0::int)]" "''a''" "\<lambda>_. []" 100]
  by simp

end
