(* ===== verification/Ledger_Scrub.thy ===== *)
theory Ledger_Scrub
  imports Ledger
begin

text \<open>
  Secret scrubbing of audit events and tool output (\<^verbatim>\<open>internal/ledger/scrub.go\<close>). A regular expression
  with its \<^verbatim>\<open>ReplaceAllString(s, redactMask)\<close> is a function on strings: \<open>sc_key_value\<close> for
  \<^verbatim>\<open>secretKeyValue\<close>, \<open>sc_builtin\<close> for \<^verbatim>\<open>secretPatterns\<close> and the arguments of \<^verbatim>\<open>NewScrubber\<close> for the
  operator's patterns. The run pattern \<^verbatim>\<open>[A-Za-z0-9+/=_-]{40,}\<close> of the entropy check is written out.
  The set of declared secrets is a list without duplicates whose order is Go's iteration order.
\<close>

section \<open>High-entropy tokens\<close>

definition redactMask :: string where
  "redactMask = ''[REDACTED]''"

definition is_lower :: "char \<Rightarrow> bool" where
  "is_lower c \<longleftrightarrow> CHR ''a'' \<le> c \<and> c \<le> CHR ''z''"

definition is_upper :: "char \<Rightarrow> bool" where
  "is_upper c \<longleftrightarrow> CHR ''A'' \<le> c \<and> c \<le> CHR ''Z''"

definition is_digit :: "char \<Rightarrow> bool" where
  "is_digit c \<longleftrightarrow> CHR ''0'' \<le> c \<and> c \<le> CHR ''9''"

definition token_char :: "char \<Rightarrow> bool" where
  "token_char c \<longleftrightarrow> is_lower c \<or> is_upper c \<or> is_digit c \<or> c \<in> set ''+/=_-''"

record blob_flags =
  bf_hex :: bool
  bf_lower :: bool
  bf_upper :: bool
  bf_digit :: bool
  bf_other :: bool

text \<open>One iteration of the classification loop; \<^verbatim>\<open>None\<close> is the early \<^verbatim>\<open>return false\<close>.\<close>

definition blob_step :: "char \<Rightarrow> blob_flags \<Rightarrow> blob_flags option" where
  "blob_step r f =
     (if is_lower r then Some (f\<lparr>bf_lower := True, bf_hex := bf_hex f \<and> r \<le> CHR ''f''\<rparr>)
      else if is_upper r then Some (f\<lparr>bf_upper := True, bf_hex := bf_hex f \<and> r \<le> CHR ''F''\<rparr>)
      else if is_digit r then Some (f\<lparr>bf_digit := True\<rparr>)
      else if r \<in> set ''+/='' then Some (f\<lparr>bf_other := True, bf_hex := False\<rparr>)
      else if r \<in> set ''-_'' then Some (f\<lparr>bf_hex := False\<rparr>)
      else None)"

fun blob_loop :: "string \<Rightarrow> blob_flags \<Rightarrow> blob_flags option" where
  "blob_loop [] f = Some f"
| "blob_loop (r # rs) f = (case blob_step r f of None \<Rightarrow> None | Some f' \<Rightarrow> blob_loop rs f')"

definition looksLikeSecretBlob :: "string \<Rightarrow> bool" where
  "looksLikeSecretBlob token =
     (if length token < 40 then False
      else (case blob_loop token \<lparr>bf_hex = True, bf_lower = False, bf_upper = False, bf_digit = False, bf_other = False\<rparr> of
              None \<Rightarrow> False
            | Some f \<Rightarrow>
                if bf_hex f then
                  (if length token < 48 then False else bf_digit f \<and> (bf_lower f \<or> bf_upper f))
                else
                  (let charClasses = of_bool (bf_lower f) + of_bool (bf_upper f) + of_bool (bf_digit f)
                         + of_bool (bf_other f) :: nat in
                   if charClasses < 3 then False else bf_digit f \<and> (bf_lower f \<or> bf_upper f))))"

definition maskHighEntropyToken :: "string \<Rightarrow> string" where
  "maskHighEntropyToken token = (if \<not> looksLikeSecretBlob token then token else redactMask)"

text \<open>\<^verbatim>\<open>highEntropyTokenPattern.ReplaceAllStringFunc\<close>: the matches are the maximal runs of token
  characters that are at least 40 long.\<close>

function mask_runs :: "string \<Rightarrow> string" where
  "mask_runs s =
     (if s = [] then []
      else if token_char (hd s) then
        (let run = takeWhile token_char s in
         (if length run < 40 then run else maskHighEntropyToken run) @ mask_runs (dropWhile token_char s))
      else hd s # mask_runs (tl s))"
  by pat_completeness auto
termination
proof (relation "measure length")
  fix s :: string
  assume "s \<noteq> []" "token_char (hd s)"
  then have "dropWhile token_char s = dropWhile token_char (tl s)" by (cases s) auto
  moreover have "length (dropWhile token_char (tl s)) \<le> length (tl s)" by (rule length_dropWhile_le)
  ultimately show "(dropWhile token_char s, s) \<in> measure length"
    using \<open>s \<noteq> []\<close> by (cases s) auto
qed auto

declare mask_runs.simps [simp del]

section \<open>Scrubbers\<close>

record scrubprims =
  sc_key_value :: "string \<Rightarrow> string"
  sc_builtin :: "(string \<Rightarrow> string) list"

record scrubber =
  sb_patterns :: "(string \<Rightarrow> string) list"

definition NewScrubber :: "scrubprims \<Rightarrow> (string \<Rightarrow> string) option list \<Rightarrow> scrubber" where
  "NewScrubber R extra = \<lparr>sb_patterns = sc_builtin R @ List.map_filter id extra\<rparr>"

definition mask_secret :: "string \<Rightarrow> string \<Rightarrow> string" where
  "mask_secret secret s = (if secret \<noteq> [] then replace_all secret redactMask s else s)"

definition apply_patterns :: "scrubprims \<Rightarrow> (string \<Rightarrow> string) list \<Rightarrow> string \<Rightarrow> string" where
  "apply_patterns R patterns s = mask_runs (foldl (\<lambda>s re. re s) (sc_key_value R s) patterns)"

definition ScrubString :: "scrubprims \<Rightarrow> scrubber \<Rightarrow> string \<Rightarrow> string list \<Rightarrow> string" where
  "ScrubString R sb inp sensitive =
     (if inp = [] then []
      else apply_patterns R (sb_patterns sb) (foldl (\<lambda>out secret. mask_secret secret out) inp sensitive))"

definition mask_other :: "string \<Rightarrow> string \<Rightarrow> string" where
  "mask_other s secret = (if secret \<noteq> [] \<and> s \<noteq> secret then replace_all secret redactMask s else s)"

definition scrubValue :: "prims \<Rightarrow> scrubprims \<Rightarrow> string list \<Rightarrow> (string \<Rightarrow> string) list \<Rightarrow> string \<Rightarrow> string" where
  "scrubValue P R sensitive patterns s =
     (if s = [] then []
      else if s \<in> set sensitive then redactString P s
      else apply_patterns R patterns (foldl mask_other s sensitive))"

definition Scrub :: "prims \<Rightarrow> scrubprims \<Rightarrow> scrubber \<Rightarrow> event \<Rightarrow> string list \<Rightarrow> event" where
  "Scrub P R sb ev sensitive =
     (let secrets = filter (\<lambda>s. s \<noteq> []) (remdups sensitive);
          scrub = scrubValue P R secrets (sb_patterns sb);
          act = scrub (ev_action ev);
          args = map scrub (ev_args ev);
          meta = map (map_prod id scrub) (ev_meta ev);
          changed = (act \<noteq> ev_action ev \<or> args \<noteq> ev_args ev \<or> meta \<noteq> ev_meta ev)
      in if \<not> changed then ev
         else ev\<lparr>ev_action := act, ev_args := args, ev_meta := meta, ev_redacted := True,
                 ev_payload_hash := hashPayload P ev\<rparr>)"

section \<open>Masking\<close>

text \<open>\<open>masked s t\<close>: \<open>t\<close> is \<open>s\<close> with some segments replaced by the mask. This is what replacing the
  matches of any regular expression by the mask does, and what keeping a captured prefix and masking
  the rest of the match does.\<close>

inductive masked :: "string \<Rightarrow> string \<Rightarrow> bool" where
  masked_Nil: "masked [] []"
| masked_keep: "masked s t \<Longrightarrow> masked (c # s) (c # t)"
| masked_mask: "masked s t \<Longrightarrow> masked (u @ s) (redactMask @ t)"

lemma masked_refl: "masked s s"
  by (induction s) (auto intro: masked.intros)

lemma masked_append: "masked s t \<Longrightarrow> masked (u @ s) (u @ t)"
  by (induction u) (auto intro: masked.intros)

text \<open>A secret the mask cannot imitate: it has none of the mask's brackets and is not part of the word
  between them.\<close>

definition maskable :: "string \<Rightarrow> bool" where
  "maskable a \<longleftrightarrow> a \<noteq> [] \<and> CHR ''['' \<notin> set a \<and> CHR '']'' \<notin> set a \<and> \<not> sublist a ''REDACTED''"

lemma mask_parts: "redactMask = CHR ''['' # ''REDACTED'' @ [CHR '']'']"
  by (simp add: redactMask_def)

lemma sublist_around:
  assumes "c \<notin> set a" "sublist a (xs @ c # ys)"
  shows "sublist a xs \<or> sublist a ys"
proof -
  consider "sublist a xs" | "sublist a (c # ys)"
    | xs1 xs2 where "a = xs1 @ xs2" "suffix xs1 xs" "prefix xs2 (c # ys)"
    using assms(2) unfolding sublist_append by blast
  then show ?thesis
  proof cases
    case 2
    then show ?thesis using assms(1) by (cases a) (auto simp: sublist_Cons_right)
  next
    case 3
    then have "xs2 = []" using assms(1) by (cases xs2) auto
    with 3 show ?thesis by (auto intro: suffix_imp_sublist)
  qed auto
qed

lemma sublist_mask_append:
  assumes "maskable a" "sublist a (redactMask @ t)"
  shows "sublist a t"
proof -
  have "sublist a ([] @ CHR ''['' # ''REDACTED'' @ CHR '']'' # t)"
    using assms(2) by (simp add: redactMask_def)
  then have "sublist a (''REDACTED'' @ CHR '']'' # t)"
    using sublist_around [of "CHR ''[''" a "[]"] assms(1) by (auto simp: maskable_def)
  then show ?thesis
    using sublist_around [of "CHR '']''" a "''REDACTED''" t] assms(1) by (auto simp: maskable_def)
qed

lemma masked_prefix:
  "masked s t \<Longrightarrow> prefix r t \<Longrightarrow> CHR ''['' \<notin> set r \<Longrightarrow> prefix r s"
proof (induction arbitrary: r rule: masked.induct)
  case (masked_keep s t c)
  then show ?case by (cases r) auto
next
  case (masked_mask s t u)
  then have "r = []" by (cases r) (auto simp: mask_parts)
  then show ?case by simp
qed auto

lemma masked_sublist:
  "masked s t \<Longrightarrow> maskable a \<Longrightarrow> sublist a t \<Longrightarrow> sublist a s"
proof (induction rule: masked.induct)
  case (masked_keep s t c)
  have "masked (c # s) (c # t)" using masked_keep.hyps by (rule masked.masked_keep)
  moreover have "CHR ''['' \<notin> set a" using masked_keep.prems(1) by (simp add: maskable_def)
  ultimately show ?case
    using masked_keep masked_prefix by (metis sublist_Cons_right)
next
  case (masked_mask s t u)
  then have "sublist a t" by (blast intro: sublist_mask_append)
  with masked_mask show ?case by (simp add: sublist_append)
qed auto

lemma replace_all_masked: "masked s (replace_all old redactMask s)"
proof (induction old redactMask s rule: replace_all.induct)
  case (1 old s)
  show ?case
  proof (cases "s = [] \<or> old = []")
    case True
    then show ?thesis by (subst replace_all.simps) (simp add: masked_refl)
  next
    case False
    show ?thesis
    proof (cases "prefix old s")
      case True
      then have "masked (old @ drop (length old) s) (redactMask @ replace_all old redactMask (drop (length old) s))"
        using False "1.hyps"(1) by (intro masked_mask) auto
      then show ?thesis using True False by (subst replace_all.simps) (auto simp: prefix_def)
    next
      case no: False
      then have "masked (hd s # tl s) (hd s # replace_all old redactMask (tl s))"
        using False "1.hyps"(2) by (intro masked_keep) auto
      then show ?thesis using no False by (subst replace_all.simps) auto
    qed
  qed
qed

lemma replace_all_removes:
  "maskable a \<Longrightarrow> \<not> sublist a (replace_all a redactMask s)"
proof (induction a redactMask s rule: replace_all.induct)
  case (1 a s)
  have ne: "a \<noteq> []" using "1.prems" by (simp add: maskable_def)
  show ?case
  proof (cases "s = []")
    case True
    then show ?thesis using ne by simp
  next
    case False
    show ?thesis
    proof (cases "prefix a s")
      case True
      then have "\<not> sublist a (redactMask @ replace_all a redactMask (drop (length a) s))"
        using "1.hyps"(1) "1.prems" False ne sublist_mask_append by blast
      then show ?thesis using True False ne by (subst replace_all.simps) auto
    next
      case no: False
      have "masked s (hd s # replace_all a redactMask (tl s))"
        using False replace_all_masked masked_keep by (metis list.collapse)
      then have "\<not> prefix a (hd s # replace_all a redactMask (tl s))"
        using no masked_prefix "1.prems" by (auto simp: maskable_def)
      moreover have "\<not> sublist a (replace_all a redactMask (tl s))"
        using "1.hyps"(2) "1.prems" no False ne by blast
      ultimately show ?thesis using no False ne by (subst replace_all.simps) (auto simp: sublist_Cons_right)
    qed
  qed
qed

lemma mask_runs_masked: "masked s (mask_runs s)"
proof (induction s rule: mask_runs.induct)
  case (1 s)
  show ?case
  proof (cases "s \<noteq> [] \<and> token_char (hd s)")
    case True
    let ?run = "takeWhile token_char s" and ?rest = "dropWhile token_char s"
    have rest: "masked ?rest (mask_runs ?rest)" using 1 True by simp
    have "masked (?run @ ?rest) (?run @ mask_runs ?rest)" using rest by (rule masked_append)
    moreover have "masked (?run @ ?rest) (redactMask @ mask_runs ?rest)" using rest by (rule masked_mask)
    ultimately show ?thesis using True
      by (subst mask_runs.simps) (simp add: Let_def maskHighEntropyToken_def)
  next
    case no: False
    show ?thesis
    proof (cases "s = []")
      case True
      then show ?thesis by (subst mask_runs.simps) (auto intro: masked_Nil)
    next
      case False
      then have "masked (hd s # tl s) (hd s # mask_runs (tl s))" using 1 no by (intro masked_keep) auto
      then show ?thesis using False no by (subst mask_runs.simps) auto
    qed
  qed
qed

text \<open>What scrubbing relies on: every pattern replaces its matches by the mask.\<close>

definition scrub_ok :: "scrubprims \<Rightarrow> (string \<Rightarrow> string) list \<Rightarrow> bool" where
  "scrub_ok R patterns \<longleftrightarrow> (\<forall>s. masked s (sc_key_value R s)) \<and> (\<forall>re \<in> set patterns. \<forall>s. masked s (re s))"

lemma foldl_absent:
  assumes "\<And>f s. f \<in> set fs \<Longrightarrow> masked s (f s)" "maskable a" "\<not> sublist a s"
  shows "\<not> sublist a (foldl (\<lambda>s f. f s) s fs)"
  using assms
proof (induction fs arbitrary: s)
  case (Cons f fs)
  have "\<not> sublist a (f s)" using Cons.prems masked_sublist [of s "f s" a] by auto
  then show ?case using Cons.prems(1,2) Cons.IH by simp
qed auto

lemma apply_patterns_absent:
  assumes "scrub_ok R patterns" "maskable a" "\<not> sublist a s"
  shows "\<not> sublist a (apply_patterns R patterns s)"
proof -
  have "\<not> sublist a (sc_key_value R s)"
    using assms masked_sublist [of s "sc_key_value R s" a] by (auto simp: scrub_ok_def)
  then have "\<not> sublist a (foldl (\<lambda>s re. re s) (sc_key_value R s) patterns)"
    using assms(1,2) by (intro foldl_absent) (auto simp: scrub_ok_def)
  then show ?thesis
    using masked_sublist [OF mask_runs_masked assms(2)] unfolding apply_patterns_def by blast
qed

lemma masked_absent: "masked s t \<Longrightarrow> maskable a \<Longrightarrow> \<not> sublist a s \<Longrightarrow> \<not> sublist a t"
  using masked_sublist by blast

lemma mask_secret_masked: "masked s (mask_secret secret s)"
  by (simp add: mask_secret_def masked_refl replace_all_masked)

lemma mask_other_masked: "masked s (mask_other s secret)"
  by (simp add: mask_other_def masked_refl replace_all_masked)

lemma masked_clean: "masked s t \<Longrightarrow> CHR ''['' \<notin> set t \<Longrightarrow> s = t"
  by (induction rule: masked.induct) (auto simp: redactMask_def)

lemma foldl_mask_secret:
  assumes "maskable a" "a \<in> set secrets \<or> \<not> sublist a s"
  shows "\<not> sublist a (foldl (\<lambda>out secret. mask_secret secret out) s secrets)"
  using assms(2)
proof (induction secrets arbitrary: s)
  case (Cons x xs)
  have "a \<in> set xs \<or> \<not> sublist a (mask_secret x s)"
  proof (cases "x = a")
    case True
    then show ?thesis using replace_all_removes [OF assms(1)] assms(1) by (simp add: mask_secret_def maskable_def)
  next
    case False
    then show ?thesis using Cons.prems masked_absent [OF mask_secret_masked assms(1), of s x] by auto
  qed
  then show ?case using Cons.IH by simp
qed auto

lemma foldl_mask_other:
  assumes "maskable a" "a \<in> set secrets \<or> \<not> sublist a s" "s \<noteq> a"
  shows "\<not> sublist a (foldl mask_other s secrets)"
  using assms(2,3)
proof (induction secrets arbitrary: s)
  case (Cons x xs)
  have "a \<in> set xs \<or> \<not> sublist a (mask_other s x)"
  proof (cases "x = a")
    case True
    then show ?thesis using replace_all_removes [OF assms(1)] assms(1) Cons.prems(2)
      by (simp add: mask_other_def maskable_def)
  next
    case False
    then show ?thesis using Cons.prems masked_absent [OF mask_other_masked assms(1), of s x] by auto
  qed
  moreover have "mask_other s x \<noteq> a"
  proof
    assume eq: "mask_other s x = a"
    then have "s = mask_other s x" using assms(1) by (intro masked_clean mask_other_masked) (simp add: maskable_def)
    with eq Cons.prems(2) show False by simp
  qed
  ultimately show ?case using Cons.IH by simp
qed auto

lemma Scrub_fields:
  "ev_action (Scrub P R sb ev sensitive) =
     scrubValue P R (filter (\<lambda>s. s \<noteq> []) (remdups sensitive)) (sb_patterns sb) (ev_action ev)"
  "ev_args (Scrub P R sb ev sensitive) =
     map (scrubValue P R (filter (\<lambda>s. s \<noteq> []) (remdups sensitive)) (sb_patterns sb)) (ev_args ev)"
  "ev_meta (Scrub P R sb ev sensitive) =
     map (map_prod id (scrubValue P R (filter (\<lambda>s. s \<noteq> []) (remdups sensitive)) (sb_patterns sb))) (ev_meta ev)"
  by (auto simp: Scrub_def Let_def)

lemma Scrub_structural [simp]:
  "ev_tool (Scrub P R sb ev sensitive) = ev_tool ev" "ev_verdict (Scrub P R sb ev sensitive) = ev_verdict ev"
  "ev_session (Scrub P R sb ev sensitive) = ev_session ev" "ev_sandbox (Scrub P R sb ev sensitive) = ev_sandbox ev"
  "ev_profile (Scrub P R sb ev sensitive) = ev_profile ev" "ev_exit_code (Scrub P R sb ev sensitive) = ev_exit_code ev"
  "ev_duration_ms (Scrub P R sb ev sensitive) = ev_duration_ms ev"
  by (simp_all add: Scrub_def Let_def)

lemma ScrubString_absent:
  assumes "scrub_ok R (sb_patterns sb)" "maskable a" "a \<in> set sensitive"
  shows "\<not> sublist a (ScrubString R sb inp sensitive)"
  using assms foldl_mask_secret [OF assms(2), of sensitive inp] apply_patterns_absent [OF assms(1,2)]
  by (auto simp: ScrubString_def maskable_def)

section \<open>Properties\<close>

text \<open>
  Declared secrets never reach a client in clear: in the output of \<^verbatim>\<open>ScrubString\<close> no declared secret
  occurs anywhere, whatever other secrets and patterns were masked before or after it, provided the
  secret is non-empty, has no square bracket and is not part of the word \<^verbatim>\<open>REDACTED\<close> (the mask could
  spell such a secret), and every pattern replaces its matches by the mask.
\<close>

theorem declared_secret_masked:
  assumes "scrub_ok R (sb_patterns sb)" "maskable a" "a \<in> set sensitive"
  shows "\<not> sublist a (ScrubString R sb inp sensitive)"
  using assms by (rule ScrubString_absent)

definition no_patterns :: scrubprims where
  "no_patterns = \<lparr>sc_key_value = id, sc_builtin = []\<rparr>"

lemma no_patterns_ok: "scrub_ok no_patterns (sb_patterns (NewScrubber no_patterns []))"
  by (simp add: scrub_ok_def no_patterns_def NewScrubber_def masked_refl List.map_filter_def)

theorem declared_secret_masked_witness:
  "\<not> sublist ''hunter2'' (ScrubString no_patterns (NewScrubber no_patterns []) ''pw=hunter2!'' [''x'', ''hunter2''])"
proof (rule declared_secret_masked [OF no_patterns_ok])
  show "maskable ''hunter2''" by (simp add: maskable_def sublist_code)
qed simp

text \<open>
  What scrubbing does to an audit event: the structural fields are kept; the event comes back
  unchanged, or marked as redacted with the payload hash of the original; and every action, argument
  and metadata value of the result is the digest of a value that is itself a declared secret, or
  contains no declared secret at all (secrets as in the previous statement).
\<close>

theorem Scrub_event_spec:
  assumes "scrub_ok R (sb_patterns sb)"
  shows "(Scrub P R sb ev sensitive = ev \<or>
      (\<exists>act args meta. Scrub P R sb ev sensitive =
         ev\<lparr>ev_action := act, ev_args := args, ev_meta := meta, ev_redacted := True,
            ev_payload_hash := hashPayload P ev\<rparr> \<and> length args = length (ev_args ev) \<and> map fst meta = map fst (ev_meta ev))) \<and>
    (\<forall>v \<in> {ev_action (Scrub P R sb ev sensitive)} \<union> set (ev_args (Scrub P R sb ev sensitive)) \<union>
          snd ` set (ev_meta (Scrub P R sb ev sensitive)).
       (\<exists>s \<in> set sensitive. v = redactString P s) \<or> (\<forall>a \<in> set sensitive. maskable a \<longrightarrow> \<not> sublist a v))"
proof -
  let ?secrets = "filter (\<lambda>s. s \<noteq> []) (remdups sensitive)"
  let ?scrub = "scrubValue P R ?secrets (sb_patterns sb)"
  have val: "(\<exists>s \<in> set sensitive. ?scrub v = redactString P s) \<or>
      (\<forall>a \<in> set sensitive. maskable a \<longrightarrow> \<not> sublist a (?scrub v))" for v
  proof -
    have "\<not> sublist a (?scrub v)" if "v \<notin> set ?secrets" "a \<in> set sensitive" "maskable a" for a
    proof (cases "v = []")
      case True
      then show ?thesis using that(3) by (simp add: scrubValue_def maskable_def)
    next
      case False
      have "a \<in> set ?secrets" using that by (simp add: maskable_def)
      then have "\<not> sublist a (foldl mask_other v ?secrets)"
        using that by (intro foldl_mask_other) auto
      then have "\<not> sublist a (apply_patterns R (sb_patterns sb) (foldl mask_other v ?secrets))"
        by (rule apply_patterns_absent [OF assms that(3)])
      then show ?thesis using False that(1) by (simp add: scrubValue_def del: set_filter)
    qed
    moreover have "?scrub v = redactString P v \<and> v \<in> set sensitive" if "v \<in> set ?secrets"
      using that by (simp add: scrubValue_def)
    ultimately show ?thesis by blast
  qed
  let ?ev' = "ev\<lparr>ev_action := ?scrub (ev_action ev), ev_args := map ?scrub (ev_args ev),
    ev_meta := map (map_prod id ?scrub) (ev_meta ev), ev_redacted := True, ev_payload_hash := hashPayload P ev\<rparr>"
  have cases: "Scrub P R sb ev sensitive = ev \<or> Scrub P R sb ev sensitive = ?ev'"
    by (simp only: Scrub_def Let_def) simp
  have shape: "length (map ?scrub (ev_args ev)) = length (ev_args ev)"
    "map fst (map (map_prod id ?scrub) (ev_meta ev)) = map fst (ev_meta ev)" by (simp_all add: comp_def)
  show ?thesis
  proof (intro conjI)
    show "Scrub P R sb ev sensitive = ev \<or>
      (\<exists>act args meta. Scrub P R sb ev sensitive =
         ev\<lparr>ev_action := act, ev_args := args, ev_meta := meta, ev_redacted := True,
            ev_payload_hash := hashPayload P ev\<rparr> \<and> length args = length (ev_args ev) \<and> map fst meta = map fst (ev_meta ev))"
      using cases shape by blast
    show "\<forall>v \<in> {ev_action (Scrub P R sb ev sensitive)} \<union> set (ev_args (Scrub P R sb ev sensitive)) \<union>
          snd ` set (ev_meta (Scrub P R sb ev sensitive)).
       (\<exists>s \<in> set sensitive. v = redactString P s) \<or> (\<forall>a \<in> set sensitive. maskable a \<longrightarrow> \<not> sublist a v)"
    proof
      fix v
      assume "v \<in> {ev_action (Scrub P R sb ev sensitive)} \<union> set (ev_args (Scrub P R sb ev sensitive)) \<union>
          snd ` set (ev_meta (Scrub P R sb ev sensitive))"
      then obtain u where "v = ?scrub u" by (auto simp: Scrub_fields)
      then show "(\<exists>s \<in> set sensitive. v = redactString P s) \<or> (\<forall>a \<in> set sensitive. maskable a \<longrightarrow> \<not> sublist a v)"
        using val [of u] by simp
    qed
  qed
qed

theorem Scrub_event_spec_witness:
  "maskable ''hunter2'' \<and>
     \<not> sublist ''hunter2'' (ev_action (Scrub id_prims no_patterns (NewScrubber no_patterns [])
        (zero_event\<lparr>ev_action := ''pw=hunter2''\<rparr>) [''hunter2'']))"
proof -
  let ?ev = "Scrub id_prims no_patterns (NewScrubber no_patterns []) (zero_event\<lparr>ev_action := ''pw=hunter2''\<rparr>) [''hunter2'']"
  have "(\<exists>s \<in> set [''hunter2'']. ev_action ?ev = redactString id_prims s) \<or>
      (\<forall>a \<in> set [''hunter2'']. maskable a \<longrightarrow> \<not> sublist a (ev_action ?ev))"
    using Scrub_event_spec [OF no_patterns_ok, of id_prims "zero_event\<lparr>ev_action := ''pw=hunter2''\<rparr>" "[''hunter2'']",
        THEN conjunct2, THEN bspec, of "ev_action ?ev"] by simp
  moreover have "scrubValue id_prims no_patterns [''hunter2''] [] ''pw=hunter2'' = ''pw=[REDACTED]''"
    by code_simp
  then have "ev_action ?ev = ''pw=[REDACTED]''"
    by (simp add: Scrub_fields NewScrubber_def no_patterns_def List.map_filter_def)
  moreover have "maskable ''hunter2''" by (simp add: maskable_def sublist_code)
  ultimately show ?thesis by (auto simp: redactString_def)
qed

end
