(* ===== verification/Session_Setup.thy ===== *)
theory Session_Setup
  imports Policy_Engine Guardrails Accounting Ledger_Scrub
begin

text \<open>
  The pieces of \<^verbatim>\<open>internal/controlplane/manager.go\<close> that turn a resolved profile into a governed
  session: the choice of policy engine and of its default verdict, the guard, the environment with its
  secret values, the audit scrub patterns and the declared capabilities. The profile fields are those
  of \<^verbatim>\<open>internal/profile/schema.go\<close> that the control plane reads; \<open>'c\<close> is the type of costs.
\<close>

section \<open>Profiles\<close>

record env_var =
  ev_name :: string
  ev_value :: string
  ev_file :: string
  ev_op :: string
  ev_secret_flag :: bool

definition Secret :: "env_var \<Rightarrow> bool" where
  "Secret e \<longleftrightarrow> ev_secret_flag e \<or> ev_op e \<noteq> [] \<or> ev_file e \<noteq> []"

record rego_policy =
  rp_module :: string
  rp_file :: string
  rp_query :: string

record policy_bundle =
  pb_ref :: string
  pb_verify_key :: string
  pb_plain_http :: bool
  pb_insecure :: bool

record 'c profile =
  pro_name :: string
  pro_image :: string
  pro_workdir :: string
  pro_capabilities :: "string list"
  pro_env :: "env_var list"
  pro_policy :: "policy_rule list"
  pro_policy_default :: string
  pro_policy_engine :: string
  pro_cel :: "cel_rule list"
  pro_rego :: rego_policy
  pro_policy_bundle :: "policy_bundle option"
  pro_limits :: "'c limits"
  pro_redact :: "bool option"
  pro_scrub_patterns :: "string list"

definition RedactEnabled :: "'c profile \<Rightarrow> bool" where
  "RedactEnabled p = (case pro_redact p of None \<Rightarrow> True | Some b \<Rightarrow> b)"

definition UsesCEL :: "'c profile \<Rightarrow> bool" where
  "UsesCEL p \<longleftrightarrow> pro_policy_engine p = ''cel''"

definition UsesRego :: "'c profile \<Rightarrow> bool" where
  "UsesRego p \<longleftrightarrow> pro_policy_engine p = ''rego''"

definition UsesPolicyBundle :: "'c profile \<Rightarrow> bool" where
  "UsesPolicyBundle p = (case pro_policy_bundle p of None \<Rightarrow> False | Some b \<Rightarrow> pb_ref b \<noteq> [])"

section \<open>Policy engines of a profile\<close>

datatype evaluator_impl = BuiltinEngine engine | CELEngine cel_engine | RegoEngine rego_engine

fun engine_Evaluate :: "evaluator_impl \<Rightarrow> action \<Rightarrow> decision" where
  "engine_Evaluate (BuiltinEngine e) a = Evaluate e a"
| "engine_Evaluate (CELEngine e) a = CEL_Evaluate e a"
| "engine_Evaluate (RegoEngine e) a = Rego_Evaluate e a"

fun wf_impl :: "evaluator_impl \<Rightarrow> bool" where
  "wf_impl (BuiltinEngine e) = wf_builtin e"
| "wf_impl (CELEngine e) = wf_cel e"
| "wf_impl (RegoEngine e) = wf_rego e"

interpretation impl: evaluator engine_Evaluate wf_impl
proof
  fix e a
  assume "wf_impl e"
  then show "known_verdict (dec_verdict (engine_Evaluate e a))"
    by (cases e) (auto intro: builtin.evaluate_known cel.evaluate_known rego.evaluate_known)
qed

text \<open>\<open>envDefault\<close> is the value of \<^verbatim>\<open>RUNEWARD_POLICY_DEFAULT\<close>.\<close>

definition noMatchPolicyVerdict :: "string \<Rightarrow> 'c profile option \<Rightarrow> verdict" where
  "noMatchPolicyVerdict envDefault p =
     (let norm = (\<lambda>s. to_lower (trim_space s));
          fromEnv = (if norm envDefault = VerdictDeny then VerdictDeny else VerdictAllow) in
      case p of
        None \<Rightarrow> fromEnv
      | Some p \<Rightarrow>
          if norm (pro_policy_default p) = VerdictDeny then VerdictDeny
          else if norm (pro_policy_default p) = VerdictAllow then VerdictAllow
          else fromEnv)"

text \<open>
  What building an engine uses of the outside: reading a policy file, the CEL and Rego compilers, and
  pulling a bundle. A pulled bundle names its engine (\<^verbatim>\<open>rego\<close> or \<^verbatim>\<open>cel\<close>) and carries the policy;
  \<open>bp_cel\<close> is the TOML decoding of a CEL fragment.
\<close>

record pulled_bundle =
  bp_engine :: string
  bp_policy :: string
  bp_query :: string

record engineprims =
  ep_read_file :: "string \<Rightarrow> string option"
  ep_compile :: "string \<Rightarrow> (string \<Rightarrow> string \<Rightarrow> string + bool) option"
  ep_prepare :: "string \<Rightarrow> string \<Rightarrow> (string \<Rightarrow> string \<Rightarrow> rego_outcome) option"
  ep_decode_key :: "string \<Rightarrow> string option"
  ep_pull :: "string \<Rightarrow> string option \<Rightarrow> bool \<Rightarrow> pulled_bundle option"
  ep_cel_fragment :: "string \<Rightarrow> cel_rule list option"

datatype engine_error =
    EngReadRego | EngRego | EngCEL | EngBundleKey | EngBundleUnverified | EngBundlePull
  | EngBundleFragment | EngBundleUnknown

definition mkRego :: "engineprims \<Rightarrow> string \<Rightarrow> string \<Rightarrow> verdict \<Rightarrow> (engine_error, evaluator_impl) result" where
  "mkRego E module query noMatch =
     (case ep_prepare E module (if query = [] then ''data.runeward.decision'' else query) of
        None \<Rightarrow> Inl EngRego
      | Some pq \<Rightarrow> Inr (RegoEngine (NewRego pq noMatch)))"

definition mkCEL :: "engineprims \<Rightarrow> cel_rule list \<Rightarrow> verdict \<Rightarrow> (engine_error, evaluator_impl) result" where
  "mkCEL E rules noMatch =
     (case NewCEL (ep_compile E) rules noMatch of
        None \<Rightarrow> Inl EngCEL
      | Some e \<Rightarrow> Inr (CELEngine e))"

definition newBundleEngine :: "engineprims \<Rightarrow> string \<Rightarrow> policy_bundle \<Rightarrow> 'c profile \<Rightarrow> (engine_error, evaluator_impl) result" where
  "newBundleEngine E envDefault pb p =
     (let noMatch = noMatchPolicyVerdict envDefault (Some p);
          build = (\<lambda>verify.
            (case ep_pull E (pb_ref pb) verify (pb_plain_http pb) of
               None \<Rightarrow> Inl EngBundlePull
             | Some b \<Rightarrow>
                 if bp_engine b = ''rego'' then mkRego E (bp_policy b) (bp_query b) noMatch
                 else if bp_engine b = ''cel'' then
                   (case ep_cel_fragment E (bp_policy b) of
                      None \<Rightarrow> Inl EngBundleFragment
                    | Some rules \<Rightarrow> mkCEL E rules noMatch)
                 else Inl EngBundleUnknown))
      in if pb_verify_key pb \<noteq> [] then
           (case ep_decode_key E (pb_verify_key pb) of
              None \<Rightarrow> Inl EngBundleKey
            | Some k \<Rightarrow> build (Some k))
         else if pb_insecure pb then build None
         else Inl EngBundleUnverified)"

definition newEngine :: "engineprims \<Rightarrow> string \<Rightarrow> 'c profile \<Rightarrow> (engine_error, evaluator_impl) result" where
  "newEngine E envDefault p =
     (let noMatch = noMatchPolicyVerdict envDefault (Some p) in
      if UsesPolicyBundle p then newBundleEngine E envDefault (the (pro_policy_bundle p)) p
      else if UsesRego p then
        (let r = pro_rego p in
         if rp_module r = [] \<and> rp_file r \<noteq> [] then
           (case ep_read_file E (rp_file r) of
              None \<Rightarrow> Inl EngReadRego
            | Some module \<Rightarrow> mkRego E module (rp_query r) noMatch)
         else mkRego E (rp_module r) (rp_query r) noMatch)
      else if UsesCEL p then mkCEL E (pro_cel p) noMatch
      else Inr (BuiltinEngine (New (pro_policy p) noMatch)))"

section \<open>Environment, guard, scrub patterns, capabilities\<close>

text \<open>Outcome of resolving one entry: \<open>resolve\<close> is the secret resolver, \<open>readFile\<close> reads (and expands
  \<^verbatim>\<open>~/\<close> in) a path. Trailing carriage returns and newlines of a file are dropped.\<close>

definition trim_newlines :: "string \<Rightarrow> string" where
  "trim_newlines s = rev (dropWhile (\<lambda>c. c = CHR 0x0A \<or> c = CHR 0x0D) (rev s))"

fun resolveEnv ::
  "(string \<Rightarrow> string option) \<Rightarrow> (string \<Rightarrow> string option) \<Rightarrow> env_var list \<Rightarrow>
   ((string \<rightharpoonup> string) \<times> string list) \<Rightarrow> ((string \<rightharpoonup> string) \<times> string list) option" where
  "resolveEnv resolve readFile [] acc = Some acc"
| "resolveEnv resolve readFile (e # es) acc =
     (let add = (\<lambda>val. resolveEnv resolve readFile es
             ((fst acc)(ev_name e \<mapsto> val), if Secret e \<and> val \<noteq> [] then snd acc @ [val] else snd acc))
      in if ev_op e \<noteq> [] then
           (case resolve (ev_op e) of None \<Rightarrow> None | Some val \<Rightarrow> add val)
         else if ev_file e \<noteq> [] then
           (case readFile (ev_file e) of None \<Rightarrow> None | Some bytes \<Rightarrow> add (trim_newlines bytes))
         else if ev_value e \<noteq> [] then add (ev_value e)
         else resolveEnv resolve readFile es acc)"

definition CheckProfilePrerequisites ::
  "(string \<Rightarrow> string option) \<Rightarrow> (string \<Rightarrow> string option) \<Rightarrow> 'c profile \<Rightarrow> bool" where
  "CheckProfilePrerequisites resolve readFile p \<longleftrightarrow> resolveEnv resolve readFile (pro_env p) (Map.empty, []) \<noteq> None"

definition policyGuard :: "(string \<Rightarrow> duration option) \<Rightarrow> gotime \<Rightarrow> 'c profile \<Rightarrow> guard option" where
  "policyGuard parseDuration now p = map_option (Start now) (NewGuard parseDuration (pro_limits p))"

text \<open>\<open>compile\<close> is \<^verbatim>\<open>regexp.Compile\<close>, giving the replacement function of the expression.\<close>

fun compileAuditScrubPatterns ::
  "(string \<Rightarrow> (string \<Rightarrow> string) option) \<Rightarrow> string list \<Rightarrow> (string \<Rightarrow> string) option list option" where
  "compileAuditScrubPatterns compile [] = Some []"
| "compileAuditScrubPatterns compile (raw # raws) =
     (let pat = trim_space raw in
      if pat = [] then compileAuditScrubPatterns compile raws
      else (case compile pat of
              None \<Rightarrow> None
            | Some re \<Rightarrow> map_option ((#) (Some re)) (compileAuditScrubPatterns compile raws)))"

definition known_capability :: "string \<Rightarrow> bool" where
  "known_capability c \<longleftrightarrow> c = ''python'' \<or> c = ''node'' \<or> c = ''browser''"

fun declared_capabilities :: "string list \<Rightarrow> string list \<Rightarrow> string list" where
  "declared_capabilities [] out = out"
| "declared_capabilities (c # cs) out =
     (let capability = to_lower (trim_space c) in
      declared_capabilities cs
        (if known_capability capability \<and> capability \<notin> set out then out @ [capability] else out))"

definition add_capability :: "bool \<Rightarrow> string \<Rightarrow> string list \<Rightarrow> string list" where
  "add_capability b c out = (if b \<and> c \<notin> set out then out @ [c] else out)"

definition profileCapabilities :: "'c profile \<Rightarrow> string list" where
  "profileCapabilities p =
     (let image = to_lower (pro_image p);
          has = (\<lambda>s. str_contains image s);
          full = has ''runeward-sandbox''; agent = has ''runeward-agent'' \<or> has ''runeward-ide-agents'' in
      add_capability (has ''alpine-chrome'' \<or> full) ''browser''
        (add_capability (has ''node'' \<or> full \<or> agent) ''node''
          (add_capability (has ''python'' \<or> full \<or> agent) ''python''
            (declared_capabilities (pro_capabilities p) []))))"

definition hasCapability :: "'c profile \<Rightarrow> string \<Rightarrow> bool" where
  "hasCapability p wanted \<longleftrightarrow> wanted \<in> set (profileCapabilities p)"

definition orReason :: "string \<Rightarrow> string \<Rightarrow> string" where
  "orReason reason fallback = (if trim_space reason = [] then fallback else reason)"

definition isEgressTool :: "string \<Rightarrow> bool" where
  "isEgressTool tool \<longleftrightarrow> tool = ''browser'' \<or> tool = ''net''"

definition ignoreClientUsageBudget :: "string \<Rightarrow> bool" where
  "ignoreClientUsageBudget env \<longleftrightarrow> to_lower (trim_space env) \<in> {''1'', ''true'', ''yes'', ''on''}"

text \<open>\<open>envLease\<close> is the value of \<^verbatim>\<open>RUNEWARD_FLEET_LEASE\<close>.\<close>

definition fleetLeaseFromEnv :: "(string \<Rightarrow> duration option) \<Rightarrow> string \<Rightarrow> duration" where
  "fleetLeaseFromEnv parseDuration envLease =
     (let v = to_lower (trim_space envLease); two_minutes = 120 * 1000000000 in
      if v = [] then two_minutes
      else if v \<in> {''0'', ''off'', ''none''} then 0
      else (case parseDuration envLease of Some d \<Rightarrow> d | None \<Rightarrow> two_minutes))"

end
