(* ===== verification/Approvals.thy ===== *)
theory Approvals
  imports Rune_Prelude
begin

text \<open>
  The inbox of pending human approvals (\<^verbatim>\<open>internal/controlplane/approvals.go\<close>). A governed call that
  needs an approval registers it, then waits on the approval's channel \<^verbatim>\<open>decided\<close>, which has room for
  one value, until an operator resolves it or the wait ends.

  The store keeps the registry of pending approvals (\<open>ap_pending\<close>) and, for every approval created so
  far, the contents of its channel (\<open>ap_chan\<close>: \<^verbatim>\<open>None\<close> for an empty buffer). A send on a full buffer
  would block its sender for ever; the invariant shows that it does not happen.
\<close>

section \<open>Data\<close>

record approval =
  ap_id :: string
  ap_sandbox :: string
  ap_tool :: string
  ap_action :: string
  ap_reason :: string
  ap_created :: gotime

record approval_store =
  ap_pending :: "(string \<times> approval) list"
  ap_chan :: "string \<Rightarrow> bool option"

section \<open>Operations\<close>

definition NewApprovalStore :: approval_store where
  "NewApprovalStore = \<lparr>ap_pending = [], ap_chan = (\<lambda>_. None)\<rparr>"

text \<open>The map of pending approvals as an association list: deleting and setting a key.\<close>

definition del_key :: "string \<Rightarrow> (string \<times> 'a) list \<Rightarrow> (string \<times> 'a) list" where
  "del_key k xs = filter (\<lambda>p. fst p \<noteq> k) xs"

definition Create ::
  "gotime \<Rightarrow> string \<Rightarrow> string \<Rightarrow> string \<Rightarrow> string \<Rightarrow> string \<Rightarrow> approval_store \<Rightarrow> approval \<times> approval_store" where
  "Create now apid sandbox tool act reason s =
     (let ap = \<lparr>ap_id = apid, ap_sandbox = sandbox, ap_tool = tool, ap_action = act, ap_reason = reason,
                ap_created = now\<rparr> in
      (ap, s\<lparr>ap_pending := (apid, ap) # del_key apid (ap_pending s), ap_chan := (ap_chan s)(apid := None)\<rparr>))"

text \<open>An \<^verbatim>\<open>ApprovalView\<close> has exactly the exported fields of the approval.\<close>

definition List_approvals :: "approval_store \<Rightarrow> approval list" where
  "List_approvals s = map snd (ap_pending s)"

definition Get_approval :: "string \<Rightarrow> approval_store \<Rightarrow> approval option" where
  "Get_approval apid s = map_of (ap_pending s) apid"

definition ResolveView :: "string \<Rightarrow> bool \<Rightarrow> approval_store \<Rightarrow> approval option \<times> approval_store" where
  "ResolveView apid approve s =
     (case map_of (ap_pending s) apid of
        None \<Rightarrow> (None, s)
      | Some ap \<Rightarrow>
          (Some ap, s\<lparr>ap_pending := del_key apid (ap_pending s), ap_chan := (ap_chan s)(apid \<mapsto> approve)\<rparr>))"

definition Resolve :: "string \<Rightarrow> bool \<Rightarrow> approval_store \<Rightarrow> bool \<times> approval_store" where
  "Resolve apid approve s = map_prod (\<lambda>v. v \<noteq> None) (\<lambda>s. s) (ResolveView apid approve s)"

definition forget :: "string \<Rightarrow> approval_store \<Rightarrow> approval_store" where
  "forget apid s = s\<lparr>ap_pending := del_key apid (ap_pending s)\<rparr>"

text \<open>The waiter's receive: it is possible when the buffer is full, and empties it.\<close>

definition receive :: "string \<Rightarrow> approval_store \<Rightarrow> bool option \<times> approval_store" where
  "receive apid s = (ap_chan s apid, s\<lparr>ap_chan := (ap_chan s)(apid := None)\<rparr>)"

section \<open>Runs\<close>

text \<open>
  The store is driven by many waiters and operators. Ids are 128 random bits, so a run creates
  each id once: a state is a store with the ids created so far, and a creation with a used id is
  left out.
\<close>

datatype approval_op =
    ApCreate gotime string string string string string
  | ApResolve string bool
  | ApForget string
  | ApReceive string

record approval_run =
  ar_store :: approval_store
  ar_used :: "string list"

fun approval_step :: "approval_run \<Rightarrow> approval_op \<Rightarrow> approval_run" where
  "approval_step r (ApCreate now apid sb tool act reason) =
     (if apid \<in> set (ar_used r) then r
      else r\<lparr>ar_store := snd (Create now apid sb tool act reason (ar_store r)), ar_used := apid # ar_used r\<rparr>)"
| "approval_step r (ApResolve apid b) = r\<lparr>ar_store := snd (ResolveView apid b (ar_store r))\<rparr>"
| "approval_step r (ApForget apid) = r\<lparr>ar_store := forget apid (ar_store r)\<rparr>"
| "approval_step r (ApReceive apid) = r\<lparr>ar_store := snd (receive apid (ar_store r))\<rparr>"

definition approval_inv :: "approval_run \<Rightarrow> bool" where
  "approval_inv r \<longleftrightarrow>
     distinct (map fst (ap_pending (ar_store r))) \<and>
     (\<forall>(apid, ap) \<in> set (ap_pending (ar_store r)).
        ap_id ap = apid \<and> apid \<in> set (ar_used r) \<and> ap_chan (ar_store r) apid = None) \<and>
     (\<forall>apid. apid \<notin> set (ar_used r) \<longrightarrow> ap_chan (ar_store r) apid = None)"

definition new_run :: approval_run where
  "new_run = \<lparr>ar_store = NewApprovalStore, ar_used = []\<rparr>"

lemma new_run_inv: "approval_inv new_run"
  by (simp add: approval_inv_def new_run_def NewApprovalStore_def)

lemma del_key_simps [simp]:
  "map_of (del_key k xs) k' = (if k' = k then None else map_of xs k')"
  "set (del_key k xs) = {p \<in> set xs. fst p \<noteq> k}"
  "distinct (map fst xs) \<Longrightarrow> distinct (map fst (del_key k xs))"
  by (induction xs) (auto simp: del_key_def)

lemma approval_step_inv: "approval_inv r \<Longrightarrow> approval_inv (approval_step r e)"
  by (cases e)
    (auto simp: approval_inv_def Create_def ResolveView_def forget_def receive_def Let_def
      split: option.splits dest: map_of_SomeD)

interpretation approvals: invariant_machine approval_step approval_inv
  by unfold_locales (rule approval_step_inv)

text \<open>The decision an operation of a run delivers for an approval: an accepted resolution.\<close>

fun delivers :: "string \<Rightarrow> approval_run \<Rightarrow> approval_op \<Rightarrow> bool option" where
  "delivers apid r (ApResolve i b) =
     (if i = apid \<and> map_of (ap_pending (ar_store r)) apid \<noteq> None then Some b else None)"
| "delivers apid r _ = None"

fun deliveries :: "string \<Rightarrow> approval_run \<Rightarrow> approval_op list \<Rightarrow> bool list" where
  "deliveries apid r [] = []"
| "deliveries apid r (e # es) =
     (case delivers apid r e of Some b \<Rightarrow> [b] | None \<Rightarrow> []) @ deliveries apid (approval_step r e) es"

text \<open>What the waiter of an approval has read from its channel over a run.\<close>

fun received :: "string \<Rightarrow> approval_run \<Rightarrow> approval_op list \<Rightarrow> bool list" where
  "received apid r [] = []"
| "received apid r (e # es) =
     (if e = ApReceive apid then (case ap_chan (ar_store r) apid of Some b \<Rightarrow> [b] | None \<Rightarrow> []) else [])
      @ received apid (approval_step r e) es"

lemma used_not_pending_step:
  assumes "apid \<in> set (ar_used r)" "map_of (ap_pending (ar_store r)) apid = None"
  shows "apid \<in> set (ar_used (approval_step r e)) \<and> map_of (ap_pending (ar_store (approval_step r e))) apid = None"
  using assms by (cases e) (auto simp: Create_def ResolveView_def forget_def receive_def Let_def split: option.splits)

lemma no_delivery_after:
  "apid \<in> set (ar_used r) \<Longrightarrow> map_of (ap_pending (ar_store r)) apid = None \<Longrightarrow> deliveries apid r es = []"
proof (induction es arbitrary: r)
  case (Cons e es)
  have "delivers apid r e = None" using Cons.prems by (cases e) auto
  then show ?case using Cons used_not_pending_step [OF Cons.prems, of e] by simp
qed auto

lemma deliveries_at_most_one: "approval_inv r \<Longrightarrow> length (deliveries apid r es) \<le> 1"
proof (induction es arbitrary: r)
  case (Cons e es)
  show ?case
  proof (cases "delivers apid r e")
    case None
    then show ?thesis using Cons approval_step_inv [OF Cons.prems, of e] by simp
  next
    case (Some b)
    then obtain ap where e: "e = ApResolve apid b" "map_of (ap_pending (ar_store r)) apid = Some ap"
      by (cases e) (auto split: if_splits)
    then have "apid \<in> set (ar_used r)" using Cons.prems by (auto simp: approval_inv_def dest: map_of_SomeD)
    then have "deliveries apid (approval_step r e) es = []"
      using e by (intro no_delivery_after) (auto simp: ResolveView_def)
    then show ?thesis using Some by simp
  qed
qed auto

text \<open>What was delivered is what is read or still in the buffer.\<close>

lemma received_delivered:
  assumes "approval_inv r"
  shows "received apid r es @ (case ap_chan (ar_store (foldl approval_step r es)) apid of None \<Rightarrow> [] | Some b \<Rightarrow> [b]) =
    (case ap_chan (ar_store r) apid of None \<Rightarrow> [] | Some b \<Rightarrow> [b]) @ deliveries apid r es"
  using assms
proof (induction es arbitrary: r)
  case (Cons e es)
  let ?chan = "\<lambda>r. case ap_chan (ar_store r) apid of None \<Rightarrow> [] | Some b \<Rightarrow> [b]"
  have step: "(if e = ApReceive apid then ?chan r else []) @ ?chan (approval_step r e) =
      ?chan r @ (case delivers apid r e of Some b \<Rightarrow> [b] | None \<Rightarrow> [])"
  proof (cases e)
    case (ApResolve i b)
    show ?thesis
    proof (cases "i = apid \<and> map_of (ap_pending (ar_store r)) apid \<noteq> None")
      case True
      then have "ap_chan (ar_store r) apid = None"
        using Cons.prems by (auto simp: approval_inv_def dest: map_of_SomeD)
      then show ?thesis using ApResolve True by (auto simp: ResolveView_def)
    next
      case False
      then show ?thesis using ApResolve by (auto simp: ResolveView_def split: option.splits)
    qed
  next
    case (ApCreate now i sb tool act reason)
    then show ?thesis using Cons.prems by (auto simp: Create_def Let_def approval_inv_def)
  qed (auto simp: forget_def receive_def)
  have "(if e = ApReceive apid then ?chan r else []) @ received apid (approval_step r e) es @
      ?chan (foldl approval_step (approval_step r e) es) =
      ((if e = ApReceive apid then ?chan r else []) @ ?chan (approval_step r e)) @ deliveries apid (approval_step r e) es"
    using Cons.IH [OF approval_step_inv [OF Cons.prems], of e] by simp
  then show ?case unfolding step by (simp split: if_splits)
qed auto

section \<open>Properties\<close>

text \<open>
  C35. One human decision per approval: over any interleaving of creations, resolutions by any number
  of operators, timeouts and waiters, an approval is resolved at most once, a waiter reads at most
  one value and only the value of that one accepted resolution, and the resolver's send never blocks
  (the channel of a pending approval is empty).
\<close>

theorem approval_decided_at_most_once:
  fixes apid :: string and es :: "approval_op list"
  defines "r \<equiv> foldl approval_step new_run es"
  shows "length (deliveries apid new_run es) \<le> 1 \<and>
    prefix (received apid new_run es) (deliveries apid new_run es) \<and>
    (Get_approval apid (ar_store r) \<noteq> None \<longrightarrow> ap_chan (ar_store r) apid = None)"
proof -
  have "approval_inv r" unfolding r_def using new_run_inv by (rule approvals.run_inv)
  then have "Get_approval apid (ar_store r) \<noteq> None \<longrightarrow> ap_chan (ar_store r) apid = None"
    by (auto simp: Get_approval_def approval_inv_def dest: map_of_SomeD)
  moreover have "received apid new_run es @ (case ap_chan (ar_store r) apid of None \<Rightarrow> [] | Some b \<Rightarrow> [b]) =
      deliveries apid new_run es"
    using received_delivered [OF new_run_inv, of apid es] unfolding r_def
    by (simp add: new_run_def NewApprovalStore_def)
  ultimately show ?thesis
    using deliveries_at_most_one [OF new_run_inv] by (metis prefixI)
qed

theorem approval_decided_at_most_once_witness:
  "length (deliveries ''a'' new_run [ApCreate 1 ''a'' ''sb'' ''t'' ''x'' ''r'', ApResolve ''a'' True, ApResolve ''a'' False]) \<le> 1 \<and>
   deliveries ''a'' new_run [ApCreate 1 ''a'' ''sb'' ''t'' ''x'' ''r'', ApResolve ''a'' True, ApResolve ''a'' False] = [True]"
  using approval_decided_at_most_once [of "''a''" "[ApCreate 1 ''a'' ''sb'' ''t'' ''x'' ''r'', ApResolve ''a'' True, ApResolve ''a'' False]"]
  by (simp add: new_run_def NewApprovalStore_def Create_def ResolveView_def Let_def del_key_def)

end
