(* ===== verification/Govern.thy ===== *)
theory Govern
  imports Session_Setup Approvals
begin

text \<open>
  The governed path of the control plane (\<^verbatim>\<open>governOut\<close>, \<^verbatim>\<open>record\<close>, \<^verbatim>\<open>RecordUsageContext\<close> and
  \<^verbatim>\<open>ResolveApproval\<close> of \<^verbatim>\<open>internal/controlplane/manager.go\<close>): policy decision, human approval,
  guardrails, token budget, execution, audit and output scrubbing.

  The manager state used here is the record \<open>manager\<close>; \<open>mg_audit\<close> is the sequence of events handed to
  \<^verbatim>\<open>appendAudit\<close>, in order. A call that waits for an approval lets other calls run: the model takes
  their combined effect as the argument \<open>meanwhile\<close>, and how the wait ended as \<open>outcome\<close>. The action
  itself (\<^verbatim>\<open>run\<close>) is an argument whose result is used, and the result says whether it was invoked.
\<close>

section \<open>State\<close>

record 'c session =
  ss_id :: string
  ss_profile :: "'c profile"
  ss_engine :: evaluator_impl
  ss_guard :: guard
  ss_env :: "string \<rightharpoonup> string"
  ss_workdir :: string
  ss_owner :: string
  ss_actor :: string
  ss_run_id :: string
  ss_parent_run_id :: string
  ss_agent :: string
  ss_provider :: string
  ss_model :: string
  ss_secrets :: "string list"
  ss_scrubber :: "scrubber option"
  ss_ide_endpoint :: string

record 'c manager =
  mg_sessions :: "string \<rightharpoonup> 'c session"
  mg_approvals :: approval_store
  mg_accounting :: "'c tracker"
  mg_audit :: "event list"

text \<open>What governing uses of the outside: hashing and time rendering, the built-in patterns, the two
  renderings of a cost, and the value of \<^verbatim>\<open>RUNEWARD_IGNORE_CLIENT_USAGE\<close>.\<close>

record 'c govprims =
  gp_prims :: prims
  gp_scrub :: scrubprims
  gp_fmt_cost :: "'c \<Rightarrow> string"
  gp_show_cost :: "'c \<Rightarrow> string"
  gp_ignore_usage :: string

record exec_result =
  xr_exit_code :: int
  xr_stdout :: string
  xr_stderr :: string
  xr_duration_ms :: int

record tool_result =
  tr_verdict :: verdict
  tr_reason :: string
  tr_approval_id :: string
  tr_pending :: bool
  tr_exit_code :: int
  tr_stdout :: string
  tr_stderr :: string
  tr_duration_ms :: int

definition refusal :: "verdict \<Rightarrow> string \<Rightarrow> tool_result" where
  "refusal v reason = \<lparr>tr_verdict = v, tr_reason = reason, tr_approval_id = [], tr_pending = False,
     tr_exit_code = 0, tr_stdout = [], tr_stderr = [], tr_duration_ms = 0\<rparr>"

fun guard_error_text :: "guard_error \<Rightarrow> string" where
  "guard_error_text ErrWallClock = ''policy: wall-clock deadline exceeded''"
| "guard_error_text ErrMaxExecs = ''policy: max execs exceeded''"
| "guard_error_text ErrEgressBudget = ''policy: egress budget exceeded''"
| "guard_error_text ErrLoopDetected = ''policy: runaway loop detected''"

section \<open>Audit records\<close>

definition eventScrubber :: "scrubprims \<Rightarrow> 'c session \<Rightarrow> scrubber" where
  "eventScrubber R sess = (case ss_scrubber sess of Some sb \<Rightarrow> sb | None \<Rightarrow> NewScrubber R [])"

definition WithActor :: "string option \<Rightarrow> string \<Rightarrow> string option" where
  "WithActor ctx actor = (if trim_space actor = [] then ctx else Some (trim_space actor))"

text \<open>The actor of an event: the one attached to the request context, or the session's.\<close>

definition event_actor :: "string option \<Rightarrow> 'c session \<Rightarrow> string" where
  "event_actor ctx sess =
     (case ctx of
        Some current \<Rightarrow> if trim_space current \<noteq> [] then trim_space current else ss_actor sess
      | None \<Rightarrow> ss_actor sess)"

definition opt_meta :: "string \<Rightarrow> string \<Rightarrow> (string \<times> string) list" where
  "opt_meta k v = (if v \<noteq> [] then [(k, v)] else [])"

definition record_event ::
  "'c govprims \<Rightarrow> string option \<Rightarrow> 'c session \<Rightarrow> string \<Rightarrow> string \<Rightarrow> string list \<Rightarrow> string \<Rightarrow> int \<Rightarrow> int \<Rightarrow> string \<Rightarrow> event" where
  "record_event G ctx sess tool act args verdict exitc durMS reason =
     (let ev = zero_event\<lparr>ev_session := ss_id sess, ev_sandbox := ss_id sess, ev_profile := pro_name (ss_profile sess),
            ev_tool := tool, ev_action := act, ev_args := args, ev_verdict := verdict, ev_exit_code := exitc,
            ev_duration_ms := durMS,
            ev_meta := [(''run_id'', ss_run_id sess)] @ opt_meta ''tenant'' (ss_owner sess) @
              opt_meta ''actor'' (event_actor ctx sess) @ opt_meta ''parent_run_id'' (ss_parent_run_id sess) @
              opt_meta ''agent'' (ss_agent sess) @ opt_meta ''provider'' (ss_provider sess) @
              opt_meta ''model'' (ss_model sess) @ opt_meta ''reason'' reason\<rparr>
      in if RedactEnabled (ss_profile sess)
         then Scrub (gp_prims G) (gp_scrub G) (eventScrubber (gp_scrub G) sess) ev (ss_secrets sess) else ev)"

definition log_event :: "event \<Rightarrow> 'c manager \<Rightarrow> 'c manager" where
  "log_event ev m = m\<lparr>mg_audit := mg_audit m @ [ev]\<rparr>"

definition record_audit ::
  "'c govprims \<Rightarrow> string option \<Rightarrow> 'c session \<Rightarrow> string \<Rightarrow> string \<Rightarrow> string list \<Rightarrow> string \<Rightarrow> int \<Rightarrow> int \<Rightarrow> string \<Rightarrow>
   'c manager \<Rightarrow> 'c manager" where
  "record_audit G ctx sess tool act args verdict exitc durMS reason m =
     log_event (record_event G ctx sess tool act args verdict exitc durMS reason) m"

section \<open>Governing one action\<close>

datatype wait_outcome = Decided bool | WaitEnded

text \<open>A request: the tool, its primary argument and argument vector, whether stdout is binary, and the
  request context's actor.\<close>

record request =
  rq_tool :: string
  rq_arg :: string
  rq_args :: "string list"
  rq_raw_stdout :: bool
  rq_actor :: "string option"

text \<open>How a governed call returns: the result or the error of the action, and whether the action ran.\<close>

record 'c gov_outcome =
  go_result :: "string + tool_result"
  go_ran :: bool
  go_session :: "'c session"
  go_manager :: "'c manager"

definition gov_deny ::
  "'c govprims \<Rightarrow> request \<Rightarrow> 'c session \<Rightarrow> string \<Rightarrow> string \<Rightarrow> 'c manager \<Rightarrow> 'c gov_outcome" where
  "gov_deny G rq sess reason apid m =
     \<lparr>go_result = Inr ((refusal VerdictDeny reason)\<lparr>tr_approval_id := apid\<rparr>), go_ran = False, go_session = sess,
      go_manager = record_audit G (rq_actor rq) sess (rq_tool rq) (rq_arg rq) (rq_args rq) VerdictDeny (-1) 0 reason m\<rparr>"

text \<open>The part after authorization: guardrails, budgets, execution.\<close>

definition gov_execute ::
  "'c::{zero,linorder} govprims \<Rightarrow> gotime \<Rightarrow> gotime \<Rightarrow> request \<Rightarrow> (string + exec_result) \<Rightarrow> 'c session \<Rightarrow> 'c manager \<Rightarrow>
   'c gov_outcome" where
  "gov_execute G now later rq run sess m =
     (case CheckExec now (ss_guard sess) of
        (Some err, g) \<Rightarrow> gov_deny G rq (sess\<lparr>ss_guard := g\<rparr>) (guard_error_text err) [] m
      | (None, g) \<Rightarrow>
          (let sess1 = sess\<lparr>ss_guard := g\<rparr>;
               lim = pro_limits (ss_profile sess);
               over = Over (gp_fmt_cost G) (mg_accounting m) (ss_id sess) (lim_max_tokens lim) (lim_max_cost_usd lim)
           in if \<not> ignoreClientUsageBudget (gp_ignore_usage G) \<and> fst over
              then gov_deny G rq sess1 (snd over) [] m
              else
                (case (if isEgressTool (rq_tool rq) then CheckEgress g else (None, g)) of
                   (Some err, g2) \<Rightarrow> gov_deny G rq (sess1\<lparr>ss_guard := g2\<rparr>) (guard_error_text err) [] m
                 | (None, g2) \<Rightarrow>
                     (let key = rq_tool rq @ ''|'' @ rq_arg rq in
                      case run of
                        Inl err \<Rightarrow>
                          (let sess3 = sess1\<lparr>ss_guard := RecordOutcome later key True g2\<rparr> in
                           \<lparr>go_result = Inl err, go_ran = True, go_session = sess3,
                            go_manager = record_audit G (rq_actor rq) sess3 (rq_tool rq) (rq_arg rq) (rq_args rq)
                              ''error'' (-1) 0 err m\<rparr>)
                      | Inr res \<Rightarrow>
                          (let sess3 = sess1\<lparr>ss_guard := RecordOutcome later key (xr_exit_code res \<noteq> 0) g2\<rparr>;
                               m3 = record_audit G (rq_actor rq) sess3 (rq_tool rq) (rq_arg rq) (rq_args rq) VerdictAllow
                                      (xr_exit_code res) (xr_duration_ms res) [] m;
                               scrub = (\<lambda>s. ScrubString (gp_scrub G) (eventScrubber (gp_scrub G) sess3) s (ss_secrets sess3));
                               redact = RedactEnabled (ss_profile sess3)
                           in \<lparr>go_result = Inr \<lparr>tr_verdict = VerdictAllow, tr_reason = [], tr_approval_id = [],
                                 tr_pending = False, tr_exit_code = xr_exit_code res,
                                 tr_stdout = (if redact \<and> \<not> rq_raw_stdout rq then scrub (xr_stdout res) else xr_stdout res),
                                 tr_stderr = (if redact then scrub (xr_stderr res) else xr_stderr res),
                                 tr_duration_ms = xr_duration_ms res\<rparr>,
                               go_ran = True, go_session = sess3, go_manager = m3\<rparr>)))))"

text \<open>The engine's decision on a request; registering the approval, recording it and waiting, which
  gives the state in which the call resumes.\<close>

definition rq_decision :: "'c session \<Rightarrow> request \<Rightarrow> decision" where
  "rq_decision sess rq =
     engine_Evaluate (ss_engine sess) \<lparr>act_tool = rq_tool rq, act_arg = rq_arg rq, act_args = rq_args rq\<rparr>"

definition wait_state ::
  "'c govprims \<Rightarrow> gotime \<Rightarrow> string \<Rightarrow> ('c session \<times> 'c manager \<Rightarrow> 'c session \<times> 'c manager) \<Rightarrow> request \<Rightarrow>
   'c session \<Rightarrow> 'c manager \<Rightarrow> 'c session \<times> 'c manager" where
  "wait_state G now0 apid meanwhile rq sess m =
     (let reason = orReason (dec_reason (rq_decision sess rq)) ''approval required'' in
      meanwhile (sess, record_audit G (rq_actor rq) sess ''approval'' (rq_arg rq) (rq_args rq) VerdictRequireApprove (-1) 0
        reason (m\<lparr>mg_approvals := snd (Create now0 apid (ss_id sess) (rq_tool rq) (rq_arg rq) reason (mg_approvals m))\<rparr>)))"

definition governOut ::
  "'c::{zero,linorder} govprims \<Rightarrow> gotime \<Rightarrow> gotime \<Rightarrow> gotime \<Rightarrow> string \<Rightarrow> wait_outcome \<Rightarrow>
   ('c session \<times> 'c manager \<Rightarrow> 'c session \<times> 'c manager) \<Rightarrow> request \<Rightarrow> (string + exec_result) \<Rightarrow>
   'c session \<Rightarrow> 'c manager \<Rightarrow> 'c gov_outcome" where
  "governOut G now0 now later apid outcome meanwhile rq run sess m =
     (let dec = rq_decision sess rq in
      if dec_verdict dec = VerdictDeny then
        gov_deny G rq sess (orReason (dec_reason dec) ''denied by policy'') [] m
      else if dec_verdict dec = VerdictRequireApprove then
        (let (sess2, m2) = wait_state G now0 apid meanwhile rq sess m;
             m3 = m2\<lparr>mg_approvals := snd (receive apid (mg_approvals m2))\<rparr>
         in case outcome of
              Decided ok \<Rightarrow>
                if \<not> ok then gov_deny G rq sess2 ''denied by approver'' apid m3
                else gov_execute G now later rq run sess2 m3
            | WaitEnded \<Rightarrow>
                \<lparr>go_result = Inr ((refusal VerdictRequireApprove (orReason (dec_reason dec) ''approval required''))
                   \<lparr>tr_approval_id := apid, tr_pending := True\<rparr>),
                 go_ran = False, go_session = sess2, go_manager = m2\<lparr>mg_approvals := forget apid (mg_approvals m2)\<rparr>\<rparr>)
      else gov_execute G now later rq run sess m)"

section \<open>What each path does\<close>

lemma record_event_fields [simp]:
  "ev_tool (record_event G ctx sess tool act args v ec d reason) = tool"
  "ev_verdict (record_event G ctx sess tool act args v ec d reason) = v"
  "ev_session (record_event G ctx sess tool act args v ec d reason) = ss_id sess"
  "ev_exit_code (record_event G ctx sess tool act args v ec d reason) = ec"
  by (simp_all add: record_event_def Let_def)

lemma record_audit_fields [simp]:
  "mg_audit (record_audit G ctx sess tool act args v ec d reason m) =
     mg_audit m @ [record_event G ctx sess tool act args v ec d reason]"
  "mg_sessions (record_audit G ctx sess tool act args v ec d reason m) = mg_sessions m"
  "mg_approvals (record_audit G ctx sess tool act args v ec d reason m) = mg_approvals m"
  "mg_accounting (record_audit G ctx sess tool act args v ec d reason m) = mg_accounting m"
  by (simp_all add: record_audit_def log_event_def)

lemma gov_deny_fields [simp]:
  "go_ran (gov_deny G rq sess reason apid m) = False"
  "go_session (gov_deny G rq sess reason apid m) = sess"
  "go_result (gov_deny G rq sess reason apid m) = Inr ((refusal VerdictDeny reason)\<lparr>tr_approval_id := apid\<rparr>)"
  "mg_audit (go_manager (gov_deny G rq sess reason apid m)) =
     mg_audit m @ [record_event G (rq_actor rq) sess (rq_tool rq) (rq_arg rq) (rq_args rq) VerdictDeny (-1) 0 reason]"
  by (simp_all add: gov_deny_def)

lemma refusal_fields [simp]:
  "tr_verdict (refusal v r) = v" "tr_pending (refusal v r) = False" "tr_stdout (refusal v r) = []"
  "tr_stderr (refusal v r) = []" "tr_reason (refusal v r) = r"
  by (simp_all add: refusal_def)

text \<open>The checks an execution passes.\<close>

definition within_limits :: "'c::{zero,linorder} govprims \<Rightarrow> gotime \<Rightarrow> request \<Rightarrow> 'c session \<Rightarrow> 'c manager \<Rightarrow> bool" where
  "within_limits G now rq sess m \<longleftrightarrow>
     fst (CheckExec now (ss_guard sess)) = None \<and>
     (ignoreClientUsageBudget (gp_ignore_usage G) \<or>
      \<not> fst (Over (gp_fmt_cost G) (mg_accounting m) (ss_id sess) (lim_max_tokens (pro_limits (ss_profile sess)))
               (lim_max_cost_usd (pro_limits (ss_profile sess))))) \<and>
     (isEgressTool (rq_tool rq) \<longrightarrow> fst (CheckEgress (snd (CheckExec now (ss_guard sess)))) = None)"

lemma gov_execute_ran: "go_ran (gov_execute G now later rq run sess m) \<longleftrightarrow> within_limits G now rq sess m"
  by (auto simp: gov_execute_def within_limits_def Let_def split: prod.splits option.splits sum.splits if_splits)

text \<open>Whether or not it runs, an authorized call is recorded once, with its outcome.\<close>

lemma gov_execute_audit:
  "\<exists>ev. mg_audit (go_manager (gov_execute G now later rq run sess m)) = mg_audit m @ [ev] \<and>
     ev_tool ev = rq_tool rq \<and> ev_session ev = ss_id sess \<and>
     ev_verdict ev = (case go_result (gov_execute G now later rq run sess m) of
                        Inl _ \<Rightarrow> ''error'' | Inr r \<Rightarrow> tr_verdict r)"
  by (auto simp: gov_execute_def Let_def split: prod.splits option.splits sum.splits)

lemma gov_execute_not_pending:
  "go_result (gov_execute G now later rq run sess m) = Inr r \<Longrightarrow> \<not> tr_pending r"
  by (auto simp: gov_execute_def Let_def split: prod.splits option.splits sum.splits if_splits)

lemma gov_execute_session:
  "ss_id (go_session (gov_execute G now later rq run sess m)) = ss_id sess \<and>
   ss_profile (go_session (gov_execute G now later rq run sess m)) = ss_profile sess \<and>
   ss_secrets (go_session (gov_execute G now later rq run sess m)) = ss_secrets sess \<and>
   ss_scrubber (go_session (gov_execute G now later rq run sess m)) = ss_scrubber sess \<and>
   ss_engine (go_session (gov_execute G now later rq run sess m)) = ss_engine sess"
  by (auto simp: gov_execute_def Let_def split: prod.splits option.splits sum.splits)

section \<open>Counting executions\<close>

text \<open>A governed call with everything the environment decides about it.\<close>

record 'c gov_call =
  gc_now0 :: gotime
  gc_now :: gotime
  gc_later :: gotime
  gc_apid :: string
  gc_outcome :: wait_outcome
  gc_meanwhile :: "'c session \<times> 'c manager \<Rightarrow> 'c session \<times> 'c manager"
  gc_request :: request
  gc_run :: "string + exec_result"

definition gov_call_out :: "'c::{zero,linorder} govprims \<Rightarrow> 'c gov_call \<Rightarrow> 'c session \<Rightarrow> 'c manager \<Rightarrow> 'c gov_outcome" where
  "gov_call_out G c sess m =
     governOut G (gc_now0 c) (gc_now c) (gc_later c) (gc_apid c) (gc_outcome c) (gc_meanwhile c) (gc_request c) (gc_run c) sess m"

fun gov_runs :: "'c::{zero,linorder} govprims \<Rightarrow> 'c gov_call list \<Rightarrow> 'c session \<Rightarrow> 'c manager \<Rightarrow> int" where
  "gov_runs G [] sess m = 0"
| "gov_runs G (c # cs) sess m =
     (let out = gov_call_out G c sess m in
      of_bool (go_ran out) + gov_runs G cs (go_session out) (go_manager out))"

text \<open>What other calls on the same session may do to its guard while a call waits for an approval: the
  limits stay, the execution count grows within the budget.\<close>

definition guard_grows :: "guard \<Rightarrow> guard \<Rightarrow> bool" where
  "guard_grows g g' \<longleftrightarrow> maxExecs g' = maxExecs g \<and> execs g \<le> execs g' \<and> (execs g \<le> maxExecs g \<longrightarrow> execs g' \<le> maxExecs g)"

definition fair_meanwhile :: "('c session \<times> 'c manager \<Rightarrow> 'c session \<times> 'c manager) \<Rightarrow> bool" where
  "fair_meanwhile f \<longleftrightarrow> (\<forall>s m. guard_grows (ss_guard s) (ss_guard (fst (f (s, m)))))"

lemma guard_grows_refl: "guard_grows g g"
  by (simp add: guard_grows_def)

lemma guard_grows_trans: "guard_grows a b \<Longrightarrow> guard_grows b c \<Longrightarrow> guard_grows a c"
  by (auto simp: guard_grows_def)

lemma RecordOutcome_execs [simp]:
  "execs (RecordOutcome now key failed g) = execs g" "maxExecs (RecordOutcome now key failed g) = maxExecs g"
  by (simp_all add: RecordOutcome_def Let_def)

lemma CheckEgress_execs [simp]:
  "execs (snd (CheckEgress g)) = execs g" "maxExecs (snd (CheckEgress g)) = maxExecs g"
  by (simp_all add: CheckEgress_def)

lemma CheckExec_execs:
  "maxExecs (snd (CheckExec now g)) = maxExecs g"
  "execs (snd (CheckExec now g)) = execs g + (if fst (CheckExec now g) = None then 1 else 0)"
  "fst (CheckExec now g) = None \<Longrightarrow> maxExecs g > 0 \<Longrightarrow> execs g < maxExecs g"
  by (auto simp: CheckExec_def split: if_splits)

lemma gov_execute_guard:
  "maxExecs (ss_guard (go_session (gov_execute G now later rq run sess m))) = maxExecs (ss_guard sess) \<and>
   execs (ss_guard (go_session (gov_execute G now later rq run sess m))) = execs (snd (CheckExec now (ss_guard sess)))"
proof -
  obtain e g where ce: "CheckExec now (ss_guard sess) = (e, g)" by fastforce
  obtain e2 g2 where eg: "(if isEgressTool (rq_tool rq) then CheckEgress g else (None, g)) = (e2, g2)" by fastforce
  have "maxExecs g = maxExecs (ss_guard sess)" using CheckExec_execs(1) [of now "ss_guard sess"] ce by simp
  moreover have "execs g2 = execs g" "maxExecs g2 = maxExecs g"
  proof -
    have "g2 = g \<or> g2 = snd (CheckEgress g)" using eg by (metis snd_conv)
    then show "execs g2 = execs g" "maxExecs g2 = maxExecs g" by auto
  qed
  ultimately show ?thesis using ce eg
    by (cases e; cases e2; cases run) (simp_all add: gov_execute_def Let_def)
qed

lemma gov_execute_grows:
  assumes "maxExecs (ss_guard sess) > 0" "execs (ss_guard sess) \<le> maxExecs (ss_guard sess)"
    and out: "out = gov_execute G now later rq run sess m"
  shows "guard_grows (ss_guard sess) (ss_guard (go_session out)) \<and>
    execs (ss_guard sess) + of_bool (go_ran out) \<le> execs (ss_guard (go_session out))"
  using assms(1,2) gov_execute_guard [of G now later rq run sess m] CheckExec_execs [of now "ss_guard sess"]
  unfolding out gov_execute_ran guard_grows_def within_limits_def by (auto split: if_splits)

lemma gov_call_grows:
  assumes "maxExecs (ss_guard sess) > 0" "execs (ss_guard sess) \<le> maxExecs (ss_guard sess)" "fair_meanwhile (gc_meanwhile c)"
    and out: "out = gov_call_out G c sess m"
  shows "guard_grows (ss_guard sess) (ss_guard (go_session out)) \<and>
    execs (ss_guard sess) + of_bool (go_ran out) \<le> execs (ss_guard (go_session out))"
proof -
  obtain sess2 m2 where w: "wait_state G (gc_now0 c) (gc_apid c) (gc_meanwhile c) (gc_request c) sess m = (sess2, m2)"
    by fastforce
  have grow: "guard_grows (ss_guard sess) (ss_guard sess2)"
    using assms(3) w unfolding fair_meanwhile_def wait_state_def Let_def by (metis fst_conv)
  then have two: "maxExecs (ss_guard sess2) > 0" "execs (ss_guard sess2) \<le> maxExecs (ss_guard sess2)"
      "execs (ss_guard sess) \<le> execs (ss_guard sess2)"
    using assms(1,2) by (auto simp: guard_grows_def)
  let ?m3 = "m2\<lparr>mg_approvals := snd (receive (gc_apid c) (mg_approvals m2))\<rparr>"
  note e1 = gov_execute_grows [OF assms(1,2) refl, of G "gc_now c" "gc_later c" "gc_request c" "gc_run c" m]
  note e2 = gov_execute_grows [OF two(1,2) refl, of G "gc_now c" "gc_later c" "gc_request c" "gc_run c" ?m3]
  have approved: "guard_grows (ss_guard sess) (ss_guard (go_session
        (gov_execute G (gc_now c) (gc_later c) (gc_request c) (gc_run c) sess2 ?m3)))"
    using grow e2 guard_grows_trans by blast
  show ?thesis
    unfolding out gov_call_out_def governOut_def Let_def w
    using grow approved e1 e2 two(3) guard_grows_refl by (auto split: wait_outcome.split)
qed

lemma gov_runs_bound:
  "maxExecs (ss_guard sess) > 0 \<Longrightarrow> execs (ss_guard sess) \<le> maxExecs (ss_guard sess) \<Longrightarrow>
   list_all (fair_meanwhile \<circ> gc_meanwhile) cs \<Longrightarrow>
   gov_runs G cs sess m \<le> maxExecs (ss_guard sess) - execs (ss_guard sess)"
proof (induction cs arbitrary: sess m)
  case (Cons c cs)
  let ?out = "gov_call_out G c sess m"
  have g: "guard_grows (ss_guard sess) (ss_guard (go_session ?out))"
      "execs (ss_guard sess) + of_bool (go_ran ?out) \<le> execs (ss_guard (go_session ?out))"
    using gov_call_grows [OF Cons.prems(1,2) _ refl, of c G m] Cons.prems(3) by auto
  then have "gov_runs G cs (go_session ?out) (go_manager ?out) \<le>
      maxExecs (ss_guard (go_session ?out)) - execs (ss_guard (go_session ?out))"
    using Cons.prems by (intro Cons.IH) (auto simp: guard_grows_def)
  then show ?case using g by (simp add: Let_def guard_grows_def)
qed auto

section \<open>Properties\<close>


definition limits0 :: "int limits" where
  "limits0 = \<lparr>lim_wall_clock = [], lim_max_execs = 2, lim_egress_requests = 0, lim_loop_window = [],
     lim_loop_threshold = 0, lim_max_tokens = 0, lim_max_cost_usd = 0\<rparr>"

definition profile0 :: "int profile" where
  "profile0 = \<lparr>pro_name = ''p'', pro_image = ''alpine'', pro_workdir = ''/w'', pro_capabilities = [], pro_env = [],
     pro_policy = [], pro_policy_default = [], pro_policy_engine = [], pro_cel = [],
     pro_rego = \<lparr>rp_module = [], rp_file = [], rp_query = []\<rparr>, pro_policy_bundle = None,
     pro_limits = limits0, pro_redact = None, pro_scrub_patterns = []\<rparr>"

definition session0 :: "int session" where
  "session0 = \<lparr>ss_id = ''sb'', ss_profile = profile0, ss_engine = BuiltinEngine (New [] VerdictAllow),
     ss_guard = fresh_guard 0 2 0 0 0, ss_env = Map.empty, ss_workdir = ''/w'', ss_owner = [], ss_actor = [],
     ss_run_id = ''r'', ss_parent_run_id = [], ss_agent = [], ss_provider = [], ss_model = [],
     ss_secrets = [''hunter2''], ss_scrubber = None, ss_ide_endpoint = []\<rparr>"

definition manager0 :: "int manager" where
  "manager0 = \<lparr>mg_sessions = [''sb'' \<mapsto> session0], mg_approvals = NewApprovalStore, mg_accounting = new_tracker,
     mg_audit = []\<rparr>"

definition prims0 :: "int govprims" where
  "prims0 = \<lparr>gp_prims = id_prims, gp_scrub = no_patterns, gp_fmt_cost = show_int, gp_show_cost = show_int,
     gp_ignore_usage = []\<rparr>"

definition request0 :: request where
  "request0 = \<lparr>rq_tool = ''shell'', rq_arg = ''ls'', rq_args = [''ls''], rq_raw_stdout = False, rq_actor = None\<rparr>"

definition run0 :: "string + exec_result" where
  "run0 = Inr \<lparr>xr_exit_code = 0, xr_stdout = ''pw=hunter2!'', xr_stderr = [], xr_duration_ms = 3\<rparr>"

lemma session0_engine:
  "wf_impl (ss_engine session0)" "dec_verdict (rq_decision session0 request0) = VerdictAllow"
  by (simp_all add: session0_def wf_builtin_def New_def rq_decision_def Evaluate_def known_verdict_def VerdictAllow_def)

lemma session0_runs:
  "go_ran (governOut prims0 1 2 3 ''a'' WaitEnded (\<lambda>x. x) request0 run0 session0 manager0)"
proof -
  have "within_limits prims0 2 request0 session0 manager0"
    by (simp add: within_limits_def session0_def profile0_def limits0_def fresh_guard_def CheckExec_def
        Over_def Let_def request0_def isEgressTool_def)
  then show ?thesis
    using session0_engine
    by (simp add: governOut_def Let_def gov_execute_ran VerdictAllow_def VerdictDeny_def VerdictRequireApprove_def)
qed


text \<open>
  A verdict outside the three known ones fails open: \<^verbatim>\<open>governOut\<close> only tests for deny and
  require-approval, so an engine that returns any other string (a CEL rule of a policy bundle is not
  validated) lets the action run whenever the guardrails grant it.
\<close>

theorem unknown_verdict_fails_open:
  assumes "\<not> known_verdict (dec_verdict (rq_decision sess rq))"
  shows "go_ran (governOut G now0 now later apid outcome meanwhile rq run sess m) \<longleftrightarrow> within_limits G now rq sess m"
  using assms by (simp add: governOut_def Let_def gov_execute_ran known_verdict_def)

definition cel_Deny :: evaluator_impl where
  "cel_Deny = CELEngine \<lparr>cel_rules = [\<lparr>cr_prg = (\<lambda>_ _. Inr True), cr_verdict = ''Deny'', cr_reason = [], cr_expr = ''true''\<rparr>],
     cel_def = VerdictDeny\<rparr>"

theorem unknown_verdict_fails_open_witness:
  "go_ran (governOut prims0 1 2 3 ''a'' WaitEnded (\<lambda>x. x) request0 run0 (session0\<lparr>ss_engine := cel_Deny\<rparr>) manager0)"
proof -
  have "\<not> known_verdict (dec_verdict (rq_decision (session0\<lparr>ss_engine := cel_Deny\<rparr>) request0))"
    by (simp add: rq_decision_def cel_Deny_def CEL_Evaluate_def known_verdict_def VerdictAllow_def VerdictDeny_def
        VerdictRequireApprove_def)
  moreover have "within_limits prims0 2 request0 (session0\<lparr>ss_engine := cel_Deny\<rparr>) manager0"
    by (simp add: within_limits_def session0_def profile0_def limits0_def fresh_guard_def CheckExec_def
        Over_def Let_def request0_def isEgressTool_def)
  ultimately show ?thesis using unknown_verdict_fails_open by blast
qed

text \<open>
  C2. Every governed call leaves its outcome in the audit trail: unless the call is still waiting for
  an approval, the last event handed to the ledger names the session and tool of the call and carries
  the verdict the caller got (or \<^verbatim>\<open>error\<close> when the action failed); a call that needs no approval adds
  exactly that event.
\<close>

theorem every_call_is_audited:
  assumes "out = governOut G now0 now later apid outcome meanwhile rq run sess m"
    and "\<forall>r. go_result out = Inr r \<longrightarrow> \<not> tr_pending r"
  shows "\<exists>pre ev. mg_audit (go_manager out) = pre @ [ev] \<and> ev_tool ev = rq_tool rq \<and>
    ev_session ev = ss_id (go_session out) \<and>
    ev_verdict ev = (case go_result out of Inl _ \<Rightarrow> ''error'' | Inr r \<Rightarrow> tr_verdict r) \<and>
    (dec_verdict (rq_decision sess rq) \<noteq> VerdictRequireApprove \<longrightarrow> pre = mg_audit m)"
proof -
  obtain sess2 m2 where w: "wait_state G now0 apid meanwhile rq sess m = (sess2, m2)" by fastforce
  note ex = gov_execute_audit [of G now later rq run] gov_execute_session [of G now later rq run]
  consider "dec_verdict (rq_decision sess rq) = VerdictDeny" "VerdictDeny \<noteq> VerdictRequireApprove"
    | "dec_verdict (rq_decision sess rq) = VerdictRequireApprove" "VerdictDeny \<noteq> VerdictRequireApprove"
    | "dec_verdict (rq_decision sess rq) \<noteq> VerdictDeny" "dec_verdict (rq_decision sess rq) \<noteq> VerdictRequireApprove"
    by (auto simp: VerdictDeny_def VerdictRequireApprove_def)
  then show ?thesis
  proof cases
    case 1
    then show ?thesis using assms(1) by (auto simp: governOut_def Let_def)
  next
    case 2
    show ?thesis
    proof (cases outcome)
      case (Decided ok)
      then show ?thesis
        using 2 assms(1) w ex(1) [of sess2 "m2\<lparr>mg_approvals := snd (receive apid (mg_approvals m2))\<rparr>"]
          ex(2) [of sess2 "m2\<lparr>mg_approvals := snd (receive apid (mg_approvals m2))\<rparr>"]
        by (cases ok) (auto simp: governOut_def Let_def)
    next
      case WaitEnded
      then show ?thesis using 2 assms w by (auto simp: governOut_def Let_def)
    qed
  next
    case 3
    then show ?thesis using assms(1) ex(1) [of sess m] ex(2) [of sess m] by (auto simp: governOut_def Let_def)
  qed
qed

theorem every_call_is_audited_witness:
  "\<exists>pre ev. mg_audit (go_manager (governOut prims0 1 2 3 ''a'' (Decided False) (\<lambda>x. x) request0 run0
      (session0\<lparr>ss_engine := BuiltinEngine (New [] VerdictDeny)\<rparr>) manager0)) = pre @ [ev] \<and>
     ev_tool ev = ''shell'' \<and> pre = []"
proof -
  let ?sess = "session0\<lparr>ss_engine := BuiltinEngine (New [] VerdictDeny)\<rparr>"
  have d: "dec_verdict (rq_decision ?sess request0) = VerdictDeny"
    by (simp add: rq_decision_def New_def Evaluate_def VerdictDeny_def)
  then have "\<forall>r. go_result (governOut prims0 1 2 3 ''a'' (Decided False) (\<lambda>x. x) request0 run0 ?sess manager0) = Inr r \<longrightarrow> \<not> tr_pending r"
    by (auto simp: governOut_def)
  then show ?thesis
    using every_call_is_audited [OF refl, of prims0 1 2 3 "''a''" "Decided False" "\<lambda>x. x" request0 run0 ?sess manager0] d
    by (auto simp: manager0_def request0_def VerdictDeny_def VerdictRequireApprove_def)
qed



text \<open>
  C37. The execution budget bounds what runs: over any sequence of governed calls on a session, with
  other calls on the same guard interleaved while calls wait for approvals, the number of actions
  invoked by the sequence is at most the profile's \<^verbatim>\<open>max_execs\<close> less the executions already counted.
\<close>

theorem governed_runs_within_budget:
  assumes "maxExecs (ss_guard sess) > 0" "execs (ss_guard sess) \<le> maxExecs (ss_guard sess)"
    and "list_all (fair_meanwhile \<circ> gc_meanwhile) calls"
  shows "gov_runs G calls sess m \<le> maxExecs (ss_guard sess) - execs (ss_guard sess)"
  using assms by (rule gov_runs_bound)

definition call0 :: "int gov_call" where
  "call0 = \<lparr>gc_now0 = 1, gc_now = 2, gc_later = 3, gc_apid = ''a'', gc_outcome = WaitEnded, gc_meanwhile = (\<lambda>x. x),
     gc_request = request0, gc_run = run0\<rparr>"

theorem governed_runs_within_budget_witness:
  "gov_runs prims0 [call0, call0, call0] session0 manager0 \<le> 2"
  using governed_runs_within_budget [of session0 "[call0, call0, call0]" prims0 manager0]
  by (simp add: session0_def fresh_guard_def call0_def fair_meanwhile_def guard_grows_refl)

end
