(* ===== verification/State_File.thy ===== *)
theory State_File
  imports Rune_Prelude
begin

text \<open>
  Durable state files of the control plane (\<^verbatim>\<open>internal/controlplane/statefile.go\<close>). A state directory
  is a map from file names to contents. \<^verbatim>\<open>writeStateFile\<close> makes a fixed sequence of system calls; the
  argument \<open>io_fault\<close> says which of them, if any, returns an error, and \<open>io_tmp\<close> is the unique name
  that \<^verbatim>\<open>os.CreateTemp\<close> picked. The result carries the directory after each system call that touches
  it, which is what a crash at that point leaves behind.
\<close>

type_synonym files = "string \<rightharpoonup> string"

datatype io_stage =
    StMkdir | StCreateTemp | StChmod | StWrite nat | StSync | StClose | StRename

record state_io =
  io_tmp :: string
  io_fault :: "io_stage option"

text \<open>The successful part of the sequence up to a fault. \<open>StWrite n\<close> leaves the first \<open>n\<close> bytes.\<close>

definition tmp_states :: "state_io \<Rightarrow> string \<Rightarrow> files \<Rightarrow> files list" where
  "tmp_states io data fs =
     (let empty = fs(io_tmp io \<mapsto> []); full = fs(io_tmp io \<mapsto> data) in
      case io_fault io of
        Some StMkdir \<Rightarrow> []
      | Some StCreateTemp \<Rightarrow> []
      | Some StChmod \<Rightarrow> [empty]
      | Some (StWrite n) \<Rightarrow> [empty, fs(io_tmp io \<mapsto> take n data)]
      | _ \<Rightarrow> [empty, full])"

text \<open>The deferred function closes the temporary file and removes it unless it was renamed.\<close>

definition writeStateFile ::
  "state_io \<Rightarrow> string \<Rightarrow> string \<Rightarrow> string \<Rightarrow> files \<Rightarrow> io_stage option \<times> files list \<times> files" where
  "writeStateFile io stateDir name data fs =
     (if stateDir = [] then (None, [], fs)
      else
        (let tmps = tmp_states io data fs in
         case io_fault io of
           None \<Rightarrow>
             (let fs' = (fs(io_tmp io \<mapsto> data))(io_tmp io := None, name \<mapsto> data) in (None, tmps @ [fs'], fs'))
         | Some st \<Rightarrow>
             (let fs' = (if st \<in> {StMkdir, StCreateTemp} then fs else (last tmps)(io_tmp io := None)) in
              (Some st, tmps @ [fs'], fs'))))"

text \<open>A name that \<^verbatim>\<open>os.CreateTemp\<close> may return: it starts with a dot and is not in use.\<close>

definition tmp_ok :: "state_io \<Rightarrow> string \<Rightarrow> files \<Rightarrow> bool" where
  "tmp_ok io name fs \<longleftrightarrow> fs (io_tmp io) = None \<and> io_tmp io \<noteq> name"

lemma tmp_states_target:
  "tmp_ok io name fs \<Longrightarrow> fs' \<in> set (tmp_states io data fs) \<Longrightarrow> fs' name = fs name"
  by (auto simp: tmp_states_def tmp_ok_def Let_def split: option.splits io_stage.splits)

lemma tmp_states_other:
  "fs' \<in> set (tmp_states io data fs) \<Longrightarrow> f \<noteq> io_tmp io \<Longrightarrow> fs' f = fs f"
  by (auto simp: tmp_states_def Let_def split: option.splits io_stage.splits)

lemma tmp_states_nonempty:
  "io_fault io \<noteq> Some StMkdir \<Longrightarrow> io_fault io \<noteq> Some StCreateTemp \<Longrightarrow> tmp_states io data fs \<noteq> []"
  by (auto simp: tmp_states_def Let_def split: option.splits io_stage.splits)

lemma writeStateFile_ok:
  "stateDir \<noteq> [] \<Longrightarrow> tmp_ok io name fs \<Longrightarrow> io_fault io = None \<Longrightarrow>
   fst (writeStateFile io stateDir name data fs) = None \<and>
   snd (snd (writeStateFile io stateDir name data fs)) = fs(name \<mapsto> data)"
  by (auto simp: writeStateFile_def Let_def tmp_ok_def fun_eq_iff)

lemma writeStateFile_fails:
  assumes "stateDir \<noteq> []" "tmp_ok io name fs" "io_fault io = Some st"
  shows "fst (writeStateFile io stateDir name data fs) = Some st \<and>
    snd (snd (writeStateFile io stateDir name data fs)) = fs"
proof (cases "st \<in> {StMkdir, StCreateTemp}")
  case True
  then show ?thesis using assms by (auto simp: writeStateFile_def Let_def)
next
  case False
  let ?last = "last (tmp_states io data fs)"
  have "?last \<in> set (tmp_states io data fs)"
    using False assms(3) by (intro last_in_set tmp_states_nonempty) auto
  then have "?last f = fs f" if "f \<noteq> io_tmp io" for f using that by (rule tmp_states_other)
  then have "?last(io_tmp io := None) = fs" using assms(2) by (auto simp: tmp_ok_def fun_eq_iff)
  then show ?thesis using False assms(1,3) by (auto simp: writeStateFile_def Let_def)
qed


definition io1 :: state_io where
  "io1 = \<lparr>io_tmp = ''.x.tmp-1'', io_fault = Some (StWrite 1)\<rparr>"


end
