(* ===== verification/Runs.thy ===== *)
theory Runs
  imports State_File "HOL-Library.AList"
begin

text \<open>
  Durable run records (\<^verbatim>\<open>internal/controlplane/runs.go\<close>): one record per agent execution, kept after its
  sandbox is gone and persisted to \<^verbatim>\<open>runs.json\<close>. The Go map is an association list whose order stands
  for the iteration order; \<open>runs_codec\<close> is the JSON form of the sorted list. \<^verbatim>\<open>sort.Slice\<close> by creation
  time is a sort by that key; for equal times Go leaves the order open, the model keeps it.
\<close>

record run =
  rn_id :: string
  rn_parent_run_id :: string
  rn_citadel_id :: string
  rn_tenant :: string
  rn_actor :: string
  rn_charter :: string
  rn_agent :: string
  rn_provider :: string
  rn_model :: string
  rn_status :: string
  rn_created_at :: gotime
  rn_finished_at :: "gotime option"
  rn_error :: string

record runs_codec =
  rj_encode :: "run list \<Rightarrow> string option"
  rj_decode :: "string \<Rightarrow> run list option"

record runs_state =
  rs_runs :: "(string \<times> run) list"
  rs_state_dir :: string
  rs_files :: files

datatype runs_error = RunsRead | RunsDecode | RunsPersist | RunConflict string

fun firstNonEmpty :: "string list \<Rightarrow> string" where
  "firstNonEmpty [] = []"
| "firstNonEmpty (v # vs) = (if v \<noteq> [] then v else firstNonEmpty vs)"

definition runsFileName :: string where
  "runsFileName = ''runs.json''"

definition ListRuns :: "runs_state \<Rightarrow> run list" where
  "ListRuns s = sort_key rn_created_at (map snd (rs_runs s))"

definition Run :: "string \<Rightarrow> runs_state \<Rightarrow> run option" where
  "Run rid s = map_of (rs_runs s) rid"

definition saveRuns :: "runs_codec \<Rightarrow> state_io \<Rightarrow> runs_state \<Rightarrow> bool \<times> runs_state" where
  "saveRuns J io s =
     (case rj_encode J (sort_key rn_created_at (map snd (rs_runs s))) of
        None \<Rightarrow> (False, s)
      | Some data \<Rightarrow>
          (let (err, _, fs) = writeStateFile io (rs_state_dir s) runsFileName data (rs_files s)
           in (err = None, s\<lparr>rs_files := fs\<rparr>)))"

definition interrupt :: "gotime \<Rightarrow> run \<Rightarrow> run \<times> bool" where
  "interrupt now r =
     (if rn_status r = ''running''
      then (r\<lparr>rn_status := ''interrupted'', rn_error := ''control plane restarted before the run completed'',
              rn_finished_at := Some now\<rparr>, True)
      else (r, False))"

fun load_runs_loop :: "gotime \<Rightarrow> run list \<Rightarrow> bool \<Rightarrow> (string \<times> run) list \<Rightarrow> bool \<times> (string \<times> run) list" where
  "load_runs_loop now [] interrupted rs = (interrupted, rs)"
| "load_runs_loop now (r # rest) interrupted rs =
     (let (r', i) = interrupt now r in
      load_runs_loop now rest (interrupted \<or> i) (AList.update (rn_id r') r' rs))"

definition loadRuns :: "runs_codec \<Rightarrow> bool \<Rightarrow> gotime \<Rightarrow> state_io \<Rightarrow> runs_state \<Rightarrow> runs_error option \<times> runs_state" where
  "loadRuns J readable now io s =
     (if rs_state_dir s = [] then (None, s)
      else (case rs_files s runsFileName of
              None \<Rightarrow> (None, s)
            | Some bytes \<Rightarrow>
                if \<not> readable then (Some RunsRead, s)
                else (case rj_decode J bytes of
                        None \<Rightarrow> (Some RunsDecode, s)
                      | Some runs \<Rightarrow>
                          (let (interrupted, rs) = load_runs_loop now runs False (rs_runs s);
                               s1 = s\<lparr>rs_runs := rs\<rparr> in
                           if interrupted then
                             (let (ok, s2) = saveRuns J io s1 in (if ok then None else Some RunsPersist, s2))
                           else (None, s1)))))"

text \<open>The new record's fields come from the session; \<open>r\<close> is that record with status running.\<close>

definition registerRun :: "runs_codec \<Rightarrow> state_io \<Rightarrow> run \<Rightarrow> runs_state \<Rightarrow> runs_error option \<times> runs_state" where
  "registerRun J io r s =
     (case map_of (rs_runs s) (rn_id r) of
        Some existing \<Rightarrow>
          if rn_citadel_id existing \<noteq> rn_citadel_id r then (Some (RunConflict (rn_id r)), s)
          else
            (let (ok, s1) = saveRuns J io (s\<lparr>rs_runs := AList.update (rn_id r) r (rs_runs s)\<rparr>) in
             if ok then (None, s1) else (Some RunsPersist, s1\<lparr>rs_runs := AList.delete (rn_id r) (rs_runs s1)\<rparr>))
      | None \<Rightarrow>
          (let (ok, s1) = saveRuns J io (s\<lparr>rs_runs := AList.update (rn_id r) r (rs_runs s)\<rparr>) in
           if ok then (None, s1) else (Some RunsPersist, s1\<lparr>rs_runs := AList.delete (rn_id r) (rs_runs s1)\<rparr>)))"

definition finishRun :: "runs_codec \<Rightarrow> state_io \<Rightarrow> gotime \<Rightarrow> string \<Rightarrow> string option \<Rightarrow> runs_state \<Rightarrow> runs_error option \<times> runs_state" where
  "finishRun J io now rid runErr s =
     (if rid = [] then (None, s)
      else (case map_of (rs_runs s) rid of
              None \<Rightarrow> (None, s)
            | Some r \<Rightarrow>
                (let r1 = r\<lparr>rn_finished_at := Some now, rn_status := ''completed''\<rparr>;
                     r2 = (case runErr of None \<Rightarrow> r1 | Some e \<Rightarrow> r1\<lparr>rn_status := ''failed'', rn_error := e\<rparr>);
                     (ok, s1) = saveRuns J io (s\<lparr>rs_runs := AList.update rid r2 (rs_runs s)\<rparr>)
                 in (if ok then None else Some RunsPersist, s1))))"

section \<open>Invariant and restart\<close>

definition runs_inv :: "runs_state \<Rightarrow> bool" where
  "runs_inv s \<longleftrightarrow> distinct (map fst (rs_runs s)) \<and> (\<forall>(rid, r) \<in> set (rs_runs s). rn_id r = rid)"

lemma saveRuns_runs [simp]: "rs_runs (snd (saveRuns J io s)) = rs_runs s"
  "rs_state_dir (snd (saveRuns J io s)) = rs_state_dir s"
  by (simp_all add: saveRuns_def Let_def split_beta split: option.split)

lemma update_runs_inv:
  assumes "runs_inv s" "rn_id r = rid"
  shows "runs_inv (s\<lparr>rs_runs := AList.update rid r (rs_runs s)\<rparr>)"
proof -
  have "\<forall>(i, x) \<in> set xs. rn_id x = i \<Longrightarrow> \<forall>(i, x) \<in> set (AList.update rid r xs). rn_id x = i" for xs
    using assms(2) by (induction xs) auto
  then show ?thesis using assms(1) by (auto simp: runs_inv_def distinct_update)
qed

lemma delete_runs_inv: "runs_inv s \<Longrightarrow> runs_inv (s\<lparr>rs_runs := AList.delete rid (rs_runs s)\<rparr>)"
proof -
  have "set (AList.delete rid xs) \<subseteq> set xs" for xs :: "(string \<times> run) list" by (induction xs) auto
  then show "runs_inv s \<Longrightarrow> ?thesis"
    unfolding runs_inv_def by (simp add: distinct_delete) blast
qed

lemma runs_inv_cong: "rs_runs s' = rs_runs s \<Longrightarrow> runs_inv s' = runs_inv s"
  by (simp add: runs_inv_def)

lemma saveRuns_inv: "runs_inv (snd (saveRuns J io s)) = runs_inv s"
  by (rule runs_inv_cong) simp

lemma registerRun_ok: "registerRun J io r s = (None, s') \<Longrightarrow> Run (rn_id r) s' = Some r"
proof -
  let ?s = "s\<lparr>rs_runs := AList.update (rn_id r) r (rs_runs s)\<rparr>"
  assume "registerRun J io r s = (None, s')"
  then have "s' = snd (saveRuns J io ?s)"
    by (auto simp: registerRun_def Let_def split_beta split: option.splits if_splits)
  then show ?thesis by (simp add: Run_def update_conv')
qed

datatype run_op = RoRegister state_io run | RoFinish state_io gotime string "string option"

fun run_step :: "runs_codec \<Rightarrow> runs_state \<Rightarrow> run_op \<Rightarrow> runs_state" where
  "run_step J s (RoRegister io r) = snd (registerRun J io r s)"
| "run_step J s (RoFinish io now rid e) = snd (finishRun J io now rid e s)"

lemma run_step_inv: "runs_inv s \<Longrightarrow> runs_inv (run_step J s e)"
proof (cases e)
  case (RoRegister io r)
  assume inv: "runs_inv s"
  let ?s = "snd (saveRuns J io (s\<lparr>rs_runs := AList.update (rn_id r) r (rs_runs s)\<rparr>))"
  have "runs_inv ?s" using inv by (simp add: saveRuns_inv update_runs_inv)
  moreover from this have "runs_inv (?s\<lparr>rs_runs := AList.delete (rn_id r) (rs_runs ?s)\<rparr>)" by (rule delete_runs_inv)
  ultimately show ?thesis using inv RoRegister
    by (simp add: registerRun_def Let_def split_beta split: option.split)
next
  case (RoFinish io now rid err)
  assume inv: "runs_inv s"
  have "rn_id r = rid" if "map_of (rs_runs s) rid = Some r" for r
    using inv map_of_SomeD [OF that] by (auto simp: runs_inv_def)
  then show ?thesis using inv RoFinish
    by (auto simp: finishRun_def Let_def split_beta saveRuns_inv intro!: update_runs_inv split: option.split)
qed

interpretation runs: invariant_machine "run_step J" runs_inv for J
  by unfold_locales (rule run_step_inv)

lemma interrupt_fields:
  "rn_status (fst (interrupt now r)) \<noteq> ''running''"
  "rn_id (fst (interrupt now r)) = rn_id r"
  "rn_parent_run_id (fst (interrupt now r)) = rn_parent_run_id r"
  "rn_citadel_id (fst (interrupt now r)) = rn_citadel_id r"
  "rn_status r \<noteq> ''running'' \<Longrightarrow> interrupt now r = (r, False)"
  "snd (interrupt now r) = (rn_status r = ''running'')"
  by (simp_all add: interrupt_def)

lemma load_runs_loop_spec:
  "distinct (map rn_id runs) \<Longrightarrow>
   map_of (snd (load_runs_loop now runs i rs)) rid =
     (case find (\<lambda>r. rn_id r = rid) runs of Some r \<Rightarrow> Some (fst (interrupt now r)) | None \<Rightarrow> map_of rs rid)"
proof (induction runs arbitrary: i rs)
  case (Cons r runs)
  have "find (\<lambda>x. rn_id x = rid) runs = None" if "rn_id r = rid"
    unfolding find_None_iff using Cons.prems that by (metis distinct.simps(2) imageI list.set_map list.simps(9))
  then show ?case using Cons
    by (auto simp: split_beta Let_def update_conv' interrupt_fields split: option.split)
qed simp

section \<open>Properties\<close>

text \<open>
  A restart tells the truth about runs: when the control plane loads its run records (distinct
  ids), no run is left in the running state; every record of the file is there under its id; a
  finished record is untouched, and an unfinished one keeps its lineage and is marked interrupted with
  its finishing time.
\<close>

theorem restart_interrupts_running_runs:
  assumes "rs_state_dir s \<noteq> []" "rs_runs s = []" "rs_files s runsFileName = Some bytes"
    and "rj_decode J bytes = Some recs" "distinct (map rn_id recs)"
    and "loadRuns J True now io s = (err, s')"
  shows "(\<forall>rid r. Run rid s' = Some r \<longrightarrow> rn_status r \<noteq> ''running'') \<and>
    (\<forall>r \<in> set recs. Run (rn_id r) s' = Some
       (if rn_status r = ''running''
        then r\<lparr>rn_status := ''interrupted'', rn_error := ''control plane restarted before the run completed'',
               rn_finished_at := Some now\<rparr>
        else r))"
proof -
  have "rs_runs s' = snd (load_runs_loop now recs False [])"
    using assms by (auto simp: loadRuns_def Let_def split_beta split: if_splits dest: arg_cong [where f = rs_runs])
  then have look: "Run rid s' = map_option (fst \<circ> interrupt now) (find (\<lambda>r. rn_id r = rid) recs)" for rid
    using assms(5) by (simp add: Run_def load_runs_loop_spec split: option.split)
  moreover have "find (\<lambda>x. rn_id x = rn_id r) recs = Some r" if "r \<in> set recs" for r
    using assms(5) that by (induction recs) (auto simp: image_iff)
  ultimately show ?thesis
    by (auto simp: interrupt_fields) (auto simp: interrupt_def)
qed

definition run1 :: run where
  "run1 = \<lparr>rn_id = ''r'', rn_parent_run_id = [], rn_citadel_id = ''sb'', rn_tenant = [], rn_actor = [], rn_charter = ''p'',
     rn_agent = [], rn_provider = [], rn_model = [], rn_status = ''running'', rn_created_at = 1, rn_finished_at = None, rn_error = []\<rparr>"

definition runs_json1 :: runs_codec where
  "runs_json1 = \<lparr>rj_encode = (\<lambda>_. Some ''y''), rj_decode = (\<lambda>_. Some [run1])\<rparr>"

theorem restart_interrupts_running_runs_witness:
  "Run ''r'' (snd (loadRuns runs_json1 True 5 io1
      \<lparr>rs_runs = [], rs_state_dir = ''/s'', rs_files = [runsFileName \<mapsto> ''x'']\<rparr>)) =
   Some (run1\<lparr>rn_status := ''interrupted'', rn_error := ''control plane restarted before the run completed'',
               rn_finished_at := Some 5\<rparr>)"
proof -
  let ?s = "\<lparr>rs_runs = [], rs_state_dir = ''/s'', rs_files = [runsFileName \<mapsto> ''x'']\<rparr>"
  have "rj_decode runs_json1 ''x'' = Some [run1]" "distinct (map rn_id [run1])" by (simp_all add: runs_json1_def)
  then have "\<forall>r \<in> set [run1]. Run (rn_id r) (snd (loadRuns runs_json1 True 5 io1 ?s)) = Some
       (if rn_status r = ''running''
        then r\<lparr>rn_status := ''interrupted'', rn_error := ''control plane restarted before the run completed'',
               rn_finished_at := Some 5\<rparr> else r)"
    using restart_interrupts_running_runs [of ?s "''x''" runs_json1 "[run1]" 5 io1, OF _ _ _ _ _ surjective_pairing]
    by simp
  then show ?thesis by (simp add: run1_def)
qed

end
