(* ===== verification/Manager_Ops.thy ===== *)
theory Manager_Ops
  imports Govern Runs
begin

text \<open>
  The life of a governed sandbox in the control plane (\<^verbatim>\<open>internal/controlplane/manager.go\<close>): creating it
  from a profile (\<^verbatim>\<open>CreateSandbox\<close>, with delegation from a parent sandbox), reporting usage, attaching a
  terminal, resolving approvals and killing it. The state is the manager of the governed path together
  with the run records.

  The container backend, the profile loader, the secret resolver and the compilers are arguments: the
  record \<open>create_env\<close> says how each call of one \<^verbatim>\<open>CreateSandbox\<close> turns out. Sandboxes handed to the
  backend's \<^verbatim>\<open>Kill\<close> are part of the result.
\<close>

section \<open>State\<close>

record 'c plane =
  pl_mgr :: "'c manager"
  pl_runs :: runs_state

datatype ide_start = IdeOff | IdeFails | IdeUp string

record create_options =
  co_owner :: string
  co_actor :: string
  co_parent :: string
  co_run_id :: string
  co_agent :: string
  co_provider :: string
  co_model :: string

text \<open>\<open>ce_probe c\<close> is the exit code of the probe for capability \<open>c\<close> (\<^verbatim>\<open>None\<close>: the exec failed), and
  \<open>ce_discover\<close> the output of the discovery script when it succeeded.\<close>

record 'c create_env =
  ce_profile :: "'c profile option"
  ce_new_id :: string
  ce_compile_regexp :: "string \<Rightarrow> (string \<Rightarrow> string) option"
  ce_resolve :: "string \<Rightarrow> string option"
  ce_read_file :: "string \<Rightarrow> string option"
  ce_backend :: bool
  ce_create :: "string option"
  ce_probe :: "string \<Rightarrow> int option"
  ce_discover :: "string option"
  ce_parse_duration :: "string \<Rightarrow> duration option"
  ce_engine :: engineprims
  ce_env_default :: string
  ce_ide :: ide_start
  ce_io :: state_io
  ce_codec :: runs_codec
  ce_now :: gotime

datatype create_error =
    CreateProfile | CreateParentNotFound | CreateParentCharter | CreateScrub | CreateEnv | CreateBackend
  | CreateProvision | CreateCapability string | CreateGuard | CreateEngine engine_error | CreateIDE
  | CreateRun runs_error

section \<open>Creating a sandbox\<close>

definition session_of :: "string \<Rightarrow> 'c manager \<Rightarrow> 'c session option" where
  "session_of sid m = mg_sessions m sid"

fun probe_capabilities :: "(string \<Rightarrow> int option) \<Rightarrow> string list \<Rightarrow> string option" where
  "probe_capabilities probe [] = None"
| "probe_capabilities probe (c # cs) =
     (case probe c of
        None \<Rightarrow> Some c
      | Some code \<Rightarrow> if code \<noteq> 0 then Some c else probe_capabilities probe cs)"

text \<open>\<open>Inl c\<close>: capability \<open>c\<close> could not be verified. Otherwise the profile with its effective capabilities.\<close>

definition verifyRuntimeCapabilities :: "(string \<Rightarrow> int option) \<Rightarrow> string option \<Rightarrow> 'c profile \<Rightarrow> string + 'c profile" where
  "verifyRuntimeCapabilities probe discover p =
     (let capabilities = profileCapabilities p in
      if capabilities = [] then
        Inr (case discover of None \<Rightarrow> p | Some out \<Rightarrow> p\<lparr>pro_capabilities := str_fields out\<rparr>)
      else (case probe_capabilities probe capabilities of
              Some c \<Rightarrow> Inl c
            | None \<Rightarrow> Inr (p\<lparr>pro_capabilities := capabilities\<rparr>)))"

definition parent_check :: "create_options \<Rightarrow> string \<Rightarrow> 'c manager \<Rightarrow> (create_error, string) result" where
  "parent_check opts profileName m =
     (if co_parent opts = [] then Inr []
      else (case session_of (co_parent opts) m of
              None \<Rightarrow> Inl CreateParentNotFound
            | Some parent \<Rightarrow>
                if ss_owner parent \<noteq> co_owner opts then Inl CreateParentNotFound
                else if pro_name (ss_profile parent) \<noteq> profileName then Inl CreateParentCharter
                else Inr (ss_run_id parent)))"

definition run_of_session :: "gotime \<Rightarrow> 'c session \<Rightarrow> run" where
  "run_of_session now sess =
     \<lparr>rn_id = ss_run_id sess, rn_parent_run_id = ss_parent_run_id sess, rn_citadel_id = ss_id sess,
      rn_tenant = ss_owner sess, rn_actor = ss_actor sess, rn_charter = pro_name (ss_profile sess),
      rn_agent = ss_agent sess, rn_provider = ss_provider sess, rn_model = ss_model sess,
      rn_status = ''running'', rn_created_at = now, rn_finished_at = None, rn_error = []\<rparr>"

text \<open>The last part, once the session is in the map of \<open>m1\<close>: an error removes it and kills the sandbox.\<close>

definition register_session ::
  "'c govprims \<Rightarrow> 'c create_env \<Rightarrow> string option \<Rightarrow> 'c session \<Rightarrow> 'c manager \<Rightarrow> runs_state \<Rightarrow>
   string list \<times> (create_error, string) result \<times> 'c plane" where
  "register_session G e ctx sess m1 rs =
     (case registerRun (ce_codec e) (ce_io e) (run_of_session (ce_now e) sess) rs of
        (Some err, rs1) \<Rightarrow>
          ([ss_id sess], Inl (CreateRun err),
           \<lparr>pl_mgr = m1\<lparr>mg_sessions := (mg_sessions m1)(ss_id sess := None)\<rparr>, pl_runs = rs1\<rparr>)
      | (None, rs1) \<Rightarrow>
          ([], Inr (ss_id sess),
           \<lparr>pl_mgr = record_audit G ctx sess ''sandbox'' ''create'' [] VerdictAllow 0 0 [] m1, pl_runs = rs1\<rparr>))"

definition new_session ::
  "scrubprims \<Rightarrow> 'c create_env \<Rightarrow> create_options \<Rightarrow> string \<Rightarrow> 'c profile \<Rightarrow> guard \<Rightarrow> evaluator_impl \<Rightarrow>
   (string \<Rightarrow> string) option list \<Rightarrow> (string \<rightharpoonup> string) \<times> string list \<Rightarrow> string \<Rightarrow> 'c session" where
  "new_session R e opts parentRunID p g eng patterns envsec sb =
     \<lparr>ss_id = sb, ss_profile = p, ss_engine = eng, ss_guard = g, ss_env = fst envsec,
      ss_workdir = pro_workdir p, ss_owner = co_owner opts,
      ss_actor = firstNonEmpty [trim_space (co_actor opts), co_owner opts],
      ss_run_id = (if trim_space (co_run_id opts) = [] then ce_new_id e else co_run_id opts),
      ss_parent_run_id = parentRunID, ss_agent = trim_space (co_agent opts),
      ss_provider = trim_space (co_provider opts), ss_model = trim_space (co_model opts),
      ss_secrets = snd envsec, ss_scrubber = Some (NewScrubber R patterns), ss_ide_endpoint = []\<rparr>"

definition put_session :: "'c session \<Rightarrow> 'c manager \<Rightarrow> 'c manager" where
  "put_session sess m = m\<lparr>mg_sessions := (mg_sessions m)(ss_id sess \<mapsto> sess)\<rparr>"

definition start_session ::
  "'c govprims \<Rightarrow> 'c create_env \<Rightarrow> string option \<Rightarrow> 'c session \<Rightarrow> 'c plane \<Rightarrow>
   string list \<times> (create_error, string) result \<times> 'c plane" where
  "start_session G e ctx sess pl =
     (let m = pl_mgr pl in
      case ce_ide e of
        IdeFails \<Rightarrow> ([ss_id sess], Inl CreateIDE, pl\<lparr>pl_mgr := m\<lparr>mg_sessions := (mg_sessions m)(ss_id sess := None)\<rparr>\<rparr>)
      | IdeOff \<Rightarrow> register_session G e ctx sess (put_session sess m) (pl_runs pl)
      | IdeUp ep \<Rightarrow>
          (let sess1 = sess\<lparr>ss_ide_endpoint := ep\<rparr> in
           register_session G e ctx sess1
             (record_audit G ctx sess1 ''ide'' ''open'' [ep] VerdictAllow 0 0 [] (put_session sess1 m)) (pl_runs pl)))"

text \<open>Everything after the backend created sandbox \<open>sb\<close>.\<close>

definition finish_create ::
  "'c govprims \<Rightarrow> 'c create_env \<Rightarrow> create_options \<Rightarrow> string option \<Rightarrow> string \<Rightarrow> 'c profile \<Rightarrow>
   (string \<Rightarrow> string) option list \<Rightarrow> (string \<rightharpoonup> string) \<times> string list \<Rightarrow> string \<Rightarrow> 'c plane \<Rightarrow>
   string list \<times> (create_error, string) result \<times> 'c plane" where
  "finish_create G e opts ctx parentRunID p0 patterns envsec sb pl =
     (case verifyRuntimeCapabilities (ce_probe e) (ce_discover e) p0 of
        Inl c \<Rightarrow> ([sb], Inl (CreateCapability c), pl)
      | Inr p \<Rightarrow>
          (case policyGuard (ce_parse_duration e) (ce_now e) p of
             None \<Rightarrow> ([sb], Inl CreateGuard, pl)
           | Some g \<Rightarrow>
               (case newEngine (ce_engine e) (ce_env_default e) p of
                  Inl err \<Rightarrow> ([sb], Inl (CreateEngine err), pl)
                | Inr eng \<Rightarrow>
                    start_session G e ctx (new_session (gp_scrub G) e opts parentRunID p g eng patterns envsec sb) pl)))"

definition CreateSandbox ::
  "'c govprims \<Rightarrow> 'c create_env \<Rightarrow> create_options \<Rightarrow> string option \<Rightarrow> string \<Rightarrow> 'c plane \<Rightarrow>
   string list \<times> (create_error, string) result \<times> 'c plane" where
  "CreateSandbox G e opts ctx profileName pl =
     (case ce_profile e of
        None \<Rightarrow> ([], Inl CreateProfile, pl)
      | Some p \<Rightarrow>
          (case parent_check opts profileName (pl_mgr pl) of
             Inl err \<Rightarrow> ([], Inl err, pl)
           | Inr parentRunID \<Rightarrow>
               (case compileAuditScrubPatterns (ce_compile_regexp e) (pro_scrub_patterns p) of
                  None \<Rightarrow> ([], Inl CreateScrub, pl)
                | Some patterns \<Rightarrow>
                    (case resolveEnv (ce_resolve e) (ce_read_file e) (pro_env p) (Map.empty, []) of
                       None \<Rightarrow> ([], Inl CreateEnv, pl)
                     | Some envsec \<Rightarrow>
                         if \<not> ce_backend e then ([], Inl CreateBackend, pl)
                         else (case ce_create e of
                                 None \<Rightarrow> ([], Inl CreateProvision, pl)
                               | Some sb \<Rightarrow> finish_create G e opts ctx parentRunID p patterns envsec sb pl)))))"

section \<open>Killing, usage, terminals, approvals\<close>

text \<open>\<open>killErr\<close> is the error of the backend's \<^verbatim>\<open>Kill\<close>. The result is the error returned to the caller.\<close>

datatype op_error = SandboxNotFound | BackendError string | RunsError runs_error | UsageNegative | UsageNotFinite
  | TerminalDenied string

definition KillSandbox ::
  "'c govprims \<Rightarrow> runs_codec \<Rightarrow> state_io \<Rightarrow> gotime \<Rightarrow> string option \<Rightarrow> string option \<Rightarrow> string \<Rightarrow> 'c plane \<Rightarrow>
   op_error option \<times> 'c plane" where
  "KillSandbox G J io now ctx killErr sid pl =
     (let m = pl_mgr pl in
      case mg_sessions m sid of
        None \<Rightarrow> (Some SandboxNotFound, pl)
      | Some sess \<Rightarrow>
          (let m1 = m\<lparr>mg_sessions := (mg_sessions m)(sid := None), mg_accounting := Forget sid (mg_accounting m)\<rparr>;
               m2 = (if ss_ide_endpoint sess = [] then m1
                     else record_audit G ctx sess ''ide'' ''close'' [ss_ide_endpoint sess] VerdictAllow 0 0 [] m1);
               m3 = record_audit G ctx sess ''sandbox'' ''kill'' [] VerdictAllow 0 0 [] m2;
               (runErr, rs) = finishRun J io now (ss_run_id sess) killErr (pl_runs pl)
           in (case killErr of
                 Some e \<Rightarrow> Some (BackendError e)
               | None \<Rightarrow> map_option RunsError runErr,
               \<lparr>pl_mgr = m3, pl_runs = rs\<rparr>)))"

text \<open>The floating-point tests on a reported cost: finite, the largest accepted delta, and that adding it
  to a total stays finite.\<close>

record 'c costprims =
  cs_finite :: "'c \<Rightarrow> bool"
  cs_max_delta :: 'c
  cs_fits :: "'c \<Rightarrow> 'c \<Rightarrow> bool"

definition maxClientUsageTokenDelta :: int where
  "maxClientUsageTokenDelta = 1000000000"

definition RecordUsageContext ::
  "'c::{zero,plus,linorder} govprims \<Rightarrow> 'c costprims \<Rightarrow> string option \<Rightarrow> string \<Rightarrow> 64 word \<Rightarrow> 'c \<Rightarrow> 'c manager \<Rightarrow>
   op_error option \<times> 'c manager" where
  "RecordUsageContext G K ctx sid tokens cost m =
     (case mg_sessions m sid of
        None \<Rightarrow> (Some SandboxNotFound, m)
      | Some sess \<Rightarrow>
          if sint tokens < 0 \<or> cost < 0 then (Some UsageNegative, m)
          else if \<not> cs_finite K cost then (Some UsageNotFinite, m)
          else if sint tokens > maxClientUsageTokenDelta \<or> cost > cs_max_delta K then (None, m)
          else
            (let u = Usage (mg_accounting m) sid in
             if sint tokens > sint (0x7FFFFFFFFFFFFFFF - Tokens u) \<or> \<not> cs_fits K cost (CostUSD u) then (None, m)
             else
               (let acc = Record (pro_name (ss_profile sess)) sid tokens cost (mg_accounting m);
                    u' = Usage acc sid;
                    ev = zero_event\<lparr>ev_session := sid, ev_sandbox := sid, ev_profile := pro_name (ss_profile sess),
                           ev_tool := ''usage'', ev_action := ''report'', ev_verdict := VerdictAllow,
                           ev_meta := [(''tokens'', show_int (sint tokens)), (''cost_usd'', gp_show_cost G cost),
                             (''tokens_tot'', show_int (sint (Tokens u'))), (''cost_usd_tot'', gp_show_cost G (CostUSD u')),
                             (''run_id'', ss_run_id sess)] @ opt_meta ''tenant'' (ss_owner sess) @
                             opt_meta ''actor'' (event_actor ctx sess)\<rparr>
                in (None, log_event ev (m\<lparr>mg_accounting := acc\<rparr>)))))"

definition SandboxUsage :: "string \<Rightarrow> 'c::zero manager \<Rightarrow> 'c usage" where
  "SandboxUsage sid m = Usage (mg_accounting m) sid"

text \<open>The result says whether the backend's PTY was attached.\<close>

definition AttachTerminal ::
  "'c govprims \<Rightarrow> string option \<Rightarrow> string \<Rightarrow> 'c manager \<Rightarrow> op_error option \<times> bool \<times> 'c manager" where
  "AttachTerminal G ctx sid m =
     (case mg_sessions m sid of
        None \<Rightarrow> (Some SandboxNotFound, False, m)
      | Some sess \<Rightarrow>
          (let dec = engine_Evaluate (ss_engine sess) \<lparr>act_tool = ''terminal'', act_arg = ''attach'', act_args = []\<rparr> in
           if dec_verdict dec \<noteq> VerdictAllow then
             (let reason = orReason (dec_reason dec) ''terminal attach denied by policy'' in
              (Some (TerminalDenied reason), False,
               record_audit G ctx sess ''terminal'' ''attach'' [] VerdictDeny (-1) 0 reason m))
           else (None, True, record_audit G ctx sess ''terminal'' ''attach'' [] VerdictAllow 0 0 [] m)))"

definition ResolveApproval :: "'c govprims \<Rightarrow> string \<Rightarrow> bool \<Rightarrow> string \<Rightarrow> 'c manager \<Rightarrow> bool \<times> 'c manager" where
  "ResolveApproval G apid approve actor m =
     (case ResolveView apid approve (mg_approvals m) of
        (None, _) \<Rightarrow> (False, m)
      | (Some ap, store) \<Rightarrow>
          (let approver = (if trim_space actor = [] then ''unknown'' else actor);
               ev = zero_event\<lparr>ev_session := ap_sandbox ap, ev_sandbox := ap_sandbox ap, ev_tool := ''approval'',
                      ev_action := ap_action ap, ev_args := [ap_tool ap],
                      ev_verdict := (if approve then VerdictAllow else VerdictDeny),
                      ev_meta := [(''decision'', if approve then ''approved'' else ''denied''), (''approver'', approver),
                        (''approval_id'', ap_id ap)] @ opt_meta ''reason'' (ap_reason ap)\<rparr>;
               ev' = (case mg_sessions m (ap_sandbox ap) of
                        Some sess \<Rightarrow>
                          (let ev1 = ev\<lparr>ev_profile := pro_name (ss_profile sess)\<rparr> in
                           if RedactEnabled (ss_profile sess)
                           then Scrub (gp_prims G) (gp_scrub G) (eventScrubber (gp_scrub G) sess) ev1 (ss_secrets sess)
                           else ev1)
                      | None \<Rightarrow> Scrub (gp_prims G) (gp_scrub G) (NewScrubber (gp_scrub G) []) ev [])
           in (True, log_event ev' (m\<lparr>mg_approvals := store\<rparr>))))"

definition SandboxOwner :: "string \<Rightarrow> 'c manager \<Rightarrow> string option" where
  "SandboxOwner sid m = map_option ss_owner (mg_sessions m sid)"

definition SandboxCapabilities :: "string \<Rightarrow> 'c manager \<Rightarrow> string list" where
  "SandboxCapabilities sid m =
     (case mg_sessions m sid of None \<Rightarrow> [] | Some sess \<Rightarrow> profileCapabilities (ss_profile sess))"

section \<open>What creation does\<close>

definition created_ok :: "create_options \<Rightarrow> string \<Rightarrow> 'c plane \<Rightarrow> 'c plane \<Rightarrow> bool" where
  "created_ok opts sb pl pl' \<longleftrightarrow>
     (\<exists>sess. mg_sessions (pl_mgr pl') = (mg_sessions (pl_mgr pl))(sb \<mapsto> sess) \<and> ss_id sess = sb \<and>
        ss_owner sess = co_owner opts \<and>
        (\<exists>r. Run (ss_run_id sess) (pl_runs pl') = Some r \<and> rn_citadel_id r = sb \<and> rn_status r = ''running'')) \<and>
     (\<exists>pre ev. mg_audit (pl_mgr pl') = pre @ [ev] \<and> ev_tool ev = ''sandbox'' \<and> ev_session ev = sb)"

lemma register_session_spec:
  assumes "register_session G e ctx sess (put_session sess m) rs = (killed, res, pl')"
    and "mg_sessions m (ss_id sess) = None"
  shows "(\<exists>err. res = Inl err \<and> killed = [ss_id sess] \<and> mg_sessions (pl_mgr pl') = mg_sessions m) \<or>
    (res = Inr (ss_id sess) \<and> killed = [] \<and> mg_sessions (pl_mgr pl') = (mg_sessions m)(ss_id sess \<mapsto> sess) \<and>
     Run (ss_run_id sess) (pl_runs pl') = Some (run_of_session (ce_now e) sess) \<and>
     (\<exists>pre ev. mg_audit (pl_mgr pl') = pre @ [ev] \<and> ev_tool ev = ''sandbox'' \<and> ev_session ev = ss_id sess))"
  using assms registerRun_ok [of "ce_codec e" "ce_io e" "run_of_session (ce_now e) sess" rs]
  by (auto simp: register_session_def put_session_def run_of_session_def split: prod.splits option.splits)

lemma register_session_audit:
  "register_session G e ctx sess (record_audit G ctx sess t a as v c d r (put_session sess m)) rs =
     register_session G e ctx sess (put_session sess (record_audit G ctx sess t a as v c d r m)) rs"
proof -
  have "record_audit G ctx sess t a as v c d r (put_session sess m) = put_session sess (record_audit G ctx sess t a as v c d r m)"
    by (intro manager.equality) (simp_all add: put_session_def record_audit_def log_event_def)
  then show ?thesis by simp
qed

lemma start_session_spec:
  assumes "start_session G e ctx sess pl = (killed, res, pl')" "mg_sessions (pl_mgr pl) (ss_id sess) = None"
    and "ss_owner sess = co_owner opts"
  shows "(\<exists>err. res = Inl err \<and> killed = [ss_id sess] \<and> mg_sessions (pl_mgr pl') = mg_sessions (pl_mgr pl)) \<or>
    (res = Inr (ss_id sess) \<and> killed = [] \<and> created_ok opts (ss_id sess) pl pl')"
proof (cases "ce_ide e")
  case IdeOff
  then show ?thesis
    using assms register_session_spec [of G e ctx sess "pl_mgr pl" "pl_runs pl" killed res pl']
    by (auto simp: start_session_def created_ok_def run_of_session_def)
next
  case IdeFails
  then show ?thesis using assms(1,2) by (auto simp: start_session_def fun_upd_idem)
next
  case (IdeUp ep)
  let ?sess = "sess\<lparr>ss_ide_endpoint := ep\<rparr>"
  let ?m = "record_audit G ctx ?sess ''ide'' ''open'' [ep] VerdictAllow 0 0 [] (pl_mgr pl)"
  have "register_session G e ctx ?sess (put_session ?sess ?m) (pl_runs pl) = (killed, res, pl')"
    using assms(1) IdeUp by (simp add: start_session_def Let_def register_session_audit)
  then show ?thesis
    using assms(2,3) register_session_spec [of G e ctx ?sess ?m "pl_runs pl" killed res pl']
    by (auto simp: created_ok_def run_of_session_def)
qed

lemma finish_create_spec:
  assumes "finish_create G e opts ctx prid p patterns envsec sb pl = (killed, res, pl')"
    and "mg_sessions (pl_mgr pl) sb = None"
  shows "(\<exists>err. res = Inl err \<and> killed = [sb] \<and> mg_sessions (pl_mgr pl') = mg_sessions (pl_mgr pl)) \<or>
    (res = Inr sb \<and> killed = [] \<and> created_ok opts sb pl pl')"
proof -
  have "start_session G e ctx (new_session (gp_scrub G) e opts prid p1 g eng patterns envsec sb) pl = (killed, res, pl') \<Longrightarrow>
      ?thesis" for p1 g eng
    using start_session_spec [of G e ctx "new_session (gp_scrub G) e opts prid p1 g eng patterns envsec sb" pl killed res pl' opts]
      assms(2) by (simp add: new_session_def)
  then show ?thesis using assms(1)
    by (auto simp: finish_create_def split: sum.splits option.splits)
qed

section \<open>Properties\<close>

text \<open>
  C38. Creating a sandbox is all or nothing: on success the session is registered for exactly the
  sandbox the backend created, with its run recorded as running and the creation as the last audit
  event, and nothing was killed; on an error no session is added, and if the backend had already
  created a sandbox it is killed again.
\<close>

theorem CreateSandbox_all_or_nothing:
  assumes "CreateSandbox G e opts ctx profileName pl = (killed, res, pl')"
    and "\<And>sb. ce_create e = Some sb \<Longrightarrow> mg_sessions (pl_mgr pl) sb = None"
  shows "case res of
      Inr sb \<Rightarrow> ce_create e = Some sb \<and> killed = [] \<and>
        (\<exists>sess. mg_sessions (pl_mgr pl') = (mg_sessions (pl_mgr pl))(sb \<mapsto> sess) \<and> ss_id sess = sb \<and>
           ss_owner sess = co_owner opts \<and>
           (\<exists>r. Run (ss_run_id sess) (pl_runs pl') = Some r \<and> rn_citadel_id r = sb \<and> rn_status r = ''running'')) \<and>
        (\<exists>pre ev. mg_audit (pl_mgr pl') = pre @ [ev] \<and> ev_tool ev = ''sandbox'' \<and> ev_session ev = sb)
    | Inl err \<Rightarrow> mg_sessions (pl_mgr pl') = mg_sessions (pl_mgr pl) \<and>
        (\<forall>sb. ce_create e = Some sb \<longrightarrow> killed = [sb] \<or>
           (killed = [] \<and> err \<in> {CreateProfile, CreateParentNotFound, CreateParentCharter, CreateScrub, CreateEnv, CreateBackend}))"
proof -
  consider (early) err where "res = Inl err" "killed = []" "pl' = pl"
      "err \<in> {CreateProfile, CreateParentNotFound, CreateParentCharter, CreateScrub, CreateEnv, CreateBackend}"
    | (unprovisioned) "res = Inl CreateProvision" "killed = []" "pl' = pl" "ce_create e = None"
    | (late) prid p patterns envsec sb where "ce_create e = Some sb"
      "finish_create G e opts ctx prid p patterns envsec sb pl = (killed, res, pl')"
    using assms(1) by (auto simp: CreateSandbox_def parent_check_def split: option.splits sum.splits if_splits)
  then show ?thesis
  proof cases
    case late
    then show ?thesis
      using finish_create_spec [OF late(2) assms(2) [OF late(1)]]
      by (elim disjE exE conjE) (simp_all add: created_ok_def late(1))
  qed auto
qed

definition engineprims0 :: engineprims where
  "engineprims0 = \<lparr>ep_read_file = (\<lambda>_. None), ep_compile = (\<lambda>_. None), ep_prepare = (\<lambda>_ _. None),
     ep_decode_key = (\<lambda>_. None), ep_pull = (\<lambda>_ _ _. None), ep_cel_fragment = (\<lambda>_. None)\<rparr>"

definition create0 :: "int create_env" where
  "create0 = \<lparr>ce_profile = Some profile0, ce_new_id = ''run1'', ce_compile_regexp = (\<lambda>_. None), ce_resolve = (\<lambda>_. None),
     ce_read_file = (\<lambda>_. None), ce_backend = True, ce_create = Some ''sb2'', ce_probe = (\<lambda>_. None), ce_discover = None,
     ce_parse_duration = (\<lambda>_. None), ce_engine = engineprims0, ce_env_default = [], ce_ide = IdeOff, ce_io = io1,
     ce_codec = runs_json1, ce_now = 7\<rparr>"

definition opts0 :: create_options where
  "opts0 = \<lparr>co_owner = [], co_actor = [], co_parent = ''sb'', co_run_id = [], co_agent = [], co_provider = [], co_model = []\<rparr>"

definition plane0 :: "int plane" where
  "plane0 = \<lparr>pl_mgr = manager0, pl_runs = \<lparr>rs_runs = [], rs_state_dir = [], rs_files = Map.empty\<rparr>\<rparr>"

lemma profileCapabilities_profile0: "profileCapabilities profile0 = []"
  by code_simp

lemma finish_create0:
  "\<exists>pl'. finish_create prims0 create0 opts0 ctx prid profile0 patterns envsec ''sb2'' plane0 = ([], Inr ''sb2'', pl') \<and>
     mg_sessions (pl_mgr pl') ''sb2'' \<noteq> None"
proof -
  have v: "verifyRuntimeCapabilities (ce_probe create0) (ce_discover create0) profile0 = Inr profile0"
    by (simp add: verifyRuntimeCapabilities_def profileCapabilities_profile0 create0_def)
  obtain g where g: "policyGuard (ce_parse_duration create0) (ce_now create0) profile0 = Some g"
    by (simp add: policyGuard_def NewGuard_def profile0_def limits0_def)
  obtain eng where eng: "newEngine (ce_engine create0) (ce_env_default create0) profile0 = Inr eng"
    by (simp add: newEngine_def UsesPolicyBundle_def UsesRego_def UsesCEL_def profile0_def Let_def)
  show ?thesis
    unfolding finish_create_def v g eng sum.case option.case
    by (simp add: start_session_def register_session_def new_session_def put_session_def
        registerRun_def saveRuns_def run_of_session_def plane0_def create0_def runs_json1_def writeStateFile_def Let_def)
qed

lemma create0_ok:
  "\<exists>pl'. CreateSandbox prims0 create0 opts0 None ''p'' plane0 = ([], Inr ''sb2'', pl') \<and> mg_sessions (pl_mgr pl') ''sb2'' \<noteq> None"
proof -
  have "ce_profile create0 = Some profile0" "ce_backend create0" "ce_create create0 = Some ''sb2''"
    by (simp_all add: create0_def)
  moreover have "parent_check opts0 ''p'' (pl_mgr plane0) = Inr ''r''"
    by (simp add: parent_check_def opts0_def plane0_def manager0_def session_of_def session0_def profile0_def)
  moreover have "pro_scrub_patterns profile0 = []" "pro_env profile0 = []" by (simp_all add: profile0_def)
  ultimately show ?thesis using finish_create0 by (simp add: CreateSandbox_def)
qed

theorem CreateSandbox_all_or_nothing_witness:
  "\<exists>killed res pl'. CreateSandbox prims0 create0 opts0 None ''p'' plane0 = (killed, res, pl') \<and> res = Inr ''sb2'' \<and>
     killed = [] \<and> (\<exists>pre ev. mg_audit (pl_mgr pl') = pre @ [ev] \<and> ev_tool ev = ''sandbox'')"
proof -
  obtain pl' where c: "CreateSandbox prims0 create0 opts0 None ''p'' plane0 = ([], Inr ''sb2'', pl')"
    using create0_ok by blast
  have "mg_sessions (pl_mgr plane0) sb = None" if "ce_create create0 = Some sb" for sb
    using that by (auto simp: create0_def plane0_def manager0_def)
  from CreateSandbox_all_or_nothing [OF c this] c show ?thesis by auto
qed

text \<open>
  Delegation cannot widen permissions: a sandbox created as the child of another one belongs to the
  same tenant as its parent, was created from the same charter, and its session carries the parent's
  run as its lineage.
\<close>

theorem delegated_child_keeps_tenant_and_charter:
  assumes "CreateSandbox G e opts ctx profileName pl = (killed, Inr sb, pl')" "co_parent opts \<noteq> []"
  shows "\<exists>parent child. mg_sessions (pl_mgr pl) (co_parent opts) = Some parent \<and>
    mg_sessions (pl_mgr pl') sb = Some child \<and> ss_owner child = ss_owner parent \<and>
    pro_name (ss_profile parent) = profileName \<and> ss_parent_run_id child = ss_run_id parent"
proof -
  obtain p prid patterns envsec where prid: "parent_check opts profileName (pl_mgr pl) = Inr prid"
    and fc: "finish_create G e opts ctx prid p patterns envsec sb pl = (killed, Inr sb, pl')"
  proof -
    have "\<exists>p prid patterns envsec sb'. parent_check opts profileName (pl_mgr pl) = Inr prid \<and>
        finish_create G e opts ctx prid p patterns envsec sb' pl = (killed, Inr sb, pl')"
      using assms(1) by (auto simp: CreateSandbox_def split: option.splits sum.splits if_splits) blast
    then obtain p prid patterns envsec sb' where *: "parent_check opts profileName (pl_mgr pl) = Inr prid"
      "finish_create G e opts ctx prid p patterns envsec sb' pl = (killed, Inr sb, pl')" by blast
    moreover have "sb' = sb"
      using *(2) by (auto simp: finish_create_def start_session_def register_session_def new_session_def Let_def
          split: sum.splits option.splits ide_start.splits prod.splits)
    ultimately show thesis using that by blast
  qed
  from prid assms(2) obtain parent where parent: "mg_sessions (pl_mgr pl) (co_parent opts) = Some parent"
      "ss_owner parent = co_owner opts" "pro_name (ss_profile parent) = profileName" "prid = ss_run_id parent"
    by (auto simp: parent_check_def session_of_def split: option.splits if_splits)
  have "\<exists>child. mg_sessions (pl_mgr pl') sb = Some child \<and> ss_owner child = co_owner opts \<and> ss_parent_run_id child = prid"
    using fc by (auto simp: finish_create_def start_session_def register_session_def new_session_def put_session_def Let_def
          split: sum.splits option.splits ide_start.splits prod.splits)
  then show ?thesis using parent by auto
qed

theorem delegated_child_keeps_tenant_and_charter_witness:
  "\<exists>pl' parent child. CreateSandbox prims0 create0 opts0 None ''p'' plane0 = ([], Inr ''sb2'', pl') \<and>
     mg_sessions (pl_mgr plane0) ''sb'' = Some parent \<and> mg_sessions (pl_mgr pl') ''sb2'' = Some child \<and>
     ss_owner child = ss_owner parent \<and> ss_parent_run_id child = ss_run_id parent"
proof -
  obtain pl' where c: "CreateSandbox prims0 create0 opts0 None ''p'' plane0 = ([], Inr ''sb2'', pl')"
    using create0_ok by blast
  moreover have "co_parent opts0 = ''sb''" by (simp add: opts0_def)
  ultimately show ?thesis using delegated_child_keeps_tenant_and_charter [OF c] by auto
qed

text \<open>
  An exhausted token budget stops a sandbox: once an accepted usage report brings the sandbox's
  total to the profile's token limit, no governed call of that sandbox runs its action, unless the
  operator ignores client-reported usage.
\<close>

theorem exhausted_token_budget_stops_execution:
  assumes "RecordUsageContext G K ctx sid tokens cost m = (None, m')" "mg_audit m' \<noteq> mg_audit m"
    and "mg_sessions m sid = Some sess" "ss_id sess = sid"
    and "0 \<le> sint (Tokens (SandboxUsage sid m))" "0 < sint (lim_max_tokens (pro_limits (ss_profile sess)))"
    and "sint (lim_max_tokens (pro_limits (ss_profile sess))) \<le> sint (Tokens (SandboxUsage sid m)) + sint tokens"
    and "\<not> ignoreClientUsageBudget (gp_ignore_usage G)"
  shows "\<not> go_ran (gov_execute G now later rq run sess m')"
proof -
  let ?u = "Tokens (Usage (mg_accounting m) sid)"
  have accepted: "0 \<le> sint tokens" "sint tokens \<le> sint (0x7FFFFFFFFFFFFFFF - ?u)"
      "mg_accounting m' = Record (pro_name (ss_profile sess)) sid tokens cost (mg_accounting m)"
    using assms(1,2,3) by (auto simp: RecordUsageContext_def log_event_def Let_def split: if_splits)
  have nonneg: "0 \<le> sint ?u" using assms(5) by (simp add: SandboxUsage_def)
  have "sint (0x7FFFFFFFFFFFFFFF - ?u) = 0x7FFFFFFFFFFFFFFF - sint ?u"
    using nonneg sint_lt [of ?u] by (simp add: sint_word_ariths(2) signed_take_bit_int_eq_self)
  then have "fits_i64 (sint ?u + sint tokens)"
    using accepted(1,2) nonneg by (simp add: fits_i64_def)
  then have "sint (?u + tokens) = sint ?u + sint tokens" by (rule sint_add_exact)
  then have "fst (Over (gp_fmt_cost G) (mg_accounting m') sid (lim_max_tokens (pro_limits (ss_profile sess))) c)" for c
    using accepted assms(6,7) by (simp add: Over_def Let_def Usage_Record add_usage_def SandboxUsage_def)
  then show ?thesis using assms(4,8) by (simp add: gov_execute_ran within_limits_def)
qed

definition cost0 :: "int costprims" where
  "cost0 = \<lparr>cs_finite = (\<lambda>_. True), cs_max_delta = 1000000, cs_fits = (\<lambda>_ _. True)\<rparr>"

definition session_cap :: "int session" where
  "session_cap = session0\<lparr>ss_profile := profile0\<lparr>pro_limits := limits0\<lparr>lim_max_tokens := 100\<rparr>\<rparr>\<rparr>"

theorem exhausted_token_budget_stops_execution_witness:
  "\<exists>m'. RecordUsageContext prims0 cost0 None ''sb'' 150 0 (manager0\<lparr>mg_sessions := [''sb'' \<mapsto> session_cap]\<rparr>) = (None, m') \<and>
     \<not> go_ran (gov_execute prims0 2 3 request0 run0 session_cap m')"
proof -
  let ?m = "manager0\<lparr>mg_sessions := [''sb'' \<mapsto> session_cap]\<rparr>"
  obtain m' where m': "RecordUsageContext prims0 cost0 None ''sb'' 150 0 ?m = (None, m')" "mg_audit m' \<noteq> mg_audit ?m"
    by (auto simp: RecordUsageContext_def cost0_def maxClientUsageTokenDelta_def manager0_def new_tracker_def Usage_def
        usage_of_def log_event_def Let_def)
  have "\<not> ignoreClientUsageBudget (gp_ignore_usage prims0)"
    by (simp add: prims0_def ignoreClientUsageBudget_def)
  moreover have "ss_id session_cap = ''sb''" "sint (lim_max_tokens (pro_limits (ss_profile session_cap))) = 100"
      "Tokens (SandboxUsage ''sb'' ?m) = 0"
    by (simp_all add: session_cap_def session0_def SandboxUsage_def manager0_def new_tracker_def Usage_def usage_of_def)
  ultimately show ?thesis
    using exhausted_token_budget_stops_execution [OF m', of session_cap] m'(1) by auto
qed

text \<open>
  An oversized report is dropped without notice: a usage report of more than a thousand million
  tokens is answered with success, yet neither the totals nor the audit trail change, so it cannot
  exhaust any budget.
\<close>

theorem oversized_usage_report_is_dropped:
  assumes "mg_sessions m sid = Some sess" "sint tokens > maxClientUsageTokenDelta" "\<not> cost < 0" "cs_finite K cost"
  shows "RecordUsageContext G K ctx sid tokens cost m = (None, m)"
  using assms by (simp add: RecordUsageContext_def maxClientUsageTokenDelta_def)

theorem oversized_usage_report_is_dropped_witness:
  "RecordUsageContext prims0 cost0 None ''sb'' 2000000000 0 manager0 = (None, manager0)"
  by (rule oversized_usage_report_is_dropped [of manager0 "''sb''" session0])
    (simp_all add: manager0_def maxClientUsageTokenDelta_def cost0_def)

text \<open>
  A raw terminal fails closed: it is attached exactly when the sandbox is known and the policy's
  verdict on it is allow; every other verdict, known or not, refuses it; and every attempt on a known
  sandbox is recorded with what happened.
\<close>

theorem terminal_fails_closed:
  "(let dec = (\<lambda>sess. engine_Evaluate (ss_engine sess) \<lparr>act_tool = ''terminal'', act_arg = ''attach'', act_args = []\<rparr>);
        (err, attached, m') = AttachTerminal G ctx sid m in
    (attached \<longleftrightarrow> err = None) \<and>
    (attached \<longleftrightarrow> (\<exists>sess. mg_sessions m sid = Some sess \<and> dec_verdict (dec sess) = VerdictAllow)) \<and>
    (case mg_sessions m sid of
       None \<Rightarrow> m' = m
     | Some sess \<Rightarrow> \<exists>ev. mg_audit m' = mg_audit m @ [ev] \<and> ev_tool ev = ''terminal'' \<and> ev_session ev = ss_id sess \<and>
         ev_verdict ev = (if attached then VerdictAllow else VerdictDeny)))"
  by (auto simp: AttachTerminal_def Let_def split: option.split)

text \<open>
  A human decision is attributed: resolving an approval succeeds exactly when it is pending; it then
  removes it, delivers the decision to the waiting call, and appends one event for the approval's
  sandbox whose verdict is the decision, naming the approver, \<^verbatim>\<open>unknown\<close> for a blank name, unless a
  scrub pattern changes that value.
\<close>

theorem resolved_approval_is_attributed:
  assumes "ResolveApproval G apid approve actor m = (ok, m')"
  shows "(ok \<longleftrightarrow> Get_approval apid (mg_approvals m) \<noteq> None) \<and> (\<not> ok \<longrightarrow> m' = m) \<and>
    (ok \<longrightarrow> Get_approval apid (mg_approvals m') = None \<and> ap_chan (mg_approvals m') apid = Some approve \<and>
      (\<exists>ev ap. Get_approval apid (mg_approvals m) = Some ap \<and> mg_audit m' = mg_audit m @ [ev] \<and>
         ev_tool ev = ''approval'' \<and> ev_session ev = ap_sandbox ap \<and>
         ev_verdict ev = (if approve then VerdictAllow else VerdictDeny) \<and> ''approver'' \<in> set (map fst (ev_meta ev))))"
proof (cases "Get_approval apid (mg_approvals m)")
  case None
  then show ?thesis using assms by (simp add: ResolveApproval_def ResolveView_def Get_approval_def)
next
  case (Some ap)
  then show ?thesis using assms
    by (auto simp: ResolveApproval_def ResolveView_def Get_approval_def log_event_def Let_def Scrub_fields
        image_iff split: option.splits)
qed

theorem resolved_approval_is_attributed_witness:
  "\<exists>m'. ResolveApproval prims0 ''a'' True ''alice'' (manager0\<lparr>mg_approvals := snd (Create 1 ''a'' ''sb'' ''shell'' ''ls'' [] NewApprovalStore)\<rparr>) = (True, m') \<and>
     ap_chan (mg_approvals m') ''a'' = Some True"
proof -
  let ?m = "manager0\<lparr>mg_approvals := snd (Create 1 ''a'' ''sb'' ''shell'' ''ls'' [] NewApprovalStore)\<rparr>"
  obtain ok m' where r: "ResolveApproval prims0 ''a'' True ''alice'' ?m = (ok, m')" by fastforce
  have "Get_approval ''a'' (mg_approvals ?m) \<noteq> None"
    by (simp add: Get_approval_def Create_def NewApprovalStore_def Let_def)
  then show ?thesis using resolved_approval_is_attributed [OF r] r by simp
qed

end
