(* ===== verification/Audit_Trail.thy ===== *)
theory Audit_Trail
  imports Ledger_Sign Manager_Ops
begin

text \<open>
  How the manager writes its audit trail (\<^verbatim>\<open>appendAudit\<close>, \<^verbatim>\<open>VerifyLedger\<close>, \<^verbatim>\<open>ExportBundle\<close> and
  \<^verbatim>\<open>LedgerPublicKey\<close> of \<^verbatim>\<open>internal/controlplane/manager.go\<close>): each event goes to the signed ledger and to
  the external sinks. This connects the events that the governed path hands over (\<open>mg_audit\<close>) with the
  hash chain on disk.
\<close>

section \<open>Operations\<close>

record audit_state =
  au_ledger :: ledger
  au_sink :: "event list option"

text \<open>A failed append is only logged; the event as the caller made it, without the chain fields that
  \<^verbatim>\<open>Append\<close> fills in, is emitted in any case.\<close>

definition appendAudit :: "prims \<Rightarrow> codec \<Rightarrow> append_io \<Rightarrow> gotime \<Rightarrow> event \<Rightarrow> audit_state \<Rightarrow> audit_state" where
  "appendAudit P C io now ev st =
     \<lparr>au_ledger = snd (Append P C io now ev (au_ledger st)), au_sink = map_option (\<lambda>s. s @ [ev]) (au_sink st)\<rparr>"

text \<open>\<open>pub\<close> is the signer's public key, \<^verbatim>\<open>None\<close> when signing is off.\<close>

definition LedgerPublicKey :: "prims \<Rightarrow> sigprims \<Rightarrow> string option \<Rightarrow> string \<times> string" where
  "LedgerPublicKey P S pub = (case pub of None \<Rightarrow> ([], []) | Some k \<Rightarrow> (b64_encode S k, keyID P k))"

definition VerifyLedger ::
  "prims \<Rightarrow> sigprims \<Rightarrow> codec \<Rightarrow> string option \<Rightarrow> audit_state \<Rightarrow> (ledger_error + sign_error) option" where
  "VerifyLedger P S C pub st =
     (case pub of
        Some k \<Rightarrow> VerifySignatures P S C (au_ledger st) k False
      | None \<Rightarrow> map_option Inl (Verify P C (au_ledger st)))"

datatype export_error = SigningDisabled | ExportFailed ledger_error

definition Manager_ExportBundle ::
  "prims \<Rightarrow> sigprims \<Rightarrow> codec \<Rightarrow> string option \<Rightarrow> string \<Rightarrow> audit_state \<Rightarrow> (export_error, evidence_bundle) result" where
  "Manager_ExportBundle P S C pub sessionID st =
     (case pub of
        None \<Rightarrow> Inl SigningDisabled
      | Some k \<Rightarrow> map_sum ExportFailed id (ExportBundle P S C (au_ledger st) sessionID k))"

section \<open>A run of appends\<close>

fun audit_run :: "prims \<Rightarrow> codec \<Rightarrow> (gotime \<times> event) list \<Rightarrow> audit_state \<Rightarrow> audit_state" where
  "audit_run P C [] st = st"
| "audit_run P C ((now, ev) # evs) st = audit_run P C evs (appendAudit P C IoOk now ev st)"

fun stored_events :: "prims \<Rightarrow> codec \<Rightarrow> (gotime \<times> event) list \<Rightarrow> ledger \<Rightarrow> event list" where
  "stored_events P C [] l = []"
| "stored_events P C ((now, ev) # evs) l =
     stamp P now l ev # stored_events P C evs (snd (Append P C IoOk now ev l))"

text \<open>Every stored event of the run survives its JSON form.\<close>

fun codec_run :: "prims \<Rightarrow> codec \<Rightarrow> (gotime \<times> event) list \<Rightarrow> ledger \<Rightarrow> bool" where
  "codec_run P C [] l = True"
| "codec_run P C ((now, ev) # evs) l =
     (codec_ok C (stamp P now l ev) \<and> codec_run P C evs (snd (Append P C IoOk now ev l)))"

definition payload :: "event \<Rightarrow> string \<times> string \<times> string \<times> string list \<times> string \<times> (string \<times> string) list" where
  "payload ev = (ev_session ev, ev_tool ev, ev_action ev, ev_args ev, ev_verdict ev, ev_meta ev)"

text \<open>The signer signs under the key: what Ed25519 with standard base64 gives.\<close>

definition signer_ok :: "sigprims \<Rightarrow> string \<Rightarrow> ledger \<Rightarrow> bool" where
  "signer_ok S pub l =
     (case lg_signer l of
        None \<Rightarrow> False
      | Some sg \<Rightarrow> \<forall>h. sg_sign sg h \<noteq> [] \<and>
          (case b64_decode S (sg_sign sg h) of None \<Rightarrow> False | Some sig \<Rightarrow> ed_verify S pub h sig))"

lemma Append_signer [simp]: "lg_signer (snd (Append P C io now ev l)) = lg_signer l"
  by (simp add: Append_def Let_def split: option.split append_io.split)

lemma stamp_signed:
  assumes "signer_ok S pub l"
  shows "ev_sig (stamp P now l ev) \<noteq> [] \<and> sig_ok S pub (stamp P now l ev)"
proof -
  obtain sg where sg: "lg_signer l = Some sg" using assms by (auto simp: signer_ok_def split: option.splits)
  have "sg_sign sg h \<noteq> [] \<and> (case b64_decode S (sg_sign sg h) of None \<Rightarrow> False | Some sig \<Rightarrow> ed_verify S pub h sig)" for h
    using assms sg by (simp add: signer_ok_def)
  then show ?thesis by (simp add: stamp_def sig_ok_def Let_def sg cong: option.case_cong)
qed

lemma stored_events_signed:
  "signer_ok S pub l \<Longrightarrow> list_all (\<lambda>ev. ev_sig ev \<noteq> [] \<and> sig_ok S pub ev) (stored_events P C evs l)"
proof (induction evs arbitrary: l)
  case (Cons e evs)
  obtain now ev where e: "e = (now, ev)" by fastforce
  have "signer_ok S pub (snd (Append P C IoOk now ev l))" using Cons.prems by (simp add: signer_ok_def)
  then show ?case using Cons stamp_signed [OF Cons.prems] by (simp add: e)
qed simp

lemma stored_events_payload: "map payload (stored_events P C evs l) = map (payload \<circ> snd) evs"
  by (induction evs arbitrary: l) (auto simp: payload_def stamp_payload)

lemma audit_run_sink: "au_sink (audit_run P C evs st) = map_option (\<lambda>s. s @ map snd evs) (au_sink st)"
  by (induction evs arbitrary: st) (auto simp: appendAudit_def option.map_comp comp_def option.map_ident)

lemma audit_run_records:
  assumes "ledger_inv P C (au_ledger st)" "codec_run P C evs (au_ledger st)" "Records C (au_ledger st) = Inr recs"
  shows "ledger_inv P C (au_ledger (audit_run P C evs st)) \<and>
    Records C (au_ledger (audit_run P C evs st)) = Inr (recs @ stored_events P C evs (au_ledger st))"
  using assms
proof (induction evs arbitrary: st recs)
  case (Cons e evs)
  obtain now ev where e: "e = (now, ev)" by fastforce
  let ?st = "appendAudit P C IoOk now ev st"
  have "ledger_inv P C (au_ledger ?st) \<and> Records C (au_ledger ?st) = Inr (recs @ [stamp P now (au_ledger st) ev])"
    using Append_ok [OF Cons.prems(1) _ Cons.prems(3)] Cons.prems(2) e by (simp add: appendAudit_def)
  then show ?case
    using Cons.IH [of ?st "recs @ [stamp P now (au_ledger st) ev]"] Cons.prems(2) e by (simp add: appendAudit_def)
qed simp

text \<open>The verification used by the manager, on the records.\<close>

lemma VerifyLedger_records:
  assumes "Records C (au_ledger st) = Inr recs"
  shows "VerifyLedger P S C pub st = None \<longleftrightarrow>
    (case pub of None \<Rightarrow> verifyChain P 0 [] recs = None | Some k \<Rightarrow> verifyRecords P S recs k False = None)"
  using assms by (cases pub) (simp_all add: VerifyLedger_def VerifySignatures_def Verify_def Records_def split: sum.splits option.splits)

lemma verifyRecords_split:
  "verifyRecords P S recs pub False = None \<longleftrightarrow>
     verifyChain P 0 [] recs = None \<and>
     (length pub = 32 \<longrightarrow> list_all (\<lambda>ev. ev_sig ev \<noteq> [] \<and> sig_ok S pub ev) recs)"
  by (cases "length pub = 32") (simp_all add: verifyRecords_def verifyRecordsLoop_signed verifyRecordsLoop_unsigned)

section \<open>Properties\<close>

text \<open>
  C5. The audit trail stays verifiable: starting from a ledger that the manager verifies, whatever
  sequence of events the governed path hands to \<^verbatim>\<open>appendAudit\<close>, if the writes succeed and the JSON
  form keeps each stored event, then the ledger's records are the old ones followed by one record per
  event, in order and with the same payload, the external sinks saw the same events, and
  \<^verbatim>\<open>VerifyLedger\<close> still accepts, with signatures when the ledger signs.
\<close>

theorem audit_trail_stays_verifiable:
  assumes "ledger_inv P C (au_ledger st)" "Records C (au_ledger st) = Inr recs"
    and "codec_run P C evs (au_ledger st)" "VerifyLedger P S C pub st = None"
    and "\<And>k. pub = Some k \<Longrightarrow> signer_ok S k (au_ledger st)"
  shows "\<exists>new. Records C (au_ledger (audit_run P C evs st)) = Inr (recs @ new) \<and>
    map payload new = map (payload \<circ> snd) evs \<and> au_sink (audit_run P C evs st) = map_option (\<lambda>s. s @ map snd evs) (au_sink st) \<and>
    VerifyLedger P S C pub (audit_run P C evs st) = None"
proof -
  let ?new = "stored_events P C evs (au_ledger st)"
  have inv: "ledger_inv P C (au_ledger (audit_run P C evs st))"
    and recs: "Records C (au_ledger (audit_run P C evs st)) = Inr (recs @ ?new)"
    using audit_run_records [OF assms(1,3,2)] by auto
  then have chain: "verifyChain P 0 [] (recs @ ?new) = None"
    by (simp add: ledger_inv_def Records_def)
  have "VerifyLedger P S C pub (audit_run P C evs st) = None"
  proof (cases pub)
    case None
    then show ?thesis using chain by (simp add: VerifyLedger_records [OF recs])
  next
    case (Some k)
    then have "list_all (\<lambda>ev. ev_sig ev \<noteq> [] \<and> sig_ok S k ev) ?new"
      using assms(5) by (intro stored_events_signed) auto
    then show ?thesis
      using Some assms(4) chain by (simp add: VerifyLedger_records [OF recs] VerifyLedger_records [OF assms(2)] verifyRecords_split)
  qed
  then show ?thesis using recs stored_events_payload audit_run_sink by blast
qed

definition audit0 :: audit_state where
  "audit0 = \<lparr>au_ledger = empty_ledger, au_sink = Some []\<rparr>"

theorem audit_trail_stays_verifiable_witness:
  "\<exists>C. VerifyLedger id_prims id_sigprims C None (audit_run id_prims C [(7, zero_event\<lparr>ev_tool := ''shell''\<rparr>)] audit0) = None"
proof -
  let ?ev = "zero_event\<lparr>ev_tool := ''shell''\<rparr>"
  let ?C = "codec1 (stamp id_prims 7 empty_ledger ?ev)"
  have recs: "Records ?C (au_ledger audit0) = Inr []"
    by (simp add: Records_def audit0_def empty_ledger_def readAll_def trimTrailingNewline_def)
  moreover have "codec_run id_prims ?C [(7, ?ev)] (au_ledger audit0)"
    by (simp add: audit0_def codec_ok_def codec1_def)
  moreover have "VerifyLedger id_prims id_sigprims ?C None audit0 = None"
    by (simp add: VerifyLedger_records [OF recs])
  moreover have "ledger_inv id_prims ?C (au_ledger audit0)" by (simp add: audit0_def ledger_inv_empty)
  ultimately show ?thesis using audit_trail_stays_verifiable [where pub = None] by blast
qed

end
