(* ===== verification/Fleet_Board.thy ===== *)
theory Fleet_Board
  imports Rune_Prelude
begin

text \<open>
  The in-memory task board of \<^verbatim>\<open>internal/fleet/board.go\<close>, from which workers pull tasks. A board is
  a map from task ids to tasks and the list of ids in insertion order, which defines the FIFO claim
  order. Every method holds the board's mutex, so one method call is one application of the
  corresponding function. Calls of \<^verbatim>\<open>time.Now\<close> and of \<^verbatim>\<open>newID\<close> are arguments (\<open>now\<close>, \<open>tid\<close>).

  The code dereferences \<^verbatim>\<open>b.tasks[id]\<close> for the ids of \<^verbatim>\<open>b.order\<close>; the model reads
  \<open>the (bd_tasks b tid)\<close> there, and \<open>board_inv\<close>, which every method keeps, says that the entry is
  there, so the code never dereferences nil.
\<close>

section \<open>Data\<close>

text \<open>\<^verbatim>\<open>TaskState\<close> is a string type; a state that is none of the four constants can only come from
  a loaded snapshot.\<close>

datatype task_state = StatePending | StateClaimed | StateDone | StateFailed | StateOther string

datatype board_error = ErrNotFound | ErrIllegalTransition

record task =
  tk_id :: string
  tk_payload :: string
  tk_state :: task_state
  tk_owner :: string
  tk_attempts :: int
  tk_created_at :: gotime
  tk_updated_at :: gotime
  tk_result :: string
  tk_error :: string
  tk_lease_expiry :: gotime
  tk_lease_version :: int
  tk_lease_token :: string

record stats =
  st_total :: nat
  st_pending :: nat
  st_claimed :: nat
  st_done :: nat
  st_failed :: nat

record board =
  bd_tasks :: "string \<rightharpoonup> task"
  bd_order :: "string list"
  bd_lease :: duration

section \<open>Operations\<close>

definition NewBoard :: board where
  "NewBoard = \<lparr>bd_tasks = Map.empty, bd_order = [], bd_lease = 0\<rparr>"

definition SetLease :: "duration \<Rightarrow> board \<Rightarrow> board" where
  "SetLease d b = b\<lparr>bd_lease := d\<rparr>"

fun load_tasks :: "task list \<Rightarrow> board \<Rightarrow> board" where
  "load_tasks [] b = b"
| "load_tasks (t # ts) b =
     load_tasks ts (b\<lparr>bd_tasks := (bd_tasks b)(tk_id t \<mapsto> t), bd_order := bd_order b @ [tk_id t]\<rparr>)"

definition Load :: "task list \<Rightarrow> duration \<Rightarrow> board" where
  "Load tasks lease = load_tasks tasks \<lparr>bd_tasks = Map.empty, bd_order = [], bd_lease = lease\<rparr>"

definition List_tasks :: "board \<Rightarrow> task list" where
  "List_tasks b = map (\<lambda>tid. the (bd_tasks b tid)) (bd_order b)"

definition Export :: "board \<Rightarrow> task list" where
  "Export b = List_tasks b"

definition new_task :: "gotime \<Rightarrow> string \<Rightarrow> string \<Rightarrow> task" where
  "new_task now tid payload =
     \<lparr>tk_id = tid, tk_payload = payload, tk_state = StatePending, tk_owner = [], tk_attempts = 0,
      tk_created_at = now, tk_updated_at = now, tk_result = [], tk_error = [],
      tk_lease_expiry = 0, tk_lease_version = 0, tk_lease_token = []\<rparr>"

definition Add :: "gotime \<Rightarrow> string \<Rightarrow> string \<Rightarrow> board \<Rightarrow> task \<times> board" where
  "Add now tid payload b =
     (let t = new_task now tid payload in
      (t, b\<lparr>bd_tasks := (bd_tasks b)(tid \<mapsto> t), bd_order := bd_order b @ [tid]\<rparr>))"

text \<open>Each addition of \<^verbatim>\<open>Seed\<close> reads the clock and draws an id.\<close>

fun seed_loop :: "(gotime \<times> string) list \<Rightarrow> string list \<Rightarrow> board \<Rightarrow> board" where
  "seed_loop ((now, tid) # ids) (p # ps) b = seed_loop ids ps (snd (Add now tid p b))"
| "seed_loop _ _ b = b"

definition Seed :: "(gotime \<times> string) list \<Rightarrow> string list \<Rightarrow> board" where
  "Seed ids payloads = seed_loop ids payloads NewBoard"

definition claim_task :: "gotime \<Rightarrow> string \<Rightarrow> duration \<Rightarrow> task \<Rightarrow> task" where
  "claim_task now owner lease t =
     t\<lparr>tk_state := StateClaimed, tk_owner := owner, tk_attempts := tk_attempts t + 1,
       tk_lease_version := tk_lease_version t + 1, tk_updated_at := now,
       tk_lease_expiry := (if lease > 0 then now + lease else tk_lease_expiry t)\<rparr>"

definition Claim :: "gotime \<Rightarrow> string \<Rightarrow> board \<Rightarrow> task option \<times> board" where
  "Claim now owner b =
     (case find (\<lambda>tid. tk_state (the (bd_tasks b tid)) = StatePending) (bd_order b) of
        None \<Rightarrow> (None, b)
      | Some tid \<Rightarrow>
          (let t = claim_task now owner (bd_lease b) (the (bd_tasks b tid)) in
           (Some t, b\<lparr>bd_tasks := (bd_tasks b)(tid \<mapsto> t)\<rparr>)))"

definition Heartbeat :: "gotime \<Rightarrow> string \<Rightarrow> string \<Rightarrow> board \<Rightarrow> (board_error, task) result \<times> board" where
  "Heartbeat now tid owner b =
     (case bd_tasks b tid of
        None \<Rightarrow> (Inl ErrNotFound, b)
      | Some t \<Rightarrow>
          if tk_state t \<noteq> StateClaimed then (Inl ErrIllegalTransition, b)
          else if tk_owner t \<noteq> owner then (Inl ErrIllegalTransition, b)
          else
            (let t' = t\<lparr>tk_lease_version := tk_lease_version t + 1, tk_updated_at := now,
                        tk_lease_expiry := (if bd_lease b > 0 then now + bd_lease b
                                            else tk_lease_expiry t)\<rparr> in
             (Inr t', b\<lparr>bd_tasks := (bd_tasks b)(tid \<mapsto> t')\<rparr>)))"

definition lease_expired :: "gotime \<Rightarrow> task \<Rightarrow> bool" where
  "lease_expired now t \<longleftrightarrow>
     tk_state t = StateClaimed \<and> \<not> is_zero_time (tk_lease_expiry t) \<and> now > tk_lease_expiry t"

definition requeue_expired :: "gotime \<Rightarrow> task \<Rightarrow> task" where
  "requeue_expired now t =
     t\<lparr>tk_state := StatePending, tk_owner := [], tk_lease_expiry := 0,
       tk_error := ''lease expired; requeued'', tk_updated_at := now\<rparr>"

fun sweep_loop :: "gotime \<Rightarrow> string list \<Rightarrow> board \<Rightarrow> task list \<times> board" where
  "sweep_loop now [] b = ([], b)"
| "sweep_loop now (tid # ids) b =
     (let t = the (bd_tasks b tid) in
      if lease_expired now t then
        (let t' = requeue_expired now t;
             (requeued, b') = sweep_loop now ids (b\<lparr>bd_tasks := (bd_tasks b)(tid \<mapsto> t')\<rparr>)
         in (t' # requeued, b'))
      else sweep_loop now ids b)"

definition Sweep :: "gotime \<Rightarrow> board \<Rightarrow> task list \<times> board" where
  "Sweep now b = sweep_loop now (bd_order b) b"

definition Complete :: "gotime \<Rightarrow> string \<Rightarrow> string \<Rightarrow> string \<Rightarrow> board \<Rightarrow> board_error option \<times> board" where
  "Complete now tid owner res b =
     (case bd_tasks b tid of
        None \<Rightarrow> (Some ErrNotFound, b)
      | Some t \<Rightarrow>
          if tk_state t \<noteq> StateClaimed then (Some ErrIllegalTransition, b)
          else if owner \<noteq> [] \<and> tk_owner t \<noteq> owner then (Some ErrIllegalTransition, b)
          else (None, b\<lparr>bd_tasks := (bd_tasks b)(tid \<mapsto>
                  t\<lparr>tk_state := StateDone, tk_result := res, tk_error := [], tk_lease_expiry := 0,
                    tk_updated_at := now\<rparr>)\<rparr>))"

definition Fail ::
  "gotime \<Rightarrow> string \<Rightarrow> string \<Rightarrow> string \<Rightarrow> bool \<Rightarrow> board \<Rightarrow> board_error option \<times> board" where
  "Fail now tid owner errMsg requeue b =
     (case bd_tasks b tid of
        None \<Rightarrow> (Some ErrNotFound, b)
      | Some t \<Rightarrow>
          if tk_state t \<noteq> StateClaimed then (Some ErrIllegalTransition, b)
          else if owner \<noteq> [] \<and> tk_owner t \<noteq> owner then (Some ErrIllegalTransition, b)
          else
            (let t1 = t\<lparr>tk_error := errMsg, tk_updated_at := now, tk_lease_expiry := 0\<rparr>;
                 t2 = (if requeue then t1\<lparr>tk_state := StatePending, tk_owner := []\<rparr>
                       else t1\<lparr>tk_state := StateFailed\<rparr>)
             in (None, b\<lparr>bd_tasks := (bd_tasks b)(tid \<mapsto> t2)\<rparr>)))"

definition Get :: "string \<Rightarrow> board \<Rightarrow> task option" where
  "Get tid b = bd_tasks b tid"

definition Restore :: "task \<Rightarrow> board \<Rightarrow> bool \<times> board" where
  "Restore t b =
     (if bd_tasks b (tk_id t) = None then (False, b)
      else (True, b\<lparr>bd_tasks := (bd_tasks b)(tk_id t \<mapsto> t\<lparr>tk_lease_token := []\<rparr>)\<rparr>))"

definition Remove :: "string \<Rightarrow> board \<Rightarrow> bool \<times> board" where
  "Remove tid b =
     (if bd_tasks b tid = None then (False, b)
      else (True, b\<lparr>bd_tasks := (bd_tasks b)(tid := None), bd_order := remove1 tid (bd_order b)\<rparr>))"

definition count_state :: "task_state \<Rightarrow> board \<Rightarrow> nat" where
  "count_state st b = length (filter (\<lambda>tid. tk_state (the (bd_tasks b tid)) = st) (bd_order b))"

definition Stats :: "board \<Rightarrow> stats" where
  "Stats b = \<lparr>st_total = length (bd_order b), st_pending = count_state StatePending b,
     st_claimed = count_state StateClaimed b, st_done = count_state StateDone b,
     st_failed = count_state StateFailed b\<rparr>"

definition Remaining :: "board \<Rightarrow> nat" where
  "Remaining b =
     length (filter (\<lambda>tid. tk_state (the (bd_tasks b tid)) \<in> {StatePending, StateClaimed}) (bd_order b))"

section \<open>Invariant\<close>

definition board_inv :: "board \<Rightarrow> bool" where
  "board_inv b \<longleftrightarrow>
     distinct (bd_order b) \<and> set (bd_order b) = dom (bd_tasks b) \<and>
     (\<forall>tid t. bd_tasks b tid = Some t \<longrightarrow> tk_id t = tid)"

lemma board_inv_upd:
  "board_inv b \<Longrightarrow> bd_tasks b tid = Some t \<Longrightarrow> tk_id t' = tid \<Longrightarrow>
   board_inv (b\<lparr>bd_tasks := (bd_tasks b)(tid \<mapsto> t')\<rparr>)"
  by (auto simp: board_inv_def)

lemma order_lookup:
  "board_inv b \<Longrightarrow> tid \<in> set (bd_order b) \<Longrightarrow> \<exists>t. bd_tasks b tid = Some t \<and> tk_id t = tid"
  by (auto simp: board_inv_def)

lemma Claim_cases:
  assumes "board_inv b"
  obtains
    (empty) "Claim now owner b = (None, b)"
      "\<forall>tid \<in> set (bd_order b). tk_state (the (bd_tasks b tid)) \<noteq> StatePending"
  | (got) ys tid zs t where "bd_order b = ys @ tid # zs"
      "\<forall>y \<in> set ys. tk_state (the (bd_tasks b y)) \<noteq> StatePending"
      "bd_tasks b tid = Some t" "tk_id t = tid" "tk_state t = StatePending"
      "Claim now owner b = (Some (claim_task now owner (bd_lease b) t),
         b\<lparr>bd_tasks := (bd_tasks b)(tid \<mapsto> claim_task now owner (bd_lease b) t)\<rparr>)"
proof (cases "find (\<lambda>tid. tk_state (the (bd_tasks b tid)) = StatePending) (bd_order b)")
  case None
  moreover from this have "\<forall>tid \<in> set (bd_order b). tk_state (the (bd_tasks b tid)) \<noteq> StatePending"
    by (simp add: find_None_all)
  ultimately show thesis by (intro empty) (auto simp: Claim_def)
next
  case (Some tid)
  then obtain ys zs where split: "bd_order b = ys @ tid # zs"
      "\<forall>y \<in> set ys. tk_state (the (bd_tasks b y)) \<noteq> StatePending"
      "tk_state (the (bd_tasks b tid)) = StatePending"
    by (auto simp: find_first)
  moreover obtain t where "bd_tasks b tid = Some t" "tk_id t = tid"
    using order_lookup [OF assms, of tid] split(1) by auto
  ultimately show thesis using Some by (intro got) (auto simp: Claim_def Let_def)
qed

lemma Heartbeat_ok:
  assumes "board_inv b" "fst (Heartbeat now tid w b) = Inr t"
  obtains t0 where "bd_tasks b tid = Some t0" "tk_id t = tid" "tk_state t0 = StateClaimed" "tk_owner t0 = w"
    "tk_lease_version t = tk_lease_version t0 + 1"
    "snd (Heartbeat now tid w b) = b\<lparr>bd_tasks := (bd_tasks b)(tid \<mapsto> t)\<rparr>"
proof -
  obtain t0 where t0: "bd_tasks b tid = Some t0" "tk_state t0 = StateClaimed" "tk_owner t0 = w"
      and t: "t = t0\<lparr>tk_lease_version := tk_lease_version t0 + 1, tk_updated_at := now,
                     tk_lease_expiry := (if bd_lease b > 0 then now + bd_lease b else tk_lease_expiry t0)\<rparr>"
    using assms(2) by (auto simp: Heartbeat_def Let_def split: option.splits if_splits)
  have "tk_id t0 = tid" using assms(1) t0(1) by (simp add: board_inv_def)
  with t0 show thesis by (intro that [of t0]) (simp_all add: t Heartbeat_def Let_def)
qed

lemma task_fields [simp]:
  "tk_id (claim_task now owner lease t) = tk_id t"
  "tk_state (claim_task now owner lease t) = StateClaimed"
  "tk_lease_version (claim_task now owner lease t) = tk_lease_version t + 1"
  "tk_owner (claim_task now owner lease t) = owner"
  "tk_id (requeue_expired now t) = tk_id t"
  "tk_state (requeue_expired now t) = StatePending"
  "tk_lease_version (requeue_expired now t) = tk_lease_version t"
  by (simp_all add: claim_task_def requeue_expired_def)

lemma NewBoard_inv: "board_inv NewBoard"
  by (simp add: board_inv_def NewBoard_def)

lemma SetLease_inv: "board_inv b \<Longrightarrow> board_inv (SetLease d b)"
  by (simp add: board_inv_def SetLease_def)

lemma Add_inv: "board_inv b \<Longrightarrow> tid \<notin> dom (bd_tasks b) \<Longrightarrow> board_inv (snd (Add now tid p b))"
  by (auto simp: board_inv_def Add_def Let_def new_task_def)

lemma Claim_inv: "board_inv b \<Longrightarrow> board_inv (snd (Claim now owner b))"
  by (rule Claim_cases [of b now owner]) (auto intro: board_inv_upd)

lemma Heartbeat_inv: "board_inv b \<Longrightarrow> board_inv (snd (Heartbeat now tid owner b))"
  by (auto simp: Heartbeat_def Let_def board_inv_def split: option.split)

lemma sweep_loop_inv:
  "board_inv b \<Longrightarrow> set ids \<subseteq> set (bd_order b) \<Longrightarrow> board_inv (snd (sweep_loop now ids b))"
proof (induction ids arbitrary: b)
  case Nil
  then show ?case by simp
next
  case (Cons tid ids)
  from Cons.prems obtain t where t: "bd_tasks b tid = Some t" "tk_id t = tid"
    using order_lookup [of b tid] by auto
  have "board_inv (b\<lparr>bd_tasks := (bd_tasks b)(tid \<mapsto> requeue_expired now t)\<rparr>)"
    using Cons.prems(1) t by (intro board_inv_upd) auto
  then show ?case using Cons t by (simp add: Let_def split_beta)
qed

lemma Sweep_inv: "board_inv b \<Longrightarrow> board_inv (snd (Sweep now b))"
  unfolding Sweep_def by (rule sweep_loop_inv) auto

lemma Complete_inv: "board_inv b \<Longrightarrow> board_inv (snd (Complete now tid owner res b))"
  by (auto simp: Complete_def board_inv_def split: option.split)

lemma Fail_inv: "board_inv b \<Longrightarrow> board_inv (snd (Fail now tid owner msg rq b))"
  by (auto simp: Fail_def Let_def board_inv_def split: option.split)

lemma Restore_inv: "board_inv b \<Longrightarrow> board_inv (snd (Restore t b))"
  by (auto simp: Restore_def board_inv_def)

lemma Remove_inv: "board_inv b \<Longrightarrow> board_inv (snd (Remove tid b))"
  by (auto simp: Remove_def board_inv_def split: if_splits)

lemma load_tasks_fields:
  "bd_order (load_tasks ts b) = bd_order b @ map tk_id ts"
  "bd_lease (load_tasks ts b) = bd_lease b"
  "bd_tasks (load_tasks ts b) = bd_tasks b ++ map_of (rev (map (\<lambda>t. (tk_id t, t)) ts))"
  by (induction ts arbitrary: b) (auto simp: map_add_def fun_eq_iff split: option.split)

lemma Load_inv: "distinct (map tk_id ts) \<Longrightarrow> board_inv (Load ts lease)"
  by (auto simp: board_inv_def Load_def load_tasks_fields dom_map_of_conv_image_fst image_image
      dest!: map_of_SomeD)

lemmas board_inv_ops = SetLease_inv Claim_inv Heartbeat_inv Sweep_inv Complete_inv Fail_inv

section \<open>Runs of worker operations\<close>

text \<open>
  What workers, the sweeper and task submitters do to a board. \<^verbatim>\<open>Add\<close> draws 64 random bits for the
  id; a run consists of additions whose id is not in use, and an addition with a used id is left
  out of the run.
\<close>

datatype board_op =
    OpSetLease duration
  | OpAdd gotime string string
  | OpClaim gotime string
  | OpHeartbeat gotime string string
  | OpSweep gotime
  | OpComplete gotime string string string
  | OpFail gotime string string string bool

fun board_step :: "board \<Rightarrow> board_op \<Rightarrow> board" where
  "board_step b (OpSetLease d) = SetLease d b"
| "board_step b (OpAdd now tid p) = (if tid \<in> dom (bd_tasks b) then b else snd (Add now tid p b))"
| "board_step b (OpClaim now owner) = snd (Claim now owner b)"
| "board_step b (OpHeartbeat now tid owner) = snd (Heartbeat now tid owner b)"
| "board_step b (OpSweep now) = snd (Sweep now b)"
| "board_step b (OpComplete now tid owner res) = snd (Complete now tid owner res b)"
| "board_step b (OpFail now tid owner msg rq) = snd (Fail now tid owner msg rq b)"

lemma board_step_inv: "board_inv b \<Longrightarrow> board_inv (board_step b e)"
  by (cases e) (auto simp: board_inv_ops intro: Add_inv)

definition lease_versions :: "board \<Rightarrow> string \<Rightarrow> int" where
  "lease_versions b tid = (case bd_tasks b tid of None \<Rightarrow> 0 | Some t \<Rightarrow> tk_lease_version t)"

lemma lease_versions_upd:
  "lease_versions (b\<lparr>bd_tasks := (bd_tasks b)(tid \<mapsto> t)\<rparr>) =
     (lease_versions b)(tid := tk_lease_version t)"
  by (auto simp: lease_versions_def fun_eq_iff)

lemma sweep_loop_versions:
  "board_inv b \<Longrightarrow> set ids \<subseteq> set (bd_order b) \<Longrightarrow>
   lease_versions (snd (sweep_loop now ids b)) = lease_versions b"
proof (induction ids arbitrary: b)
  case Nil
  then show ?case by simp
next
  case (Cons tid ids)
  from Cons.prems obtain t where t: "bd_tasks b tid = Some t" "tk_id t = tid"
    using order_lookup [of b tid] by auto
  let ?b = "b\<lparr>bd_tasks := (bd_tasks b)(tid \<mapsto> requeue_expired now t)\<rparr>"
  have "board_inv ?b" using Cons.prems(1) t by (intro board_inv_upd) auto
  moreover have "lease_versions ?b = lease_versions b"
    using t by (simp add: lease_versions_upd) (simp add: lease_versions_def fun_eq_iff)
  ultimately show ?case using Cons t by (simp add: Let_def split_beta)
qed

lemma lease_versions_step: "board_inv b \<Longrightarrow> lease_versions b \<le> lease_versions (board_step b e)"
proof (cases e)
  case (OpSweep now)
  assume "board_inv b"
  then show ?thesis using OpSweep by (simp add: Sweep_def sweep_loop_versions)
next
  case (OpClaim now owner)
  assume "board_inv b"
  then show ?thesis unfolding OpClaim
    by (rule Claim_cases [of b now owner])
      (auto simp: lease_versions_upd le_fun_def, auto simp: lease_versions_def)
qed (auto simp: SetLease_def Add_def Heartbeat_def Complete_def Fail_def Let_def lease_versions_def
    new_task_def le_fun_def split: option.split)

interpretation board: monotone_machine board_step board_inv lease_versions
  by unfold_locales (simp_all add: board_step_inv lease_versions_step)

section \<open>What sweeping does\<close>

definition swept :: "gotime \<Rightarrow> task \<Rightarrow> task" where
  "swept now t = (if lease_expired now t then requeue_expired now t else t)"

lemma sweep_loop_spec:
  assumes "board_inv b" "set ids \<subseteq> set (bd_order b)" "distinct ids"
  shows "sweep_loop now ids b =
    (map (requeue_expired now) (filter (lease_expired now) (map (\<lambda>i. the (bd_tasks b i)) ids)),
     b\<lparr>bd_tasks := (\<lambda>i. if i \<in> set ids then map_option (swept now) (bd_tasks b i) else bd_tasks b i)\<rparr>)"
  using assms
proof (induction ids arbitrary: b)
  case Nil
  then show ?case by simp
next
  case (Cons tid ids)
  from Cons.prems obtain t where t: "bd_tasks b tid = Some t" "tk_id t = tid"
    using order_lookup [of b tid] by auto
  let ?b = "b\<lparr>bd_tasks := (bd_tasks b)(tid \<mapsto> requeue_expired now t)\<rparr>"
  have inv: "board_inv ?b" using Cons.prems(1) t by (intro board_inv_upd) auto
  have same: "map (\<lambda>i. the (bd_tasks ?b i)) ids = map (\<lambda>i. the (bd_tasks b i)) ids"
    using Cons.prems(3) by auto
  show ?case
  proof (cases "lease_expired now t")
    case True
    then have "sweep_loop now (tid # ids) b =
        (let (r, b') = sweep_loop now ids ?b in (requeue_expired now t # r, b'))"
      using t by (simp add: Let_def)
    also have "sweep_loop now ids ?b =
        (map (requeue_expired now) (filter (lease_expired now) (map (\<lambda>i. the (bd_tasks b i)) ids)),
         ?b\<lparr>bd_tasks := (\<lambda>i. if i \<in> set ids then map_option (swept now) (bd_tasks ?b i) else bd_tasks ?b i)\<rparr>)"
      unfolding same [symmetric] using Cons.IH [OF inv] Cons.prems by simp
    finally show ?thesis using True t Cons.prems(3)
      by (auto simp: swept_def intro!: board.equality ext)
  next
    case False
    then show ?thesis using Cons.IH [OF Cons.prems(1)] Cons.prems t
      by (auto simp: swept_def Let_def intro!: board.equality ext)
  qed
qed

lemma Sweep_spec:
  assumes "board_inv b"
  shows "Sweep now b =
    (map (requeue_expired now) (filter (lease_expired now) (List_tasks b)),
     b\<lparr>bd_tasks := map_option (swept now) \<circ> bd_tasks b\<rparr>)"
proof -
  have "tid \<notin> set (bd_order b) \<Longrightarrow> bd_tasks b tid = None" for tid
    using assms by (auto simp: board_inv_def)
  then show ?thesis
    using assms by (auto simp: Sweep_def sweep_loop_spec List_tasks_def board_inv_def fun_eq_iff
        intro!: board.equality)
qed

section \<open>One task over a run\<close>

text \<open>The operations that return a claimed task to the pool: a sweep after its lease ran out, and an
  accepted failure report that asks for a requeue.\<close>

fun releases :: "string \<Rightarrow> board \<Rightarrow> board_op \<Rightarrow> bool" where
  "releases tid b (OpSweep now) = lease_expired now (the (bd_tasks b tid))"
| "releases tid b (OpFail now i owner msg rq) =
     (i = tid \<and> rq \<and> tk_state (the (bd_tasks b tid)) = StateClaimed \<and>
      (owner = [] \<or> owner = tk_owner (the (bd_tasks b tid))))"
| "releases tid b _ = False"

lemma nonpending_step:
  assumes "board_inv b" "bd_tasks b tid = Some t" "tk_state t \<noteq> StatePending" "\<not> releases tid b e"
  shows "\<exists>t'. bd_tasks (board_step b e) tid = Some t' \<and> tk_state t' \<noteq> StatePending"
proof (cases e)
  case (OpClaim now owner)
  show ?thesis
    by (rule Claim_cases [OF assms(1), of now owner]) (use assms OpClaim in auto)
next
  case (OpSweep now)
  then show ?thesis using assms by (simp add: Sweep_spec swept_def)
next
  case (OpFail now i owner msg rq)
  then show ?thesis using assms by (auto simp: Fail_def Let_def split: option.split)
qed (use assms in \<open>auto simp: SetLease_def Add_def Heartbeat_def Complete_def Let_def split: option.split\<close>)

lemma terminal_step:
  assumes "board_inv b" "bd_tasks b tid = Some t" "tk_state t \<noteq> StatePending" "tk_state t \<noteq> StateClaimed"
  shows "bd_tasks (board_step b e) tid = Some t"
proof (cases e)
  case (OpClaim now owner)
  show ?thesis
    by (rule Claim_cases [OF assms(1), of now owner]) (use assms OpClaim in auto)
next
  case (OpSweep now)
  then show ?thesis using assms by (simp add: Sweep_spec swept_def lease_expired_def)
qed (use assms in \<open>auto simp: SetLease_def Add_def Heartbeat_def Complete_def Fail_def Let_def
    split: option.split\<close>)

lemma nonpending_run:
  assumes "board_inv b" "bd_tasks b tid = Some t" "tk_state t \<noteq> StatePending"
    and "\<And>n. n < length es \<Longrightarrow> \<not> releases tid (foldl board_step b (take n es)) (es ! n)"
  shows "\<exists>t'. bd_tasks (foldl board_step b es) tid = Some t' \<and> tk_state t' \<noteq> StatePending"
  using assms
proof (induction es arbitrary: b t)
  case Nil
  then show ?case by simp
next
  case (Cons e es)
  obtain t' where t': "bd_tasks (board_step b e) tid = Some t'" "tk_state t' \<noteq> StatePending"
    using nonpending_step [OF Cons.prems(1-3), of e] Cons.prems(4) [of 0] by auto
  have "\<not> releases tid (foldl board_step (board_step b e) (take n es)) (es ! n)" if "n < length es" for n
    using Cons.prems(4) [of "Suc n"] that by simp
  then show ?case
    using Cons.IH [OF board_step_inv [OF Cons.prems(1)] t'] by simp
qed

lemma terminal_run:
  "board_inv b \<Longrightarrow> bd_tasks b tid = Some t \<Longrightarrow> tk_state t \<noteq> StatePending \<Longrightarrow> tk_state t \<noteq> StateClaimed \<Longrightarrow>
   bd_tasks (foldl board_step b es) tid = Some t"
  by (induction es arbitrary: b) (auto intro: terminal_step board_step_inv)

section \<open>A pending task gets its turn\<close>

definition is_pending :: "board \<Rightarrow> string \<Rightarrow> bool" where
  "is_pending b tid \<longleftrightarrow> tk_state (the (bd_tasks b tid)) = StatePending"

definition older_ids :: "string \<Rightarrow> board \<Rightarrow> string list" where
  "older_ids tid b = takeWhile (\<lambda>i. i \<noteq> tid) (bd_order b)"

definition older_pending :: "string \<Rightarrow> board \<Rightarrow> nat" where
  "older_pending tid b = length (filter (is_pending b) (older_ids tid b))"

fun is_claim :: "board_op \<Rightarrow> bool" where
  "is_claim (OpClaim now w) = True"
| "is_claim _ = False"

text \<open>The step at which a worker is given the task.\<close>

fun hands_out :: "string \<Rightarrow> board \<Rightarrow> board_op \<Rightarrow> bool" where
  "hands_out tid b (OpClaim now w) = (\<exists>t. fst (Claim now w b) = Some t \<and> tk_id t = tid)"
| "hands_out tid b _ = False"

lemma board_step_order: "\<exists>xs. bd_order (board_step b e) = bd_order b @ xs"
proof (cases e)
  case (OpSweep now)
  have "bd_order (snd (sweep_loop now ids b)) = bd_order b" for ids
    by (induction ids arbitrary: b) (auto simp: Let_def split_beta)
  then show ?thesis using OpSweep by (simp add: Sweep_def)
qed (auto simp: SetLease_def Add_def Claim_def Heartbeat_def Complete_def Fail_def Let_def
    split: option.split)

lemma older_ids_step: "tid \<in> set (bd_order b) \<Longrightarrow> older_ids tid (board_step b e) = older_ids tid b"
  using board_step_order [of b e] by (auto simp: older_ids_def)

lemma older_ids_known: "i \<in> set (older_ids tid b) \<Longrightarrow> i \<in> set (bd_order b) \<and> i \<noteq> tid"
  by (auto simp: older_ids_def dest: set_takeWhileD)

lemma claim_step_pending:
  assumes "board_inv b" "tid \<in> set (bd_order b)" "is_pending b tid" "\<not> hands_out tid b (OpClaim now w)"
  shows "is_pending (snd (Claim now w b)) tid \<and> older_pending tid (snd (Claim now w b)) < older_pending tid b"
  using assms(1)
proof (cases rule: Claim_cases [where now = now and owner = w])
  case empty
  with assms(2,3) show ?thesis by (auto simp: is_pending_def)
next
  case (got ys i zs t)
  let ?b = "snd (Claim now w b)"
  have i: "i \<noteq> tid" using got assms(4) by auto
  have "tid \<notin> set ys" using got(2) assms(3) by (auto simp: is_pending_def)
  with i got(1) have old: "older_ids tid b = ys @ i # takeWhile (\<lambda>i. i \<noteq> tid) zs"
    by (subst older_ids_def) (subst got(1), subst takeWhile_append2, auto)
  have "older_ids tid ?b = older_ids tid b" using older_ids_step [OF assms(2), of "OpClaim now w"] by simp
  moreover have pend: "is_pending ?b = (\<lambda>j. j \<noteq> i \<and> is_pending b j)"
    using got by (auto simp: is_pending_def fun_eq_iff)
  moreover have "is_pending b i" using got by (simp add: is_pending_def)
  moreover have "length (filter (\<lambda>j. j \<noteq> i \<and> is_pending b j) js) \<le> length (filter (is_pending b) js)" for js
    by (induction js) auto
  ultimately have "older_pending tid ?b < older_pending tid b"
    by (simp add: older_pending_def old add_mono less_Suc_eq_le)
  with pend i assms(3) show ?thesis by simp
qed

lemma pending_step:
  assumes "board_inv b" "tid \<in> set (bd_order b)" "is_pending b tid" "\<not> hands_out tid b e"
    and "\<forall>i \<in> set (older_ids tid b). \<not> releases i b e"
  shows "is_pending (board_step b e) tid \<and>
    older_pending tid (board_step b e) + of_bool (is_claim e) \<le> older_pending tid b"
proof (cases "is_claim e")
  case True
  then obtain now w where "e = OpClaim now w" by (cases e) auto
  with claim_step_pending [OF assms(1-3), of now w] assms(4) show ?thesis by auto
next
  case False
  have keep: "is_pending (board_step b e) i \<longleftrightarrow> is_pending b i"
    if "i \<in> set (bd_order b)" "\<not> releases i b e \<or> is_pending b i" for i
  proof -
    from order_lookup [OF assms(1) that(1)] obtain t where "bd_tasks b i = Some t" by blast
    with that(2) False assms(1) show ?thesis
      by (cases e) (auto simp: is_pending_def SetLease_def Add_def Heartbeat_def Complete_def Fail_def
          Sweep_spec swept_def lease_expired_def Let_def split: option.split)
  qed
  have "filter (is_pending (board_step b e)) (older_ids tid b) = filter (is_pending b) (older_ids tid b)"
    using assms(5) older_ids_known [of _ tid b] by (intro filter_cong) (auto simp: keep)
  then show ?thesis
    using False keep [OF assms(2)] assms(2,3) by (simp add: older_pending_def older_ids_step)
qed

lemma pending_task_gets_turn:
  assumes "board_inv b" "tid \<in> set (bd_order b)" "is_pending b tid"
    and "\<forall>n < length es. \<forall>i \<in> set (older_ids tid b). \<not> releases i (foldl board_step b (take n es)) (es ! n)"
    and "older_pending tid b < length (filter is_claim es)"
  shows "\<exists>n < length es. hands_out tid (foldl board_step b (take n es)) (es ! n)"
  using assms
proof (induction es arbitrary: b)
  case Nil
  then show ?case by simp
next
  case (Cons e es)
  show ?case
  proof (cases "hands_out tid b e")
    case True
    then show ?thesis by (intro exI [of _ 0]) simp
  next
    case False
    let ?b = "board_step b e"
    have "\<forall>i \<in> set (older_ids tid b). \<not> releases i b e" using Cons.prems(4) by auto
    with pending_step [OF Cons.prems(1-3) False] have
      step: "is_pending ?b tid" "older_pending tid ?b + of_bool (is_claim e) \<le> older_pending tid b" by auto
    have "\<exists>n < length es. hands_out tid (foldl board_step ?b (take n es)) (es ! n)"
    proof (rule Cons.IH)
      show "board_inv ?b" using Cons.prems(1) by (rule board_step_inv)
      show "tid \<in> set (bd_order ?b)" using Cons.prems(2) board_step_order [of b e] by auto
      show "older_pending tid ?b < length (filter is_claim es)"
        using step(2) Cons.prems(5) by (auto split: if_splits)
      show "\<forall>n < length es. \<forall>i \<in> set (older_ids tid ?b). \<not> releases i (foldl board_step ?b (take n es)) (es ! n)"
        using Cons.prems(4) older_ids_step [OF Cons.prems(2), of e] by fastforce
    qed (rule step(1))
    then obtain n where "n < length es" "hands_out tid (foldl board_step ?b (take n es)) (es ! n)" by blast
    then show ?thesis by (intro exI [of _ "Suc n"]) simp
  qed
qed

section \<open>Properties\<close>

text \<open>
  C9. A claimed task is handed to nobody else: if a task is not pending (claimed, done or failed)
  at some point of any run of board operations by any workers, and a later \<^verbatim>\<open>Claim\<close> returns that
  task, then between the two the task was released, by a sweep after its lease had run out or by an
  accepted failure report with requeue; in particular the task was claimed, not done or failed, at
  the first point.
\<close>

theorem claim_is_exclusive:
  assumes "board_inv b" "bd_tasks b tid = Some t" "tk_state t \<noteq> StatePending"
    and "fst (Claim now w (foldl board_step b es)) = Some t'" "tk_id t' = tid"
  shows "(\<exists>n < length es. releases tid (foldl board_step b (take n es)) (es ! n)) \<and> tk_state t = StateClaimed"
proof
  have inv: "board_inv (foldl board_step b es)" using assms(1) by (rule board.run_inv)
  obtain t0 where t0: "bd_tasks (foldl board_step b es) tid = Some t0" "tk_state t0 = StatePending"
    by (rule Claim_cases [OF inv, of now w]) (use assms(4,5) in auto)
  show "\<exists>n < length es. releases tid (foldl board_step b (take n es)) (es ! n)"
  proof (rule ccontr)
    assume "\<not> ?thesis"
    then have "\<exists>t'. bd_tasks (foldl board_step b es) tid = Some t' \<and> tk_state t' \<noteq> StatePending"
      by (intro nonpending_run [OF assms(1-3)]) auto
    with t0 show False by simp
  qed
  show "tk_state t = StateClaimed"
    using terminal_run [OF assms(1-3), of es] t0 assms(3) by auto
qed

definition board1 :: board where
  "board1 = SetLease 10 (snd (Add 1 ''a'' ''p'' NewBoard))"

lemma board1_inv: "board_inv board1"
  by (simp add: board_inv_def board1_def SetLease_def Add_def NewBoard_def new_task_def Let_def)

lemmas board_ops_defs = SetLease_def Add_def Claim_def Heartbeat_def Sweep_def Complete_def Fail_def
  NewBoard_def new_task_def claim_task_def requeue_expired_def lease_expired_def Let_def

theorem claim_is_exclusive_witness:
  "(\<exists>n < length [OpSweep 20]. releases ''a''
      (foldl board_step (snd (Claim 2 ''w1'' board1)) (take n [OpSweep 20])) ([OpSweep 20] ! n)) \<and>
   tk_state (the (bd_tasks (snd (Claim 2 ''w1'' board1)) ''a'')) = StateClaimed"
proof (rule claim_is_exclusive)
  show "board_inv (snd (Claim 2 ''w1'' board1))" by (intro Claim_inv board1_inv)
  show "fst (Claim 21 ''w2'' (foldl board_step (snd (Claim 2 ''w1'' board1)) [OpSweep 20])) =
    Some (claim_task 21 ''w2'' 10 (requeue_expired 20
      (claim_task 2 ''w1'' 10 (new_task 1 ''a'' ''p''))))"
    by (simp add: board1_def board_ops_defs)
qed (simp_all add: board1_def board_ops_defs)

text \<open>
  Claims are FIFO: \<^verbatim>\<open>Claim\<close> gives the worker the oldest pending task, marked as claimed by that
  worker with one more attempt, the next lease version and, when leases are on, the expiry
  \<open>now + lease\<close>; no other task changes. It returns nothing exactly when no task is pending.
\<close>

theorem Claim_takes_oldest_pending:
  assumes "board_inv b"
  shows "case Claim now owner b of
      (None, b') \<Rightarrow> b' = b \<and> (\<forall>t \<in> set (List_tasks b). tk_state t \<noteq> StatePending)
    | (Some t', b') \<Rightarrow>
        (\<exists>older t younger.
           List_tasks b = older @ t # younger \<and> List_tasks b' = older @ t' # younger \<and>
           (\<forall>u \<in> set older. tk_state u \<noteq> StatePending) \<and> tk_state t = StatePending \<and>
           t' = t\<lparr>tk_state := StateClaimed, tk_owner := owner, tk_attempts := tk_attempts t + 1,
                 tk_lease_version := tk_lease_version t + 1, tk_updated_at := now,
                 tk_lease_expiry := (if bd_lease b > 0 then now + bd_lease b else tk_lease_expiry t)\<rparr>)"
  using assms
proof (cases rule: Claim_cases [where now = now and owner = owner])
  case empty
  then show ?thesis by (auto simp: List_tasks_def)
next
  case (got ys tid zs t)
  let ?t = "claim_task now owner (bd_lease b) t"
  let ?older = "map (\<lambda>i. the (bd_tasks b i)) ys" and ?younger = "map (\<lambda>i. the (bd_tasks b i)) zs"
  have "tid \<notin> set ys \<union> set zs" using assms got(1) by (simp add: board_inv_def)
  then have "List_tasks (b\<lparr>bd_tasks := (bd_tasks b)(tid \<mapsto> ?t)\<rparr>) = ?older @ ?t # ?younger"
    using got(1) by (auto simp: List_tasks_def)
  moreover have "List_tasks b = ?older @ t # ?younger" using got(1,3) by (simp add: List_tasks_def)
  moreover have "\<forall>u \<in> set ?older. tk_state u \<noteq> StatePending" using got(2) by simp
  ultimately show ?thesis using got(5) unfolding got(6) prod.case option.case
    by (intro exI [of _ ?older] exI [of _ t] exI [of _ ?younger] conjI) (simp_all add: claim_task_def)
qed

theorem Claim_takes_oldest_pending_witness:
  "case Claim 2 ''w1'' board1 of
      (None, b') \<Rightarrow> b' = board1 \<and> (\<forall>t \<in> set (List_tasks board1). tk_state t \<noteq> StatePending)
    | (Some t', b') \<Rightarrow>
        (\<exists>older t younger.
           List_tasks board1 = older @ t # younger \<and> List_tasks b' = older @ t' # younger \<and>
           (\<forall>u \<in> set older. tk_state u \<noteq> StatePending) \<and> tk_state t = StatePending \<and>
           t' = t\<lparr>tk_state := StateClaimed, tk_owner := ''w1'', tk_attempts := tk_attempts t + 1,
                 tk_lease_version := tk_lease_version t + 1, tk_updated_at := 2,
                 tk_lease_expiry := (if bd_lease board1 > 0 then 2 + bd_lease board1
                                     else tk_lease_expiry t)\<rparr>)"
  by (rule Claim_takes_oldest_pending [OF board1_inv])

text \<open>
  Sweeping is exact: \<^verbatim>\<open>Sweep\<close> returns, in FIFO order, the claimed tasks whose non-zero lease lies
  before \<open>now\<close>, each pending again with no owner, no lease and its attempts and lease version kept;
  it leaves every other task, the order and the lease duration alone, and a second sweep at the
  same time finds nothing.
\<close>

theorem Sweep_requeues_exactly_expired:
  assumes "board_inv b" "Sweep now b = (requeued, b')"
  shows "requeued = map (requeue_expired now) (filter (lease_expired now) (List_tasks b)) \<and>
    (\<forall>tid. Get tid b' = map_option (\<lambda>t. if lease_expired now t then requeue_expired now t else t) (Get tid b)) \<and>
    bd_order b' = bd_order b \<and> bd_lease b' = bd_lease b \<and> Sweep now b' = ([], b')"
proof -
  have b': "b' = b\<lparr>bd_tasks := map_option (swept now) \<circ> bd_tasks b\<rparr>"
    using assms by (simp add: Sweep_spec)
  have inv: "board_inv b'" using Sweep_inv [OF assms(1), of now] assms(2) by simp
  have idem: "\<not> lease_expired now (swept now t)" for t
    by (auto simp: swept_def lease_expired_def)
  have "\<not> lease_expired now (the (bd_tasks b' tid))" if "tid \<in> set (bd_order b)" for tid
    using order_lookup [OF assms(1) that] idem by (auto simp: b')
  then have "filter (lease_expired now) (List_tasks b') = []"
    by (simp add: List_tasks_def filter_empty_conv b')
  moreover have "map_option (swept now) \<circ> bd_tasks b' = bd_tasks b'"
    using idem by (auto simp: b' fun_eq_iff option.map_comp comp_def swept_def intro: option.map_cong)
  ultimately have "Sweep now b' = ([], b')" using inv by (simp add: Sweep_spec)
  then show ?thesis using assms by (auto simp: Sweep_spec b' Get_def swept_def [abs_def])
qed

theorem Sweep_requeues_exactly_expired_witness:
  "map tk_id (fst (Sweep 20 (snd (Claim 2 ''w1'' board1)))) = [''a''] \<and>
   bd_order (snd (Sweep 20 (snd (Claim 2 ''w1'' board1)))) = [''a'']"
proof -
  let ?b = "snd (Claim 2 ''w1'' board1)"
  have inv: "board_inv ?b" by (intro Claim_inv board1_inv)
  have "map tk_id (map (requeue_expired 20) (filter (lease_expired 20) (List_tasks ?b))) = [''a'']"
    and "bd_order ?b = [''a'']"
    by (simp_all add: List_tasks_def board1_def board_ops_defs)
  then show ?thesis
    using Sweep_requeues_exactly_expired [OF inv surjective_pairing, of 20] by simp
qed

lemma board_reload:
  assumes inv: "board_inv b"
  shows "Load (Export b) (bd_lease b) = b"
proof -
  have ids: "map tk_id (Export b) = bd_order b"
    using order_lookup [OF inv] by (force simp: Export_def List_tasks_def intro!: map_idI)
  have "map_of (rev (map (\<lambda>t. (tk_id t, t)) (Export b))) = bd_tasks b"
  proof (rule ext)
    fix tid
    have "distinct (map fst (rev (map (\<lambda>t. (tk_id t, t)) (Export b))))"
      using inv ids by (simp add: rev_map [symmetric] comp_def board_inv_def)
    then have lookup: "map_of (rev (map (\<lambda>t. (tk_id t, t)) (Export b))) tid = Some t \<longleftrightarrow>
        t \<in> set (Export b) \<and> tk_id t = tid" for t
      by (subst map_of_eq_Some_iff) auto
    have "t \<in> set (Export b) \<and> tk_id t = tid \<longleftrightarrow> bd_tasks b tid = Some t" for t
    proof
      assume "t \<in> set (Export b) \<and> tk_id t = tid"
      then show "bd_tasks b tid = Some t"
        using order_lookup [OF inv] by (fastforce simp: Export_def List_tasks_def)
    next
      assume t: "bd_tasks b tid = Some t"
      then have "tid \<in> set (bd_order b)" "tk_id t = tid" using inv by (auto simp: board_inv_def)
      with t show "t \<in> set (Export b) \<and> tk_id t = tid"
        by (auto simp: Export_def List_tasks_def intro!: image_eqI [of _ _ tid])
    qed
    then have "map_of (rev (map (\<lambda>t. (tk_id t, t)) (Export b))) tid = Some t \<longleftrightarrow> bd_tasks b tid = Some t" for t
      by (simp only: lookup)
    then show "map_of (rev (map (\<lambda>t. (tk_id t, t)) (Export b))) tid = bd_tasks b tid"
      by (rule option_ext)
  qed
  then show "Load (Export b) (bd_lease b) = b"
    using ids by (intro board.equality) (simp_all add: Load_def load_tasks_fields)
qed

lemma snapshot_reload:
  assumes d: "distinct (map tk_id ts)"
  shows "Export (Load ts lease) = ts"
proof -
  have "map_of (rev (map (\<lambda>t. (tk_id t, t)) ts)) (tk_id t) = Some t" if "t \<in> set ts" for t
    using d that by (intro lookup_map_of_distinct) (auto simp: rev_map [symmetric] comp_def)
  then show "Export (Load ts lease) = ts"
    by (auto simp: Export_def List_tasks_def Load_def load_tasks_fields intro!: map_idI)
qed

text \<open>
  A snapshot round trip loses nothing: loading the exported tasks of a board with its lease
  duration gives back the same board, task by task and in the same FIFO order; and loading any
  snapshot with distinct ids and exporting it returns the snapshot.
\<close>

theorem Load_Export_roundtrip:
  "(board_inv b \<longrightarrow> Load (Export b) (bd_lease b) = b) \<and>
   (distinct (map tk_id ts) \<longrightarrow> Export (Load ts lease) = ts)"
  using board_reload snapshot_reload by blast

theorem Load_Export_roundtrip_witness:
  "Load (Export board1) (bd_lease board1) = board1 \<and> Export (Load [new_task 1 ''a'' ''p''] 7) = [new_task 1 ''a'' ''p'']"
  using Load_Export_roundtrip [of board1] Load_Export_roundtrip [of board1 "[new_task 1 ''a'' ''p'']" 7] board1_inv
  by (simp add: new_task_def)

text \<open>
  Lease versions are never reused: over any run of board operations, if a claim or a heartbeat
  returns a task, every later claim or heartbeat that returns the same task carries a strictly
  larger lease version, whatever sweeps, failures and requeues happen in between.
\<close>

theorem lease_version_strictly_rotates:
  assumes "board_inv b"
    and first: "fst (Claim now w b) = Some t \<and> b1 = snd (Claim now w b) \<or>
       fst (Heartbeat now tid w b) = Inr t \<and> b1 = snd (Heartbeat now tid w b)"
    and second: "fst (Claim now' w' (foldl board_step b1 es)) = Some t' \<or>
       fst (Heartbeat now' (tk_id t) w' (foldl board_step b1 es)) = Inr t'"
    and "tk_id t' = tk_id t"
  shows "tk_lease_version t < tk_lease_version t'"
proof -
  have b1: "board_inv b1" "lease_versions b1 (tk_id t) = tk_lease_version t"
  proof -
    show "board_inv b1" using first assms(1) Claim_inv Heartbeat_inv by auto
    from first show "lease_versions b1 (tk_id t) = tk_lease_version t"
    proof
      assume "fst (Claim now w b) = Some t \<and> b1 = snd (Claim now w b)"
      then show ?thesis
        by (cases rule: Claim_cases [OF assms(1), of now w]) (auto simp: lease_versions_upd)
    next
      assume "fst (Heartbeat now tid w b) = Inr t \<and> b1 = snd (Heartbeat now tid w b)"
      then show ?thesis
        by (auto simp: lease_versions_upd elim: Heartbeat_ok [OF assms(1)])
    qed
  qed
  let ?b2 = "foldl board_step b1 es"
  have inv2: "board_inv ?b2" using b1(1) by (rule board.run_inv)
  have "tk_lease_version t \<le> lease_versions ?b2 (tk_id t)"
    using board.run_level [OF b1(1), of es] b1(2) by (metis le_funD)
  also have "lease_versions ?b2 (tk_id t) < tk_lease_version t'"
    using second
  proof
    assume "fst (Claim now' w' ?b2) = Some t'"
    then show ?thesis using assms(4)
      by (cases rule: Claim_cases [OF inv2, of now' w']) (auto simp: lease_versions_def)
  next
    assume "fst (Heartbeat now' (tk_id t) w' ?b2) = Inr t'"
    then show ?thesis
      by (rule Heartbeat_ok [OF inv2]) (simp add: lease_versions_def)
  qed
  finally show ?thesis .
qed

theorem lease_version_strictly_rotates_witness:
  "tk_lease_version (claim_task 2 ''w1'' 10 (new_task 1 ''a'' ''p'')) <
   tk_lease_version (the (fst (Claim 21 ''w2'' (foldl board_step (snd (Claim 2 ''w1'' board1)) [OpSweep 20]))))"
  by (rule lease_version_strictly_rotates [OF board1_inv, of 2 "''w1''" _ "snd (Claim 2 ''w1'' board1)" "[]"
      21 "''w2''" "[OpSweep 20]"])
    (simp_all add: board1_def board_ops_defs)

text \<open>
  C17. No task is lost with its worker: take a task that is pending, or claimed with a lease that has
  run out, and let the sweeper run once. In every run of operations by any workers from there, with
  more claims than there are older pending tasks and no older task put back into the pool on the
  way, some claim of the run hands the task out. (Without the proviso the claim order can starve a
  task: a requeued task keeps its place ahead of every younger one.)
\<close>

theorem swept_task_is_handed_out:
  assumes "board_inv b" "bd_tasks b tid = Some t" "tk_state t = StatePending \<or> lease_expired now t"
    and "b0 = snd (Sweep now b)"
    and "\<forall>n < length es. \<forall>i \<in> set (older_ids tid b0).
       \<not> releases i (foldl board_step b0 (take n es)) (es ! n)"
    and "older_pending tid b0 < length (filter is_claim es)"
  shows "\<exists>n < length es. hands_out tid (foldl board_step b0 (take n es)) (es ! n)"
proof (rule pending_task_gets_turn)
  show "board_inv b0" using assms(1,4) by (simp add: Sweep_inv)
  show "tid \<in> set (bd_order b0)" using assms(1,2,4) by (auto simp: Sweep_spec board_inv_def)
  show "is_pending b0 tid"
    using assms(1-4) by (auto simp: Sweep_spec is_pending_def swept_def lease_expired_def)
qed (use assms(5,6) in auto)

theorem swept_task_is_handed_out_witness:
  "\<exists>n < length [OpClaim 21 ''w2'']. hands_out ''a''
     (foldl board_step (snd (Sweep 20 (snd (Claim 2 ''w1'' board1)))) (take n [OpClaim 21 ''w2'']))
     ([OpClaim 21 ''w2''] ! n)"
proof (rule swept_task_is_handed_out)
  show "board_inv (snd (Claim 2 ''w1'' board1))" by (intro Claim_inv board1_inv)
  show "tk_state (claim_task 2 ''w1'' 10 (new_task 1 ''a'' ''p'')) = StatePending \<or>
      lease_expired 20 (claim_task 2 ''w1'' 10 (new_task 1 ''a'' ''p''))"
    by (simp add: board_ops_defs)
qed (simp_all add: board1_def board_ops_defs older_pending_def older_ids_def)

end
