(* ===== verification/Lease_Token.thy ===== *)
theory Lease_Token
  imports Go_Strings Fleet_Board
begin

text \<open>
  Signed task leases of the cohort API (\<^verbatim>\<open>internal/controlplane/leasetoken.go\<close>). A lease token is
  \<open>body.sig\<close>, where \<open>body\<close> is the base64url form of the JSON claims and \<open>sig\<close> that of their
  HMAC-SHA256. HMAC, base64url and the JSON form of the claims are the fields of \<open>tokprims\<close>; what
  the control plane relies on about them is \<open>tokprims_ok\<close>.

  \<^verbatim>\<open>loadOrCreateLeaseKey\<close> reads the key file of the state directory, or creates it with 32 random
  bytes. Its model takes the outcome of the file operations and the random bytes as arguments.
\<close>

section \<open>The lease key\<close>

datatype key_error =
    KeyNoStateDir | KeyPermissions | KeyLength | KeyRead | KeyMkdir | KeyRandom | KeyCreate
  | KeyWrite | KeySync | KeyClose

text \<open>What reading the key file gives: the file is absent, unreadable, or has contents and
  permission bits (\<^verbatim>\<open>None\<close> when they cannot be read or the system is Windows).\<close>

datatype key_read = KeyAbsent | KeyUnreadable | KeyBytes string "nat option"

definition group_or_world :: "nat \<Rightarrow> bool" where
  "group_or_world perm \<longleftrightarrow> perm mod 64 \<noteq> 0"

definition check_key :: "key_read \<Rightarrow> (key_error, string) result option" where
  "check_key kr =
     (case kr of
        KeyBytes key perm \<Rightarrow>
          Some (if (case perm of None \<Rightarrow> False | Some p \<Rightarrow> group_or_world p) then Inl KeyPermissions
                else if length key \<noteq> 32 then Inl KeyLength else Inr key)
      | KeyUnreadable \<Rightarrow> Some (Inl KeyRead)
      | KeyAbsent \<Rightarrow> None)"

text \<open>The recursive call after losing the race for the exclusive creation reads the file again; each
  element of \<open>tries\<close> is one round: what the read gives, and how far the creation gets.\<close>

datatype key_create = CreateMkdirFails | CreateRandFails | CreateExists | CreateFails
  | CreateWriteFails | CreateSyncFails | CreateCloseFails | CreateOk string

fun loadOrCreateLeaseKey :: "string \<Rightarrow> (key_read \<times> key_create) list \<Rightarrow> (key_error, string) result option" where
  "loadOrCreateLeaseKey stateDir [] = None"
| "loadOrCreateLeaseKey stateDir ((kr, kc) # tries) =
     (if stateDir = [] then Some (Inl KeyNoStateDir)
      else (case check_key kr of
              Some r \<Rightarrow> Some r
            | None \<Rightarrow>
                (case kc of
                   CreateMkdirFails \<Rightarrow> Some (Inl KeyMkdir)
                 | CreateRandFails \<Rightarrow> Some (Inl KeyRandom)
                 | CreateExists \<Rightarrow> loadOrCreateLeaseKey stateDir tries
                 | CreateFails \<Rightarrow> Some (Inl KeyCreate)
                 | CreateWriteFails \<Rightarrow> Some (Inl KeyWrite)
                 | CreateSyncFails \<Rightarrow> Some (Inl KeySync)
                 | CreateCloseFails \<Rightarrow> Some (Inl KeyClose)
                 | CreateOk key \<Rightarrow> Some (Inr key))))"

section \<open>Tokens\<close>

record lease_claims =
  lc_version :: int
  lc_cohort :: string
  lc_task :: string
  lc_actor :: string
  lc_expires :: int
  lc_lease :: int
  lc_nonce :: string

record tokprims =
  hmac256 :: "string \<Rightarrow> string \<Rightarrow> string"
  b64url_encode :: "string \<Rightarrow> string"
  b64url_decode :: "string \<Rightarrow> string option"
  claims_encode :: "lease_claims \<Rightarrow> string"
  claims_decode :: "string \<Rightarrow> lease_claims option"

definition day :: duration where
  "day = 24 * 3600 * 1000000000"

definition lease_claims_for :: "tokprims \<Rightarrow> gotime \<Rightarrow> string \<Rightarrow> string \<Rightarrow> task \<Rightarrow> lease_claims" where
  "lease_claims_for T now nonceBytes cohortID t =
     \<lparr>lc_version = 1, lc_cohort = cohortID, lc_task = tk_id t, lc_actor = tk_owner t,
      lc_expires = unix_secs (if is_zero_time (tk_lease_expiry t) then now + day else tk_lease_expiry t),
      lc_lease = tk_lease_version t, lc_nonce = b64url_encode T nonceBytes\<rparr>"

text \<open>\<open>nonceBytes\<close> is what \<^verbatim>\<open>rand.Read\<close> returned, \<^verbatim>\<open>None\<close> when it failed.\<close>

definition issueTaskLease ::
  "tokprims \<Rightarrow> string \<Rightarrow> gotime \<Rightarrow> string option \<Rightarrow> string \<Rightarrow> task \<Rightarrow> string option" where
  "issueTaskLease T key now nonceBytes cohortID t =
     (case nonceBytes of
        None \<Rightarrow> None
      | Some nb \<Rightarrow>
          (let body = b64url_encode T (claims_encode T (lease_claims_for T now nb cohortID t));
               sig = b64url_encode T (hmac256 T key body)
           in Some (body @ ''.'' @ sig)))"

definition verifyTaskLease ::
  "tokprims \<Rightarrow> string \<Rightarrow> gotime \<Rightarrow> string \<Rightarrow> string \<Rightarrow> string \<Rightarrow> string \<Rightarrow> int \<Rightarrow> bool" where
  "verifyTaskLease T key now token cohortID taskID actor leaseVersion =
     (case split_byte (CHR ''.'') token of
        [body, sig64] \<Rightarrow>
          body \<noteq> [] \<and> sig64 \<noteq> [] \<and>
          (case b64url_decode T sig64 of
             None \<Rightarrow> False
           | Some sig \<Rightarrow>
               sig = hmac256 T key body \<and>
               (case b64url_decode T body of
                  None \<Rightarrow> False
                | Some payload \<Rightarrow>
                    (case claims_decode T payload of
                       None \<Rightarrow> False
                     | Some c \<Rightarrow>
                         lc_version c = 1 \<and> lc_cohort c = cohortID \<and> lc_task c = taskID \<and>
                         lc_actor c = actor \<and> lc_lease c = leaseVersion \<and> lc_nonce c \<noteq> [] \<and>
                         unix_secs now < lc_expires c)))
      | _ \<Rightarrow> False)"

section \<open>What the control plane relies on\<close>

text \<open>The documented behaviour of \<^verbatim>\<open>RawURLEncoding\<close> (decoding inverts encoding, the alphabet has no dot,
  only the empty input has an empty encoding) and that a SHA-256 HMAC is not empty; and, for given
  claims, that their JSON form decodes to them, which \<^verbatim>\<open>encoding/json\<close> promises when the strings are
  valid UTF-8.\<close>

definition tokprims_ok :: "tokprims \<Rightarrow> bool" where
  "tokprims_ok T \<longleftrightarrow>
     (\<forall>s. b64url_decode T (b64url_encode T s) = Some s \<and> CHR ''.'' \<notin> set (b64url_encode T s) \<and>
          (s \<noteq> [] \<longrightarrow> b64url_encode T s \<noteq> [])) \<and>
     (\<forall>k s. hmac256 T k s \<noteq> [])"

definition claims_json_ok :: "tokprims \<Rightarrow> lease_claims \<Rightarrow> bool" where
  "claims_json_ok T c \<longleftrightarrow> claims_decode T (claims_encode T c) = Some c \<and> claims_encode T c \<noteq> []"

lemma issued_form:
  assumes "tokprims_ok T" "claims_json_ok T (lease_claims_for T now nb cohortID t)"
    and "issueTaskLease T key now (Some nb) cohortID t = Some token"
  obtains body sig64 where "split_byte (CHR ''.'') token = [body, sig64]"
    "body \<noteq> []" "sig64 \<noteq> []" "b64url_decode T sig64 = Some (hmac256 T key body)"
    "b64url_decode T body = Some (claims_encode T (lease_claims_for T now nb cohortID t))"
proof -
  let ?body = "b64url_encode T (claims_encode T (lease_claims_for T now nb cohortID t))"
  let ?sig = "b64url_encode T (hmac256 T key ?body)"
  have "token = ?body @ CHR ''.'' # ?sig" using assms(3) by (simp add: issueTaskLease_def Let_def)
  moreover have "CHR ''.'' \<notin> set ?body" "CHR ''.'' \<notin> set ?sig" "?body \<noteq> []" "?sig \<noteq> []"
    using assms(1,2) by (auto simp: tokprims_ok_def claims_json_ok_def)
  ultimately show thesis
    using assms(1) by (intro that [of ?body ?sig])
      (auto simp: tokprims_ok_def split_byte_append split_byte_no_sep)
qed

text \<open>A token is accepted exactly for the cohort, task, worker and lease version it was issued for,
  before its expiry.\<close>

lemma verify_issued:
  assumes "tokprims_ok T" "claims_json_ok T (lease_claims_for T now0 nb cohortID t)" "nb \<noteq> []"
    and "issueTaskLease T key now0 (Some nb) cohortID t = Some token"
  shows "verifyTaskLease T key now token c tid actor v \<longleftrightarrow>
    c = cohortID \<and> tid = tk_id t \<and> actor = tk_owner t \<and> v = tk_lease_version t \<and>
    unix_secs now < lc_expires (lease_claims_for T now0 nb cohortID t)"
proof -
  obtain body sig64 where f: "split_byte (CHR ''.'') token = [body, sig64]" "body \<noteq> []" "sig64 \<noteq> []"
      "b64url_decode T sig64 = Some (hmac256 T key body)"
      "b64url_decode T body = Some (claims_encode T (lease_claims_for T now0 nb cohortID t))"
    using assms(1,2,4) by (rule issued_form)
  have "lc_nonce (lease_claims_for T now0 nb cohortID t) \<noteq> []"
    using assms(1,3) by (simp add: lease_claims_for_def tokprims_ok_def)
  then show ?thesis
    using f assms(2) by (auto simp: verifyTaskLease_def claims_json_ok_def lease_claims_for_def)
qed

text \<open>What an accepted token is, whoever made it: two non-empty parts, the second of which encodes the
  HMAC of the first under the control plane's key.\<close>

lemma verify_needs_mac:
  assumes "verifyTaskLease T key now token c tid actor v"
  obtains body sig64 payload claims where
    "split_byte (CHR ''.'') token = [body, sig64]" "b64url_decode T sig64 = Some (hmac256 T key body)"
    "b64url_decode T body = Some payload" "claims_decode T payload = Some claims"
    "lc_cohort claims = c" "lc_task claims = tid" "lc_actor claims = actor" "lc_lease claims = v"
    "unix_secs now < lc_expires claims"
  using assms unfolding verifyTaskLease_def
  by (auto split: list.splits option.splits)

section \<open>Properties\<close>

text \<open>
  A lease token opens exactly one door: a token issued for a task of a cohort is accepted for that
  cohort, task, worker and lease version while its expiry (the lease expiry, or one day after the
  issue when the board has no leases) lies in the future by the second, and for no other cohort,
  task, worker, lease version or later time.
\<close>

theorem lease_token_roundtrip:
  assumes "tokprims_ok T" "claims_json_ok T (lease_claims_for T now0 nb cohortID t)" "nb \<noteq> []"
    and "issueTaskLease T key now0 (Some nb) cohortID t = Some token"
  shows "verifyTaskLease T key now token c tid actor v \<longleftrightarrow>
    c = cohortID \<and> tid = tk_id t \<and> actor = tk_owner t \<and> v = tk_lease_version t \<and>
    unix_secs now < unix_secs (if tk_lease_expiry t = 0 then now0 + day else tk_lease_expiry t)"
  using verify_issued [OF assms] by (simp add: lease_claims_for_def)

text \<open>A concrete instance of the primitives: hexadecimal in place of base64url, a two-part JSON form.\<close>

definition hex1 :: "char \<Rightarrow> string" where
  "hex1 c = [char_of (97 + of_char c div 16 :: nat), char_of (97 + of_char c mod 16 :: nat)]"

fun unhex :: "string \<Rightarrow> string option" where
  "unhex [] = Some []"
| "unhex (a # b # s) = map_option (\<lambda>r. char_of ((of_char a - 97) * 16 + (of_char b - 97) :: nat) # r) (unhex s)"
| "unhex [a] = None"

lemma of_char_div: "(of_char c :: nat) div 16 < 16"
  by (rule less_mult_imp_div_less) simp

lemma unhex_hex: "unhex (concat (map hex1 s)) = Some s"
proof (induction s)
  case Nil
  then show ?case by simp
next
  case (Cons c s)
  have "(of_char c :: nat) div 16 < 159" using of_char_div [of c] by linarith
  then show ?case using Cons by (simp add: hex1_def)
qed

lemma hex_no_dot: "CHR ''.'' \<notin> set (concat (map hex1 s))"
proof -
  have "CHR ''.'' \<noteq> (char_of (97 + n) :: char)" if "n < 16" for n :: nat
  proof
    assume "CHR ''.'' = (char_of (97 + n) :: char)"
    then have "(of_char (CHR ''.'') :: nat) = of_char (char_of (97 + n) :: char)" by simp
    then show False using that by simp
  qed
  then show ?thesis using of_char_div by (auto simp: hex1_def)
qed

definition tok1 :: "lease_claims \<Rightarrow> tokprims" where
  "tok1 c = \<lparr>hmac256 = (\<lambda>k s. k @ ''m''), b64url_encode = (\<lambda>s. concat (map hex1 s)), b64url_decode = unhex,
     claims_encode = (\<lambda>_. ''j''), claims_decode = (\<lambda>_. Some c)\<rparr>"

definition lease1 :: lease_claims where
  "lease1 = \<lparr>lc_version = 1, lc_cohort = ''f'', lc_task = ''a'', lc_actor = ''w1'', lc_expires = unix_secs (6 + 10000000000),
     lc_lease = 1, lc_nonce = concat (map hex1 ''n'')\<rparr>"

lemma tok1_ok: "tokprims_ok (tok1 c)"
  unfolding tokprims_ok_def tok1_def using unhex_hex hex_no_dot by (auto simp: hex1_def)

definition claimed1 :: task where
  "claimed1 = claim_task 6 ''w1'' 10000000000 (new_task 5 ''a'' ''p'')"

lemma claimed1_json: "claims_json_ok (tok1 lease1) (lease_claims_for (tok1 lease1) 6 ''n'' ''f'' claimed1)"
proof -
  have "lease_claims_for (tok1 lease1) 6 ''n'' ''f'' claimed1 = lease1"
    by (simp add: lease_claims_for_def lease1_def tok1_def claimed1_def claim_task_def new_task_def)
  then show ?thesis by (simp add: claims_json_ok_def tok1_def)
qed

theorem lease_token_roundtrip_witness:
  "\<exists>token. issueTaskLease (tok1 lease1) ''k'' 6 (Some ''n'') ''f'' claimed1 = Some token \<and>
     \<not> verifyTaskLease (tok1 lease1) ''k'' 6 token ''f'' ''a'' ''w1'' 2"
proof -
  obtain token where tk: "issueTaskLease (tok1 lease1) ''k'' 6 (Some ''n'') ''f'' claimed1 = Some token"
    by (simp add: issueTaskLease_def Let_def)
  have "\<not> verifyTaskLease (tok1 lease1) ''k'' 6 token ''f'' ''a'' ''w1'' 2"
    using lease_token_roundtrip [OF tok1_ok claimed1_json _ tk] by (simp add: claimed1_def claim_task_def new_task_def)
  with tk show ?thesis by blast
qed

end
