(* ===== verification/Fleet_Control.thy ===== *)
theory Fleet_Control
  imports Lease_Token State_File Ledger_Encoding Policy_Engine "HOL-Library.AList"
begin

text \<open>
  The cohort operations of the control plane (\<^verbatim>\<open>internal/controlplane/fleet.go\<close> and
  \<^verbatim>\<open>fleetstore.go\<close>): fleets of sandboxes that share a task board, with every board update persisted
  to \<^verbatim>\<open>fleets.json\<close> before it is acknowledged and rolled back when the write fails.

  The manager's fields used here are the record \<open>fleetctl\<close>. The Go map \<^verbatim>\<open>m.fleets\<close> is an association
  list; its order stands for Go's unspecified iteration order and no statement depends on it. The
  mutex \<^verbatim>\<open>fleetOpMu\<close> makes each exported operation one step. The JSON form of the file is
  the record \<open>fleet_codec\<close> (\<open>fj_encode\<close> is \<^verbatim>\<open>None\<close> where marshalling fails), and each write takes a \<open>state_io\<close>.
\<close>

section \<open>Data\<close>

record fleet =
  fl_id :: string
  fl_profile :: string
  fl_owner :: string
  fl_board :: board
  fl_sandboxes :: "string list"
  fl_created :: gotime
  fl_restored :: bool

record fleet_view =
  fv_id :: string
  fv_profile :: string
  fv_owner :: string
  fv_sandboxes :: "string list"
  fv_stats :: stats
  fv_created :: gotime

record persisted_fleet =
  pf_id :: string
  pf_profile :: string
  pf_owner :: string
  pf_sandboxes :: "string list"
  pf_created :: gotime
  pf_tasks :: "task list"

record fleet_codec =
  fj_encode :: "persisted_fleet list \<Rightarrow> string option"
  fj_decode :: "string \<Rightarrow> persisted_fleet list option"

record fleetctl =
  fc_fleets :: "(string \<times> fleet) list"
  fc_state_dir :: string
  fc_files :: files
  fc_lease_key :: string
  fc_fleet_lease :: duration

datatype fleet_error =
    FleetNotFound
  | FleetBoard board_error
  | ErrInvalidLease
  | FleetSign
  | FleetPersist
  | FleetDecode
  | FleetProvision nat
  | FleetProfile

definition view :: "fleet \<Rightarrow> fleet_view" where
  "view f = \<lparr>fv_id = fl_id f, fv_profile = fl_profile f, fv_owner = fl_owner f,
     fv_sandboxes = fl_sandboxes f, fv_stats = Stats (fl_board f), fv_created = fl_created f\<rparr>"

definition fleet_of :: "string \<Rightarrow> fleetctl \<Rightarrow> fleet option" where
  "fleet_of fid m = map_of (fc_fleets m) fid"

text \<open>A fleet is shared by pointer: an update of its board is an update of the entry in the map.\<close>

definition put_board :: "string \<Rightarrow> fleet \<Rightarrow> board \<Rightarrow> fleetctl \<Rightarrow> fleetctl" where
  "put_board fid f b m = m\<lparr>fc_fleets := AList.update fid (f\<lparr>fl_board := b\<rparr>) (fc_fleets m)\<rparr>"

section \<open>Persistence\<close>

definition fleetsFileName :: string where
  "fleetsFileName = ''fleets.json''"

definition persist_fleet :: "fleet \<Rightarrow> persisted_fleet" where
  "persist_fleet f = \<lparr>pf_id = fl_id f, pf_profile = fl_profile f, pf_owner = fl_owner f,
     pf_sandboxes = fl_sandboxes f, pf_created = fl_created f, pf_tasks = Export (fl_board f)\<rparr>"

definition saveFleets :: "fleet_codec \<Rightarrow> state_io \<Rightarrow> fleetctl \<Rightarrow> bool \<times> fleetctl" where
  "saveFleets J io m =
     (if fc_state_dir m = [] then (True, m)
      else (case fj_encode J (map (persist_fleet \<circ> snd) (fc_fleets m)) of
              None \<Rightarrow> (False, m)
            | Some data \<Rightarrow>
                (let (err, _, fs) = writeStateFile io (fc_state_dir m) fleetsFileName data (fc_files m)
                 in (err = None, m\<lparr>fc_files := fs\<rparr>))))"

definition migrate_task :: "gotime \<Rightarrow> task \<Rightarrow> task \<times> bool" where
  "migrate_task now t =
     (if tk_state t = StateClaimed \<and> tk_lease_version t = 0 then
        (t\<lparr>tk_state := StatePending, tk_owner := [], tk_lease_expiry := 0,
           tk_error := ''legacy unsigned lease requeued during v1 upgrade'', tk_updated_at := now\<rparr>, True)
      else (t, False))"

definition restore_fleet :: "gotime \<Rightarrow> duration \<Rightarrow> persisted_fleet \<Rightarrow> fleet \<times> bool" where
  "restore_fleet now lease pf =
     (let ms = map (migrate_task now) (pf_tasks pf) in
      (\<lparr>fl_id = pf_id pf, fl_profile = pf_profile pf, fl_owner = pf_owner pf,
        fl_board = Load (map fst ms) lease, fl_sandboxes = pf_sandboxes pf,
        fl_created = pf_created pf, fl_restored = True\<rparr>,
       list_ex snd ms))"

fun load_loop :: "gotime \<Rightarrow> persisted_fleet list \<Rightarrow> bool \<Rightarrow> fleetctl \<Rightarrow> bool \<times> fleetctl" where
  "load_loop now [] migrated m = (migrated, m)"
| "load_loop now (pf # pfs) migrated m =
     (let (f, mig) = restore_fleet now (fc_fleet_lease m) pf in
      load_loop now pfs (migrated \<or> mig) (m\<lparr>fc_fleets := AList.update (pf_id pf) f (fc_fleets m)\<rparr>))"

text \<open>An unreadable file other than a missing one is the argument \<open>readable = False\<close>.\<close>

definition loadFleets :: "fleet_codec \<Rightarrow> bool \<Rightarrow> gotime \<Rightarrow> state_io \<Rightarrow> fleetctl \<Rightarrow> fleet_error option \<times> fleetctl" where
  "loadFleets J readable now io m =
     (if fc_state_dir m = [] then (None, m)
      else (case fc_files m fleetsFileName of
              None \<Rightarrow> (None, m)
            | Some bytes \<Rightarrow>
                if \<not> readable then (Some FleetPersist, m)
                else (case fj_decode J bytes of
                        None \<Rightarrow> (Some FleetDecode, m)
                      | Some pfs \<Rightarrow>
                          (let (migrated, m1) = load_loop now pfs False m in
                           if migrated then
                             (let (ok, m2) = saveFleets J io m1 in
                              (if ok then None else Some FleetPersist, m2))
                           else (None, m1)))))"

section \<open>Tasks\<close>

definition AddTask ::
  "fleet_codec \<Rightarrow> state_io \<Rightarrow> gotime \<Rightarrow> string \<Rightarrow> string \<Rightarrow> string \<Rightarrow> fleetctl \<Rightarrow> (fleet_error, task) result \<times> fleetctl" where
  "AddTask J io now tid fleetID payload m =
     (case fleet_of fleetID m of
        None \<Rightarrow> (Inl FleetNotFound, m)
      | Some f \<Rightarrow>
          (let (t, b1) = Add now tid payload (fl_board f);
               (ok, m1) = saveFleets J io (put_board fleetID f b1 m)
           in if ok then (Inr t, m1)
              else (Inl FleetPersist, put_board fleetID f (snd (Remove (tk_id t) b1)) m1)))"

definition ClaimTask ::
  "fleet_codec \<Rightarrow> tokprims \<Rightarrow> state_io \<Rightarrow> gotime \<Rightarrow> string option \<Rightarrow> string \<Rightarrow> string \<Rightarrow> fleetctl \<Rightarrow>
   (fleet_error, task option) result \<times> fleetctl" where
  "ClaimTask J T io now nonce fleetID owner m =
     (case fleet_of fleetID m of
        None \<Rightarrow> (Inl FleetNotFound, m)
      | Some f \<Rightarrow>
          (case Claim now owner (fl_board f) of
             (None, b1) \<Rightarrow> (Inr None, put_board fleetID f b1 m)
           | (Some t, b1) \<Rightarrow>
               (case issueTaskLease T (fc_lease_key m) now nonce fleetID t of
                  None \<Rightarrow> (Inl FleetSign,
                    put_board fleetID f (snd (Fail now (tk_id t) owner ''lease signing failed'' True b1)) m)
                | Some token \<Rightarrow>
                    (let (ok, m1) = saveFleets J io (put_board fleetID f b1 m) in
                     if ok then (Inr (Some (t\<lparr>tk_lease_token := token\<rparr>)), m1)
                     else (Inl FleetPersist,
                       put_board fleetID f (snd (Fail now (tk_id t) owner ''persistence failed'' True b1)) m1)))))"

definition HeartbeatTask ::
  "fleet_codec \<Rightarrow> tokprims \<Rightarrow> state_io \<Rightarrow> gotime \<Rightarrow> string option \<Rightarrow> string \<Rightarrow> string \<Rightarrow> string \<Rightarrow> string \<Rightarrow> fleetctl \<Rightarrow>
   (fleet_error, task) result \<times> fleetctl" where
  "HeartbeatTask J T io now nonce fleetID taskID owner token m =
     (case fleet_of fleetID m of
        None \<Rightarrow> (Inl FleetNotFound, m)
      | Some f \<Rightarrow>
          (case Get taskID (fl_board f) of
             None \<Rightarrow> (Inl (FleetBoard ErrNotFound), m)
           | Some current \<Rightarrow>
               if \<not> verifyTaskLease T (fc_lease_key m) now token fleetID taskID owner (tk_lease_version current)
               then (Inl ErrInvalidLease, m)
               else
                 (case Heartbeat now taskID owner (fl_board f) of
                    (Inl e, b1) \<Rightarrow> (Inl (FleetBoard e), put_board fleetID f b1 m)
                  | (Inr t, b1) \<Rightarrow>
                      (case issueTaskLease T (fc_lease_key m) now nonce fleetID t of
                         None \<Rightarrow> (Inl FleetSign, put_board fleetID f (snd (Restore current b1)) m)
                       | Some token' \<Rightarrow>
                           (let (ok, m1) = saveFleets J io (put_board fleetID f b1 m) in
                            if ok then (Inr (t\<lparr>tk_lease_token := token'\<rparr>), m1)
                            else (Inl FleetPersist, put_board fleetID f (snd (Restore current b1)) m1))))))"

definition CompleteTask ::
  "fleet_codec \<Rightarrow> tokprims \<Rightarrow> state_io \<Rightarrow> gotime \<Rightarrow> string \<Rightarrow> string \<Rightarrow> string \<Rightarrow> string \<Rightarrow> string \<Rightarrow> fleetctl \<Rightarrow>
   fleet_error option \<times> fleetctl" where
  "CompleteTask J T io now fleetID taskID owner token res m =
     (case fleet_of fleetID m of
        None \<Rightarrow> (Some FleetNotFound, m)
      | Some f \<Rightarrow>
          (case Get taskID (fl_board f) of
             None \<Rightarrow> (Some (FleetBoard ErrNotFound), m)
           | Some current \<Rightarrow>
               if \<not> verifyTaskLease T (fc_lease_key m) now token fleetID taskID owner (tk_lease_version current)
               then (Some ErrInvalidLease, m)
               else
                 (case Complete now taskID owner res (fl_board f) of
                    (Some e, b1) \<Rightarrow> (Some (FleetBoard e), put_board fleetID f b1 m)
                  | (None, b1) \<Rightarrow>
                      (let (ok, m1) = saveFleets J io (put_board fleetID f b1 m) in
                       if ok then (None, m1)
                       else (Some FleetPersist, put_board fleetID f (snd (Restore current b1)) m1)))))"

definition FailTask ::
  "fleet_codec \<Rightarrow> tokprims \<Rightarrow> state_io \<Rightarrow> gotime \<Rightarrow> string \<Rightarrow> string \<Rightarrow> string \<Rightarrow> string \<Rightarrow> string \<Rightarrow> bool \<Rightarrow> fleetctl \<Rightarrow>
   fleet_error option \<times> fleetctl" where
  "FailTask J T io now fleetID taskID owner token errMsg requeue m =
     (case fleet_of fleetID m of
        None \<Rightarrow> (Some FleetNotFound, m)
      | Some f \<Rightarrow>
          (case Get taskID (fl_board f) of
             None \<Rightarrow> (Some (FleetBoard ErrNotFound), m)
           | Some current \<Rightarrow>
               if \<not> verifyTaskLease T (fc_lease_key m) now token fleetID taskID owner (tk_lease_version current)
               then (Some ErrInvalidLease, m)
               else
                 (case Fail now taskID owner errMsg requeue (fl_board f) of
                    (Some e, b1) \<Rightarrow> (Some (FleetBoard e), put_board fleetID f b1 m)
                  | (None, b1) \<Rightarrow>
                      (let (ok, m1) = saveFleets J io (put_board fleetID f b1 m) in
                       if ok then (None, m1)
                       else (Some FleetPersist, put_board fleetID f (snd (Restore current b1)) m1)))))"

definition ListTasks :: "string \<Rightarrow> fleetctl \<Rightarrow> (fleet_error, task list) result" where
  "ListTasks fleetID m =
     (case fleet_of fleetID m of None \<Rightarrow> Inl FleetNotFound | Some f \<Rightarrow> Inr (List_tasks (fl_board f)))"

section \<open>Fleets\<close>

text \<open>
  \<open>cfg\<close> is the \<^verbatim>\<open>[cohort]\<close> table of the loaded profile, if it has one: replicas and seed tasks. The
  outcome of each \<^verbatim>\<open>CreateSandbox\<close> call is an element of \<open>sbs\<close>: the new sandbox id, or \<^verbatim>\<open>None\<close> for an
  error. The first component of the result lists the sandboxes handed to \<^verbatim>\<open>KillSandbox\<close>.
\<close>

fun provision :: "nat \<Rightarrow> string option list \<Rightarrow> string list \<Rightarrow> string list \<times> bool" where
  "provision (Suc n) (Some sb # sbs) acc = provision n sbs (acc @ [sb])"
| "provision 0 _ acc = (acc, True)"
| "provision (Suc n) _ acc = (acc, False)"

definition CreateFleetForIdentity ::
  "fleet_codec \<Rightarrow> state_io \<Rightarrow> gotime \<Rightarrow> string \<Rightarrow> (gotime \<times> string) list \<Rightarrow> string option list \<Rightarrow>
   (int \<times> string list) option option \<Rightarrow> string \<Rightarrow> string \<Rightarrow> fleetctl \<Rightarrow>
   string list \<times> (fleet_error, fleet_view) result \<times> fleetctl" where
  "CreateFleetForIdentity J io now fid ids sbs loaded profileName owner m =
     (case loaded of
        None \<Rightarrow> ([], Inl FleetProfile, m)
      | Some cfg \<Rightarrow>
          (let replicas = (case cfg of Some (r, _) \<Rightarrow> if r > 0 then nat r else 1 | None \<Rightarrow> 1);
               seed = (case cfg of Some (_, ps) \<Rightarrow> ps | None \<Rightarrow> []);
               brd = SetLease (fc_fleet_lease m) (Seed ids seed);
               (created, ok) = provision replicas sbs []
           in if \<not> ok then (created, Inl (FleetProvision (length created + 1)), m)
              else
                (let f = \<lparr>fl_id = fid, fl_profile = profileName, fl_owner = owner, fl_board = brd,
                          fl_sandboxes = created, fl_created = now, fl_restored = False\<rparr>;
                     (saved, m1) = saveFleets J io (m\<lparr>fc_fleets := AList.update fid f (fc_fleets m)\<rparr>)
                 in if saved then ([], Inr (view f), m1)
                    else (created, Inl FleetPersist,
                          m1\<lparr>fc_fleets := AList.delete fid (fc_fleets m1)\<rparr>))))"

definition ListFleets :: "fleetctl \<Rightarrow> fleet_view list" where
  "ListFleets m = map (view \<circ> snd) (fc_fleets m)"

definition FleetView :: "string \<Rightarrow> fleetctl \<Rightarrow> fleet_view option" where
  "FleetView fid m = map_option view (fleet_of fid m)"

definition FleetOwner :: "string \<Rightarrow> fleetctl \<Rightarrow> string option" where
  "FleetOwner fid m = map_option fl_owner (fleet_of fid m)"

definition KillFleet ::
  "fleet_codec \<Rightarrow> state_io \<Rightarrow> string \<Rightarrow> fleetctl \<Rightarrow> string list \<times> fleet_error option \<times> fleetctl" where
  "KillFleet J io fid m =
     (case fleet_of fid m of
        None \<Rightarrow> ([], Some FleetNotFound, m)
      | Some f \<Rightarrow>
          (let (saved, m1) = saveFleets J io (m\<lparr>fc_fleets := AList.delete fid (fc_fleets m)\<rparr>) in
           if saved then (fl_sandboxes f, None, m1)
           else ([], Some FleetPersist, m1\<lparr>fc_fleets := AList.update fid f (fc_fleets m1)\<rparr>)))"

section \<open>The sweeper\<close>

definition recordFleet :: "fleet \<Rightarrow> string \<Rightarrow> string \<Rightarrow> string \<Rightarrow> event" where
  "recordFleet f act taskID reason =
     zero_event\<lparr>ev_session := ''fleet:'' @ fl_id f, ev_profile := fl_profile f, ev_tool := ''fleet'',
       ev_action := act, ev_verdict := VerdictAllow,
       ev_args := (if taskID \<noteq> [] then [taskID] else []),
       ev_meta := (if reason \<noteq> [] then [(''reason'', reason)] else [])\<rparr>"

definition requeue_event :: "fleet \<Rightarrow> task \<Rightarrow> event" where
  "requeue_event f t =
     recordFleet f ''task.requeue'' (tk_id t) (''lease expired (worker '' @ tk_owner t @ '')'')"

fun sweep_fleets :: "gotime \<Rightarrow> (string \<times> fleet) list \<Rightarrow> event list \<times> (string \<times> fleet) list" where
  "sweep_fleets now [] = ([], [])"
| "sweep_fleets now ((fid, f) # fs) =
     (let (requeued, b') = Sweep now (fl_board f);
          (evs, fs') = sweep_fleets now fs
      in (map (requeue_event f) requeued @ evs, (fid, f\<lparr>fl_board := b'\<rparr>) # fs'))"

text \<open>The events are the ones handed to \<^verbatim>\<open>appendAudit\<close>; a failed write is only logged.\<close>

definition sweepOnce :: "fleet_codec \<Rightarrow> state_io \<Rightarrow> gotime \<Rightarrow> fleetctl \<Rightarrow> event list \<times> fleetctl" where
  "sweepOnce J io now m =
     (let (evs, fs) = sweep_fleets now (fc_fleets m);
          m1 = m\<lparr>fc_fleets := fs\<rparr>
      in (evs, if evs \<noteq> [] then snd (saveFleets J io m1) else m1))"

section \<open>Invariant\<close>

text \<open>Boards are well formed, fleets are filed under their own ids, the board never stores a lease
  token, a claimed task has a positive lease version, and the board's lease is the manager's.\<close>

definition task_clean :: "task \<Rightarrow> bool" where
  "task_clean t \<longleftrightarrow> tk_lease_token t = [] \<and> 0 \<le> tk_lease_version t \<and>
     (tk_state t = StateClaimed \<longrightarrow> 0 < tk_lease_version t)"

definition board_clean :: "board \<Rightarrow> bool" where
  "board_clean b \<longleftrightarrow> (\<forall>t \<in> ran (bd_tasks b). task_clean t)"

definition fleet_ok :: "duration \<Rightarrow> string \<times> fleet \<Rightarrow> bool" where
  "fleet_ok lease p \<longleftrightarrow> fl_id (snd p) = fst p \<and> board_inv (fl_board (snd p)) \<and>
     board_clean (fl_board (snd p)) \<and> bd_lease (fl_board (snd p)) = lease"

definition fleetctl_inv :: "fleetctl \<Rightarrow> bool" where
  "fleetctl_inv m \<longleftrightarrow> distinct (map fst (fc_fleets m)) \<and> list_all (fleet_ok (fc_fleet_lease m)) (fc_fleets m)"

lemma fleetctl_inv_lookup:
  "fleetctl_inv m \<Longrightarrow> fleet_of fid m = Some f \<Longrightarrow> fleet_ok (fc_fleet_lease m) (fid, f)"
  by (auto simp: fleetctl_inv_def fleet_of_def list_all_iff dest: map_of_SomeD)

lemma AList_update_all:
  "list_all P xs \<Longrightarrow> P (k, v) \<Longrightarrow> list_all P (AList.update k v xs)"
  by (induction xs) auto

lemma AList_update_same: "map_of xs k = Some v \<Longrightarrow> AList.update k v xs = xs"
  by (induction xs) auto

lemma AList_update_new: "k \<notin> fst ` set xs \<Longrightarrow> AList.update k v xs = xs @ [(k, v)]"
  by (induction xs) auto

lemma AList_update_update: "AList.update k v (AList.update k w xs) = AList.update k v xs"
  by (induction xs) auto

lemma put_board_inv:
  assumes "fleetctl_inv m" "fleet_of fid m = Some f" "board_inv b" "board_clean b" "bd_lease b = bd_lease (fl_board f)"
  shows "fleetctl_inv (put_board fid f b m)"
proof -
  have "fleet_ok (fc_fleet_lease m) (fid, f\<lparr>fl_board := b\<rparr>)"
    using assms fleetctl_inv_lookup [OF assms(1,2)] by (simp add: fleet_ok_def)
  then show ?thesis
    using assms(1) by (auto simp: fleetctl_inv_def put_board_def distinct_update intro: AList_update_all)
qed

lemma saveFleets_fields [simp]:
  "fc_fleets (snd (saveFleets J io m)) = fc_fleets m"
  "fc_state_dir (snd (saveFleets J io m)) = fc_state_dir m"
  "fc_lease_key (snd (saveFleets J io m)) = fc_lease_key m"
  "fc_fleet_lease (snd (saveFleets J io m)) = fc_fleet_lease m"
  by (simp_all add: saveFleets_def Let_def split_beta split: option.split)

lemma board_clean_upd:
  "board_clean b \<Longrightarrow> task_clean t \<Longrightarrow> board_clean (b\<lparr>bd_tasks := (bd_tasks b)(tid \<mapsto> t)\<rparr>)"
  by (auto simp: board_clean_def ran_def)

lemma board_clean_lookup: "board_clean b \<Longrightarrow> bd_tasks b tid = Some t \<Longrightarrow> task_clean t"
  by (auto simp: board_clean_def ran_def)

lemma board_lease_ops [simp]:
  "bd_lease (snd (Add now tid p b)) = bd_lease b"
  "bd_lease (snd (Claim now owner b)) = bd_lease b"
  "bd_lease (snd (Heartbeat now tid owner b)) = bd_lease b"
  "bd_lease (snd (Complete now tid owner res b)) = bd_lease b"
  "bd_lease (snd (Fail now tid owner msg rq b)) = bd_lease b"
  "bd_lease (snd (Restore t b)) = bd_lease b"
  "bd_lease (snd (Remove tid b)) = bd_lease b"
  by (auto simp: Add_def Claim_def Heartbeat_def Complete_def Fail_def Restore_def Remove_def Let_def
      split: option.split)

lemma Add_clean: "board_clean b \<Longrightarrow> board_clean (snd (Add now tid p b))"
  by (auto simp: Add_def Let_def board_clean_def task_clean_def ran_def new_task_def)

lemma Claim_clean:
  assumes "board_inv b" "board_clean b"
  shows "board_clean (snd (Claim now owner b))"
  by (rule Claim_cases [OF assms(1), of now owner])
    (use assms(2) board_clean_lookup [OF assms(2)] in
      \<open>auto intro!: board_clean_upd simp: task_clean_def claim_task_def\<close>)

lemma Heartbeat_clean: "board_clean b \<Longrightarrow> board_clean (snd (Heartbeat now tid owner b))"
  by (auto simp: Heartbeat_def Let_def task_clean_def split: option.split
      dest: board_clean_lookup intro!: board_clean_upd)

lemma Complete_clean: "board_clean b \<Longrightarrow> board_clean (snd (Complete now tid owner res b))"
  by (auto simp: Complete_def task_clean_def split: option.split
      dest: board_clean_lookup intro!: board_clean_upd)

lemma Fail_clean: "board_clean b \<Longrightarrow> board_clean (snd (Fail now tid owner msg rq b))"
  by (auto simp: Fail_def Let_def task_clean_def split: option.split
      dest: board_clean_lookup intro!: board_clean_upd)

lemma Sweep_clean: "board_inv b \<Longrightarrow> board_clean b \<Longrightarrow> board_clean (snd (Sweep now b))"
  by (auto simp: Sweep_spec board_clean_def task_clean_def ran_def swept_def requeue_expired_def)

lemma Sweep_lease: "board_inv b \<Longrightarrow> bd_lease (snd (Sweep now b)) = bd_lease b"
  by (simp add: Sweep_spec)

lemmas clean_ops = Add_clean Claim_clean Heartbeat_clean Complete_clean Fail_clean Sweep_clean

section \<open>Undoing an update\<close>

text \<open>The three ways a board update is undone when its write fails.\<close>

lemma Remove_Add:
  assumes "board_inv b" "tid \<notin> dom (bd_tasks b)"
  shows "snd (Remove tid (snd (Add now tid p b))) = b"
proof -
  have "tid \<notin> set (bd_order b)" using assms by (simp add: board_inv_def)
  then show ?thesis using assms(2)
    by (intro board.equality) (auto simp: Remove_def Add_def Let_def remove1_append fun_eq_iff domIff)
qed

lemma Restore_upd:
  assumes "board_inv b" "board_clean b" "bd_tasks b tid = Some t"
  shows "snd (Restore t (b\<lparr>bd_tasks := (bd_tasks b)(tid \<mapsto> t')\<rparr>)) = b"
proof -
  have "tk_id t = tid" "t\<lparr>tk_lease_token := []\<rparr> = t"
    using assms board_clean_lookup [OF assms(2,3)] by (auto simp: board_inv_def task_clean_def)
  then show ?thesis using assms(3) by (intro board.equality) (auto simp: Restore_def fun_eq_iff)
qed

lemma put_board_back:
  assumes "fleet_of fid m = Some f"
  shows "put_board fid f (fl_board f) (put_board fid f b m) = m"
  using assms by (simp add: put_board_def AList_update_update AList_update_same fleet_of_def)

lemma put_board_files: "put_board fid f b (m\<lparr>fc_files := fs\<rparr>) = (put_board fid f b m)\<lparr>fc_files := fs\<rparr>"
  by (simp add: put_board_def)

lemma saveFleets_failed:
  assumes "tmp_ok io fleetsFileName (fc_files m)" "fst (saveFleets J io m) = False"
  shows "snd (saveFleets J io m) = m"
  using assms writeStateFile_ok [of "fc_state_dir m" io fleetsFileName "fc_files m"]
    writeStateFile_fails [of "fc_state_dir m" io fleetsFileName "fc_files m"]
  by (cases "io_fault io") (auto simp: saveFleets_def Let_def split_beta split: option.splits if_splits)

lemma saveFleets_ok:
  assumes "tmp_ok io fleetsFileName (fc_files m)" "fc_state_dir m \<noteq> []" "fst (saveFleets J io m)"
  obtains bytes where "fj_encode J (map (persist_fleet \<circ> snd) (fc_fleets m)) = Some bytes"
    "snd (saveFleets J io m) = m\<lparr>fc_files := (fc_files m)(fleetsFileName \<mapsto> bytes)\<rparr>"
  using assms writeStateFile_ok [of "fc_state_dir m" io fleetsFileName "fc_files m"]
    writeStateFile_fails [of "fc_state_dir m" io fleetsFileName "fc_files m"]
  by (cases "io_fault io") (auto simp: saveFleets_def Let_def split_beta split: option.splits)

text \<open>A failed write followed by the undo leaves the whole state as it was.\<close>

lemma rollback:
  assumes "fleet_of fid m = Some f" "tmp_ok io fleetsFileName (fc_files m)"
    and "\<not> fst (saveFleets J io (put_board fid f b m))" "undone = fl_board f"
  shows "put_board fid f undone (snd (saveFleets J io (put_board fid f b m))) = m"
proof -
  have "fc_files (put_board fid f b m) = fc_files m" by (simp add: put_board_def)
  then have "snd (saveFleets J io (put_board fid f b m)) = put_board fid f b m"
    using assms(2,3) by (intro saveFleets_failed) auto
  then show ?thesis using assms(1,4) by (simp add: put_board_back)
qed

section \<open>Every operation keeps the invariant\<close>

lemma fleetctl_inv_cong:
  "fc_fleets m' = fc_fleets m \<Longrightarrow> fc_fleet_lease m' = fc_fleet_lease m \<Longrightarrow> fleetctl_inv m' = fleetctl_inv m"
  by (simp add: fleetctl_inv_def)

lemma saveFleets_inv: "fleetctl_inv (snd (saveFleets J io m)) = fleetctl_inv m"
  by (rule fleetctl_inv_cong) simp_all

lemma fleet_of_save [simp]: "fleet_of fid (snd (saveFleets J io m)) = fleet_of fid m"
  by (simp add: fleet_of_def)

lemma put_board_put_save [simp]:
  "fleetctl_inv (put_board fid f b' (snd (saveFleets J io (put_board fid f b m)))) =
   fleetctl_inv (put_board fid f b' m)"
  by (rule fleetctl_inv_cong) (simp_all add: put_board_def AList_update_update)

text \<open>What an operation on the board of a known fleet may rely on.\<close>

lemma fleet_board_ok:
  assumes "fleetctl_inv m" "fleet_of fid m = Some f"
  shows "board_inv (fl_board f)" "board_clean (fl_board f)" "bd_lease (fl_board f) = fc_fleet_lease m"
  using fleetctl_inv_lookup [OF assms] by (auto simp: fleet_ok_def)

lemma Restore_clean: "board_clean b \<Longrightarrow> task_clean t \<Longrightarrow> board_clean (snd (Restore t b))"
  by (auto simp: Restore_def task_clean_def intro!: board_clean_upd)

lemma Remove_clean: "board_clean b \<Longrightarrow> board_clean (snd (Remove tid b))"
  by (auto simp: Remove_def board_clean_def ran_def split: if_splits)

lemma AddTask_inv:
  assumes "fleetctl_inv m" "\<And>f. fleet_of fid m = Some f \<Longrightarrow> tid \<notin> dom (bd_tasks (fl_board f))"
  shows "fleetctl_inv (snd (AddTask J io now tid fid p m))"
proof (cases "fleet_of fid m")
  case None
  then show ?thesis using assms by (simp add: AddTask_def)
next
  case (Some f)
  note ok = fleet_board_ok [OF assms(1) Some]
  have "board_inv (snd (Add now tid p (fl_board f)))" using ok assms(2) [OF Some] by (simp add: Add_inv)
  then show ?thesis using Some ok assms(1)
    by (auto simp: AddTask_def split_beta saveFleets_inv Add_clean Remove_inv Remove_clean
        intro!: put_board_inv)
qed

lemma ClaimTask_inv: "fleetctl_inv m \<Longrightarrow> fleetctl_inv (snd (ClaimTask J T io now nonce fid owner m))"
proof (cases "fleet_of fid m")
  case None
  then show "fleetctl_inv m \<Longrightarrow> ?thesis" by (simp add: ClaimTask_def)
next
  case (Some f)
  assume inv: "fleetctl_inv m"
  note ok = fleet_board_ok [OF inv Some]
  obtain r b1 where c: "Claim now owner (fl_board f) = (r, b1)" by fastforce
  then have b1: "board_inv b1" "board_clean b1" "bd_lease b1 = bd_lease (fl_board f)"
    using Claim_inv [OF ok(1), of now owner] Claim_clean [OF ok(1,2), of now owner]
      board_lease_ops(2) [of now owner "fl_board f"] by simp_all
  show ?thesis using Some inv b1 c
    by (cases r) (auto simp: ClaimTask_def split_beta saveFleets_inv Fail_inv Fail_clean
        intro!: put_board_inv split: option.split)
qed

lemma HeartbeatTask_inv:
  "fleetctl_inv m \<Longrightarrow> fleetctl_inv (snd (HeartbeatTask J T io now nonce fid tid owner token m))"
proof (cases "fleet_of fid m")
  case None
  then show "fleetctl_inv m \<Longrightarrow> ?thesis" by (simp add: HeartbeatTask_def)
next
  case (Some f)
  assume inv: "fleetctl_inv m"
  note ok = fleet_board_ok [OF inv Some]
  obtain r b1 where c: "Heartbeat now tid owner (fl_board f) = (r, b1)" by fastforce
  then have b1: "board_inv b1" "board_clean b1" "bd_lease b1 = bd_lease (fl_board f)"
    using Heartbeat_inv [OF ok(1), of now tid owner] Heartbeat_clean [OF ok(2), of now tid owner]
      board_lease_ops(3) [of now tid owner "fl_board f"] by simp_all
  show ?thesis using Some inv b1 c board_clean_lookup [OF ok(2)]
    by (cases r) (auto simp: HeartbeatTask_def Get_def split_beta saveFleets_inv Restore_inv Restore_clean
        intro!: put_board_inv split: option.split)
qed

lemma CompleteTask_inv:
  "fleetctl_inv m \<Longrightarrow> fleetctl_inv (snd (CompleteTask J T io now fid tid owner token res m))"
proof (cases "fleet_of fid m")
  case None
  then show "fleetctl_inv m \<Longrightarrow> ?thesis" by (simp add: CompleteTask_def)
next
  case (Some f)
  assume inv: "fleetctl_inv m"
  note ok = fleet_board_ok [OF inv Some]
  obtain r b1 where c: "Complete now tid owner res (fl_board f) = (r, b1)" by fastforce
  then have b1: "board_inv b1" "board_clean b1" "bd_lease b1 = bd_lease (fl_board f)"
    using Complete_inv [OF ok(1), of now tid owner res] Complete_clean [OF ok(2), of now tid owner res]
      board_lease_ops(4) [of now tid owner res "fl_board f"] by simp_all
  show ?thesis using Some inv b1 c board_clean_lookup [OF ok(2)]
    by (cases r) (auto simp: CompleteTask_def Get_def split_beta saveFleets_inv Restore_inv Restore_clean
        intro!: put_board_inv split: option.split)
qed

lemma FailTask_inv:
  "fleetctl_inv m \<Longrightarrow> fleetctl_inv (snd (FailTask J T io now fid tid owner token msg rq m))"
proof (cases "fleet_of fid m")
  case None
  then show "fleetctl_inv m \<Longrightarrow> ?thesis" by (simp add: FailTask_def)
next
  case (Some f)
  assume inv: "fleetctl_inv m"
  note ok = fleet_board_ok [OF inv Some]
  obtain r b1 where c: "Fail now tid owner msg rq (fl_board f) = (r, b1)" by fastforce
  then have b1: "board_inv b1" "board_clean b1" "bd_lease b1 = bd_lease (fl_board f)"
    using Fail_inv [OF ok(1), of now tid owner msg rq] Fail_clean [OF ok(2), of now tid owner msg rq]
      board_lease_ops(5) [of now tid owner msg rq "fl_board f"] by simp_all
  show ?thesis using Some inv b1 c board_clean_lookup [OF ok(2)]
    by (cases r) (auto simp: FailTask_def Get_def split_beta saveFleets_inv Restore_inv Restore_clean
        intro!: put_board_inv split: option.split)
qed

lemma seed_loop_ok:
  "board_inv b \<Longrightarrow> board_clean b \<Longrightarrow> distinct (map snd ids) \<Longrightarrow> dom (bd_tasks b) \<inter> snd ` set ids = {} \<Longrightarrow>
   board_inv (seed_loop ids ps b) \<and> board_clean (seed_loop ids ps b)"
proof (induction ids ps b rule: seed_loop.induct)
  case (1 now tid ids p ps b)
  have "dom (bd_tasks (snd (Add now tid p b))) \<inter> snd ` set ids = {}"
    using "1.prems" by (auto simp: Add_def Let_def)
  then have "board_inv (seed_loop ids ps (snd (Add now tid p b))) \<and>
      board_clean (seed_loop ids ps (snd (Add now tid p b)))"
    using "1.prems" by (intro "1.IH" Add_inv Add_clean) auto
  then show ?case by simp
qed auto

lemma Seed_ok: "distinct (map snd ids) \<Longrightarrow> board_inv (Seed ids ps) \<and> board_clean (Seed ids ps)"
  unfolding Seed_def by (intro seed_loop_ok NewBoard_inv) (auto simp: NewBoard_def board_clean_def)

lemma AList_delete_all: "list_all P xs \<Longrightarrow> list_all P (AList.delete k xs)"
  by (induction xs) auto

lemma CreateFleet_inv:
  assumes "fleetctl_inv m" "distinct (map snd ids)"
  shows "fleetctl_inv (snd (snd (CreateFleetForIdentity J io now fid ids sbs loaded pn owner m)))"
proof -
  have "board_inv (SetLease d (Seed ids ps)) \<and> board_clean (SetLease d (Seed ids ps))" for d ps
    using Seed_ok [OF assms(2), of ps] by (simp add: SetLease_inv) (simp add: SetLease_def board_clean_def)
  then show ?thesis using assms(1)
    by (auto simp: CreateFleetForIdentity_def Let_def split_beta saveFleets_inv fleetctl_inv_def fleet_ok_def
        SetLease_def distinct_update distinct_delete split: option.split
        intro!: AList_update_all AList_delete_all)
qed

lemma KillFleet_inv: "fleetctl_inv m \<Longrightarrow> fleetctl_inv (snd (snd (KillFleet J io fid m)))"
  using fleetctl_inv_lookup [of m fid]
  by (auto simp: KillFleet_def Let_def split_beta saveFleets_inv fleetctl_inv_def
      distinct_update distinct_delete split: option.split
      intro!: AList_update_all AList_delete_all)

lemma sweep_fleets_spec:
  "list_all (fleet_ok d) fs \<Longrightarrow>
   snd (sweep_fleets now fs) = map (\<lambda>(fid, f). (fid, f\<lparr>fl_board := snd (Sweep now (fl_board f))\<rparr>)) fs \<and>
   list_all (fleet_ok d) (snd (sweep_fleets now fs))"
  by (induction fs) (auto simp: split_beta fleet_ok_def Sweep_inv Sweep_clean Sweep_lease)

lemma Sweep_idle:
  assumes "board_inv b" "fst (Sweep now b) = []"
  shows "snd (Sweep now b) = b"
proof -
  have no: "\<not> lease_expired now (the (bd_tasks b tid))" if "tid \<in> set (bd_order b)" for tid
    using assms that by (auto simp: Sweep_spec List_tasks_def filter_empty_conv)
  have "map_option (swept now) (bd_tasks b tid) = bd_tasks b tid" for tid
    using no [of tid] assms(1) by (cases "bd_tasks b tid") (auto simp: swept_def board_inv_def)
  then show ?thesis using assms(1) by (simp add: Sweep_spec comp_def)
qed

lemma sweep_fleets_idle:
  "list_all (fleet_ok d) fs \<Longrightarrow> fst (sweep_fleets now fs) = [] \<Longrightarrow> snd (sweep_fleets now fs) = fs"
  by (induction fs) (auto simp: split_beta fleet_ok_def Sweep_idle)

lemma sweepOnce_inv: "fleetctl_inv m \<Longrightarrow> fleetctl_inv (snd (sweepOnce J io now m))"
  using sweep_fleets_spec [of "fc_fleet_lease m" "fc_fleets m" now]
  by (auto simp: sweepOnce_def Let_def split_beta saveFleets_inv fleetctl_inv_def comp_def)

section \<open>Operations as a machine\<close>

text \<open>
  One API call or sweeper round. \<open>fleet_exec\<close> also returns whether the caller got an acknowledgement
  (no error; for the sweeper, that nothing was requeued or the write succeeded). Ids are random: a call whose drawn id is in use is left out of a run.
\<close>

datatype fleet_op =
    FoAdd state_io gotime string string string
  | FoClaim state_io gotime "string option" string string
  | FoHeartbeat state_io gotime "string option" string string string string
  | FoComplete state_io gotime string string string string string
  | FoFail state_io gotime string string string string string bool
  | FoCreate state_io gotime string "(gotime \<times> string) list" "string option list"
      "(int \<times> string list) option option" string string
  | FoKill state_io string
  | FoSweep state_io gotime

fun fleet_exec :: "fleet_codec \<Rightarrow> tokprims \<Rightarrow> fleet_op \<Rightarrow> fleetctl \<Rightarrow> bool \<times> fleetctl" where
  "fleet_exec J T (FoAdd io now tid fid p) m =
     (if (case fleet_of fid m of None \<Rightarrow> False | Some f \<Rightarrow> bd_tasks (fl_board f) tid \<noteq> None) then (False, m)
      else map_prod (\<lambda>r. \<not> isl r) (\<lambda>m. m) (AddTask J io now tid fid p m))"
| "fleet_exec J T (FoClaim io now nonce fid owner) m =
     map_prod (\<lambda>r. \<not> isl r) (\<lambda>m. m) (ClaimTask J T io now nonce fid owner m)"
| "fleet_exec J T (FoHeartbeat io now nonce fid tid owner token) m =
     map_prod (\<lambda>r. \<not> isl r) (\<lambda>m. m) (HeartbeatTask J T io now nonce fid tid owner token m)"
| "fleet_exec J T (FoComplete io now fid tid owner token res) m =
     map_prod (\<lambda>e. e = None) (\<lambda>m. m) (CompleteTask J T io now fid tid owner token res m)"
| "fleet_exec J T (FoFail io now fid tid owner token msg rq) m =
     map_prod (\<lambda>e. e = None) (\<lambda>m. m) (FailTask J T io now fid tid owner token msg rq m)"
| "fleet_exec J T (FoCreate io now fid ids sbs loaded pn owner) m =
     (if distinct (map snd ids) \<and> fleet_of fid m = None
      then map_prod (\<lambda>r. \<not> isl r) (\<lambda>m. m) (snd (CreateFleetForIdentity J io now fid ids sbs loaded pn owner m))
      else (False, m))"
| "fleet_exec J T (FoKill io fid) m = map_prod (\<lambda>e. e = None) (\<lambda>m. m) (snd (KillFleet J io fid m))"
| "fleet_exec J T (FoSweep io now) m =
     (let (evs, fs) = sweep_fleets now (fc_fleets m) in
      (evs = [] \<or> fst (saveFleets J io (m\<lparr>fc_fleets := fs\<rparr>)), snd (sweepOnce J io now m)))"

definition fleet_step :: "fleet_codec \<Rightarrow> tokprims \<Rightarrow> fleetctl \<Rightarrow> fleet_op \<Rightarrow> fleetctl" where
  "fleet_step J T m e = snd (fleet_exec J T e m)"

lemma fleet_step_inv: "fleetctl_inv m \<Longrightarrow> fleetctl_inv (fleet_step J T m e)"
  by (cases e) (auto simp: fleet_step_def ClaimTask_inv HeartbeatTask_inv CompleteTask_inv FailTask_inv
      CreateFleet_inv KillFleet_inv sweepOnce_inv domIff split_beta Let_def intro!: AddTask_inv split: option.splits)

interpretation fleets: invariant_machine "fleet_step J T" fleetctl_inv for J T
  by unfold_locales (rule fleet_step_inv)

fun op_io :: "fleet_op \<Rightarrow> state_io" where
  "op_io (FoAdd io _ _ _ _) = io"
| "op_io (FoClaim io _ _ _ _) = io"
| "op_io (FoHeartbeat io _ _ _ _ _ _) = io"
| "op_io (FoComplete io _ _ _ _ _ _) = io"
| "op_io (FoFail io _ _ _ _ _ _ _) = io"
| "op_io (FoCreate io _ _ _ _ _ _ _) = io"
| "op_io (FoKill io _) = io"
| "op_io (FoSweep io _) = io"

section \<open>Restarting the control plane\<close>

definition disk_synced :: "fleet_codec \<Rightarrow> fleetctl \<Rightarrow> bool" where
  "disk_synced J m \<longleftrightarrow>
     (case fc_files m fleetsFileName of
        None \<Rightarrow> fc_fleets m = []
      | Some bytes \<Rightarrow> fj_decode J bytes = Some (map (persist_fleet \<circ> snd) (fc_fleets m)))"

definition fleet_codec_ok :: "fleet_codec \<Rightarrow> bool" where
  "fleet_codec_ok J \<longleftrightarrow> (\<forall>pfs bytes. fj_encode J pfs = Some bytes \<longrightarrow> fj_decode J bytes = Some pfs)"

text \<open>A new process: the files and settings are the same, the map of fleets is rebuilt by \<^verbatim>\<open>loadFleets\<close>.\<close>

definition restart :: "fleet_codec \<Rightarrow> gotime \<Rightarrow> state_io \<Rightarrow> fleetctl \<Rightarrow> fleet_error option \<times> fleetctl" where
  "restart J now io m = loadFleets J True now io (m\<lparr>fc_fleets := []\<rparr>)"

lemma saveFleets_syncs:
  assumes "fleet_codec_ok J" "fc_state_dir m \<noteq> []" "tmp_ok io fleetsFileName (fc_files m)"
    and "fst (saveFleets J io m)"
  shows "disk_synced J (snd (saveFleets J io m))"
  by (rule saveFleets_ok [OF assms(3,2,4)])
    (use assms(1) in \<open>simp add: disk_synced_def fleet_codec_ok_def\<close>)

lemma put_board_same: "fleet_of fid m = Some f \<Longrightarrow> put_board fid f (fl_board f) m = m"
  by (simp add: put_board_def AList_update_same fleet_of_def)

lemma put_board_fields [simp]:
  "fc_files (put_board fid f b m) = fc_files m" "fc_state_dir (put_board fid f b m) = fc_state_dir m"
  "fc_lease_key (put_board fid f b m) = fc_lease_key m" "fc_fleet_lease (put_board fid f b m) = fc_fleet_lease m"
  by (simp_all add: put_board_def)

lemma migrate_clean: "task_clean t \<Longrightarrow> migrate_task now t = (t, False)"
  by (auto simp: migrate_task_def task_clean_def)

lemma restore_persist:
  assumes "fleet_ok lease (fid, f)"
  shows "restore_fleet now lease (persist_fleet f) = (f\<lparr>fl_restored := True\<rparr>, False)"
proof -
  let ?b = "fl_board f"
  have b: "board_inv ?b" "board_clean ?b" "bd_lease ?b = lease" using assms by (auto simp: fleet_ok_def)
  have clean: "task_clean t" if "t \<in> set (Export ?b)" for t
  proof -
    from that obtain i where "i \<in> set (bd_order ?b)" "t = the (bd_tasks ?b i)"
      by (auto simp: Export_def List_tasks_def)
    moreover obtain t' where "bd_tasks ?b i = Some t'" using order_lookup [OF b(1) calculation(1)] by blast
    ultimately show ?thesis using board_clean_lookup [OF b(2)] by auto
  qed
  have "Load (Export ?b) lease = ?b" using board_reload [OF b(1)] b(3) by simp
  moreover have "map (fst \<circ> migrate_task now) (Export ?b) = Export ?b"
    and "\<not> list_ex (snd \<circ> migrate_task now) (Export ?b)"
    using clean by (auto simp: migrate_clean list_ex_iff intro!: map_idI)
  ultimately show ?thesis
    by (simp add: restore_fleet_def persist_fleet_def Let_def list_ex_iff)
qed

lemma load_loop_spec:
  assumes "list_all (fleet_ok (fc_fleet_lease m)) fs"
    and "distinct (map fst (fc_fleets m) @ map fst fs)"
  shows "load_loop now (map (persist_fleet \<circ> snd) fs) mig m =
    (mig, m\<lparr>fc_fleets := fc_fleets m @ map (\<lambda>(fid, f). (fid, f\<lparr>fl_restored := True\<rparr>)) fs\<rparr>)"
  using assms
proof (induction fs arbitrary: m)
  case Nil
  then show ?case by simp
next
  case (Cons p fs)
  obtain fid f where p: "p = (fid, f)" by fastforce
  then have ok: "fleet_ok (fc_fleet_lease m) (fid, f)" "fl_id f = fid"
    using Cons.prems(1) by (auto simp: fleet_ok_def)
  let ?m = "m\<lparr>fc_fleets := fc_fleets m @ [(fid, f\<lparr>fl_restored := True\<rparr>)]\<rparr>"
  have "fid \<notin> set (map fst (fc_fleets m))" using Cons.prems(2) p by auto
  then have upd: "AList.update fid (f\<lparr>fl_restored := True\<rparr>) (fc_fleets m) = fc_fleets ?m"
    by (simp add: AList_update_new)
  have "load_loop now (map (persist_fleet \<circ> snd) fs) mig ?m =
      (mig, ?m\<lparr>fc_fleets := fc_fleets ?m @ map (\<lambda>(fid, f). (fid, f\<lparr>fl_restored := True\<rparr>)) fs\<rparr>)"
    using Cons.prems p by (intro Cons.IH) auto
  moreover have "pf_id (persist_fleet f) = fid" using ok(2) by (simp add: persist_fleet_def)
  ultimately show ?case using upd restore_persist [OF ok(1)] by (simp add: p comp_def)
qed

lemma restart_synced:
  assumes "fleetctl_inv m" "fc_state_dir m \<noteq> []" "disk_synced J m"
  shows "restart J now io m =
    (None, m\<lparr>fc_fleets := map (\<lambda>(fid, f). (fid, f\<lparr>fl_restored := True\<rparr>)) (fc_fleets m)\<rparr>)"
proof (cases "fc_files m fleetsFileName")
  case None
  then show ?thesis using assms by (simp add: restart_def loadFleets_def disk_synced_def)
next
  case (Some bytes)
  have "load_loop now (map (persist_fleet \<circ> snd) (fc_fleets m)) False (m\<lparr>fc_fleets := []\<rparr>) =
      (False, m\<lparr>fc_fleets := map (\<lambda>(fid, f). (fid, f\<lparr>fl_restored := True\<rparr>)) (fc_fleets m)\<rparr>)"
    using assms(1) by (subst load_loop_spec) (auto simp: fleetctl_inv_def)
  then show ?thesis using Some assms(2,3) by (simp add: restart_def loadFleets_def disk_synced_def)
qed

lemma fleet_exec_state_dir: "fc_state_dir (snd (fleet_exec J T e m)) = fc_state_dir m"
  by (cases e) (auto simp: AddTask_def ClaimTask_def HeartbeatTask_def CompleteTask_def FailTask_def
      CreateFleetForIdentity_def KillFleet_def sweepOnce_def Let_def split_beta
      split: option.splits prod.splits sum.splits)

text \<open>An acknowledged operation left the file in step with the memory.\<close>

lemma fleet_exec_synced:
  assumes "fleet_codec_ok J" "fc_state_dir m \<noteq> []" "tmp_ok (op_io e) fleetsFileName (fc_files m)"
    and "disk_synced J m" "fleetctl_inv m" "fleet_exec J T e m = (True, m')"
  shows "disk_synced J m'"
proof -
  have sync: "disk_synced J (snd (saveFleets J (op_io e) m1))"
    if "fst (saveFleets J (op_io e) m1)" "fc_files m1 = fc_files m" "fc_state_dir m1 = fc_state_dir m" for m1
    using assms(1-3) that by (intro saveFleets_syncs) auto
  show ?thesis
  proof (cases e)
    case (FoAdd io now tid fid p)
    then show ?thesis using assms(6) sync
      by (auto simp: AddTask_def split_beta split: option.splits if_splits)
  next
    case (FoClaim io now nonce fid owner)
    show ?thesis
    proof (cases "fleet_of fid m")
      case None
      then show ?thesis using assms(6) FoClaim by (simp add: ClaimTask_def)
    next
      case (Some f)
      have inv: "board_inv (fl_board f)" using fleet_board_ok [OF assms(5) Some] by simp
      show ?thesis
        by (rule Claim_cases [OF inv, of now owner])
          (use assms(4,6) FoClaim Some sync in
            \<open>auto simp: ClaimTask_def split_beta put_board_same split: option.splits if_splits\<close>)
    qed
  next
    case (FoHeartbeat io now nonce fid tid owner token)
    then show ?thesis using assms(6) sync
      by (auto simp: HeartbeatTask_def split_beta split: option.splits if_splits prod.splits sum.splits)
  next
    case (FoComplete io now fid tid owner token res)
    then show ?thesis using assms(6) sync
      by (auto simp: CompleteTask_def split_beta split: option.splits if_splits prod.splits)
  next
    case (FoFail io now fid tid owner token msg rq)
    then show ?thesis using assms(6) sync
      by (auto simp: FailTask_def split_beta split: option.splits if_splits prod.splits)
  next
    case (FoCreate io now fid ids sbs loaded pn owner)
    then show ?thesis using assms(6) sync
      by (auto simp: CreateFleetForIdentity_def Let_def split_beta split: option.splits if_splits)
  next
    case (FoKill io fid)
    then show ?thesis using assms(6) sync
      by (auto simp: KillFleet_def Let_def split_beta split: option.splits if_splits)
  next
    case (FoSweep io now)
    show ?thesis
    proof (cases "fst (sweep_fleets now (fc_fleets m)) = []")
      case True
      then have "snd (sweep_fleets now (fc_fleets m)) = fc_fleets m"
        using assms(5) by (intro sweep_fleets_idle) (auto simp: fleetctl_inv_def)
      then show ?thesis using True assms(4,6) FoSweep by (auto simp: sweepOnce_def Let_def split_beta)
    next
      case False
      let ?m1 = "m\<lparr>fc_fleets := snd (sweep_fleets now (fc_fleets m))\<rparr>"
      have "fst (saveFleets J io ?m1)" "m' = snd (saveFleets J io ?m1)"
        using False assms(6) FoSweep by (auto simp: sweepOnce_def Let_def split_beta)
      then show ?thesis using sync [of ?m1] FoSweep by simp
    qed
  qed
qed

section \<open>Properties\<close>

text \<open>
  C10. An acknowledged cohort operation survives a crash: if the state file was in step with the
  memory and any operation (adding, claiming, renewing, completing or failing a task, creating or
  killing a fleet, a sweep) is acknowledged, the file is in step again, and a control plane that
  restarts from it loads without error the same fleets with the very same boards: same tasks,
  states, owners, lease versions and FIFO order.
\<close>

theorem acknowledged_operation_survives_restart:
  assumes "fleet_codec_ok J" "fc_state_dir m \<noteq> []" "tmp_ok (op_io e) fleetsFileName (fc_files m)"
    and "fleetctl_inv m" "disk_synced J m" "fleet_exec J T e m = (True, m')"
  shows "disk_synced J m' \<and> fst (restart J now io m') = None \<and>
    (\<forall>fid. map_option fl_board (fleet_of fid (snd (restart J now io m'))) = map_option fl_board (fleet_of fid m'))"
proof -
  have synced: "disk_synced J m'" using fleet_exec_synced [OF assms(1-3) assms(5,4,6)] .
  have inv: "fleetctl_inv m'" using fleet_step_inv [OF assms(4), of J T e] assms(6) by (simp add: fleet_step_def)
  have "fc_state_dir m' = fc_state_dir m"
    using assms(6) fleet_exec_state_dir [of J T e m] by simp
  then have "restart J now io m' =
      (None, m'\<lparr>fc_fleets := map (\<lambda>(fid, f). (fid, f\<lparr>fl_restored := True\<rparr>)) (fc_fleets m')\<rparr>)"
    using inv synced assms(2) by (intro restart_synced) auto
  moreover have "map_option fl_board (map_of (map (\<lambda>(fid, f). (fid, f\<lparr>fl_restored := True\<rparr>)) fs) fid) =
      map_option fl_board (map_of fs fid)" for fs :: "(string \<times> fleet) list" and fid
    by (induction fs) auto
  ultimately show ?thesis using synced by (simp add: fleet_of_def)
qed

definition fleet1 :: fleet where
  "fleet1 = \<lparr>fl_id = ''f'', fl_profile = ''prof'', fl_owner = ''own'',
     fl_board = SetLease 10000000000 (Seed [(5, ''a'')] [''p'']), fl_sandboxes = [''sb''], fl_created = 5, fl_restored = False\<rparr>"

definition json1 :: fleet_codec where
  "json1 = \<lparr>fj_encode = (\<lambda>pfs. if pfs = [persist_fleet fleet1] then Some ''x'' else None),
     fj_decode = (\<lambda>_. Some [persist_fleet fleet1])\<rparr>"

definition ctl0 :: fleetctl where
  "ctl0 = \<lparr>fc_fleets = [], fc_state_dir = ''/s'', fc_files = Map.empty, fc_lease_key = ''k'', fc_fleet_lease = 10000000000\<rparr>"

definition io_fine :: state_io where
  "io_fine = \<lparr>io_tmp = ''.fleets.json.tmp-1'', io_fault = None\<rparr>"

lemma io_fine_ok: "tmp_ok io_fine fleetsFileName (fc_files ctl0)"
  by (simp add: tmp_ok_def io_fine_def ctl0_def fleetsFileName_def)

definition create1 :: fleet_op where
  "create1 = FoCreate io_fine 5 ''f'' [(5, ''a'')] [Some ''sb''] (Some (Some (1, [''p'']))) ''prof'' ''own''"

lemma create1_exec:
  "fleet_exec json1 T create1 ctl0 =
     (True, ctl0\<lparr>fc_fleets := [(''f'', fleet1)], fc_files := [fleetsFileName \<mapsto> ''x'']\<rparr>)"
  by (simp add: create1_def CreateFleetForIdentity_def saveFleets_def json1_def ctl0_def fleet1_def
      fleet_of_def writeStateFile_def io_fine_def tmp_states_def Let_def numeral_eq_Suc fun_eq_iff fleetsFileName_def)

theorem acknowledged_operation_survives_restart_witness:
  "map_option fl_board (fleet_of ''f'' (snd (restart json1 9 io_fine
      (ctl0\<lparr>fc_fleets := [(''f'', fleet1)], fc_files := [fleetsFileName \<mapsto> ''x'']\<rparr>)))) = Some (fl_board fleet1)"
proof -
  have "fleet_codec_ok json1" by (simp add: fleet_codec_ok_def json1_def)
  moreover have "fleetctl_inv ctl0" "disk_synced json1 ctl0"
    by (simp_all add: fleetctl_inv_def disk_synced_def ctl0_def)
  moreover have "fc_state_dir ctl0 \<noteq> []" by (simp add: ctl0_def)
  moreover have "tmp_ok (op_io create1) fleetsFileName (fc_files ctl0)"
    using io_fine_ok by (simp add: create1_def)
  ultimately show ?thesis
    using acknowledged_operation_survives_restart [where now = 9 and io = io_fine, OF _ _ _ _ _ create1_exec]
    by (simp add: fleet_of_def)
qed

text \<open>
  A refused update leaves no trace: when renewing, completing or failing a task returns any
  error, or adding a task cannot be persisted, the whole state, memory and files, is exactly what
  it was before the call, whichever system call of the write failed.
\<close>

theorem refused_update_has_no_effect:
  assumes "fleetctl_inv m" "tmp_ok io fleetsFileName (fc_files m)"
  shows "(fst (HeartbeatTask J T io now nonce fid tid owner token m) = Inl e1 \<longrightarrow>
            snd (HeartbeatTask J T io now nonce fid tid owner token m) = m) \<and>
    (fst (CompleteTask J T io now fid tid owner token res m) = Some e2 \<longrightarrow>
            snd (CompleteTask J T io now fid tid owner token res m) = m) \<and>
    (fst (FailTask J T io now fid tid owner token msg rq m) = Some e3 \<longrightarrow>
            snd (FailTask J T io now fid tid owner token msg rq m) = m) \<and>
    (fst (AddTask J io now newid fid p m) = Inl e4 \<and>
       (\<forall>f. fleet_of fid m = Some f \<longrightarrow> bd_tasks (fl_board f) newid = None) \<longrightarrow>
            snd (AddTask J io now newid fid p m) = m)"
proof (cases "fleet_of fid m")
  case None
  then show ?thesis by (simp add: HeartbeatTask_def CompleteTask_def FailTask_def AddTask_def)
next
  case (Some f)
  note ok = fleet_board_ok [OF assms(1) Some]
  note undone = rollback [OF Some assms(2)]
  have restored: "put_board fid f (snd (Restore t (fl_board f\<lparr>bd_tasks := (bd_tasks (fl_board f))(tid \<mapsto> t')\<rparr>)))
      (snd (saveFleets J io (put_board fid f (fl_board f\<lparr>bd_tasks := (bd_tasks (fl_board f))(tid \<mapsto> t')\<rparr>) m))) = m"
    if "bd_tasks (fl_board f) tid = Some t"
      "\<not> fst (saveFleets J io (put_board fid f (fl_board f\<lparr>bd_tasks := (bd_tasks (fl_board f))(tid \<mapsto> t')\<rparr>) m))" for t t'
    using that Restore_upd [OF ok(1,2)] by (intro undone) auto
  have unsigned: "put_board fid f (snd (Restore t (fl_board f\<lparr>bd_tasks := (bd_tasks (fl_board f))(tid \<mapsto> t')\<rparr>))) m = m"
    if "bd_tasks (fl_board f) tid = Some t" for t t'
    using that Restore_upd [OF ok(1,2)] put_board_same [OF Some] by simp
  show ?thesis
  proof (intro conjI impI)
    assume "fst (HeartbeatTask J T io now nonce fid tid owner token m) = Inl e1"
    then show "snd (HeartbeatTask J T io now nonce fid tid owner token m) = m"
      using Some restored unsigned put_board_same [OF Some]
      by (auto simp: HeartbeatTask_def Heartbeat_def Get_def Let_def split_beta split: option.splits if_splits)
  next
    assume "fst (CompleteTask J T io now fid tid owner token res m) = Some e2"
    then show "snd (CompleteTask J T io now fid tid owner token res m) = m"
      using Some restored put_board_same [OF Some]
      by (auto simp: CompleteTask_def Complete_def Get_def Let_def split_beta split: option.splits if_splits)
  next
    assume "fst (FailTask J T io now fid tid owner token msg rq m) = Some e3"
    then show "snd (FailTask J T io now fid tid owner token msg rq m) = m"
      using Some restored put_board_same [OF Some]
      by (auto simp: FailTask_def Fail_def Get_def Let_def split_beta split: option.splits if_splits)
  next
    assume a: "fst (AddTask J io now newid fid p m) = Inl e4 \<and>
      (\<forall>f. fleet_of fid m = Some f \<longrightarrow> bd_tasks (fl_board f) newid = None)"
    then have "snd (Remove newid (snd (Add now newid p (fl_board f)))) = fl_board f"
      using Some ok(1) by (intro Remove_Add) auto
    moreover have "tk_id (fst (Add now newid p (fl_board f))) = newid" by (simp add: Add_def Let_def new_task_def)
    ultimately show "snd (AddTask J io now newid fid p m) = m"
      using a Some undone by (auto simp: AddTask_def split_beta split: if_splits)
  qed
qed

definition ctl1 :: fleetctl where
  "ctl1 = ctl0\<lparr>fc_fleets := [(''f'', fleet1)]\<rparr>"

lemma ctl1_inv: "fleetctl_inv ctl1"
  using Seed_ok [of "[(5, ''a'')]" "[''p'']"]
  by (simp add: fleetctl_inv_def ctl1_def ctl0_def fleet_ok_def fleet1_def SetLease_inv)
    (simp add: SetLease_def board_clean_def)

theorem refused_update_has_no_effect_witness:
  "fst (CompleteTask json1 (tok1 lease1) io_fine 6 ''f'' ''a'' ''w'' ''bad'' ''r'' ctl1) = Some ErrInvalidLease \<and>
   snd (CompleteTask json1 (tok1 lease1) io_fine 6 ''f'' ''a'' ''w'' ''bad'' ''r'' ctl1) = ctl1"
proof -
  have "fst (CompleteTask json1 (tok1 lease1) io_fine 6 ''f'' ''a'' ''w'' ''bad'' ''r'' ctl1) = Some ErrInvalidLease"
    by (simp add: CompleteTask_def ctl1_def fleet_of_def Get_def fleet1_def SetLease_def Seed_def Add_def Let_def
        verifyTaskLease_def)
  moreover have "tmp_ok io_fine fleetsFileName (fc_files ctl1)" using io_fine_ok by (simp add: ctl1_def)
  ultimately show ?thesis using refused_update_has_no_effect [OF ctl1_inv, of io_fine] by blast
qed

text \<open>
  C11. A finished task was finished by the holder of its current lease: if \<^verbatim>\<open>CompleteTask\<close> succeeds, the
  task was claimed, by the named worker unless that name is empty, and the presented token is a body
  and its HMAC under the control plane's key, whose claims name this cohort, task, worker and the
  task's current lease version and expire after now; the task is then done with the given result.
\<close>

theorem completion_needs_current_lease:
  assumes "CompleteTask J T io now fid tid owner token res m = (None, m')"
  shows "\<exists>f t body sig64 payload claims.
    fleet_of fid m = Some f \<and> Get tid (fl_board f) = Some t \<and> tk_state t = StateClaimed \<and>
    (owner = [] \<or> tk_owner t = owner) \<and>
    split_byte (CHR ''.'') token = [body, sig64] \<and> b64url_decode T sig64 = Some (hmac256 T (fc_lease_key m) body) \<and>
    b64url_decode T body = Some payload \<and> claims_decode T payload = Some claims \<and>
    lc_cohort claims = fid \<and> lc_task claims = tid \<and> lc_actor claims = owner \<and>
    lc_lease claims = tk_lease_version t \<and> unix_secs now < lc_expires claims \<and>
    (\<exists>f'. fleet_of fid m' = Some f' \<and> Get tid (fl_board f') =
       Some (t\<lparr>tk_state := StateDone, tk_result := res, tk_error := [], tk_lease_expiry := 0, tk_updated_at := now\<rparr>))"
proof -
  obtain f where f: "fleet_of fid m = Some f"
    using assms by (auto simp: CompleteTask_def split: option.splits)
  obtain t where t: "Get tid (fl_board f) = Some t"
    using assms f by (auto simp: CompleteTask_def split: option.splits)
  have v: "verifyTaskLease T (fc_lease_key m) now token fid tid owner (tk_lease_version t)"
    using assms f t by (auto simp: CompleteTask_def split: if_splits)
  have claimed: "tk_state t = StateClaimed" "owner = [] \<or> tk_owner t = owner"
    using assms f t v by (auto simp: CompleteTask_def Complete_def Get_def split: if_splits)
  have "fleet_of fid m' = Some (f\<lparr>fl_board := snd (Complete now tid owner res (fl_board f))\<rparr>)"
    using assms f t v claimed
    by (auto simp: CompleteTask_def Complete_def Get_def Let_def split_beta fleet_of_def put_board_def
        update_conv' split: if_splits)
  moreover have "Get tid (snd (Complete now tid owner res (fl_board f))) =
      Some (t\<lparr>tk_state := StateDone, tk_result := res, tk_error := [], tk_lease_expiry := 0, tk_updated_at := now\<rparr>)"
    using t claimed by (auto simp: Get_def Complete_def)
  ultimately show ?thesis
    using v f t claimed by (elim verify_needs_mac) fastforce
qed

definition ctl2 :: fleetctl where
  "ctl2 = ctl0\<lparr>fc_state_dir := [], fc_fleets :=
     [(''f'', fleet1\<lparr>fl_board := snd (Claim 6 ''w1'' (fl_board fleet1))\<rparr>)]\<rparr>"

lemma ctl2_fields: "fc_lease_key ctl2 = ''k''" "fc_state_dir ctl2 = []"
  by (simp_all add: ctl2_def ctl0_def)

lemma ctl2_task: "\<exists>f. fleet_of ''f'' ctl2 = Some f \<and> Get ''a'' (fl_board f) = Some claimed1"
  by (simp add: ctl2_def fleet_of_def Get_def fleet1_def claimed1_def Seed_def SetLease_def Add_def
      NewBoard_def Claim_def new_task_def Let_def)

theorem completion_needs_current_lease_witness:
  "\<exists>token m' f' t'. CompleteTask json1 (tok1 lease1) io_fine 7 ''f'' ''a'' ''w1'' token ''r'' ctl2 = (None, m') \<and>
     fleet_of ''f'' m' = Some f' \<and> Get ''a'' (fl_board f') = Some t' \<and> tk_state t' = StateDone"
proof -
  obtain token where tk: "issueTaskLease (tok1 lease1) ''k'' 6 (Some ''n'') ''f'' claimed1 = Some token"
    by (simp add: issueTaskLease_def Let_def)
  have claimed: "tk_lease_version claimed1 = 1" "tk_id claimed1 = ''a''" "tk_owner claimed1 = ''w1''"
      "tk_state claimed1 = StateClaimed" "tk_lease_expiry claimed1 = 10000000006"
    by (simp_all add: claimed1_def claim_task_def new_task_def)
  have "verifyTaskLease (tok1 lease1) ''k'' 7 token ''f'' ''a'' ''w1'' 1"
    using verify_issued [OF tok1_ok claimed1_json _ tk] claimed
    by (simp add: lease_claims_for_def unix_secs_def)
  then obtain m' where "CompleteTask json1 (tok1 lease1) io_fine 7 ''f'' ''a'' ''w1'' token ''r'' ctl2 = (None, m')"
    using ctl2_task claimed ctl2_fields
    by (auto simp: CompleteTask_def Complete_def saveFleets_def Get_def)
  with completion_needs_current_lease [OF this] show ?thesis by fastforce
qed

text \<open>
  An old lease token is worthless: a token that was issued for a task at one lease version is
  refused by renewing, completing and failing once the task's lease version is another one, which is
  the case after every later claim or renewal, and the state does not change.
\<close>

theorem stale_lease_refused:
  assumes "tokprims_ok T" "claims_json_ok T (lease_claims_for T now0 nb fid t)" "nb \<noteq> []"
    and "issueTaskLease T (fc_lease_key m) now0 (Some nb) fid t = Some token"
    and "fleet_of fid m = Some f" "Get (tk_id t) (fl_board f) = Some current"
    and "tk_lease_version current \<noteq> tk_lease_version t"
  shows "HeartbeatTask J T io now nonce fid (tk_id t) owner token m = (Inl ErrInvalidLease, m) \<and>
    CompleteTask J T io now fid (tk_id t) owner token res m = (Some ErrInvalidLease, m) \<and>
    FailTask J T io now fid (tk_id t) owner token msg rq m = (Some ErrInvalidLease, m)"
proof -
  have "\<not> verifyTaskLease T (fc_lease_key m) now token fid (tk_id t) owner (tk_lease_version current)"
    using verify_issued [OF assms(1-4)] assms(7) by simp
  then show ?thesis using assms(5,6) by (simp add: HeartbeatTask_def CompleteTask_def FailTask_def)
qed

theorem stale_lease_refused_witness:
  "\<exists>token. issueTaskLease (tok1 lease1) ''k'' 6 (Some ''n'') ''f'' (claimed1) = Some token \<and>
     CompleteTask json1 (tok1 lease1) io_fine 7 ''f'' ''a'' ''w1'' token ''r''
       (ctl0\<lparr>fc_fleets := [(''f'', fleet1\<lparr>fl_board := Load [claimed1\<lparr>tk_lease_version := 2\<rparr>] 10\<rparr>)]\<rparr>) =
     (Some ErrInvalidLease,
       ctl0\<lparr>fc_fleets := [(''f'', fleet1\<lparr>fl_board := Load [claimed1\<lparr>tk_lease_version := 2\<rparr>] 10\<rparr>)]\<rparr>)"
proof -
  let ?b = "Load [claimed1\<lparr>tk_lease_version := 2\<rparr>] 10"
  let ?m = "ctl0\<lparr>fc_fleets := [(''f'', fleet1\<lparr>fl_board := ?b\<rparr>)]\<rparr>"
  obtain token where tk: "issueTaskLease (tok1 lease1) (fc_lease_key ?m) 6 (Some ''n'') ''f'' claimed1 = Some token"
    by (simp add: issueTaskLease_def Let_def)
  have task: "fleet_of ''f'' ?m = Some (fleet1\<lparr>fl_board := ?b\<rparr>)" "tk_id claimed1 = ''a''"
      "Get (tk_id claimed1) (fl_board (fleet1\<lparr>fl_board := ?b\<rparr>)) = Some (claimed1\<lparr>tk_lease_version := 2\<rparr>)"
      "tk_lease_version (claimed1\<lparr>tk_lease_version := 2\<rparr>) \<noteq> tk_lease_version claimed1"
    by (simp_all add: fleet_of_def Get_def Load_def claimed1_def claim_task_def new_task_def)
  have "CompleteTask json1 (tok1 lease1) io_fine 7 ''f'' ''a'' ''w1'' token ''r'' ?m = (Some ErrInvalidLease, ?m)"
    using stale_lease_refused [OF tok1_ok claimed1_json _ tk task(1,3,4)] task(2) by simp
  then show ?thesis using tk by (auto simp: ctl0_def)
qed

text \<open>
  The audit trail of a requeue does not name the worker: \<^verbatim>\<open>Sweep\<close> clears the owner before it copies
  the task, so every event that \<^verbatim>\<open>sweepOnce\<close> hands to the ledger carries the reason with an empty
  worker name, whoever held the expired lease.
\<close>

theorem requeue_audit_loses_worker:
  assumes "fleetctl_inv m" "ev \<in> set (fst (sweepOnce J io now m))"
  shows "ev_meta ev = [(''reason'', ''lease expired (worker )'')] \<and> ev_action ev = ''task.requeue''"
proof -
  have "\<exists>f t. ev = requeue_event f (requeue_expired now t)"
    if "list_all (fleet_ok d) fs" "ev \<in> set (fst (sweep_fleets now fs))" for d fs
    using that by (induction fs) (auto simp: split_beta fleet_ok_def Sweep_spec, blast)
  then obtain f t where "ev = requeue_event f (requeue_expired now t)"
    using assms unfolding sweepOnce_def Let_def split_beta fleetctl_inv_def by (simp, blast)
  then show ?thesis by (simp add: requeue_event_def recordFleet_def requeue_expired_def)
qed

theorem requeue_audit_loses_worker_witness:
  "\<exists>ev. fst (sweepOnce json1 io_fine 20000000000 ctl2) = [ev] \<and>
     ev_meta ev = [(''reason'', ''lease expired (worker )'')] \<and> ev_action ev = ''task.requeue''"
proof -
  have inv: "fleetctl_inv ctl2"
  proof -
    note ok = fleet_board_ok [OF ctl1_inv, of "''f''" fleet1]
    have "fleet_of ''f'' ctl1 = Some fleet1" by (simp add: ctl1_def fleet_of_def)
    then show ?thesis
      using ok Claim_inv [of "fl_board fleet1" 6 "''w1''"] Claim_clean [of "fl_board fleet1" 6 "''w1''"]
      by (simp add: fleetctl_inv_def fleet_ok_def ctl2_def ctl1_def ctl0_def) (simp add: fleet1_def)
  qed
  have "\<exists>ev. fst (sweepOnce json1 io_fine 20000000000 ctl2) = [ev]"
    by (simp add: sweepOnce_def ctl2_def fleet1_def Seed_def SetLease_def Add_def NewBoard_def Claim_def Sweep_def
        new_task_def claim_task_def lease_expired_def Let_def)
  then obtain ev where "fst (sweepOnce json1 io_fine 20000000000 ctl2) = [ev]" by blast
  then show ?thesis
    using requeue_audit_loses_worker [OF inv, of ev json1 io_fine 20000000000] by simp
qed

end
