(* ===== verification/Go_Paths.thy ===== *)
theory Go_Paths
  imports Go_Strings
begin

text \<open>
  The lexical path routines of Go's \<^verbatim>\<open>path/filepath\<close> on Unix that the control plane uses
  (\<^verbatim>\<open>IsAbs\<close>, \<^verbatim>\<open>Clean\<close>, \<^verbatim>\<open>Join\<close>, \<^verbatim>\<open>Abs\<close>), and the lemmas that let a path be read as the list of its
  components: a cleaned absolute path is \<open>abs_path\<close> of names that are neither empty nor dots.
\<close>

section \<open>Routines\<close>

abbreviation slash :: char where
  "slash \<equiv> CHR ''/''"

definition is_abs :: "string \<Rightarrow> bool" where
  "is_abs p \<longleftrightarrow> prefix [slash] p"

text \<open>The loop of \<^verbatim>\<open>Clean\<close>; \<open>out\<close> holds the kept components, last one first.\<close>

fun clean_comps :: "bool \<Rightarrow> string list \<Rightarrow> string list \<Rightarrow> string list" where
  "clean_comps rooted out [] = rev out"
| "clean_comps rooted out (c # cs) =
     (if c = [] \<or> c = ''.'' then clean_comps rooted out cs
      else if c = ''..'' then
        (if out \<noteq> [] \<and> hd out \<noteq> ''..'' then clean_comps rooted (tl out) cs
         else if rooted then clean_comps rooted out cs
         else clean_comps rooted (''..'' # out) cs)
      else clean_comps rooted (c # out) cs)"

definition path_clean :: "string \<Rightarrow> string" where
  "path_clean p =
     (let s = (if is_abs p then [slash] else []) @ str_join (clean_comps (is_abs p) [] (split_byte slash p)) [slash]
      in if s = [] then ''.'' else s)"

definition path_join :: "string \<Rightarrow> string \<Rightarrow> string" where
  "path_join a b =
     (if a \<noteq> [] then path_clean (a @ slash # b) else if b \<noteq> [] then path_clean b else [])"

text \<open>\<open>cwd\<close> is what \<^verbatim>\<open>os.Getwd\<close> returns, \<^verbatim>\<open>None\<close> when it fails.\<close>

definition path_abs :: "string option \<Rightarrow> string \<Rightarrow> string option" where
  "path_abs cwd p = (if is_abs p then Some (path_clean p) else map_option (\<lambda>wd. path_join wd p) cwd)"

section \<open>Components\<close>

definition proper_name :: "string \<Rightarrow> bool" where
  "proper_name c \<longleftrightarrow> c \<noteq> [] \<and> c \<noteq> ''.'' \<and> c \<noteq> ''..'' \<and> slash \<notin> set c"

definition abs_path :: "string list \<Rightarrow> string" where
  "abs_path cs = slash # str_join cs [slash]"

abbreviation rooted_comps :: "string \<Rightarrow> string list" where
  "rooted_comps p \<equiv> clean_comps True [] (split_byte slash p)"

lemma clean_comps_proper:
  "list_all proper_name out \<Longrightarrow> list_all (\<lambda>c. slash \<notin> set c) cs \<Longrightarrow>
   list_all proper_name (clean_comps True out cs)"
proof (induction cs arbitrary: out)
  case Nil
  then show ?case by (simp add: list_all_iff)
next
  case (Cons c cs)
  moreover have "list_all proper_name (tl out)" using Cons.prems(1) by (cases out) auto
  moreover have "c \<noteq> [] \<Longrightarrow> c \<noteq> ''.'' \<Longrightarrow> c \<noteq> ''..'' \<Longrightarrow> proper_name c" using Cons.prems(2) by (simp add: proper_name_def)
  ultimately show ?case by simp
qed

lemma rooted_comps_proper [simp]: "list_all proper_name (rooted_comps p)"
  by (rule clean_comps_proper) (auto simp: list_all_iff dest: split_byte_pieces)

lemma clean_comps_append_proper:
  "list_all proper_name xs \<Longrightarrow> clean_comps True out (xs @ ys) = clean_comps True (rev xs @ out) ys"
  by (induction xs arbitrary: out) (auto simp: proper_name_def)

lemma clean_comps_id: "list_all proper_name xs \<Longrightarrow> clean_comps True [] xs = xs"
  using clean_comps_append_proper [of xs "[]" "[]"] by simp

lemma str_join_Cons: "xs \<noteq> [] \<Longrightarrow> str_join (x # xs) sep = x @ sep @ str_join xs sep"
  by (cases xs) auto

lemma str_join_append:
  "xs \<noteq> [] \<Longrightarrow> ys \<noteq> [] \<Longrightarrow> str_join (xs @ ys) sep = str_join xs sep @ sep @ str_join ys sep"
proof (induction xs)
  case (Cons x xs)
  then show ?case by (cases "xs = []") (simp_all add: str_join_Cons)
qed simp

lemma split_join:
  "cs \<noteq> [] \<Longrightarrow> list_all (\<lambda>c. slash \<notin> set c) cs \<Longrightarrow> split_byte slash (str_join cs [slash]) = cs"
proof (induction cs)
  case (Cons c cs)
  then show ?case by (cases "cs = []") (auto simp: str_join_Cons split_byte_no_sep split_byte_append)
qed simp

lemma proper_no_slash: "list_all proper_name cs \<Longrightarrow> list_all (\<lambda>c. slash \<notin> set c) cs"
  by (auto simp: list_all_iff proper_name_def)

lemma rooted_comps_abs_path:
  assumes "list_all proper_name cs"
  shows "rooted_comps (abs_path cs) = cs"
proof (cases "cs = []")
  case False
  then have "split_byte slash (abs_path cs) = [] # cs"
    using split_join [OF False proper_no_slash [OF assms]] by (simp add: abs_path_def)
  then show ?thesis using clean_comps_id [OF assms] by simp
qed (simp add: abs_path_def)

lemma is_abs_abs_path [simp]: "is_abs (abs_path cs)"
  by (simp add: is_abs_def abs_path_def)

lemma path_clean_abs: "is_abs p \<Longrightarrow> path_clean p = abs_path (rooted_comps p)"
  by (simp add: path_clean_def abs_path_def)

lemma path_clean_abs_path: "list_all proper_name cs \<Longrightarrow> path_clean (abs_path cs) = abs_path cs"
  by (simp add: path_clean_abs rooted_comps_abs_path)

lemma abs_path_inject:
  assumes "list_all proper_name xs" "list_all proper_name ys"
  shows "abs_path xs = abs_path ys \<longleftrightarrow> xs = ys"
  using rooted_comps_abs_path [OF assms(1)] rooted_comps_abs_path [OF assms(2)] by metis

lemma split_byte_append_sep:
  "split_byte c (s @ c # t) = split_byte c s @ split_byte c t"
  by (induction s) (auto split: list.splits)

text \<open>Joining a relative path to a cleaned root continues the cleaning from the root's components.\<close>

lemma path_join_root:
  assumes "list_all proper_name rc"
  shows "path_join (abs_path rc) rel = abs_path (clean_comps True (rev rc) (split_byte slash rel))"
proof -
  have "rooted_comps (abs_path rc @ slash # rel) = clean_comps True (rev rc) (split_byte slash rel)"
  proof (cases "rc = []")
    case False
    then have "split_byte slash (abs_path rc) = [] # rc"
      using split_join [OF False proper_no_slash [OF assms]] by (simp add: abs_path_def)
    then show ?thesis using clean_comps_append_proper [OF assms, of "[]" "split_byte slash rel"]
      by (simp add: split_byte_append_sep)
  qed (simp add: abs_path_def)
  moreover have "is_abs (abs_path rc @ slash # rel)" by (simp add: is_abs_def abs_path_def)
  ultimately show ?thesis by (simp add: path_join_def path_clean_abs abs_path_def)
qed

text \<open>The prefix test on strings is the prefix test on components, unless the root is \<open>/\<close>.\<close>

lemma abs_path_append:
  "rc \<noteq> [] \<Longrightarrow> xs \<noteq> [] \<Longrightarrow> abs_path (rc @ xs) = abs_path rc @ slash # str_join xs [slash]"
  by (simp add: abs_path_def str_join_append)

lemma abs_path_prefix:
  assumes "list_all proper_name rc" "list_all proper_name cs" "rc \<noteq> []"
  shows "prefix (abs_path rc @ [slash]) (abs_path cs) \<longleftrightarrow> (\<exists>xs. xs \<noteq> [] \<and> cs = rc @ xs)"
proof
  assume "prefix (abs_path rc @ [slash]) (abs_path cs)"
  then obtain t where t: "abs_path cs = abs_path rc @ slash # t" by (auto simp: prefix_def)
  have "cs \<noteq> []" using t by (auto simp: abs_path_def)
  then have "[] # cs = split_byte slash (abs_path cs)"
    using split_join [OF _ proper_no_slash [OF assms(2)]] by (simp add: abs_path_def)
  also have "\<dots> = split_byte slash (abs_path rc) @ split_byte slash t" unfolding t by (rule split_byte_append_sep)
  also have "split_byte slash (abs_path rc) = [] # rc"
    using split_join [OF assms(3) proper_no_slash [OF assms(1)]] by (simp add: abs_path_def)
  finally show "\<exists>xs. xs \<noteq> [] \<and> cs = rc @ xs" by auto
next
  assume "\<exists>xs. xs \<noteq> [] \<and> cs = rc @ xs"
  then show "prefix (abs_path rc @ [slash]) (abs_path cs)" using abs_path_append [OF assms(3)] by auto
qed

lemma path_join_abs:
  assumes "is_abs a"
  shows "\<exists>cs. path_join a b = abs_path cs \<and> list_all proper_name cs"
proof -
  have "a \<noteq> []" "is_abs (a @ slash # b)" using assms by (auto simp: is_abs_def)
  then show ?thesis by (auto simp: path_join_def path_clean_abs intro: rooted_comps_proper)
qed

lemma path_abs_proper:
  assumes "path_abs cwd p = Some root" "\<And>wd. cwd = Some wd \<Longrightarrow> is_abs wd"
  shows "\<exists>rc. root = abs_path rc \<and> list_all proper_name rc"
proof (cases "is_abs p")
  case True
  then show ?thesis using assms(1) by (auto simp: path_abs_def path_clean_abs intro: rooted_comps_proper)
next
  case False
  then obtain wd where "cwd = Some wd" "root = path_join wd p" using assms(1) by (auto simp: path_abs_def)
  then show ?thesis using assms(2) path_join_abs by blast
qed

end
