(* ===== verification/Executor.thy ===== *)
theory Executor
  imports Manager_Ops Go_Paths
begin

text \<open>
  The governed tools of the control plane (\<^verbatim>\<open>internal/controlplane/executor.go\<close>): shell, Python, Node, the
  file tools and the one-shot browser. Each looks the session up, checks its own preconditions, and runs
  one container command through the governed path. The container backend is the argument \<open>cv_exec\<close>;
  every tool returns, with its result and the new manager state, the request it sent to the backend,
  if it sent one.
\<close>

section \<open>Requests to the backend\<close>

record exec_request =
  er_command :: "string list"
  er_workdir :: string
  er_env :: "string \<rightharpoonup> string"

datatype tool_error =
    ToolNoSandbox | ToolEmptyCommand | ToolUndeclared string | ToolPathAbsolute string | ToolPathEscapes string
  | ToolBrowserOff | ToolNoURL | ToolExec string

text \<open>One call: clocks, the approval's id and how waiting for it ended, the request's actor, the working
  directory of the process, the environment variables that are read, and the backend.\<close>

record 'c call_env =
  cv_now0 :: gotime
  cv_now :: gotime
  cv_later :: gotime
  cv_apid :: string
  cv_outcome :: wait_outcome
  cv_meanwhile :: "'c session \<times> 'c manager \<Rightarrow> 'c session \<times> 'c manager"
  cv_actor :: "string option"
  cv_cwd :: "string option"
  cv_getenv :: "string \<Rightarrow> string"
  cv_exec :: "string \<Rightarrow> exec_request \<Rightarrow> string + exec_result"

type_synonym 'c tool_outcome = "(tool_error, tool_result) result \<times> exec_request option \<times> 'c manager"

text \<open>A session is a shared object: the call's changes to it are seen through the session map, unless
  the sandbox was killed in the meantime.\<close>

definition write_back :: "'c session \<Rightarrow> 'c manager \<Rightarrow> 'c manager" where
  "write_back sess m = (if mg_sessions m (ss_id sess) = None then m else put_session sess m)"

definition govern ::
  "'c::{zero,linorder} govprims \<Rightarrow> 'c call_env \<Rightarrow> string \<Rightarrow> request \<Rightarrow> exec_request \<Rightarrow> 'c session \<Rightarrow> 'c manager \<Rightarrow> 'c tool_outcome" where
  "govern G cv sid rq er sess m =
     (let out = governOut G (cv_now0 cv) (cv_now cv) (cv_later cv) (cv_apid cv) (cv_outcome cv) (cv_meanwhile cv)
                  rq (cv_exec cv sid er) sess m
      in (map_sum ToolExec id (go_result out), if go_ran out then Some er else None,
          write_back (go_session out) (go_manager out)))"

definition refuse :: "tool_error \<Rightarrow> 'c manager \<Rightarrow> 'c tool_outcome" where
  "refuse e m = (Inl e, None, m)"

definition tool_request :: "'c call_env \<Rightarrow> string \<Rightarrow> string \<Rightarrow> string list \<Rightarrow> request" where
  "tool_request cv tool arg args =
     \<lparr>rq_tool = tool, rq_arg = arg, rq_args = args, rq_raw_stdout = False, rq_actor = cv_actor cv\<rparr>"

section \<open>Shell and code\<close>

definition Shell ::
  "'c::{zero,linorder} govprims \<Rightarrow> 'c call_env \<Rightarrow> string \<Rightarrow> string list \<Rightarrow> string \<Rightarrow> 'c manager \<Rightarrow> 'c tool_outcome" where
  "Shell G cv sid command workdir m =
     (case session_of sid m of
        None \<Rightarrow> refuse ToolNoSandbox m
      | Some sess \<Rightarrow>
          if command = [] then refuse ToolEmptyCommand m
          else govern G cv sid (tool_request cv ''shell'' (str_join command '' '') command)
                 \<lparr>er_command = command, er_workdir = (if workdir = [] then ss_workdir sess else workdir), er_env = ss_env sess\<rparr>
                 sess m)"

definition runCode ::
  "'c::{zero,linorder} govprims \<Rightarrow> 'c call_env \<Rightarrow> string \<Rightarrow> string \<Rightarrow> string list \<Rightarrow> string \<Rightarrow> 'c manager \<Rightarrow> 'c tool_outcome" where
  "runCode G cv sid tool command code m =
     (case session_of sid m of
        None \<Rightarrow> refuse ToolNoSandbox m
      | Some sess \<Rightarrow>
          if \<not> hasCapability (ss_profile sess) tool then refuse (ToolUndeclared tool) m
          else govern G cv sid (tool_request cv tool code [])
                 \<lparr>er_command = command, er_workdir = ss_workdir sess, er_env = ss_env sess\<rparr> sess m)"

definition Python ::
  "'c::{zero,linorder} govprims \<Rightarrow> 'c call_env \<Rightarrow> string \<Rightarrow> string \<Rightarrow> 'c manager \<Rightarrow> 'c tool_outcome" where
  "Python G cv sid code m = runCode G cv sid ''python'' [''python3'', ''-c'', code] code m"

definition Node ::
  "'c::{zero,linorder} govprims \<Rightarrow> 'c call_env \<Rightarrow> string \<Rightarrow> string \<Rightarrow> 'c manager \<Rightarrow> 'c tool_outcome" where
  "Node G cv sid code m = runCode G cv sid ''node'' [''node'', ''-e'', code] code m"

section \<open>Files\<close>

abbreviation squote :: char where "squote \<equiv> CHR 0x27"
abbreviation dquote :: char where "dquote \<equiv> CHR 0x22"
abbreviation backslash :: char where "backslash \<equiv> CHR 0x5C"

definition shQuote :: "string \<Rightarrow> string" where
  "shQuote s = [squote] @ replace_all [squote] [squote, backslash, squote, squote] s @ [squote]"

definition resolveFileToolPath :: "string option \<Rightarrow> string \<Rightarrow> string \<Rightarrow> (tool_error, string) result" where
  "resolveFileToolPath cwd workdir rel =
     (if trim_space workdir = [] then Inr rel
      else if is_abs rel then Inl (ToolPathAbsolute rel)
      else
        (let root = (case path_abs cwd workdir of Some r \<Rightarrow> r | None \<Rightarrow> path_clean workdir);
             cleaned = path_clean (path_join root rel)
         in if cleaned \<noteq> root \<and> \<not> has_prefix cleaned (root @ [slash]) then Inl (ToolPathEscapes rel)
            else Inr cleaned))"

text \<open>Standard base64 with padding.\<close>

definition b64_alphabet :: string where
  "b64_alphabet = ''ABCDEFGHIJKLMNOPQRSTUVWXYZabcdefghijklmnopqrstuvwxyz0123456789+/''"

definition sextet :: "nat \<Rightarrow> char" where
  "sextet n = b64_alphabet ! (n mod 64)"

fun base64 :: "string \<Rightarrow> string" where
  "base64 [] = []"
| "base64 [a] = (let x = of_char a :: nat in [sextet (x div 4), sextet (x mod 4 * 16), CHR ''='', CHR ''=''])"
| "base64 [a, b] =
     (let x = of_char a :: nat; y = of_char b :: nat
      in [sextet (x div 4), sextet (x mod 4 * 16 + y div 16), sextet (y mod 16 * 4), CHR ''=''])"
| "base64 (a # b # c # s) =
     (let x = of_char a :: nat; y = of_char b :: nat; z = of_char c :: nat
      in [sextet (x div 4), sextet (x mod 4 * 16 + y div 16), sextet (y mod 16 * 4 + z div 64), sextet (z mod 64)] @ base64 s)"

definition write_script :: "string \<Rightarrow> string \<Rightarrow> string" where
  "write_script path content =
     ''mkdir -p '' @ [dquote] @ ''$(dirname '' @ shQuote path @ '')'' @ [dquote] @ '' && printf %s '' @
     [squote] @ base64 content @ [squote] @ '' | base64 -d > '' @ shQuote path"

text \<open>The file tools share their shape: the session, the resolved path, one governed command.\<close>

definition file_tool ::
  "'c::{zero,linorder} govprims \<Rightarrow> 'c call_env \<Rightarrow> string \<Rightarrow> string \<Rightarrow> string \<Rightarrow> string \<Rightarrow> string list \<Rightarrow>
   (string \<Rightarrow> string list) \<Rightarrow> 'c manager \<Rightarrow> 'c tool_outcome" where
  "file_tool G cv sid path tool arg args command m =
     (case session_of sid m of
        None \<Rightarrow> refuse ToolNoSandbox m
      | Some sess \<Rightarrow>
          (case resolveFileToolPath (cv_cwd cv) (ss_workdir sess) path of
             Inl e \<Rightarrow> refuse e m
           | Inr resolved \<Rightarrow>
               govern G cv sid (tool_request cv tool arg args)
                 \<lparr>er_command = command resolved, er_workdir = ss_workdir sess, er_env = ss_env sess\<rparr> sess m))"

definition FileRead ::
  "'c::{zero,linorder} govprims \<Rightarrow> 'c call_env \<Rightarrow> string \<Rightarrow> string \<Rightarrow> 'c manager \<Rightarrow> 'c tool_outcome" where
  "FileRead G cv sid path m =
     file_tool G cv sid path ''file.read'' path [path] (\<lambda>resolved. [''cat'', ''--'', resolved]) m"

definition FileWrite ::
  "'c::{zero,linorder} govprims \<Rightarrow> 'c call_env \<Rightarrow> string \<Rightarrow> string \<Rightarrow> string \<Rightarrow> 'c manager \<Rightarrow> 'c tool_outcome" where
  "FileWrite G cv sid path content m =
     file_tool G cv sid path ''file.write'' path [path] (\<lambda>resolved. [''sh'', ''-c'', write_script resolved content]) m"

definition dot_path :: "string \<Rightarrow> string" where
  "dot_path path = (if path = [] then ''.'' else path)"

definition FileList ::
  "'c::{zero,linorder} govprims \<Rightarrow> 'c call_env \<Rightarrow> string \<Rightarrow> string \<Rightarrow> 'c manager \<Rightarrow> 'c tool_outcome" where
  "FileList G cv sid path m =
     file_tool G cv sid (dot_path path) ''file.read'' (dot_path path) [dot_path path]
       (\<lambda>resolved. [''ls'', ''-la'', ''--'', resolved]) m"

definition FileSearch ::
  "'c::{zero,linorder} govprims \<Rightarrow> 'c call_env \<Rightarrow> string \<Rightarrow> string \<Rightarrow> string \<Rightarrow> 'c manager \<Rightarrow> 'c tool_outcome" where
  "FileSearch G cv sid query path m =
     file_tool G cv sid (dot_path path) ''file.read'' query [query, dot_path path]
       (\<lambda>resolved. [''grep'', ''-rn'', ''-e'', query, ''--'', resolved]) m"

section \<open>The browser\<close>

definition experimentalBrowserEnabled :: "(string \<Rightarrow> string) \<Rightarrow> bool" where
  "experimentalBrowserEnabled getenv \<longleftrightarrow> trim_space (getenv ''RUNEWARD_ENABLE_EXPERIMENTAL_BROWSER'') = ''1''"

definition find_chrome :: string where
  "find_chrome = ''CHROME=$(command -v chromium 2>/dev/null || command -v chromium-browser 2>/dev/null || command -v google-chrome 2>/dev/null || command -v google-chrome-stable 2>/dev/null || command -v headless-shell 2>/dev/null || echo chromium)''"

definition browserScript :: "(string \<Rightarrow> string) \<Rightarrow> string \<Rightarrow> string \<Rightarrow> string" where
  "browserScript getenv url mode =
     (let renderMode = (if mode = ''screenshot'' then ''screenshot'' else ''text'');
          rbCmd = ''runeward-browser render --mode '' @ renderMode @ '' ${PROXY:+--proxy $PROXY} '' @ shQuote url;
          sandbox = (if getenv ''RUNEWARD_BROWSER_NO_SANDBOX'' = ''0'' then [] else ''--no-sandbox '');
          flags = ''--headless=new '' @ sandbox @ ''--disable-gpu --disable-dev-shm-usage --hide-scrollbars'';
          chrome = ''; '' @ [dquote] @ ''$CHROME'' @ [dquote] @ '' '' @ flags @ '' ${PROXY:+--proxy-server=$PROXY} '';
          fallback = (if mode = ''screenshot''
                      then find_chrome @ chrome @ ''--screenshot=/tmp/rw-shot.png '' @ shQuote url @
                           '' >/dev/null 2>&1; base64 /tmp/rw-shot.png''
                      else find_chrome @ chrome @ ''--dump-dom '' @ shQuote url)
      in ''PROXY='' @ [dquote] @ ''${HTTPS_PROXY:-$HTTP_PROXY}'' @ [dquote] @ ''; '' @
         ''if command -v runeward-browser >/dev/null 2>&1; then '' @ rbCmd @ ''; else '' @ fallback @ ''; fi'')"

definition Browser ::
  "'c::{zero,linorder} govprims \<Rightarrow> 'c call_env \<Rightarrow> string \<Rightarrow> string \<Rightarrow> string \<Rightarrow> 'c manager \<Rightarrow> 'c tool_outcome" where
  "Browser G cv sid url mode m =
     (if \<not> experimentalBrowserEnabled (cv_getenv cv) then refuse ToolBrowserOff m
      else
        (case session_of sid m of
           None \<Rightarrow> refuse ToolNoSandbox m
         | Some sess \<Rightarrow>
             if \<not> hasCapability (ss_profile sess) ''browser'' then refuse (ToolUndeclared ''browser'') m
             else if url = [] then refuse ToolNoURL m
             else govern G cv sid ((tool_request cv ''browser'' url [url, mode])\<lparr>rq_raw_stdout := (mode = ''screenshot'')\<rparr>)
                    \<lparr>er_command = [''sh'', ''-c'', browserScript (cv_getenv cv) url mode],
                     er_workdir = ss_workdir sess, er_env = ss_env sess\<rparr> sess m))"

section \<open>Quoting and encoding\<close>

text \<open>How a POSIX shell reads one word made of single-quoted, escaped and plain characters: the word, and
  the text from the first character that ends it or that the shell would expand.\<close>

definition sh_stops :: "char set" where
  "sh_stops = set ('' |&;<>()$`'' @ [dquote, CHR 0x09, CHR 0x0A])"

fun sh_read :: "bool \<Rightarrow> string \<Rightarrow> string \<times> string" where
  "sh_read quoted [] = ([], [])"
| "sh_read True (c # s) = (if c = squote then sh_read False s else apfst ((#) c) (sh_read True s))"
| "sh_read False (c # s) =
     (if c = squote then sh_read True s
      else if c \<in> sh_stops then ([], c # s)
      else if c = backslash then (case s of [] \<Rightarrow> ([c], []) | d # s' \<Rightarrow> apfst ((#) d) (sh_read False s'))
      else apfst ((#) c) (sh_read False s))"

lemma replace_all_byte:
  "replace_all [c] new (x # s) = (if x = c then new else [x]) @ replace_all [c] new s"
  by (subst replace_all.simps) simp

lemma squote_not_stop: "squote \<notin> sh_stops" "backslash \<notin> sh_stops"
  by (simp_all add: sh_stops_def)

lemma sh_read_quoted:
  "sh_read True (replace_all [squote] [squote, backslash, squote, squote] s @ squote # rest) =
     apfst ((@) s) (sh_read False rest)"
proof (induction s)
  case (Cons x s)
  then show ?case using squote_not_stop by (cases "sh_read False rest") (simp add: replace_all_byte)
qed (cases "sh_read False rest", simp)

lemma sh_read_stop: "rest = [] \<or> hd rest \<in> sh_stops \<Longrightarrow> sh_read False rest = ([], rest)"
  using squote_not_stop by (cases rest) auto

lemma sh_read_shQuote:
  "rest = [] \<or> hd rest \<in> sh_stops \<Longrightarrow> sh_read False (shQuote s @ rest) = (s, rest)"
  using sh_read_quoted [of s rest] sh_read_stop [of rest] by (simp add: shQuote_def)

definition sextet_val :: "char \<Rightarrow> nat" where
  "sextet_val c = length (takeWhile ((\<noteq>) c) b64_alphabet)"

fun unbase64 :: "string \<Rightarrow> string" where
  "unbase64 (a # b # c # d # s) =
     (let w = sextet_val a; x = sextet_val b; y = sextet_val c; z = sextet_val d in
      if d = CHR ''='' then
        (if c = CHR ''='' then [char_of (w * 4 + x div 16)]
         else [char_of (w * 4 + x div 16), char_of (x mod 16 * 16 + y div 4)])
      else [char_of (w * 4 + x div 16), char_of (x mod 16 * 16 + y div 4), char_of (y mod 4 * 64 + z)] @ unbase64 s)"
| "unbase64 _ = []"

lemma sextets: "list_all (\<lambda>n. sextet_val (sextet n) = n \<and> sextet n \<noteq> CHR ''='' \<and> sextet n \<noteq> squote) [0..<64]"
  by code_simp

lemma sextet_facts: "n < 64 \<Longrightarrow> sextet_val (sextet n) = n" "n < 64 \<Longrightarrow> sextet n \<noteq> CHR ''=''" "n < 64 \<Longrightarrow> sextet n \<noteq> squote"
  using sextets by (auto simp: list_all_iff)

lemma byte_lt: "(of_char c :: nat) < 256"
  by (metis of_char_of char_of_char mod_less_divisor zero_less_numeral)

lemma byte_parts:
  "(of_char c :: nat) div 4 < 64" "(of_char c :: nat) div 16 < 16" "(of_char c :: nat) div 64 < 4"
  using byte_lt [of c] by linarith+

text \<open>Joining the pieces that an encoded group was split into.\<close>

lemma split_parts [simp]:
  fixes x y :: nat
  assumes "y < n"
  shows "(x * n + y) div n = x" "(x * n + y) mod n = y"
  using assms by simp_all

lemma sextet_bounds:
  fixes x y :: nat
  shows "y < 16 \<Longrightarrow> x mod 4 * 16 + y < 64" "y < 4 \<Longrightarrow> x mod 16 * 4 + y < 64" "x mod 4 * 16 < 64" "x mod 16 * 4 < 64" "x mod 64 < 64"
  by linarith+

lemmas base64_simps = Let_def sextet_facts sextet_bounds byte_parts

lemma unbase64_base64: "unbase64 (base64 s) = s"
  by (induction s rule: base64.induct) (simp_all add: base64_simps)

lemma base64_no_quote: "squote \<notin> set (base64 s)"
  by (induction s rule: base64.induct) (simp_all add: base64_simps not_sym [OF sextet_facts(3)])

section \<open>Path confinement\<close>

text \<open>The workspace root, as its components.\<close>

definition workspace_root :: "string option \<Rightarrow> string \<Rightarrow> string list" where
  "workspace_root cwd workdir =
     (case path_abs cwd workdir of Some r \<Rightarrow> rooted_comps r | None \<Rightarrow> rooted_comps workdir)"

lemma workspace_root_path:
  assumes "is_abs workdir \<or> (\<exists>wd. cwd = Some wd \<and> is_abs wd)"
  shows "path_abs cwd workdir = Some (abs_path (workspace_root cwd workdir))"
    "list_all proper_name (workspace_root cwd workdir)"
proof -
  obtain r where r: "path_abs cwd workdir = Some r" using assms by (cases "is_abs workdir") (auto simp: path_abs_def)
  obtain rc where "r = abs_path rc" "list_all proper_name rc"
  proof (cases "is_abs workdir")
    case True
    then show ?thesis using r that by (auto simp: path_abs_def path_clean_abs intro: rooted_comps_proper)
  next
    case False
    then show ?thesis using r that assms path_join_abs by (auto simp: path_abs_def)
  qed
  then show "path_abs cwd workdir = Some (abs_path (workspace_root cwd workdir))"
    "list_all proper_name (workspace_root cwd workdir)"
    using r by (simp_all add: workspace_root_def rooted_comps_abs_path)
qed

text \<open>The path that a relative name denotes below the root, before the check.\<close>

definition target_comps :: "string list \<Rightarrow> string \<Rightarrow> string list" where
  "target_comps rc rel = clean_comps True (rev rc) (split_byte slash rel)"

lemma target_comps_proper: "list_all proper_name rc \<Longrightarrow> list_all proper_name (target_comps rc rel)"
  unfolding target_comps_def by (rule clean_comps_proper) (auto simp: list_all_iff dest: split_byte_pieces)

lemma resolveFileToolPath_eq:
  assumes "is_abs workdir \<or> (\<exists>wd. cwd = Some wd \<and> is_abs wd)" "trim_space workdir \<noteq> []"
    and rc: "rc = workspace_root cwd workdir"
  shows "resolveFileToolPath cwd workdir rel =
    (if is_abs rel then Inl (ToolPathAbsolute rel)
     else if target_comps rc rel = rc \<or> has_prefix (abs_path (target_comps rc rel)) (abs_path rc @ [slash])
     then Inr (abs_path (target_comps rc rel)) else Inl (ToolPathEscapes rel))"
proof -
  have p: "list_all proper_name rc" "path_abs cwd workdir = Some (abs_path rc)"
    using workspace_root_path [OF assms(1)] rc by auto
  have j: "path_join (abs_path rc) rel = abs_path (target_comps rc rel)"
    using path_join_root [OF p(1)] by (simp add: target_comps_def)
  have c: "path_clean (abs_path (target_comps rc rel)) = abs_path (target_comps rc rel)"
    by (rule path_clean_abs_path [OF target_comps_proper [OF p(1)]])
  have "abs_path (target_comps rc rel) = abs_path rc \<longleftrightarrow> target_comps rc rel = rc"
    by (rule abs_path_inject [OF target_comps_proper [OF p(1)] p(1)])
  then show ?thesis using assms(2) p(2) j c by (auto simp: resolveFileToolPath_def Let_def)
qed

lemma has_prefix_root:
  assumes "list_all proper_name rc" "list_all proper_name cs" "rc \<noteq> []"
  shows "has_prefix (abs_path cs) (abs_path rc @ [slash]) \<longleftrightarrow> (\<exists>xs. xs \<noteq> [] \<and> cs = rc @ xs)"
  using abs_path_prefix [OF assms] by (simp add: has_prefix_def)

lemma has_prefix_root_slash:
  assumes "list_all proper_name cs"
  shows "\<not> has_prefix (abs_path cs) (abs_path [] @ [slash])"
  using assms by (cases cs; cases "tl cs") (auto simp: has_prefix_def abs_path_def proper_name_def prefix_def append_eq_Cons_conv)

lemma resolveFileToolPath_confined:
  assumes "resolveFileToolPath cwd workdir rel = Inr p" "trim_space workdir \<noteq> []"
    and "is_abs workdir \<or> (\<exists>wd. cwd = Some wd \<and> is_abs wd)"
  shows "\<exists>rest. p = abs_path (workspace_root cwd workdir @ rest) \<and> list_all proper_name rest"
proof -
  let ?rc = "workspace_root cwd workdir" and ?t = "target_comps (workspace_root cwd workdir) rel"
  have rc: "list_all proper_name ?rc" by (rule workspace_root_path [OF assms(3)])
  have t: "list_all proper_name ?t" by (rule target_comps_proper [OF rc])
  have p: "p = abs_path ?t" "?t = ?rc \<or> has_prefix (abs_path ?t) (abs_path ?rc @ [slash])"
    using assms(1) unfolding resolveFileToolPath_eq [OF assms(3,2) refl] by (auto split: if_splits)
  then obtain rest where "?t = ?rc @ rest"
    using has_prefix_root [OF rc t] has_prefix_root_slash [OF t] by (cases "?rc = []") auto
  then show ?thesis using t p(1) by auto
qed

section \<open>The file tools as one family\<close>

datatype file_call = ReadCall string | WriteCall string string | ListCall string | SearchCall string string

fun file_op :: "'c::{zero,linorder} govprims \<Rightarrow> 'c call_env \<Rightarrow> string \<Rightarrow> file_call \<Rightarrow> 'c manager \<Rightarrow> 'c tool_outcome" where
  "file_op G cv sid (ReadCall path) m = FileRead G cv sid path m"
| "file_op G cv sid (WriteCall path content) m = FileWrite G cv sid path content m"
| "file_op G cv sid (ListCall path) m = FileList G cv sid path m"
| "file_op G cv sid (SearchCall query path) m = FileSearch G cv sid query path m"

fun file_command :: "file_call \<Rightarrow> string \<Rightarrow> string list" where
  "file_command (ReadCall path) p = [''cat'', ''--'', p]"
| "file_command (WriteCall path content) p = [''sh'', ''-c'', write_script p content]"
| "file_command (ListCall path) p = [''ls'', ''-la'', ''--'', p]"
| "file_command (SearchCall query path) p = [''grep'', ''-rn'', ''-e'', query, ''--'', p]"

fun file_action :: "file_call \<Rightarrow> action" where
  "file_action (ReadCall path) = \<lparr>act_tool = ''file.read'', act_arg = path, act_args = [path]\<rparr>"
| "file_action (WriteCall path content) = \<lparr>act_tool = ''file.write'', act_arg = path, act_args = [path]\<rparr>"
| "file_action (ListCall path) = \<lparr>act_tool = ''file.read'', act_arg = dot_path path, act_args = [dot_path path]\<rparr>"
| "file_action (SearchCall query path) = \<lparr>act_tool = ''file.read'', act_arg = query, act_args = [query, dot_path path]\<rparr>"

text \<open>What a policy decision together with the outcome of waiting authorizes.\<close>

definition authorized :: "evaluator_impl \<Rightarrow> wait_outcome \<Rightarrow> action \<Rightarrow> bool" where
  "authorized eng outcome a \<longleftrightarrow>
     dec_verdict (engine_Evaluate eng a) = VerdictAllow \<or>
     dec_verdict (engine_Evaluate eng a) = VerdictRequireApprove \<and> outcome = Decided True"

lemma governOut_authorized:
  assumes "wf_impl (ss_engine sess)" "go_ran (governOut G now0 now later apid outcome meanwhile rq run sess m)"
  shows "authorized (ss_engine sess) outcome \<lparr>act_tool = rq_tool rq, act_arg = rq_arg rq, act_args = rq_args rq\<rparr>"
proof -
  have "known_verdict (dec_verdict (rq_decision sess rq))"
    using impl.evaluate_known [OF assms(1)] by (simp add: rq_decision_def)
  moreover have "dec_verdict (rq_decision sess rq) \<noteq> VerdictDeny" using assms(2) by (auto simp: governOut_def Let_def)
  moreover have "outcome = Decided True" if "dec_verdict (rq_decision sess rq) = VerdictRequireApprove"
    using assms(2) that by (auto simp: governOut_def Let_def VerdictDeny_def VerdictRequireApprove_def
        split: wait_outcome.splits if_splits prod.splits)
  ultimately show ?thesis by (auto simp: authorized_def known_verdict_def rq_decision_def)
qed

lemma govern_ran:
  assumes "govern G cv sid rq er sess m = (res, Some er', m')" "wf_impl (ss_engine sess)"
  shows "er' = er \<and> authorized (ss_engine sess) (cv_outcome cv) \<lparr>act_tool = rq_tool rq, act_arg = rq_arg rq, act_args = rq_args rq\<rparr>"
  using assms governOut_authorized [OF assms(2)] by (auto simp: govern_def Let_def split: if_splits)

fun file_path :: "file_call \<Rightarrow> string" where
  "file_path (ReadCall path) = path"
| "file_path (WriteCall path content) = path"
| "file_path (ListCall path) = dot_path path"
| "file_path (SearchCall query path) = dot_path path"

lemma file_op_unfold:
  "file_op G cv sid call m =
     file_tool G cv sid (file_path call) (act_tool (file_action call)) (act_arg (file_action call)) (act_args (file_action call))
       (file_command call) m"
proof -
  have "file_command call = (\<lambda>p. file_command call p)" by simp
  then show ?thesis
    by (cases call) (simp_all add: FileRead_def FileWrite_def FileList_def FileSearch_def file_tool_def split: option.split sum.split)
qed

lemma sh_read_plain_quote:
  "squote \<notin> set w \<Longrightarrow> rest = [] \<or> hd rest \<in> sh_stops \<Longrightarrow> sh_read False ([squote] @ w @ [squote] @ rest) = (w, rest)"
proof (induction w)
  case Nil
  then show ?case using sh_read_stop by simp
next
  case (Cons x w)
  then have "x \<noteq> squote" by auto
  then show ?case using Cons by simp
qed

lemma action_eta: "\<lparr>act_tool = act_tool a, act_arg = act_arg a, act_args = act_args a\<rparr> = a"
  by simp

section \<open>Properties\<close>


definition call0 :: "int call_env" where
  "call0 = \<lparr>cv_now0 = 1, cv_now = 2, cv_later = 3, cv_apid = ''a'', cv_outcome = WaitEnded, cv_meanwhile = (\<lambda>x. x),
     cv_actor = None, cv_cwd = None, cv_getenv = (\<lambda>_. []), cv_exec = (\<lambda>_ _. run0)\<rparr>"

lemma read0_runs:
  "\<exists>res m'. file_op prims0 call0 ''sb'' (ReadCall ''a/../b'') manager0 =
     (res, Some \<lparr>er_command = [''cat'', ''--'', ''/w/b''], er_workdir = ''/w'', er_env = Map.empty\<rparr>, m')"
proof -
  have "resolveFileToolPath None ''/w'' ''a/../b'' = Inr ''/w/b''" by code_simp
  moreover have "go_ran (governOut prims0 1 2 3 ''a'' WaitEnded (\<lambda>x. x) (tool_request call0 ''file.read'' ''a/../b'' [''a/../b''])
      run0 session0 manager0)"
    by (simp add: governOut_def gov_execute_ran within_limits_def rq_decision_def tool_request_def session0_def New_def Evaluate_def
        VerdictAllow_def VerdictDeny_def VerdictRequireApprove_def profile0_def limits0_def fresh_guard_def CheckExec_def
        Over_def Let_def isEgressTool_def)
  ultimately show ?thesis
    by (simp add: file_op_unfold file_tool_def session_of_def manager0_def govern_def Let_def call0_def session0_def)
qed


text \<open>
  Writing is inert and complete: the script that \<^verbatim>\<open>FileWrite\<close> sends to the shell contains the resolved
  path as exactly one literal word in both places and the content as one literal word, whatever bytes
  they hold, and that word decodes from base64 to the content.
\<close>

theorem write_script_delivers:
  "\<exists>s1 s2 s3 b64.
     write_script path content = ''mkdir -p '' @ [dquote] @ ''$(dirname '' @ s1 \<and>
     sh_read False s1 = (path, '')'' @ [dquote] @ '' && printf %s '' @ s2) \<and>
     sh_read False s2 = (b64, '' | base64 -d > '' @ s3) \<and> unbase64 b64 = content \<and>
     sh_read False s3 = (path, [])"
proof -
  let ?s3 = "shQuote path"
  let ?s2 = "[squote] @ base64 content @ [squote] @ '' | base64 -d > '' @ ?s3"
  let ?s1 = "shQuote path @ '')'' @ [dquote] @ '' && printf %s '' @ ?s2"
  have "sh_read False ?s1 = (path, '')'' @ [dquote] @ '' && printf %s '' @ ?s2)"
    by (rule sh_read_shQuote) (simp add: sh_stops_def)
  moreover have "sh_read False ?s2 = (base64 content, '' | base64 -d > '' @ ?s3)"
    by (rule sh_read_plain_quote [OF base64_no_quote]) (simp add: sh_stops_def)
  moreover have "sh_read False ?s3 = (path, [])" using sh_read_shQuote [of "[]" path] by simp
  moreover have "write_script path content = ''mkdir -p '' @ [dquote] @ ''$(dirname '' @ ?s1"
    by (simp add: write_script_def)
  ultimately show ?thesis using unbase64_base64 by blast
qed

text \<open>The workspace \<open>/\<close> is unusable: the prefix test compares with \<open>//\<close>, so every path but the root itself is
  reported as an escape.\<close>

theorem root_workspace_refuses_everything:
  assumes "target_comps [] rel \<noteq> []" "\<not> is_abs rel"
  shows "resolveFileToolPath cwd ''/'' rel = Inl (ToolPathEscapes rel)"
proof -
  have root: "is_abs ''/''" "trim_space ''/'' \<noteq> []" "workspace_root cwd ''/'' = []"
    by (simp_all add: is_abs_def workspace_root_def path_abs_def path_clean_def) code_simp
  then show ?thesis
    using assms has_prefix_root_slash [OF target_comps_proper [of "[]" rel]] resolveFileToolPath_eq [of "''/''" cwd "[]" rel]
    by simp
qed

text \<open>A sandbox whose policy denies reading below \<^verbatim>\<open>secrets\<close>.\<close>

definition deny_secrets :: evaluator_impl where
  "deny_secrets = BuiltinEngine (New [\<lparr>pr_tool = ''file.read'', pr_match = ''secrets/*'', pr_match_argv = [],
     pr_verdict = VerdictDeny, pr_reason = []\<rparr>] VerdictAllow)"

definition guarded0 :: "int manager" where
  "guarded0 = manager0\<lparr>mg_sessions := [''sb'' \<mapsto> session0\<lparr>ss_engine := deny_secrets\<rparr>]\<rparr>"

lemma deny_secrets_eval:
  "dec_verdict (engine_Evaluate deny_secrets (file_action (ReadCall ''secrets/key''))) = VerdictDeny"
  "dec_verdict (engine_Evaluate deny_secrets (file_action (SearchCall ''k'' ''secrets''))) = VerdictAllow"
  by code_simp+

lemma guarded0_session [simp]: "session_of ''sb'' guarded0 = Some (session0\<lparr>ss_engine := deny_secrets\<rparr>)"
  by (simp add: session_of_def guarded0_def)

text \<open>
  Searching escapes a rule on paths: with the policy "deny file.read on \<^verbatim>\<open>secrets/*\<close>", reading
  \<^verbatim>\<open>secrets/key\<close> is denied, but searching below \<^verbatim>\<open>secrets\<close> runs, because \<^verbatim>\<open>FileSearch\<close> evaluates the policy
  on the query and not on the path.
\<close>

theorem search_evades_path_rule:
  "(\<exists>r. fst (FileRead prims0 call0 ''sb'' ''secrets/key'' guarded0) = Inr r \<and> tr_verdict r = VerdictDeny) \<and>
   fst (snd (FileSearch prims0 call0 ''sb'' ''k'' ''secrets'' guarded0)) =
     Some \<lparr>er_command = [''grep'', ''-rn'', ''-e'', ''k'', ''--'', ''/w/secrets''], er_workdir = ''/w'', er_env = Map.empty\<rparr>"
proof
  have path: "resolveFileToolPath None ''/w'' ''secrets/key'' = Inr ''/w/secrets/key''"
    "resolveFileToolPath None ''/w'' ''secrets'' = Inr ''/w/secrets''" by code_simp+
  have sess: "ss_workdir session0 = ''/w''" "ss_env session0 = Map.empty" "cv_cwd call0 = None" "cv_actor call0 = None"
    by (simp_all add: session0_def call0_def)
  show "\<exists>r. fst (FileRead prims0 call0 ''sb'' ''secrets/key'' guarded0) = Inr r \<and> tr_verdict r = VerdictDeny"
    using deny_secrets_eval(1)
    by (simp add: FileRead_def file_tool_def sess path govern_def governOut_def Let_def rq_decision_def tool_request_def)
  have "within_limits prims0 2 (tool_request call0 ''file.read'' ''k'' [''k'', ''secrets'']) (session0\<lparr>ss_engine := deny_secrets\<rparr>) guarded0"
    by (simp add: within_limits_def tool_request_def session0_def profile0_def limits0_def fresh_guard_def CheckExec_def
        Over_def Let_def isEgressTool_def)
  moreover have "cv_now call0 = 2" by (simp add: call0_def)
  ultimately show "fst (snd (FileSearch prims0 call0 ''sb'' ''k'' ''secrets'' guarded0)) =
     Some \<lparr>er_command = [''grep'', ''-rn'', ''-e'', ''k'', ''--'', ''/w/secrets''], er_workdir = ''/w'', er_env = Map.empty\<rparr>"
    using deny_secrets_eval(2)
    by (simp add: FileSearch_def dot_path_def file_tool_def sess path govern_def governOut_def Let_def rq_decision_def
        tool_request_def gov_execute_ran VerdictAllow_def VerdictDeny_def VerdictRequireApprove_def)
qed

end
