(* ===== verification/Egress_Policy.thy ===== *)
theory Egress_Policy
  imports Go_Strings
begin

text \<open>
  The egress policy (\<^verbatim>\<open>internal/egress/policy.go\<close>) and the pinning of a hostname to an address
  (\<^verbatim>\<open>internal/egress/resolve.go\<close>). Addresses are the parameter type \<open>'ip\<close>; the record \<open>netprims\<close> gives
  the routines of Go's \<^verbatim>\<open>net\<close> package on them: parsing and printing an address, parsing a CIDR block into
  its membership test, whether an address is IPv4, and address equality. Splitting and joining
  \<open>host:port\<close> are defined here.
\<close>

section \<open>Host and port strings\<close>

datatype addr_error = MissingPort | TooManyColons | MissingBracket | UnexpectedOpen | UnexpectedClose

definition SplitHostPort :: "string \<Rightarrow> (addr_error, string \<times> string) result" where
  "SplitHostPort hp =
     (case last_index_byte hp CHR '':'' of
        None \<Rightarrow> Inl MissingPort
      | Some i \<Rightarrow>
          if hd hp = CHR ''['' then
            (case index_byte hp CHR '']'' of
               None \<Rightarrow> Inl MissingBracket
             | Some e \<Rightarrow>
                 if e + 1 = length hp then Inl MissingPort
                 else if e + 1 \<noteq> i then (if hp ! (e + 1) = CHR '':'' then Inl TooManyColons else Inl MissingPort)
                 else if CHR ''['' \<in> set (drop 1 hp) then Inl UnexpectedOpen
                 else if CHR '']'' \<in> set (drop (e + 1) hp) then Inl UnexpectedClose
                 else Inr (take (e - 1) (drop 1 hp), drop (i + 1) hp))
          else if CHR '':'' \<in> set (take i hp) then Inl TooManyColons
          else if CHR ''['' \<in> set hp then Inl UnexpectedOpen
          else if CHR '']'' \<in> set hp then Inl UnexpectedClose
          else Inr (take i hp, drop (i + 1) hp))"

definition JoinHostPort :: "string \<Rightarrow> string \<Rightarrow> string" where
  "JoinHostPort host port =
     (if CHR '':'' \<in> set host then ''['' @ host @ '']:'' @ port else host @ '':'' @ port)"

text \<open>\<^verbatim>\<open>strings.Trim\<close> with a set of one-byte characters.\<close>

definition str_trim :: "string \<Rightarrow> char list \<Rightarrow> string" where
  "str_trim s cs = rev (dropWhile (\<lambda>c. c \<in> set cs) (rev (dropWhile (\<lambda>c. c \<in> set cs) s)))"

section \<open>Policies\<close>

record egress_rule =
  eg_verdict :: string
  eg_hostname :: string
  eg_cidr :: string

record egress_policy =
  ep_default :: string
  ep_rules :: "egress_rule list"

record 'ip netprims =
  np_parse_ip :: "string \<Rightarrow> 'ip option"
  np_show_ip :: "'ip \<Rightarrow> string"
  np_parse_cidr :: "string \<Rightarrow> ('ip \<Rightarrow> bool) option"
  np_is_ip4 :: "'ip \<Rightarrow> bool"
  np_equal :: "'ip \<Rightarrow> 'ip \<Rightarrow> bool"

definition verdictAllows :: "string \<Rightarrow> bool" where
  "verdictAllows verdict = equal_fold (trim_space verdict) ''allow''"

definition defaultAllows :: "egress_policy \<Rightarrow> bool" where
  "defaultAllows p = (if trim_space (ep_default p) = [] then True else verdictAllows (ep_default p))"

definition hostnameMatches :: "string \<Rightarrow> string \<Rightarrow> bool" where
  "hostnameMatches pattern0 host0 =
     (let pattern = to_lower (trim_space pattern0); host = to_lower (trim_space host0) in
      if pattern = [] then False
      else (case cut_prefix pattern ''*.'' of
              Some sfx \<Rightarrow> has_suffix host (''.'' @ sfx) \<and> length host > length sfx + 1
            | None \<Rightarrow> pattern = host))"

fun host_rules :: "egress_rule list \<Rightarrow> string \<Rightarrow> bool \<Rightarrow> bool" where
  "host_rules [] host def = def"
| "host_rules (r # rs) host def =
     (if eg_hostname r = [] then host_rules rs host def
      else if hostnameMatches (eg_hostname r) host then verdictAllows (eg_verdict r)
      else host_rules rs host def)"

definition Allow :: "egress_policy \<Rightarrow> string \<Rightarrow> bool" where
  "Allow p host = host_rules (ep_rules p) (to_lower (trim_space host)) (defaultAllows p)"

definition AllowListedHostname :: "egress_policy \<Rightarrow> string \<Rightarrow> bool" where
  "AllowListedHostname p host = host_rules (ep_rules p) (to_lower (trim_space host)) False"

definition cidr_matches :: "'ip netprims \<Rightarrow> string \<Rightarrow> 'ip option \<Rightarrow> bool" where
  "cidr_matches N cidr ip =
     (cidr \<noteq> [] \<and> (case ip of None \<Rightarrow> False
                     | Some a \<Rightarrow> (case np_parse_cidr N cidr of None \<Rightarrow> False | Some network \<Rightarrow> network a)))"

definition addr_rule_matches :: "'ip netprims \<Rightarrow> egress_rule \<Rightarrow> string \<Rightarrow> 'ip option \<Rightarrow> bool" where
  "addr_rule_matches N r host ip \<longleftrightarrow>
     (eg_hostname r \<noteq> [] \<and> hostnameMatches (eg_hostname r) host) \<or> cidr_matches N (eg_cidr r) ip"

fun addr_rules :: "'ip netprims \<Rightarrow> egress_rule list \<Rightarrow> string \<Rightarrow> 'ip option \<Rightarrow> bool \<Rightarrow> bool" where
  "addr_rules N [] host ip def = def"
| "addr_rules N (r # rs) host ip def =
     (if addr_rule_matches N r host ip then verdictAllows (eg_verdict r) else addr_rules N rs host ip def)"

definition AllowAddr :: "'ip netprims \<Rightarrow> egress_policy \<Rightarrow> string \<Rightarrow> bool" where
  "AllowAddr N p hostport =
     (let host0 = (case SplitHostPort hostport of Inr (h, _) \<Rightarrow> h | Inl _ \<Rightarrow> hostport);
          host = to_lower (trim_space host0)
      in addr_rules N (ep_rules p) host (np_parse_ip N host) (defaultAllows p))"

text \<open>\<open>read\<close> is \<^verbatim>\<open>os.ReadFile\<close> and \<open>decode\<close> the JSON decoder.\<close>

definition LoadPolicy :: "(string \<Rightarrow> string option) \<Rightarrow> (string \<Rightarrow> egress_policy option) \<Rightarrow> string \<Rightarrow> egress_policy option" where
  "LoadPolicy read decode path = Option.bind (read path) decode"

section \<open>Pinning\<close>

datatype pin_error = EmptyAuthority | LookupFailed | NoAddresses

definition hostWithDefaultPort :: "string \<Rightarrow> string \<Rightarrow> (pin_error, string \<times> string) result" where
  "hostWithDefaultPort authority defaultPort =
     (if authority = [] then Inl EmptyAuthority
      else (case SplitHostPort authority of
              Inr (h, p) \<Rightarrow> Inr (str_trim (trim_space h) ''[]'', p)
            | Inl _ \<Rightarrow> Inr (str_trim (trim_space authority) ''[]'', defaultPort)))"

text \<open>\<open>lookup\<close> is the DNS resolver: \<^verbatim>\<open>None\<close> when it fails.\<close>

definition pickPinnedIP ::
  "'ip netprims \<Rightarrow> (string \<Rightarrow> 'ip list option) \<Rightarrow> string \<Rightarrow> 'ip option \<Rightarrow> (pin_error, 'ip) result" where
  "pickPinnedIP N lookup host dstHint =
     (case np_parse_ip N host of
        Some ip \<Rightarrow> Inr ip
      | None \<Rightarrow>
          (case lookup host of
             None \<Rightarrow> Inl LookupFailed
           | Some addrs \<Rightarrow>
               if addrs = [] then Inl NoAddresses
               else
                 (case (case dstHint of None \<Rightarrow> None | Some d \<Rightarrow> find (\<lambda>a. np_equal N a d) addrs) of
                    Some a \<Rightarrow> Inr a
                  | None \<Rightarrow>
                      (case find (np_is_ip4 N) addrs of Some a \<Rightarrow> Inr a | None \<Rightarrow> Inr (hd addrs)))))"

definition pinnedAddrForHost ::
  "'ip netprims \<Rightarrow> (string \<Rightarrow> 'ip list option) \<Rightarrow> string \<Rightarrow> string \<Rightarrow> 'ip option \<Rightarrow> (pin_error, string) result" where
  "pinnedAddrForHost N lookup host port dstHint =
     (case pickPinnedIP N lookup host dstHint of
        Inl e \<Rightarrow> Inl e
      | Inr ip \<Rightarrow> Inr (JoinHostPort (np_show_ip N ip) port))"

section \<open>Lemmas\<close>

lemma host_rules_find:
  "host_rules rs host def =
     (case find (\<lambda>r. eg_hostname r \<noteq> [] \<and> hostnameMatches (eg_hostname r) host) rs of
        Some r \<Rightarrow> verdictAllows (eg_verdict r) | None \<Rightarrow> def)"
  by (induction rs) auto

lemma addr_rules_find:
  "addr_rules N rs host ip def =
     (case find (\<lambda>r. addr_rule_matches N r host ip) rs of Some r \<Rightarrow> verdictAllows (eg_verdict r) | None \<Rightarrow> def)"
  by (induction rs) auto

lemma pickPinnedIP_resolved:
  assumes "pickPinnedIP N lookup host hint = Inr ip" "np_parse_ip N host = None"
  shows "\<exists>addrs. lookup host = Some addrs \<and> ip \<in> set addrs"
proof -
  obtain addrs where a: "lookup host = Some addrs" "addrs \<noteq> []"
    using assms by (auto simp: pickPinnedIP_def split: option.splits if_splits)
  have "ip = hd addrs \<or> (\<exists>P. find P addrs = Some ip)"
    using assms a by (auto simp: pickPinnedIP_def split: option.splits)
  then show ?thesis using a by (auto simp: find_Some_iff)
qed

text \<open>Splitting undoes joining, for a host without brackets.\<close>

lemma index_byte_first: "c \<notin> set s \<Longrightarrow> index_byte (s @ c # t) c = Some (length s)"
  by (induction s) (auto simp: index_byte_def)

lemma SplitHostPort_plain:
  assumes "set host \<inter> {CHR '':'', CHR ''['', CHR '']''} = {}" "set port \<inter> {CHR '':'', CHR ''['', CHR '']''} = {}"
  shows "SplitHostPort (host @ '':'' @ port) = Inr (host, port)"
  using assms last_index_byte_last [of "CHR '':''" port host]
  by (cases host) (auto simp: SplitHostPort_def)

lemma SplitHostPort_bracketed:
  assumes "set host \<inter> {CHR ''['', CHR '']''} = {}" "set port \<inter> {CHR '':'', CHR ''['', CHR '']''} = {}"
  shows "SplitHostPort (''['' @ host @ '']:'' @ port) = Inr (host, port)"
proof -
  have "last_index_byte (''['' @ host @ '']:'' @ port) CHR '':'' = Some (length host + 2)"
    using last_index_byte_last [of "CHR '':''" port "''['' @ host @ '']''"] assms by auto
  moreover have "index_byte (''['' @ host @ '']:'' @ port) CHR '']'' = Some (length host + 1)"
    using index_byte_first [of "CHR '']''" "''['' @ host" "'':'' @ port"] assms by auto
  ultimately show ?thesis using assms by (auto simp: SplitHostPort_def)
qed

lemma Split_Join:
  assumes "set host \<inter> {CHR ''['', CHR '']''} = {}" "set port \<inter> {CHR '':'', CHR ''['', CHR '']''} = {}"
  shows "SplitHostPort (JoinHostPort host port) = Inr (host, port)"
  using SplitHostPort_plain [of host port] SplitHostPort_bracketed [OF assms] assms by (simp add: JoinHostPort_def)

section \<open>Properties\<close>

text \<open>
  What a hostname rule matches: with both sides trimmed and lowered, a pattern \<^verbatim>\<open>*.d\<close> matches exactly
  the names that have a non-empty label sequence before \<^verbatim>\<open>.d\<close>, so never the bare domain; any other
  non-empty pattern matches exactly itself.
\<close>

theorem hostnameMatches_spec:
  "hostnameMatches pattern host \<longleftrightarrow>
     (\<exists>d l. to_lower (trim_space pattern) = ''*.'' @ d \<and> l \<noteq> [] \<and> to_lower (trim_space host) = l @ ''.'' @ d) \<or>
     (to_lower (trim_space pattern) \<noteq> [] \<and> \<not> prefix ''*.'' (to_lower (trim_space pattern)) \<and>
      to_lower (trim_space pattern) = to_lower (trim_space host))"
proof (cases "prefix ''*.'' (to_lower (trim_space pattern))")
  case True
  then obtain d where d: "to_lower (trim_space pattern) = ''*.'' @ d" by (auto simp: prefix_def)
  then have "hostnameMatches pattern host \<longleftrightarrow>
      suffix (''.'' @ d) (to_lower (trim_space host)) \<and> length (to_lower (trim_space host)) > length d + 1"
    by (auto simp: hostnameMatches_def Let_def cut_prefix_def has_suffix_def)
  also have "\<dots> \<longleftrightarrow> (\<exists>l. l \<noteq> [] \<and> to_lower (trim_space host) = l @ ''.'' @ d)"
    unfolding suffix_def by (auto simp del: length_to_lower)
  finally show ?thesis using d True by auto
next
  case False
  then show ?thesis by (auto simp: hostnameMatches_def Let_def cut_prefix_def)
qed

text \<open>
  The first matching rule decides: \<^verbatim>\<open>AllowAddr\<close> returns the verdict of the first rule whose hostname
  pattern or CIDR block covers the destination, and the default when none does; a rule whose verdict is
  anything but \<^verbatim>\<open>allow\<close> denies.
\<close>

theorem AllowAddr_first_match:
  assumes "SplitHostPort hostport = Inr (host0, port)" "host = to_lower (trim_space host0)"
  shows "AllowAddr N p hostport =
    (case find (\<lambda>r. addr_rule_matches N r host (np_parse_ip N host)) (ep_rules p) of
       Some r \<Rightarrow> equal_fold (trim_space (eg_verdict r)) ''allow''
     | None \<Rightarrow> defaultAllows p)"
  using assms by (simp add: AllowAddr_def Let_def addr_rules_find verdictAllows_def cong: option.case_cong)

text \<open>A concrete instance of the network routines: dotted-quad addresses.\<close>

fun read_octet :: "string \<Rightarrow> nat option" where
  "read_octet s =
     (if s = [] \<or> length s > 3 \<or> \<not> list_all (\<lambda>c. CHR ''0'' \<le> c \<and> c \<le> CHR ''9'') s then None
      else if hd s = CHR ''0'' \<and> length s > 1 then None
      else let n = read_nat 0 s in if n > 255 then None else Some n)"

definition parse_ip4 :: "string \<Rightarrow> nat list option" where
  "parse_ip4 s = (let os = map read_octet (split_byte CHR ''.'' s) in
     if length os = 4 \<and> None \<notin> set os then Some (map the os) else None)"

definition ip4_net :: "nat list netprims" where
  "ip4_net = \<lparr>np_parse_ip = parse_ip4, np_show_ip = (\<lambda>ip. str_join (map show_nat ip) ''.''),
     np_parse_cidr = (\<lambda>s. map_option (\<lambda>ip a. take 1 a = take 1 ip) (parse_ip4 (takeWhile ((\<noteq>) CHR ''/'') s))),
     np_is_ip4 = (\<lambda>_. True), np_equal = (=)\<rparr>"

definition policy0 :: egress_policy where
  "policy0 = \<lparr>ep_default = ''allow'', ep_rules = [\<lparr>eg_verdict = ''deny'', eg_hostname = [], eg_cidr = ''10.0.0.0/8''\<rparr>]\<rparr>"

theorem AllowAddr_first_match_witness:
  "\<not> AllowAddr ip4_net policy0 ''10.1.2.3:80'' \<and> SplitHostPort ''10.1.2.3:80'' = Inr (''10.1.2.3'', ''80'')"
proof -
  have split: "SplitHostPort ''10.1.2.3:80'' = Inr (''10.1.2.3'', ''80'')" by code_simp
  have "to_lower (trim_space ''10.1.2.3'') = ''10.1.2.3''" by code_simp
  moreover have "find (\<lambda>r. addr_rule_matches ip4_net r ''10.1.2.3'' (np_parse_ip ip4_net ''10.1.2.3'')) (ep_rules policy0) =
      Some \<lparr>eg_verdict = ''deny'', eg_hostname = [], eg_cidr = ''10.0.0.0/8''\<rparr>" by code_simp
  moreover have "\<not> equal_fold (trim_space ''deny'') ''allow''" by code_simp
  ultimately show ?thesis
    using AllowAddr_first_match [OF split, of "''10.1.2.3''" ip4_net policy0] split by simp
qed

end
