(* ===== verification/SNI.thy ===== *)
theory SNI
  imports Egress_Policy
begin

text \<open>
  Recovering a hostname from the first bytes of a connection (\<^verbatim>\<open>internal/egress/sni.go\<close>): the server name of
  a TLS ClientHello and the Host header of a plain HTTP request. Bytes are characters; every slice the
  code takes is guarded by a length test, which the model keeps.
\<close>

section \<open>TLS\<close>

abbreviation byte :: "char \<Rightarrow> nat" where
  "byte c \<equiv> of_char c"

definition u16 :: "string \<Rightarrow> nat" where
  "u16 s = byte (s ! 0) * 256 + byte (s ! 1)"

function name_loop :: "string \<Rightarrow> (string option) option" where
  "name_loop snl =
     (if length snl < 3 then None
      else
        (let nameLen = u16 (drop 1 snl); rest = drop 3 snl in
         if length rest < nameLen then Some None
         else if byte (snl ! 0) = 0 then Some (Some (to_lower (take nameLen rest)))
         else name_loop (drop nameLen rest)))"
  by pat_completeness auto
termination
  by (relation "measure length") auto

text \<open>\<open>None\<close>: the list was exhausted and the extension loop goes on; \<open>Some r\<close>: the function returned \<open>r\<close>.\<close>

function ext_loop :: "string \<Rightarrow> string option" where
  "ext_loop p =
     (if length p < 4 then None
      else
        (let extType = u16 p; extLen = u16 (drop 2 p); rest = drop 4 p in
         if length rest < extLen then None
         else
           (let body = take extLen rest; p' = drop extLen rest in
            if extType \<noteq> 0 then ext_loop p'
            else if length body < 2 then None
            else (case name_loop (take (u16 body) (drop 2 body)) of
                    Some r \<Rightarrow> r
                  | None \<Rightarrow> ext_loop p'))))"
  by pat_completeness auto
termination
  by (relation "measure length") auto

declare name_loop.simps [simp del] ext_loop.simps [simp del]

text \<open>Dropping a length-prefixed vector, with a prefix of one or two bytes.\<close>

definition skip_vec :: "nat \<Rightarrow> string \<Rightarrow> string option" where
  "skip_vec w p =
     (if length p < w then None
      else (let n = (if w = 1 then byte (p ! 0) else u16 p); rest = drop w p in
            if length rest < n then None else Some (drop n rest)))"

definition ExtractSNI :: "string \<Rightarrow> string option" where
  "ExtractSNI data =
     (if length data < 5 \<or> byte (data ! 0) \<noteq> 22 then None
      else
        (let buf = take (u16 (drop 3 data)) (drop 5 data) in
         if length buf < 4 \<or> byte (buf ! 0) \<noteq> 1 then None
         else
           (let hs = drop 4 buf in
            if length hs < 34 then None
            else
              (case skip_vec 1 (drop 34 hs) of
                 None \<Rightarrow> None
               | Some p1 \<Rightarrow>
                   (case skip_vec 2 p1 of
                      None \<Rightarrow> None
                    | Some p2 \<Rightarrow>
                        (case skip_vec 1 p2 of
                           None \<Rightarrow> None
                         | Some p3 \<Rightarrow>
                             if length p3 < 2 then None
                             else ext_loop (take (u16 p3) (drop 2 p3))))))))"

section \<open>HTTP\<close>

definition http_methods :: "string list" where
  "http_methods = [''GET '', ''POST '', ''PUT '', ''HEAD '', ''DELETE '', ''PATCH '', ''OPTIONS '', ''TRACE '', ''CONNECT '']"

text \<open>\<^verbatim>\<open>bytes.Split\<close> at CR LF.\<close>

fun split_crlf :: "string \<Rightarrow> string list" where
  "split_crlf [] = [[]]"
| "split_crlf [c] = [[c]]"
| "split_crlf (c # d # s) =
     (if c = CHR 0x0D \<and> d = CHR 0x0A then [] # split_crlf s
      else (case split_crlf (d # s) of [] \<Rightarrow> [[c]] | l # ls \<Rightarrow> (c # l) # ls))"

definition header_host :: "string \<Rightarrow> string" where
  "header_host value =
     (let host = trim_space value;
          cut = (case last_index_byte host CHR '':'' of
                   Some i \<Rightarrow> if CHR '']'' \<in> set (drop i host) then host else take i host
                 | None \<Rightarrow> host)
      in to_lower (str_trim cut ''[]''))"

fun host_line :: "string list \<Rightarrow> string option" where
  "host_line [] = None"
| "host_line (line # ls) =
     (if line = [] then None
      else if length line \<ge> 5 \<and> equal_fold (take 5 line) ''host:'' then Some (header_host (drop 5 line))
      else host_line ls)"

definition httpHostFromPeek :: "string \<Rightarrow> string option" where
  "httpHostFromPeek data =
     (if list_ex (has_prefix data) http_methods then host_line (split_crlf data) else None)"

section \<open>A ClientHello\<close>

text \<open>The wire format, for stating what the parser recovers: \<open>vec w s\<close> is \<open>s\<close> with a big-endian length
  prefix of \<open>w\<close> bytes.\<close>

definition be16 :: "nat \<Rightarrow> string" where
  "be16 n = [char_of (n div 256), char_of n]"

definition vec8 :: "string \<Rightarrow> string" where "vec8 s = char_of (length s) # s"
definition vec16 :: "string \<Rightarrow> string" where "vec16 s = be16 (length s) @ s"

definition extension :: "nat \<Rightarrow> string \<Rightarrow> string" where
  "extension ty body = be16 ty @ vec16 body"

definition sni_extension :: "string \<Rightarrow> string" where
  "sni_extension name = extension 0 (vec16 (char_of (0 :: nat) # vec16 name))"

definition client_hello :: "string \<Rightarrow> string \<Rightarrow> string \<Rightarrow> string \<Rightarrow> string \<Rightarrow> string \<Rightarrow> string" where
  "client_hello hslen random sid suites compr exts =
     char_of (1 :: nat) # hslen @ random @ vec8 sid @ vec16 suites @ vec8 compr @ vec16 exts"

definition tls_record :: "string \<Rightarrow> string \<Rightarrow> string" where
  "tls_record version payload = char_of (22 :: nat) # version @ vec16 payload"

section \<open>Lemmas\<close>

lemma byte_char_of [simp]: "n < 256 \<Longrightarrow> byte (char_of n) = n"
  by (simp add: of_char_of)

lemma length_be16 [simp]: "length (be16 n) = 2"
  by (simp add: be16_def)

lemma u16_be16 [simp]: "n < 65536 \<Longrightarrow> u16 (be16 n @ s) = n"
  by (simp add: u16_def be16_def of_char_of)

lemma skip_vec8 [simp]: "length s < 256 \<Longrightarrow> skip_vec (Suc 0) (vec8 s @ t) = Some t"
  by (simp add: skip_vec_def vec8_def)

lemma skip_vec16 [simp]: "length s < 65536 \<Longrightarrow> skip_vec 2 (vec16 s @ t) = Some t"
  by (simp add: skip_vec_def vec16_def)

lemma ext_loop_other:
  assumes "0 < ty" "ty < 65536" "length body < 65536"
  shows "ext_loop (extension ty body @ p) = ext_loop p"
  using assms by (subst ext_loop.simps) (simp add: extension_def vec16_def)

lemma ext_loop_others:
  "list_all (\<lambda>(ty, body). 0 < ty \<and> ty < 65536 \<and> length body < 65536) pre \<Longrightarrow>
   ext_loop (concat (map (\<lambda>(ty, body). extension ty body) pre) @ p) = ext_loop p"
  by (induction pre) (auto simp: ext_loop_other)

lemma name_loop_host:
  assumes "length name < 65536"
  shows "name_loop (char_of (0 :: nat) # vec16 name) = Some (Some (to_lower name))"
  using assms by (subst name_loop.simps) (simp add: vec16_def)

lemma ext_loop_sni:
  assumes "length name < 65531"
  shows "ext_loop (sni_extension name @ p) = Some (to_lower name)"
  using assms name_loop_host [of name]
  by (subst ext_loop.simps) (simp add: sni_extension_def extension_def vec16_def)

lemma u16_be16_nil [simp]: "n < 65536 \<Longrightarrow> u16 (be16 n) = n"
  using u16_be16 [of n "[]"] by simp

lemma length_vec16 [simp]: "length (vec16 s) = length s + 2"
  by (simp add: vec16_def)

section \<open>Properties\<close>

text \<open>
  C39. The sniffed name is the name the client sent: a well-formed ClientHello with the server name
  extension after any other extensions, in one TLS record and followed by anything, is parsed to
  exactly its server name in lower case.
\<close>

theorem ExtractSNI_client_hello:
  assumes "length version = 2" "length hslen = 3" "length random = 34" "length sid < 256" "length suites < 65536"
    and "length compr < 256" "length name < 65531"
    and "list_all (\<lambda>(ty, body). 0 < ty \<and> ty < 65536 \<and> length body < 65536) pre"
    and exts: "exts = concat (map (\<lambda>(ty, body). extension ty body) pre) @ sni_extension name @ post" "length exts < 65536"
    and payload: "payload = client_hello hslen random sid suites compr exts" "length payload < 65536"
  shows "ExtractSNI (tls_record version payload @ trailing) = Some (to_lower name)"
proof -
  let ?data = "tls_record version payload @ trailing"
  let ?p1 = "vec16 suites @ vec8 compr @ vec16 exts"
  have data: "drop 3 ?data = be16 (length payload) @ payload @ trailing" "drop 5 ?data = payload @ trailing"
    "byte (?data ! 0) = 22" "\<not> length ?data < 5"
    using assms(1) by (simp_all add: tls_record_def vec16_def be16_def)
  then have buf: "take (u16 (drop 3 ?data)) (drop 5 ?data) = payload" using payload(2) by simp
  have hello: "byte (payload ! 0) = 1" "\<not> length payload < 4" "\<not> length (drop 4 payload) < 34"
    "drop 34 (drop 4 payload) = vec8 sid @ ?p1"
    using assms(2,3) by (simp_all add: payload(1) client_hello_def)
  have "ext_loop (take (u16 (vec16 exts)) (drop 2 (vec16 exts))) = ext_loop exts"
    using exts(2) by (simp add: vec16_def)
  also have "\<dots> = Some (to_lower name)" unfolding exts(1) ext_loop_others [OF assms(8)] by (rule ext_loop_sni [OF assms(7)])
  finally have ext: "ext_loop (take (u16 (vec16 exts)) (drop 2 (vec16 exts))) = Some (to_lower name)" .
  have "skip_vec 1 (vec8 sid @ ?p1) = Some ?p1" "skip_vec 2 ?p1 = Some (vec8 compr @ vec16 exts)"
    "skip_vec 1 (vec8 compr @ vec16 exts) = Some (vec16 exts)" using assms(4,5,6) by simp_all
  then show ?thesis using data(3,4) hello ext unfolding ExtractSNI_def Let_def buf by simp
qed

theorem ExtractSNI_client_hello_witness:
  "ExtractSNI (tls_record ''ab'' (client_hello ''xyz'' (replicate 34 CHR ''r'') [] ''cs'' [CHR 0x00]
     (extension 43 ''v'' @ sni_extension ''Api.Example.com'' @ [])) @ ''tail'') = Some ''api.example.com''"
proof -
  let ?exts = "concat (map (\<lambda>(ty, body). extension ty body) [(43, ''v'')]) @ sni_extension ''Api.Example.com'' @ []"
  let ?payload = "client_hello ''xyz'' (replicate 34 CHR ''r'') [] ''cs'' [CHR 0x00] ?exts"
  have "length ?exts < 65536" "length ?payload < 65536"
    by (simp_all add: extension_def sni_extension_def vec16_def client_hello_def vec8_def)
  moreover have "to_lower ''Api.Example.com'' = ''api.example.com''" by code_simp
  ultimately show ?thesis
    using ExtractSNI_client_hello [of "''ab''" "''xyz''" "replicate 34 CHR ''r''" "[]" "''cs''" "[CHR 0x00]" "''Api.Example.com''"
        "[(43, ''v'')]" ?exts "[]" ?payload "''tail''"] by simp
qed

end
