(* ===== verification/Decision_Log.thy ===== *)
theory Decision_Log
  imports Go_Strings
begin

text \<open>
  The per-sandbox log of egress decisions (\<^verbatim>\<open>internal/egress/decisionlog.go\<close>): a ring of 128 entries for each
  sandbox. The specification is the list of all decisions recorded so far; the ring is refined against
  it: what the dashboard lists is the last 128 of them, in order.
\<close>

section \<open>The ring\<close>

definition maxDecisionsPerSandbox :: nat where
  "maxDecisionsPerSandbox = 128"

record egress_decision =
  ed_timestamp :: gotime
  ed_host :: string
  ed_ip :: string
  ed_allow :: bool
  ed_reason :: string

definition zero_decision :: egress_decision where
  "zero_decision = \<lparr>ed_timestamp = 0, ed_host = [], ed_ip = [], ed_allow = False, ed_reason = []\<rparr>"

record decision_ring =
  dr_items :: "egress_decision list"
  dr_next :: nat
  dr_full :: bool

type_synonym decision_log = "string \<rightharpoonup> decision_ring"

definition new_ring :: decision_ring where
  "new_ring = \<lparr>dr_items = replicate maxDecisionsPerSandbox zero_decision, dr_next = 0, dr_full = False\<rparr>"

definition push_ring :: "egress_decision \<Rightarrow> decision_ring \<Rightarrow> decision_ring" where
  "push_ring d r =
     (let next = (dr_next r + 1) mod length (dr_items r) in
      \<lparr>dr_items = (dr_items r)[dr_next r := d], dr_next = next, dr_full = (if next = 0 then True else dr_full r)\<rparr>)"

definition RecordDecision ::
  "gotime \<Rightarrow> string \<Rightarrow> string \<Rightarrow> string \<Rightarrow> bool \<Rightarrow> string \<Rightarrow> decision_log \<Rightarrow> decision_log" where
  "RecordDecision now sandboxID host ip allow reason log =
     (let sid = trim_space sandboxID in
      if sid = [] then log
      else
        (let d = \<lparr>ed_timestamp = now, ed_host = trim_space host, ed_ip = trim_space ip, ed_allow = allow,
                  ed_reason = trim_space reason\<rparr>;
             r = (case log sid of Some r \<Rightarrow> r | None \<Rightarrow> new_ring)
         in log(sid \<mapsto> push_ring d r)))"

definition list_ring :: "decision_ring \<Rightarrow> egress_decision list" where
  "list_ring r =
     (if \<not> dr_full r then take (dr_next r) (dr_items r)
      else drop (dr_next r) (dr_items r) @ take (dr_next r) (dr_items r))"

definition ListDecisions :: "string \<Rightarrow> decision_log \<Rightarrow> egress_decision list" where
  "ListDecisions sandboxID log =
     (let sid = trim_space sandboxID in
      if sid = [] then [] else (case log sid of None \<Rightarrow> [] | Some r \<Rightarrow> list_ring r))"

definition sandboxIDFromLoggerPrefix :: "string \<Rightarrow> string" where
  "sandboxIDFromLoggerPrefix prefix0 =
     (let pre = trim_space prefix0; marker = ''runeward-egress '' in
      if pre = [] then []
      else (case str_index pre marker of
              None \<Rightarrow> []
            | Some i \<Rightarrow>
                (let rest = trim_space (drop (i + length marker) pre) in
                 if rest = [] then []
                 else trim_space (case index_byte rest CHR '' '' of Some j \<Rightarrow> take j rest | None \<Rightarrow> rest))))"

section \<open>A bounded log\<close>

text \<open>What a client of the log may rely on: the entries kept are the last \<open>bound\<close> ones pushed.\<close>

locale bounded_log =
  fixes push :: "'d \<Rightarrow> 's \<Rightarrow> 's" and entries :: "'s \<Rightarrow> 'd list" and inv :: "'s \<Rightarrow> bool" and bound :: nat
  assumes push_inv: "inv s \<Longrightarrow> inv (push d s)"
    and push_entries: "inv s \<Longrightarrow> entries (push d s) =
      (if length (entries s) < bound then entries s @ [d] else tl (entries s) @ [d])"
    and entries_bound: "inv s \<Longrightarrow> length (entries s) \<le> bound"
    and bound_pos: "0 < bound"
begin

definition recent :: "'d list \<Rightarrow> 'd list" where
  "recent ds = drop (length ds - bound) ds"

lemma recent_snoc:
  "recent (ds @ [d]) = (if length (recent ds) < bound then recent ds @ [d] else tl (recent ds) @ [d])"
proof (cases "length ds < bound")
  case False
  then have "Suc (length ds) - bound = Suc (length ds - bound)" by simp
  then show ?thesis using False bound_pos by (simp add: recent_def drop_Suc tl_drop)
qed (simp add: recent_def)

lemma run_inv: "inv s \<Longrightarrow> inv (fold push ds s)"
  by (induction ds arbitrary: s) (auto simp: push_inv)

lemma run_recent:
  assumes "inv s" "entries s = []"
  shows "entries (fold push ds s) = recent ds"
proof (induction ds rule: rev_induct)
  case (snoc d ds)
  then show ?case using push_entries [OF run_inv [OF assms(1)], of d ds] by (simp add: recent_snoc)
qed (simp add: recent_def assms(2))

end

section \<open>The ring is a bounded log\<close>

definition ring_inv :: "decision_ring \<Rightarrow> bool" where
  "ring_inv r \<longleftrightarrow> length (dr_items r) = maxDecisionsPerSandbox \<and> dr_next r < maxDecisionsPerSandbox"

interpretation ring: bounded_log push_ring list_ring ring_inv maxDecisionsPerSandbox
proof
  fix d and r :: decision_ring
  assume inv: "ring_inv r"
  let ?n = maxDecisionsPerSandbox
  have n: "0 < ?n" by (simp add: maxDecisionsPerSandbox_def)
  show "ring_inv (push_ring d r)" using inv n by (simp add: ring_inv_def push_ring_def Let_def)
  show "length (list_ring r) \<le> ?n" using inv by (auto simp: list_ring_def ring_inv_def)
  show "list_ring (push_ring d r) = (if length (list_ring r) < ?n then list_ring r @ [d] else tl (list_ring r) @ [d])"
  proof -
    let ?k = "dr_next r" and ?xs = "dr_items r"
    have k: "?k < length ?xs" "length ?xs = ?n" using inv by (auto simp: ring_inv_def)
    have put: "take (Suc ?k) (?xs[?k := d]) = take ?k ?xs @ [d]" using k by (simp add: take_Suc_conv_app_nth)
    have last: "tl (drop ?k ?xs @ take ?k ?xs) = drop (Suc ?k) ?xs @ take ?k ?xs"
      using Cons_nth_drop_Suc [OF k(1)] by (metis append_Cons list.sel(3))
    show ?thesis
    proof (cases "Suc ?k = ?n")
      case True
      then have "?xs[?k := d] = take ?k ?xs @ [d]" using put k by simp
      then show ?thesis using True k last by (simp add: list_ring_def push_ring_def Let_def)
    next
      case False
      then show ?thesis using k put last by (simp add: list_ring_def push_ring_def Let_def)
    qed
  qed
next
  show "0 < maxDecisionsPerSandbox" by (simp add: maxDecisionsPerSandbox_def)
qed

section \<open>Properties\<close>

text \<open>A sequence of recorded decisions, and the ones that belong to a sandbox as the log stores them.\<close>

type_synonym decision_args = "gotime \<times> string \<times> string \<times> string \<times> bool \<times> string"

definition record_args :: "decision_args \<Rightarrow> decision_log \<Rightarrow> decision_log" where
  "record_args a log = (case a of (now, sid, host, ip, allow, reason) \<Rightarrow> RecordDecision now sid host ip allow reason log)"

definition stored_decision :: "decision_args \<Rightarrow> egress_decision" where
  "stored_decision a = (case a of (now, sid, host, ip, allow, reason) \<Rightarrow>
     \<lparr>ed_timestamp = now, ed_host = trim_space host, ed_ip = trim_space ip, ed_allow = allow, ed_reason = trim_space reason\<rparr>)"

definition sandbox_decisions :: "string \<Rightarrow> decision_args list \<Rightarrow> egress_decision list" where
  "sandbox_decisions sid as = map stored_decision (filter (\<lambda>a. trim_space (fst (snd a)) = sid) as)"

lemma record_run:
  assumes "sid \<noteq> []"
  shows "fold record_args as Map.empty sid =
    (if sandbox_decisions sid as = [] then None else Some (fold push_ring (sandbox_decisions sid as) new_ring))"
proof (induction as rule: rev_induct)
  case (snoc a as)
  obtain now s host ip allow reason where a: "a = (now, s, host, ip, allow, reason)" by (cases a) auto
  show ?case
  proof (cases "trim_space s = sid")
    case True
    then show ?thesis using assms snoc
      by (simp add: a record_args_def RecordDecision_def Let_def sandbox_decisions_def stored_decision_def)
  next
    case False
    then show ?thesis using snoc
      by (simp add: a record_args_def RecordDecision_def Let_def sandbox_decisions_def)
  qed
qed (simp add: sandbox_decisions_def)

text \<open>
  The dashboard's egress log refines the history: after any interleaving of decisions for any
  sandboxes, what is listed for a sandbox is exactly the last 128 of its decisions, oldest first.
\<close>

theorem ListDecisions_recent:
  assumes "trim_space sandboxID \<noteq> []"
  shows "ListDecisions sandboxID (fold record_args as Map.empty) =
    (let ds = sandbox_decisions (trim_space sandboxID) as in drop (length ds - 128) ds)"
proof -
  have "ring_inv new_ring" "list_ring new_ring = []"
    by (simp_all add: ring_inv_def new_ring_def list_ring_def maxDecisionsPerSandbox_def)
  then have "list_ring (fold push_ring ds new_ring) = drop (length ds - 128) ds" for ds
    using ring.run_recent [of new_ring ds] unfolding ring.recent_def by (simp add: maxDecisionsPerSandbox_def)
  then show ?thesis using record_run [OF assms, of as] assms by (simp add: ListDecisions_def Let_def)
qed

theorem ListDecisions_recent_witness:
  "ListDecisions ''sb'' (fold record_args [(1, ''sb'', ''a.com'', [], True, ''ok''), (2, ''other'', ''b.com'', [], False, ''no'')] Map.empty) =
     [\<lparr>ed_timestamp = 1, ed_host = ''a.com'', ed_ip = [], ed_allow = True, ed_reason = ''ok''\<rparr>]"
proof -
  have trims: "trim_space ''sb'' = ''sb''" "trim_space ''other'' = ''other''" "trim_space ''a.com'' = ''a.com''"
    "trim_space ''ok'' = ''ok''" by code_simp+
  then show ?thesis
    using ListDecisions_recent [of "''sb''" "[(1, ''sb'', ''a.com'', [], True, ''ok''), (2, ''other'', ''b.com'', [], False, ''no'')]"]
    by (simp add: sandbox_decisions_def stored_decision_def)
qed

end
