(* ===== verification/Egress_Proxy.thy ===== *)
theory Egress_Proxy
  imports SNI Decision_Log
begin

text \<open>
  The two egress proxies: the forward proxy (\<^verbatim>\<open>internal/egress/proxy.go\<close>), which a sandbox reaches through
  its proxy settings, and the transparent proxy (\<^verbatim>\<open>internal/egress/transparent_linux.go\<close>), which gets the
  connections that iptables redirects. A handler is a function from the request to its \<open>proxy_outcome\<close>:
  the address it dialed, if any, the decisions it recorded in order, and the status it answered.

  The resolver, the base64 decoder, whether the dial, the hijack and the round trip succeed are
  arguments. The splicing of the two connections is not modelled.
\<close>

section \<open>State and requests\<close>

record proxy =
  px_policy :: egress_policy
  px_sandbox :: string
  px_logger_prefix :: "string option"
  px_auth_user :: string
  px_auth_pass :: string
  px_transport_ok :: bool

text \<open>\<open>px_transport_ok\<close>: no transport is configured, or one that dials can be pinned for.\<close>

record http_request =
  hr_method :: string
  hr_host :: string
  hr_url_host :: string
  hr_url_scheme :: string
  hr_proxy_auth :: string

datatype proxy_status =
  Established | Forwarded | BadRequest | Forbidden | BadGateway | ServerError | AuthRequired | Dropped

record proxy_outcome =
  po_status :: proxy_status
  po_dial :: "string option"
  po_records :: "(string \<times> string \<times> bool \<times> string) list"

record 'ip proxy_env =
  pe_net :: "'ip netprims"
  pe_lookup :: "string \<Rightarrow> 'ip list option"
  pe_b64 :: "string \<Rightarrow> string option"
  pe_dial_ok :: bool
  pe_hijacker :: bool
  pe_hijack_ok :: bool
  pe_write_ok :: bool
  pe_round_trip_ok :: bool

definition outcome :: "proxy_status \<Rightarrow> string option \<Rightarrow> (string \<times> string \<times> bool \<times> string) list \<Rightarrow> proxy_outcome" where
  "outcome st dial recs = \<lparr>po_status = st, po_dial = dial, po_records = recs\<rparr>"

section \<open>Authentication\<close>

definition parseProxyBasicAuth :: "(string \<Rightarrow> string option) \<Rightarrow> string \<Rightarrow> (string \<times> string) option" where
  "parseProxyBasicAuth b64 header =
     (if length header < 6 \<or> \<not> equal_fold (take 6 header) ''Basic '' then None
      else (case b64 (drop 6 header) of
              None \<Rightarrow> None
            | Some dec \<Rightarrow>
                (case index_byte dec CHR '':'' of
                   None \<Rightarrow> None
                 | Some i \<Rightarrow> Some (take i dec, drop (i + 1) dec))))"

definition authOK :: "(string \<Rightarrow> string option) \<Rightarrow> proxy \<Rightarrow> http_request \<Rightarrow> bool" where
  "authOK b64 p r =
     (if px_auth_user p = [] \<and> px_auth_pass p = [] then True
      else (case parseProxyBasicAuth b64 (hr_proxy_auth r) of
              None \<Rightarrow> False
            | Some (user, pass) \<Rightarrow> user = px_auth_user p \<and> pass = px_auth_pass p))"

definition proxy_sandboxID :: "string \<Rightarrow> string option \<Rightarrow> string" where
  "proxy_sandboxID sid prefix0 =
     (if trim_space sid \<noteq> [] then trim_space sid
      else (case prefix0 of Some pre \<Rightarrow> sandboxIDFromLoggerPrefix pre | None \<Rightarrow> []))"

section \<open>The forward proxy\<close>

definition split_ip :: "string \<Rightarrow> string" where
  "split_ip hostport = (case SplitHostPort hostport of Inr (h, _) \<Rightarrow> h | Inl _ \<Rightarrow> [])"

text \<open>The part of \<^verbatim>\<open>handleConnect\<close> after the target is pinned.\<close>

definition connect_pinned :: "'ip proxy_env \<Rightarrow> string \<Rightarrow> string \<Rightarrow> proxy_outcome" where
  "connect_pinned e host pinned =
     (if pinned = [] then outcome Forbidden None [(host, [], False, ''target pinning failed'')]
      else if \<not> pe_dial_ok e then outcome BadGateway (Some pinned) [(host, split_ip pinned, True, ''allowed by policy (dial failed)'')]
      else if \<not> pe_hijacker e then outcome ServerError (Some pinned) []
      else if \<not> pe_hijack_ok e then outcome ServerError (Some pinned) []
      else if \<not> pe_write_ok e then outcome Dropped (Some pinned) []
      else outcome Established (Some pinned) [(host, split_ip pinned, True, ''allowed by egress policy'')])"

definition handleConnect :: "'ip proxy_env \<Rightarrow> proxy \<Rightarrow> http_request \<Rightarrow> proxy_outcome" where
  "handleConnect e p r =
     (case hostWithDefaultPort (hr_host r) ''443'' of
        Inl _ \<Rightarrow> outcome BadRequest None []
      | Inr (host, port) \<Rightarrow>
          (case np_parse_ip (pe_net e) host of
             Some ip \<Rightarrow>
               if \<not> AllowAddr (pe_net e) (px_policy p) (JoinHostPort host port) then
                 outcome Forbidden None [(host, np_show_ip (pe_net e) ip, False, ''blocked by egress policy'')]
               else connect_pinned e host (JoinHostPort (np_show_ip (pe_net e) ip) port)
           | None \<Rightarrow>
               if \<not> AllowListedHostname (px_policy p) host then
                 outcome Forbidden None [(host, [], False, ''hostname not allowlisted'')]
               else
                 (case pinnedAddrForHost (pe_net e) (pe_lookup e) host port None of
                    Inl _ \<Rightarrow> outcome Forbidden None [(host, [], False, ''hostname resolution failed'')]
                  | Inr pinned \<Rightarrow> connect_pinned e host pinned)))"

definition defaultPortForScheme :: "string \<Rightarrow> string" where
  "defaultPortForScheme scheme = (if equal_fold scheme ''https'' then ''443'' else ''80'')"

definition http_target :: "'ip proxy_env \<Rightarrow> proxy \<Rightarrow> string \<Rightarrow> string \<Rightarrow> string option" where
  "http_target e p host port =
     (case np_parse_ip (pe_net e) host of
        Some ip \<Rightarrow>
          if AllowAddr (pe_net e) (px_policy p) (JoinHostPort host port)
          then Some (JoinHostPort (np_show_ip (pe_net e) ip) port) else None
      | None \<Rightarrow>
          if AllowListedHostname (px_policy p) host
          then (case pinnedAddrForHost (pe_net e) (pe_lookup e) host port None of Inl _ \<Rightarrow> None | Inr pinned \<Rightarrow> Some pinned)
          else None)"

definition handleHTTP :: "'ip proxy_env \<Rightarrow> proxy \<Rightarrow> http_request \<Rightarrow> proxy_outcome" where
  "handleHTTP e p r =
     (let authority = (if hr_url_host r = [] then hr_host r else hr_url_host r) in
      case hostWithDefaultPort authority (defaultPortForScheme (hr_url_scheme r)) of
        Inl _ \<Rightarrow> outcome BadRequest None []
      | Inr (host, port) \<Rightarrow>
          (case http_target e p host port of
             None \<Rightarrow> outcome Forbidden None [(host, [], False, ''blocked by egress policy'')]
           | Some pinned \<Rightarrow>
               (let rec = (host, split_ip pinned, True, ''allowed by egress policy'') in
                if \<not> px_transport_ok p then
                  outcome Forbidden None [rec, (host, split_ip pinned, False, ''unsupported transport for pinning'')]
                else outcome (if pe_round_trip_ok e then Forwarded else BadGateway) (Some pinned) [rec])))"

definition Handler :: "'ip proxy_env \<Rightarrow> proxy \<Rightarrow> http_request \<Rightarrow> proxy_outcome" where
  "Handler e p r =
     (if \<not> authOK (pe_b64 e) p r then outcome AuthRequired None []
      else if hr_method r = ''CONNECT'' then handleConnect e p r
      else handleHTTP e p r)"

section \<open>The transparent proxy\<close>

text \<open>\<open>dst\<close> is the original destination (\<^verbatim>\<open>None\<close>: the socket option failed), \<open>peek\<close> the bytes read.\<close>

definition sniffed_host :: "string \<Rightarrow> string" where
  "sniffed_host peek =
     (case ExtractSNI peek of
        Some sni \<Rightarrow> sni
      | None \<Rightarrow> (case httpHostFromPeek peek of Some h \<Rightarrow> h | None \<Rightarrow> []))"

text \<open>\<open>Inl recs\<close>: denied, with the decisions recorded so far. \<open>Inr pinned\<close>: allowed to the pinned address.\<close>

definition transparent_target ::
  "'ip proxy_env \<Rightarrow> egress_policy \<Rightarrow> string \<Rightarrow> string \<Rightarrow> (string \<times> string \<times> bool \<times> string) list + string" where
  "transparent_target e pol dst host =
     (if host \<noteq> [] then
        (if \<not> AllowListedHostname pol host then Inl []
         else (case SplitHostPort dst of
                 Inl _ \<Rightarrow> Inl [(host, [], False, ''invalid original destination'')]
               | Inr (dstHost, dstPort) \<Rightarrow>
                   (case pinnedAddrForHost (pe_net e) (pe_lookup e) host dstPort (np_parse_ip (pe_net e) (str_trim dstHost ''[]'')) of
                      Inl _ \<Rightarrow> Inl [(host, [], False, ''hostname resolution failed'')]
                    | Inr pinned \<Rightarrow> Inr pinned)))
      else if AllowAddr (pe_net e) pol dst then Inr dst else Inl [])"

definition transparent_handle :: "'ip proxy_env \<Rightarrow> egress_policy \<Rightarrow> string option \<Rightarrow> string \<Rightarrow> proxy_outcome" where
  "transparent_handle e pol dst0 peek =
     (case dst0 of
        None \<Rightarrow> outcome Dropped None []
      | Some dst \<Rightarrow>
          (let host = sniffed_host peek; label = (if host = [] then dst else host) in
           case transparent_target e pol dst host of
             Inl recs \<Rightarrow> outcome Dropped None (recs @ [(label, split_ip dst, False, ''blocked by egress policy'')])
           | Inr pinned \<Rightarrow>
               outcome (if pe_dial_ok e then Established else Dropped) (Some pinned)
                 [(label, split_ip pinned, True, ''allowed by egress policy'')]))"

section \<open>What is dialed\<close>

text \<open>The destinations the policy permits for a named host: a literal address that the rules allow, or an
  address that an explicitly allowed name resolves to.\<close>

definition permitted_target :: "'ip proxy_env \<Rightarrow> egress_policy \<Rightarrow> string \<Rightarrow> string \<Rightarrow> string \<Rightarrow> bool" where
  "permitted_target e pol host port addr \<longleftrightarrow>
     (\<exists>ip. addr = JoinHostPort (np_show_ip (pe_net e) ip) port \<and>
        (np_parse_ip (pe_net e) host = Some ip \<and> AllowAddr (pe_net e) pol (JoinHostPort host port) \<or>
         np_parse_ip (pe_net e) host = None \<and> AllowListedHostname pol host \<and>
           (\<exists>addrs. pe_lookup e host = Some addrs \<and> ip \<in> set addrs)))"

lemma outcome_fields [simp]:
  "po_status (outcome st d r) = st" "po_dial (outcome st d r) = d" "po_records (outcome st d r) = r"
  by (simp_all add: outcome_def)

lemma connect_pinned_dial: "po_dial (connect_pinned e host pinned) = Some addr \<Longrightarrow> addr = pinned"
  by (auto simp: connect_pinned_def split: if_splits)

lemma pinned_permitted:
  assumes "pinnedAddrForHost (pe_net e) (pe_lookup e) host port hint = Inr addr" "np_parse_ip (pe_net e) host = None"
    and "AllowListedHostname pol host"
  shows "permitted_target e pol host port addr"
proof -
  obtain ip where ip: "pickPinnedIP (pe_net e) (pe_lookup e) host hint = Inr ip" "addr = JoinHostPort (np_show_ip (pe_net e) ip) port"
    using assms(1) by (auto simp: pinnedAddrForHost_def split: sum.splits)
  then show ?thesis using pickPinnedIP_resolved [OF ip(1) assms(2)] assms(2,3) by (auto simp: permitted_target_def)
qed

lemma handleConnect_dial:
  assumes "po_dial (handleConnect e p r) = Some addr" "hostWithDefaultPort (hr_host r) ''443'' = Inr (host, port)"
  shows "permitted_target e (px_policy p) host port addr"
proof (cases "np_parse_ip (pe_net e) host")
  case None
  then show ?thesis using assms by (auto simp: handleConnect_def split: if_splits sum.splits dest!: connect_pinned_dial intro: pinned_permitted)
next
  case (Some ip)
  then have "AllowAddr (pe_net e) (px_policy p) (JoinHostPort host port)" "addr = JoinHostPort (np_show_ip (pe_net e) ip) port"
    using assms by (auto simp: handleConnect_def split: if_splits dest: connect_pinned_dial)
  then show ?thesis using Some by (auto simp: permitted_target_def)
qed

lemma http_target_permitted: "http_target e p host port = Some addr \<Longrightarrow> permitted_target e (px_policy p) host port addr"
  by (auto simp: http_target_def split: option.splits if_splits sum.splits intro: pinned_permitted)
     (auto simp: permitted_target_def)

text \<open>The authority and default port of a request.\<close>

definition request_authority :: "http_request \<Rightarrow> string \<times> string" where
  "request_authority r =
     (if hr_method r = ''CONNECT'' then (hr_host r, ''443'')
      else (if hr_url_host r = [] then hr_host r else hr_url_host r, defaultPortForScheme (hr_url_scheme r)))"

section \<open>Properties\<close>


definition rules0 :: "egress_rule list" where
  "rules0 = [\<lparr>eg_verdict = ''deny'', eg_hostname = [], eg_cidr = ''10.0.0.0/8''\<rparr>,
     \<lparr>eg_verdict = ''allow'', eg_hostname = ''*.example.com'', eg_cidr = []\<rparr>]"

definition proxy0 :: proxy where
  "proxy0 = \<lparr>px_policy = \<lparr>ep_default = ''deny'', ep_rules = rules0\<rparr>, px_sandbox = ''sb'', px_logger_prefix = None,
     px_auth_user = [], px_auth_pass = [], px_transport_ok = True\<rparr>"

definition env0 :: "nat list proxy_env" where
  "env0 = \<lparr>pe_net = ip4_net, pe_lookup = (\<lambda>h. if h = ''api.example.com'' then Some [[10, 0, 0, 5]] else None),
     pe_b64 = (\<lambda>_. None), pe_dial_ok = True, pe_hijacker = True, pe_hijack_ok = True, pe_write_ok = True,
     pe_round_trip_ok = True\<rparr>"

definition request1 :: http_request where
  "request1 = \<lparr>hr_method = ''CONNECT'', hr_host = ''api.example.com:443'', hr_url_host = [], hr_url_scheme = [], hr_proxy_auth = []\<rparr>"

lemma request1_dial: "po_dial (Handler env0 proxy0 request1) = Some ''10.0.0.5:443''"
  by code_simp


text \<open>
  The transparent proxy dials only permitted destinations: a connection that showed a hostname (TLS
  server name or HTTP Host) goes to an address of that host, explicitly allowed, on the original port;
  one that showed none goes to its original destination, which the rules allow.
\<close>

theorem transparent_dials_only_permitted:
  assumes "po_dial (transparent_handle e pol dst0 peek) = Some addr"
    and "np_parse_ip (pe_net e) (sniffed_host peek) = None"
  shows "\<exists>dst. dst0 = Some dst \<and>
    (if sniffed_host peek \<noteq> []
     then \<exists>dstHost port. SplitHostPort dst = Inr (dstHost, port) \<and> permitted_target e pol (sniffed_host peek) port addr
     else addr = dst \<and> AllowAddr (pe_net e) pol dst)"
  using assms
  by (auto simp: transparent_handle_def transparent_target_def Let_def split: option.splits sum.splits if_splits
      intro: pinned_permitted)

text \<open>A name that looks like an address is pinned to that address without asking the address rules.\<close>

theorem transparent_dials_only_permitted_witness:
  "po_dial (transparent_handle env0 (px_policy proxy0) (Some ''10.0.0.5:80'') ''GET / HTTP/1.1'') = None \<and>
   permitted_target env0 (px_policy proxy0) ''api.example.com'' ''80'' ''10.0.0.5:80''"
proof -
  let ?peek = "''GET / HTTP/1.1'' @ [CHR 0x0D, CHR 0x0A] @ ''Host: API.example.com:80''"
  have host: "sniffed_host ?peek = ''api.example.com''" by code_simp
  have "po_dial (transparent_handle env0 (px_policy proxy0) (Some ''10.0.0.5:80'') ?peek) = Some ''10.0.0.5:80''"
    by code_simp
  moreover have "np_parse_ip (pe_net env0) (sniffed_host ?peek) = None" unfolding host by code_simp
  moreover have "SplitHostPort ''10.0.0.5:80'' = Inr (''10.0.0.5'', ''80'')" by code_simp
  moreover have "po_dial (transparent_handle env0 (px_policy proxy0) (Some ''10.0.0.5:80'') ''GET / HTTP/1.1'') = None"
    by code_simp
  ultimately show ?thesis
    using transparent_dials_only_permitted [of env0 "px_policy proxy0" "Some ''10.0.0.5:80''" ?peek "''10.0.0.5:80''"] host by simp
qed

text \<open>
  An allowed name reaches a denied block: the CIDR rules are not applied to the address that a name
  resolves to. With "deny 10.0.0.0/8" before "allow *.example.com", a name below \<^verbatim>\<open>example.com\<close> that
  resolves to \<^verbatim>\<open>10.0.0.5\<close> is dialed, although the policy denies that address.
\<close>

theorem allowed_name_reaches_denied_block:
  "po_dial (Handler env0 proxy0 request1) = Some ''10.0.0.5:443'' \<and>
   \<not> AllowAddr ip4_net (px_policy proxy0) ''10.0.0.5:443''"
  by (intro conjI request1_dial) code_simp

end
