(* ===== verification/Authz.thy ===== *)
theory Authz
  imports Go_Strings
begin

text \<open>
  Principals and their rights (\<^verbatim>\<open>internal/authz/authz.go\<close>) and the OIDC verifier that derives a principal
  from a signed token (\<^verbatim>\<open>internal/authz/oidc.go\<close>).

  Parameters: \<open>path_match\<close> is \<^verbatim>\<open>path.Match\<close> (\<^verbatim>\<open>None\<close>: bad pattern), \<open>sha\<close> is SHA-256, and the record
  \<open>jwtprims\<close> gives raw URL base64, the JSON decoding of a token's header and claims and of a key set, and
  RSA signature verification.
\<close>

section \<open>Principals\<close>

record principal =
  pc_name :: string
  pc_tenant :: string
  pc_token :: string
  pc_allowed_profiles :: "string list"
  pc_can_approve :: bool
  pc_approval_profiles :: "string list"
  pc_admin :: bool

type_synonym path_matcher = "string \<Rightarrow> string \<Rightarrow> bool option"

definition TenantID :: "principal option \<Rightarrow> string" where
  "TenantID p =
     (case p of
        None \<Rightarrow> []
      | Some q \<Rightarrow> if trim_space (pc_tenant q) \<noteq> [] then trim_space (pc_tenant q) else pc_name q)"

definition profile_listed :: "path_matcher \<Rightarrow> string list \<Rightarrow> string \<Rightarrow> bool" where
  "profile_listed path_match patterns profile =
     list_ex (\<lambda>pattern. pattern = ''*'' \<or> path_match pattern profile = Some True) patterns"

definition CanLaunch :: "path_matcher \<Rightarrow> principal option \<Rightarrow> string \<Rightarrow> bool" where
  "CanLaunch path_match p profile =
     (case p of
        None \<Rightarrow> False
      | Some q \<Rightarrow> if pc_admin q then True else profile_listed path_match (pc_allowed_profiles q) profile)"

definition MayApprove :: "principal option \<Rightarrow> bool" where
  "MayApprove p = (case p of None \<Rightarrow> False | Some q \<Rightarrow> pc_admin q \<or> pc_can_approve q)"

definition CanApproveProfile :: "path_matcher \<Rightarrow> principal option \<Rightarrow> string \<Rightarrow> bool" where
  "CanApproveProfile path_match p profileName =
     (case p of
        None \<Rightarrow> False
      | Some q \<Rightarrow>
          if \<not> MayApprove p then False
          else if pc_admin q \<or> pc_approval_profiles q = [] then True
          else profile_listed path_match (pc_approval_profiles q) profileName)"

definition MayLaunch :: "principal option \<Rightarrow> bool" where
  "MayLaunch p =
     (case p of
        None \<Rightarrow> False
      | Some q \<Rightarrow> if pc_admin q then True else list_ex (\<lambda>pattern. trim_space pattern \<noteq> []) (pc_allowed_profiles q))"

section \<open>The token store\<close>

datatype authz_error =
    NullPrincipal nat | EmptyName nat | DuplicateName string | EmptyToken string | DuplicateToken string
  | InsecurePermissions | UnreadableFile | BadFile | ShortToken string

text \<open>The OIDC verifier is kept apart from the store, since it has a state of its own.\<close>

record store =
  st_by_token :: "string \<rightharpoonup> principal"
  st_principals :: "principal list"
  st_token_hash :: "string list"

definition empty_store :: store where
  "empty_store = \<lparr>st_by_token = Map.empty, st_principals = [], st_token_hash = []\<rparr>"

fun newStore_loop ::
  "(string \<Rightarrow> string) \<Rightarrow> nat \<Rightarrow> principal option list \<Rightarrow> string list \<Rightarrow> store \<Rightarrow> (authz_error, store) result" where
  "newStore_loop sha i [] names s = Inr s"
| "newStore_loop sha i (None # ps) names s = Inl (NullPrincipal i)"
| "newStore_loop sha i (Some p0 # ps) names s =
     (let p = p0\<lparr>pc_name := trim_space (pc_name p0), pc_tenant := trim_space (pc_tenant p0)\<rparr> in
      if pc_name p = [] then Inl (EmptyName i)
      else if pc_name p \<in> set names then Inl (DuplicateName (pc_name p))
      else if pc_token p = [] then Inl (EmptyToken (pc_name p))
      else if st_by_token s (pc_token p) \<noteq> None then Inl (DuplicateToken (pc_name p))
      else newStore_loop sha (Suc i) ps (pc_name p # names)
             \<lparr>st_by_token = (st_by_token s)(pc_token p \<mapsto> p), st_principals = st_principals s @ [p],
              st_token_hash = st_token_hash s @ [sha (pc_token p)]\<rparr>)"

definition newStore :: "(string \<Rightarrow> string) \<Rightarrow> principal option list \<Rightarrow> (authz_error, store) result" where
  "newStore sha ps = newStore_loop sha 0 ps [] empty_store"

text \<open>\<open>mode\<close> is the file's permission bits on a Unix system (\<^verbatim>\<open>None\<close>: the stat failed or the system is
  Windows), \<open>content\<close> its bytes and \<open>decode\<close> the strict JSON decoder.\<close>

definition authz_Load ::
  "(string \<Rightarrow> string) \<Rightarrow> (string \<Rightarrow> principal option list option) \<Rightarrow> nat option \<Rightarrow> string option \<Rightarrow>
   (authz_error, store) result" where
  "authz_Load sha decode mode content =
     (if (case mode of Some m \<Rightarrow> m mod 64 \<noteq> 0 | None \<Rightarrow> False) then Inl InsecurePermissions
      else (case content of
              None \<Rightarrow> Inl UnreadableFile
            | Some data \<Rightarrow> (case decode data of None \<Rightarrow> Inl BadFile | Some ps \<Rightarrow> newStore sha ps)))"

text \<open>\<open>oidc\<close> is the verifier's answer on the token, \<^verbatim>\<open>None\<close> when it fails or is not configured.\<close>

fun identify_loop :: "principal list \<Rightarrow> string list \<Rightarrow> string \<Rightarrow> principal option \<Rightarrow> principal option" where
  "identify_loop (p # ps) (h' # hs) h acc = identify_loop ps hs h (if h' = h then Some p else acc)"
| "identify_loop _ _ h acc = acc"

definition Identify :: "(string \<Rightarrow> string) \<Rightarrow> store option \<Rightarrow> principal option \<Rightarrow> string \<Rightarrow> principal option" where
  "Identify sha s oidc token =
     (case s of
        None \<Rightarrow> None
      | Some st \<Rightarrow>
          if token = [] then None
          else (case identify_loop (st_principals st) (st_token_hash st) (sha token) None of
                  Some p \<Rightarrow> Some p
                | None \<Rightarrow> oidc))"

definition Len :: "store option \<Rightarrow> nat" where
  "Len s = (case s of None \<Rightarrow> 0 | Some st \<Rightarrow> length (st_principals st))"

definition ValidateForNetwork :: "store option \<Rightarrow> authz_error option" where
  "ValidateForNetwork s =
     (case s of
        None \<Rightarrow> None
      | Some st \<Rightarrow> map_option (\<lambda>p. ShortToken (pc_name p)) (find (\<lambda>p. length (pc_token p) < 32) (st_principals st)))"

section \<open>OIDC\<close>

record url =
  ul_scheme :: string
  ul_hostname :: string
  ul_port :: string
  ul_user :: bool
  ul_fragment :: string

datatype oidc_error =
    NoAudience | InvalidEndpoint | InsecureEndpoint | DiscoveryFailed | IssuerMismatch | NoJwks | ForeignJwks
  | FetchFailed | NoUsableKeys | TokenTooLong | NotJWT | BadHeader | KeyNotFound | BadSignatureEncoding
  | BadSignature | BadClaimsEncoding | BadClaims | ClaimsRejected

definition requireSecureOIDCEndpoint :: "(string \<Rightarrow> url option) \<Rightarrow> string \<Rightarrow> oidc_error option" where
  "requireSecureOIDCEndpoint parse raw =
     (case parse raw of
        None \<Rightarrow> Some InvalidEndpoint
      | Some u \<Rightarrow>
          if ul_hostname u = [] \<or> ul_user u \<or> ul_fragment u \<noteq> [] then Some InvalidEndpoint
          else if ul_scheme u = ''https'' then None
          else
            (let host = to_lower (ul_hostname u) in
             if ul_scheme u = ''http'' \<and> (host = ''localhost'' \<or> host = ''127.0.0.1'' \<or> host = ''::1'') then None
             else Some InsecureEndpoint))"

definition effectiveOIDCPort :: "url \<Rightarrow> string" where
  "effectiveOIDCPort u =
     (if ul_port u \<noteq> [] then ul_port u
      else if equal_fold (ul_scheme u) ''https'' then ''443''
      else if equal_fold (ul_scheme u) ''http'' then ''80''
      else [])"

definition sameOIDCOrigin :: "(string \<Rightarrow> url option) \<Rightarrow> string \<Rightarrow> string \<Rightarrow> bool" where
  "sameOIDCOrigin parse a b =
     (case (parse a, parse b) of
        (Some left, Some right) \<Rightarrow>
          equal_fold (ul_scheme left) (ul_scheme right) \<and> equal_fold (ul_hostname left) (ul_hostname right) \<and>
          effectiveOIDCPort left = effectiveOIDCPort right
      | _ \<Rightarrow> False)"

record json_web_key =
  jk_kid :: string
  jk_kty :: string
  jk_use :: string
  jk_alg :: string
  jk_n :: string
  jk_e :: string

text \<open>The modulus as bytes and the exponent.\<close>

type_synonym rsa_key = "string \<times> nat"

datatype audience = AudString string | AudList "string option list" | AudOther

record oidc_claims =
  oc_issuer :: string
  oc_subject :: string
  oc_audience :: audience
  oc_expires :: int
  oc_not_before :: int
  oc_preferred_name :: string
  oc_email :: string
  oc_tenant :: string
  oc_profiles :: "string list"
  oc_approval_profiles :: "string list"
  oc_can_approve :: bool
  oc_admin :: bool

record jwtprims =
  jp_b64 :: "string \<Rightarrow> string option"
  jp_header :: "string \<Rightarrow> (string \<times> string) option"
  jp_claims :: "string \<Rightarrow> oidc_claims option"
  jp_verify :: "rsa_key \<Rightarrow> string \<Rightarrow> string \<Rightarrow> bool"
  jp_sha :: "string \<Rightarrow> string"

record oidc_verifier =
  ov_issuer :: string
  ov_audience :: string
  ov_jwks_url :: string
  ov_keys :: "string \<rightharpoonup> rsa_key"
  ov_last_refresh :: gotime

definition exponent :: "string \<Rightarrow> nat" where
  "exponent bs = foldl (\<lambda>e b. e * 256 + of_char b) 0 bs"

definition usable_key :: "jwtprims \<Rightarrow> json_web_key \<Rightarrow> rsa_key option" where
  "usable_key J k =
     (if jk_kty k \<noteq> ''RSA'' \<or> jk_n k = [] \<or> jk_e k = [] \<or> (jk_use k \<noteq> [] \<and> jk_use k \<noteq> ''sig'') \<or>
         (jk_alg k \<noteq> [] \<and> jk_alg k \<noteq> ''RS256'') then None
      else (case jp_b64 J (jk_n k) of
              None \<Rightarrow> None
            | Some n \<Rightarrow>
                (case jp_b64 J (jk_e k) of
                   None \<Rightarrow> None
                 | Some eb \<Rightarrow>
                     if eb = [] \<or> length eb > 4 then None
                     else if exponent eb \<le> 1 then None
                     else Some (n, exponent eb))))"

fun collect_keys :: "jwtprims \<Rightarrow> json_web_key list \<Rightarrow> (string \<rightharpoonup> rsa_key) \<Rightarrow> (string \<rightharpoonup> rsa_key)" where
  "collect_keys J [] keys = keys"
| "collect_keys J (k # ks) keys =
     collect_keys J ks (case usable_key J k of None \<Rightarrow> keys | Some r \<Rightarrow> keys(jk_kid k \<mapsto> r))"

text \<open>\<open>fetched\<close> is what the key set endpoint returns if it is asked (\<^verbatim>\<open>None\<close>: the request fails). The
  result says whether it was asked, and the error.\<close>

definition refreshKeys ::
  "jwtprims \<Rightarrow> gotime \<Rightarrow> json_web_key list option \<Rightarrow> bool \<Rightarrow> oidc_verifier \<Rightarrow> bool \<times> oidc_error option \<times> oidc_verifier" where
  "refreshKeys J now fetched force v =
     (if \<not> force \<and> \<not> is_zero_time (ov_last_refresh v) \<and> now - ov_last_refresh v < 30000000000 then (False, None, v)
      else (case fetched of
              None \<Rightarrow> (True, Some FetchFailed, v)
            | Some jwks \<Rightarrow>
                if list_all (\<lambda>k. usable_key J k = None) jwks then (True, Some NoUsableKeys, v)
                else (True, None, v\<lparr>ov_keys := collect_keys J jwks Map.empty, ov_last_refresh := now\<rparr>)))"

definition firstClaim :: "string list \<Rightarrow> string" where
  "firstClaim values = (case find (\<lambda>v. v \<noteq> []) (map trim_space values) of Some v \<Rightarrow> v | None \<Rightarrow> [])"

fun audienceContains :: "audience \<Rightarrow> string \<Rightarrow> bool" where
  "audienceContains (AudString v) want = (v = want)"
| "audienceContains (AudList vs) want = (Some want \<in> set vs)"
| "audienceContains AudOther want = False"

text \<open>\<^verbatim>\<open>strings.TrimRight(s, "/")\<close>.\<close>

definition trim_slashes :: "string \<Rightarrow> string" where
  "trim_slashes s = rev (dropWhile (\<lambda>c. c = CHR ''/'') (rev s))"

definition claims_ok :: "gotime \<Rightarrow> oidc_verifier \<Rightarrow> oidc_claims \<Rightarrow> bool" where
  "claims_ok now v c \<longleftrightarrow>
     \<not> (trim_slashes (oc_issuer c) \<noteq> ov_issuer v \<or> oc_subject c = [] \<or> oc_expires c \<le> unix_secs now \<or>
        (oc_not_before c \<noteq> 0 \<and> oc_not_before c > unix_secs now + 30) \<or> \<not> audienceContains (oc_audience c) (ov_audience v))"

definition claims_principal :: "oidc_claims \<Rightarrow> principal" where
  "claims_principal c =
     \<lparr>pc_name = firstClaim [oc_preferred_name c, oc_email c, oc_subject c], pc_tenant = firstClaim [oc_tenant c, oc_subject c],
      pc_token = [], pc_allowed_profiles = oc_profiles c, pc_can_approve = oc_can_approve c,
      pc_approval_profiles = oc_approval_profiles c, pc_admin = oc_admin c\<rparr>"

text \<open>The part of \<^verbatim>\<open>Verify\<close> after the key is found.\<close>

definition verify_signed ::
  "jwtprims \<Rightarrow> gotime \<Rightarrow> oidc_verifier \<Rightarrow> string \<Rightarrow> string \<Rightarrow> string \<Rightarrow> rsa_key \<Rightarrow> (oidc_error, principal) result" where
  "verify_signed J now v h p s key =
     (case jp_b64 J s of
        None \<Rightarrow> Inl BadSignatureEncoding
      | Some signature \<Rightarrow>
          if \<not> jp_verify J key (jp_sha J (h @ ''.'' @ p)) signature then Inl BadSignature
          else (case jp_b64 J p of
                  None \<Rightarrow> Inl BadClaimsEncoding
                | Some payload \<Rightarrow>
                    (case jp_claims J payload of
                       None \<Rightarrow> Inl BadClaims
                     | Some c \<Rightarrow> if claims_ok now v c then Inr (claims_principal c) else Inl ClaimsRejected)))"

definition token_kid :: "jwtprims \<Rightarrow> string \<Rightarrow> string option" where
  "token_kid J h =
     (case jp_b64 J h of
        None \<Rightarrow> None
      | Some js \<Rightarrow>
          (case jp_header J js of
             None \<Rightarrow> None
           | Some (alg, kid) \<Rightarrow> if alg \<noteq> ''RS256'' \<or> kid = [] then None else Some kid))"

definition OIDC_Verify ::
  "jwtprims \<Rightarrow> gotime \<Rightarrow> json_web_key list option \<Rightarrow> string \<Rightarrow> oidc_verifier \<Rightarrow>
   bool \<times> (oidc_error, principal) result \<times> oidc_verifier" where
  "OIDC_Verify J now fetched token v =
     (if length token > 32 * 1024 then (False, Inl TokenTooLong, v)
      else
        (case split_byte CHR ''.'' token of
           [h, p, s] \<Rightarrow>
             (case token_kid J h of
                None \<Rightarrow> (False, Inl BadHeader, v)
              | Some kid \<Rightarrow>
                  (case ov_keys v kid of
                     Some key \<Rightarrow> (False, verify_signed J now v h p s key, v)
                   | None \<Rightarrow>
                       (case refreshKeys J now fetched False v of
                          (asked, Some err, v') \<Rightarrow> (asked, Inl err, v')
                        | (asked, None, v') \<Rightarrow>
                            (case ov_keys v' kid of
                               None \<Rightarrow> (asked, Inl KeyNotFound, v')
                             | Some key \<Rightarrow> (asked, verify_signed J now v' h p s key, v')))))
         | _ \<Rightarrow> (False, Inl NotJWT, v)))"

section \<open>The store\<close>

definition store_ok :: "(string \<Rightarrow> string) \<Rightarrow> store \<Rightarrow> bool" where
  "store_ok sha s \<longleftrightarrow>
     distinct (map pc_name (st_principals s)) \<and> distinct (map pc_token (st_principals s)) \<and>
     list_all (\<lambda>p. pc_name p \<noteq> [] \<and> pc_token p \<noteq> []) (st_principals s) \<and>
     st_token_hash s = map (sha \<circ> pc_token) (st_principals s) \<and>
     (\<forall>t p. st_by_token s t = Some p \<longleftrightarrow> p \<in> set (st_principals s) \<and> pc_token p = t)"

lemma newStore_loop_ok:
  assumes "newStore_loop sha i ps names s = Inr s'" "store_ok sha s" "set names = pc_name ` set (st_principals s)"
  shows "store_ok sha s'"
  using assms
proof (induction sha i ps names s rule: newStore_loop.induct)
  case (3 sha i p0 ps names s)
  let ?p = "p0\<lparr>pc_name := trim_space (pc_name p0), pc_tenant := trim_space (pc_tenant p0)\<rparr>"
  let ?s = "\<lparr>st_by_token = (st_by_token s)(pc_token ?p \<mapsto> ?p), st_principals = st_principals s @ [?p],
              st_token_hash = st_token_hash s @ [sha (pc_token ?p)]\<rparr>"
  have c: "pc_name ?p \<noteq> []" "pc_name ?p \<notin> set names" "pc_token ?p \<noteq> []" "st_by_token s (pc_token ?p) = None"
    "newStore_loop sha (Suc i) ps (pc_name ?p # names) ?s = Inr s'"
    using "3.prems"(1) by (simp_all add: Let_def split: if_splits)
  have fresh: "pc_token ?p \<notin> pc_token ` set (st_principals s)"
  proof
    assume "pc_token ?p \<in> pc_token ` set (st_principals s)"
    then obtain q where "q \<in> set (st_principals s)" "pc_token q = pc_token ?p" by auto
    then have "st_by_token s (pc_token ?p) = Some q" using "3.prems"(2) unfolding store_ok_def by blast
    then show False using c(4) by simp
  qed
  have "store_ok sha ?s"
    using "3.prems"(2,3) c(1-3) fresh unfolding store_ok_def by (auto simp: image_iff)
  moreover have "set (pc_name ?p # names) = pc_name ` set (st_principals ?s)" using "3.prems"(3) by simp
  ultimately show ?case using "3.IH" [OF refl c(1) c(2) c(3)] c(4,5) by simp
qed auto

lemma newStore_ok: "newStore sha ps = Inr s \<Longrightarrow> store_ok sha s"
  unfolding newStore_def by (erule newStore_loop_ok) (simp_all add: empty_store_def store_ok_def)

lemma find_SomeD: "find P xs = Some x \<Longrightarrow> x \<in> set xs \<and> P x"
  by (induction xs) (auto split: if_splits)

lemma identify_loop_map:
  "identify_loop ps (map f ps) h acc =
     (case find (\<lambda>p. f p = h) (rev ps) of Some p \<Rightarrow> Some p | None \<Rightarrow> acc)"
  by (induction ps arbitrary: acc) (auto simp: find_append split: option.splits)

section \<open>Properties\<close>

text \<open>
  A loaded principal store is well formed: names and tokens are non-empty and pairwise different,
  the hash list holds the hash of each principal's token in order, and the token index holds exactly
  the principals.
\<close>

theorem newStore_well_formed:
  assumes "newStore sha ps = Inr s"
  shows "distinct (map pc_name (st_principals s)) \<and> distinct (map pc_token (st_principals s)) \<and>
    list_all (\<lambda>p. pc_name p \<noteq> [] \<and> pc_token p \<noteq> []) (st_principals s) \<and>
    st_token_hash s = map (sha \<circ> pc_token) (st_principals s) \<and>
    (\<forall>t p. st_by_token s t = Some p \<longleftrightarrow> p \<in> set (st_principals s) \<and> pc_token p = t)"
  using newStore_ok [OF assms] unfolding store_ok_def .

definition alice :: principal where
  "alice = \<lparr>pc_name = ''alice'', pc_tenant = ''red'', pc_token = ''t1'', pc_allowed_profiles = [''dev-*''], pc_can_approve = False,
     pc_approval_profiles = [], pc_admin = False\<rparr>"

definition bob :: principal where
  "bob = alice\<lparr>pc_name := ''bob'', pc_token := ''t2''\<rparr>"

definition store0 :: store where
  "store0 = \<lparr>st_by_token = [''t1'' \<mapsto> alice, ''t2'' \<mapsto> bob], st_principals = [alice, bob], st_token_hash = [''t1'', ''t2'']\<rparr>"

lemma store0_loaded: "newStore (\<lambda>x. x) [Some alice, Some bob] = Inr store0"
proof -
  have trims: "trim_space ''alice'' = ''alice''" "trim_space ''bob'' = ''bob''" "trim_space ''red'' = ''red''" by code_simp+
  then show ?thesis by (simp add: newStore_def store0_def empty_store_def alice_def bob_def Let_def)
qed

theorem newStore_well_formed_witness:
  "newStore (\<lambda>x. x) [Some alice, Some bob] = Inr store0 \<and> distinct (map pc_token (st_principals store0))"
  using newStore_well_formed [OF store0_loaded] store0_loaded by simp

text \<open>
  A bearer token identifies its owner: in a loaded store, a non-empty token is resolved to a local
  principal exactly when it is that principal's token, unless it collides under SHA-256 with another
  token; a token that no principal has is left to the OIDC verifier.
\<close>

theorem Identify_exact:
  assumes "newStore sha ps = Inr s" "token \<noteq> []"
    and "\<And>q. q \<in> set (st_principals s) \<Longrightarrow> sha (pc_token q) = sha token \<Longrightarrow> pc_token q = token"
  shows "Identify sha (Some s) oidc token =
    (case st_by_token s token of Some p \<Rightarrow> Some p | None \<Rightarrow> oidc)"
proof -
  have ok: "store_ok sha s" by (rule newStore_ok [OF assms(1)])
  have loop: "identify_loop (st_principals s) (st_token_hash s) (sha token) None =
      find (\<lambda>p. sha (pc_token p) = sha token) (rev (st_principals s))"
    using ok identify_loop_map [of "st_principals s" "sha \<circ> pc_token"] by (auto simp: store_ok_def split: option.split)
  have index: "st_by_token s token = Some p \<longleftrightarrow> p \<in> set (st_principals s) \<and> pc_token p = token" for p
    using ok unfolding store_ok_def by blast
  have "find (\<lambda>p. sha (pc_token p) = sha token) (rev (st_principals s)) = st_by_token s token"
  proof (cases "find (\<lambda>p. sha (pc_token p) = sha token) (rev (st_principals s))")
    case None
    then have "st_by_token s token \<noteq> Some p" for p using index [of p] by (auto simp: find_None_all)
    then show ?thesis using None by (cases "st_by_token s token") auto
  next
    case (Some p)
    then have "p \<in> set (st_principals s)" "sha (pc_token p) = sha token" using find_SomeD by fastforce+
    then have "st_by_token s token = Some p" using index assms(3) by blast
    then show ?thesis using Some by simp
  qed
  then show ?thesis using loop assms(2) by (simp add: Identify_def)
qed

theorem Identify_exact_witness:
  "Identify (\<lambda>x. x) (Some store0) None ''t2'' = Some bob \<and> Identify (\<lambda>x. x) (Some store0) None ''t3'' = None"
  using Identify_exact [OF store0_loaded, of "''t2''" None] Identify_exact [OF store0_loaded, of "''t3''" None]
  by (simp add: store0_def alice_def bob_def)

text \<open>
  C13. An OIDC principal has a valid signed token: \<^verbatim>\<open>Verify\<close> accepts a token only if it has three parts and at
  most 32 KiB, its header asks for RS256 and names a key that the verifier then holds, that key verifies
  the signature over header and claims, and the claims have the configured issuer and audience, a
  subject, and are not expired; the principal's rights are exactly the signed ones, and the token
  string is not kept.
\<close>

theorem OIDC_Verify_sound:
  assumes "OIDC_Verify J now fetched token v = (asked, Inr p, v')"
  shows "length token \<le> 32768 \<and>
    (\<exists>h b s kid key sig payload c. split_byte CHR ''.'' token = [h, b, s] \<and> token_kid J h = Some kid \<and>
       ov_keys v' kid = Some key \<and> jp_b64 J s = Some sig \<and> jp_verify J key (jp_sha J (h @ ''.'' @ b)) sig \<and>
       jp_b64 J b = Some payload \<and> jp_claims J payload = Some c \<and>
       trim_slashes (oc_issuer c) = ov_issuer v \<and> audienceContains (oc_audience c) (ov_audience v) \<and>
       oc_subject c \<noteq> [] \<and> unix_secs now < oc_expires c \<and> (oc_not_before c = 0 \<or> oc_not_before c \<le> unix_secs now + 30) \<and>
       p = claims_principal c)"
proof -
  obtain h b s where parts: "length token \<le> 32768" "split_byte CHR ''.'' token = [h, b, s]"
    using assms by (auto simp: OIDC_Verify_def split: if_splits list.splits)
  obtain kid where kid: "token_kid J h = Some kid"
    using assms parts by (auto simp: OIDC_Verify_def split: if_splits option.splits)
  obtain key where key: "ov_keys v' kid = Some key" "verify_signed J now v' h b s key = Inr p"
    using assms parts kid by (auto simp: OIDC_Verify_def split: option.splits prod.splits)
  have "ov_issuer v' = ov_issuer v" "ov_audience v' = ov_audience v"
    using assms parts kid
    by (auto simp: OIDC_Verify_def refreshKeys_def split: option.splits prod.splits if_splits)
  moreover obtain sig payload c where c: "jp_b64 J s = Some sig" "jp_verify J key (jp_sha J (h @ ''.'' @ b)) sig"
    "jp_b64 J b = Some payload" "jp_claims J payload = Some c" "claims_ok now v' c" "p = claims_principal c"
    using key(2) by (auto simp: verify_signed_def split: option.splits if_splits)
  moreover have "trim_slashes (oc_issuer c) = ov_issuer v'" "audienceContains (oc_audience c) (ov_audience v')" "oc_subject c \<noteq> []"
    "unix_secs now < oc_expires c" "oc_not_before c = 0 \<or> oc_not_before c \<le> unix_secs now + 30"
    using c(5) by (auto simp: claims_ok_def not_le not_less)
  ultimately show ?thesis using parts kid key(1) by metis
qed

definition claims0 :: oidc_claims where
  "claims0 = \<lparr>oc_issuer = ''https://id/'', oc_subject = ''u1'', oc_audience = AudString ''rw'', oc_expires = 100, oc_not_before = 0,
     oc_preferred_name = [], oc_email = ''u@x'', oc_tenant = [], oc_profiles = [], oc_approval_profiles = [],
     oc_can_approve = False, oc_admin = False\<rparr>"

definition jwt0 :: jwtprims where
  "jwt0 = \<lparr>jp_b64 = Some, jp_header = (\<lambda>s. if s = ''h'' then Some (''RS256'', ''k1'') else None),
     jp_claims = (\<lambda>s. if s = ''c'' then Some claims0 else None), jp_verify = (\<lambda>k d s. d = ''h.c'' \<and> s = ''s''), jp_sha = (\<lambda>x. x)\<rparr>"

definition verifier0 :: oidc_verifier where
  "verifier0 = \<lparr>ov_issuer = ''https://id'', ov_audience = ''rw'', ov_jwks_url = ''https://id/keys'', ov_keys = [''k1'' \<mapsto> ([], 65537)],
     ov_last_refresh = 62135596800000000000\<rparr>"

lemma verifier0_accepts:
  "OIDC_Verify jwt0 62135596801000000000 None ''h.c.s'' verifier0 = (False, Inr (claims_principal claims0), verifier0)"
proof -
  have "split_byte CHR ''.'' ''h.c.s'' = [''h'', ''c'', ''s'']" by code_simp
  moreover have "trim_slashes ''https://id/'' = ''https://id''" by code_simp
  ultimately show ?thesis
    by (simp add: OIDC_Verify_def token_kid_def verify_signed_def jwt0_def verifier0_def claims_ok_def unix_secs_def claims0_def)
qed

theorem OIDC_Verify_sound_witness:
  "\<exists>kid key. ov_keys verifier0 kid = Some key \<and> jp_verify jwt0 key ''h.c'' ''s''"
  using OIDC_Verify_sound [OF verifier0_accepts] by (auto simp: jwt0_def)

text \<open>
  Failed refreshes are not rate limited: \<^verbatim>\<open>refreshKeys\<close> is meant to ask the identity provider at most
  once in 30 seconds for tokens with unknown keys, but it stamps only successful refreshes. Once the
  last success is 30 seconds old and the provider does not answer, every such token causes a request,
  and the verifier's state does not change.
\<close>

theorem failed_refresh_is_not_rate_limited:
  assumes "split_byte CHR ''.'' token = [h, b, s]" "length token \<le> 32768" "token_kid J h = Some kid" "ov_keys v kid = None"
    and "now - ov_last_refresh v \<ge> 30000000000"
  shows "OIDC_Verify J now None token v = (True, Inl FetchFailed, v)"
  using assms by (simp add: OIDC_Verify_def refreshKeys_def)

theorem failed_refresh_is_not_rate_limited_witness:
  "OIDC_Verify (jwt0\<lparr>jp_header := (\<lambda>_. Some (''RS256'', ''x''))\<rparr>) 62135596899000000000 None ''h.c.s'' verifier0 =
     (True, Inl FetchFailed, verifier0)"
proof -
  have "split_byte CHR ''.'' ''h.c.s'' = [''h'', ''c'', ''s'']" by code_simp
  then show ?thesis
    by (rule failed_refresh_is_not_rate_limited [where kid = "''x''"]) (simp_all add: token_kid_def jwt0_def verifier0_def)
qed

end
