(* ===== verification/Server_Auth.thy ===== *)
theory Server_Auth
  imports Authz Egress_Policy
begin

text \<open>
  The access layer of the HTTP server (\<^verbatim>\<open>internal/server/server.go\<close>, \<^verbatim>\<open>internal/server/ide.go\<close>, and the ticket
  endpoint of \<^verbatim>\<open>internal/server/handlers.go\<close>): bearer tokens, single-use tickets, IDE cookies, the
  per-tenant ownership guard and the cross-origin guard.

  A middleware that calls the next handler returns \<open>Pass\<close> with the principal in the request context;
  one that answers itself returns \<open>Reject\<close>. The resources of the manager that the guard looks at are
  the record \<open>resources\<close>.
\<close>

section \<open>Requests and state\<close>

record web_request =
  wr_method :: string
  wr_path :: string
  wr_host :: string
  wr_remote :: string
  wr_tls :: bool
  wr_forwarded_proto :: string
  wr_origin :: string
  wr_authorization :: string
  wr_token_header :: string
  wr_query_token :: string
  wr_query_ticket :: string
  wr_cookie :: "string option"

record ticket_scope =
  ts_kind :: string
  ts_sandbox :: string
  ts_path :: string

record api_ticket =
  at_scope :: ticket_scope
  at_principal :: "principal option"
  at_expires :: gotime

record ide_session =
  is_sandbox :: string
  is_principal :: "principal option"
  is_expires :: gotime

record access_state =
  ax_tickets :: "string \<rightharpoonup> api_ticket"
  ax_ide :: "string \<rightharpoonup> ide_session"

record server =
  sv_auth_token :: string
  sv_authz :: "store option"
  sv_dashboard :: bool
  sv_sha :: "string \<Rightarrow> string"
  sv_oidc :: "string \<Rightarrow> principal option"

datatype http_status =
  StatusUnauthorized | StatusForbidden | StatusNotFound | StatusConflict | StatusTooManyRequests | StatusBadRequest
  | StatusMethodNotAllowed | StatusInternal

datatype access = Pass "principal option" | Reject http_status

definition errorCode :: "http_status \<Rightarrow> string" where
  "errorCode st =
     (case st of
        StatusUnauthorized \<Rightarrow> ''authentication_required''
      | StatusForbidden \<Rightarrow> ''authz_denied''
      | StatusNotFound \<Rightarrow> ''not_found''
      | StatusConflict \<Rightarrow> ''conflict''
      | StatusTooManyRequests \<Rightarrow> ''rate_limited''
      | StatusBadRequest \<Rightarrow> ''invalid_request''
      | StatusMethodNotAllowed \<Rightarrow> ''invalid_request''
      | StatusInternal \<Rightarrow> ''internal_error'')"

section \<open>Paths\<close>

definition trim_prefix :: "string \<Rightarrow> string \<Rightarrow> string" where
  "trim_prefix s p = (if has_prefix s p then drop (length p) s else s)"

definition trim_suffix :: "string \<Rightarrow> string \<Rightarrow> string" where
  "trim_suffix s x = (if has_suffix s x then take (length s - length x) s else s)"

definition citadels :: string where
  "citadels = ''/v1/citadels/''"

definition isIDEPath :: "string \<Rightarrow> bool" where
  "isIDEPath path =
     (if \<not> has_prefix path citadels then False
      else
        (let rest = trim_prefix path citadels in
         case index_byte rest CHR ''/'' of
           None \<Rightarrow> False
         | Some i \<Rightarrow> drop i rest = ''/ide'' \<or> has_prefix (drop i rest) ''/ide/''))"

definition ideSandboxID :: "string \<Rightarrow> string option" where
  "ideSandboxID path =
     (if \<not> isIDEPath path then None
      else
        (let rest = trim_prefix path citadels in
         case index_byte rest CHR ''/'' of
           None \<Rightarrow> None
         | Some i \<Rightarrow> if i = 0 then None else Some (take i rest)))"

definition terminalSandboxID :: "string \<Rightarrow> string option" where
  "terminalSandboxID path =
     (if \<not> has_prefix path citadels \<or> \<not> has_suffix path ''/terminal'' then None
      else (let sid = trim_suffix (trim_prefix path citadels) ''/terminal'' in if sid = [] then None else Some sid))"

definition conversationStreamSandboxID :: "string \<Rightarrow> string option" where
  "conversationStreamSandboxID path =
     (if \<not> has_prefix path citadels \<or> \<not> has_suffix path ''/conversation/stream'' then None
      else
        (let sid = trim_suffix (trim_prefix path citadels) ''/conversation/stream'' in
         if sid = [] \<or> CHR ''/'' \<in> set sid then None else Some sid))"

section \<open>Tickets\<close>

definition pruneExpiredTickets :: "(string \<rightharpoonup> api_ticket) \<Rightarrow> gotime \<Rightarrow> (string \<rightharpoonup> api_ticket)" where
  "pruneExpiredTickets tickets now =
     (\<lambda>tid. case tickets tid of None \<Rightarrow> None | Some t \<Rightarrow> if \<not> now < at_expires t then None else Some t)"

definition kindTerminal :: string where "kindTerminal = ''terminal''"
definition kindConversation :: string where "kindConversation = ''conversation''"
definition kindDownload :: string where "kindDownload = ''download''"
definition kindIDE :: string where "kindIDE = ''ide''"

lemmas kind_defs = kindTerminal_def kindConversation_def kindDownload_def kindIDE_def

text \<open>\<open>new_id\<close> is the random ticket id, \<^verbatim>\<open>None\<close> when the random source fails.\<close>

definition issueTicket ::
  "gotime \<Rightarrow> string option \<Rightarrow> ticket_scope \<Rightarrow> principal option \<Rightarrow> duration \<Rightarrow> access_state \<Rightarrow>
   (string \<times> gotime) option \<times> access_state" where
  "issueTicket now new_id scope p ttl0 ax =
     (let ttl = (if ttl0 \<le> 0 then 30000000000 else ttl0) in
      if ts_kind scope \<in> {kindTerminal, kindConversation, kindIDE} \<and> trim_space (ts_sandbox scope) = [] then (None, ax)
      else if ts_kind scope \<notin> {kindTerminal, kindConversation, kindIDE, kindDownload} then (None, ax)
      else (case new_id of
              None \<Rightarrow> (None, ax)
            | Some tid \<Rightarrow>
                (Some (tid, now + ttl),
                 ax\<lparr>ax_tickets := (pruneExpiredTickets (ax_tickets ax) now)
                       (tid \<mapsto> \<lparr>at_scope = scope, at_principal = p, at_expires = now + ttl\<rparr>)\<rparr>)))"

text \<open>The result of consuming: \<open>None\<close> when the request carries no ticket; otherwise \<open>Some\<close> of the ticket's
  principal, or of \<open>None\<close> when it is not accepted.\<close>

definition scope_matches :: "web_request \<Rightarrow> ticket_scope \<Rightarrow> ticket_scope \<Rightarrow> bool" where
  "scope_matches r have want \<longleftrightarrow>
     ts_kind have = ts_kind want \<and>
     (ts_kind want \<in> {kindTerminal, kindConversation, kindIDE} \<longrightarrow>
        \<not> (ts_sandbox have = [] \<or> ts_sandbox have \<noteq> ts_sandbox want)) \<and>
     (ts_kind want = kindDownload \<longrightarrow>
        \<not> (wr_method r \<noteq> ''GET'' \<and> wr_method r \<noteq> ''HEAD'') \<and> \<not> (ts_path have \<noteq> [] \<and> ts_path have \<noteq> wr_path r))"

definition consumeTicket ::
  "gotime \<Rightarrow> web_request \<Rightarrow> ticket_scope \<Rightarrow> access_state \<Rightarrow> (principal option) option option \<times> access_state" where
  "consumeTicket now r want ax =
     (let ticketID = trim_space (wr_query_ticket r) in
      if ticketID = [] then (None, ax)
      else (case ax_tickets ax ticketID of
              None \<Rightarrow> (Some None, ax)
            | Some t \<Rightarrow>
                (let ax' = ax\<lparr>ax_tickets := (ax_tickets ax)(ticketID := None)\<rparr> in
                 if now > at_expires t then (Some None, ax')
                 else if \<not> scope_matches r (at_scope t) want then (Some None, ax')
                 else (Some (Some (at_principal t)), ax'))))"

definition request_scope :: "web_request \<Rightarrow> ticket_scope" where
  "request_scope r =
     (case conversationStreamSandboxID (wr_path r) of
        Some sid \<Rightarrow> \<lparr>ts_kind = kindConversation, ts_sandbox = sid, ts_path = []\<rparr>
      | None \<Rightarrow>
          (case terminalSandboxID (wr_path r) of
             Some sid \<Rightarrow> \<lparr>ts_kind = kindTerminal, ts_sandbox = sid, ts_path = []\<rparr>
           | None \<Rightarrow>
               (case ideSandboxID (wr_path r) of
                  Some sid \<Rightarrow> \<lparr>ts_kind = kindIDE, ts_sandbox = sid, ts_path = []\<rparr>
                | None \<Rightarrow> \<lparr>ts_kind = kindDownload, ts_sandbox = [], ts_path = []\<rparr>)))"

definition consumeRequestTicket ::
  "gotime \<Rightarrow> web_request \<Rightarrow> access_state \<Rightarrow> (principal option) option option \<times> access_state" where
  "consumeRequestTicket now r ax = consumeTicket now r (request_scope r) ax"

section \<open>IDE cookies\<close>

definition ideSessionTTL :: duration where
  "ideSessionTTL = 2 * 3600 * 1000000000"

definition pruneExpiredIDESessions :: "(string \<rightharpoonup> ide_session) \<Rightarrow> gotime \<Rightarrow> (string \<rightharpoonup> ide_session)" where
  "pruneExpiredIDESessions sessions now =
     (\<lambda>sid. case sessions sid of None \<Rightarrow> None | Some s \<Rightarrow> if \<not> now < is_expires s then None else Some s)"

definition attachIDESession ::
  "gotime \<Rightarrow> string option \<Rightarrow> string \<Rightarrow> principal option \<Rightarrow> access_state \<Rightarrow> access_state" where
  "attachIDESession now new_id sandboxID p ax =
     (case new_id of
        None \<Rightarrow> ax
      | Some sid \<Rightarrow>
          ax\<lparr>ax_ide := (pruneExpiredIDESessions (ax_ide ax) now)
               (sid \<mapsto> \<lparr>is_sandbox = sandboxID, is_principal = p, is_expires = now + ideSessionTTL\<rparr>)\<rparr>)"

definition ideSessionFromCookie ::
  "gotime \<Rightarrow> web_request \<Rightarrow> string \<Rightarrow> access_state \<Rightarrow> (principal option) option \<times> access_state" where
  "ideSessionFromCookie now r sandboxID ax =
     (case wr_cookie r of
        None \<Rightarrow> (None, ax)
      | Some c \<Rightarrow>
          if trim_space c = [] then (None, ax)
          else
            (let ide = pruneExpiredIDESessions (ax_ide ax) now; ax1 = ax\<lparr>ax_ide := ide\<rparr> in
             case ide c of
               None \<Rightarrow> (None, ax1\<lparr>ax_ide := ide(c := None)\<rparr>)
             | Some s \<Rightarrow>
                 if now > is_expires s then (None, ax1\<lparr>ax_ide := ide(c := None)\<rparr>)
                 else if is_sandbox s \<noteq> sandboxID then (None, ax1)
                 else (Some (is_principal s), ax1)))"

text \<open>\<open>loopback\<close> tells whether a textual address is a loopback IP.\<close>

definition isLoopbackAddress :: "(string \<Rightarrow> bool) \<Rightarrow> string \<Rightarrow> bool" where
  "isLoopbackAddress loopback address =
     (let host0 = trim_space address;
          host1 = (case SplitHostPort host0 of Inr (h, _) \<Rightarrow> h | Inl _ \<Rightarrow> host0);
          host = str_trim host1 ''[]''
      in equal_fold host ''localhost'' \<or> loopback host)"

definition ideCookieSecure :: "(string \<Rightarrow> bool) \<Rightarrow> web_request \<Rightarrow> bool" where
  "ideCookieSecure loopback r =
     (if wr_tls r \<or> equal_fold (trim_space (wr_forwarded_proto r)) ''https'' then True
      else \<not> (isLoopbackAddress loopback (wr_host r) \<and> isLoopbackAddress loopback (wr_remote r)))"

section \<open>Authentication\<close>

definition presentedToken :: "web_request \<Rightarrow> bool \<Rightarrow> string" where
  "presentedToken r allowQuery =
     (if wr_authorization r \<noteq> [] then trim_space (trim_prefix (wr_authorization r) ''Bearer '')
      else if wr_token_header r \<noteq> [] then trim_space (wr_token_header r)
      else if \<not> allowQuery then []
      else wr_query_token r)"

definition tokenMatches :: "web_request \<Rightarrow> string \<Rightarrow> bool \<Rightarrow> bool" where
  "tokenMatches r want allowQuery = (let got = presentedToken r allowQuery in got \<noteq> [] \<and> got = want)"

definition publicDashboardAsset :: "server \<Rightarrow> web_request \<Rightarrow> bool" where
  "publicDashboardAsset s r \<longleftrightarrow>
     sv_dashboard s \<and> (wr_method r = ''GET'' \<or> wr_method r = ''HEAD'') \<and>
     wr_path r \<in> {''/'', ''/index.html'', ''/app.js'', ''/style.css'', ''/logo.png''}"

text \<open>\<open>sid\<close> is the random id of a fresh IDE session. In the single-token mode no principal is attached.\<close>

definition authenticate :: "server \<Rightarrow> gotime \<Rightarrow> string option \<Rightarrow> web_request \<Rightarrow> access_state \<Rightarrow> access \<times> access_state" where
  "authenticate s now sid r ax =
     (if sv_authz s = None \<and> sv_auth_token s = [] then (Pass None, ax)
      else if wr_path r = ''/healthz'' \<or> publicDashboardAsset s r then (Pass None, ax)
      else
        (let rbac = (sv_authz s \<noteq> None); keep = (\<lambda>p. if rbac then p else None) in
         case consumeRequestTicket now r ax of
           (Some None, ax1) \<Rightarrow> (Reject StatusUnauthorized, ax1)
         | (Some (Some tp), ax1) \<Rightarrow>
             (Pass (keep tp),
              case ideSandboxID (wr_path r) of Some sb \<Rightarrow> attachIDESession now sid sb tp ax1 | None \<Rightarrow> ax1)
         | (None, ax1) \<Rightarrow>
             (let (cookie, ax2) = (case ideSandboxID (wr_path r) of
                                     Some sb \<Rightarrow> ideSessionFromCookie now r sb ax1
                                   | None \<Rightarrow> (None, ax1))
              in case cookie of
                   Some p \<Rightarrow> (Pass (keep p), ax2)
                 | None \<Rightarrow>
                     if rbac then
                       (case Identify (sv_sha s) (sv_authz s) (sv_oidc s (presentedToken r False)) (presentedToken r False) of
                          None \<Rightarrow> (Reject StatusUnauthorized, ax2)
                        | Some p \<Rightarrow> (Pass (Some p), ax2))
                     else if \<not> tokenMatches r (sv_auth_token s) False then (Reject StatusUnauthorized, ax2)
                     else (Pass None, ax2))))"

section \<open>The guards behind it\<close>

record resources =
  rs_sandbox_owner :: "string \<Rightarrow> string option"
  rs_fleet :: "string \<Rightarrow> (string \<times> string list) option"
  rs_snapshot_owner :: "string \<Rightarrow> string option"

definition fleetOwnedBy :: "resources \<Rightarrow> string \<Rightarrow> string \<Rightarrow> bool" where
  "fleetOwnedBy R fid owner =
     (case rs_fleet R fid of
        None \<Rightarrow> False
      | Some (fleet_owner, sandboxes) \<Rightarrow>
          if trim_space owner = [] then False
          else if fleet_owner \<noteq> [] then fleet_owner = owner
          else if sandboxes = [] then False
          else list_all (\<lambda>sb. rs_sandbox_owner R sb = Some owner) sandboxes)"

definition snapshotVisibleTo :: "resources \<Rightarrow> principal option \<Rightarrow> string \<Rightarrow> bool" where
  "snapshotVisibleTo R p snap =
     (case rs_snapshot_owner R snap of None \<Rightarrow> False | Some owner \<Rightarrow> owner \<noteq> [] \<and> owner = TenantID p)"

definition first_segment :: "string \<Rightarrow> string" where
  "first_segment rest = (case index_byte rest CHR ''/'' of Some i \<Rightarrow> take i rest | None \<Rightarrow> rest)"

definition ownershipGuard :: "resources \<Rightarrow> web_request \<Rightarrow> principal option \<Rightarrow> access" where
  "ownershipGuard R r p =
     (if (case p of None \<Rightarrow> True | Some q \<Rightarrow> pc_admin q) then Pass p
      else
        (let path = wr_path r;
             sb = first_segment (trim_prefix path citadels);
             fl = first_segment (trim_prefix path ''/v1/cohorts/'')
         in
         if has_prefix path citadels \<and> sb \<noteq> [] \<and> rs_sandbox_owner R sb \<noteq> Some (TenantID p) then Reject StatusNotFound
         else if has_prefix path ''/v1/cohorts/'' \<and> fl \<noteq> [] \<and> \<not> fleetOwnedBy R fl (TenantID p) then Reject StatusNotFound
         else if has_prefix path ''/v1/snapshots/'' \<and> has_suffix path ''/restore'' \<and>
                 \<not> snapshotVisibleTo R p (trim_suffix (trim_prefix path ''/v1/snapshots/'') ''/restore'') then Reject StatusNotFound
         else if path = ''/v1/chronicle/export'' then Reject StatusForbidden
         else if has_prefix path ''/v1/conclave'' \<and> \<not> MayApprove p then Reject StatusForbidden
         else Pass p))"

text \<open>\<open>origin_host\<close> parses an Origin header into its host, \<^verbatim>\<open>None\<close> when it does not parse.\<close>

definition csrfGuard :: "(string \<Rightarrow> string option) \<Rightarrow> web_request \<Rightarrow> bool" where
  "csrfGuard origin_host r \<longleftrightarrow>
     wr_method r \<in> {''GET'', ''HEAD'', ''OPTIONS''} \<or> wr_origin r = [] \<or> origin_host (wr_origin r) = Some (wr_host r)"

definition sameOrigin :: "(string \<Rightarrow> string option) \<Rightarrow> web_request \<Rightarrow> bool" where
  "sameOrigin origin_host r \<longleftrightarrow> wr_origin r = [] \<or> origin_host (wr_origin r) = Some (wr_host r)"

text \<open>The chain that the server builds around its routes (without the rate limiter).\<close>

definition serve ::
  "server \<Rightarrow> resources \<Rightarrow> (string \<Rightarrow> string option) \<Rightarrow> gotime \<Rightarrow> string option \<Rightarrow> web_request \<Rightarrow> access_state \<Rightarrow>
   access \<times> access_state" where
  "serve s R origin_host now sid r ax =
     (case authenticate s now sid r ax of
        (Reject st, ax') \<Rightarrow> (Reject st, ax')
      | (Pass p, ax') \<Rightarrow>
          (case ownershipGuard R r p of
             Reject st \<Rightarrow> (Reject st, ax')
           | Pass q \<Rightarrow> if csrfGuard origin_host r then (Pass q, ax') else (Reject StatusForbidden, ax')))"

section \<open>The ticket endpoint\<close>

record ticket_request =
  tq_kind :: string
  tq_sandbox :: string
  tq_path :: string
  tq_ttl_seconds :: int

text \<open>\<open>ide\<close> tells whether the experimental IDE is enabled and has an endpoint for the sandbox.\<close>

definition ticket_request_scope :: "ticket_request \<Rightarrow> ticket_scope" where
  "ticket_request_scope q =
     (let kind0 = to_lower (trim_space (tq_kind q)); sb = trim_space (tq_sandbox q); path0 = trim_space (tq_path q);
          kind = (if kind0 = [] then if sb \<noteq> [] then kindTerminal else kindDownload else kind0)
      in \<lparr>ts_kind = kind, ts_sandbox = sb,
          ts_path = (if kind = kindDownload \<and> path0 = [] then ''/v1/chronicle/export'' else path0)\<rparr>)"

text \<open>The product of a 64 bit \<^verbatim>\<open>time.Duration\<close> wraps around.\<close>

definition ticket_ttl :: "int \<Rightarrow> duration" where
  "ticket_ttl secs =
     (let ttl = (if secs > 0 then sint (word_of_int (secs * 1000000000) :: 64 word) else 30000000000) in
      if ttl > 120 * 1000000000 then 120 * 1000000000 else ttl)"

definition handleCreateTicket ::
  "resources \<Rightarrow> bool \<times> bool \<Rightarrow> gotime \<Rightarrow> string option \<Rightarrow> ticket_request \<Rightarrow> principal option \<Rightarrow> access_state \<Rightarrow>
   (http_status, string \<times> gotime) result \<times> access_state" where
  "handleCreateTicket R ide now new_id q p ax =
     (let scope = ticket_request_scope q; scoped = (ts_kind scope \<in> {kindTerminal, kindConversation, kindIDE}) in
      if scoped \<and> ts_sandbox scope = [] then (Inl StatusBadRequest, ax)
      else if scoped \<and> rs_sandbox_owner R (ts_sandbox scope) = None then (Inl StatusNotFound, ax)
      else if scoped \<and> (case p of None \<Rightarrow> False | Some pr \<Rightarrow> \<not> pc_admin pr \<and> rs_sandbox_owner R (ts_sandbox scope) \<noteq> Some (TenantID p))
      then (Inl StatusNotFound, ax)
      else if ts_kind scope = kindIDE \<and> \<not> (fst ide \<and> snd ide) then (Inl StatusNotFound, ax)
      else (case issueTicket now new_id scope p (ticket_ttl (tq_ttl_seconds q)) ax of
              (None, ax') \<Rightarrow> (Inl StatusBadRequest, ax')
            | (Some t, ax') \<Rightarrow> (Inr t, ax')))"

section \<open>Ticket and session facts\<close>

lemma prune_Some: "pruneExpiredTickets tickets now tid = Some t \<longleftrightarrow> tickets tid = Some t \<and> now < at_expires t"
  by (auto simp: pruneExpiredTickets_def split: option.splits)

lemma prune_ide_Some: "pruneExpiredIDESessions ss now sid = Some x \<longleftrightarrow> ss sid = Some x \<and> now < is_expires x"
  by (auto simp: pruneExpiredIDESessions_def split: option.splits)

lemma consumeTicket_accept:
  assumes "consumeTicket now r want ax = (Some (Some po), ax')"
  shows "\<exists>t. ax_tickets ax (trim_space (wr_query_ticket r)) = Some t \<and> now \<le> at_expires t \<and>
    scope_matches r (at_scope t) want \<and> po = at_principal t \<and>
    ax' = ax\<lparr>ax_tickets := (ax_tickets ax)(trim_space (wr_query_ticket r) := None)\<rparr>"
  using assms by (auto simp: consumeTicket_def Let_def split: if_splits option.splits)

lemma consumeTicket_state:
  "snd (consumeTicket now r want ax) = ax \<or>
   snd (consumeTicket now r want ax) = ax\<lparr>ax_tickets := (ax_tickets ax)(trim_space (wr_query_ticket r) := None)\<rparr>"
  by (auto simp: consumeTicket_def Let_def split: option.splits)

lemma ideSessionFromCookie_accept:
  assumes "ideSessionFromCookie now r sb ax = (Some po, ax')"
  shows "\<exists>c ses. wr_cookie r = Some c \<and> ax_ide ax c = Some ses \<and> now < is_expires ses \<and> is_sandbox ses = sb \<and> po = is_principal ses"
  using assms by (auto simp: ideSessionFromCookie_def Let_def prune_ide_Some split: option.splits if_splits)

lemma ideSessionFromCookie_state:
  "ax_tickets (snd (ideSessionFromCookie now r sb ax)) = ax_tickets ax"
  "ax_ide (snd (ideSessionFromCookie now r sb ax)) c = Some ses \<Longrightarrow> ax_ide ax c = Some ses"
  by (auto simp: ideSessionFromCookie_def Let_def prune_ide_Some split: option.splits if_splits)

lemma attachIDESession_state:
  "ax_tickets (attachIDESession now sid sb p ax) = ax_tickets ax"
  "ax_ide (attachIDESession now sid sb p ax) c = Some ses \<Longrightarrow> ax_ide ax c = Some ses \<or> is_principal ses = p"
  by (auto simp: attachIDESession_def prune_ide_Some split: option.splits if_splits)

text \<open>Requests that are served without credentials.\<close>

definition public_request :: "server \<Rightarrow> web_request \<Rightarrow> bool" where
  "public_request s r \<longleftrightarrow> wr_path r = ''/healthz'' \<or> publicDashboardAsset s r"

lemma authenticate_rbac:
  assumes "sv_authz s = Some st" "authenticate s now sid r ax = (Pass po, ax')" "\<not> public_request s r"
  shows "(\<exists>t. ax_tickets ax (trim_space (wr_query_ticket r)) = Some t \<and> now \<le> at_expires t \<and>
      scope_matches r (at_scope t) (request_scope r) \<and> po = at_principal t) \<or>
    (\<exists>sb c ses. ideSandboxID (wr_path r) = Some sb \<and> wr_cookie r = Some c \<and> ax_ide ax c = Some ses \<and>
      now < is_expires ses \<and> is_sandbox ses = sb \<and> po = is_principal ses) \<or>
    (\<exists>p. po = Some p \<and>
      Identify (sv_sha s) (Some st) (sv_oidc s (presentedToken r False)) (presentedToken r False) = Some p)"
proof -
  obtain c ax1 where ct: "consumeRequestTicket now r ax = (c, ax1)" by fastforce
  consider "c = Some None" | po' where "c = Some (Some po')" | "c = None" by (cases c) auto
  then show ?thesis
  proof cases
    case 1
    then show ?thesis using assms ct by (auto simp: authenticate_def public_request_def Let_def)
  next
    case (2 po')
    then have "po = po'" using assms ct by (auto simp: authenticate_def public_request_def Let_def)
    then show ?thesis using consumeTicket_accept ct 2 unfolding consumeRequestTicket_def by blast
  next
    case 3
    obtain ck ax2 where ck: "(case ideSandboxID (wr_path r) of Some sb \<Rightarrow> ideSessionFromCookie now r sb ax1 | None \<Rightarrow> (None, ax1)) = (ck, ax2)"
      by fastforce
    have ax1: "ax1 = ax" using ct 3 by (auto simp: consumeRequestTicket_def consumeTicket_def Let_def split: if_splits option.splits)
    show ?thesis
    proof (cases ck)
      case None
      then show ?thesis using assms ct 3 ck by (auto simp: authenticate_def public_request_def Let_def split: option.splits)
    next
      case (Some po')
      then have "po = po'" using assms ct 3 ck by (auto simp: authenticate_def public_request_def Let_def)
      then show ?thesis using ideSessionFromCookie_accept ck Some ax1 by (fastforce split: option.splits)
    qed
  qed
qed

section \<open>Every stored credential has a principal\<close>

definition access_inv :: "access_state \<Rightarrow> bool" where
  "access_inv ax \<longleftrightarrow> (\<forall>tid t. ax_tickets ax tid = Some t \<longrightarrow> at_principal t \<noteq> None) \<and>
     (\<forall>sid ses. ax_ide ax sid = Some ses \<longrightarrow> is_principal ses \<noteq> None)"

lemma authenticate_state:
  "(\<forall>tid t. ax_tickets (snd (authenticate s now sid r ax)) tid = Some t \<longrightarrow> ax_tickets ax tid = Some t) \<and>
   (\<forall>c ses. ax_ide (snd (authenticate s now sid r ax)) c = Some ses \<longrightarrow>
      ax_ide ax c = Some ses \<or> (\<exists>tid t. ax_tickets ax tid = Some t \<and> is_principal ses = at_principal t))"
proof -
  obtain c ax1 where ct: "consumeRequestTicket now r ax = (c, ax1)" by fastforce
  then have st: "ax1 = ax \<or> ax1 = ax\<lparr>ax_tickets := (ax_tickets ax)(trim_space (wr_query_ticket r) := None)\<rparr>"
    using consumeTicket_state [of now r "request_scope r" ax] by (simp add: consumeRequestTicket_def)
  consider "c = Some None" | po' where "c = Some (Some po')" | "c = None" by (cases c) auto
  then show ?thesis
  proof cases
    case 1
    then show ?thesis using ct st by (auto simp: authenticate_def Let_def split: if_splits)
  next
    case (2 po')
    then obtain t where "ax_tickets ax (trim_space (wr_query_ticket r)) = Some t" "po' = at_principal t"
      using consumeTicket_accept ct unfolding consumeRequestTicket_def by blast
    then show ?thesis using ct st 2 attachIDESession_state
      by (fastforce simp: authenticate_def Let_def split: if_splits option.splits)
  next
    case 3
    then have ax1: "ax1 = ax"
      using ct by (auto simp: consumeRequestTicket_def consumeTicket_def Let_def split: if_splits option.splits)
    let ?ck = "case ideSandboxID (wr_path r) of Some sb \<Rightarrow> ideSessionFromCookie now r sb ax | None \<Rightarrow> (None, ax)"
    have "snd (authenticate s now sid r ax) = ax \<or> snd (authenticate s now sid r ax) = snd ?ck"
    proof -
      obtain ck ax2 where ck: "?ck = (ck, ax2)" by fastforce
      have ct': "consumeRequestTicket now r ax = (None, ax)" using ct 3 ax1 by simp
      show ?thesis unfolding authenticate_def Let_def ct' prod.case option.case ck by (cases ck) (simp_all split: option.split)
    qed
    moreover have "ax_tickets (snd ?ck) = ax_tickets ax" "ax_ide (snd ?ck) c' = Some ses \<Longrightarrow> ax_ide ax c' = Some ses" for c' ses
      by (auto simp: ideSessionFromCookie_state(1) split: option.splits dest: ideSessionFromCookie_state(2))
    ultimately show ?thesis by metis
  qed
qed

text \<open>What clients can do to the access state of a server with RBAC: send requests through the chain, and,
  once authenticated as some principal, ask for tickets. The resources may be different each time.\<close>

datatype access_op =
    WebRequest resources gotime "string option" web_request
  | TicketRequest resources "bool \<times> bool" gotime "string option" ticket_request principal

fun access_step :: "server \<Rightarrow> (string \<Rightarrow> string option) \<Rightarrow> access_state \<Rightarrow> access_op \<Rightarrow> access_state" where
  "access_step s oh ax (WebRequest R now sid r) = snd (serve s R oh now sid r ax)"
| "access_step s oh ax (TicketRequest R ide now new_id q p) = snd (handleCreateTicket R ide now new_id q (Some p) ax)"

lemma serve_state: "snd (serve s R oh now sid r ax) = snd (authenticate s now sid r ax)"
  by (auto simp: serve_def split: prod.splits access.splits)

lemma issueTicket_state:
  "ax_ide (snd (issueTicket now new_id scope p ttl ax)) = ax_ide ax"
  "ax_tickets (snd (issueTicket now new_id scope p ttl ax)) tid = Some t \<Longrightarrow> ax_tickets ax tid = Some t \<or> at_principal t = p"
  by (auto simp: issueTicket_def Let_def prune_Some split: option.splits if_splits)

lemma handleCreateTicket_state:
  "snd (handleCreateTicket R ide now new_id q p ax) = ax \<or>
   snd (handleCreateTicket R ide now new_id q p ax) =
     snd (issueTicket now new_id (ticket_request_scope q) p (ticket_ttl (tq_ttl_seconds q)) ax)"
  by (auto simp: handleCreateTicket_def Let_def split: prod.splits option.splits)

interpretation access: invariant_machine "access_step s oh" access_inv for s oh
proof
  fix ax e
  assume inv: "access_inv ax"
  show "access_inv (access_step s oh ax e)"
  proof (cases e)
    case (WebRequest R now sid r)
    then show ?thesis using inv authenticate_state [of s now sid r ax] by (simp add: access_inv_def serve_state) metis
  next
    case (TicketRequest R ide now new_id q p)
    then show ?thesis
      using inv handleCreateTicket_state [of R ide now new_id q "Some p" ax]
        issueTicket_state [of now new_id "ticket_request_scope q" "Some p" "ticket_ttl (tq_ttl_seconds q)" ax]
      by (auto simp: access_inv_def) metis
  qed
qed

lemma ownershipGuard_Pass:
  assumes "ownershipGuard R r po = Pass q"
  shows "q = po \<and> (case po of None \<Rightarrow> True | Some p \<Rightarrow> pc_admin p) \<or>
    q = po \<and>
    \<not> (has_prefix (wr_path r) citadels \<and> first_segment (trim_prefix (wr_path r) citadels) \<noteq> [] \<and>
       rs_sandbox_owner R (first_segment (trim_prefix (wr_path r) citadels)) \<noteq> Some (TenantID po)) \<and>
    \<not> (has_prefix (wr_path r) ''/v1/cohorts/'' \<and> first_segment (trim_prefix (wr_path r) ''/v1/cohorts/'') \<noteq> [] \<and>
       \<not> fleetOwnedBy R (first_segment (trim_prefix (wr_path r) ''/v1/cohorts/'')) (TenantID po)) \<and>
    \<not> (has_prefix (wr_path r) ''/v1/snapshots/'' \<and> has_suffix (wr_path r) ''/restore'' \<and>
       \<not> snapshotVisibleTo R po (trim_suffix (trim_prefix (wr_path r) ''/v1/snapshots/'') ''/restore'')) \<and>
    wr_path r \<noteq> ''/v1/chronicle/export'' \<and> \<not> (has_prefix (wr_path r) ''/v1/conclave'' \<and> \<not> MayApprove po)"
  using assms unfolding ownershipGuard_def Let_def by (simp split: if_split_asm)

lemma serve_Pass:
  assumes "serve s R oh now sid r ax = (Pass q, ax')"
  shows "\<exists>po. authenticate s now sid r ax = (Pass po, ax') \<and> ownershipGuard R r po = Pass q"
  using assms by (auto simp: serve_def split: prod.splits access.splits if_splits)

lemma path_parts:
  "has_prefix (p @ rest) p" "trim_prefix (p @ rest) p = rest" "has_suffix (p @ rest @ x) x" "trim_suffix (rest @ x) x = rest"
  by (simp_all add: trim_prefix_def trim_suffix_def has_prefix_def has_suffix_def suffix_def)

section \<open>Properties\<close>

text \<open>
  C7. Tenants are isolated: on a server with RBAC, after any sequence of requests and ticket grants, a
  request that reaches the routes is a public one or has a principal; and if that principal is not an
  administrator, then a path below a citadel belongs to its tenant, as does a path below a cohort or a
  snapshot to restore, the audit export is out of reach, and the approvals only open to approvers.
\<close>

theorem rbac_isolates_tenants:
  assumes "sv_authz s = Some st" "access_inv ax0" "ax = foldl (access_step s oh) ax0 ops"
    and "serve s R oh now sid r ax = (Pass po, ax')" "\<not> public_request s r"
  shows "\<exists>p. po = Some p \<and>
    (pc_admin p \<or>
      (\<forall>rest. wr_path r = ''/v1/citadels/'' @ rest \<longrightarrow> first_segment rest \<noteq> [] \<longrightarrow>
         rs_sandbox_owner R (first_segment rest) = Some (TenantID (Some p))) \<and>
      (\<forall>rest. wr_path r = ''/v1/cohorts/'' @ rest \<longrightarrow> first_segment rest \<noteq> [] \<longrightarrow>
         fleetOwnedBy R (first_segment rest) (TenantID (Some p))) \<and>
      (\<forall>snap. wr_path r = ''/v1/snapshots/'' @ snap @ ''/restore'' \<longrightarrow> rs_snapshot_owner R snap = Some (TenantID (Some p))) \<and>
      wr_path r \<noteq> ''/v1/chronicle/export'' \<and>
      (has_prefix (wr_path r) ''/v1/conclave'' \<longrightarrow> MayApprove (Some p)))"
proof -
  have inv: "access_inv ax" unfolding assms(3) by (rule access.run_inv [OF assms(2)])
  obtain po' where auth: "authenticate s now sid r ax = (Pass po', ax')" and own: "ownershipGuard R r po' = Pass po"
    using serve_Pass [OF assms(4)] by blast
  obtain p where p: "po' = Some p"
    using authenticate_rbac [OF assms(1) auth assms(5)] inv unfolding access_inv_def by blast
  note g = ownershipGuard_Pass [OF own]
  have "po = Some p" using g p by blast
  moreover have "rs_sandbox_owner R (first_segment rest) = Some (TenantID (Some p))"
    if "\<not> pc_admin p" "wr_path r = ''/v1/citadels/'' @ rest" "first_segment rest \<noteq> []" for rest
    using g p that path_parts(1,2) [of citadels rest] by (simp add: citadels_def)
  moreover have "fleetOwnedBy R (first_segment rest) (TenantID (Some p))"
    if "\<not> pc_admin p" "wr_path r = ''/v1/cohorts/'' @ rest" "first_segment rest \<noteq> []" for rest
    using g p that path_parts(1,2) [of "''/v1/cohorts/''" rest] by simp
  moreover have "rs_snapshot_owner R snap = Some (TenantID (Some p))"
    if "\<not> pc_admin p" "wr_path r = ''/v1/snapshots/'' @ snap @ ''/restore''" for snap
    using g p that path_parts(1,2) [of "''/v1/snapshots/''" "snap @ ''/restore''"] path_parts(3) [of "''/v1/snapshots/''" snap "''/restore''"]
      path_parts(4) [of snap "''/restore''"] by (simp add: snapshotVisibleTo_def split: option.splits)
  ultimately show ?thesis using g p by auto
qed

definition server0 :: server where
  "server0 = \<lparr>sv_auth_token = [], sv_authz = Some store0, sv_dashboard = True, sv_sha = (\<lambda>x. x), sv_oidc = (\<lambda>_. None)\<rparr>"

definition resources0 :: resources where
  "resources0 = \<lparr>rs_sandbox_owner = [''sb1'' \<mapsto> ''red'', ''sb2'' \<mapsto> ''blue''], rs_fleet = Map.empty, rs_snapshot_owner = Map.empty\<rparr>"

definition access0 :: access_state where
  "access0 = \<lparr>ax_tickets = Map.empty, ax_ide = Map.empty\<rparr>"

definition get0 :: "string \<Rightarrow> web_request" where
  "get0 path = \<lparr>wr_method = ''GET'', wr_path = path, wr_host = ''h'', wr_remote = [], wr_tls = True, wr_forwarded_proto = [],
     wr_origin = [], wr_authorization = ''Bearer t1'', wr_token_header = [], wr_query_token = [], wr_query_ticket = [], wr_cookie = None\<rparr>"

lemma serve0:
  "\<exists>ax'. serve server0 resources0 (\<lambda>_. None) 5 None (get0 ''/v1/citadels/sb1'') access0 = (Pass (Some alice), ax')"
proof -
  have "fst (serve server0 resources0 (\<lambda>_. None) 5 None (get0 ''/v1/citadels/sb1'') access0) = Pass (Some alice)" by code_simp
  then show ?thesis by (metis prod.collapse)
qed

theorem rbac_isolates_tenants_witness:
  "rs_sandbox_owner resources0 ''sb1'' = Some (TenantID (Some alice)) \<and> \<not> pc_admin alice"
proof -
  let ?r = "get0 ''/v1/citadels/sb1''"
  obtain ax' where srv: "serve server0 resources0 (\<lambda>_. None) 5 None ?r access0 = (Pass (Some alice), ax')"
    using serve0 by blast
  have pub: "\<not> public_request server0 ?r" by (simp add: public_request_def publicDashboardAsset_def get0_def)
  have inv: "access_inv access0" and rbac: "sv_authz server0 = Some store0" and alice: "\<not> pc_admin alice"
    by (simp_all add: access_inv_def access0_def server0_def alice_def)
  have run: "access0 = foldl (access_step server0 (\<lambda>_. None)) access0 []" by simp
  have seg: "first_segment ''sb1'' = ''sb1''" by code_simp
  have path: "wr_path ?r = ''/v1/citadels/'' @ ''sb1''" by (simp add: get0_def)
  obtain p where p: "Some alice = Some p"
    "pc_admin p \<or> (\<forall>rest. wr_path ?r = ''/v1/citadels/'' @ rest \<longrightarrow> first_segment rest \<noteq> [] \<longrightarrow>
         rs_sandbox_owner resources0 (first_segment rest) = Some (TenantID (Some p)))"
    using rbac_isolates_tenants [OF rbac inv run srv pub] by blast
  have "p = alice" using p(1) by simp
  then have "wr_path ?r = ''/v1/citadels/'' @ ''sb1'' \<longrightarrow> first_segment ''sb1'' \<noteq> [] \<longrightarrow>
         rs_sandbox_owner resources0 (first_segment ''sb1'') = Some (TenantID (Some alice))"
    using p(2) alice by blast
  then show ?thesis using alice path seg by simp
qed

text \<open>What a step does with the ticket \<open>tid\<close>: it authenticates a request, or it is issued.\<close>

definition ticket_accepted :: "string \<Rightarrow> server \<Rightarrow> access_state \<Rightarrow> access_op \<Rightarrow> bool" where
  "ticket_accepted tid s ax e =
     (case e of
        WebRequest R now sid r \<Rightarrow>
          \<not> (sv_authz s = None \<and> sv_auth_token s = []) \<and> \<not> public_request s r \<and> trim_space (wr_query_ticket r) = tid \<and>
          (case fst (consumeRequestTicket now r ax) of Some (Some p) \<Rightarrow> True | _ \<Rightarrow> False)
      | TicketRequest R ide now new_id q p \<Rightarrow> False)"

definition ticket_issued :: "string \<Rightarrow> access_state \<Rightarrow> access_op \<Rightarrow> bool" where
  "ticket_issued tid ax e =
     (case e of
        WebRequest R now sid r \<Rightarrow> False
      | TicketRequest R ide now new_id q p \<Rightarrow>
          (case fst (handleCreateTicket R ide now new_id q (Some p) ax) of Inr (t, _) \<Rightarrow> t = tid | Inl _ \<Rightarrow> False))"

fun count_ops :: "(access_state \<Rightarrow> access_op \<Rightarrow> bool) \<Rightarrow> server \<Rightarrow> (string \<Rightarrow> string option) \<Rightarrow> access_op list \<Rightarrow> access_state \<Rightarrow> nat" where
  "count_ops P s oh [] ax = 0"
| "count_ops P s oh (e # es) ax = of_bool (P ax e) + count_ops P s oh es (access_step s oh ax e)"

definition stored :: "string \<Rightarrow> access_state \<Rightarrow> nat" where
  "stored tid ax = of_bool (ax_tickets ax tid \<noteq> None)"

lemma authenticate_consumes:
  assumes "ticket_accepted tid s ax (WebRequest R now sid r)"
  shows "ax_tickets ax tid \<noteq> None \<and> ax_tickets (snd (authenticate s now sid r ax)) tid = None"
proof -
  obtain po ax1 where ct: "consumeRequestTicket now r ax = (Some (Some po), ax1)" and tid: "trim_space (wr_query_ticket r) = tid"
    and on: "\<not> (sv_authz s = None \<and> sv_auth_token s = [])" "\<not> (wr_path r = ''/healthz'' \<or> publicDashboardAsset s r)"
    using assms by (cases "consumeRequestTicket now r ax")
      (auto simp: ticket_accepted_def public_request_def split: option.splits)
  have got: "ax_tickets ax tid \<noteq> None" "ax_tickets ax1 tid = None"
    using consumeTicket_accept [OF ct [unfolded consumeRequestTicket_def]] tid by auto
  have "ax_tickets (snd (authenticate s now sid r ax)) = ax_tickets ax1"
    using on unfolding authenticate_def Let_def ct prod.case option.case
    by (auto simp: attachIDESession_state(1) split: option.split)
  then show ?thesis using got by simp
qed

lemma access_step_stored:
  "of_bool (ticket_accepted tid s ax e) + stored tid (access_step s oh ax e) \<le> of_bool (ticket_issued tid ax e) + stored tid ax"
proof (cases e)
  case (WebRequest R now sid r)
  have "stored tid (access_step s oh ax e) \<le> stored tid ax"
    using authenticate_state [of s now sid r ax] by (auto simp: WebRequest serve_state stored_def)
  then show ?thesis using authenticate_consumes [of tid s ax R now sid r]
    by (auto simp: WebRequest serve_state stored_def ticket_issued_def)
next
  case (TicketRequest R ide now new_id q p)
  have "ax_tickets (snd (handleCreateTicket R ide now new_id q (Some p) ax)) tid = Some t \<Longrightarrow> \<not> ticket_issued tid ax e \<Longrightarrow>
      ax_tickets ax tid = Some t" for t
    unfolding TicketRequest ticket_issued_def
    by (auto simp: handleCreateTicket_def issueTicket_def Let_def prune_Some split: prod.splits option.splits if_splits)
  then show ?thesis
    by (cases "ax_tickets (snd (handleCreateTicket R ide now new_id q (Some p) ax)) tid")
      (auto simp: TicketRequest stored_def ticket_accepted_def)
qed

text \<open>
  C15. A ticket opens one door once: over any sequence of requests and grants, the number of requests
  that ticket \<open>tid\<close> authenticates is at most the number of times that id was issued, plus one if it
  was already stored.
\<close>

theorem ticket_single_use:
  "count_ops (ticket_accepted tid s) s oh ops ax \<le> count_ops (ticket_issued tid) s oh ops ax + stored tid ax"
proof (induction ops arbitrary: ax)
  case (Cons e es)
  then show ?case using access_step_stored [of tid s ax e oh] Cons.IH [of "access_step s oh ax e"]
    unfolding count_ops.simps by linarith
qed simp

text \<open>
  Tickets are short-lived: whatever lifetime is asked for, including one whose nanoseconds overflow,
  an issued ticket expires at most two minutes after it was issued, and it is stored for the scope and
  the principal of the request.
\<close>

theorem ticket_lives_two_minutes:
  assumes "handleCreateTicket R ide now new_id q p ax = (Inr (tid, expires), ax')"
  shows "now < expires \<and> expires \<le> now + 120000000000 \<and>
    ax_tickets ax' tid = Some \<lparr>at_scope = ticket_request_scope q, at_principal = p, at_expires = expires\<rparr>"
proof -
  have "ticket_ttl secs \<le> 120000000000" for secs unfolding ticket_ttl_def Let_def by simp
  then show ?thesis using assms
    by (auto simp: handleCreateTicket_def issueTicket_def Let_def split: prod.splits option.splits if_splits)
qed

theorem ticket_lives_two_minutes_witness:
  "\<exists>ax'. handleCreateTicket resources0 (False, False) 5 (Some ''k'')
      \<lparr>tq_kind = [], tq_sandbox = ''sb1'', tq_path = [], tq_ttl_seconds = 10 ^ 12\<rparr> (Some alice) access0 = (Inr (''k'', 120000000005), ax') \<and>
    ax_tickets ax' ''k'' \<noteq> None"
proof -
  let ?q = "\<lparr>tq_kind = [], tq_sandbox = ''sb1'', tq_path = [], tq_ttl_seconds = 10 ^ 12\<rparr>"
  have "fst (handleCreateTicket resources0 (False, False) 5 (Some ''k'') ?q (Some alice) access0) = Inr (''k'', 120000000005)"
    by code_simp
  then obtain ax' where ax': "handleCreateTicket resources0 (False, False) 5 (Some ''k'') ?q (Some alice) access0 = (Inr (''k'', 120000000005), ax')"
    by (metis prod.collapse)
  then show ?thesis using ticket_lives_two_minutes [OF ax'] by auto
qed

end
