(* ===== verification/Snapshots.thy ===== *)
theory Snapshots
  imports Manager_Ops
begin

text \<open>
  Workspace snapshots (\<^verbatim>\<open>internal/controlplane/snapshots.go\<close> and \<^verbatim>\<open>snapshotstore.go\<close>): capturing a
  sandbox, the durable register of references with their owners in \<^verbatim>\<open>snapshots.json\<close>, and restoring
  a governed sandbox from a reference. The Go maps are association lists whose order stands for the
  iteration order. \<open>snap_codec\<close> is the JSON form of the register. The backend's \<^verbatim>\<open>Snapshot\<close> and
  \<^verbatim>\<open>Restore\<close> calls are arguments: their result, or \<^verbatim>\<open>None\<close> for an error. A restore uses the fields of
  \<open>create_env\<close> that it shares with \<^verbatim>\<open>CreateSandbox\<close>; \<open>ce_create\<close> is the sandbox the backend restored.
\<close>

section \<open>The register\<close>

record snapshot_ref =
  sr_id :: string
  sr_name :: string
  sr_profile :: string
  sr_backend :: string
  sr_location :: string
  sr_sha256 :: string
  sr_created :: gotime

record persisted_snapshot =
  psn_ref :: snapshot_ref
  psn_owner :: string

record snap_codec =
  nj_encode :: "persisted_snapshot list \<Rightarrow> string option"
  nj_decode :: "string \<Rightarrow> persisted_snapshot list option"

record snapshot_state =
  sp_refs :: "(string \<times> snapshot_ref) list"
  sp_owners :: "(string \<times> string) list"
  sp_state_dir :: string
  sp_files :: files

datatype snapshot_error = SnapNoSandbox | SnapBackend | SnapPersist | SnapRead | SnapDecode

definition snapshotsFileName :: string where
  "snapshotsFileName = ''snapshots.json''"

definition SnapshotOwner :: "string \<Rightarrow> snapshot_state \<Rightarrow> string option" where
  "SnapshotOwner sid s = map_of (sp_owners s) sid"

definition SnapshotRef :: "string \<Rightarrow> snapshot_state \<Rightarrow> snapshot_ref option" where
  "SnapshotRef sid s = map_of (sp_refs s) sid"

definition ListSnapshots :: "snapshot_state \<Rightarrow> snapshot_ref list" where
  "ListSnapshots s = map snd (sp_refs s)"

text \<open>The owner of an id that is not in the map is Go's zero value, the empty string.\<close>

definition persisted :: "snapshot_state \<Rightarrow> persisted_snapshot list" where
  "persisted s =
     map (\<lambda>(sid, ref). \<lparr>psn_ref = ref, psn_owner = (case map_of (sp_owners s) sid of Some ow \<Rightarrow> ow | None \<Rightarrow> [])\<rparr>) (sp_refs s)"

definition saveSnapshots :: "snap_codec \<Rightarrow> state_io \<Rightarrow> snapshot_state \<Rightarrow> bool \<times> snapshot_state" where
  "saveSnapshots J io s =
     (if sp_state_dir s = [] then (True, s)
      else (case nj_encode J (persisted s) of
              None \<Rightarrow> (False, s)
            | Some data \<Rightarrow>
                (let (err, _, fs) = writeStateFile io (sp_state_dir s) snapshotsFileName data (sp_files s)
                 in (err = None, s\<lparr>sp_files := fs\<rparr>))))"

fun load_refs :: "persisted_snapshot list \<Rightarrow> snapshot_state \<Rightarrow> snapshot_state" where
  "load_refs [] s = s"
| "load_refs (item # items) s =
     load_refs items
       (s\<lparr>sp_refs := AList.update (sr_id (psn_ref item)) (psn_ref item) (sp_refs s),
          sp_owners := AList.update (sr_id (psn_ref item)) (psn_owner item) (sp_owners s)\<rparr>)"

definition loadSnapshots :: "snap_codec \<Rightarrow> bool \<Rightarrow> snapshot_state \<Rightarrow> snapshot_error option \<times> snapshot_state" where
  "loadSnapshots J readable s =
     (if sp_state_dir s = [] then (None, s)
      else (case sp_files s snapshotsFileName of
              None \<Rightarrow> (None, s)
            | Some bytes \<Rightarrow>
                if \<not> readable then (Some SnapRead, s)
                else (case nj_decode J bytes of
                        None \<Rightarrow> (Some SnapDecode, s)
                      | Some refs \<Rightarrow> (None, load_refs refs s))))"

section \<open>Capturing\<close>

definition Snapshot ::
  "'c govprims \<Rightarrow> snap_codec \<Rightarrow> state_io \<Rightarrow> string option \<Rightarrow> snapshot_ref option \<Rightarrow> string \<Rightarrow> string \<Rightarrow> snapshot_state \<Rightarrow>
   'c manager \<Rightarrow> (snapshot_error, snapshot_ref) result \<times> snapshot_state \<times> 'c manager" where
  "Snapshot G J io ctx taken sid name s m =
     (case session_of sid m of
        None \<Rightarrow> (Inl SnapNoSandbox, s, m)
      | Some sess \<Rightarrow>
          (case taken of
             None \<Rightarrow> (Inl SnapBackend, s, m)
           | Some ref0 \<Rightarrow>
               (let ref = ref0\<lparr>sr_profile := pro_name (ss_profile sess)\<rparr>;
                    s1 = s\<lparr>sp_refs := AList.update (sr_id ref) ref (sp_refs s),
                           sp_owners := AList.update (sr_id ref) (ss_owner sess) (sp_owners s)\<rparr>;
                    (ok, s2) = saveSnapshots J io s1
                in if \<not> ok then
                     (Inl SnapPersist,
                      s2\<lparr>sp_refs := AList.delete (sr_id ref) (sp_refs s2), sp_owners := AList.delete (sr_id ref) (sp_owners s2)\<rparr>, m)
                   else (Inr ref, s2,
                         record_audit G ctx sess ''snapshot'' name [] VerdictAllow 0 0 (''snapshot '' @ sr_id ref) m))))"

section \<open>Restoring\<close>

datatype restore_error =
    RestoreNotFound | RestoreProfile | RestoreEnv | RestoreBackend | RestoreFailed | RestoreGuard
  | RestoreEngine engine_error | RestoreRun runs_error

definition restored_session ::
  "'c create_env \<Rightarrow> string \<Rightarrow> string \<Rightarrow> 'c profile \<Rightarrow> guard \<Rightarrow> evaluator_impl \<Rightarrow> (string \<rightharpoonup> string) \<times> string list \<Rightarrow>
   string \<Rightarrow> 'c session" where
  "restored_session e owner actor p g eng envsec sb =
     \<lparr>ss_id = sb, ss_profile = p, ss_engine = eng, ss_guard = g, ss_env = fst envsec, ss_workdir = pro_workdir p,
      ss_owner = owner, ss_actor = firstNonEmpty [actor, owner], ss_run_id = ce_new_id e, ss_parent_run_id = [],
      ss_agent = [], ss_provider = [], ss_model = [], ss_secrets = snd envsec, ss_scrubber = None, ss_ide_endpoint = []\<rparr>"

definition finish_restore ::
  "'c govprims \<Rightarrow> 'c create_env \<Rightarrow> string option \<Rightarrow> string \<Rightarrow> 'c session \<Rightarrow> 'c plane \<Rightarrow>
   string list \<times> (restore_error, string) result \<times> 'c plane" where
  "finish_restore G e ctx snapshotID sess pl =
     (let m1 = put_session sess (pl_mgr pl) in
      case registerRun (ce_codec e) (ce_io e) (run_of_session (ce_now e) sess) (pl_runs pl) of
        (Some err, rs) \<Rightarrow>
          ([ss_id sess], Inl (RestoreRun err),
           \<lparr>pl_mgr = m1\<lparr>mg_sessions := (mg_sessions m1)(ss_id sess := None)\<rparr>, pl_runs = rs\<rparr>)
      | (None, rs) \<Rightarrow>
          ([], Inr (ss_id sess),
           \<lparr>pl_mgr = record_audit G ctx sess ''snapshot'' ''restore'' [] VerdictAllow 0 0 (''from '' @ snapshotID) m1,
            pl_runs = rs\<rparr>))"

definition RestoreSnapshotForIdentity ::
  "'c govprims \<Rightarrow> 'c create_env \<Rightarrow> string option \<Rightarrow> string \<Rightarrow> string \<Rightarrow> string \<Rightarrow> snapshot_state \<Rightarrow> 'c plane \<Rightarrow>
   string list \<times> (restore_error, string) result \<times> 'c plane" where
  "RestoreSnapshotForIdentity G e ctx snapshotID owner actor s pl =
     (case SnapshotRef snapshotID s of
        None \<Rightarrow> ([], Inl RestoreNotFound, pl)
      | Some ref \<Rightarrow>
          (case ce_profile e of
             None \<Rightarrow> ([], Inl RestoreProfile, pl)
           | Some p \<Rightarrow>
               (case resolveEnv (ce_resolve e) (ce_read_file e) (pro_env p) (Map.empty, []) of
                  None \<Rightarrow> ([], Inl RestoreEnv, pl)
                | Some envsec \<Rightarrow>
                    if \<not> ce_backend e then ([], Inl RestoreBackend, pl)
                    else (case ce_create e of
                            None \<Rightarrow> ([], Inl RestoreFailed, pl)
                          | Some sb \<Rightarrow>
                              (case policyGuard (ce_parse_duration e) (ce_now e) p of
                                 None \<Rightarrow> ([sb], Inl RestoreGuard, pl)
                               | Some g \<Rightarrow>
                                   (case newEngine (ce_engine e) (ce_env_default e) p of
                                      Inl err \<Rightarrow> ([sb], Inl (RestoreEngine err), pl)
                                    | Inr eng \<Rightarrow>
                                        finish_restore G e ctx snapshotID (restored_session e owner actor p g eng envsec sb) pl))))))"

definition RestoreSnapshot ::
  "'c govprims \<Rightarrow> 'c create_env \<Rightarrow> string option \<Rightarrow> string \<Rightarrow> string \<Rightarrow> snapshot_state \<Rightarrow> 'c plane \<Rightarrow>
   string list \<times> (restore_error, string) result \<times> 'c plane" where
  "RestoreSnapshot G e ctx snapshotID owner s pl = RestoreSnapshotForIdentity G e ctx snapshotID owner owner s pl"

section \<open>The register and its file\<close>

definition snap_inv :: "snapshot_state \<Rightarrow> bool" where
  "snap_inv s \<longleftrightarrow>
     distinct (map fst (sp_refs s)) \<and> distinct (map fst (sp_owners s)) \<and> map fst (sp_owners s) = map fst (sp_refs s) \<and>
     (\<forall>(sid, ref) \<in> set (sp_refs s). sr_id ref = sid)"

definition snap_codec_ok :: "snap_codec \<Rightarrow> bool" where
  "snap_codec_ok J \<longleftrightarrow> (\<forall>refs bytes. nj_encode J refs = Some bytes \<longrightarrow> nj_decode J bytes = Some refs)"

lemma saveSnapshots_fields [simp]:
  "sp_refs (snd (saveSnapshots J io s)) = sp_refs s" "sp_owners (snd (saveSnapshots J io s)) = sp_owners s"
  "sp_state_dir (snd (saveSnapshots J io s)) = sp_state_dir s"
  by (simp_all add: saveSnapshots_def Let_def split_beta split: option.split)

lemma saveSnapshots_file:
  assumes "sp_state_dir s \<noteq> []" "tmp_ok io snapshotsFileName (sp_files s)" "saveSnapshots J io s = (ok, s')"
  shows "if ok then (\<exists>bytes. nj_encode J (persisted s) = Some bytes \<and> sp_files s' = (sp_files s)(snapshotsFileName \<mapsto> bytes))
    else s' = s"
proof (cases "nj_encode J (persisted s)")
  case (Some bytes)
  show ?thesis
  proof (cases "io_fault io")
    case None
    then show ?thesis
      using assms Some writeStateFile_ok [OF assms(1,2), of bytes] by (auto simp: saveSnapshots_def split: prod.splits)
  next
    case fault: (Some st)
    then show ?thesis
      using assms Some writeStateFile_fails [OF assms(1,2), of st bytes] by (auto simp: saveSnapshots_def split: prod.splits)
  qed
qed (use assms in \<open>simp add: saveSnapshots_def\<close>)

lemma load_refs_lookup:
  "map_of (sp_refs (load_refs items s)) = map_of (sp_refs s) ++ map_of (rev (map (\<lambda>it. (sr_id (psn_ref it), psn_ref it)) items))"
  "map_of (sp_owners (load_refs items s)) = map_of (sp_owners s) ++ map_of (rev (map (\<lambda>it. (sr_id (psn_ref it), psn_owner it)) items))"
  by (induction items arbitrary: s) (simp_all add: update_conv' map_add_upd_left)

lemma map_of_rev_distinct:
  assumes "distinct (map fst xs)"
  shows "map_of (rev xs) = map_of xs"
  using assms
proof (induction xs)
  case (Cons x xs)
  then have "fst x \<notin> dom (map_of xs)" by (simp add: dom_map_of_conv_image_fst)
  with Cons show ?case by (cases x) (auto simp: map_add_def fun_eq_iff split: option.split)
qed simp

lemma persisted_refs: "snap_inv s \<Longrightarrow> map (\<lambda>it. (sr_id (psn_ref it), psn_ref it)) (persisted s) = sp_refs s"
  by (force simp: persisted_def snap_inv_def intro!: map_idI)

lemma persisted_owners:
  assumes "snap_inv s"
  shows "map_of (map (\<lambda>it. (sr_id (psn_ref it), psn_owner it)) (persisted s)) = map_of (sp_owners s)"
proof
  fix sid
  let ?own = "\<lambda>i. case map_of (sp_owners s) i of Some ow \<Rightarrow> ow | None \<Rightarrow> []"
  have "map (\<lambda>it. (sr_id (psn_ref it), psn_owner it)) (persisted s) = map (\<lambda>i. (i, ?own i)) (map fst (sp_refs s))"
    using assms by (force simp: persisted_def snap_inv_def)
  then have "map_of (map (\<lambda>it. (sr_id (psn_ref it), psn_owner it)) (persisted s)) sid =
      (if sid \<in> set (map fst (sp_owners s)) then Some (?own sid) else None)"
    using assms by (auto simp: snap_inv_def map_of_map_keys map_of_eq_None_iff restrict_map_def
        map_of_map_restrict simp del: map_map)
  also have "\<dots> = map_of (sp_owners s) sid"
    using map_of_eq_None_iff [of "sp_owners s" sid] by (cases "map_of (sp_owners s) sid") auto
  finally show "map_of (map (\<lambda>it. (sr_id (psn_ref it), psn_owner it)) (persisted s)) sid = map_of (sp_owners s) sid" .
qed

lemma load_persisted:
  assumes "snap_inv s" "sp_refs s0 = []" "sp_owners s0 = []"
  shows "SnapshotRef sid (load_refs (persisted s) s0) = SnapshotRef sid s \<and>
    SnapshotOwner sid (load_refs (persisted s) s0) = SnapshotOwner sid s"
proof -
  have d: "distinct (map fst (sp_refs s))" using assms(1) by (simp add: snap_inv_def)
  have keys: "map fst (map (\<lambda>it. (sr_id (psn_ref it), psn_owner it)) (persisted s)) = map fst (sp_refs s)"
    unfolding persisted_refs [OF assms(1), symmetric] by simp
  show ?thesis
    using d keys assms(2,3) persisted_owners [OF assms(1)]
    by (simp add: SnapshotRef_def SnapshotOwner_def load_refs_lookup persisted_refs [OF assms(1)] map_of_rev_distinct
        del: map_map)
qed

lemma update_snap_inv:
  assumes "snap_inv s" "sr_id ref = sid"
  shows "snap_inv (s\<lparr>sp_refs := AList.update sid ref (sp_refs s), sp_owners := AList.update sid ow (sp_owners s)\<rparr>)"
proof -
  have "\<forall>(i, x) \<in> set xs. sr_id x = i \<Longrightarrow> \<forall>(i, x) \<in> set (AList.update sid ref xs). sr_id x = i" for xs
    using assms(2) by (induction xs) auto
  with assms(1) show ?thesis by (auto simp: snap_inv_def update_keys)
qed

lemma delete_update_fresh: "k \<notin> fst ` set al \<Longrightarrow> AList.delete k (AList.update k v al) = al"
  by (induction al) auto

lemma Restore_cases:
  assumes "RestoreSnapshotForIdentity G e ctx snapshotID owner actor s pl = (killed, res, pl')"
  obtains (early) err where "res = Inl err" "killed = []" "pl' = pl"
      "err \<in> {RestoreNotFound, RestoreProfile, RestoreEnv, RestoreBackend} \<or> ce_create e = None"
  | (undone) err sb where "res = Inl err" "killed = [sb]" "pl' = pl" "ce_create e = Some sb"
  | (reached) p g eng envsec sb where "SnapshotRef snapshotID s \<noteq> None" "ce_profile e = Some p" "ce_create e = Some sb"
      "policyGuard (ce_parse_duration e) (ce_now e) p = Some g" "newEngine (ce_engine e) (ce_env_default e) p = Inr eng"
      "finish_restore G e ctx snapshotID (restored_session e owner actor p g eng envsec sb) pl = (killed, res, pl')"
  using assms by (auto simp: RestoreSnapshotForIdentity_def split: option.splits sum.splits if_splits)

lemma finish_restore_spec:
  assumes "finish_restore G e ctx snapshotID sess pl = (killed, res, pl')" "mg_sessions (pl_mgr pl) (ss_id sess) = None"
  shows "(\<exists>err. res = Inl err \<and> killed = [ss_id sess] \<and> mg_sessions (pl_mgr pl') = mg_sessions (pl_mgr pl)) \<or>
    (res = Inr (ss_id sess) \<and> killed = [] \<and> mg_sessions (pl_mgr pl') = (mg_sessions (pl_mgr pl))(ss_id sess \<mapsto> sess) \<and>
     Run (ss_run_id sess) (pl_runs pl') = Some (run_of_session (ce_now e) sess) \<and>
     (\<exists>pre ev. mg_audit (pl_mgr pl') = pre @ [ev] \<and> ev_tool ev = ''snapshot'' \<and> ev_session ev = ss_id sess))"
  using assms registerRun_ok [of "ce_codec e" "ce_io e" "run_of_session (ce_now e) sess" "pl_runs pl"]
  by (auto simp: finish_restore_def put_session_def run_of_session_def Let_def split: prod.splits option.splits)

lemma restored_fields [simp]:
  "ss_id (restored_session e owner actor p g eng envsec sb) = sb"
  "ss_profile (restored_session e owner actor p g eng envsec sb) = p"
  "ss_guard (restored_session e owner actor p g eng envsec sb) = g"
  "ss_engine (restored_session e owner actor p g eng envsec sb) = eng"
  "ss_owner (restored_session e owner actor p g eng envsec sb) = owner"
  "ss_scrubber (restored_session e owner actor p g eng envsec sb) = None"
  by (simp_all add: restored_session_def)

section \<open>Properties\<close>

text \<open>
  An acknowledged snapshot survives a restart, and a refused one leaves no trace: when \<^verbatim>\<open>Snapshot\<close>
  returns a reference it is registered under the profile and the owner of the sandbox, and a control
  plane that starts from the state directory finds every registered reference with its owner; when it
  returns an error, register, state directory and audit trail are as before.
\<close>

theorem snapshot_survives_restart:
  assumes "snap_inv s" "snap_codec_ok J" "sp_state_dir s \<noteq> []" "tmp_ok io snapshotsFileName (sp_files s)"
    and "Snapshot G J io ctx taken sid name s m = (res, s', m')"
    and "\<And>ref. taken = Some ref \<Longrightarrow> SnapshotRef (sr_id ref) s = None"
    and "s0 = \<lparr>sp_refs = [], sp_owners = [], sp_state_dir = sp_state_dir s, sp_files = sp_files s'\<rparr>"
  shows "case res of
      Inr ref \<Rightarrow> (\<exists>sess s1. session_of sid m = Some sess \<and> sr_profile ref = pro_name (ss_profile sess) \<and>
        SnapshotRef (sr_id ref) s' = Some ref \<and> SnapshotOwner (sr_id ref) s' = Some (ss_owner sess) \<and>
        loadSnapshots J True s0 = (None, s1) \<and>
        (\<forall>i. SnapshotRef i s1 = SnapshotRef i s' \<and> SnapshotOwner i s1 = SnapshotOwner i s'))
    | Inl _ \<Rightarrow> s' = s \<and> m' = m"
proof (cases "session_of sid m = None \<or> taken = None")
  case True
  then show ?thesis using assms(5) by (auto simp: Snapshot_def split: option.splits)
next
  case False
  then obtain sess ref0 where sess: "session_of sid m = Some sess" and ref0: "taken = Some ref0" by auto
  define ref where "ref = ref0\<lparr>sr_profile := pro_name (ss_profile sess)\<rparr>"
  define s1 where "s1 = s\<lparr>sp_refs := AList.update (sr_id ref) ref (sp_refs s),
    sp_owners := AList.update (sr_id ref) (ss_owner sess) (sp_owners s)\<rparr>"
  obtain ok s2 where save: "saveSnapshots J io s1 = (ok, s2)" by fastforce
  have inv1: "snap_inv s1" unfolding s1_def by (rule update_snap_inv [OF assms(1)]) simp
  have fields: "sp_refs s2 = sp_refs s1" "sp_owners s2 = sp_owners s1" "sp_state_dir s2 = sp_state_dir s1"
    using saveSnapshots_fields [of J io s1] save by simp_all
  have fresh: "sr_id ref \<notin> fst ` set (sp_refs s)" "sr_id ref \<notin> fst ` set (sp_owners s)"
    using assms(1,6) ref0 by (auto simp: SnapshotRef_def map_of_eq_None_iff ref_def snap_inv_def)
      (metis image_eqI list.set_map fst_conv)+
  have files1: "sp_files s1 = sp_files s" "sp_state_dir s1 = sp_state_dir s" by (simp_all add: s1_def)
  have disk: "if ok then (\<exists>bytes. nj_encode J (persisted s1) = Some bytes \<and> sp_files s2 = (sp_files s)(snapshotsFileName \<mapsto> bytes))
      else s2 = s1"
    using saveSnapshots_file [OF _ _ save] assms(3,4) files1 by (simp split: if_splits)
  have snap: "Snapshot G J io ctx taken sid name s m =
      (if \<not> ok then (Inl SnapPersist, s2\<lparr>sp_refs := AList.delete (sr_id ref) (sp_refs s2),
         sp_owners := AList.delete (sr_id ref) (sp_owners s2)\<rparr>, m)
       else (Inr ref, s2, record_audit G ctx sess ''snapshot'' name [] VerdictAllow 0 0 (''snapshot '' @ sr_id ref) m))"
    using save by (simp add: Snapshot_def sess ref0 Let_def ref_def s1_def)
  show ?thesis
  proof (cases ok)
    case False
    then have "s2 = s1" using disk by simp
    then show ?thesis using assms(5) snap False fresh by (auto simp: s1_def delete_update_fresh)
  next
    case True
    then obtain bytes where bytes: "nj_encode J (persisted s1) = Some bytes"
      "sp_files s2 = (sp_files s)(snapshotsFileName \<mapsto> bytes)" using disk by auto
    have s': "res = Inr ref" "s' = s2" using assms(5) snap True by auto
    have "loadSnapshots J True s0 = (None, load_refs (persisted s1) s0)"
      using bytes assms(2,3) s'(2) by (simp add: loadSnapshots_def assms(7) snap_codec_ok_def)
    moreover have "SnapshotRef i (load_refs (persisted s1) s0) = SnapshotRef i s' \<and>
        SnapshotOwner i (load_refs (persisted s1) s0) = SnapshotOwner i s'" for i
      using load_persisted [OF inv1, of s0 i] fields
      by (simp add: assms(7) s'(2) SnapshotRef_def SnapshotOwner_def)
    ultimately show ?thesis using s' sess fields
      by (auto simp: ref_def s1_def SnapshotRef_def SnapshotOwner_def update_conv')
  qed
qed

definition ref1 :: snapshot_ref where
  "ref1 = \<lparr>sr_id = ''s1'', sr_name = ''n'', sr_profile = ''p'', sr_backend = ''docker'', sr_location = ''l'', sr_sha256 = [], sr_created = 1\<rparr>"

definition snap_json1 :: snap_codec where
  "snap_json1 = \<lparr>nj_encode = (\<lambda>refs. if refs = [\<lparr>psn_ref = ref1, psn_owner = []\<rparr>] then Some ''j'' else None),
     nj_decode = (\<lambda>bytes. Some [\<lparr>psn_ref = ref1, psn_owner = []\<rparr>])\<rparr>"

definition snaps0 :: snapshot_state where
  "snaps0 = \<lparr>sp_refs = [], sp_owners = [], sp_state_dir = ''/s'', sp_files = Map.empty\<rparr>"

definition io_fine :: state_io where
  "io_fine = \<lparr>io_tmp = ''.t'', io_fault = None\<rparr>"

lemma snapshot0:
  "\<exists>s' m'. Snapshot prims0 snap_json1 io_fine None (Some ref1) ''sb'' ''n'' snaps0 manager0 = (Inr ref1, s', m')"
  by (simp add: Snapshot_def session_of_def manager0_def session0_def profile0_def snaps0_def snap_json1_def ref1_def
      saveSnapshots_def persisted_def writeStateFile_def io_fine_def Let_def)

theorem snapshot_survives_restart_witness:
  "\<exists>s' m' s1. Snapshot prims0 snap_json1 io_fine None (Some ref1) ''sb'' ''n'' snaps0 manager0 = (Inr ref1, s', m') \<and>
     loadSnapshots snap_json1 True \<lparr>sp_refs = [], sp_owners = [], sp_state_dir = ''/s'', sp_files = sp_files s'\<rparr> = (None, s1) \<and>
     SnapshotOwner ''s1'' s1 = Some []"
proof -
  obtain s' m' where snap: "Snapshot prims0 snap_json1 io_fine None (Some ref1) ''sb'' ''n'' snaps0 manager0 = (Inr ref1, s', m')"
    using snapshot0 by blast
  have "snap_inv snaps0" "snap_codec_ok snap_json1" "sp_state_dir snaps0 = ''/s''"
    "tmp_ok io_fine snapshotsFileName (sp_files snaps0)" "SnapshotRef i snaps0 = None" for i
    by (simp_all add: snap_inv_def snap_codec_ok_def snaps0_def snap_json1_def tmp_ok_def io_fine_def
        snapshotsFileName_def SnapshotRef_def)
  with snapshot_survives_restart [OF _ _ _ _ snap _ refl] snap
  have "\<exists>sess s1. session_of ''sb'' manager0 = Some sess \<and> SnapshotOwner (sr_id ref1) s' = Some (ss_owner sess) \<and>
      loadSnapshots snap_json1 True \<lparr>sp_refs = [], sp_owners = [], sp_state_dir = ''/s'', sp_files = sp_files s'\<rparr> = (None, s1) \<and>
      SnapshotOwner (sr_id ref1) s1 = SnapshotOwner (sr_id ref1) s'" by fastforce
  with snap show ?thesis by (auto simp: session_of_def manager0_def session0_def ref1_def)
qed

text \<open>
  A restored sandbox is governed again: on success the session of the restored sandbox has the
  guard and the policy engine built from the snapshot's profile and the caller as owner, its run is
  recorded as running and the restore is the last audit event; on an error no session is added, and a
  sandbox that the backend had already restored is killed unless the restore never reached it.
\<close>

theorem restore_rederives_governance:
  assumes "RestoreSnapshotForIdentity G e ctx snapshotID owner actor s pl = (killed, res, pl')"
    and "\<And>sb. ce_create e = Some sb \<Longrightarrow> mg_sessions (pl_mgr pl) sb = None"
  shows "case res of
      Inr sb \<Rightarrow> ce_create e = Some sb \<and> killed = [] \<and> SnapshotRef snapshotID s \<noteq> None \<and>
        (\<exists>p g eng sess. ce_profile e = Some p \<and> policyGuard (ce_parse_duration e) (ce_now e) p = Some g \<and>
           newEngine (ce_engine e) (ce_env_default e) p = Inr eng \<and>
           mg_sessions (pl_mgr pl') = (mg_sessions (pl_mgr pl))(sb \<mapsto> sess) \<and>
           ss_profile sess = p \<and> ss_guard sess = g \<and> ss_engine sess = eng \<and> ss_owner sess = owner \<and>
           (\<exists>r. Run (ss_run_id sess) (pl_runs pl') = Some r \<and> rn_citadel_id r = sb \<and> rn_status r = ''running'')) \<and>
        (\<exists>pre ev. mg_audit (pl_mgr pl') = pre @ [ev] \<and> ev_tool ev = ''snapshot'' \<and> ev_session ev = sb)
    | Inl err \<Rightarrow> mg_sessions (pl_mgr pl') = mg_sessions (pl_mgr pl) \<and>
        (\<forall>sb. ce_create e = Some sb \<longrightarrow> killed = [sb] \<or>
           err \<in> {RestoreNotFound, RestoreProfile, RestoreEnv, RestoreBackend} \<and> killed = [])"
  using assms(1)
proof (cases rule: Restore_cases)
  case (reached p g eng envsec sb)
  let ?sess = "restored_session e owner actor p g eng envsec sb"
  have "(\<exists>err. res = Inl err \<and> killed = [sb] \<and> mg_sessions (pl_mgr pl') = mg_sessions (pl_mgr pl)) \<or>
    (res = Inr sb \<and> killed = [] \<and> mg_sessions (pl_mgr pl') = (mg_sessions (pl_mgr pl))(sb \<mapsto> ?sess) \<and>
     Run (ss_run_id ?sess) (pl_runs pl') = Some (run_of_session (ce_now e) ?sess) \<and>
     (\<exists>pre ev. mg_audit (pl_mgr pl') = pre @ [ev] \<and> ev_tool ev = ''snapshot'' \<and> ev_session ev = sb))"
    using finish_restore_spec [OF reached(6)] assms(2) reached(3) by simp
  moreover have "rn_citadel_id (run_of_session (ce_now e) ?sess) = sb \<and> rn_status (run_of_session (ce_now e) ?sess) = ''running''"
    by (simp add: run_of_session_def)
  ultimately show ?thesis using reached(1-5)
    by (elim disjE exE conjE) (auto intro!: exI [of _ ?sess])
qed auto

lemma restore0:
  "\<exists>pl'. RestoreSnapshotForIdentity prims0 create0 None ''s1'' ''t'' ''alice'' (snaps0\<lparr>sp_refs := [(''s1'', ref1)]\<rparr>) plane0 =
     ([], Inr ''sb2'', pl')"
proof -
  have "ce_profile create0 = Some profile0" "ce_backend create0" "ce_create create0 = Some ''sb2''" "pro_env profile0 = []"
    "SnapshotRef ''s1'' (snaps0\<lparr>sp_refs := [(''s1'', ref1)]\<rparr>) = Some ref1"
    by (simp_all add: create0_def profile0_def SnapshotRef_def)
  moreover obtain g where "policyGuard (ce_parse_duration create0) (ce_now create0) profile0 = Some g"
    by (simp add: policyGuard_def NewGuard_def profile0_def limits0_def)
  moreover obtain eng where "newEngine (ce_engine create0) (ce_env_default create0) profile0 = Inr eng"
    by (simp add: newEngine_def UsesPolicyBundle_def UsesRego_def UsesCEL_def profile0_def Let_def)
  moreover have "\<exists>pl'. finish_restore prims0 create0 None ''s1''
      (restored_session create0 ''t'' ''alice'' profile0 g eng envsec ''sb2'') plane0 = ([], Inr ''sb2'', pl')" for g eng envsec
    by (simp add: finish_restore_def put_session_def registerRun_def saveRuns_def run_of_session_def
        plane0_def create0_def runs_json1_def writeStateFile_def Let_def)
  ultimately show ?thesis by (simp add: RestoreSnapshotForIdentity_def)
qed

theorem restore_rederives_governance_witness:
  "\<exists>killed res pl'. RestoreSnapshotForIdentity prims0 create0 None ''s1'' ''t'' ''alice'' (snaps0\<lparr>sp_refs := [(''s1'', ref1)]\<rparr>) plane0 =
     (killed, res, pl') \<and> res = Inr ''sb2'' \<and> killed = [] \<and> (\<exists>sess. mg_sessions (pl_mgr pl') ''sb2'' = Some sess \<and> ss_owner sess = ''t'')"
proof -
  let ?s = "snaps0\<lparr>sp_refs := [(''s1'', ref1)]\<rparr>"
  obtain pl' where r: "RestoreSnapshotForIdentity prims0 create0 None ''s1'' ''t'' ''alice'' ?s plane0 = ([], Inr ''sb2'', pl')"
    using restore0 by blast
  have "mg_sessions (pl_mgr plane0) sb = None" if "ce_create create0 = Some sb" for sb
    using that by (auto simp: create0_def plane0_def manager0_def)
  from restore_rederives_governance [OF r this] r show ?thesis by (simp add: fun_upd_def) metis
qed

text \<open>
  The session of a restored sandbox has no scrubber of its own: whatever scrub patterns its profile
  declares, its audit events and output are scrubbed with the built-in patterns only.
\<close>

theorem restored_session_ignores_scrub_patterns:
  assumes "RestoreSnapshotForIdentity G e ctx snapshotID owner actor s pl = (killed, Inr sb, pl')"
  shows "\<exists>sess. mg_sessions (pl_mgr pl') sb = Some sess \<and> eventScrubber R sess = NewScrubber R []"
  using assms
proof (cases rule: Restore_cases)
  case (reached p g eng envsec sb')
  then show ?thesis
    by (auto simp: finish_restore_def put_session_def Let_def eventScrubber_def split: prod.splits option.splits)
qed auto

end
