(* ===== verification/Go_Utf8.thy ===== *)
theory Go_Utf8
  imports Go_Strings
begin

text \<open>
  Runes in byte strings, as Go's \<^verbatim>\<open>unicode/utf8\<close> package and \<^verbatim>\<open>range\<close> over a string see them:
  \<^verbatim>\<open>DecodeRuneInString\<close>, \<^verbatim>\<open>ValidString\<close>, \<^verbatim>\<open>AppendRune\<close> and \<^verbatim>\<open>strings.Map\<close>. A byte that starts no valid
  encoding decodes to \<^verbatim>\<open>RuneError\<close> with width one. A rune is a natural number.
\<close>

section \<open>Decoding and encoding\<close>

definition RuneError :: nat where
  "RuneError = 0xFFFD"

definition byte :: "char \<Rightarrow> nat" where
  "byte c = of_char c"

definition continuation :: "nat \<Rightarrow> bool" where
  "continuation b \<longleftrightarrow> 0x80 \<le> b \<and> b \<le> 0xBF"

text \<open>The range of the second byte depends on the first: no overlong forms, no surrogates, nothing above
  the last code point.\<close>

definition second_low :: "nat \<Rightarrow> nat" where
  "second_low b0 = (if b0 = 0xE0 then 0xA0 else if b0 = 0xF0 then 0x90 else 0x80)"

definition second_high :: "nat \<Rightarrow> nat" where
  "second_high b0 = (if b0 = 0xED then 0x9F else if b0 = 0xF4 then 0x8F else 0xBF)"

definition rune_width :: "nat \<Rightarrow> nat" where
  "rune_width b0 =
     (if b0 < 0x80 then 1 else if 0xC2 \<le> b0 \<and> b0 \<le> 0xDF then 2
      else if 0xE0 \<le> b0 \<and> b0 \<le> 0xEF then 3 else if 0xF0 \<le> b0 \<and> b0 \<le> 0xF4 then 4 else 0)"

fun decode_bytes :: "nat list \<Rightarrow> nat \<times> nat" where
  "decode_bytes [] = (RuneError, 0)"
| "decode_bytes (b0 # bs) =
     (let n = rune_width b0 in
      if n = 1 then (b0, 1)
      else if n = 0 \<or> length bs < n - 1 \<or> \<not> (second_low b0 \<le> bs ! 0 \<and> bs ! 0 \<le> second_high b0) then (RuneError, 1)
      else if n = 2 then ((b0 - 0xC0) * 64 + (bs ! 0 - 0x80), 2)
      else if \<not> continuation (bs ! 1) then (RuneError, 1)
      else if n = 3 then ((b0 - 0xE0) * 4096 + (bs ! 0 - 0x80) * 64 + (bs ! 1 - 0x80), 3)
      else if \<not> continuation (bs ! 2) then (RuneError, 1)
      else ((b0 - 0xF0) * 262144 + (bs ! 0 - 0x80) * 4096 + (bs ! 1 - 0x80) * 64 + (bs ! 2 - 0x80), 4))"

definition decode_rune :: "string \<Rightarrow> nat \<times> nat" where
  "decode_rune s = decode_bytes (map byte (take 4 s))"

definition valid_rune :: "nat \<Rightarrow> bool" where
  "valid_rune r \<longleftrightarrow> r < 0xD800 \<or> 0xE000 \<le> r \<and> r \<le> 0x10FFFF"

definition encode_bytes :: "nat \<Rightarrow> nat list" where
  "encode_bytes r0 =
     (let r = (if valid_rune r0 then r0 else RuneError) in
      if r < 0x80 then [r]
      else if r < 0x800 then [0xC0 + r div 64, 0x80 + r mod 64]
      else if r < 0x10000 then [0xE0 + r div 4096, 0x80 + r div 64 mod 64, 0x80 + r mod 64]
      else [0xF0 + r div 262144, 0x80 + r div 4096 mod 64, 0x80 + r div 64 mod 64, 0x80 + r mod 64])"

definition encode_rune :: "nat \<Rightarrow> string" where
  "encode_rune r = map char_of (encode_bytes r)"

lemma decode_bytes_width: "decode_bytes (b # bs) = (r, n) \<Longrightarrow> 1 \<le> n \<and> n \<le> 4"
  by (auto simp: Let_def split: if_splits)

lemma decode_rune_width: "s \<noteq> [] \<Longrightarrow> decode_rune s = (r, n) \<Longrightarrow> 1 \<le> n"
  using decode_bytes_width by (cases s) (auto simp: decode_rune_def)

function runes :: "string \<Rightarrow> (nat \<times> nat) list" where
  "runes s = (if s = [] then [] else decode_rune s # runes (drop (snd (decode_rune s)) s))"
  by pat_completeness auto
termination
  by (relation "measure length") (use decode_rune_width in \<open>fastforce simp: prod_eq_iff\<close>)+

declare runes.simps [simp del]

definition valid_string :: "string \<Rightarrow> bool" where
  "valid_string s \<longleftrightarrow> list_all (\<lambda>rn. rn \<noteq> (RuneError, 1)) (runes s)"

text \<open>\<^verbatim>\<open>strings.Map\<close>: a negative result of the mapping, here \<open>None\<close>, drops the rune.\<close>

definition map_runes :: "(nat \<Rightarrow> nat option) \<Rightarrow> string \<Rightarrow> string" where
  "map_runes f s = concat (map (\<lambda>(r, _). case f r of Some r' \<Rightarrow> encode_rune r' | None \<Rightarrow> []) (runes s))"

section \<open>Round trip\<close>

lemma runes_Nil [simp]: "runes [] = []"
  by (simp add: runes.simps)

lemma rune_digits:
  fixes r :: nat
  shows "r = r div 4096 * 4096 + r div 64 mod 64 * 64 + r mod 64"
    and "r div 4096 = r div 262144 * 64 + r div 4096 mod 64"
proof -
  have "r div 64 = r div 4096 * 64 + r div 64 mod 64"
    using div_mult_mod_eq [of "r div 64" 64] by (simp add: div_mult2_eq [of r 64 64, simplified])
  then show "r = r div 4096 * 4096 + r div 64 mod 64 * 64 + r mod 64"
    using div_mult_mod_eq [of r 64] by linarith
  show "r div 4096 = r div 262144 * 64 + r div 4096 mod 64"
    using div_mult_mod_eq [of "r div 4096" 64] by (simp add: div_mult2_eq [of r 4096 64, simplified])
qed

lemma decode_two:
  assumes "2 \<le> a" "a < 32" "b < 64"
  shows "decode_bytes ((0xC0 + a) # (0x80 + b) # bs) = (a * 64 + b, 2)"
  using assms by (simp add: Let_def rune_width_def second_low_def second_high_def)

lemma decode_three:
  assumes "a < 16" "b < 64" "c < 64" "a = 0 \<Longrightarrow> 32 \<le> b" "a = 13 \<Longrightarrow> b < 32"
  shows "decode_bytes ((0xE0 + a) # (0x80 + b) # (0x80 + c) # bs) = (a * 4096 + b * 64 + c, 3)"
  using assms by (auto simp: Let_def rune_width_def second_low_def second_high_def continuation_def)

lemma decode_four:
  assumes "a < 5" "b < 64" "c < 64" "d < 64" "a = 0 \<Longrightarrow> 16 \<le> b" "a = 4 \<Longrightarrow> b < 16"
  shows "decode_bytes ((0xF0 + a) # (0x80 + b) # (0x80 + c) # (0x80 + d) # bs) =
    (a * 262144 + b * 4096 + c * 64 + d, 4)"
  using assms by (auto simp: Let_def rune_width_def second_low_def second_high_def continuation_def)

lemma encode_bytes_range: "b \<in> set (encode_bytes r) \<Longrightarrow> b < 256"
  by (auto simp: encode_bytes_def Let_def valid_rune_def RuneError_def split: if_splits)

lemma map_byte_encode: "map byte (encode_rune r) = encode_bytes r"
  using encode_bytes_range by (auto simp: encode_rune_def byte_def intro!: map_idI)

lemma length_encode_rune: "length (encode_rune r) = length (encode_bytes r)"
  by (simp add: encode_rune_def)

lemma length_encode_bytes: "1 \<le> length (encode_bytes r) \<and> length (encode_bytes r) \<le> 4"
  by (simp add: encode_bytes_def Let_def)

lemma decode_encode_bytes:
  assumes "valid_rune r"
  shows "decode_bytes (encode_bytes r @ bs) = (r, length (encode_bytes r))"
proof -
  note digits = rune_digits [of r]
  consider (one) "r < 0x80" | (two) "0x80 \<le> r" "r < 0x800" | (three) "0x800 \<le> r" "r < 0x10000"
    | (four) "0x10000 \<le> r" by linarith
  then show ?thesis
  proof cases
    case one
    then show ?thesis using assms by (simp add: encode_bytes_def rune_width_def)
  next
    case two
    then show ?thesis using assms decode_two [of "r div 64" "r mod 64" bs]
      by (simp add: encode_bytes_def)
  next
    case three
    have "r div 4096 = 0 \<Longrightarrow> 32 \<le> r div 64 mod 64" "r div 4096 = 13 \<Longrightarrow> r div 64 mod 64 < 32"
      using three digits(1) assms by (auto simp: valid_rune_def)
    then show ?thesis
      using three assms digits(1) decode_three [of "r div 4096" "r div 64 mod 64" "r mod 64" bs]
      by (simp add: encode_bytes_def)
  next
    case four
    have "r div 262144 = 0 \<Longrightarrow> 16 \<le> r div 4096 mod 64" "r div 262144 = 4 \<Longrightarrow> r div 4096 mod 64 < 16"
      using four digits assms by (auto simp: valid_rune_def)
    moreover have "r div 262144 < 5" using assms by (auto simp: valid_rune_def)
    moreover have "r = r div 262144 * 262144 + r div 4096 mod 64 * 4096 + r div 64 mod 64 * 64 + r mod 64"
      using digits by linarith
    ultimately show ?thesis
      using four assms decode_four [of "r div 262144" "r div 4096 mod 64" "r div 64 mod 64" "r mod 64" bs]
      by (simp add: encode_bytes_def)
  qed
qed

lemma decode_bytes_take: "decode_bytes (take 4 bs) = decode_bytes bs"
  by (cases bs) (auto simp: Let_def rune_width_def nth_append min_def split: if_splits)

lemma decode_encode_rune:
  "valid_rune r \<Longrightarrow> decode_rune (encode_rune r @ s) = (r, length (encode_rune r))"
  unfolding decode_rune_def take_map [symmetric] decode_bytes_take
  by (simp add: map_byte_encode decode_encode_bytes length_encode_rune)

lemma runes_encode:
  assumes "valid_rune r"
  shows "runes (encode_rune r @ s) = (r, length (encode_rune r)) # runes s"
proof -
  have "encode_rune r \<noteq> []" using length_encode_bytes [of r] length_encode_rune [of r] by auto
  then show ?thesis using decode_encode_rune [OF assms, of s] by (subst runes.simps) simp
qed

text \<open>Every rune that is read from a byte string can be written back.\<close>

lemma decode_bytes_valid: "valid_rune (fst (decode_bytes bs))"
proof (cases bs)
  case Nil
  then show ?thesis by (simp add: RuneError_def valid_rune_def)
next
  case (Cons b0 rest)
  have two: "(b0 - 0xC0) * 64 + (x - 0x80) < 0x800" if "b0 \<le> 0xDF" "x \<le> 0xBF" for x
    using that by simp
  have three: "(b0 - 0xE0) * 4096 + (x - 0x80) * 64 + (y - 0x80) < 0xD800 \<or>
      0xE000 \<le> (b0 - 0xE0) * 4096 + (x - 0x80) * 64 + (y - 0x80) \<and>
      (b0 - 0xE0) * 4096 + (x - 0x80) * 64 + (y - 0x80) < 0x10000"
    if "0xE0 \<le> b0" "b0 \<le> 0xEF" "0x80 \<le> x" "x \<le> second_high b0" "0x80 \<le> y" "y \<le> 0xBF" for x y
    using that by (auto simp: second_high_def split: if_splits)
  have four: "(b0 - 0xF0) * 262144 + (x - 0x80) * 4096 + (y - 0x80) * 64 + (z - 0x80) \<le> 0x10FFFF \<and>
      0x10000 \<le> (b0 - 0xF0) * 262144 + (x - 0x80) * 4096 + (y - 0x80) * 64 + (z - 0x80)"
    if "0xF0 \<le> b0" "b0 \<le> 0xF4" "second_low b0 \<le> x" "x \<le> second_high b0" "0x80 \<le> y" "y \<le> 0xBF"
      "0x80 \<le> z" "z \<le> 0xBF" for x y z
    using that by (auto simp: second_high_def second_low_def split: if_splits)
  have low: "0x80 \<le> second_low b0" by (simp add: second_low_def)
  have high: "second_high b0 \<le> 0xBF" by (simp add: second_high_def)
  note facts = two [of "rest ! 0"] three [of "rest ! 0" "rest ! 1"] four [of "rest ! 0" "rest ! 1" "rest ! 2"]
  have "rune_width b0 = 1 \<and> b0 < 0x80 \<or> rune_width b0 = 0 \<or> rune_width b0 = 2 \<and> b0 \<le> 0xDF \<or>
      rune_width b0 = 3 \<and> 0xE0 \<le> b0 \<and> b0 \<le> 0xEF \<or> rune_width b0 = 4 \<and> 0xF0 \<le> b0 \<and> b0 \<le> 0xF4"
    by (simp add: rune_width_def)
  then consider "rune_width b0 = 1" "b0 < 0x80" | "rune_width b0 = 0" | "rune_width b0 = 2" "b0 \<le> 0xDF"
    | "rune_width b0 = 3" "0xE0 \<le> b0" "b0 \<le> 0xEF" | "rune_width b0 = 4" "0xF0 \<le> b0" "b0 \<le> 0xF4"
    by (elim disjE conjE) simp_all
  then show ?thesis
    by cases (use Cons low high facts in \<open>auto simp: Let_def valid_rune_def RuneError_def continuation_def\<close>)
qed

lemma runes_valid: "(r, n) \<in> set (runes s) \<Longrightarrow> valid_rune r"
proof (induction s rule: runes.induct)
  case (1 s)
  show ?case
  proof (cases "s = []")
    case False
    have "valid_rune (fst (decode_rune s))" by (simp add: decode_rune_def decode_bytes_valid)
    moreover from "1.prems" False have "(r, n) = decode_rune s \<or> (r, n) \<in> set (runes (drop (snd (decode_rune s)) s))"
      by (subst (asm) runes.simps) auto
    ultimately show ?thesis using "1.IH" [OF False] by (metis fst_conv)
  qed (use "1.prems" in simp)
qed

text \<open>The runes of a mapped string are the images of the runes of the string.\<close>

lemma runes_concat:
  "list_all valid_rune rs \<Longrightarrow> map fst (runes (concat (map encode_rune rs))) = rs"
  by (induction rs) (simp_all add: runes_encode)

lemma runes_map_runes:
  assumes "\<And>r r'. valid_rune r \<Longrightarrow> f r = Some r' \<Longrightarrow> valid_rune r'"
  shows "map fst (runes (map_runes f s)) = List.map_filter f (map fst (runes s))"
proof -
  have eq: "concat (map (\<lambda>(r, _). case f r of Some r' \<Rightarrow> encode_rune r' | None \<Rightarrow> []) xs) =
      concat (map encode_rune (List.map_filter f (map fst xs)))" for xs :: "(nat \<times> nat) list"
    by (induction xs) (auto simp: List.map_filter_simps split: option.split)
  have "list_all valid_rune (List.map_filter f (map fst (runes s)))"
    using assms runes_valid by (fastforce simp: list_all_iff List.map_filter_def)
  then show ?thesis by (simp add: map_runes_def eq runes_concat)
qed

lemma decode_ascii: "byte c < 0x80 \<Longrightarrow> decode_rune (c # s) = (byte c, 1)"
  by (simp add: decode_rune_def rune_width_def)

lemma runes_ascii: "byte c < 0x80 \<Longrightarrow> runes (c # s) = (byte c, 1) # runes s"
  by (subst runes.simps) (simp add: decode_ascii)

lemma encode_ascii: "r < 0x80 \<Longrightarrow> encode_rune r = [char_of r]"
  by (simp add: encode_rune_def encode_bytes_def valid_rune_def)

end
