(* ===== verification/Conversation.thy ===== *)
theory Conversation
  imports Manager_Ops Decision_Log Go_Utf8
begin

text \<open>
  The live conversation feed of a sandbox (\<^verbatim>\<open>internal/controlplane/conversation.go\<close>): a hub with one
  stream per sandbox, each with the last 500 messages and a buffered channel per observer. A channel
  is the list of the messages in its buffer. Publishing never waits: to a full channel the hub sends
  again after taking out the oldest message. The hub's mutex does not stop an observer from receiving
  between those two selects; \<open>raced i\<close> says that observer \<open>i\<close> did so. Message ids are natural numbers
  (the code counts with 64 bits).
\<close>

section \<open>The hub\<close>

definition conversationHistoryLimit :: nat where
  "conversationHistoryLimit = 500"

definition conversationContentLimit :: nat where
  "conversationContentLimit = 65536"

definition conversationSubscriberBuf :: nat where
  "conversationSubscriberBuf = 64"

record conversation_message =
  cm_id :: nat
  cm_sandbox :: string
  cm_role :: string
  cm_author :: string
  cm_content :: string
  cm_run_id :: string
  cm_created_at :: gotime
  cm_redacted :: bool

record conversation_stream =
  cst_next_id :: nat
  cst_history :: "conversation_message list"
  cst_next_sub :: nat
  cst_subs :: "(nat \<times> conversation_message list) list"

type_synonym conversation_hub = "string \<rightharpoonup> conversation_stream"

definition new_stream :: conversation_stream where
  "new_stream = \<lparr>cst_next_id = 0, cst_history = [], cst_next_sub = 0, cst_subs = []\<rparr>"

definition stream_of :: "string \<Rightarrow> conversation_hub \<Rightarrow> conversation_stream" where
  "stream_of sandbox h = (case h sandbox of Some s \<Rightarrow> s | None \<Rightarrow> new_stream)"

definition push_history :: "conversation_message \<Rightarrow> conversation_message list \<Rightarrow> conversation_message list" where
  "push_history msg hist =
     (let out = hist @ [msg] in
      if length out > conversationHistoryLimit then drop (length out - conversationHistoryLimit) out else out)"

definition send_latest :: "bool \<Rightarrow> conversation_message \<Rightarrow> conversation_message list \<Rightarrow> conversation_message list" where
  "send_latest race msg ch =
     (if length ch < conversationSubscriberBuf then ch @ [msg]
      else tl (if race then tl ch else ch) @ [msg])"

definition hub_publish ::
  "(nat \<Rightarrow> bool) \<Rightarrow> conversation_message \<Rightarrow> conversation_hub \<Rightarrow> conversation_message \<times> conversation_hub" where
  "hub_publish raced msg0 h =
     (let s = stream_of (cm_sandbox msg0) h;
          msg = msg0\<lparr>cm_id := cst_next_id s + 1\<rparr>
      in (msg, h(cm_sandbox msg0 \<mapsto>
            s\<lparr>cst_next_id := cst_next_id s + 1, cst_history := push_history msg (cst_history s),
              cst_subs := map (\<lambda>(i, ch). (i, send_latest (raced i) msg ch)) (cst_subs s)\<rparr>)))"

definition hub_history :: "string \<Rightarrow> nat \<Rightarrow> nat \<Rightarrow> conversation_hub \<Rightarrow> conversation_message list" where
  "hub_history sandbox afterID limit h =
     (case h sandbox of
        None \<Rightarrow> []
      | Some s \<Rightarrow>
          (let out = filter (\<lambda>m. cm_id m > afterID) (cst_history s) in
           if length out > limit then drop (length out - limit) out else out))"

definition hub_subscribe :: "string \<Rightarrow> conversation_hub \<Rightarrow> nat \<times> conversation_hub" where
  "hub_subscribe sandbox h =
     (let s = stream_of sandbox h; i = cst_next_sub s + 1 in
      (i, h(sandbox \<mapsto> s\<lparr>cst_next_sub := i, cst_subs := cst_subs s @ [(i, [])]\<rparr>)))"

definition hub_cancel :: "string \<Rightarrow> nat \<Rightarrow> conversation_hub \<Rightarrow> conversation_hub" where
  "hub_cancel sandbox i h =
     (case h sandbox of
        None \<Rightarrow> h
      | Some s \<Rightarrow> h(sandbox \<mapsto> s\<lparr>cst_subs := filter (\<lambda>(j, _). j \<noteq> i) (cst_subs s)\<rparr>))"

text \<open>The result: the observers whose channels are closed.\<close>

definition hub_forget :: "string \<Rightarrow> conversation_hub \<Rightarrow> nat list \<times> conversation_hub" where
  "hub_forget sandbox h =
     ((case h sandbox of None \<Rightarrow> [] | Some s \<Rightarrow> map fst (cst_subs s)), h(sandbox := None))"

text \<open>An observer receives the oldest message of its channel.\<close>

definition hub_receive :: "string \<Rightarrow> nat \<Rightarrow> conversation_hub \<Rightarrow> conversation_hub" where
  "hub_receive sandbox i h =
     (case h sandbox of
        None \<Rightarrow> h
      | Some s \<Rightarrow> h(sandbox \<mapsto> s\<lparr>cst_subs := map (\<lambda>(j, ch). (j, if j = i then tl ch else ch)) (cst_subs s)\<rparr>))"

section \<open>The manager's operations\<close>

definition safe_rune :: "nat \<Rightarrow> nat option" where
  "safe_rune r =
     (if r = 10 \<or> r = 13 \<or> r = 9 then Some r
      else if r < 0x20 \<or> 0x7f \<le> r \<and> r \<le> 0x9f then None
      else Some r)"

definition safeTTYText :: "string \<Rightarrow> string" where
  "safeTTYText s = map_runes safe_rune s"

datatype conversation_error = ConvNoSandbox | ConvBadRole | ConvEmpty | ConvNotUtf8 | ConvTooLong

definition conversation_author :: "string option \<Rightarrow> string \<Rightarrow> 'c session \<Rightarrow> string" where
  "conversation_author ctx role sess =
     (let author = (case ctx of
                      Some current \<Rightarrow> if trim_space current \<noteq> [] then trim_space current else ss_actor sess
                    | None \<Rightarrow> ss_actor sess)
      in if author = [] then role else author)"

definition PublishConversation ::
  "scrubprims \<Rightarrow> gotime \<Rightarrow> (nat \<Rightarrow> bool) \<Rightarrow> string option \<Rightarrow> string \<Rightarrow> string \<Rightarrow> string \<Rightarrow> string \<Rightarrow> 'c manager \<Rightarrow>
   conversation_hub \<Rightarrow> (conversation_error, conversation_message) result \<times> conversation_hub" where
  "PublishConversation R now raced ctx sandbox role0 content runID0 m h =
     (case session_of sandbox m of
        None \<Rightarrow> (Inl ConvNoSandbox, h)
      | Some sess \<Rightarrow>
          (let role = to_lower (trim_space role0) in
           if role \<notin> {''user'', ''assistant'', ''tool'', ''system''} then (Inl ConvBadRole, h)
           else if content = [] then (Inl ConvEmpty, h)
           else if \<not> valid_string content then (Inl ConvNotUtf8, h)
           else if length content > conversationContentLimit then (Inl ConvTooLong, h)
           else
             (let runID = (if trim_space runID0 = [] then ss_run_id sess else runID0);
                  scrubbed = ScrubString R (eventScrubber R sess) content (ss_secrets sess);
                  (msg, h') = hub_publish raced
                    \<lparr>cm_id = 0, cm_sandbox = sandbox, cm_role = role,
                     cm_author = safeTTYText (conversation_author ctx role sess), cm_content = safeTTYText scrubbed,
                     cm_run_id = safeTTYText (trim_space runID), cm_created_at = now,
                     cm_redacted = (scrubbed \<noteq> content)\<rparr> h
              in (Inr msg, h'))))"

definition ConversationHistory ::
  "string \<Rightarrow> nat \<Rightarrow> int \<Rightarrow> 'c manager \<Rightarrow> conversation_hub \<Rightarrow> (conversation_error, conversation_message list) result" where
  "ConversationHistory sandbox afterID limit m h =
     (if session_of sandbox m = None then Inl ConvNoSandbox
      else Inr (hub_history sandbox afterID
                  (if limit \<le> 0 \<or> limit > int conversationHistoryLimit then conversationHistoryLimit else nat limit) h))"

definition SubscribeConversation ::
  "string \<Rightarrow> 'c manager \<Rightarrow> conversation_hub \<Rightarrow> (conversation_error, nat) result \<times> conversation_hub" where
  "SubscribeConversation sandbox m h =
     (if session_of sandbox m = None then (Inl ConvNoSandbox, h)
      else (let (i, h') = hub_subscribe sandbox h in (Inr i, h')))"

text \<open>Killing a sandbox also drops its stream and closes the observers' channels.\<close>

definition kill_with_feed ::
  "'c govprims \<Rightarrow> runs_codec \<Rightarrow> state_io \<Rightarrow> gotime \<Rightarrow> string option \<Rightarrow> string option \<Rightarrow> string \<Rightarrow>
   'c plane \<times> conversation_hub \<Rightarrow> op_error option \<times> nat list \<times> 'c plane \<times> conversation_hub" where
  "kill_with_feed G J io now ctx killErr sid st =
     (case st of (pl, h) \<Rightarrow>
        if mg_sessions (pl_mgr pl) sid = None then (Some SandboxNotFound, [], pl, h)
        else
          (let (err, pl') = KillSandbox G J io now ctx killErr sid pl;
               (closed, h') = hub_forget sid h
           in (err, closed, pl', h')))"

section \<open>The history is a bounded log\<close>

interpretation feed: bounded_log push_history "\<lambda>hist. hist" "\<lambda>hist. length hist \<le> conversationHistoryLimit"
  conversationHistoryLimit
  by unfold_locales (auto simp: push_history_def conversationHistoryLimit_def Let_def drop_Suc)

section \<open>Runs of the hub\<close>

datatype conversation_op =
    CPublish "nat \<Rightarrow> bool" conversation_message
  | CSubscribe string
  | CCancel string nat
  | CReceive string nat
  | CForget string

fun hub_step :: "conversation_hub \<Rightarrow> conversation_op \<Rightarrow> conversation_hub" where
  "hub_step h (CPublish raced msg) = snd (hub_publish raced msg h)"
| "hub_step h (CSubscribe sb) = snd (hub_subscribe sb h)"
| "hub_step h (CCancel sb i) = hub_cancel sb i h"
| "hub_step h (CReceive sb i) = hub_receive sb i h"
| "hub_step h (CForget sb) = snd (hub_forget sb h)"

text \<open>All messages that were published to a sandbox since its stream was last dropped, as published.\<close>

fun published :: "string \<Rightarrow> conversation_op list \<Rightarrow> conversation_hub \<Rightarrow> conversation_message list \<Rightarrow> conversation_message list" where
  "published sb [] h P = P"
| "published sb (e # es) h P =
     published sb es (hub_step h e)
       (case e of
          CPublish raced msg \<Rightarrow> if cm_sandbox msg = sb then P @ [fst (hub_publish raced msg h)] else P
        | CForget s \<Rightarrow> if s = sb then [] else P
        | _ \<Rightarrow> P)"

definition stream_inv :: "conversation_message list \<Rightarrow> conversation_stream \<Rightarrow> bool" where
  "stream_inv P s \<longleftrightarrow>
     cst_next_id s = length P \<and> map cm_id P = [1..<Suc (length P)] \<and>
     cst_history s = feed.recent P \<and>
     (\<forall>(i, ch) \<in> set (cst_subs s). suffix ch P \<and> length ch \<le> conversationSubscriberBuf)"

lemma stream_inv_new: "stream_inv [] new_stream"
  by (simp add: stream_inv_def new_stream_def feed.recent_def)

lemma push_history_recent: "push_history msg (feed.recent P) = feed.recent (P @ [msg])"
proof -
  have "length (feed.recent P) \<le> conversationHistoryLimit" by (simp add: feed.recent_def)
  then show ?thesis using feed.push_entries feed.recent_snoc by simp
qed

lemma send_latest_suffix:
  assumes "suffix ch P" "length ch \<le> conversationSubscriberBuf"
  shows "suffix (send_latest race msg ch) (P @ [msg]) \<and> length (send_latest race msg ch) \<le> conversationSubscriberBuf"
proof -
  have "suffix (tl xs) P" if "suffix xs P" for xs using that suffix_order.trans suffix_tl by blast
  then show ?thesis using assms
    by (auto simp: send_latest_def conversationSubscriberBuf_def)
qed

lemma publish_stream_inv:
  assumes "stream_inv P (stream_of (cm_sandbox msg) h)"
  shows "stream_inv (P @ [fst (hub_publish raced msg h)])
    (stream_of (cm_sandbox msg) (snd (hub_publish raced msg h)))"
  using assms send_latest_suffix
  by (fastforce simp: stream_inv_def hub_publish_def stream_of_def Let_def push_history_recent)

lemma stream_inv_subs:
  assumes "stream_inv P s" "\<And>i ch. (i, ch) \<in> set subs \<Longrightarrow> \<exists>j ch'. (j, ch') \<in> set (cst_subs s) \<and> suffix ch ch'"
  shows "stream_inv P (s\<lparr>cst_subs := subs\<rparr>)"
proof -
  have "suffix ch P \<and> length ch \<le> conversationSubscriberBuf" if "(i, ch) \<in> set subs" for i ch
  proof -
    from assms(2) [OF that] obtain j ch' where "(j, ch') \<in> set (cst_subs s)" "suffix ch ch'" by blast
    moreover from this assms(1) have "suffix ch' P" "length ch' \<le> conversationSubscriberBuf"
      by (auto simp: stream_inv_def)
    ultimately show ?thesis using suffix_order.trans suffix_length_le le_trans by metis
  qed
  then show ?thesis using assms(1) by (auto simp: stream_inv_def)
qed

lemma hub_step_other: "hub_step h e sb = h sb"
  if "case e of CPublish r msg \<Rightarrow> cm_sandbox msg \<noteq> sb | CSubscribe x \<Rightarrow> x \<noteq> sb | CCancel x i \<Rightarrow> x \<noteq> sb
        | CReceive x i \<Rightarrow> x \<noteq> sb | CForget x \<Rightarrow> x \<noteq> sb"
  using that
  by (cases e) (auto simp: hub_publish_def hub_subscribe_def hub_cancel_def hub_receive_def hub_forget_def Let_def
      split: option.split)

lemma hub_step_inv:
  assumes "stream_inv P (stream_of sb h)"
  shows "stream_inv (published sb [e] h P) (stream_of sb (hub_step h e))"
proof (cases e)
  case (CPublish raced msg)
  show ?thesis
  proof (cases "cm_sandbox msg = sb")
    case True
    then show ?thesis using assms publish_stream_inv [of P msg h raced] by (simp add: CPublish)
  next
    case False
    then show ?thesis using assms hub_step_other [where e = e and sb = sb and h = h] by (simp add: CPublish stream_of_def)
  qed
next
  case (CSubscribe x)
  have "stream_inv P ((stream_of sb h)\<lparr>cst_subs := cst_subs (stream_of sb h) @ [(i, [])]\<rparr>)" for i
    using assms by (auto simp: stream_inv_def)
  then show ?thesis using assms hub_step_other [where e = e and sb = sb and h = h]
    by (cases "x = sb") (auto simp: CSubscribe hub_subscribe_def Let_def stream_of_def stream_inv_def)
next
  case (CCancel x i)
  show ?thesis
  proof (cases "x = sb \<and> h sb \<noteq> None")
    case True
    then obtain s where s: "h sb = Some s" by blast
    have "stream_inv P (s\<lparr>cst_subs := filter (\<lambda>(j, _). j \<noteq> i) (cst_subs s)\<rparr>)"
      using assms by (intro stream_inv_subs) (auto simp: s stream_of_def)
    then show ?thesis using True s by (simp add: CCancel hub_cancel_def stream_of_def)
  next
    case False
    then show ?thesis using assms hub_step_other [where e = e and sb = sb and h = h]
      by (auto simp: CCancel hub_cancel_def stream_of_def split: option.split)
  qed
next
  case (CReceive x i)
  show ?thesis
  proof (cases "x = sb \<and> h sb \<noteq> None")
    case True
    then obtain s where s: "h sb = Some s" by blast
    have "stream_inv P (s\<lparr>cst_subs := map (\<lambda>(j, ch). (j, if j = i then tl ch else ch)) (cst_subs s)\<rparr>)"
      using assms by (intro stream_inv_subs) (force simp: s stream_of_def intro: suffix_tl)+
    then show ?thesis using True s by (simp add: CReceive hub_receive_def stream_of_def)
  next
    case False
    then show ?thesis using assms hub_step_other [where e = e and sb = sb and h = h]
      by (auto simp: CReceive hub_receive_def stream_of_def split: option.split)
  qed
next
  case (CForget x)
  then show ?thesis using assms stream_inv_new by (auto simp: hub_forget_def stream_of_def)
qed

lemma published_Cons: "published sb (e # es) h P = published sb es (hub_step h e) (published sb [e] h P)"
  by simp

lemma hub_run_inv:
  "stream_inv P (stream_of sb h) \<Longrightarrow> stream_inv (published sb es h P) (stream_of sb (foldl hub_step h es))"
proof (induction es arbitrary: h P)
  case (Cons e es)
  then show ?case unfolding published_Cons [of sb e es h P] foldl_Cons by (intro Cons.IH hub_step_inv)
qed simp

lemma filter_newer:
  "map cm_id P = [a..<a + length P] \<Longrightarrow> filter (\<lambda>m. cm_id m > k) P = drop (Suc k - a) P"
proof (induction P arbitrary: a)
  case (Cons m P)
  then have "cm_id m = a" "map cm_id P = [Suc a..<Suc a + length P]"
    by (auto simp: upt_conv_Cons simp del: upt_Suc)
  with Cons.IH [of "Suc a"] show ?case
    by (cases "Suc k - a") (auto simp: Suc_diff_le)
qed simp

lemma history_of_stream:
  assumes "stream_inv P (stream_of sb h)" "limit \<le> conversationHistoryLimit"
  shows "hub_history sb k limit h = (let xs = drop k P in drop (length xs - limit) xs)"
proof (cases "h sb")
  case None
  then have "P = []" using assms(1) by (simp add: stream_of_def stream_inv_def new_stream_def)
  then show ?thesis using None by (simp add: hub_history_def)
next
  case (Some s)
  let ?j = "length P - conversationHistoryLimit"
  have ids: "map cm_id P = [1..<Suc (length P)]" and hist: "cst_history s = drop ?j P"
    using assms(1) Some by (auto simp: stream_inv_def stream_of_def feed.recent_def)
  have "map cm_id (drop ?j P) = [Suc ?j..<Suc ?j + length (drop ?j P)]"
    using ids by (simp add: drop_map [symmetric] del: upt_Suc)
  then have "filter (\<lambda>m. cm_id m > k) (cst_history s) = drop (Suc k - Suc ?j) (drop ?j P)"
    unfolding hist by (rule filter_newer)
  also have "\<dots> = drop (max k ?j) P" by (simp add: max_def add.commute)
  finally have "hub_history sb k limit h = drop (length P - max k ?j - limit) (drop (max k ?j) P)"
    using Some by (simp add: hub_history_def Let_def)
  also have "\<dots> = drop (max k (length P - limit)) P"
    using assms(2) by (auto simp: max_def intro!: arg_cong2 [where f = drop])
  finally show ?thesis by (auto simp: Let_def max_def intro!: arg_cong2 [where f = drop])
qed

section \<open>Properties\<close>

text \<open>What a terminal may be shown: no control character but tab and line breaks.\<close>

definition display_safe :: "string \<Rightarrow> bool" where
  "display_safe s \<longleftrightarrow> list_all (\<lambda>(r, _). r \<in> {9, 10, 13} \<or> 0x20 \<le> r \<and> \<not> (0x7f \<le> r \<and> r \<le> 0x9f)) (runes s)"

lemma safeTTYText_runes: "map fst (runes (safeTTYText s)) = List.map_filter safe_rune (map fst (runes s))"
  unfolding safeTTYText_def by (rule runes_map_runes) (auto simp: safe_rune_def split: if_splits)

lemma safeTTYText_safe: "display_safe (safeTTYText s)"
proof -
  have "r \<in> {9, 10, 13} \<or> 0x20 \<le> r \<and> \<not> (0x7f \<le> r \<and> r \<le> 0x9f)" if "(r, n) \<in> set (runes (safeTTYText s))" for r n
  proof -
    from that have "r \<in> set (map fst (runes (safeTTYText s)))" by force
    then have "\<exists>x. safe_rune x = Some r"
      unfolding safeTTYText_runes by (auto simp: List.map_filter_def)
    then show ?thesis by (auto simp: safe_rune_def split: if_splits)
  qed
  then show ?thesis by (auto simp: display_safe_def list_all_iff)
qed

text \<open>
  An observer that fell behind can always catch up: after any interleaving of publications,
  subscriptions, cancellations, receptions and dropped streams, the messages published to a sandbox
  since its stream began are numbered 1, 2, 3, ..., \<^verbatim>\<open>ConversationHistory\<close> returns exactly the newest
  of those with an id above \<open>afterID\<close>, up to the (clamped) limit and in order, and the channel of
  every observer holds the newest messages without a gap.
\<close>

theorem conversation_catches_up:
  assumes "session_of sb m \<noteq> None"
    and "h = foldl hub_step Map.empty es" "P = published sb es Map.empty []"
    and "lim = (if limit \<le> 0 \<or> limit > 500 then 500 else nat limit)"
  shows "map cm_id P = [1..<Suc (length P)] \<and>
    ConversationHistory sb afterID limit m h = Inr (let xs = drop afterID P in drop (length xs - lim) xs) \<and>
    (\<forall>s i ch. h sb = Some s \<longrightarrow> (i, ch) \<in> set (cst_subs s) \<longrightarrow> suffix ch P \<and> length ch \<le> 64)"
proof -
  have inv: "stream_inv P (stream_of sb h)"
    using hub_run_inv [of "[]" sb Map.empty es] stream_inv_new assms(2,3) by (simp add: stream_of_def)
  have "lim \<le> conversationHistoryLimit" using assms(4) by (auto simp: conversationHistoryLimit_def nat_le_iff)
  with inv have "hub_history sb afterID lim h = (let xs = drop afterID P in drop (length xs - lim) xs)"
    by (rule history_of_stream)
  moreover have "ConversationHistory sb afterID limit m h = Inr (hub_history sb afterID lim h)"
    using assms(1,4) by (simp add: ConversationHistory_def conversationHistoryLimit_def)
  ultimately show ?thesis using inv
    by (fastforce simp: stream_inv_def stream_of_def conversationSubscriberBuf_def)
qed

definition msg0 :: "string \<Rightarrow> conversation_message" where
  "msg0 c = \<lparr>cm_id = 0, cm_sandbox = ''sb'', cm_role = ''user'', cm_author = ''a'', cm_content = c, cm_run_id = [],
     cm_created_at = 1, cm_redacted = False\<rparr>"

theorem conversation_catches_up_witness:
  "ConversationHistory ''sb'' 1 0 manager0
     (foldl hub_step Map.empty [CSubscribe ''sb'', CPublish (\<lambda>_. False) (msg0 ''x''), CPublish (\<lambda>_. False) (msg0 ''y'')]) =
   Inr [(msg0 ''y'')\<lparr>cm_id := 2\<rparr>]"
proof -
  have "session_of ''sb'' manager0 \<noteq> None" by (simp add: session_of_def manager0_def)
  moreover have "published ''sb'' [CSubscribe ''sb'', CPublish (\<lambda>_. False) (msg0 ''x''), CPublish (\<lambda>_. False) (msg0 ''y'')]
      Map.empty [] = [(msg0 ''x'')\<lparr>cm_id := 1\<rparr>, (msg0 ''y'')\<lparr>cm_id := 2\<rparr>]"
    by (simp add: msg0_def hub_publish_def hub_subscribe_def stream_of_def new_stream_def Let_def)
  ultimately show ?thesis
    using conversation_catches_up [OF _ refl refl refl, of "''sb''" manager0
      "[CSubscribe ''sb'', CPublish (\<lambda>_. False) (msg0 ''x''), CPublish (\<lambda>_. False) (msg0 ''y'')]" 1 0]
    by simp
qed

text \<open>
  What observers are shown is safe to display and attributed: a published message comes from an
  existing sandbox and has one of the four roles, its author is the authenticated actor (or the
  session's, or the role when there is none), and its author, content and run id hold no control
  character but tab and line breaks, whatever bytes the caller sent; a refused publication changes
  nothing.
\<close>

theorem PublishConversation_safe:
  "case PublishConversation R now raced ctx sandbox role content runID m h of
     (Inl _, h') \<Rightarrow> h' = h
   | (Inr msg, h') \<Rightarrow>
       (\<exists>sess. session_of sandbox m = Some sess \<and>
          cm_author msg = safeTTYText (conversation_author ctx (to_lower (trim_space role)) sess)) \<and>
       cm_role msg \<in> {''user'', ''assistant'', ''tool'', ''system''} \<and>
       display_safe (cm_author msg) \<and> display_safe (cm_content msg) \<and> display_safe (cm_run_id msg) \<and>
       length content \<le> 65536 \<and> (\<exists>s. h' sandbox = Some s \<and> last (cst_history s) = msg)"
  by (auto simp: PublishConversation_def hub_publish_def Let_def safeTTYText_safe push_history_def
      conversationContentLimit_def conversationHistoryLimit_def split: option.split)

text \<open>
  Scrubbing comes before the control characters are dropped, so a declared secret that is split by a
  control character passes the scrubber and is put together again in the stored message.
\<close>

theorem split_secret_is_published:
  "map_sum id (\<lambda>msg. (cm_content msg, cm_redacted msg))
     (fst (PublishConversation \<lparr>sc_key_value = id, sc_builtin = []\<rparr> 1 (\<lambda>_. False) None ''sb'' ''user''
        (''hun'' @ [CHR 0x01] @ ''ter2'') []
        (manager0\<lparr>mg_sessions := [''sb'' \<mapsto> session0\<lparr>ss_secrets := [''hunter2'']\<rparr>]\<rparr>) Map.empty)) =
   Inr (''hunter2'', False)"
proof -
  let ?t = "''hun'' @ [CHR 0x01] @ ''ter2''" and ?R = "\<lparr>sc_key_value = id, sc_builtin = []\<rparr>"
  have "ScrubString ?R (NewScrubber ?R []) ?t [''hunter2''] = ?t" by code_simp
  moreover have "safeTTYText ?t = ''hunter2''"
    by (simp add: safeTTYText_def map_runes_def runes_ascii byte_def safe_rune_def encode_ascii char_of_def bit_0)
  moreover have "valid_string ?t"
    by (simp add: valid_string_def runes_ascii byte_def RuneError_def)
  moreover have "to_lower (trim_space ''user'') = ''user''" by code_simp
  ultimately show ?thesis
    by (simp add: PublishConversation_def session_of_def session0_def eventScrubber_def hub_publish_def Let_def
        conversationContentLimit_def)
qed

end
