(* ===== verification/Api_Handlers.thy ===== *)
theory Api_Handlers
  imports Server_Auth Executor Snapshots Conversation Fleet_Control
begin

text \<open>
  The route handlers of the HTTP API (\<^verbatim>\<open>internal/server/handlers.go\<close>, \<^verbatim>\<open>fleet.go\<close> and
  \<^verbatim>\<open>conversation.go\<close>) behind the middleware chain of \<open>Server_Auth\<close>: what each handler checks about the
  caller, which operation of the control plane it calls with which identity, and the status code it
  answers with. A handler takes the principal that the chain attached to the request (\<^verbatim>\<open>None\<close> outside
  RBAC) and the decoded body; \<^verbatim>\<open>None\<close> in place of a body is one that does not decode. A response is the
  status code and, where the request succeeded, what the body carries.
\<close>

section \<open>Responses\<close>

type_synonym 'a response = "nat \<times> 'a option"

text \<open>The context of an authenticated request carries the principal's name as the actor.\<close>

definition request_actor :: "principal option \<Rightarrow> string option" where
  "request_actor p = (case p of None \<Rightarrow> None | Some q \<Rightarrow> WithActor None (pc_name q))"

text \<open>\<^verbatim>\<open>writeServerError\<close>: a \<^verbatim>\<open>ClientError\<close> of the control plane is shown as 404 or 400, anything else as
  an opaque 500.\<close>

fun tool_error_status :: "tool_error \<Rightarrow> nat" where
  "tool_error_status ToolNoSandbox = 404"
| "tool_error_status ToolEmptyCommand = 500"
| "tool_error_status (ToolUndeclared t) = 400"
| "tool_error_status (ToolPathAbsolute p) = 400"
| "tool_error_status (ToolPathEscapes p) = 400"
| "tool_error_status ToolBrowserOff = 500"
| "tool_error_status ToolNoURL = 500"
| "tool_error_status (ToolExec e) = 500"

definition writeToolResult :: "(tool_error, tool_result) result \<Rightarrow> tool_result response" where
  "writeToolResult res =
     (case res of
        Inl e \<Rightarrow> (tool_error_status e, None)
      | Inr t \<Rightarrow>
          if tr_verdict t = VerdictDeny then (403, Some t)
          else if tr_verdict t = VerdictRequireApprove then (202, Some t)
          else (200, Some t))"

text \<open>\<^verbatim>\<open>writeIfBlocked\<close> and the answer of the file endpoints: the tool result when the call was blocked,
  otherwise the data.\<close>

datatype 'a file_reply = Blocked tool_result | Data 'a

definition writeIfBlocked :: "(tool_result \<Rightarrow> 'a) \<Rightarrow> (tool_error, tool_result) result \<Rightarrow> 'a file_reply response" where
  "writeIfBlocked data res =
     (case res of
        Inl e \<Rightarrow> (tool_error_status e, None)
      | Inr t \<Rightarrow>
          if tr_verdict t = VerdictDeny then (403, Some (Blocked t))
          else if tr_verdict t = VerdictRequireApprove then (202, Some (Blocked t))
          else (200, Some (Data (data t))))"

section \<open>Tools\<close>

type_synonym 'c tool_state = "exec_request option \<times> 'c manager"

definition handleShell ::
  "'c::{zero,linorder} govprims \<Rightarrow> 'c call_env \<Rightarrow> string \<Rightarrow> (string list \<times> string) option \<Rightarrow> 'c manager \<Rightarrow>
   tool_result response \<times> 'c tool_state" where
  "handleShell G cv sid body m =
     (case body of
        None \<Rightarrow> ((400, None), None, m)
      | Some (command, workdir) \<Rightarrow> map_prod writeToolResult id (Shell G cv sid command workdir m))"

definition handleBrowser ::
  "'c::{zero,linorder} govprims \<Rightarrow> 'c call_env \<Rightarrow> string \<Rightarrow> (string \<times> string) option \<Rightarrow> 'c manager \<Rightarrow>
   tool_result response \<times> 'c tool_state" where
  "handleBrowser G cv sid body m =
     (case body of
        None \<Rightarrow> ((400, None), None, m)
      | Some (url, mode) \<Rightarrow> map_prod writeToolResult id (Browser G cv sid url mode m))"

definition handlePython ::
  "'c::{zero,linorder} govprims \<Rightarrow> 'c call_env \<Rightarrow> string \<Rightarrow> string option \<Rightarrow> 'c manager \<Rightarrow> tool_result response \<times> 'c tool_state" where
  "handlePython G cv sid body m =
     (case body of None \<Rightarrow> ((400, None), None, m) | Some code \<Rightarrow> map_prod writeToolResult id (Python G cv sid code m))"

definition handleNode ::
  "'c::{zero,linorder} govprims \<Rightarrow> 'c call_env \<Rightarrow> string \<Rightarrow> string option \<Rightarrow> 'c manager \<Rightarrow> tool_result response \<times> 'c tool_state" where
  "handleNode G cv sid body m =
     (case body of None \<Rightarrow> ((400, None), None, m) | Some code \<Rightarrow> map_prod writeToolResult id (Node G cv sid code m))"

definition handleFileRead ::
  "'c::{zero,linorder} govprims \<Rightarrow> 'c call_env \<Rightarrow> string \<Rightarrow> string option \<Rightarrow> 'c manager \<Rightarrow> string file_reply response \<times> 'c tool_state" where
  "handleFileRead G cv sid body m =
     (case body of
        None \<Rightarrow> ((400, None), None, m)
      | Some path \<Rightarrow> map_prod (writeIfBlocked tr_stdout) id (FileRead G cv sid path m))"

definition handleFileWrite ::
  "'c::{zero,linorder} govprims \<Rightarrow> 'c call_env \<Rightarrow> string \<Rightarrow> (string \<times> string) option \<Rightarrow> 'c manager \<Rightarrow> nat file_reply response \<times> 'c tool_state" where
  "handleFileWrite G cv sid body m =
     (case body of
        None \<Rightarrow> ((400, None), None, m)
      | Some (path, content) \<Rightarrow> map_prod (writeIfBlocked (\<lambda>_. length content)) id (FileWrite G cv sid path content m))"

definition handleFileList ::
  "'c::{zero,linorder} govprims \<Rightarrow> 'c call_env \<Rightarrow> string \<Rightarrow> string option \<Rightarrow> 'c manager \<Rightarrow> string file_reply response \<times> 'c tool_state" where
  "handleFileList G cv sid body m =
     (case body of
        None \<Rightarrow> ((400, None), None, m)
      | Some path \<Rightarrow> map_prod (writeIfBlocked tr_stdout) id (FileList G cv sid path m))"

definition handleFileSearch ::
  "'c::{zero,linorder} govprims \<Rightarrow> 'c call_env \<Rightarrow> string \<Rightarrow> (string \<times> string) option \<Rightarrow> 'c manager \<Rightarrow> string file_reply response \<times> 'c tool_state" where
  "handleFileSearch G cv sid body m =
     (case body of
        None \<Rightarrow> ((400, None), None, m)
      | Some (query, path) \<Rightarrow> map_prod (writeIfBlocked tr_stdout) id (FileSearch G cv sid query path m))"

section \<open>Sandboxes, usage, runs\<close>

record create_request =
  cq_profile :: string
  cq_copy_from :: string
  cq_parent :: string
  cq_run_id :: string
  cq_agent :: string
  cq_provider :: string
  cq_model :: string

text \<open>\<open>rbac\<close>: an authorization store is configured; \<open>roots\<close> is \<^verbatim>\<open>RUNEWARD_COPY_FROM_ROOTS\<close>. The result
  carries the sandboxes that were killed again and the new sandbox's id.\<close>

definition handleCreateSandbox ::
  "path_matcher \<Rightarrow> bool \<Rightarrow> string \<Rightarrow> 'c govprims \<Rightarrow> 'c create_env \<Rightarrow> principal option \<Rightarrow> create_request option \<Rightarrow> 'c plane \<Rightarrow>
   string list \<times> string response \<times> 'c plane" where
  "handleCreateSandbox pm rbac roots G e p body pl =
     (case body of
        None \<Rightarrow> ([], (400, None), pl)
      | Some q \<Rightarrow>
          if cq_profile q = [] then ([], (400, None), pl)
          else if trim_space (cq_copy_from q) \<noteq> [] \<and> (case p of None \<Rightarrow> False | Some pr \<Rightarrow> \<not> pc_admin pr) then ([], (403, None), pl)
          else if rbac \<and> trim_space (cq_copy_from q) \<noteq> [] \<and> trim_space roots = [] then ([], (403, None), pl)
          else if p \<noteq> None \<and> \<not> CanLaunch pm p (cq_profile q) then ([], (403, None), pl)
          else
            (case CreateSandbox G e
                    \<lparr>co_owner = TenantID p, co_actor = (case p of None \<Rightarrow> [] | Some pr \<Rightarrow> pc_name pr), co_parent = cq_parent q,
                     co_run_id = cq_run_id q, co_agent = cq_agent q, co_provider = cq_provider q, co_model = cq_model q\<rparr>
                    (request_actor p) (cq_profile q) pl of
               (killed, Inl _, pl') \<Rightarrow> (killed, (400, None), pl')
             | (killed, Inr sb, pl') \<Rightarrow> (killed, (201, Some sb), pl')))"

text \<open>\<open>infos\<close> lists the sandboxes with their owners in the iteration order of the session map.\<close>

definition ListSandboxInfos :: "string list \<Rightarrow> 'c manager \<Rightarrow> (string \<times> string) list" where
  "ListSandboxInfos ids m = List.map_filter (\<lambda>sid. map_option (\<lambda>sess. (sid, ss_owner sess)) (mg_sessions m sid)) ids"

definition restricted :: "principal option \<Rightarrow> bool" where
  "restricted p = (case p of None \<Rightarrow> False | Some pr \<Rightarrow> \<not> pc_admin pr)"

definition handleListSandboxes :: "principal option \<Rightarrow> (string \<times> string) list \<Rightarrow> (string \<times> string) list response" where
  "handleListSandboxes p infos =
     (200, Some (filter (\<lambda>(sid, owner). \<not> (restricted p \<and> owner \<noteq> TenantID p)) infos))"

definition handleKillSandbox ::
  "'c govprims \<Rightarrow> runs_codec \<Rightarrow> state_io \<Rightarrow> gotime \<Rightarrow> string option \<Rightarrow> principal option \<Rightarrow> string \<Rightarrow> 'c plane \<times> conversation_hub \<Rightarrow>
   unit response \<times> 'c plane \<times> conversation_hub" where
  "handleKillSandbox G J io now killErr p sid st =
     (case kill_with_feed G J io now (request_actor p) killErr sid st of
        (Some _, _, st') \<Rightarrow> ((404, None), st')
      | (None, _, st') \<Rightarrow> ((200, Some ()), st'))"

definition handleReportUsage ::
  "'c::{zero,plus,linorder} govprims \<Rightarrow> 'c costprims \<Rightarrow> principal option \<Rightarrow> string \<Rightarrow> (64 word \<times> 'c) option \<Rightarrow> 'c manager \<Rightarrow>
   'c usage response \<times> 'c manager" where
  "handleReportUsage G K p sid body m =
     (case body of
        None \<Rightarrow> ((400, None), m)
      | Some (tokens, cost) \<Rightarrow>
          (case RecordUsageContext G K (request_actor p) sid tokens cost m of
             (Some _, m') \<Rightarrow> ((404, None), m')
           | (None, m') \<Rightarrow> ((200, Some (SandboxUsage sid m')), m')))"

definition handleListRuns :: "principal option \<Rightarrow> runs_state \<Rightarrow> run list response" where
  "handleListRuns p s =
     (200, Some (if restricted p then filter (\<lambda>r. rn_tenant r = TenantID p) (ListRuns s) else ListRuns s))"

definition handleGetRun :: "principal option \<Rightarrow> string \<Rightarrow> runs_state \<Rightarrow> run response" where
  "handleGetRun p rid s =
     (case Run rid s of
        None \<Rightarrow> (404, None)
      | Some r \<Rightarrow> if restricted p \<and> rn_tenant r \<noteq> TenantID p then (404, None) else (200, Some r))"

definition handleListProfiles :: "path_matcher \<Rightarrow> principal option \<Rightarrow> string list option \<Rightarrow> string list response" where
  "handleListProfiles pm p profiles =
     (case profiles of
        None \<Rightarrow> (500, None)
      | Some names \<Rightarrow> (200, Some (if restricted p then filter (CanLaunch pm p) names else names)))"

definition handleReadiness :: "path_matcher \<Rightarrow> principal option \<Rightarrow> string \<Rightarrow> (string \<Rightarrow> 'r) \<Rightarrow> 'r response" where
  "handleReadiness pm p profile check =
     (let name = trim_space profile in
      if name = [] then (400, None)
      else if p \<noteq> None \<and> \<not> CanLaunch pm p name then (404, None)
      else (200, Some (check name)))"

section \<open>Snapshots\<close>

text \<open>A missing body counts as an empty one.\<close>

definition handleSnapshot ::
  "'c govprims \<Rightarrow> snap_codec \<Rightarrow> state_io \<Rightarrow> principal option \<Rightarrow> snapshot_ref option \<Rightarrow> string \<Rightarrow> string option \<Rightarrow> snapshot_state \<Rightarrow> 'c manager \<Rightarrow>
   snapshot_ref response \<times> snapshot_state \<times> 'c manager" where
  "handleSnapshot G J io p taken sid body s m =
     (case body of
        None \<Rightarrow> ((400, None), s, m)
      | Some name \<Rightarrow>
          (case Snapshot G J io (request_actor p) taken sid name s m of
             (Inl _, s', m') \<Rightarrow> ((400, None), s', m')
           | (Inr ref, s', m') \<Rightarrow> ((201, Some ref), s', m')))"

definition handleListSnapshots :: "principal option \<Rightarrow> snapshot_state \<Rightarrow> snapshot_ref list response" where
  "handleListSnapshots p s =
     (200, Some (if restricted p then filter (\<lambda>ref. SnapshotOwner (sr_id ref) s = Some (TenantID p)) (ListSnapshots s)
                 else ListSnapshots s))"

definition handleRestoreSnapshot ::
  "path_matcher \<Rightarrow> 'c govprims \<Rightarrow> 'c create_env \<Rightarrow> resources \<Rightarrow> principal option \<Rightarrow> string \<Rightarrow> snapshot_state \<Rightarrow> 'c plane \<Rightarrow>
   string list \<times> string response \<times> 'c plane" where
  "handleRestoreSnapshot pm G e R p snap s pl =
     (if restricted p \<and> \<not> snapshotVisibleTo R p snap then ([], (404, None), pl)
      else if p \<noteq> None \<and> (case SnapshotRef snap s of None \<Rightarrow> True | Some ref \<Rightarrow> \<not> CanLaunch pm p (sr_profile ref))
      then ([], (404, None), pl)
      else
        (case RestoreSnapshotForIdentity G e (request_actor p) snap (TenantID p)
                (case p of None \<Rightarrow> [] | Some pr \<Rightarrow> pc_name pr) s pl of
           (killed, Inl _, pl') \<Rightarrow> (killed, (400, None), pl')
         | (killed, Inr sb, pl') \<Rightarrow> (killed, (201, Some sb), pl')))"

section \<open>Approvals and the audit bundle\<close>

text \<open>The profile of a sandbox; \<^verbatim>\<open>backend.Sandbox\<close> carries the name of the profile it was made from.\<close>

definition sandbox_profile :: "string \<Rightarrow> 'c manager \<Rightarrow> string option" where
  "sandbox_profile sid m = map_option (\<lambda>sess. pro_name (ss_profile sess)) (mg_sessions m sid)"

definition reviewable :: "path_matcher \<Rightarrow> principal option \<Rightarrow> 'c manager \<Rightarrow> approval \<Rightarrow> bool" where
  "reviewable pm p m ap =
     (case sandbox_profile (ap_sandbox ap) m of None \<Rightarrow> False | Some name \<Rightarrow> CanApproveProfile pm p name)"

definition handleListApprovals :: "path_matcher \<Rightarrow> principal option \<Rightarrow> 'c manager \<Rightarrow> approval list response" where
  "handleListApprovals pm p m =
     (if p \<noteq> None \<and> \<not> MayApprove p then (403, None)
      else (200, Some (if restricted p then filter (reviewable pm p m) (List_approvals (mg_approvals m))
                       else List_approvals (mg_approvals m))))"

text \<open>Who decided: the principal, else a header, a query parameter or the peer's address.\<close>

definition approver :: "principal option \<Rightarrow> string \<Rightarrow> string \<Rightarrow> string \<Rightarrow> string" where
  "approver p header query remote =
     (if (case p of None \<Rightarrow> False | Some pr \<Rightarrow> pc_name pr \<noteq> []) then pc_name (the p)
      else if header \<noteq> [] then header
      else if query \<noteq> [] then query
      else (case SplitHostPort remote of Inr (host, _) \<Rightarrow> host | Inl _ \<Rightarrow> remote))"

definition resolveApproval ::
  "path_matcher \<Rightarrow> 'c govprims \<Rightarrow> principal option \<Rightarrow> string \<Rightarrow> string \<Rightarrow> string \<Rightarrow> string \<Rightarrow> bool \<Rightarrow> 'c manager \<Rightarrow>
   unit response \<times> 'c manager" where
  "resolveApproval pm G p header query remote apid approve m =
     (if p \<noteq> None \<and> \<not> MayApprove p then ((403, None), m)
      else if restricted p \<and> (case Get_approval apid (mg_approvals m) of None \<Rightarrow> True | Some ap \<Rightarrow> \<not> reviewable pm p m ap)
      then ((404, None), m)
      else (case ResolveApproval G apid approve (approver p header query remote) m of
              (False, m') \<Rightarrow> ((404, None), m')
            | (True, m') \<Rightarrow> ((200, Some ()), m')))"

text \<open>\<open>export\<close> is the bundle of the requested session, \<^verbatim>\<open>None\<close> for an error.\<close>

definition handleAuditExport :: "principal option \<Rightarrow> 'b option \<Rightarrow> 'b response" where
  "handleAuditExport p export =
     (if restricted p then (403, None)
      else (case export of None \<Rightarrow> (400, None) | Some b \<Rightarrow> (200, Some b)))"

definition between :: "char \<Rightarrow> string \<Rightarrow> bool" where
  "between c bounds = (bounds ! 0 \<le> c \<and> c \<le> bounds ! 1)"

definition safeFilename :: "string \<Rightarrow> string" where
  "safeFilename s =
     (let out = filter (\<lambda>c. list_ex (between c) [''az'', ''AZ'', ''09''] \<or> c \<in> set ''-_'') s
      in if out = [] then ''export'' else out)"

section \<open>Fleets\<close>

definition taskOwnerFromRequest :: "principal option \<Rightarrow> string \<Rightarrow> string option" where
  "taskOwnerFromRequest p requested =
     (case p of
        Some pr \<Rightarrow> if trim_space (pc_name pr) = [] then None else Some (pc_name pr)
      | None \<Rightarrow> if trim_space requested = [] then None else Some (trim_space requested))"

fun task_error_status :: "fleet_error \<Rightarrow> nat" where
  "task_error_status (FleetBoard ErrNotFound) = 404"
| "task_error_status (FleetBoard ErrIllegalTransition) = 409"
| "task_error_status ErrInvalidLease = 401"
| "task_error_status _ = 400"

definition handleCreateFleet ::
  "path_matcher \<Rightarrow> fleet_codec \<Rightarrow> state_io \<Rightarrow> gotime \<Rightarrow> string \<Rightarrow> (gotime \<times> string) list \<Rightarrow> string option list \<Rightarrow>
   (int \<times> string list) option option \<Rightarrow> principal option \<Rightarrow> string option \<Rightarrow> fleetctl \<Rightarrow>
   string list \<times> fleet_view response \<times> fleetctl" where
  "handleCreateFleet pm J io now fid ids sbs loaded p body m =
     (case body of
        None \<Rightarrow> ([], (400, None), m)
      | Some profile \<Rightarrow>
          if profile = [] then ([], (400, None), m)
          else if p \<noteq> None \<and> \<not> CanLaunch pm p profile then ([], (403, None), m)
          else (case CreateFleetForIdentity J io now fid ids sbs loaded profile (TenantID p) m of
                  (killed, Inl _, m') \<Rightarrow> (killed, (400, None), m')
                | (killed, Inr v, m') \<Rightarrow> (killed, (201, Some v), m')))"

definition handleListFleets :: "resources \<Rightarrow> principal option \<Rightarrow> fleetctl \<Rightarrow> fleet_view list response" where
  "handleListFleets R p m =
     (200, Some (if restricted p then filter (\<lambda>v. fleetOwnedBy R (fv_id v) (TenantID p)) (ListFleets m) else ListFleets m))"

definition handleAddTask ::
  "fleet_codec \<Rightarrow> state_io \<Rightarrow> gotime \<Rightarrow> string \<Rightarrow> string \<Rightarrow> string option \<Rightarrow> fleetctl \<Rightarrow> task response \<times> fleetctl" where
  "handleAddTask J io now tid fleetID body m =
     (case body of
        None \<Rightarrow> ((400, None), m)
      | Some payload \<Rightarrow>
          (case AddTask J io now tid fleetID payload m of
             (Inl _, m') \<Rightarrow> ((404, None), m')
           | (Inr t, m') \<Rightarrow> ((201, Some t), m')))"

text \<open>The answer to a claim: no body when there is no task.\<close>

definition handleClaimTask ::
  "fleet_codec \<Rightarrow> tokprims \<Rightarrow> state_io \<Rightarrow> gotime \<Rightarrow> string option \<Rightarrow> principal option \<Rightarrow> string \<Rightarrow> string option \<Rightarrow> fleetctl \<Rightarrow>
   task option response \<times> fleetctl" where
  "handleClaimTask J T io now nonce p fleetID body m =
     (case body of
        None \<Rightarrow> ((400, None), m)
      | Some requested \<Rightarrow>
          (case taskOwnerFromRequest p requested of
             None \<Rightarrow> ((400, None), m)
           | Some owner \<Rightarrow>
               (case ClaimTask J T io now nonce fleetID owner m of
                  (Inl _, m') \<Rightarrow> ((404, None), m')
                | (Inr t, m') \<Rightarrow> ((200, Some t), m'))))"

record task_request =
  tkq_owner :: string
  tkq_lease_token :: string
  tkq_result :: string
  tkq_error :: string
  tkq_requeue :: bool

definition handleCompleteTask ::
  "fleet_codec \<Rightarrow> tokprims \<Rightarrow> state_io \<Rightarrow> gotime \<Rightarrow> principal option \<Rightarrow> string \<Rightarrow> string \<Rightarrow> task_request option \<Rightarrow> fleetctl \<Rightarrow>
   unit response \<times> fleetctl" where
  "handleCompleteTask J T io now p fleetID taskID body m =
     (case body of
        None \<Rightarrow> ((400, None), m)
      | Some q \<Rightarrow>
          (case taskOwnerFromRequest p (tkq_owner q) of
             None \<Rightarrow> ((400, None), m)
           | Some owner \<Rightarrow>
               (case CompleteTask J T io now fleetID taskID owner (tkq_lease_token q) (tkq_result q) m of
                  (Some e, m') \<Rightarrow> ((task_error_status e, None), m')
                | (None, m') \<Rightarrow> ((200, Some ()), m'))))"

definition handleHeartbeatTask ::
  "fleet_codec \<Rightarrow> tokprims \<Rightarrow> state_io \<Rightarrow> gotime \<Rightarrow> string option \<Rightarrow> principal option \<Rightarrow> string \<Rightarrow> string \<Rightarrow> task_request option \<Rightarrow> fleetctl \<Rightarrow>
   task response \<times> fleetctl" where
  "handleHeartbeatTask J T io now nonce p fleetID taskID body m =
     (case body of
        None \<Rightarrow> ((400, None), m)
      | Some q \<Rightarrow>
          (case taskOwnerFromRequest p (tkq_owner q) of
             None \<Rightarrow> ((400, None), m)
           | Some owner \<Rightarrow>
               (case HeartbeatTask J T io now nonce fleetID taskID owner (tkq_lease_token q) m of
                  (Inl e, m') \<Rightarrow> ((task_error_status e, None), m')
                | (Inr t, m') \<Rightarrow> ((200, Some t), m'))))"

definition handleFailTask ::
  "fleet_codec \<Rightarrow> tokprims \<Rightarrow> state_io \<Rightarrow> gotime \<Rightarrow> principal option \<Rightarrow> string \<Rightarrow> string \<Rightarrow> task_request option \<Rightarrow> fleetctl \<Rightarrow>
   unit response \<times> fleetctl" where
  "handleFailTask J T io now p fleetID taskID body m =
     (case body of
        None \<Rightarrow> ((400, None), m)
      | Some q \<Rightarrow>
          (case taskOwnerFromRequest p (tkq_owner q) of
             None \<Rightarrow> ((400, None), m)
           | Some owner \<Rightarrow>
               (case FailTask J T io now fleetID taskID owner (tkq_lease_token q) (tkq_error q) (tkq_requeue q) m of
                  (Some e, m') \<Rightarrow> ((task_error_status e, None), m')
                | (None, m') \<Rightarrow> ((200, Some ()), m'))))"

section \<open>Conversations\<close>

fun conversation_error_status :: "conversation_error \<Rightarrow> nat" where
  "conversation_error_status ConvNoSandbox = 404"
| "conversation_error_status _ = 500"

definition handleConversationPublish ::
  "scrubprims \<Rightarrow> gotime \<Rightarrow> (nat \<Rightarrow> bool) \<Rightarrow> principal option \<Rightarrow> string \<Rightarrow> (string \<times> string \<times> string) option \<Rightarrow> 'c manager \<Rightarrow>
   conversation_hub \<Rightarrow> conversation_message response \<times> conversation_hub" where
  "handleConversationPublish R now raced p sid body m h =
     (case body of
        None \<Rightarrow> ((400, None), h)
      | Some (role, content, runID) \<Rightarrow>
          (case PublishConversation R now raced (request_actor p) sid role content runID m h of
             (Inl e, h') \<Rightarrow> ((conversation_error_status e, None), h')
           | (Inr msg, h') \<Rightarrow> ((201, Some msg), h')))"

definition parseUintQuery :: "string \<Rightarrow> nat option" where
  "parseUintQuery raw0 = (let raw = trim_space raw0 in if raw = [] then Some 0 else parse_uint raw)"

definition handleConversationHistory ::
  "string \<Rightarrow> string \<Rightarrow> string \<Rightarrow> 'c manager \<Rightarrow> conversation_hub \<Rightarrow>
   conversation_message list response" where
  "handleConversationHistory sid after limit0 m h =
     (case parseUintQuery after of
        None \<Rightarrow> (400, None)
      | Some afterID \<Rightarrow>
          (let raw = trim_space limit0;
               limit = (if raw = [] then Some 500
                        else (case atoi raw of None \<Rightarrow> None | Some n \<Rightarrow> if n < 1 \<or> n > 500 then None else Some n))
           in case limit of
                None \<Rightarrow> (400, None)
              | Some n \<Rightarrow>
                  (case ConversationHistory sid afterID n m h of
                     Inl e \<Rightarrow> (conversation_error_status e, None)
                   | Inr msgs \<Rightarrow> (200, Some msgs))))"

text \<open>The observer's stream: the handler subscribes, reads the history and sends it, then sends each live
  message with an id above the last one sent. \<open>mid\<close> is what other requests do between the subscription
  and the reading of the history, \<open>live\<close> what the channel delivers while the connection is open.\<close>

fun stream_live :: "nat \<Rightarrow> conversation_message list \<Rightarrow> conversation_message list" where
  "stream_live lastID [] = []"
| "stream_live lastID (msg # live) =
     (if cm_id msg \<le> lastID then stream_live lastID live else msg # stream_live (cm_id msg) live)"

definition handleConversationStream ::
  "string \<Rightarrow> 'c manager \<Rightarrow> conversation_op list \<Rightarrow> conversation_message list \<Rightarrow> conversation_hub \<Rightarrow>
   (conversation_error, conversation_message list) result \<times> conversation_hub" where
  "handleConversationStream sid m mid live h =
     (case SubscribeConversation sid m h of
        (Inl e, h1) \<Rightarrow> (Inl e, h1)
      | (Inr sub, h1) \<Rightarrow>
          (let h2 = foldl hub_step h1 mid in
           case ConversationHistory sid 0 500 m h2 of
             Inl e \<Rightarrow> (Inl e, hub_cancel sid sub h2)
           | Inr hist \<Rightarrow>
               (Inr (hist @ stream_live (if hist = [] then 0 else cm_id (last hist)) live), hub_cancel sid sub h2)))"

section \<open>What a handler lets through\<close>

text \<open>Facts about the operations below the handlers: who owns a created or restored sandbox, and for
  whom a task is claimed.\<close>

lemma created_session:
  assumes "CreateSandbox G e opts ctx profileName pl = (killed, Inr sb, pl')"
  shows "\<exists>sess. mg_sessions (pl_mgr pl') sb = Some sess \<and> ss_owner sess = co_owner opts"
proof -
  have "\<exists>p prid patterns envsec sb'. finish_create G e opts ctx prid p patterns envsec sb' pl = (killed, Inr sb, pl')"
    using assms by (auto simp: CreateSandbox_def split: option.splits sum.splits if_splits) blast
  then obtain p prid patterns envsec sb' where "finish_create G e opts ctx prid p patterns envsec sb' pl = (killed, Inr sb, pl')"
    by blast
  then show ?thesis
    by (auto simp: finish_create_def start_session_def register_session_def new_session_def put_session_def Let_def
        split: sum.splits option.splits ide_start.splits prod.splits)
qed

lemma restored_owner:
  assumes "RestoreSnapshotForIdentity G e ctx snapshotID owner actor s pl = (killed, Inr sb, pl')"
  shows "\<exists>sess. mg_sessions (pl_mgr pl') sb = Some sess \<and> ss_owner sess = owner"
  using assms
proof (cases rule: Restore_cases)
  case (reached p g eng envsec sb')
  then show ?thesis by (auto simp: finish_restore_def put_session_def Let_def split: prod.splits option.splits)
qed auto

lemma Claim_owner: "Claim now owner b = (Some t, b') \<Longrightarrow> tk_owner t = owner"
  by (auto simp: Claim_def claim_task_def Let_def split: option.splits)

lemma ClaimTask_owner: "ClaimTask J T io now nonce fid owner m = (Inr (Some t), m') \<Longrightarrow> tk_owner t = owner"
  by (auto simp: ClaimTask_def Let_def dest: Claim_owner split: option.splits prod.splits if_splits)

lemma CompleteTask_holder:
  assumes "CompleteTask J T io now fid tid owner token res m = (None, m')" "owner \<noteq> []"
  shows "\<exists>f t. fleet_of fid m = Some f \<and> Get tid (fl_board f) = Some t \<and> tk_state t = StateClaimed \<and> tk_owner t = owner"
  using assms by (auto simp: CompleteTask_def Complete_def Get_def split: option.splits if_splits)

lemma taskOwner_principal: "taskOwnerFromRequest (Some pr) requested = Some owner \<longleftrightarrow> trim_space (pc_name pr) \<noteq> [] \<and> owner = pc_name pr"
  by (auto simp: taskOwnerFromRequest_def)

lemma trim_space_Nil_name: "trim_space name \<noteq> [] \<Longrightarrow> name \<noteq> []"
proof (rule ccontr)
  assume "trim_space name \<noteq> []" "\<not> name \<noteq> []"
  moreover have "trim_space [] = []" by code_simp
  ultimately show False by simp
qed

section \<open>Properties\<close>

text \<open>
  C20. Only a principal that may launch a charter gets a sandbox of it. When the create endpoint answers
  201 to a principal, the principal is an administrator or the charter matches one of its launch
  patterns, a host directory was copied in only for an administrator and with copy roots configured,
  and the new session is owned by the principal's tenant. The restore endpoint answers 201 only for a
  registered snapshot whose charter the principal may launch and that the principal can see, and the
  restored session is owned by the principal's tenant whoever took the snapshot.
\<close>

theorem launch_needs_permission:
  "(handleCreateSandbox pm True roots G e (Some pr) (Some q) pl = (killed, (201, Some sb), pl') \<longrightarrow>
      (pc_admin pr \<or> profile_listed pm (pc_allowed_profiles pr) (cq_profile q)) \<and>
      (trim_space (cq_copy_from q) = [] \<or> pc_admin pr \<and> trim_space roots \<noteq> []) \<and>
      (\<exists>sess. mg_sessions (pl_mgr pl') sb = Some sess \<and> ss_owner sess = TenantID (Some pr))) \<and>
   (handleRestoreSnapshot pm G e R (Some pr) snap s pl = (killed, (201, Some sb), pl') \<longrightarrow>
      (\<exists>ref. SnapshotRef snap s = Some ref \<and>
         (pc_admin pr \<or> profile_listed pm (pc_allowed_profiles pr) (sr_profile ref) \<and> snapshotVisibleTo R (Some pr) snap)) \<and>
      (\<exists>sess. mg_sessions (pl_mgr pl') sb = Some sess \<and> ss_owner sess = TenantID (Some pr)))"
proof (intro conjI impI)
  assume *: "handleCreateSandbox pm True roots G e (Some pr) (Some q) pl = (killed, (201, Some sb), pl')"
  show "pc_admin pr \<or> profile_listed pm (pc_allowed_profiles pr) (cq_profile q)"
    "trim_space (cq_copy_from q) = [] \<or> pc_admin pr \<and> trim_space roots \<noteq> []"
    using * by (auto simp: handleCreateSandbox_def CanLaunch_def split: if_splits)
  show "\<exists>sess. mg_sessions (pl_mgr pl') sb = Some sess \<and> ss_owner sess = TenantID (Some pr)"
    using * by (auto simp: handleCreateSandbox_def split: if_splits prod.splits sum.splits dest!: created_session)
next
  assume *: "handleRestoreSnapshot pm G e R (Some pr) snap s pl = (killed, (201, Some sb), pl')"
  show "\<exists>ref. SnapshotRef snap s = Some ref \<and>
      (pc_admin pr \<or> profile_listed pm (pc_allowed_profiles pr) (sr_profile ref) \<and> snapshotVisibleTo R (Some pr) snap)"
    using * by (auto simp: handleRestoreSnapshot_def CanLaunch_def restricted_def split: if_splits option.splits)
  show "\<exists>sess. mg_sessions (pl_mgr pl') sb = Some sess \<and> ss_owner sess = TenantID (Some pr)"
    using * by (auto simp: handleRestoreSnapshot_def split: if_splits prod.splits sum.splits dest!: restored_owner)
qed

definition alice :: principal where
  "alice = \<lparr>pc_name = ''alice'', pc_tenant = ''t'', pc_token = ''x'', pc_allowed_profiles = [''*''], pc_can_approve = True,
     pc_approval_profiles = [], pc_admin = False\<rparr>"

definition creq0 :: create_request where
  "creq0 = \<lparr>cq_profile = ''p'', cq_copy_from = [], cq_parent = [], cq_run_id = [], cq_agent = [], cq_provider = [], cq_model = []\<rparr>"

lemma create_alice:
  "\<exists>pl'. handleCreateSandbox (\<lambda>_ _. None) True [] prims0 create0 (Some alice) (Some creq0) plane0 = ([], (201, Some ''sb2''), pl')"
proof -
  have v: "verifyRuntimeCapabilities (ce_probe create0) (ce_discover create0) profile0 = Inr profile0"
    by (simp add: verifyRuntimeCapabilities_def profileCapabilities_profile0 create0_def)
  obtain g where g: "policyGuard (ce_parse_duration create0) (ce_now create0) profile0 = Some g"
    by (simp add: policyGuard_def NewGuard_def profile0_def limits0_def)
  obtain eng where eng: "newEngine (ce_engine create0) (ce_env_default create0) profile0 = Inr eng"
    by (simp add: newEngine_def UsesPolicyBundle_def UsesRego_def UsesCEL_def profile0_def Let_def)
  have "\<exists>pl'. finish_create prims0 create0 opts ctx prid profile0 patterns envsec ''sb2'' plane0 = ([], Inr ''sb2'', pl')"
    for opts ctx prid patterns envsec
    unfolding finish_create_def v g eng sum.case option.case
    by (simp add: start_session_def register_session_def new_session_def put_session_def
        registerRun_def saveRuns_def run_of_session_def plane0_def create0_def runs_json1_def writeStateFile_def Let_def)
  then obtain pl' where fc: "finish_create prims0 create0
      \<lparr>co_owner = TenantID (Some alice), co_actor = pc_name alice, co_parent = [], co_run_id = [], co_agent = [],
       co_provider = [], co_model = []\<rparr> (request_actor (Some alice)) [] profile0 [] (Map.empty, []) ''sb2'' plane0 = ([], Inr ''sb2'', pl')"
    by blast
  have "ce_profile create0 = Some profile0" "ce_backend create0" "ce_create create0 = Some ''sb2''"
    "pro_scrub_patterns profile0 = []" "pro_env profile0 = []"
    by (simp_all add: create0_def profile0_def)
  with fc have "CreateSandbox prims0 create0
      \<lparr>co_owner = TenantID (Some alice), co_actor = pc_name alice, co_parent = [], co_run_id = [], co_agent = [],
       co_provider = [], co_model = []\<rparr> (request_actor (Some alice)) ''p'' plane0 = ([], Inr ''sb2'', pl')"
    by (simp add: CreateSandbox_def parent_check_def)
  moreover have "trim_space [] = []" "CanLaunch (\<lambda>_ _. None) (Some alice) ''p''" by code_simp+
  ultimately show ?thesis by (simp add: handleCreateSandbox_def creq0_def)
qed

theorem launch_needs_permission_witness:
  "\<exists>pl' sess. handleCreateSandbox (\<lambda>_ _. None) True [] prims0 create0 (Some alice) (Some creq0) plane0 = ([], (201, Some ''sb2''), pl') \<and>
     mg_sessions (pl_mgr pl') ''sb2'' = Some sess \<and> ss_owner sess = ''t''"
proof -
  obtain pl' where c: "handleCreateSandbox (\<lambda>_ _. None) True [] prims0 create0 (Some alice) (Some creq0) plane0 =
      ([], (201, Some ''sb2''), pl')"
    using create_alice by blast
  moreover have "TenantID (Some alice) = ''t''" by code_simp
  ultimately show ?thesis using launch_needs_permission c by fastforce
qed

text \<open>
  C21. Approvals are decided by reviewers only. When the approve or deny endpoint answers 200 to a
  principal, the principal may approve, and unless it is an administrator the charter of the sandbox
  that asked is one it reviews; the approval was pending, is pending no longer, and the decision is
  the last audit event. With any other answer nothing changed.
\<close>

theorem approval_needs_reviewer:
  assumes "resolveApproval pm G (Some pr) header query remote apid approve m = ((status, body), m')"
  shows "if status = 200
    then MayApprove (Some pr) \<and>
      (\<exists>ap. map_of (ap_pending (mg_approvals m)) apid = Some ap \<and>
         (pc_admin pr \<or> (\<exists>sess. mg_sessions m (ap_sandbox ap) = Some sess \<and>
            CanApproveProfile pm (Some pr) (pro_name (ss_profile sess)))) \<and>
         (\<exists>ev. mg_audit m' = mg_audit m @ [ev] \<and> ev_tool ev = ''approval'' \<and> ev_session ev = ap_sandbox ap \<and>
            ev_verdict ev = (if approve then VerdictAllow else VerdictDeny)) \<and>
         map_of (ap_pending (mg_approvals m')) apid = None)
    else m' = m"
proof -
  have res: "ResolveApproval G apid approve actor m = (ok, m1) \<Longrightarrow>
      (if ok then \<exists>ap ev. map_of (ap_pending (mg_approvals m)) apid = Some ap \<and> mg_audit m1 = mg_audit m @ [ev] \<and>
          ev_tool ev = ''approval'' \<and> ev_session ev = ap_sandbox ap \<and>
          ev_verdict ev = (if approve then VerdictAllow else VerdictDeny) \<and>
          map_of (ap_pending (mg_approvals m1)) apid = None
       else m1 = m)" for actor ok m1
    by (auto simp: ResolveApproval_def ResolveView_def log_event_def Let_def split: option.splits if_splits)
  show ?thesis
  proof (cases "ResolveApproval G apid approve (approver (Some pr) header query remote) m")
    case (Pair ok m1)
    from res [OF this] show ?thesis
      using assms Pair
      by (auto simp: resolveApproval_def restricted_def reviewable_def sandbox_profile_def Get_approval_def
          split: if_splits option.splits bool.splits)
  qed
qed

definition approval0 :: approval where
  "approval0 = \<lparr>ap_id = ''a1'', ap_sandbox = ''sb'', ap_tool = ''shell'', ap_action = ''ls'', ap_reason = [], ap_created = 1\<rparr>"

definition manager_waiting :: "int manager" where
  "manager_waiting = manager0\<lparr>mg_approvals := \<lparr>ap_pending = [(''a1'', approval0)], ap_chan = (\<lambda>_. None)\<rparr>\<rparr>"

lemma resolve_alice:
  "\<exists>m'. resolveApproval (\<lambda>_ _. None) prims0 (Some alice) [] [] [] ''a1'' True manager_waiting = ((200, Some ()), m')"
proof -
  have "MayApprove (Some alice)" "reviewable (\<lambda>_ _. None) (Some alice) manager_waiting approval0"
    by (simp_all add: MayApprove_def alice_def reviewable_def sandbox_profile_def manager_waiting_def manager0_def
        approval0_def CanApproveProfile_def)
  moreover have "Get_approval ''a1'' (mg_approvals manager_waiting) = Some approval0"
    by (simp add: Get_approval_def manager_waiting_def)
  moreover obtain m' where "ResolveApproval prims0 ''a1'' True (approver (Some alice) [] [] []) manager_waiting = (True, m')"
    by (simp add: ResolveApproval_def ResolveView_def manager_waiting_def Let_def)
  ultimately show ?thesis by (simp add: resolveApproval_def)
qed

theorem approval_needs_reviewer_witness:
  "\<exists>m' ev. resolveApproval (\<lambda>_ _. None) prims0 (Some alice) [] [] [] ''a1'' True manager_waiting = ((200, Some ()), m') \<and>
     mg_audit m' = mg_audit manager_waiting @ [ev] \<and> ev_verdict ev = VerdictAllow"
proof -
  obtain m' where r: "resolveApproval (\<lambda>_ _. None) prims0 (Some alice) [] [] [] ''a1'' True manager_waiting = ((200, Some ()), m')"
    using resolve_alice by blast
  from approval_needs_reviewer [OF r] r show ?thesis by auto
qed

text \<open>
  A worker cannot act under another worker's name: with authentication on, whatever owner the body
  of the request names, a task that the claim endpoint hands out is owned by the authenticated
  principal, and a completion that is answered with 200 was of a task claimed by that principal.
\<close>

theorem worker_identity_is_authenticated:
  "(handleClaimTask J T io now nonce (Some pr) fid body m = ((200, Some (Some t)), m1) \<longrightarrow> tk_owner t = pc_name pr) \<and>
   (handleCompleteTask J T io now (Some pr) fid tid req m = ((200, Some ()), m2) \<longrightarrow>
      (\<exists>f t. fleet_of fid m = Some f \<and> Get tid (fl_board f) = Some t \<and> tk_state t = StateClaimed \<and> tk_owner t = pc_name pr))"
proof (intro conjI impI)
  assume "handleClaimTask J T io now nonce (Some pr) fid body m = ((200, Some (Some t)), m1)"
  then show "tk_owner t = pc_name pr"
    by (auto simp: handleClaimTask_def taskOwner_principal dest: ClaimTask_owner split: option.splits prod.splits sum.splits)
next
  assume "handleCompleteTask J T io now (Some pr) fid tid req m = ((200, Some ()), m2)"
  then show "\<exists>f t. fleet_of fid m = Some f \<and> Get tid (fl_board f) = Some t \<and> tk_state t = StateClaimed \<and> tk_owner t = pc_name pr"
    by (auto simp: handleCompleteTask_def taskOwner_principal dest!: CompleteTask_holder trim_space_Nil_name
        split: option.splits prod.splits)
qed

lemma complete_w1:
  "\<exists>token m'. CompleteTask json1 (tok1 lease1) Fleet_Control.io_fine 7 ''f'' ''a'' ''w1'' token ''r'' ctl2 = (None, m')"
proof -
  obtain token where tk: "issueTaskLease (tok1 lease1) ''k'' 6 (Some ''n'') ''f'' claimed1 = Some token"
    by (simp add: issueTaskLease_def Let_def)
  have claimed: "tk_lease_version claimed1 = 1" "tk_id claimed1 = ''a''" "tk_owner claimed1 = ''w1''"
      "tk_state claimed1 = StateClaimed" "tk_lease_expiry claimed1 = 10000000006"
    by (simp_all add: claimed1_def claim_task_def new_task_def)
  have "verifyTaskLease (tok1 lease1) ''k'' 7 token ''f'' ''a'' ''w1'' 1"
    using verify_issued [OF tok1_ok claimed1_json _ tk] claimed
    by (simp add: lease_claims_for_def unix_secs_def)
  then show ?thesis
    using ctl2_task claimed ctl2_fields by (auto simp: CompleteTask_def Complete_def saveFleets_def Get_def)
qed

theorem worker_identity_is_authenticated_witness:
  "\<exists>q m' f t. handleCompleteTask json1 (tok1 lease1) Fleet_Control.io_fine 7 (Some (alice\<lparr>pc_name := ''w1''\<rparr>)) ''f'' ''a''
      (Some (q\<lparr>tkq_owner := ''mallory''\<rparr>)) ctl2 = ((200, Some ()), m') \<and>
     fleet_of ''f'' ctl2 = Some f \<and> Get ''a'' (fl_board f) = Some t \<and> tk_owner t = ''w1''"
proof -
  let ?pr = "alice\<lparr>pc_name := ''w1''\<rparr>"
  obtain token m' where c: "CompleteTask json1 (tok1 lease1) Fleet_Control.io_fine 7 ''f'' ''a'' ''w1'' token ''r'' ctl2 = (None, m')"
    using complete_w1 by blast
  define q where "q = \<lparr>tkq_owner = [], tkq_lease_token = token, tkq_result = ''r'', tkq_error = [], tkq_requeue = False\<rparr>"
  have "taskOwnerFromRequest (Some ?pr) ''mallory'' = Some ''w1''" by code_simp
  with c have h: "handleCompleteTask json1 (tok1 lease1) Fleet_Control.io_fine 7 (Some ?pr) ''f'' ''a''
      (Some (q\<lparr>tkq_owner := ''mallory''\<rparr>)) ctl2 = ((200, Some ()), m')"
    by (simp add: handleCompleteTask_def q_def)
  with worker_identity_is_authenticated
  have "\<exists>f t. fleet_of ''f'' ctl2 = Some f \<and> Get ''a'' (fl_board f) = Some t \<and> tk_state t = StateClaimed \<and> tk_owner t = pc_name ?pr"
    by blast
  with h show ?thesis by auto
qed

text \<open>The observer's stream and the history it starts from.\<close>

lemma stream_live_filter:
  "sorted_wrt (<) (map cm_id live) \<Longrightarrow> stream_live k live = filter (\<lambda>msg. k < cm_id msg) live"
proof (induction live arbitrary: k)
  case (Cons msg live)
  have "filter (\<lambda>m. cm_id msg < cm_id m) live = live" using Cons.prems by (auto intro!: filter_True)
  moreover have "filter (\<lambda>m. k < cm_id m) live = live" if "k < cm_id msg"
    using that Cons.prems by (auto intro!: filter_True)
  ultimately show ?case using Cons by auto
qed simp

lemma numbered_suffix:
  assumes "map cm_id (P @ Q) = [1..<Suc (length (P @ Q))]" "suffix live (P @ Q)" "length Q \<le> length live"
  shows "filter (\<lambda>msg. length P < cm_id msg) live = Q" "sorted_wrt (<) (map cm_id live)"
proof -
  obtain pre where pre: "P @ Q = pre @ live" using assms(2) by (auto simp: suffix_def)
  have "length P + length Q = length pre + length live" using arg_cong [OF pre, of length] by simp
  then have len: "length pre \<le> length P" using assms(3) by simp
  then obtain mid where mid: "P = pre @ mid" "live = mid @ Q"
    using pre by (auto simp: append_eq_append_conv2)
  have ids: "cm_id ((P @ Q) ! i) = Suc i" if "i < length (P @ Q)" for i
    using that arg_cong [OF assms(1), of "\<lambda>xs. xs ! i"] by (simp del: upt_Suc map_append length_append)
  have "cm_id msg \<le> length P" if msg: "msg \<in> set P" for msg
  proof -
    obtain i where "i < length P" "P ! i = msg" using msg by (auto simp: in_set_conv_nth)
    then show ?thesis using ids [of i] by (simp add: nth_append)
  qed
  moreover have "length P < cm_id msg" if msg: "msg \<in> set Q" for msg
  proof -
    obtain j where "j < length Q" "Q ! j = msg" using msg by (auto simp: in_set_conv_nth)
    then show ?thesis using ids [of "length P + j"] by simp
  qed
  ultimately show "filter (\<lambda>msg. length P < cm_id msg) live = Q"
    using mid by (auto simp: filter_empty_conv not_less intro!: filter_True)
  have "sorted_wrt (<) (map cm_id (P @ Q))" unfolding assms(1) by (rule sorted_wrt_upt)
  then show "sorted_wrt (<) (map cm_id live)" unfolding pre by (simp add: sorted_wrt_append)
qed

text \<open>
  An observer sees every message once and in order: whatever other requests did to the hub before
  the connection and between its subscription and the reading of the history, the stream first sends
  the most recent messages, at most 500, and then, when the channel delivers the messages published
  since the subscription without loss, exactly those messages that the history did not contain.
\<close>

theorem stream_sends_each_message_once:
  assumes "session_of sb m \<noteq> None"
    and "h2 = foldl hub_step (snd (hub_subscribe sb (foldl hub_step Map.empty es))) mid"
    and "P = published sb (es @ CSubscribe sb # mid) Map.empty []"
    and "map cm_id (P @ later) = [1..<Suc (length (P @ later))]" "suffix live (P @ later)" "length later \<le> length live"
  shows "fst (handleConversationStream sb m mid live (foldl hub_step Map.empty es)) =
    Inr (drop (length P - 500) P @ later)"
proof -
  have h2: "h2 = foldl hub_step Map.empty (es @ CSubscribe sb # mid)" using assms(2) by simp
  have inv: "stream_inv P (stream_of sb h2)"
    using hub_run_inv [of "[]" sb Map.empty "es @ CSubscribe sb # mid"] stream_inv_new assms(3) h2
    by (simp add: stream_of_def)
  have hist: "hub_history sb 0 500 h2 = drop (length P - 500) P"
    using history_of_stream [OF inv, of 500 0] by (simp add: conversationHistoryLimit_def)
  have "stream_live (if drop (length P - 500) P = [] then 0 else cm_id (last (drop (length P - 500) P))) live = later"
  proof -
    have "(if drop (length P - 500) P = [] then 0 else cm_id (last (drop (length P - 500) P))) = length P"
    proof (cases "P = []")
      case False
      have "map cm_id P = [1..<Suc (length P)]" using inv by (simp add: stream_inv_def)
      then have "cm_id (last P) = length P"
        using False by (metis last_map last_upt One_nat_def Suc_less_eq diff_Suc_1 length_greater_0_conv)
      moreover have "length P - 500 < length P" using False by (simp add: diff_less)
      ultimately show ?thesis by (simp add: last_drop)
    qed simp
    then show ?thesis using numbered_suffix [OF assms(4-6)] by (simp add: stream_live_filter)
  qed
  then show ?thesis
    using assms(1) hist h2 assms(2)
    by (simp add: handleConversationStream_def SubscribeConversation_def ConversationHistory_def
        conversationHistoryLimit_def split_beta Let_def)
qed

theorem stream_sends_each_message_once_witness:
  "fst (handleConversationStream ''sb'' manager0 [CPublish (\<lambda>_. False) (msg0 ''y'')]
     [(msg0 ''y'')\<lparr>cm_id := 2\<rparr>, (msg0 ''z'')\<lparr>cm_id := 3\<rparr>] (foldl hub_step Map.empty [CPublish (\<lambda>_. False) (msg0 ''x'')])) =
   Inr [(msg0 ''x'')\<lparr>cm_id := 1\<rparr>, (msg0 ''y'')\<lparr>cm_id := 2\<rparr>, (msg0 ''z'')\<lparr>cm_id := 3\<rparr>]"
proof -
  let ?es = "[CPublish (\<lambda>_. False) (msg0 ''x'')]" and ?mid = "[CPublish (\<lambda>_. False) (msg0 ''y'')]"
  have P: "published ''sb'' (?es @ CSubscribe ''sb'' # ?mid) Map.empty [] = [(msg0 ''x'')\<lparr>cm_id := 1\<rparr>, (msg0 ''y'')\<lparr>cm_id := 2\<rparr>]"
    by (simp add: msg0_def hub_publish_def hub_subscribe_def stream_of_def new_stream_def Let_def)
  have "session_of ''sb'' manager0 \<noteq> None" by (simp add: session_of_def manager0_def)
  from stream_sends_each_message_once [OF this refl P [symmetric], of "[(msg0 ''z'')\<lparr>cm_id := 3\<rparr>]"
      "[(msg0 ''y'')\<lparr>cm_id := 2\<rparr>, (msg0 ''z'')\<lparr>cm_id := 3\<rparr>]"]
  show ?thesis by (simp add: suffix_def upt_rec)
qed

end
