(* ===== verification/Agent_Sessions.thy ===== *)
theory Agent_Sessions
  imports Executor Fleet_Control Decision_Log "HOL-Library.AList"
begin

text \<open>
  Observable agent commands (\<^verbatim>\<open>internal/controlplane/agent_sessions.go\<close>): a session record per command, a
  transcript of numbered events in memory and in a file, live subscribers, and what a restart of the
  control plane makes of it. \<^verbatim>\<open>agentMu\<close> makes each operation one step. The clock and the outcome of the
  file append for the event with a given sequence number are the argument \<open>env\<close>; JSON is a parameter.
\<close>

section \<open>Data\<close>

definition agentSessionsFileName :: string where
  "agentSessionsFileName = ''agent-sessions.json''"

definition maxAgentEventBytes :: nat where
  "maxAgentEventBytes = 32768"

definition maxAgentEventsMemory :: nat where
  "maxAgentEventsMemory = 2048"

definition maxAgentTranscriptBytes :: nat where
  "maxAgentTranscriptBytes = 67108864"

record agent_event =
  ae_seq :: int
  ae_time :: gotime
  ae_stream :: string
  ae_data :: string

record agent_session =
  as_id :: string
  as_citadel :: string
  as_tenant :: string
  as_actor :: string
  as_agent :: string
  as_model :: string
  as_cohort :: string
  as_task :: string
  as_command :: "string list"
  as_status :: string
  as_exit_code :: "int option"
  as_error :: string
  as_created :: gotime
  as_started :: "gotime option"
  as_finished :: "gotime option"
  as_last_seq :: int
  as_truncated :: bool
  as_events :: "agent_event list"

record start_options =
  so_command :: "string list"
  so_agent :: string
  so_model :: string
  so_cohort :: string
  so_task :: string

record agent_codec =
  aj_sessions :: "agent_session list \<Rightarrow> string option"
  aj_load :: "string \<Rightarrow> agent_session list option"
  aj_event :: "agent_event \<Rightarrow> string option"
  aj_event_load :: "string \<Rightarrow> agent_event option"

text \<open>\<open>ag_subs\<close> gives the subscribers of a session with the events buffered in their channels, and
  \<open>ag_transcripts\<close> the directory \<^verbatim>\<open>agent-sessions\<close>. \<open>ag_cancels\<close> lists the sessions with a cancel
  function, \<open>ag_cancelled\<close> those whose context was cancelled.\<close>

record agent_state =
  ag_sessions :: "(string \<times> agent_session) list"
  ag_subs :: "string \<Rightarrow> (nat \<times> agent_event list) list"
  ag_cancels :: "string list"
  ag_cancelled :: "string list"
  ag_state_dir :: string
  ag_files :: files
  ag_transcripts :: files

datatype append_fault = ApOpen | ApStat | ApWrite nat

type_synonym event_env = "int \<Rightarrow> gotime \<times> append_fault option"

definition agent_of :: "string \<Rightarrow> agent_state \<Rightarrow> agent_session option" where
  "agent_of aid st = map_of (ag_sessions st) aid"

definition cloneAgentSession :: "agent_session \<Rightarrow> agent_session" where
  "cloneAgentSession a = a\<lparr>as_events := []\<rparr>"

definition put_agent :: "agent_session \<Rightarrow> agent_state \<Rightarrow> agent_state" where
  "put_agent a st = st\<lparr>ag_sessions := AList.update (as_id a) a (ag_sessions st)\<rparr>"

definition eventsAfter :: "agent_event list \<Rightarrow> int \<Rightarrow> agent_event list" where
  "eventsAfter events after = filter (\<lambda>ev. ae_seq ev > after) events"

definition agentSessionTerminal :: "string \<Rightarrow> bool" where
  "agentSessionTerminal status \<longleftrightarrow>
     status \<in> {''completed'', ''failed'', ''denied'', ''canceled'', ''interrupted''}"

definition hex_digit :: "char \<Rightarrow> bool" where
  "hex_digit c \<longleftrightarrow> c \<in> set ''0123456789abcdefABCDEF''"

definition validAgentSessionID :: "string \<Rightarrow> bool" where
  "validAgentSessionID aid \<longleftrightarrow> length aid = 32 \<and> list_all hex_digit aid"

section \<open>Transcript files\<close>

definition transcript_name :: "string \<Rightarrow> string" where
  "transcript_name aid = aid @ ''.jsonl''"

definition persistAgentEventLocked ::
  "agent_codec \<Rightarrow> append_fault option \<Rightarrow> string \<Rightarrow> agent_event \<Rightarrow> agent_state \<Rightarrow> bool \<times> agent_state" where
  "persistAgentEventLocked J fault aid ev st =
     (if ag_state_dir st = [] \<or> \<not> validAgentSessionID aid then (True, st)
      else if fault = Some ApOpen then (False, st)
      else
        (let name = transcript_name aid;
             old = (case ag_transcripts st name of None \<Rightarrow> [] | Some b \<Rightarrow> b);
             put = (\<lambda>b. st\<lparr>ag_transcripts := (ag_transcripts st)(name \<mapsto> b)\<rparr>)
         in case aj_event J ev of
              None \<Rightarrow> (False, put old)
            | Some json \<Rightarrow>
                (let line = json @ [nl] in
                 if fault = Some ApStat then (False, put old)
                 else if length old + length line > maxAgentTranscriptBytes then (False, put old)
                 else (case fault of
                         Some (ApWrite n) \<Rightarrow> (False, put (old @ take n line))
                       | _ \<Rightarrow> (True, put (old @ line))))))"

text \<open>\<^verbatim>\<open>bufio.Scanner\<close> over lines with a buffer of 256 KiB: the lines, and whether the scan reached the
  end; a line that does not fit the buffer stops it with an error.\<close>

definition maxScanLine :: nat where
  "maxScanLine = 262144"

definition drop_cr :: "string \<Rightarrow> string" where
  "drop_cr l = (if l \<noteq> [] \<and> last l = CHR 0x0D then butlast l else l)"

function scan_lines :: "string \<Rightarrow> string list \<times> bool" where
  "scan_lines s =
     (if s = [] then ([], True)
      else
        (let line = takeWhile (\<lambda>c. c \<noteq> nl) s; rest = dropWhile (\<lambda>c. c \<noteq> nl) s in
         if length line \<ge> maxScanLine then ([], False)
         else map_prod (Cons (drop_cr line)) id (scan_lines (tl rest))))"
  by pat_completeness auto

termination
proof (relation "measure length")
  fix s line rest :: string
  assume "s \<noteq> []" "rest = dropWhile (\<lambda>c. c \<noteq> nl) s"
  then have "length rest \<le> length s" by (simp add: length_dropWhile_le)
  moreover have "length s > 0" using \<open>s \<noteq> []\<close> by simp
  ultimately have "length (tl rest) < length s" by (cases rest) auto
  then show "(tl rest, s) \<in> measure length" by simp
qed simp

declare scan_lines.simps [simp del]

definition loadAllAgentEventsLocked :: "agent_codec \<Rightarrow> string \<Rightarrow> agent_state \<Rightarrow> agent_event list \<times> bool" where
  "loadAllAgentEventsLocked J aid st =
     (case ag_transcripts st (transcript_name aid) of
        None \<Rightarrow> ([], True)
      | Some b \<Rightarrow> map_prod (List.map_filter (aj_event_load J)) id (scan_lines b))"

definition keep_recent :: "agent_event list \<Rightarrow> agent_event list" where
  "keep_recent events = (if length events > maxAgentEventsMemory then drop (length events - maxAgentEventsMemory) events else events)"

definition loadAgentEventsLocked :: "agent_codec \<Rightarrow> string \<Rightarrow> agent_state \<Rightarrow> agent_event list" where
  "loadAgentEventsLocked J aid st = keep_recent (fst (loadAllAgentEventsLocked J aid st))"

definition agentEventsAfterLocked :: "agent_codec \<Rightarrow> agent_state \<Rightarrow> agent_session \<Rightarrow> int \<Rightarrow> agent_event list" where
  "agentEventsAfterLocked J st a after =
     (if as_events a = [] \<or> after \<ge> ae_seq (hd (as_events a)) - 1 \<or> ag_state_dir st = []
      then eventsAfter (as_events a) after
      else
        (let (persisted, ok) = loadAllAgentEventsLocked J (as_id a) st in
         if \<not> ok \<or> persisted = [] then eventsAfter (as_events a) after
         else eventsAfter (persisted @ filter (\<lambda>ev. ae_seq ev > ae_seq (last persisted)) (as_events a)) after))"

section \<open>Appending events\<close>

definition send_event :: "agent_event \<Rightarrow> nat \<times> agent_event list \<Rightarrow> nat \<times> agent_event list" where
  "send_event ev = (\<lambda>(i, ch). (i, if length ch < 256 then ch @ [ev] else ch))"

definition push_event :: "agent_event \<Rightarrow> agent_event list \<Rightarrow> agent_event list" where
  "push_event ev events = keep_recent (events @ [ev])"

definition append_one :: "agent_codec \<Rightarrow> event_env \<Rightarrow> string \<Rightarrow> string \<Rightarrow> string \<Rightarrow> agent_state \<Rightarrow> agent_state" where
  "append_one J env aid stream data st =
     (case agent_of aid st of
        None \<Rightarrow> st
      | Some a \<Rightarrow>
          (let seq = as_last_seq a + 1;
               ev = \<lparr>ae_seq = seq, ae_time = fst (env seq), ae_stream = stream, ae_data = data\<rparr>;
               (ok, st1) = (if as_truncated a then (False, st) else persistAgentEventLocked J (snd (env seq)) aid ev st);
               a1 = a\<lparr>as_last_seq := seq, as_events := push_event ev (as_events a), as_truncated := \<not> ok\<rparr>
           in (st1\<lparr>ag_sessions := AList.update aid a1 (ag_sessions st1),
                   ag_subs := (ag_subs st1)(aid := map (send_event ev) (ag_subs st1 aid))\<rparr>)))"

function appendAgentEvent :: "agent_codec \<Rightarrow> event_env \<Rightarrow> string \<Rightarrow> string \<Rightarrow> string \<Rightarrow> agent_state \<Rightarrow> agent_state" where
  "appendAgentEvent J env aid stream data st =
     (if data = [] then st
      else if length data > maxAgentEventBytes
      then appendAgentEvent J env aid stream (drop maxAgentEventBytes data)
             (append_one J env aid stream (take maxAgentEventBytes data) st)
      else append_one J env aid stream data st)"
  by pat_completeness auto

termination
  by (relation "measure (\<lambda>(J, env, aid, stream, data, st). length data)") (simp_all add: maxAgentEventBytes_def)

declare appendAgentEvent.simps [simp del]

section \<open>The output writers\<close>

text \<open>The loop of \<^verbatim>\<open>Write\<close>: the pieces it emits and the bytes it keeps.\<close>

function write_loop :: "string \<Rightarrow> string list \<times> string" where
  "write_loop pending =
     (let line = takeWhile (\<lambda>c. c \<noteq> nl) pending in
      if line = pending \<and> length pending \<le> maxAgentEventBytes then ([], pending)
      else
        (let end' = (if line = pending \<or> Suc (length line) > maxAgentEventBytes then maxAgentEventBytes else Suc (length line));
             (pieces, rest) = write_loop (drop end' pending)
         in (take end' pending # pieces, rest)))"
  by pat_completeness auto

termination
proof (relation "measure length")
  fix pending line :: string and end' :: nat
  assume "line = takeWhile (\<lambda>c. c \<noteq> nl) pending" "\<not> (line = pending \<and> length pending \<le> maxAgentEventBytes)"
    "end' = (if line = pending \<or> Suc (length line) > maxAgentEventBytes then maxAgentEventBytes else Suc (length line))"
  moreover from this have "pending \<noteq> []" by (auto simp: maxAgentEventBytes_def)
  ultimately show "(drop end' pending, pending) \<in> measure length" by (simp add: maxAgentEventBytes_def)
qed simp

declare write_loop.simps [simp del]

record event_writer =
  ew_session :: string
  ew_stream :: string
  ew_pending :: string

definition emit :: "agent_codec \<Rightarrow> event_env \<Rightarrow> (string \<Rightarrow> string) \<Rightarrow> event_writer \<Rightarrow> string \<Rightarrow> agent_state \<Rightarrow> agent_state" where
  "emit J env scrub w data st = appendAgentEvent J env (ew_session w) (ew_stream w) (scrub data) st"

definition writer_Write ::
  "agent_codec \<Rightarrow> event_env \<Rightarrow> (string \<Rightarrow> string) \<Rightarrow> string \<Rightarrow> event_writer \<times> agent_state \<Rightarrow> event_writer \<times> agent_state" where
  "writer_Write J env scrub p = (\<lambda>(w, st).
     (let (pieces, rest) = write_loop (ew_pending w @ p)
      in (w\<lparr>ew_pending := rest\<rparr>, fold (emit J env scrub w) pieces st)))"

definition writer_Flush ::
  "agent_codec \<Rightarrow> event_env \<Rightarrow> (string \<Rightarrow> string) \<Rightarrow> event_writer \<times> agent_state \<Rightarrow> event_writer \<times> agent_state" where
  "writer_Flush J env scrub = (\<lambda>(w, st).
     (if ew_pending w \<noteq> [] then (w\<lparr>ew_pending := []\<rparr>, emit J env scrub w (ew_pending w) st) else (w, st)))"

section \<open>Persistence of the records\<close>

definition saveAgentSessions :: "agent_codec \<Rightarrow> state_io \<Rightarrow> agent_state \<Rightarrow> bool \<times> agent_state" where
  "saveAgentSessions J io st =
     (case aj_sessions J (sort_key as_created (map (cloneAgentSession \<circ> snd) (ag_sessions st))) of
        None \<Rightarrow> (False, st)
      | Some data \<Rightarrow>
          (let (err, _, fs) = writeStateFile io (ag_state_dir st) agentSessionsFileName data (ag_files st)
           in (err = None, st\<lparr>ag_files := fs\<rparr>)))"

definition settle :: "gotime \<Rightarrow> agent_session \<Rightarrow> agent_session" where
  "settle now a =
     (let lastStatus = (if as_events a \<noteq> [] \<and> ae_stream (last (as_events a)) = ''status'' then ae_data (last (as_events a)) else []) in
      if agentSessionTerminal lastStatus then a\<lparr>as_status := lastStatus, as_finished := Some now\<rparr>
      else a\<lparr>as_status := ''interrupted'', as_error := ''control plane restarted before the agent session completed'',
             as_finished := Some now\<rparr>)"

definition unfinished :: "agent_session \<Rightarrow> bool" where
  "unfinished a \<longleftrightarrow> as_status a = ''queued'' \<or> as_status a = ''running''"

definition catch_up :: "agent_session \<Rightarrow> agent_session" where
  "catch_up a = (if as_events a \<noteq> [] \<and> ae_seq (last (as_events a)) > as_last_seq a
                 then a\<lparr>as_last_seq := ae_seq (last (as_events a))\<rparr> else a)"

definition load_agent :: "agent_codec \<Rightarrow> gotime \<Rightarrow> agent_session \<Rightarrow> agent_state \<Rightarrow> agent_state" where
  "load_agent J now a st =
     (if \<not> validAgentSessionID (as_id a) then st
      else
        (let a1 = a\<lparr>as_events := loadAgentEventsLocked J (as_id a) st\<rparr>;
             a2 = (if unfinished a1 then settle now a1 else a1)
         in put_agent (catch_up a2) st))"

text \<open>\<open>readable\<close>: reading the file gives no error other than that it does not exist.\<close>

definition loadAgentSessions :: "agent_codec \<Rightarrow> state_io \<Rightarrow> gotime \<Rightarrow> bool \<Rightarrow> agent_state \<Rightarrow> bool \<times> agent_state" where
  "loadAgentSessions J io now readable st =
     (if ag_state_dir st = [] then (True, st)
      else if \<not> readable then (False, st)
      else
        (case ag_files st agentSessionsFileName of
           None \<Rightarrow> (True, st)
         | Some data \<Rightarrow>
             (case aj_load J data of
                None \<Rightarrow> (False, st)
              | Some sessions \<Rightarrow>
                  (let st1 = fold (load_agent J now) sessions st in
                   if list_ex (\<lambda>a. validAgentSessionID (as_id a) \<and> unfinished a) sessions
                   then saveAgentSessions J io st1 else (True, st1)))))"

section \<open>Running a session\<close>

datatype agent_error = AgentNoSandbox | AgentNoCommand | AgentNoCohort | AgentNotMember | AgentNoTask | AgentPersist

definition cohort_check :: "string \<Rightarrow> start_options \<Rightarrow> fleetctl \<Rightarrow> agent_error option" where
  "cohort_check citadelID opts fc =
     (if so_cohort opts = [] then None
      else (case fleet_of (so_cohort opts) fc of
              None \<Rightarrow> Some AgentNoCohort
            | Some f \<Rightarrow>
                if citadelID \<notin> set (fl_sandboxes f) then Some AgentNotMember
                else if so_task opts \<noteq> [] \<and> Get (so_task opts) (fl_board f) = None then Some AgentNoTask
                else None))"

definition session_actor :: "string option \<Rightarrow> 'c session \<Rightarrow> string" where
  "session_actor ctx sess =
     (case ctx of
        Some current \<Rightarrow> if trim_space current \<noteq> [] then trim_space current else ss_actor sess
      | None \<Rightarrow> ss_actor sess)"

definition session_scrub :: "scrubprims \<Rightarrow> 'c session \<Rightarrow> string \<Rightarrow> string" where
  "session_scrub R sess s = ScrubString R (eventScrubber R sess) s (ss_secrets sess)"

definition new_agent ::
  "scrubprims \<Rightarrow> gotime \<Rightarrow> string \<Rightarrow> string option \<Rightarrow> string \<Rightarrow> start_options \<Rightarrow> 'c session \<Rightarrow> agent_session" where
  "new_agent R now newID ctx citadelID opts sess =
     \<lparr>as_id = newID, as_citadel = citadelID, as_tenant = ss_owner sess, as_actor = session_actor ctx sess,
      as_agent = trim_space (so_agent opts), as_model = trim_space (so_model opts),
      as_cohort = trim_space (so_cohort opts), as_task = trim_space (so_task opts),
      as_command = map (session_scrub R sess) (so_command opts), as_status = ''queued'',
      as_exit_code = None, as_error = [], as_created = now, as_started = None, as_finished = None,
      as_last_seq = 0, as_truncated = False, as_events = []\<rparr>"

text \<open>\<open>newID\<close> is the id that \<^verbatim>\<open>newID()\<close> returned. The command that will run is the unscrubbed one.\<close>

definition StartAgentSession ::
  "scrubprims \<Rightarrow> agent_codec \<Rightarrow> state_io \<Rightarrow> gotime \<Rightarrow> string \<Rightarrow> string option \<Rightarrow> string \<Rightarrow> start_options \<Rightarrow> 'c manager \<Rightarrow> fleetctl \<Rightarrow>
   agent_state \<Rightarrow> (agent_error, agent_session) result \<times> agent_state" where
  "StartAgentSession R J io now newID ctx citadelID opts m fc st =
     (case session_of citadelID m of
        None \<Rightarrow> (Inl AgentNoSandbox, st)
      | Some sess \<Rightarrow>
          if so_command opts = [] then (Inl AgentNoCommand, st)
          else
            (case cohort_check citadelID opts fc of
               Some e \<Rightarrow> (Inl e, st)
             | None \<Rightarrow>
                 (let a = new_agent R now newID ctx citadelID opts sess;
                      (ok, st1) = saveAgentSessions J io ((put_agent a st)\<lparr>ag_cancels := newID # ag_cancels st\<rparr>)
                  in if ok then (Inr (cloneAgentSession a), st1)
                     else (Inl AgentPersist,
                           st1\<lparr>ag_sessions := AList.delete newID (ag_sessions st1),
                               ag_cancels := filter (\<lambda>i. i \<noteq> newID) (ag_cancels st1),
                               ag_cancelled := newID # ag_cancelled st1\<rparr>))))"

definition set_running :: "gotime \<Rightarrow> string \<Rightarrow> agent_state \<Rightarrow> agent_state" where
  "set_running now aid st =
     (case agent_of aid st of
        None \<Rightarrow> st
      | Some a \<Rightarrow> st\<lparr>ag_sessions := AList.update aid (a\<lparr>as_status := ''running'', as_started := Some now\<rparr>) (ag_sessions st)\<rparr>)"

definition set_finished :: "gotime \<Rightarrow> string \<Rightarrow> string \<Rightarrow> int option \<Rightarrow> string \<Rightarrow> agent_state \<Rightarrow> agent_state" where
  "set_finished now aid status exitCode message st =
     (let st1 = (case agent_of aid st of
                   None \<Rightarrow> st
                 | Some a \<Rightarrow> st\<lparr>ag_sessions := AList.update aid
                     (a\<lparr>as_status := status, as_exit_code := exitCode, as_error := message, as_finished := Some now\<rparr>) (ag_sessions st)\<rparr>)
      in st1\<lparr>ag_cancels := filter (\<lambda>i. i \<noteq> aid) (ag_cancels st1)\<rparr>)"

definition finishAgentSession ::
  "agent_codec \<Rightarrow> event_env \<Rightarrow> state_io \<Rightarrow> gotime \<Rightarrow> string \<Rightarrow> string \<Rightarrow> int option \<Rightarrow> string \<Rightarrow> agent_state \<Rightarrow> agent_state" where
  "finishAgentSession J env io now aid status exitCode message st =
     (let st1 = set_finished now aid status exitCode message (appendAgentEvent J env aid ''status'' status st);
          (_, st2) = saveAgentSessions J io st1
      in st2\<lparr>ag_subs := (ag_subs st2)(aid := [])\<rparr>)"

definition agent_outcome :: "bool \<Rightarrow> (int \<Rightarrow> string) \<Rightarrow> (tool_error, tool_result) result \<Rightarrow> string \<times> int option \<times> string" where
  "agent_outcome canceled showInt res =
     (case res of
        Inl e \<Rightarrow>
          if canceled then (''canceled'', None, ''agent session canceled'')
          else (''failed'', None, case e of ToolExec t \<Rightarrow> t | _ \<Rightarrow> [])
      | Inr t \<Rightarrow>
          if tr_verdict t \<noteq> VerdictAllow then (''denied'', None, tr_reason t)
          else if tr_exit_code t \<noteq> 0
          then (''failed'', Some (tr_exit_code t), ''agent exited with status '' @ showInt (tr_exit_code t))
          else (''completed'', Some (tr_exit_code t), []))"

text \<open>What the process wrote, in order: \<open>True\<close> marks standard output.\<close>

fun feed_writers ::
  "agent_codec \<Rightarrow> event_env \<Rightarrow> (string \<Rightarrow> string) \<Rightarrow> (bool \<times> string) list \<Rightarrow> event_writer \<times> event_writer \<times> agent_state \<Rightarrow>
   event_writer \<times> event_writer \<times> agent_state" where
  "feed_writers J env scrub [] x = x"
| "feed_writers J env scrub ((True, p) # outs) (wo, we, st) =
     (let (wo', st') = writer_Write J env scrub p (wo, st) in feed_writers J env scrub outs (wo', we, st'))"
| "feed_writers J env scrub ((False, p) # outs) (wo, we, st) =
     (let (we', st') = writer_Write J env scrub p (we, st) in feed_writers J env scrub outs (wo, we', st'))"

text \<open>\<open>outs\<close> is what the process writes if the backend runs it, \<open>canceled\<close> whether the context of the
  session was cancelled by the time the call returned.\<close>

definition runAgentSession ::
  "'c::{zero,linorder} govprims \<Rightarrow> 'c call_env \<Rightarrow> agent_codec \<Rightarrow> event_env \<Rightarrow> state_io \<Rightarrow> state_io \<Rightarrow> (int \<Rightarrow> string) \<Rightarrow> bool \<Rightarrow>
   (bool \<times> string) list \<Rightarrow> 'c session \<Rightarrow> string \<Rightarrow> string list \<Rightarrow> 'c manager \<Rightarrow> agent_state \<Rightarrow> 'c manager \<times> agent_state" where
  "runAgentSession G cv J env ioa iob showInt canceled outs sess aid command m st =
     (let st1 = snd (saveAgentSessions J ioa (set_running (cv_now0 cv) aid st));
          st2 = appendAgentEvent J env aid ''status'' ''running'' st1;
          scrub = session_scrub (gp_scrub G) sess;
          wo = \<lparr>ew_session = aid, ew_stream = ''stdout'', ew_pending = []\<rparr>;
          we = \<lparr>ew_session = aid, ew_stream = ''stderr'', ew_pending = []\<rparr>;
          (res, exe, m') = govern G cv (ss_id sess) (tool_request cv ''shell'' (str_join command '' '') command)
                             \<lparr>er_command = command, er_workdir = ss_workdir sess, er_env = ss_env sess\<rparr> sess m;
          (wo1, we1, st3) = feed_writers J env scrub (if exe = None then [] else outs) (wo, we, st2);
          (_, st4) = writer_Flush J env scrub (wo1, st3);
          (_, st5) = writer_Flush J env scrub (we1, st4);
          (status, exitCode, message) = agent_outcome canceled showInt res
      in (m', finishAgentSession J env iob (cv_later cv) aid status exitCode message st5))"

section \<open>Reading and subscribing\<close>

definition AgentSessions :: "string \<Rightarrow> agent_state \<Rightarrow> agent_session list" where
  "AgentSessions cohortID st =
     sort_key as_created
       (map cloneAgentSession (filter (\<lambda>a. cohortID = [] \<or> as_cohort a = cohortID) (map snd (ag_sessions st))))"

definition AgentSession :: "string \<Rightarrow> agent_state \<Rightarrow> agent_session option" where
  "AgentSession aid st = map_option cloneAgentSession (agent_of aid st)"

definition AgentSessionEvents :: "agent_codec \<Rightarrow> string \<Rightarrow> int \<Rightarrow> agent_state \<Rightarrow> (agent_session \<times> agent_event list) option" where
  "AgentSessionEvents J aid after st =
     map_option (\<lambda>a. (cloneAgentSession a, agentEventsAfterLocked J st a after)) (agent_of aid st)"

text \<open>\<open>ch\<close> identifies the new channel. A finished session gives a closed channel and no subscription.\<close>

definition SubscribeAgentSession ::
  "agent_codec \<Rightarrow> nat \<Rightarrow> string \<Rightarrow> int \<Rightarrow> agent_state \<Rightarrow> (agent_session \<times> agent_event list) option \<times> agent_state" where
  "SubscribeAgentSession J ch aid after st =
     (case agent_of aid st of
        None \<Rightarrow> (None, st)
      | Some a \<Rightarrow>
          (Some (cloneAgentSession a, agentEventsAfterLocked J st a after),
           if agentSessionTerminal (as_status a) then st
           else st\<lparr>ag_subs := (ag_subs st)(aid := (ch, []) # ag_subs st aid)\<rparr>))"

definition cancel_subscription :: "string \<Rightarrow> nat \<Rightarrow> agent_state \<Rightarrow> agent_state" where
  "cancel_subscription aid ch st = st\<lparr>ag_subs := (ag_subs st)(aid := filter (\<lambda>s. fst s \<noteq> ch) (ag_subs st aid))\<rparr>"

definition cancelAgentSessions :: "string \<Rightarrow> agent_state \<Rightarrow> agent_state" where
  "cancelAgentSessions citadelID st =
     st\<lparr>ag_cancelled := filter (\<lambda>aid. citadelID = [] \<or>
          (case agent_of aid st of None \<Rightarrow> False | Some a \<Rightarrow> as_citadel a = citadelID)) (ag_cancels st) @ ag_cancelled st\<rparr>"

section \<open>The writers split output independently of how it arrives\<close>

definition line_end :: "string \<Rightarrow> nat" where
  "line_end s =
     (let line = takeWhile (\<lambda>c. c \<noteq> nl) s in
      if line = s \<or> Suc (length line) > maxAgentEventBytes then maxAgentEventBytes else Suc (length line))"

definition complete :: "string \<Rightarrow> bool" where
  "complete s \<longleftrightarrow> nl \<in> set s \<or> length s > maxAgentEventBytes"

lemma takeWhile_all: "takeWhile (\<lambda>c. c \<noteq> nl) s = s \<longleftrightarrow> nl \<notin> set s"
  by (auto simp: takeWhile_eq_all_conv)

lemma complete_iff: "complete s \<longleftrightarrow> \<not> (takeWhile (\<lambda>c. c \<noteq> nl) s = s \<and> length s \<le> maxAgentEventBytes)"
  unfolding complete_def takeWhile_all by auto

lemma write_loop_unfold:
  "write_loop s =
     (if \<not> complete s then ([], s)
      else (take (line_end s) s # fst (write_loop (drop (line_end s) s)), snd (write_loop (drop (line_end s) s))))"
  by (subst write_loop.simps) (simp only: complete_iff line_end_def Let_def split_beta not_not if_not_P split: if_split)

lemma line_end_no_newline: "nl \<notin> set s \<Longrightarrow> line_end s = maxAgentEventBytes"
  unfolding line_end_def Let_def takeWhile_all by simp

lemma line_end_newline:
  "nl \<in> set s \<Longrightarrow> line_end s = min maxAgentEventBytes (Suc (length (takeWhile (\<lambda>c. c \<noteq> nl) s)))"
  unfolding line_end_def Let_def takeWhile_all by (simp add: min_def)

lemma line_end_bounds: "complete s \<Longrightarrow> 0 < line_end s \<and> line_end s \<le> length s \<and> line_end s \<le> maxAgentEventBytes"
proof (cases "nl \<in> set s")
  case True
  then have "takeWhile (\<lambda>c. c \<noteq> nl) s \<noteq> s" unfolding takeWhile_all by simp
  then have "length (takeWhile (\<lambda>c. c \<noteq> nl) s) < length s"
    by (metis length_takeWhile_le le_neq_implies_less takeWhile_eq_take take_all_iff order_refl)
  moreover have "0 < maxAgentEventBytes" by (simp add: maxAgentEventBytes_def)
  ultimately show ?thesis unfolding line_end_newline [OF True] by auto
next
  case False
  moreover have "0 < maxAgentEventBytes" by (simp add: maxAgentEventBytes_def)
  moreover assume "complete s"
  ultimately show ?thesis unfolding line_end_no_newline [OF False] complete_def by simp
qed

lemma line_end_append: "complete s \<Longrightarrow> line_end (s @ t) = line_end s"
proof (cases "nl \<in> set s")
  case True
  then have "takeWhile (\<lambda>c. c \<noteq> nl) (s @ t) = takeWhile (\<lambda>c. c \<noteq> nl) s" by (intro takeWhile_append1) auto
  then show ?thesis using True line_end_newline [of s] line_end_newline [of "s @ t"] by simp
next
  case False
  assume "complete s"
  moreover have "length (takeWhile (\<lambda>c. c \<noteq> nl) (s @ t)) \<ge> length s" using False by (subst takeWhile_append2) auto
  ultimately show ?thesis
    using False line_end_no_newline [of s] line_end_no_newline [of "s @ t"] line_end_newline [of "s @ t"]
    by (cases "nl \<in> set t") (simp_all add: complete_def)
qed

lemma complete_append: "complete s \<Longrightarrow> complete (s @ t)"
  by (auto simp: complete_def)

lemma write_loop_concat: "concat (fst (write_loop s)) @ snd (write_loop s) = s"
proof (induction s rule: measure_induct_rule [of length])
  case (less s)
  show ?case
  proof (cases "complete s")
    case True
    then have "length (drop (line_end s) s) < length s" using line_end_bounds by fastforce
    from less.IH [OF this] True show ?thesis by (subst (1 2) write_loop_unfold) simp
  qed (simp add: write_loop_unfold [of s])
qed

lemma write_loop_append:
  "write_loop (a @ b) = (fst (write_loop a) @ fst (write_loop (snd (write_loop a) @ b)), snd (write_loop (snd (write_loop a) @ b)))"
proof (induction a rule: measure_induct_rule [of length])
  case (less a)
  show ?case
  proof (cases "complete a")
    case True
    let ?e = "line_end a"
    have e: "?e \<le> length a" "length (drop ?e a) < length a" using line_end_bounds [OF True] by auto
    have "write_loop (a @ b) = (take ?e a # fst (write_loop (drop ?e a @ b)), snd (write_loop (drop ?e a @ b)))"
      using e by (subst write_loop_unfold) (simp add: complete_append True line_end_append)
    moreover have "write_loop a = (take ?e a # fst (write_loop (drop ?e a)), snd (write_loop (drop ?e a)))"
      by (subst write_loop_unfold) (simp add: True)
    ultimately show ?thesis using less.IH [OF e(2)] by simp
  qed (simp add: write_loop_unfold [of a])
qed

lemma write_loop_pieces:
  "piece \<in> set (fst (write_loop s)) \<Longrightarrow> piece \<noteq> [] \<and> length piece \<le> maxAgentEventBytes"
proof (induction s rule: measure_induct_rule [of length])
  case (less s)
  show ?case
  proof (cases "complete s")
    case True
    then have b: "0 < line_end s" "line_end s \<le> length s" "line_end s \<le> maxAgentEventBytes" using line_end_bounds by auto
    have "piece = take (line_end s) s \<or> piece \<in> set (fst (write_loop (drop (line_end s) s)))"
      using less.prems True by (subst (asm) write_loop_unfold) simp
    then show ?thesis
    proof
      assume "piece = take (line_end s) s"
      with b show ?thesis by auto
    next
      assume "piece \<in> set (fst (write_loop (drop (line_end s) s)))"
      with b less.IH [of "drop (line_end s) s"] show ?thesis by simp
    qed
  qed (use less.prems in \<open>simp add: write_loop_unfold [of s]\<close>)
qed

text \<open>The pieces that a stream of output is cut into.\<close>

definition output_pieces :: "string \<Rightarrow> string list" where
  "output_pieces s = fst (write_loop s) @ (if snd (write_loop s) = [] then [] else [snd (write_loop s)])"

lemma output_pieces_concat: "concat (output_pieces s) = s"
  using write_loop_concat [of s] by (cases "snd (write_loop s) = []") (simp_all add: output_pieces_def)

section \<open>The transcript\<close>

interpretation transcript: bounded_log push_event "\<lambda>events. events" "\<lambda>events. length events \<le> maxAgentEventsMemory"
  maxAgentEventsMemory
  by unfold_locales (auto simp: push_event_def keep_recent_def maxAgentEventsMemory_def drop_Suc)

lemma push_event_recent: "push_event ev (transcript.recent P) = transcript.recent (P @ [ev])"
proof -
  have "length (transcript.recent P) \<le> maxAgentEventsMemory" by (simp add: transcript.recent_def)
  then show ?thesis using transcript.push_entries transcript.recent_snoc by simp
qed

definition event_line :: "agent_codec \<Rightarrow> agent_event \<Rightarrow> string" where
  "event_line J ev = the (aj_event J ev) @ [nl]"

definition transcript_bytes :: "string \<Rightarrow> agent_state \<Rightarrow> string" where
  "transcript_bytes aid st = (case ag_transcripts st (transcript_name aid) of None \<Rightarrow> [] | Some b \<Rightarrow> b)"

text \<open>\<open>P\<close> lists all events that were appended to the session: they are numbered from 1, the record has the
  last number and the most recent events, and a transcript that is not truncated has a line for each.\<close>

definition event_fits :: "agent_event \<Rightarrow> bool" where
  "event_fits ev \<longleftrightarrow> length (ae_data ev) \<le> maxAgentEventBytes \<and> ae_stream ev \<in> {''stdout'', ''stderr'', ''status''}"

definition agent_inv :: "agent_codec \<Rightarrow> string \<Rightarrow> agent_event list \<Rightarrow> agent_state \<Rightarrow> bool" where
  "agent_inv J aid P st \<longleftrightarrow>
     (\<exists>a. agent_of aid st = Some a \<and> as_id a = aid \<and> map ae_seq P = map int [1..<Suc (length P)] \<and>
        as_last_seq a = int (length P) \<and> as_events a = transcript.recent P \<and> list_all event_fits P \<and>
        (ag_state_dir st \<noteq> [] \<and> validAgentSessionID aid \<and> \<not> as_truncated a \<longrightarrow>
           transcript_bytes aid st = concat (map (event_line J) P) \<and> (\<forall>ev \<in> set P. aj_event J ev \<noteq> None)))"

lemma agent_of_update [simp]:
  "map_of (AList.update aid a xs) = (map_of xs)(aid \<mapsto> a)"
  by (simp add: update_conv')

lemma append_one_inv:
  assumes "agent_inv J aid P st" "length data \<le> maxAgentEventBytes" "stream \<in> {''stdout'', ''stderr'', ''status''}"
  shows "\<exists>ev. ae_stream ev = stream \<and> ae_data ev = data \<and> agent_inv J aid (P @ [ev]) (append_one J env aid stream data st)"
proof -
  obtain a where a: "agent_of aid st = Some a" "as_id a = aid" "map ae_seq P = map int [1..<Suc (length P)]"
    "as_last_seq a = int (length P)" "as_events a = transcript.recent P" "list_all event_fits P"
    "ag_state_dir st \<noteq> [] \<and> validAgentSessionID aid \<and> \<not> as_truncated a \<Longrightarrow>
       transcript_bytes aid st = concat (map (event_line J) P) \<and> (\<forall>ev \<in> set P. aj_event J ev \<noteq> None)"
    using assms(1) unfolding agent_inv_def by blast
  define seq where "seq = int (length P) + 1"
  define ev where "ev = \<lparr>ae_seq = seq, ae_time = fst (env seq), ae_stream = stream, ae_data = data\<rparr>"
  have seq': "as_last_seq a + 1 = seq" by (simp add: a(4) seq_def)
  obtain ok st1 where p: "(if as_truncated a then (False, st) else persistAgentEventLocked J (snd (env seq)) aid ev st) = (ok, st1)"
    by fastforce
  define a1 where "a1 = a\<lparr>as_last_seq := seq, as_events := push_event ev (as_events a), as_truncated := \<not> ok\<rparr>"
  have st': "append_one J env aid stream data st =
      st1\<lparr>ag_sessions := AList.update aid a1 (ag_sessions st1), ag_subs := (ag_subs st1)(aid := map (send_event ev) (ag_subs st1 aid))\<rparr>"
    using p by (auto simp add: append_one_def a(1) seq' Let_def a1_def simp flip: ev_def split: if_splits)
  have dir: "ag_state_dir st1 = ag_state_dir st"
    using p by (auto simp: persistAgentEventLocked_def Let_def split: if_splits option.splits append_fault.splits)
  have bytes: "transcript_bytes aid st1 = transcript_bytes aid st @ event_line J ev \<and> aj_event J ev \<noteq> None"
    if "ok" "ag_state_dir st \<noteq> []" "validAgentSessionID aid"
    using p that
    by (auto simp: persistAgentEventLocked_def transcript_bytes_def event_line_def Let_def split: if_splits option.splits append_fault.splits)
  have tr: "\<not> as_truncated a" if ok using p that by (auto split: if_splits)
  have "transcript_bytes aid (append_one J env aid stream data st) = transcript_bytes aid st1"
    by (simp add: st' transcript_bytes_def)
  moreover have "agent_of aid (append_one J env aid stream data st) = Some a1" by (simp add: st' agent_of_def)
  moreover have "as_events a1 = transcript.recent (P @ [ev])" using a(5) push_event_recent by (simp add: a1_def)
  moreover have "ag_state_dir (append_one J env aid stream data st) = ag_state_dir st" by (simp add: st' dir)
  ultimately have "agent_inv J aid (P @ [ev]) (append_one J env aid stream data st)"
    unfolding agent_inv_def
    using a(2,3,6,7) bytes tr assms(2,3) by (intro exI [of _ a1]) (auto simp: a1_def seq_def ev_def event_fits_def)
  then show ?thesis by (intro exI [of _ ev]) (simp add: ev_def)
qed

definition stream_data :: "string \<Rightarrow> agent_event list \<Rightarrow> string" where
  "stream_data s Q = concat (map ae_data (filter (\<lambda>ev. ae_stream ev = s) Q))"

lemma stream_data_append [simp]: "stream_data s (P @ Q) = stream_data s P @ stream_data s Q"
  by (simp add: stream_data_def)

lemma stream_data_one_stream:
  "(\<forall>ev \<in> set Q. ae_stream ev = s) \<Longrightarrow> stream_data t Q = (if t = s then concat (map ae_data Q) else [])"
  by (induction Q) (auto simp: stream_data_def)

lemma appendAgentEvent_inv:
  "agent_inv J aid P st \<Longrightarrow> stream \<in> {''stdout'', ''stderr'', ''status''} \<Longrightarrow>
   \<exists>Q. agent_inv J aid (P @ Q) (appendAgentEvent J env aid stream data st) \<and>
     (\<forall>ev \<in> set Q. ae_stream ev = stream) \<and> concat (map ae_data Q) = data"
proof (induction J env aid stream data st arbitrary: P rule: appendAgentEvent.induct)
  case (1 J env aid stream data st)
  note ih = "1.IH" and inv = "1.prems"(1) and known = "1.prems"(2)
  show ?case
  proof (cases "data = []")
    case True
    then show ?thesis using inv by (intro exI [of _ "[]"]) (simp add: appendAgentEvent.simps)
  next
    case nonempty: False
    show ?thesis
    proof (cases "length data > maxAgentEventBytes")
      case True
      obtain ev where ev: "ae_stream ev = stream" "ae_data ev = take maxAgentEventBytes data"
        "agent_inv J aid (P @ [ev]) (append_one J env aid stream (take maxAgentEventBytes data) st)"
        using append_one_inv [OF inv _ known] by (metis length_take min.cobounded2)
      obtain Q where "agent_inv J aid ((P @ [ev]) @ Q)
          (appendAgentEvent J env aid stream (drop maxAgentEventBytes data)
            (append_one J env aid stream (take maxAgentEventBytes data) st))"
        "\<forall>e \<in> set Q. ae_stream e = stream" "concat (map ae_data Q) = drop maxAgentEventBytes data"
        using ih [OF nonempty True ev(3) known] by blast
      then show ?thesis using ev True nonempty
        by (intro exI [of _ "ev # Q"]) (simp add: appendAgentEvent.simps [of J env aid stream data st])
    next
      case False
      obtain ev where "ae_stream ev = stream" "ae_data ev = data" "agent_inv J aid (P @ [ev]) (append_one J env aid stream data st)"
        using append_one_inv [OF inv _ known] False by (metis not_less)
      then show ?thesis using False nonempty
        by (intro exI [of _ "[ev]"]) (simp add: appendAgentEvent.simps [of J env aid stream data st])
    qed
  qed
qed

lemma emit_all_inv:
  "agent_inv J aid P st \<Longrightarrow> ew_session w = aid \<Longrightarrow> ew_stream w \<in> {''stdout'', ''stderr'', ''status''} \<Longrightarrow>
   \<exists>Q. agent_inv J aid (P @ Q) (fold (emit J env scrub w) pieces st) \<and>
     (\<forall>ev \<in> set Q. ae_stream ev = ew_stream w) \<and> concat (map ae_data Q) = concat (map scrub pieces)"
proof (induction pieces arbitrary: P st)
  case Nil
  then show ?case by (intro exI [of _ "[]"]) simp
next
  case (Cons p pieces)
  obtain Q1 where Q1: "agent_inv J aid (P @ Q1) (emit J env scrub w p st)" "\<forall>ev \<in> set Q1. ae_stream ev = ew_stream w"
    "concat (map ae_data Q1) = scrub p"
    using appendAgentEvent_inv [OF Cons.prems(1,3), of env "scrub p"] Cons.prems(2) unfolding emit_def by metis
  obtain Q2 where "agent_inv J aid ((P @ Q1) @ Q2) (fold (emit J env scrub w) pieces (emit J env scrub w p st))"
    "\<forall>ev \<in> set Q2. ae_stream ev = ew_stream w" "concat (map ae_data Q2) = concat (map scrub pieces)"
    using Cons.IH [OF Q1(1) Cons.prems(2,3)] by blast
  then show ?case using Q1 by (intro exI [of _ "Q1 @ Q2"]) auto
qed

definition out_bytes :: "bool \<Rightarrow> (bool \<times> string) list \<Rightarrow> string" where
  "out_bytes b outs = concat (map snd (filter (\<lambda>x. fst x = b) outs))"

lemma writer_Write_inv:
  assumes "agent_inv J aid P st" "ew_session w = aid" "ew_stream w \<in> {''stdout'', ''stderr'', ''status''}"
  shows "\<exists>Q st'. writer_Write J env scrub p (w, st) = (w\<lparr>ew_pending := snd (write_loop (ew_pending w @ p))\<rparr>, st') \<and>
    agent_inv J aid (P @ Q) st' \<and> (\<forall>ev \<in> set Q. ae_stream ev = ew_stream w) \<and>
    concat (map ae_data Q) = concat (map scrub (fst (write_loop (ew_pending w @ p))))"
  using emit_all_inv [OF assms, of env scrub "fst (write_loop (ew_pending w @ p))"]
  by (auto simp: writer_Write_def split_beta)

lemma writer_Flush_inv:
  assumes "agent_inv J aid P st" "ew_session w = aid" "ew_stream w \<in> {''stdout'', ''stderr'', ''status''}"
  shows "\<exists>Q. agent_inv J aid (P @ Q) (snd (writer_Flush J env scrub (w, st))) \<and> (\<forall>ev \<in> set Q. ae_stream ev = ew_stream w) \<and>
    concat (map ae_data Q) = concat (map scrub (if ew_pending w = [] then [] else [ew_pending w]))"
proof (cases "ew_pending w = []")
  case True
  then show ?thesis using assms(1) by (intro exI [of _ "[]"]) (simp add: writer_Flush_def)
next
  case False
  then show ?thesis using emit_all_inv [OF assms, of env scrub "[ew_pending w]"] by (simp add: writer_Flush_def)
qed

lemma feed_writers_inv:
  assumes "agent_inv J aid P st" "ew_session wo = aid" "ew_session we = aid" "ew_stream wo = ''stdout''" "ew_stream we = ''stderr''"
    and "write_loop (ew_pending wo) = ([], ew_pending wo)" "write_loop (ew_pending we) = ([], ew_pending we)"
  shows "\<exists>Q st'. feed_writers J env scrub outs (wo, we, st) =
      (wo\<lparr>ew_pending := snd (write_loop (ew_pending wo @ out_bytes True outs))\<rparr>,
       we\<lparr>ew_pending := snd (write_loop (ew_pending we @ out_bytes False outs))\<rparr>, st') \<and>
    agent_inv J aid (P @ Q) st' \<and> stream_data ''status'' Q = [] \<and>
    stream_data ''stdout'' Q = concat (map scrub (fst (write_loop (ew_pending wo @ out_bytes True outs)))) \<and>
    stream_data ''stderr'' Q = concat (map scrub (fst (write_loop (ew_pending we @ out_bytes False outs))))"
  using assms
proof (induction outs arbitrary: P st wo we)
  case Nil
  then show ?case by (intro exI [of _ "[]"] exI [of _ st]) (simp add: out_bytes_def stream_data_def)
next
  case (Cons x outs)
  obtain b p where x: "x = (b, p)" by fastforce
  have idem: "write_loop (snd (write_loop s)) = ([], snd (write_loop s))" for s
    using write_loop_append [of s "[]"] by (metis append_Nil2 append_self_conv fst_conv prod.collapse snd_conv)
  show ?case
  proof (cases b)
    case True
    define wo1 where "wo1 = wo\<lparr>ew_pending := snd (write_loop (ew_pending wo @ p))\<rparr>"
    obtain Q1 st1 where w: "writer_Write J env scrub p (wo, st) = (wo1, st1)" "agent_inv J aid (P @ Q1) st1"
      "\<forall>ev \<in> set Q1. ae_stream ev = ''stdout''" "concat (map ae_data Q1) = concat (map scrub (fst (write_loop (ew_pending wo @ p))))"
      using writer_Write_inv [OF Cons.prems(1,2), of env scrub p] Cons.prems(4) unfolding wo1_def by auto
    have "ew_session wo1 = aid" "ew_stream wo1 = ''stdout''" "write_loop (ew_pending wo1) = ([], ew_pending wo1)"
      using Cons.prems(2,4) idem by (simp_all add: wo1_def)
    from Cons.IH [OF w(2) this(1) Cons.prems(3) this(2) Cons.prems(5) this(3) Cons.prems(7)]
    obtain Q2 st2 where q: "feed_writers J env scrub outs (wo1, we, st1) =
        (wo1\<lparr>ew_pending := snd (write_loop (ew_pending wo1 @ out_bytes True outs))\<rparr>,
         we\<lparr>ew_pending := snd (write_loop (ew_pending we @ out_bytes False outs))\<rparr>, st2)"
      "agent_inv J aid ((P @ Q1) @ Q2) st2" "stream_data ''status'' Q2 = []"
      "stream_data ''stdout'' Q2 = concat (map scrub (fst (write_loop (ew_pending wo1 @ out_bytes True outs))))"
      "stream_data ''stderr'' Q2 = concat (map scrub (fst (write_loop (ew_pending we @ out_bytes False outs))))"
      by blast
    show ?thesis
      using w q True x stream_data_one_stream [OF w(3)] write_loop_append [of "ew_pending wo @ p" "out_bytes True outs"]
      by (intro exI [of _ "Q1 @ Q2"] exI [of _ st2]) (simp add: out_bytes_def wo1_def)
  next
    case False
    define we1 where "we1 = we\<lparr>ew_pending := snd (write_loop (ew_pending we @ p))\<rparr>"
    obtain Q1 st1 where w: "writer_Write J env scrub p (we, st) = (we1, st1)" "agent_inv J aid (P @ Q1) st1"
      "\<forall>ev \<in> set Q1. ae_stream ev = ''stderr''" "concat (map ae_data Q1) = concat (map scrub (fst (write_loop (ew_pending we @ p))))"
      using writer_Write_inv [OF Cons.prems(1,3), of env scrub p] Cons.prems(5) unfolding we1_def by auto
    have "ew_session we1 = aid" "ew_stream we1 = ''stderr''" "write_loop (ew_pending we1) = ([], ew_pending we1)"
      using Cons.prems(3,5) idem by (simp_all add: we1_def)
    from Cons.IH [OF w(2) Cons.prems(2) this(1) Cons.prems(4) this(2) Cons.prems(6) this(3)]
    obtain Q2 st2 where q: "feed_writers J env scrub outs (wo, we1, st1) =
        (wo\<lparr>ew_pending := snd (write_loop (ew_pending wo @ out_bytes True outs))\<rparr>,
         we1\<lparr>ew_pending := snd (write_loop (ew_pending we1 @ out_bytes False outs))\<rparr>, st2)"
      "agent_inv J aid ((P @ Q1) @ Q2) st2" "stream_data ''status'' Q2 = []"
      "stream_data ''stdout'' Q2 = concat (map scrub (fst (write_loop (ew_pending wo @ out_bytes True outs))))"
      "stream_data ''stderr'' Q2 = concat (map scrub (fst (write_loop (ew_pending we1 @ out_bytes False outs))))"
      by blast
    show ?thesis
      using w q False x stream_data_one_stream [OF w(3)] write_loop_append [of "ew_pending we @ p" "out_bytes False outs"]
      by (intro exI [of _ "Q1 @ Q2"] exI [of _ st2]) (simp add: out_bytes_def we1_def)
  qed
qed

text \<open>Changes of the record that leave the transcript alone.\<close>

lemma agent_inv_same_transcript:
  assumes "agent_inv J aid P st" "ag_state_dir st' = ag_state_dir st" "ag_transcripts st' = ag_transcripts st"
    and "map_option (\<lambda>a. (as_id a, as_last_seq a, as_events a, as_truncated a)) (agent_of aid st') =
         map_option (\<lambda>a. (as_id a, as_last_seq a, as_events a, as_truncated a)) (agent_of aid st)"
  shows "agent_inv J aid P st'"
  using assms unfolding agent_inv_def transcript_bytes_def by (auto simp: map_option_case split: option.splits)

lemma saveAgentSessions_frame:
  "ag_sessions (snd (saveAgentSessions J io st)) = ag_sessions st" "ag_state_dir (snd (saveAgentSessions J io st)) = ag_state_dir st"
  "ag_transcripts (snd (saveAgentSessions J io st)) = ag_transcripts st" "ag_subs (snd (saveAgentSessions J io st)) = ag_subs st"
  "ag_cancels (snd (saveAgentSessions J io st)) = ag_cancels st" "ag_cancelled (snd (saveAgentSessions J io st)) = ag_cancelled st"
  by (simp_all add: saveAgentSessions_def split_beta split: option.split)

lemma agent_of_save [simp]: "agent_of aid (snd (saveAgentSessions J io st)) = agent_of aid st"
  by (simp add: agent_of_def saveAgentSessions_frame)

lemma agent_inv_save: "agent_inv J aid P st \<Longrightarrow> agent_inv J aid P (snd (saveAgentSessions J' io st))"
  by (erule agent_inv_same_transcript) (simp_all add: saveAgentSessions_frame)

lemma agent_inv_running: "agent_inv J aid P st \<Longrightarrow> agent_inv J aid P (set_running now aid st)"
  by (erule agent_inv_same_transcript) (simp_all add: set_running_def agent_of_def split: option.split)

lemma agent_inv_finished: "agent_inv J aid P st \<Longrightarrow> agent_inv J aid P (set_finished now aid status ec msg st)"
  by (erule agent_inv_same_transcript) (simp_all add: set_finished_def agent_of_def Let_def split: option.split)

lemma finish_inv:
  assumes "agent_inv J aid P st"
  shows "\<exists>Q a. agent_inv J aid (P @ Q) (finishAgentSession J env io now aid status ec msg st) \<and>
    (\<forall>ev \<in> set Q. ae_stream ev = ''status'') \<and> concat (map ae_data Q) = status \<and>
    agent_of aid (finishAgentSession J env io now aid status ec msg st) = Some a \<and> as_status a = status \<and> as_exit_code a = ec \<and>
    as_error a = msg \<and> as_finished a = Some now"
proof -
  obtain Q where Q: "agent_inv J aid (P @ Q) (appendAgentEvent J env aid ''status'' status st)"
    "\<forall>ev \<in> set Q. ae_stream ev = ''status''" "concat (map ae_data Q) = status"
    using appendAgentEvent_inv [OF assms, of "''status''"] by blast
  let ?st = "set_finished now aid status ec msg (appendAgentEvent J env aid ''status'' status st)"
  have fin: "finishAgentSession J env io now aid status ec msg st =
      (snd (saveAgentSessions J io ?st))\<lparr>ag_subs := (ag_subs (snd (saveAgentSessions J io ?st)))(aid := [])\<rparr>"
    by (simp add: finishAgentSession_def Let_def split_beta)
  have "agent_inv J aid (P @ Q) (snd (saveAgentSessions J io ?st))"
    using Q(1) by (intro agent_inv_save agent_inv_finished)
  then have "agent_inv J aid (P @ Q) (finishAgentSession J env io now aid status ec msg st)"
    unfolding fin by (rule agent_inv_same_transcript) (simp_all add: agent_of_def)
  moreover have "\<exists>a. agent_of aid ?st = Some a \<and> as_status a = status \<and> as_exit_code a = ec \<and> as_error a = msg \<and> as_finished a = Some now"
    using Q(1) by (auto simp: agent_inv_def set_finished_def agent_of_def Let_def)
  moreover have "agent_of aid (finishAgentSession J env io now aid status ec msg st) = agent_of aid ?st"
    unfolding fin by (simp add: agent_of_def saveAgentSessions_frame)
  ultimately show ?thesis using Q(2,3) by metis
qed

definition allow_means_ran :: "'c gov_outcome \<Rightarrow> bool" where
  "allow_means_ran out \<longleftrightarrow> (\<forall>t. go_result out = Inr t \<and> tr_verdict t = VerdictAllow \<longrightarrow> go_ran out)"

lemma gov_deny_allow: "allow_means_ran (gov_deny G rq sess reason apid m)"
  by (simp add: allow_means_ran_def gov_deny_def refusal_def)

lemma gov_execute_allow: "allow_means_ran (gov_execute G now later rq run sess m)"
  unfolding gov_execute_def Let_def
  by (simp add: gov_deny_allow split: prod.split option.split sum.split) (simp add: allow_means_ran_def)

lemma pending_allow:
  "allow_means_ran \<lparr>go_result = Inr ((refusal VerdictRequireApprove r)\<lparr>tr_approval_id := x, tr_pending := True\<rparr>),
     go_ran = False, go_session = s2, go_manager = m2\<rparr>"
  by (simp add: allow_means_ran_def refusal_def)

lemma governOut_allow: "allow_means_ran (governOut G now0 now later apid outcome meanwhile rq run sess m)"
  unfolding governOut_def Let_def
  by (simp add: gov_deny_allow gov_execute_allow pending_allow split: prod.split wait_outcome.split)

lemma allowed_call_ran:
  assumes "govern G cv sid rq er sess m = (Inr t, exe, m')" "tr_verdict t = VerdictAllow"
  shows "exe = Some er"
proof -
  let ?out = "governOut G (cv_now0 cv) (cv_now cv) (cv_later cv) (cv_apid cv) (cv_outcome cv) (cv_meanwhile cv) rq (cv_exec cv sid er) sess m"
  have "map_sum ToolExec id (go_result ?out) = Inr t" "exe = (if go_ran ?out then Some er else None)"
    using assms(1) by (simp_all add: govern_def Let_def)
  moreover from this(1) have "go_result ?out = Inr t" by (cases "go_result ?out") simp_all
  ultimately show ?thesis using assms(2) governOut_allow unfolding allow_means_ran_def by metis
qed

lemma agent_outcome_completed:
  "agent_outcome canceled showInt res = (''completed'', ec, msg) \<Longrightarrow>
     ec = Some 0 \<and> (\<exists>t. res = Inr t \<and> tr_verdict t = VerdictAllow)"
  by (simp add: agent_outcome_def split: sum.splits if_splits)

lemma agent_outcome_terminal: "agentSessionTerminal (fst (agent_outcome canceled showInt res))"
  by (auto simp: agent_outcome_def agentSessionTerminal_def split: sum.splits)

text \<open>The output part of a run: both writers are fed and flushed.\<close>

definition write_output ::
  "agent_codec \<Rightarrow> event_env \<Rightarrow> (string \<Rightarrow> string) \<Rightarrow> string \<Rightarrow> (bool \<times> string) list \<Rightarrow> agent_state \<Rightarrow> agent_state" where
  "write_output J env scrub aid outs st =
     (let (wo, we, st1) = feed_writers J env scrub outs
            (\<lparr>ew_session = aid, ew_stream = ''stdout'', ew_pending = []\<rparr>, \<lparr>ew_session = aid, ew_stream = ''stderr'', ew_pending = []\<rparr>, st)
      in snd (writer_Flush J env scrub (we, snd (writer_Flush J env scrub (wo, st1)))))"

lemma write_output_inv:
  assumes "agent_inv J aid P st"
  shows "\<exists>st' Q. write_output J env scrub aid outs st = st' \<and> agent_inv J aid (P @ Q) st' \<and> stream_data ''status'' Q = [] \<and>
    stream_data ''stdout'' Q = concat (map scrub (output_pieces (out_bytes True outs))) \<and>
    stream_data ''stderr'' Q = concat (map scrub (output_pieces (out_bytes False outs)))"
proof -
  let ?w = "\<lambda>s r. \<lparr>ew_session = aid, ew_stream = s, ew_pending = r\<rparr>"
  define ro re where "ro = snd (write_loop (out_bytes True outs))" and "re = snd (write_loop (out_bytes False outs))"
  have nil: "write_loop [] = ([], [])" by (simp add: write_loop_unfold [of "[]"] complete_def)
  obtain Q1 st1 where Q1: "feed_writers J env scrub outs (?w ''stdout'' [], ?w ''stderr'' [], st) = (?w ''stdout'' ro, ?w ''stderr'' re, st1)"
    "agent_inv J aid (P @ Q1) st1" "stream_data ''status'' Q1 = []"
    "stream_data ''stdout'' Q1 = concat (map scrub (fst (write_loop (out_bytes True outs))))"
    "stream_data ''stderr'' Q1 = concat (map scrub (fst (write_loop (out_bytes False outs))))"
    using feed_writers_inv [OF assms, of "?w ''stdout'' []" "?w ''stderr'' []" env scrub outs] nil by (auto simp: ro_def re_def)
  define st2 where "st2 = snd (writer_Flush J env scrub (?w ''stdout'' ro, st1))"
  obtain Q2 where Q2: "agent_inv J aid ((P @ Q1) @ Q2) st2" "\<forall>ev \<in> set Q2. ae_stream ev = ''stdout''"
    "concat (map ae_data Q2) = concat (map scrub (if ro = [] then [] else [ro]))"
    using writer_Flush_inv [OF Q1(2), of "?w ''stdout'' ro" env scrub] unfolding st2_def by auto
  obtain Q3 where Q3: "agent_inv J aid (((P @ Q1) @ Q2) @ Q3) (snd (writer_Flush J env scrub (?w ''stderr'' re, st2)))"
    "\<forall>ev \<in> set Q3. ae_stream ev = ''stderr''" "concat (map ae_data Q3) = concat (map scrub (if re = [] then [] else [re]))"
    using writer_Flush_inv [OF Q2(1), of "?w ''stderr'' re" env scrub] by auto
  have "write_output J env scrub aid outs st = snd (writer_Flush J env scrub (?w ''stderr'' re, st2))"
    by (simp add: write_output_def Q1(1) st2_def)
  moreover have "output_pieces (out_bytes True outs) = fst (write_loop (out_bytes True outs)) @ (if ro = [] then [] else [ro])"
    "output_pieces (out_bytes False outs) = fst (write_loop (out_bytes False outs)) @ (if re = [] then [] else [re])"
    by (simp_all add: output_pieces_def ro_def re_def)
  ultimately show ?thesis
    using Q1(3-5) Q2(3) Q3 stream_data_one_stream [OF Q2(2)] stream_data_one_stream [OF Q3(2)]
    by (intro exI [of _ "snd (writer_Flush J env scrub (?w ''stderr'' re, st2))"] exI [of _ "Q1 @ Q2 @ Q3"]) simp
qed

text \<open>A session as \<^verbatim>\<open>StartAgentSession\<close> leaves it.\<close>

definition fresh_agent :: "string \<Rightarrow> agent_state \<Rightarrow> bool" where
  "fresh_agent aid st \<longleftrightarrow>
     (\<exists>a. agent_of aid st = Some a \<and> as_id a = aid \<and> as_last_seq a = 0 \<and> as_events a = []) \<and>
     ag_transcripts st (transcript_name aid) = None"

lemma fresh_inv: "fresh_agent aid st \<Longrightarrow> agent_inv J aid [] st"
  by (auto simp: fresh_agent_def agent_inv_def transcript_bytes_def transcript.recent_def)

section \<open>Reading the transcript back\<close>

text \<open>What the code relies on about \<^verbatim>\<open>encoding/json\<close>: a marshalled event has no line break, is shorter than
  the scanner's buffer, and decodes to the event.\<close>

definition agent_codec_ok :: "agent_codec \<Rightarrow> bool" where
  "agent_codec_ok J \<longleftrightarrow>
     (\<forall>ev j. event_fits ev \<and> aj_event J ev = Some j \<longrightarrow>
        nl \<notin> set j \<and> drop_cr j = j \<and> length j < maxScanLine \<and> aj_event_load J j = Some ev)"

lemma scan_line:
  assumes "nl \<notin> set l" "length l < maxScanLine"
  shows "scan_lines (l @ nl # rest) = map_prod (Cons (drop_cr l)) id (scan_lines rest)"
proof -
  have "takeWhile (\<lambda>c. c \<noteq> nl) (l @ nl # rest) = l" "dropWhile (\<lambda>c. c \<noteq> nl) (l @ nl # rest) = nl # rest"
    using assms(1) by (auto simp: takeWhile_append dropWhile_append)
  with assms(2) show ?thesis by (subst scan_lines.simps) simp
qed

lemma scan_transcript:
  assumes "agent_codec_ok J" "\<forall>ev \<in> set P. event_fits ev \<and> aj_event J ev \<noteq> None"
  shows "map_prod (List.map_filter (aj_event_load J)) id (scan_lines (concat (map (event_line J) P))) = (P, True)"
  using assms(2)
proof (induction P)
  case Nil
  then show ?case by (simp add: scan_lines.simps List.map_filter_def)
next
  case (Cons ev P)
  then obtain j where j: "aj_event J ev = Some j" "event_fits ev" by auto
  then have ok: "nl \<notin> set j" "drop_cr j = j" "length j < maxScanLine" "aj_event_load J j = Some ev"
    using assms(1) by (auto simp: agent_codec_ok_def)
  have "scan_lines (concat (map (event_line J) (ev # P))) = map_prod (Cons j) id (scan_lines (concat (map (event_line J) P)))"
    using scan_line [OF ok(1,3)] ok(2) j(1) by (simp add: event_line_def)
  with Cons ok(4) show ?case by (cases "scan_lines (concat (map (event_line J) P))") (simp add: List.map_filter_simps)
qed

lemma numbered_nth:
  assumes "map ae_seq P = map int [1..<Suc (length P)]" "i < length P"
  shows "ae_seq (P ! i) = int i + 1"
proof -
  have "map ae_seq P ! i = map int [1..<Suc (length P)] ! i" by (simp only: assms(1))
  with assms(2) show ?thesis by (simp del: upt_Suc)
qed

lemma recent_hd:
  assumes "map ae_seq P = map int [1..<Suc (length P)]" "P \<noteq> []"
  shows "transcript.recent P \<noteq> [] \<and> ae_seq (hd (transcript.recent P)) = int (length P - maxAgentEventsMemory) + 1"
proof -
  have "length P - maxAgentEventsMemory < length P" using assms(2) by (simp add: maxAgentEventsMemory_def)
  with numbered_nth [OF assms(1) this] show ?thesis by (simp add: transcript.recent_def hd_drop_conv_nth)
qed

lemma eventsAfter_recent:
  assumes "map ae_seq P = map int [1..<Suc (length P)]" "int (length P - maxAgentEventsMemory) \<le> after"
  shows "eventsAfter (transcript.recent P) after = eventsAfter P after"
proof -
  let ?k = "length P - maxAgentEventsMemory"
  have "ae_seq ev \<le> after" if ev: "ev \<in> set (take ?k P)" for ev
  proof -
    obtain i where "i < ?k" "i < length P" "ev = P ! i" using ev by (auto simp: in_set_conv_nth)
    then show ?thesis using numbered_nth [OF assms(1), of i] assms(2) by simp
  qed
  then have "eventsAfter (take ?k P) after = []" by (auto simp: eventsAfter_def filter_empty_conv not_less)
  moreover have "eventsAfter P after = eventsAfter (take ?k P) after @ eventsAfter (drop ?k P) after"
    by (simp add: eventsAfter_def flip: filter_append)
  ultimately show ?thesis by (simp add: transcript.recent_def)
qed

lemma backlog:
  assumes "agent_inv J aid P st" "agent_codec_ok J" "agent_of aid st = Some a"
    and "ag_state_dir st \<noteq> [] \<and> validAgentSessionID aid \<and> \<not> as_truncated a \<or> int (length P - maxAgentEventsMemory) \<le> after"
  shows "agentEventsAfterLocked J st a after = eventsAfter P after"
proof -
  have inv: "as_id a = aid" "map ae_seq P = map int [1..<Suc (length P)]" "as_events a = transcript.recent P" "list_all event_fits P"
    "ag_state_dir st \<noteq> [] \<and> validAgentSessionID aid \<and> \<not> as_truncated a \<longrightarrow>
       transcript_bytes aid st = concat (map (event_line J) P) \<and> (\<forall>ev \<in> set P. aj_event J ev \<noteq> None)"
    using assms(1,3) by (auto simp: agent_inv_def)
  let ?k = "length P - maxAgentEventsMemory"
  show ?thesis
  proof (cases "int ?k \<le> after \<or> P = []")
    case True
    then have "eventsAfter (transcript.recent P) after = eventsAfter P after"
      using eventsAfter_recent [OF inv(2)] by (auto simp: transcript.recent_def)
    moreover from True have "as_events a = [] \<or> after \<ge> ae_seq (hd (as_events a)) - 1"
      using recent_hd [OF inv(2)] by (cases "P = []") (auto simp: inv(3) transcript.recent_def)
    ultimately show ?thesis using inv(3) by (auto simp: agentEventsAfterLocked_def)
  next
    case False
    then have file_ok: "ag_state_dir st \<noteq> []" "validAgentSessionID aid" "\<not> as_truncated a" and P: "P \<noteq> []"
      using assms(4) by auto
    have bytes: "transcript_bytes aid st = concat (map (event_line J) P)" and enc: "\<forall>ev \<in> set P. event_fits ev \<and> aj_event J ev \<noteq> None"
      using inv(4,5) file_ok by (auto simp: list_all_iff)
    have "transcript_bytes aid st \<noteq> []" using P bytes by (cases P) (auto simp: event_line_def)
    then have load: "loadAllAgentEventsLocked J (as_id a) st = (P, True)"
      using scan_transcript [OF assms(2) enc] bytes inv(1)
      by (auto simp: loadAllAgentEventsLocked_def transcript_bytes_def split: option.splits)
    have "ae_seq (last P) = int (length P)"
      using numbered_nth [OF inv(2), of "length P - 1"] P by (simp add: last_conv_nth of_nat_diff Suc_leI)
    moreover have "ae_seq ev \<le> int (length P)" if ev: "ev \<in> set (as_events a)" for ev
    proof -
      obtain i where "i < length P" "ev = P ! i"
        using ev inv(3) by (metis in_set_conv_nth in_set_dropD transcript.recent_def)
      then show ?thesis using numbered_nth [OF inv(2), of i] by simp
    qed
    ultimately have "filter (\<lambda>ev. ae_seq ev > ae_seq (last P)) (as_events a) = []" by (auto simp: filter_empty_conv not_less)
    moreover have "eventsAfter (as_events a) after = eventsAfter P after"
      if "as_events a = [] \<or> after \<ge> ae_seq (hd (as_events a)) - 1"
      using that P False recent_hd [OF inv(2)] by (auto simp: inv(3))
    ultimately show ?thesis using load P file_ok(1) by (auto simp: agentEventsAfterLocked_def Let_def)
  qed
qed

lemma appends_inv:
  assumes "agent_inv J aid P st" "\<forall>x \<in> set xs. fst x \<in> {''stdout'', ''stderr'', ''status''}"
  shows "\<exists>Q. agent_inv J aid (P @ Q) (fold (\<lambda>x. appendAgentEvent J env aid (fst x) (snd x)) xs st) \<and>
    (\<forall>s. stream_data s Q = concat (map snd (filter (\<lambda>x. fst x = s) xs)))"
  using assms
proof (induction xs arbitrary: P st)
  case Nil
  then show ?case by (intro exI [of _ "[]"]) (simp add: stream_data_def)
next
  case (Cons x xs)
  obtain Q1 where Q1: "agent_inv J aid (P @ Q1) (appendAgentEvent J env aid (fst x) (snd x) st)"
    "\<forall>ev \<in> set Q1. ae_stream ev = fst x" "concat (map ae_data Q1) = snd x"
    using appendAgentEvent_inv [OF Cons.prems(1), of "fst x"] Cons.prems(2) by (meson list.set_intros(1))
  obtain Q2 where "agent_inv J aid ((P @ Q1) @ Q2)
      (fold (\<lambda>x. appendAgentEvent J env aid (fst x) (snd x)) xs (appendAgentEvent J env aid (fst x) (snd x) st))"
    "\<forall>s. stream_data s Q2 = concat (map snd (filter (\<lambda>x. fst x = s) xs))"
    using Cons.IH [OF Q1(1)] Cons.prems(2) by auto
  then show ?case
    using Q1(3) stream_data_one_stream [OF Q1(2)] by (intro exI [of _ "Q1 @ Q2"]) auto
qed

section \<open>Restart\<close>

definition loaded_agent :: "agent_codec \<Rightarrow> gotime \<Rightarrow> agent_state \<Rightarrow> agent_session \<Rightarrow> agent_session" where
  "loaded_agent J now st a =
     (let a1 = a\<lparr>as_events := loadAgentEventsLocked J (as_id a) st\<rparr>
      in catch_up (if unfinished a1 then settle now a1 else a1))"

lemma loaded_agent_id [simp]: "as_id (loaded_agent J now st a) = as_id a"
  by (simp add: loaded_agent_def catch_up_def settle_def Let_def)

lemma load_agent_unfold:
  "load_agent J now a st = (if validAgentSessionID (as_id a) then put_agent (loaded_agent J now st a) st else st)"
  by (simp add: load_agent_def loaded_agent_def Let_def)

lemma load_fold:
  "ag_transcripts (fold (load_agent J now) xs st) = ag_transcripts st"
  "ag_state_dir (fold (load_agent J now) xs st) = ag_state_dir st"
  "ag_files (fold (load_agent J now) xs st) = ag_files st"
  by (induction xs arbitrary: st) (simp_all add: load_agent_unfold put_agent_def)

lemma loaded_agent_cong:
  "ag_transcripts st' = ag_transcripts st \<Longrightarrow> loaded_agent J now st' a = loaded_agent J now st a"
  by (simp add: loaded_agent_def loadAgentEventsLocked_def loadAllAgentEventsLocked_def)

lemma load_fold_agent:
  assumes "distinct (map as_id xs)" "validAgentSessionID aid"
  shows "agent_of aid (fold (load_agent J now) xs st) =
    (case find (\<lambda>a. as_id a = aid) xs of Some a \<Rightarrow> Some (loaded_agent J now st a) | None \<Rightarrow> agent_of aid st)"
  using assms(1)
proof (induction xs arbitrary: st)
  case (Cons x xs)
  have tr: "ag_transcripts (load_agent J now x st) = ag_transcripts st" by (simp add: load_agent_unfold put_agent_def)
  have step: "agent_of aid (load_agent J now x st) = (if as_id x = aid then Some (loaded_agent J now st x) else agent_of aid st)"
    using assms(2) by (auto simp: load_agent_unfold put_agent_def agent_of_def)
  show ?case
  proof (cases "as_id x = aid")
    case True
    then have "find (\<lambda>a. as_id a = aid) xs = None" using Cons.prems by (auto simp: find_None_iff) (metis imageI)
    then show ?thesis using Cons True step by simp
  next
    case False
    then show ?thesis using Cons step loaded_agent_cong [OF tr] by (simp split: option.split)
  qed
qed simp

lemma loaded_agent_seq:
  assumes "as_events (loaded_agent J now st a) \<noteq> []"
  shows "ae_seq (last (as_events (loaded_agent J now st a))) \<le> as_last_seq (loaded_agent J now st a)"
proof -
  have "as_events b \<noteq> [] \<Longrightarrow> ae_seq (last (as_events (catch_up b))) \<le> as_last_seq (catch_up b)" "as_events (catch_up b) = as_events b" for b
    by (simp_all add: catch_up_def)
  with assms show ?thesis by (simp add: loaded_agent_def Let_def)
qed

lemma loaded_agent_spec:
  shows "\<not> unfinished (loaded_agent J now st a)"
    and "as_tenant (loaded_agent J now st a) = as_tenant a" "as_citadel (loaded_agent J now st a) = as_citadel a"
    and "\<not> unfinished a \<Longrightarrow> as_status (loaded_agent J now st a) = as_status a \<and> as_exit_code (loaded_agent J now st a) = as_exit_code a \<and>
           as_error (loaded_agent J now st a) = as_error a \<and> as_finished (loaded_agent J now st a) = as_finished a"
    and "unfinished a \<Longrightarrow> as_finished (loaded_agent J now st a) = Some now \<and> agentSessionTerminal (as_status (loaded_agent J now st a))"
    and "as_events (loaded_agent J now st a) = loadAgentEventsLocked J (as_id a) st"
  by (simp_all add: loaded_agent_def catch_up_def settle_def unfinished_def agentSessionTerminal_def Let_def)

lemma restart_found:
  assumes "loadAgentSessions J io now True st = (ok, st')" "ag_state_dir st \<noteq> []"
    and "ag_files st agentSessionsFileName = Some data" "aj_load J data = Some saved" "distinct (map as_id saved)"
    and "a \<in> set saved" "validAgentSessionID (as_id a)"
  shows "agent_of (as_id a) st' = Some (loaded_agent J now st a)"
proof -
  have "find (\<lambda>x. as_id x = as_id a) saved \<noteq> None" using assms(6) by (auto simp: find_None_iff)
  then obtain x where x: "find (\<lambda>x. as_id x = as_id a) saved = Some x" by blast
  then have "x \<in> set saved" "as_id x = as_id a" by (auto simp: find_Some_iff)
  then have "find (\<lambda>x. as_id x = as_id a) saved = Some a" using assms(5,6) x by (metis inj_on_def distinct_map)
  then have "agent_of (as_id a) (fold (load_agent J now) saved st) = Some (loaded_agent J now st a)"
    using load_fold_agent [OF assms(5,7)] by simp
  moreover have "agent_of (as_id a) st' = agent_of (as_id a) (fold (load_agent J now) saved st)"
    using assms(1-4) by (simp add: loadAgentSessions_def Let_def split: if_splits) (metis agent_of_save snd_conv)
  ultimately show ?thesis by simp
qed

text \<open>The map of sessions is keyed by their ids.\<close>

definition agents_wf :: "agent_state \<Rightarrow> bool" where
  "agents_wf st \<longleftrightarrow> distinct (map fst (ag_sessions st)) \<and> (\<forall>(i, a) \<in> set (ag_sessions st). as_id a = i)"

lemma agents_wf_ids: "agents_wf st \<Longrightarrow> map (as_id \<circ> snd) (ag_sessions st) = map fst (ag_sessions st)"
  by (auto simp: agents_wf_def)

lemma update_fresh: "k \<notin> fst ` set al \<Longrightarrow> AList.update k v al = al @ [(k, v)]"
  by (induction al) auto

lemma delete_fresh: "k \<notin> fst ` set al \<Longrightarrow> AList.delete k al = al"
  by (induction al) auto

lemma distinct_map_sort: "distinct (map f (sort_key k xs)) \<longleftrightarrow> distinct (map f xs)"
  by (simp add: distinct_map)

lemma delete_snoc: "AList.delete k (al @ [(k, v)]) = AList.delete k al"
  by (induction al) auto

lemma saveAgentSessions_file:
  assumes "saveAgentSessions J io st = (ok, st')" "ag_state_dir st \<noteq> []" "tmp_ok io agentSessionsFileName (ag_files st)"
  shows "if ok then (\<exists>data. aj_sessions J (sort_key as_created (map (cloneAgentSession \<circ> snd) (ag_sessions st))) = Some data \<and>
      ag_files st' = (ag_files st)(agentSessionsFileName \<mapsto> data)) else ag_files st' = ag_files st"
proof (cases "aj_sessions J (sort_key as_created (map (cloneAgentSession \<circ> snd) (ag_sessions st)))")
  case (Some data)
  then show ?thesis
    using assms writeStateFile_ok [OF assms(2,3), of data] writeStateFile_fails [OF assms(2,3), of _ data]
    by (cases "io_fault io") (auto simp: saveAgentSessions_def split_beta)
qed (use assms in \<open>simp add: saveAgentSessions_def\<close>)

section \<open>Properties\<close>


text \<open>
  A reconnecting client misses nothing: whatever was appended to a session's transcript, the events
  are numbered from 1 without a gap, hold the appended bytes of each stream in order, and a client that
  asks for what follows any event number gets exactly the events with higher numbers, also those that
  are no longer in memory, as long as the transcript file was not truncated; and without a file for
  every number within the last 2048 events.
\<close>

theorem reconnect_misses_nothing:
  assumes "fresh_agent aid st" "agent_codec_ok J" "\<forall>x \<in> set xs. fst x \<in> {''stdout'', ''stderr'', ''status''}"
    and "st' = fold (\<lambda>x. appendAgentEvent J env aid (fst x) (snd x)) xs st"
  shows "\<exists>P a. agent_of aid st' = Some a \<and> map ae_seq P = map int [1..<Suc (length P)] \<and>
    (\<forall>s. stream_data s P = concat (map snd (filter (\<lambda>x. fst x = s) xs))) \<and>
    (\<forall>after. ag_state_dir st' \<noteq> [] \<and> validAgentSessionID aid \<and> \<not> as_truncated a \<or> int (length P - 2048) \<le> after \<longrightarrow>
       AgentSessionEvents J aid after st' = Some (cloneAgentSession a, filter (\<lambda>ev. ae_seq ev > after) P))"
proof -
  obtain P where P: "agent_inv J aid P st'" "\<forall>s. stream_data s P = concat (map snd (filter (\<lambda>x. fst x = s) xs))"
    using appends_inv [OF fresh_inv [OF assms(1)] assms(3)] unfolding assms(4) by fastforce
  then obtain a where a: "agent_of aid st' = Some a" "map ae_seq P = map int [1..<Suc (length P)]"
    by (auto simp: agent_inv_def)
  have "AgentSessionEvents J aid after st' = Some (cloneAgentSession a, filter (\<lambda>ev. ae_seq ev > after) P)"
    if "ag_state_dir st' \<noteq> [] \<and> validAgentSessionID aid \<and> \<not> as_truncated a \<or> int (length P - 2048) \<le> after" for after
    using backlog [OF P(1) assms(2) a(1), of after] that a(1)
    by (simp add: AgentSessionEvents_def eventsAfter_def maxAgentEventsMemory_def)
  with P(2) a show ?thesis by blast
qed

definition no_json :: agent_codec where
  "no_json = \<lparr>aj_sessions = (\<lambda>_. Some []), aj_load = (\<lambda>_. None), aj_event = (\<lambda>_. None), aj_event_load = (\<lambda>_. None)\<rparr>"

definition agent0 :: agent_session where
  "agent0 = \<lparr>as_id = ''a'', as_citadel = ''sb'', as_tenant = ''t'', as_actor = [], as_agent = [], as_model = [], as_cohort = [], as_task = [],
     as_command = [''ls''], as_status = ''queued'', as_exit_code = None, as_error = [], as_created = 1, as_started = None,
     as_finished = None, as_last_seq = 0, as_truncated = False, as_events = []\<rparr>"

definition agents0 :: agent_state where
  "agents0 = \<lparr>ag_sessions = [(''a'', agent0)], ag_subs = (\<lambda>_. []), ag_cancels = [''a''], ag_cancelled = [], ag_state_dir = [],
     ag_files = Map.empty, ag_transcripts = Map.empty\<rparr>"

lemma agents0_fresh: "fresh_agent ''a'' agents0"
  by (simp add: fresh_agent_def agents0_def agent0_def agent_of_def)


theorem reconnect_misses_nothing_witness:
  "\<exists>P a. AgentSessionEvents no_json ''a'' (int (length P - 2048)) (fold (\<lambda>x. appendAgentEvent no_json (\<lambda>_. (1, None)) ''a'' (fst x) (snd x))
       [(''stdout'', ''hi''), (''stderr'', ''oops''), (''stdout'', ''!'')] agents0) =
       Some (cloneAgentSession a, filter (\<lambda>ev. ae_seq ev > int (length P - 2048)) P) \<and> stream_data ''stdout'' P = ''hi!''"
proof -
  let ?xs = "[(''stdout'', ''hi''), (''stderr'', ''oops''), (''stdout'', ''!'')]"
  have ok: "agent_codec_ok no_json" by (simp add: agent_codec_ok_def no_json_def)
  have kinds: "\<forall>x \<in> set ?xs. fst x \<in> {''stdout'', ''stderr'', ''status''}" by simp
  obtain P a where "\<forall>s. stream_data s P = concat (map snd (filter (\<lambda>x. fst x = s) ?xs))"
    "AgentSessionEvents no_json ''a'' (int (length P - 2048)) (fold (\<lambda>x. appendAgentEvent no_json (\<lambda>_. (1, None)) ''a'' (fst x) (snd x)) ?xs agents0) =
       Some (cloneAgentSession a, filter (\<lambda>ev. ae_seq ev > int (length P - 2048)) P)"
    using reconnect_misses_nothing [OF agents0_fresh ok kinds refl, of "\<lambda>_. (1, None)"] by blast
  then show ?thesis by (intro exI [of _ P] exI [of _ a]) simp
qed

text \<open>
  A restart settles every agent session: after the control plane has loaded the saved sessions,
  each of them with a valid id is known again under the same tenant and sandbox and none of them is
  queued or running. A session that had finished keeps its status, exit code and error; one that had
  not is marked finished now, with a terminal status. Its transcript is what the file holds, and new
  events will be numbered above all of it.
\<close>

theorem restart_settles_agent_sessions:
  assumes "loadAgentSessions J io now True st = (ok, st')" "ag_state_dir st \<noteq> []"
    and "ag_files st agentSessionsFileName = Some data" "aj_load J data = Some saved" "distinct (map as_id saved)"
    and "a \<in> set saved" "validAgentSessionID (as_id a)"
  shows "\<exists>b. agent_of (as_id a) st' = Some b \<and> as_tenant b = as_tenant a \<and> as_citadel b = as_citadel a \<and>
    as_status b \<notin> {''queued'', ''running''} \<and> as_events b = loadAgentEventsLocked J (as_id a) st \<and>
    (\<forall>ev \<in> set (drop (length (as_events b) - 1) (as_events b)). ae_seq ev \<le> as_last_seq b) \<and>
    (if as_status a \<in> {''queued'', ''running''} then agentSessionTerminal (as_status b) \<and> as_finished b = Some now
     else as_status b = as_status a \<and> as_exit_code b = as_exit_code a \<and> as_error b = as_error a \<and> as_finished b = as_finished a)"
proof -
  let ?b = "loaded_agent J now st a"
  have "agent_of (as_id a) st' = Some ?b" by (rule restart_found [OF assms])
  moreover have "drop (length (as_events ?b) - 1) (as_events ?b) = (if as_events ?b = [] then [] else [last (as_events ?b)])"
    by (cases "as_events ?b" rule: rev_cases) auto
  ultimately show ?thesis
    using loaded_agent_spec [where J = J and now = now and st = st and a = a] loaded_agent_seq [of J now st a]
    by (auto simp: unfinished_def)
qed

text \<open>
  Starting an agent session is all or nothing, and an acknowledged session is not lost: an error
  leaves the sessions, their cancel functions and the state file as they were; success means that the
  sandbox exists, that it belongs to the named cohort and the task is on that cohort's board, that the
  new session is queued for the sandbox's tenant, and that a control plane restarted from the state
  directory at that moment knows the session and reports it as interrupted.
\<close>

theorem StartAgentSession_durable:
  assumes "StartAgentSession R J io now newID ctx cid opts m fc st = (res, st')"
    and "agents_wf st" "agent_of newID st = None" "newID \<notin> set (ag_cancels st)" "validAgentSessionID newID"
    and "ag_state_dir st \<noteq> []" "tmp_ok io agentSessionsFileName (ag_files st)" "ag_transcripts st (transcript_name newID) = None"
    and "\<forall>xs data. aj_sessions J xs = Some data \<longrightarrow> aj_load J data = Some xs"
  shows "case res of
      Inl _ \<Rightarrow> ag_sessions st' = ag_sessions st \<and> ag_cancels st' = ag_cancels st \<and> ag_files st' = ag_files st
    | Inr a \<Rightarrow> (\<exists>sess. session_of cid m = Some sess \<and> as_tenant a = ss_owner sess) \<and> as_citadel a = cid \<and>
        agent_of newID st' = Some a \<and> as_status a = ''queued'' \<and>
        (so_cohort opts = [] \<or> (\<exists>f. fleet_of (so_cohort opts) fc = Some f \<and> cid \<in> set (fl_sandboxes f) \<and>
           (so_task opts = [] \<or> Get (so_task opts) (fl_board f) \<noteq> None))) \<and>
        (\<forall>io2 now2 ok st2. loadAgentSessions J io2 now2 True (st'\<lparr>ag_sessions := []\<rparr>) = (ok, st2) \<longrightarrow>
           (\<exists>b. agent_of newID st2 = Some b \<and> as_status b = ''interrupted'' \<and> as_tenant b = as_tenant a \<and> as_citadel b = cid))"
proof -
  consider (early) e where "res = Inl e" "st' = st"
    | (saved) sess ok st1 where "session_of cid m = Some sess" "cohort_check cid opts fc = None"
      "saveAgentSessions J io ((put_agent (new_agent R now newID ctx cid opts sess) st)\<lparr>ag_cancels := newID # ag_cancels st\<rparr>) = (ok, st1)"
      "(res, st') = (if ok then (Inr (cloneAgentSession (new_agent R now newID ctx cid opts sess)), st1)
         else (Inl AgentPersist, st1\<lparr>ag_sessions := AList.delete newID (ag_sessions st1),
            ag_cancels := filter (\<lambda>i. i \<noteq> newID) (ag_cancels st1), ag_cancelled := newID # ag_cancelled st1\<rparr>))"
    using assms(1) by (auto simp: StartAgentSession_def Let_def split: option.splits if_splits prod.splits)
  then show ?thesis
  proof cases
    case saved
    define a where "a = new_agent R now newID ctx cid opts sess"
    have a: "as_id a = newID" "as_tenant a = ss_owner sess" "as_citadel a = cid" "as_status a = ''queued''" "cloneAgentSession a = a"
      by (simp_all add: a_def new_agent_def cloneAgentSession_def)
    have new: "newID \<notin> fst ` set (ag_sessions st)" using assms(3) by (simp add: agent_of_def map_of_eq_None_iff)
    have sessions: "ag_sessions st1 = ag_sessions st @ [(newID, a)]" "ag_cancels st1 = newID # ag_cancels st"
        "ag_state_dir st1 = ag_state_dir st" "ag_transcripts st1 = ag_transcripts st"
      using saveAgentSessions_frame [of J io "(put_agent a st)\<lparr>ag_cancels := newID # ag_cancels st\<rparr>"] saved(3) a(1) update_fresh [OF new]
      by (simp_all add: put_agent_def flip: a_def)
    have disk: "if ok then (\<exists>data. aj_sessions J (sort_key as_created (map (cloneAgentSession \<circ> snd) (ag_sessions st1))) = Some data \<and>
        ag_files st1 = (ag_files st)(agentSessionsFileName \<mapsto> data)) else ag_files st1 = ag_files st"
      using saveAgentSessions_file [OF saved(3)] assms(6,7) sessions(1) a(1) update_fresh [OF new]
      unfolding a_def [symmetric] put_agent_def by (cases ok) simp_all
    show ?thesis
    proof (cases ok)
      case False
      moreover have "filter (\<lambda>i. i \<noteq> newID) (ag_cancels st) = ag_cancels st" using assms(4) by (auto intro: filter_True)
      ultimately show ?thesis using saved(4) disk sessions new by (simp add: delete_snoc delete_fresh)
    next
      case True
      then obtain data where data: "aj_sessions J (sort_key as_created (map (cloneAgentSession \<circ> snd) (ag_sessions st1))) = Some data"
        "ag_files st1 = (ag_files st)(agentSessionsFileName \<mapsto> data)" using disk by auto
      have st': "st' = st1" "res = Inr a" using saved(4) True a(5) by (simp_all add: a_def)
      let ?saved = "sort_key as_created (map (cloneAgentSession \<circ> snd) (ag_sessions st1))"
      have "map (as_id \<circ> (cloneAgentSession \<circ> snd)) (ag_sessions st1) = map fst (ag_sessions st1)"
        using assms(2) a(1) by (auto simp: sessions(1) agents_wf_def cloneAgentSession_def)
      moreover have "distinct (map fst (ag_sessions st1))" using assms(2) new by (auto simp: sessions(1) agents_wf_def)
      ultimately have "distinct (map as_id (map (cloneAgentSession \<circ> snd) (ag_sessions st1)))" by (simp only: map_map)
      then have ids: "distinct (map as_id ?saved)" by (simp only: distinct_map_sort)
      have "a \<in> set ?saved" using a(5) by (simp add: sessions(1))
      then have found: "agent_of newID st2 = Some (loaded_agent J now2 (st'\<lparr>ag_sessions := []\<rparr>) a)"
        if "loadAgentSessions J io2 now2 True (st'\<lparr>ag_sessions := []\<rparr>) = (ok2, st2)" for io2 now2 ok2 st2
        using restart_found [OF that _ _ _ ids, of data a] assms(5,6,9) data st' sessions(3) a(1) by simp
      have "as_status (loaded_agent J now2 (st'\<lparr>ag_sessions := []\<rparr>) a) = ''interrupted''" for now2
        using assms(8) sessions(4) st' a(1,4)
        by (simp add: loaded_agent_def loadAgentEventsLocked_def loadAllAgentEventsLocked_def keep_recent_def unfinished_def settle_def
            catch_up_def agentSessionTerminal_def Let_def)
      moreover have "agent_of newID st' = Some a" using new sessions(1) st' by (simp add: agent_of_def map_add_Some_iff map_of_eq_None_iff)
      ultimately show ?thesis
        using found saved(1,2) a st' loaded_agent_spec(2,3)
        by (auto simp: cohort_check_def split: if_splits option.splits)
    qed
  qed simp
qed

theorem restart_settles_agent_sessions_witness:
  "\<exists>ok st' b. loadAgentSessions (no_json\<lparr>aj_load := (\<lambda>_. Some [agent0\<lparr>as_id := replicate 32 (CHR ''a''), as_status := ''running''\<rparr>])\<rparr>) io_fine 9 True
       (agents0\<lparr>ag_sessions := [], ag_state_dir := ''/s'', ag_files := [agentSessionsFileName \<mapsto> ''j'']\<rparr>) = (ok, st') \<and>
     agent_of (replicate 32 (CHR ''a'')) st' = Some b \<and> as_tenant b = ''t'' \<and> as_finished b = Some 9 \<and> agentSessionTerminal (as_status b)"
proof -
  let ?a = "agent0\<lparr>as_id := replicate 32 (CHR ''a''), as_status := ''running''\<rparr>"
  let ?J = "no_json\<lparr>aj_load := (\<lambda>_. Some [?a])\<rparr>"
  let ?st = "agents0\<lparr>ag_sessions := [], ag_state_dir := ''/s'', ag_files := [agentSessionsFileName \<mapsto> ''j'']\<rparr>"
  have v: "validAgentSessionID (replicate 32 (CHR ''a''))" by (simp add: validAgentSessionID_def hex_digit_def list_all_iff)
  obtain ok st' where l: "loadAgentSessions ?J io_fine 9 True ?st = (ok, st')" by fastforce
  have "?a \<in> set [?a]" "validAgentSessionID (as_id ?a)" "as_status ?a \<in> {''queued'', ''running''}" "as_id ?a = replicate 32 (CHR ''a'')" "as_tenant ?a = ''t''"
    using v by (simp_all add: agent0_def)
  with restart_settles_agent_sessions [OF l, of "''j''" "[?a]" ?a] l show ?thesis by (auto simp: agents0_def)
qed

definition opts1 :: start_options where
  "opts1 = \<lparr>so_command = [''ls''], so_agent = [], so_model = [], so_cohort = [], so_task = []\<rparr>"

definition agent1 :: agent_session where
  "agent1 = new_agent no_patterns 1 (replicate 32 (CHR ''a'')) None ''sb'' opts1 session0"

definition json_agent1 :: agent_codec where
  "json_agent1 = no_json\<lparr>aj_sessions := (\<lambda>xs. if xs = [agent1] then Some ''j'' else None), aj_load := (\<lambda>_. Some [agent1])\<rparr>"

theorem StartAgentSession_durable_witness:
  "\<exists>a st'. StartAgentSession no_patterns json_agent1 io_fine 1 (replicate 32 (CHR ''a'')) None ''sb'' opts1 manager0 ctl0
       (agents0\<lparr>ag_sessions := [], ag_cancels := [], ag_state_dir := ''/s''\<rparr>) = (Inr a, st') \<and>
     as_status a = ''queued'' \<and> agent_of (replicate 32 (CHR ''a'')) st' = Some a"
proof -
  let ?st = "agents0\<lparr>ag_sessions := [], ag_cancels := [], ag_state_dir := ''/s''\<rparr>"
  let ?id = "replicate 32 (CHR ''a'')"
  have a1: "as_id agent1 = ?id" "cloneAgentSession agent1 = agent1" by (simp_all add: agent1_def new_agent_def cloneAgentSession_def)
  obtain st' where s: "StartAgentSession no_patterns json_agent1 io_fine 1 ?id None ''sb'' opts1 manager0 ctl0 ?st = (Inr agent1, st')"
    using a1 by (simp add: StartAgentSession_def session_of_def manager0_def cohort_check_def opts1_def put_agent_def
        saveAgentSessions_def json_agent1_def agents0_def writeStateFile_def io_fine_def Let_def flip: agent1_def [unfolded opts1_def])
  have "agents_wf ?st" "agent_of ?id ?st = None" "?id \<notin> set (ag_cancels ?st)" "validAgentSessionID ?id" "ag_state_dir ?st \<noteq> []"
    "tmp_ok io_fine agentSessionsFileName (ag_files ?st)" "ag_transcripts ?st (transcript_name ?id) = None"
    "\<forall>xs data. aj_sessions json_agent1 xs = Some data \<longrightarrow> aj_load json_agent1 data = Some xs"
    by (simp_all add: agents_wf_def agent_of_def agents0_def validAgentSessionID_def hex_digit_def list_all_iff tmp_ok_def io_fine_def
        agentSessionsFileName_def json_agent1_def)
  from StartAgentSession_durable [OF s this] s show ?thesis by auto
qed

text \<open>
  A secret that contains a line break is not masked: the writers scrub each line on its own, so a
  declared secret of two lines appears whole in the transcript.
\<close>

lemma multiline_secret_reaches_transcript:
  "concat (map (\<lambda>s. ScrubString no_patterns (NewScrubber no_patterns []) s [''ab'' @ nl # ''cd'']) (output_pieces (''ab'' @ nl # ''cd''))) =
     ''ab'' @ nl # ''cd''"
proof -
  have "output_pieces (''ab'' @ nl # ''cd'') = [''ab'' @ [nl], ''cd'']"
    by (simp add: output_pieces_def write_loop_unfold complete_def line_end_def maxAgentEventBytes_def)
  moreover have "ScrubString no_patterns (NewScrubber no_patterns []) (''ab'' @ [nl]) [''ab'' @ nl # ''cd''] = ''ab'' @ [nl]"
    "ScrubString no_patterns (NewScrubber no_patterns []) ''cd'' [''ab'' @ nl # ''cd''] = ''cd''"
    by code_simp+
  ultimately show ?thesis by simp
qed

end
