(* ===== verification/Agent_Api.thy ===== *)
theory Agent_Api
  imports Agent_Sessions Api_Handlers
begin

text \<open>
  The HTTP endpoints of agent sessions (\<^verbatim>\<open>internal/server/agent_sessions.go\<close>): start, list, get, the
  backlog of events and the server-sent event stream, each behind the check that the session belongs
  to the caller's tenant.
\<close>

definition agentSessionVisible :: "principal option \<Rightarrow> agent_session \<Rightarrow> bool" where
  "agentSessionVisible p a = (case p of None \<Rightarrow> True | Some pr \<Rightarrow> pc_admin pr \<or> as_tenant a = TenantID p)"

definition visibleAgentSession :: "principal option \<Rightarrow> string \<Rightarrow> agent_state \<Rightarrow> agent_session option" where
  "visibleAgentSession p aid st =
     (case AgentSession aid st of None \<Rightarrow> None | Some a \<Rightarrow> if agentSessionVisible p a then Some a else None)"

definition handleStartAgentSession ::
  "scrubprims \<Rightarrow> agent_codec \<Rightarrow> state_io \<Rightarrow> gotime \<Rightarrow> string \<Rightarrow> principal option \<Rightarrow> string \<Rightarrow> start_options option \<Rightarrow> 'c manager \<Rightarrow> fleetctl \<Rightarrow>
   agent_state \<Rightarrow> agent_session response \<times> agent_state" where
  "handleStartAgentSession R J io now newID p sid body m fc st =
     (case body of
        None \<Rightarrow> ((400, None), st)
      | Some opts \<Rightarrow>
          (case StartAgentSession R J io now newID (request_actor p) sid opts m fc st of
             (Inl _, st') \<Rightarrow> ((400, None), st')
           | (Inr a, st') \<Rightarrow> ((202, Some a), st')))"

definition handleListAgentSessions :: "principal option \<Rightarrow> string \<Rightarrow> agent_state \<Rightarrow> agent_session list response" where
  "handleListAgentSessions p cohort st =
     (let sessions = AgentSessions (trim_space cohort) st in
      (200, Some (if restricted p then filter (\<lambda>a. as_tenant a = TenantID p) sessions else sessions)))"

definition handleGetAgentSession :: "principal option \<Rightarrow> string \<Rightarrow> agent_state \<Rightarrow> agent_session response" where
  "handleGetAgentSession p aid st =
     (case visibleAgentSession p aid st of None \<Rightarrow> (404, None) | Some a \<Rightarrow> (200, Some a))"

definition parseAgentEventCursor :: "string \<Rightarrow> int option" where
  "parseAgentEventCursor raw0 =
     (let raw = trim_space raw0 in
      if raw = [] then Some 0
      else (case atoi raw of None \<Rightarrow> None | Some n \<Rightarrow> if n < 0 then None else Some n))"

definition handleAgentSessionEvents ::
  "agent_codec \<Rightarrow> principal option \<Rightarrow> string \<Rightarrow> string \<Rightarrow> agent_state \<Rightarrow> (agent_session \<times> agent_event list) response" where
  "handleAgentSessionEvents J p aid after st =
     (case parseAgentEventCursor after of
        None \<Rightarrow> (400, None)
      | Some n \<Rightarrow>
          (case AgentSessionEvents J aid n st of
             None \<Rightarrow> (404, None)
           | Some (a, events) \<Rightarrow> if agentSessionVisible p a then (200, Some (a, events)) else (404, None)))"

text \<open>The reconnect cursor: the query parameter, or the \<^verbatim>\<open>Last-Event-ID\<close> header when it is higher.\<close>

definition stream_cursor :: "string \<Rightarrow> string \<Rightarrow> int option" where
  "stream_cursor after lastEvent =
     (case parseAgentEventCursor after of
        None \<Rightarrow> None
      | Some n \<Rightarrow>
          (let l = trim_space lastEvent in
           if l = [] then Some n
           else (case atoi l of Some k \<Rightarrow> Some (if k > n then k else n) | None \<Rightarrow> Some n)))"

definition writeAgentSSE :: "agent_codec \<Rightarrow> agent_event \<Rightarrow> string option" where
  "writeAgentSSE J ev =
     map_option (\<lambda>j. ''id: '' @ show_int (ae_seq ev) @ [nl] @ ''event: agent-output'' @ [nl] @ ''data: '' @ j @ [nl, nl]) (aj_event J ev)"

fun write_events :: "agent_codec \<Rightarrow> agent_event list \<Rightarrow> string list \<times> bool" where
  "write_events J [] = ([], True)"
| "write_events J (ev # events) =
     (case writeAgentSSE J ev of
        None \<Rightarrow> ([], False)
      | Some s \<Rightarrow> (let (rest, ok) = write_events J events in (s # rest, ok)))"

text \<open>\<open>ch\<close> is the new channel, \<open>live\<close> what it delivers until the client goes away or the session ends. The
  result holds the chunks that were sent; the subscription is cancelled at the end.\<close>

definition handleAgentSessionStream ::
  "agent_codec \<Rightarrow> principal option \<Rightarrow> string \<Rightarrow> string \<Rightarrow> string \<Rightarrow> nat \<Rightarrow> agent_event list \<Rightarrow> agent_state \<Rightarrow>
   string list response \<times> agent_state" where
  "handleAgentSessionStream J p aid after lastEvent ch live st =
     (case stream_cursor after lastEvent of
        None \<Rightarrow> ((400, None), st)
      | Some n \<Rightarrow>
          (case SubscribeAgentSession J ch aid n st of
             (None, st1) \<Rightarrow> ((404, None), st1)
           | (Some (a, backlog), st1) \<Rightarrow>
               if \<not> agentSessionVisible p a then ((404, None), cancel_subscription aid ch st1)
               else
                 (let (sent, ok) = write_events J backlog;
                      more = (if ok then fst (write_events J live) else [])
                  in ((200, Some (sent @ more)), cancel_subscription aid ch st1))))"

section \<open>Properties\<close>

lemma agent_tenant_clone [simp]: "as_tenant (cloneAgentSession a) = as_tenant a"
  by (simp add: cloneAgentSession_def)

text \<open>
  Agent sessions are visible to their tenant only: for a principal that is not an administrator,
  the list holds exactly the sessions of its tenant, and reading a session, its events or its stream
  succeeds only when the session belongs to that tenant; for every other session the answers are the
  same as for one that does not exist, and streaming leaves no subscription behind.
\<close>

theorem agent_sessions_are_tenant_scoped:
  assumes "\<not> pc_admin pr" "agent_of aid st = Some a" "as_tenant a \<noteq> TenantID (Some pr)" "ch \<notin> fst ` set (ag_subs st aid)"
  shows "snd (handleListAgentSessions (Some pr) cohort st) =
      Some (filter (\<lambda>a. as_tenant a = TenantID (Some pr)) (AgentSessions (trim_space cohort) st)) \<and>
    handleGetAgentSession (Some pr) aid st = (404, None) \<and>
    handleAgentSessionEvents J (Some pr) aid after st =
      handleAgentSessionEvents J (Some pr) aid after (st\<lparr>ag_sessions := []\<rparr>) \<and>
    fst (handleAgentSessionStream J (Some pr) aid after lastEvent ch live st) =
      fst (handleAgentSessionStream J (Some pr) aid after lastEvent ch live (st\<lparr>ag_sessions := []\<rparr>)) \<and>
    snd (handleAgentSessionStream J (Some pr) aid after lastEvent ch live st) = st"
proof (intro conjI)
  have hidden: "\<not> agentSessionVisible (Some pr) (cloneAgentSession a)" using assms(1,3) by (simp add: agentSessionVisible_def)
  show "snd (handleListAgentSessions (Some pr) cohort st) =
      Some (filter (\<lambda>a. as_tenant a = TenantID (Some pr)) (AgentSessions (trim_space cohort) st))"
    using assms(1) by (simp add: handleListAgentSessions_def restricted_def Let_def)
  show "handleGetAgentSession (Some pr) aid st = (404, None)"
    using assms(2) hidden by (simp add: handleGetAgentSession_def visibleAgentSession_def AgentSession_def)
  show "handleAgentSessionEvents J (Some pr) aid after st = handleAgentSessionEvents J (Some pr) aid after (st\<lparr>ag_sessions := []\<rparr>)"
    using assms(2) hidden by (simp add: handleAgentSessionEvents_def AgentSessionEvents_def agent_of_def split: option.split)
  show "fst (handleAgentSessionStream J (Some pr) aid after lastEvent ch live st) =
      fst (handleAgentSessionStream J (Some pr) aid after lastEvent ch live (st\<lparr>ag_sessions := []\<rparr>))"
    using assms(2) hidden by (simp add: handleAgentSessionStream_def SubscribeAgentSession_def agent_of_def split: option.split)
  have "filter (\<lambda>s. fst s \<noteq> ch) (ag_subs st aid) = ag_subs st aid" using assms(4) by (force intro: filter_True)
  then show "snd (handleAgentSessionStream J (Some pr) aid after lastEvent ch live st) = st"
    using assms(2) hidden
    by (simp add: handleAgentSessionStream_def SubscribeAgentSession_def cancel_subscription_def fun_upd_idem split: option.split)
qed

theorem agent_sessions_are_tenant_scoped_witness:
  "handleGetAgentSession (Some (alice\<lparr>pc_tenant := ''u''\<rparr>)) ''a'' agents0 = (404, None) \<and> agent_of ''a'' agents0 \<noteq> None"
proof -
  have "\<not> pc_admin (alice\<lparr>pc_tenant := ''u''\<rparr>)" "agent_of ''a'' agents0 = Some agent0" "(1::nat) \<notin> fst ` set (ag_subs agents0 ''a'')"
    by (simp_all add: alice_def agents0_def agent_of_def)
  moreover have "as_tenant agent0 \<noteq> TenantID (Some (alice\<lparr>pc_tenant := ''u''\<rparr>))" by code_simp
  ultimately show ?thesis
    using agent_sessions_are_tenant_scoped [of "alice\<lparr>pc_tenant := ''u''\<rparr>" "''a''" agents0 agent0 1] by simp
qed

end
