(* ===== verification/Policy_Bundle.thy ===== *)
theory Policy_Bundle
  imports Ledger_Sign
begin

text \<open>
  Signed policy bundles (\<^verbatim>\<open>internal/policybundle/bundle.go\<close>). A bundle is an OCI manifest with a config
  blob and one policy layer; what is signed is a text with the digests of the two blobs. The registry
  client (\<^verbatim>\<open>oras\<close>) is a parameter with an abstract state; JSON, base64, SHA-256 and Ed25519 are
  parameters as in the ledger.
\<close>

record signed_bundle =
  bd_engine :: string
  bd_query :: string
  bd_policy :: string
  bd_annotations :: "string \<rightharpoonup> string"

record bundle_config =
  bc_engine :: string
  bc_query :: string

record descriptor =
  de_media :: string
  de_digest :: string

record oci_manifest =
  mf_config :: descriptor
  mf_layers :: "descriptor list"
  mf_annotations :: "string \<rightharpoonup> string"

record 't oci =
  oci_push :: "'t \<Rightarrow> string \<Rightarrow> string \<Rightarrow> (descriptor \<times> 't) option"
  oci_pack :: "'t \<Rightarrow> oci_manifest \<Rightarrow> (string \<times> 't) option"
  oci_tag :: "'t \<Rightarrow> string \<Rightarrow> string \<Rightarrow> 't option"
  oci_manifest_of :: "'t \<Rightarrow> string \<Rightarrow> oci_manifest option"
  oci_fetch :: "'t \<Rightarrow> descriptor \<Rightarrow> string option"
  oci_config_json :: "bundle_config \<Rightarrow> string option"
  oci_config_decode :: "string \<Rightarrow> bundle_config option"

definition MediaTypeConfig :: string where
  "MediaTypeConfig = ''application/vnd.runeward.policy.config.v1+json''"

definition MediaTypeLayerRego :: string where
  "MediaTypeLayerRego = ''application/vnd.runeward.policy.layer.v1.rego''"

definition MediaTypeLayerCEL :: string where
  "MediaTypeLayerCEL = ''application/vnd.runeward.policy.layer.v1.cel+toml''"

datatype oci_error =
    BundleKeySize nat | BundleEngine string | BundlePush | BundleFetch | BundleLayers nat | BundleUnsigned | BundleSigDecode
  | BundleSigBad | BundleLayerType string | BundleConfig | BundleKeyDecode

definition layerMediaType :: "string \<Rightarrow> string option" where
  "layerMediaType engine =
     (if engine = ''rego'' then Some MediaTypeLayerRego else if engine = ''cel'' then Some MediaTypeLayerCEL else None)"

definition engineForLayer :: "string \<Rightarrow> string option" where
  "engineForLayer mediaType =
     (if mediaType = MediaTypeLayerRego then Some ''rego'' else if mediaType = MediaTypeLayerCEL then Some ''cel'' else None)"

definition signingPayload :: "descriptor \<Rightarrow> descriptor \<Rightarrow> string" where
  "signingPayload config layer =
     ''runeward.policy.bundle.v1'' @ [nl] @ ''config='' @ de_digest config @ [nl] @ ''layer='' @ de_digest layer"

definition StripScheme :: "string \<Rightarrow> string" where
  "StripScheme ref = (case cut_prefix ref ''oci://'' of Some r \<Rightarrow> r | None \<Rightarrow> ref)"

definition AnnotationSignature :: string where
  "AnnotationSignature = ''runeward.dev/signature''"

definition AnnotationSigningKey :: string where
  "AnnotationSigningKey = ''runeward.dev/signing-key''"

definition AnnotationKeyID :: string where
  "AnnotationKeyID = ''runeward.dev/key-id''"

text \<open>\<open>sign\<close> is \<^verbatim>\<open>ed25519.Sign\<close> with the private key, whose size is \<open>privLen\<close>, and \<open>pub\<close> its public key.\<close>

definition pushTo ::
  "prims \<Rightarrow> sigprims \<Rightarrow> 't oci \<Rightarrow> (string \<Rightarrow> string) \<Rightarrow> nat \<Rightarrow> string \<Rightarrow> string \<Rightarrow> signed_bundle \<Rightarrow> 't \<Rightarrow> (oci_error, string) result \<times> 't" where
  "pushTo P S oc sign privLen pub tag b t =
     (if privLen \<noteq> 64 then (Inl (BundleKeySize privLen), t)
      else (case layerMediaType (bd_engine b) of
              None \<Rightarrow> (Inl (BundleEngine (bd_engine b)), t)
            | Some layerType \<Rightarrow>
                (case oci_config_json oc \<lparr>bc_engine = bd_engine b, bc_query = bd_query b\<rparr> of
                   None \<Rightarrow> (Inl BundleConfig, t)
                 | Some cfg \<Rightarrow>
                     (case oci_push oc t MediaTypeConfig cfg of
                        None \<Rightarrow> (Inl BundlePush, t)
                      | Some (configDesc, t1) \<Rightarrow>
                          (case oci_push oc t1 layerType (bd_policy b) of
                             None \<Rightarrow> (Inl BundlePush, t1)
                           | Some (layerDesc, t2) \<Rightarrow>
                               (let sig = sign (signingPayload configDesc layerDesc);
                                    annotations = [AnnotationSignature \<mapsto> b64_encode S sig, AnnotationSigningKey \<mapsto> b64_encode S pub,
                                                   AnnotationKeyID \<mapsto> keyID P pub]
                                in case oci_pack oc t2 \<lparr>mf_config = configDesc, mf_layers = [layerDesc], mf_annotations = annotations\<rparr> of
                                     None \<Rightarrow> (Inl BundlePush, t2)
                                   | Some (digest, t3) \<Rightarrow>
                                       if tag \<noteq> [] \<and> CHR '':'' \<notin> set tag
                                       then (case oci_tag oc t3 digest tag of None \<Rightarrow> (Inl BundlePush, t3) | Some t4 \<Rightarrow> (Inr digest, t4))
                                       else (Inr digest, t3)))))))"

definition verifySignature :: "sigprims \<Rightarrow> oci_manifest \<Rightarrow> descriptor \<Rightarrow> descriptor \<Rightarrow> string \<Rightarrow> oci_error option" where
  "verifySignature S manifest config layer pub =
     (let sigB64 = (case mf_annotations manifest AnnotationSignature of Some s \<Rightarrow> s | None \<Rightarrow> []) in
      if sigB64 = [] then Some BundleUnsigned
      else (case b64_decode S sigB64 of
              None \<Rightarrow> Some BundleSigDecode
            | Some sig \<Rightarrow> if ed_verify S pub (signingPayload config layer) sig then None else Some BundleSigBad))"

definition pullFrom :: "sigprims \<Rightarrow> 't oci \<Rightarrow> 't \<Rightarrow> string \<Rightarrow> string option \<Rightarrow> (oci_error, signed_bundle) result" where
  "pullFrom S oc t ref verify =
     (case oci_manifest_of oc t (if ref = [] then ''latest'' else ref) of
        None \<Rightarrow> Inl BundleFetch
      | Some manifest \<Rightarrow>
          (case mf_layers manifest of
             [layerDesc] \<Rightarrow>
               (case (case verify of None \<Rightarrow> None | Some pub \<Rightarrow> verifySignature S manifest (mf_config manifest) layerDesc pub) of
                  Some e \<Rightarrow> Inl e
                | None \<Rightarrow>
                    (case engineForLayer (de_media layerDesc) of
                       None \<Rightarrow> Inl (BundleLayerType (de_media layerDesc))
                     | Some engine \<Rightarrow>
                         (case oci_fetch oc t (mf_config manifest) of
                            None \<Rightarrow> Inl BundleFetch
                          | Some cfgBytes \<Rightarrow>
                              (case oci_config_decode oc cfgBytes of
                                 None \<Rightarrow> Inl BundleConfig
                               | Some cfg \<Rightarrow>
                                   (case oci_fetch oc t layerDesc of
                                      None \<Rightarrow> Inl BundleFetch
                                    | Some pol \<Rightarrow>
                                        Inr \<lparr>bd_engine = engine, bd_query = bc_query cfg, bd_policy = pol,
                                             bd_annotations = mf_annotations manifest\<rparr>)))))
           | layers \<Rightarrow> Inl (BundleLayers (length layers))))"

definition DecodePublicKey :: "sigprims \<Rightarrow> string \<Rightarrow> (oci_error, string) result" where
  "DecodePublicKey S s =
     (case b64_decode S (trim_space s) of
        None \<Rightarrow> Inl BundleKeyDecode
      | Some b \<Rightarrow> if length b \<noteq> 32 then Inl (BundleKeySize (length b)) else Inr b)"

definition DecodePrivateKey :: "sigprims \<Rightarrow> string \<Rightarrow> (oci_error, string) result" where
  "DecodePrivateKey S s =
     (case b64_decode S (trim_space s) of
        None \<Rightarrow> Inl BundleKeyDecode
      | Some b \<Rightarrow> if length b \<noteq> 64 then Inl (BundleKeySize (length b)) else Inr b)"

section \<open>Properties\<close>

text \<open>Digests have no line break, so the signed text determines both of them.\<close>

lemma signingPayload_inj:
  assumes "signingPayload c l = signingPayload c' l'" "nl \<notin> set (de_digest c)" "nl \<notin> set (de_digest c')"
  shows "de_digest c = de_digest c' \<and> de_digest l = de_digest l'"
proof -
  have eq: "de_digest c @ nl # ''layer='' @ de_digest l = de_digest c' @ nl # ''layer='' @ de_digest l'"
    using assms(1) by (simp add: signingPayload_def)
  have "takeWhile (\<lambda>x. x \<noteq> nl) (de_digest c @ nl # ''layer='' @ de_digest l) = de_digest c"
    "takeWhile (\<lambda>x. x \<noteq> nl) (de_digest c' @ nl # ''layer='' @ de_digest l') = de_digest c'"
    using assms(2,3) by (subst takeWhile_append2; auto)+
  with eq have "de_digest c = de_digest c'" by metis
  with eq show ?thesis by simp
qed

text \<open>What the code relies on about the registry client: fetched bytes have the digest of the descriptor,
  and a digest has no line break.\<close>

definition fetch_checked :: "'t oci \<Rightarrow> (string \<Rightarrow> string) \<Rightarrow> bool" where
  "fetch_checked oc digest \<longleftrightarrow>
     (\<forall>t d b. oci_fetch oc t d = Some b \<longrightarrow> de_digest d = digest b) \<and> (\<forall>b. nl \<notin> set (digest b))"

text \<open>The texts that the holder of the key signed: one for each pair of a config blob and a policy in
  \<open>pushed\<close>.\<close>

definition signed_only :: "sigprims \<Rightarrow> (string \<Rightarrow> string) \<Rightarrow> string \<Rightarrow> (string \<times> string) set \<Rightarrow> bool" where
  "signed_only S digest pub pushed \<longleftrightarrow>
     (\<forall>msg sig. ed_verify S pub msg sig \<longrightarrow>
        (\<exists>(cfg, pol) \<in> pushed. msg = signingPayload \<lparr>de_media = [], de_digest = digest cfg\<rparr> \<lparr>de_media = [], de_digest = digest pol\<rparr>))"

lemma payload_media: "signingPayload c l = signingPayload \<lparr>de_media = [], de_digest = de_digest c\<rparr> \<lparr>de_media = [], de_digest = de_digest l\<rparr>"
  by (simp add: signingPayload_def)

lemma pullFrom_parts:
  assumes "pullFrom S oc t ref (Some pub) = Inr b"
  obtains manifest layer cfgBytes cfg where "mf_layers manifest = [layer]" "verifySignature S manifest (mf_config manifest) layer pub = None"
    "oci_fetch oc t (mf_config manifest) = Some cfgBytes" "oci_config_decode oc cfgBytes = Some cfg" "bc_query cfg = bd_query b"
    "oci_fetch oc t layer = Some (bd_policy b)" "engineForLayer (de_media layer) = Some (bd_engine b)"
  using assms by (auto simp: pullFrom_def split: option.splits list.splits)


definition push_sign :: "sigprims" where
  "push_sign = \<lparr>ed_verify = (\<lambda>pub msg sig. sig = ''s'' \<and>
       msg = signingPayload \<lparr>de_media = [], de_digest = ''c''\<rparr> \<lparr>de_media = [], de_digest = ''p''\<rparr>),
     b64_encode = id, b64_decode = Some\<rparr>"

definition registry0 :: "unit oci" where
  "registry0 = \<lparr>oci_push = (\<lambda>_ _ _. None), oci_pack = (\<lambda>_ _. None), oci_tag = (\<lambda>_ _ _. None),
     oci_manifest_of = (\<lambda>_ _. Some \<lparr>mf_config = \<lparr>de_media = MediaTypeConfig, de_digest = ''c''\<rparr>,
        mf_layers = [\<lparr>de_media = MediaTypeLayerRego, de_digest = ''p''\<rparr>], mf_annotations = [AnnotationSignature \<mapsto> ''s'']\<rparr>),
     oci_fetch = (\<lambda>_ d. if de_digest d \<in> {''c'', ''p''} then Some (de_digest d) else None),
     oci_config_json = (\<lambda>_. None), oci_config_decode = (\<lambda>_. Some \<lparr>bc_engine = ''rego'', bc_query = ''q''\<rparr>)\<rparr>"


text \<open>
  The engine of a bundle is not signed: it is read from the media type of the layer, which the signed
  text does not contain, although the config blob that is signed names the engine. Whoever controls the
  registry can change a signed Rego bundle into a CEL bundle with the same policy bytes, and the
  signature still verifies.
\<close>

lemma bundle_engine_is_not_signed:
  "(\<exists>b. pullFrom push_sign registry0 () ''latest'' (Some ''k'') = Inr b \<and> bd_engine b = ''rego'') \<and>
   (\<exists>b. pullFrom push_sign (registry0\<lparr>oci_manifest_of := (\<lambda>t ref. map_option (\<lambda>m. m\<lparr>mf_layers :=
        map (\<lambda>d. d\<lparr>de_media := MediaTypeLayerCEL\<rparr>) (mf_layers m)\<rparr>) (oci_manifest_of registry0 t ref))\<rparr>) () ''latest'' (Some ''k'') = Inr b \<and>
      bd_engine b = ''cel'')"
  by (simp add: pullFrom_def registry0_def verifySignature_def push_sign_def signingPayload_def engineForLayer_def
      MediaTypeLayerRego_def MediaTypeLayerCEL_def Let_def)

text \<open>What a registry does: blobs are addressed by their digest and stay, manifests are found under their
  digest and their tag.\<close>

definition registry_ok :: "'t oci \<Rightarrow> (string \<Rightarrow> string) \<Rightarrow> bool" where
  "registry_ok oc digest \<longleftrightarrow>
     (\<forall>t m b d t'. oci_push oc t m b = Some (d, t') \<longrightarrow>
        d = \<lparr>de_media = m, de_digest = digest b\<rparr> \<and> oci_fetch oc t' d = Some b \<and>
        (\<forall>d' b'. oci_fetch oc t d' = Some b' \<longrightarrow> oci_fetch oc t' d' = Some b')) \<and>
     (\<forall>t m dg t'. oci_pack oc t m = Some (dg, t') \<longrightarrow>
        dg \<noteq> [] \<and> oci_manifest_of oc t' dg = Some m \<and> (\<forall>d. oci_fetch oc t' d = oci_fetch oc t d)) \<and>
     (\<forall>t dg tag t'. oci_tag oc t dg tag = Some t' \<longrightarrow>
        oci_manifest_of oc t' tag = oci_manifest_of oc t dg \<and> oci_manifest_of oc t' dg = oci_manifest_of oc t dg \<and>
        (\<forall>d. oci_fetch oc t' d = oci_fetch oc t d)) \<and>
     (\<forall>c j. oci_config_json oc c = Some j \<longrightarrow> oci_config_decode oc j = Some c)"

lemma push_law:
  assumes "registry_ok oc digest" "oci_push oc t m b = Some (d, t')"
  shows "de_media d = m" "oci_fetch oc t' d = Some b" "oci_fetch oc t d' = Some b' \<Longrightarrow> oci_fetch oc t' d' = Some b'"
  using assms unfolding registry_ok_def by (metis descriptor.select_convs(1))+

lemma pack_law:
  assumes "registry_ok oc digest" "oci_pack oc t m = Some (dg, t')"
  shows "dg \<noteq> []" "oci_manifest_of oc t' dg = Some m" "oci_fetch oc t' d = oci_fetch oc t d"
  using assms by (simp_all add: registry_ok_def)

lemma tag_law:
  assumes "registry_ok oc digest" "oci_tag oc t dg tag = Some t'"
  shows "oci_manifest_of oc t' tag = oci_manifest_of oc t dg" "oci_manifest_of oc t' dg = oci_manifest_of oc t dg"
    "oci_fetch oc t' d = oci_fetch oc t d"
  using assms by (simp_all add: registry_ok_def)

text \<open>
  A pushed bundle can be pulled and verified: after a successful push, pulling by the returned digest,
  or by the tag when one was given, with the signer's public key returns the engine, query and policy
  that were pushed.
\<close>

lemma push_pull_roundtrip:
  assumes "pushTo P S oc sign privLen pub tag b t = (Inr dg, t')" "registry_ok oc digest"
    and "\<And>msg. ed_verify S pub msg (sign msg)" "\<And>x. b64_decode S (b64_encode S x) = Some x" "\<And>x. b64_encode S (sign x) \<noteq> []"
    and "ref = dg \<or> ref = tag \<and> tag \<noteq> [] \<and> CHR '':'' \<notin> set tag"
  shows "\<exists>b'. pullFrom S oc t' ref (Some pub) = Inr b' \<and> bd_engine b' = bd_engine b \<and> bd_query b' = bd_query b \<and> bd_policy b' = bd_policy b"
proof -
  obtain layerType cfg configDesc t1 layerDesc t2 t3 where
    p: "layerMediaType (bd_engine b) = Some layerType" "oci_config_json oc \<lparr>bc_engine = bd_engine b, bc_query = bd_query b\<rparr> = Some cfg"
    "oci_push oc t MediaTypeConfig cfg = Some (configDesc, t1)" "oci_push oc t1 layerType (bd_policy b) = Some (layerDesc, t2)"
    "oci_pack oc t2 \<lparr>mf_config = configDesc, mf_layers = [layerDesc], mf_annotations =
       [AnnotationSignature \<mapsto> b64_encode S (sign (signingPayload configDesc layerDesc)), AnnotationSigningKey \<mapsto> b64_encode S pub,
        AnnotationKeyID \<mapsto> keyID P pub]\<rparr> = Some (dg, t3)"
    and tag: "if tag \<noteq> [] \<and> CHR '':'' \<notin> set tag then oci_tag oc t3 dg tag = Some t' else t' = t3"
    using assms(1) by (auto simp: pushTo_def Let_def split: option.splits if_splits)
  let ?m = "\<lparr>mf_config = configDesc, mf_layers = [layerDesc], mf_annotations =
       [AnnotationSignature \<mapsto> b64_encode S (sign (signingPayload configDesc layerDesc)), AnnotationSigningKey \<mapsto> b64_encode S pub,
        AnnotationKeyID \<mapsto> keyID P pub]\<rparr>"
  note blobs = push_law(3) [OF assms(2) p(4) push_law(2) [OF assms(2) p(3)]] push_law(1,2) [OF assms(2) p(4)]
  note packed = pack_law [OF assms(2) p(5)]
  have m: "oci_manifest_of oc t' ref = Some ?m \<and> ref \<noteq> [] \<and> (\<forall>d. oci_fetch oc t' d = oci_fetch oc t2 d)"
  proof (cases "tag \<noteq> [] \<and> CHR '':'' \<notin> set tag")
    case True
    then have "oci_tag oc t3 dg tag = Some t'" using tag by simp
    from tag_law [OF assms(2) this] show ?thesis using packed assms(6) by auto
  next
    case False
    then show ?thesis using tag packed assms(6) by auto
  qed
  have "engineForLayer layerType = Some (bd_engine b)" "oci_config_decode oc cfg = Some \<lparr>bc_engine = bd_engine b, bc_query = bd_query b\<rparr>"
    using p(1,2) assms(2) by (auto simp: layerMediaType_def engineForLayer_def MediaTypeLayerRego_def MediaTypeLayerCEL_def registry_ok_def split: if_splits)
  moreover have "verifySignature S ?m configDesc layerDesc pub = None"
    using assms(3-5) by (simp add: verifySignature_def AnnotationSignature_def AnnotationSigningKey_def AnnotationKeyID_def)
  ultimately show ?thesis using m blobs by (simp add: pullFrom_def)
qed

end
