(* ===== verification/Profile_Files.thy ===== *)
theory Profile_Files
  imports Govern Egress_Policy Policy_Bundle Go_Paths
begin

text \<open>
  Profile files: the schema (\<^verbatim>\<open>internal/profile/schema.go\<close>), resolution, parsing, signature enforcement
  and validation (\<^verbatim>\<open>load.go\<close>, \<^verbatim>\<open>signature.go\<close>) and the linter (\<^verbatim>\<open>lint.go\<close>). A charter extends the record
  of the profile fields that the control plane reads by the fields that only the loader, the linter and
  the backends use. The TOML and YAML decoders, the JSON codec of a signature file and CIDR parsing are
  parameters; the file system and the environment are the record \<open>host_env\<close>.
\<close>

section \<open>Schema\<close>

record network_rule =
  nr_verdict :: string
  nr_hostname :: string
  nr_cidr :: string

record network =
  nw_default :: string
  nw_rules :: "network_rule list"
  nw_enforce :: string

record projected_file =
  pf_path :: string
  pf_mode :: string
  pf_file :: string
  pf_content :: string

record fleet_spec =
  fs_replicas :: int
  fs_task_board :: "string list"

record ide_spec =
  ide_enabled :: bool
  ide_port :: int
  ide_path :: string
  ide_agents :: "string list"

record 'c charter = "'c profile" +
  ch_source :: string
  ch_host_type :: string
  ch_host_name :: string
  ch_user :: string
  ch_command :: "string list"
  ch_copy_from :: string
  ch_runtime :: string
  ch_runtime_class :: string
  ch_read_only :: bool
  ch_seccomp :: string
  ch_apparmor :: string
  ch_prompt_inline :: string
  ch_prompt_file :: string
  ch_files :: "projected_file list"
  ch_network :: network
  ch_memory :: string
  ch_cpus :: 'c
  ch_fleet :: "fleet_spec option"
  ch_sink :: string
  ch_ide :: ide_spec
  ch_packages :: "string list"

definition HostContainer :: string where
  "HostContainer = ''container''"

definition HostK8s :: string where
  "HostK8s = ''k8s''"

definition StrictEgress :: "network \<Rightarrow> bool" where
  "StrictEgress n \<longleftrightarrow> nw_default n = ''deny'' \<and> (nw_enforce n = ''strict'' \<or> nw_enforce n = ''l3'')"

definition DenyByDefault :: "network \<Rightarrow> bool" where
  "DenyByDefault n \<longleftrightarrow> nw_default n = ''deny''"

definition StrictProxyUID :: int where
  "StrictProxyUID = 1337"

section \<open>Signatures\<close>

record profile_sig =
  sg_format :: string
  sg_key_id :: string
  sg_sig :: string

datatype sig_error = SigKeySize nat | SigBad | SigDecode | SigKeyId string string | SigParse | SigMissing

definition SignatureFormat :: string where
  "SignatureFormat = ''runeward.profile.sig.v1''"

definition Verify_content :: "sigprims \<Rightarrow> string \<Rightarrow> string \<Rightarrow> string \<Rightarrow> sig_error option" where
  "Verify_content S content sig pub =
     (if length pub \<noteq> 32 then Some (SigKeySize (length pub))
      else if \<not> ed_verify S pub content sig then Some SigBad
      else None)"

text \<open>\<open>sign\<close> signs with the private key whose public key is \<open>pub\<close>.\<close>

definition NewSignature :: "prims \<Rightarrow> sigprims \<Rightarrow> (string \<Rightarrow> string) \<Rightarrow> string \<Rightarrow> string \<Rightarrow> profile_sig" where
  "NewSignature P S sign pub content =
     \<lparr>sg_format = SignatureFormat, sg_key_id = keyID P pub, sg_sig = b64_encode S (sign content)\<rparr>"

text \<open>\<open>decode\<close> is \<^verbatim>\<open>json.Unmarshal\<close> into the envelope.\<close>

definition ParseSignature :: "(string \<Rightarrow> profile_sig option) \<Rightarrow> string \<Rightarrow> (sig_error, profile_sig) result" where
  "ParseSignature decode b =
     (case decode b of
        None \<Rightarrow> Inl SigParse
      | Some s \<Rightarrow> if sg_sig s = [] then Inl SigMissing else Inr s)"

definition Signature_Verify :: "prims \<Rightarrow> sigprims \<Rightarrow> profile_sig \<Rightarrow> string \<Rightarrow> string \<Rightarrow> (sig_error, string) result" where
  "Signature_Verify P S s content pub =
     (case b64_decode S (sg_sig s) of
        None \<Rightarrow> Inl SigDecode
      | Some sig \<Rightarrow>
          (let wantID = keyID P pub in
           if sg_key_id s \<noteq> [] \<and> sg_key_id s \<noteq> wantID then Inl (SigKeyId (sg_key_id s) wantID)
           else (case Verify_content S content sig pub of Some e \<Rightarrow> Inl e | None \<Rightarrow> Inr wantID)))"

section \<open>Resolution\<close>

text \<open>\<open>he_getenv\<close> is \<^verbatim>\<open>os.Getenv\<close>, \<open>he_cwd\<close> and \<open>he_home\<close> are \<^verbatim>\<open>os.Getwd\<close> and \<^verbatim>\<open>os.UserHomeDir\<close> where they
  succeed, \<open>he_dir\<close> gives the names of a directory with whether each is a directory, sorted by name.\<close>

record host_env =
  he_getenv :: "string \<Rightarrow> string"
  he_cwd :: "string option"
  he_home :: "string option"
  he_stat :: "string \<Rightarrow> bool"
  he_read :: "string \<Rightarrow> string option"
  he_dir :: "string \<Rightarrow> (string \<times> bool) list option"

record load_options =
  lo_config_dir :: string
  lo_working_dir :: string

definition profileExts :: "string list" where
  "profileExts = [''.toml'', ''.yaml'', ''.yml'', ''.json'']"

definition validateName :: "string \<Rightarrow> bool" where
  "validateName name \<longleftrightarrow> name \<noteq> [] \<and> CHR ''/'' \<notin> set name \<and> CHR 0x5C \<notin> set name \<and> name \<noteq> ''.'' \<and> name \<noteq> ''..''"

definition searchDirs :: "host_env \<Rightarrow> load_options \<Rightarrow> string list" where
  "searchDirs H opts =
     (if lo_config_dir opts \<noteq> [] then [lo_config_dir opts]
      else
        (let wd = (if lo_working_dir opts \<noteq> [] then lo_working_dir opts else case he_cwd H of Some d \<Rightarrow> d | None \<Rightarrow> []);
             xdg = he_getenv H ''XDG_CONFIG_HOME''
         in path_join wd ''.runeward'' #
            (if xdg \<noteq> [] then [path_join xdg ''runeward'']
             else case he_home H of Some home \<Rightarrow> [path_join (path_join home ''.config'') ''runeward''] | None \<Rightarrow> [])))"

definition isProfileExt :: "string \<Rightarrow> bool" where
  "isProfileExt ext \<longleftrightarrow> list_ex (\<lambda>e. ext = e) profileExts"

text \<open>\<^verbatim>\<open>filepath.Ext\<close>: from the last dot of the last path element.\<close>

definition path_ext :: "string \<Rightarrow> string" where
  "path_ext p =
     (let base = rev (takeWhile (\<lambda>c. c \<noteq> slash) (rev p)) in
      case last_index_byte base CHR ''.'' of None \<Rightarrow> [] | Some i \<Rightarrow> drop i base)"

section \<open>Validation\<close>

datatype validate_error =
    VHostType string | VNetworkDefault string | VReservedUID | VEnvName nat | VEnvSources nat | VPolicyVerdict nat string
  | VEngine string | VRegoSource | VCELVerdict nat string | VBundleRef | VBundleKey | VBundleKeySize nat | VReplicas | VIDEPort int

text \<open>\<^verbatim>\<open>parseProfileUID\<close>, and the identical \<^verbatim>\<open>numericUID\<close> of the linter and of the backend.\<close>

definition parseProfileUID :: "string \<Rightarrow> int option" where
  "parseProfileUID user =
     (let u = takeWhile (\<lambda>c. c \<noteq> CHR '':'') (trim_space user) in
      if u = [] then None
      else if \<not> list_all (\<lambda>c. (48::nat) \<le> of_char c \<and> of_char c \<le> (57::nat)) u then None
      else atoi u)"

definition applyDefaults :: "'c charter \<Rightarrow> 'c charter" where
  "applyDefaults p =
     (let p1 = (if ch_host_type p = [] then p\<lparr>ch_host_type := HostContainer\<rparr> else p);
          p2 = (if pro_workdir p1 = [] then p1\<lparr>pro_workdir := ''/workspace''\<rparr> else p1)
      in if pro_image p2 = [] then p2\<lparr>pro_image := ''ghcr.io/runewardd/runeward-sandbox:latest''\<rparr> else p2)"

definition env_sources :: "env_var \<Rightarrow> nat" where
  "env_sources e = (if ev_value e \<noteq> [] then 1 else 0) + (if ev_file e \<noteq> [] then 1 else 0) + (if ev_op e \<noteq> [] then 1 else 0)"

fun validate_env :: "nat \<Rightarrow> env_var list \<Rightarrow> validate_error option" where
  "validate_env i [] = None"
| "validate_env i (e # es) =
     (if ev_name e = [] then Some (VEnvName i)
      else if env_sources e > 1 then Some (VEnvSources i)
      else validate_env (Suc i) es)"

fun validate_verdicts :: "(nat \<Rightarrow> string \<Rightarrow> validate_error) \<Rightarrow> (string \<Rightarrow> bool) \<Rightarrow> nat \<Rightarrow> string list \<Rightarrow> validate_error option" where
  "validate_verdicts err ok i [] = None"
| "validate_verdicts err ok i (v # vs) = (if ok v then validate_verdicts err ok (Suc i) vs else Some (err i v))"

definition validate_bundle :: "sigprims \<Rightarrow> 'c charter \<Rightarrow> validate_error option" where
  "validate_bundle S p =
     (case pro_policy_bundle p of
        None \<Rightarrow> None
      | Some b \<Rightarrow>
          if \<not> UsesPolicyBundle (profile.truncate p) then None
          else if pb_ref b = [] then Some VBundleRef
          else if pb_verify_key b = [] then None
          else (case b64_decode S (pb_verify_key b) of
                  None \<Rightarrow> Some VBundleKey
                | Some k \<Rightarrow> if length k \<noteq> 32 then Some (VBundleKeySize (length k)) else None))"

definition validate_ide :: "ide_spec \<Rightarrow> (validate_error, ide_spec) result" where
  "validate_ide i =
     (if \<not> ide_enabled i then Inr i
      else
        (let i1 = (if ide_port i = 0 then i\<lparr>ide_port := 8080\<rparr> else i) in
         if ide_port i1 < 1 \<or> ide_port i1 > 65535 then Inl (VIDEPort (ide_port i1))
         else Inr (if trim_space (ide_path i1) = [] then i1\<lparr>ide_path := ''/''\<rparr> else i1)))"

text \<open>The checks in the order of \<^verbatim>\<open>Validate\<close>, up to the one on the IDE, which also fills in defaults.\<close>

definition first_error :: "validate_error option list \<Rightarrow> validate_error option" where
  "first_error checks = (case List.map_filter id checks of [] \<Rightarrow> None | e # _ \<Rightarrow> Some e)"

definition validate_host :: "'c charter \<Rightarrow> validate_error option" where
  "validate_host p =
     (if ch_host_type p \<noteq> HostContainer \<and> ch_host_type p \<noteq> HostK8s then Some (VHostType (ch_host_type p))
      else if nw_default (ch_network p) \<notin> {[], ''allow'', ''deny''} then Some (VNetworkDefault (nw_default (ch_network p)))
      else if StrictEgress (ch_network p) \<and> parseProfileUID (ch_user p) = Some StrictProxyUID then Some VReservedUID
      else None)"

definition validate_engine :: "'c charter \<Rightarrow> validate_error option" where
  "validate_engine p =
     (if pro_policy_engine p \<notin> {[], ''builtin'', ''cel'', ''rego''} then Some (VEngine (pro_policy_engine p))
      else if pro_policy_engine p = ''rego'' \<and> (rp_module (pro_rego p) \<noteq> []) = (rp_file (pro_rego p) \<noteq> []) then Some VRegoSource
      else None)"

definition Validate :: "sigprims \<Rightarrow> 'c charter \<Rightarrow> (validate_error, 'c charter) result" where
  "Validate S p =
     (case first_error
        [validate_host p,
         validate_env 0 (pro_env p),
         validate_verdicts VPolicyVerdict known_verdict 0 (map pr_verdict (pro_policy p)),
         validate_engine p,
         validate_verdicts VCELVerdict (\<lambda>v. v = [] \<or> known_verdict v) 0 (map cel_verdict (pro_cel p)),
         validate_bundle S p,
         (case ch_fleet p of Some f \<Rightarrow> if fs_replicas f < 0 then Some VReplicas else None | None \<Rightarrow> None)] of
        Some e \<Rightarrow> Inl e
      | None \<Rightarrow> map_sum id (\<lambda>i. p\<lparr>ch_ide := i\<rparr>) (validate_ide (ch_ide p)))"

section \<open>Loading\<close>

record 'c decoders =
  dc_toml :: "string \<Rightarrow> 'c charter option"
  dc_yaml :: "string \<Rightarrow> 'c charter option"
  dc_sig :: "string \<Rightarrow> profile_sig option"

datatype load_error =
    LoadName string | LoadNotFound string | LoadRead string | LoadNoKey | LoadKey oci_error | LoadNoSignature
  | LoadSignature sig_error | LoadParse | LoadInvalid validate_error

definition signedProfileEnforcementEnabled :: "host_env \<Rightarrow> bool" where
  "signedProfileEnforcementEnabled H \<longleftrightarrow>
     to_lower (trim_space (he_getenv H ''RUNEWARD_REQUIRE_SIGNED_PROFILES'')) \<in> {''1'', ''true'', ''yes'', ''on''}"

definition verify_key_text :: "host_env \<Rightarrow> string" where
  "verify_key_text H =
     (let verifyKey = trim_space (he_getenv H ''RUNEWARD_PROFILE_VERIFY_KEY'') in
      case he_read H verifyKey of Some b \<Rightarrow> trim_space b | None \<Rightarrow> verifyKey)"

definition verifyProfileSignature :: "prims \<Rightarrow> sigprims \<Rightarrow> 'c decoders \<Rightarrow> host_env \<Rightarrow> string \<Rightarrow> string \<Rightarrow> load_error option" where
  "verifyProfileSignature P S D H path content =
     (if \<not> signedProfileEnforcementEnabled H then None
      else if trim_space (he_getenv H ''RUNEWARD_PROFILE_VERIFY_KEY'') = [] then Some LoadNoKey
      else (case DecodePublicKey S (verify_key_text H) of
              Inl e \<Rightarrow> Some (LoadKey e)
            | Inr pub \<Rightarrow>
                (case he_read H (path @ ''.sig'') of
                   None \<Rightarrow> Some LoadNoSignature
                 | Some sigBytes \<Rightarrow>
                     (case ParseSignature (dc_sig D) sigBytes of
                        Inl e \<Rightarrow> Some (LoadSignature e)
                      | Inr sig \<Rightarrow>
                          (case Signature_Verify P S sig content pub of Inl e \<Rightarrow> Some (LoadSignature e) | Inr _ \<Rightarrow> None)))))"

definition parseFile ::
  "prims \<Rightarrow> sigprims \<Rightarrow> 'c decoders \<Rightarrow> host_env \<Rightarrow> string \<Rightarrow> string \<Rightarrow> (load_error, 'c charter) result" where
  "parseFile P S D H path name =
     (case he_read H path of
        None \<Rightarrow> Inl (LoadRead path)
      | Some data \<Rightarrow>
          (case verifyProfileSignature P S D H path data of
             Some e \<Rightarrow> Inl e
           | None \<Rightarrow>
               (case (if path_ext path = ''.toml'' then dc_toml D data else dc_yaml D data) of
                  None \<Rightarrow> Inl LoadParse
                | Some p \<Rightarrow> map_sum LoadInvalid id (Validate S (applyDefaults (p\<lparr>pro_name := name, ch_source := path\<rparr>))))))"

definition candidate_paths :: "host_env \<Rightarrow> load_options \<Rightarrow> string \<Rightarrow> string list" where
  "candidate_paths H opts name =
     concat (map (\<lambda>dir. map (\<lambda>ext. path_join dir (name @ ext)) profileExts) (searchDirs H opts))"

definition Load_profile ::
  "prims \<Rightarrow> sigprims \<Rightarrow> 'c decoders \<Rightarrow> host_env \<Rightarrow> load_options \<Rightarrow> string \<Rightarrow> (load_error, 'c charter) result" where
  "Load_profile P S D H opts name =
     (if \<not> validateName name then Inl (LoadName name)
      else (case find (he_stat H) (candidate_paths H opts name) of
              Some path \<Rightarrow> parseFile P S D H path name
            | None \<Rightarrow> Inl (LoadNotFound name)))"

definition trim_suffix :: "string \<Rightarrow> string \<Rightarrow> string" where
  "trim_suffix s t = (if has_suffix s t then take (length s - length t) s else s)"

fun list_entries :: "(string \<times> bool) list \<Rightarrow> string list \<Rightarrow> string list" where
  "list_entries [] names = names"
| "list_entries ((entry, isDir) # es) names =
     (let ext = path_ext entry; n = trim_suffix entry ext in
      if isDir \<or> \<not> isProfileExt ext \<or> n \<in> set names then list_entries es names
      else list_entries es (names @ [n]))"

fun list_dirs :: "host_env \<Rightarrow> string list \<Rightarrow> string list \<Rightarrow> string list" where
  "list_dirs H [] names = names"
| "list_dirs H (d # ds) names =
     (case he_dir H d of None \<Rightarrow> list_dirs H ds names | Some es \<Rightarrow> list_dirs H ds (list_entries es names))"

definition List_profiles :: "host_env \<Rightarrow> load_options \<Rightarrow> string list" where
  "List_profiles H opts = sort_key id (list_dirs H (searchDirs H opts) [])"

section \<open>Properties\<close>

lemma first_error_None: "first_error checks = None \<longleftrightarrow> list_all (\<lambda>c. c = None) checks"
  by (induction checks) (auto simp: first_error_def List.map_filter_def split: option.splits list.splits)

lemma validate_verdicts_None: "validate_verdicts err ok i vs = None \<longleftrightarrow> list_all ok vs"
  by (induction vs arbitrary: i) auto

lemma validate_env_None: "validate_env i es = None \<longleftrightarrow> list_all (\<lambda>e. ev_name e \<noteq> [] \<and> env_sources e \<le> 1) es"
  by (induction es arbitrary: i) auto

lemma Validate_ok:
  assumes "Validate S p = Inr q"
  obtains i where "validate_ide (ch_ide p) = Inr i" "q = p\<lparr>ch_ide := i\<rparr>" "validate_host p = None" "validate_engine p = None"
    "list_all known_verdict (map pr_verdict (pro_policy p))" "validate_bundle S p = None"
    "list_all (\<lambda>v. v = [] \<or> known_verdict v) (map cel_verdict (pro_cel p))"
    "list_all (\<lambda>e. ev_name e \<noteq> [] \<and> env_sources e \<le> 1) (pro_env p)"
  using assms
  by (cases "validate_ide (ch_ide p)")
     (auto simp: Validate_def first_error_None validate_verdicts_None validate_env_None split: option.splits)

lemma map_sum_Inr [simp]: "map_sum f id x = Inr y \<longleftrightarrow> x = Inr y"
  by (cases x) auto

lemma map_sum_Inl: "map_sum f g x = Inl y \<longleftrightarrow> (\<exists>z. x = Inl z \<and> y = f z)"
  by (cases x) auto

lemma parseFile_ok:
  assumes "parseFile P S D H path name = Inr p"
  obtains data raw where "he_read H path = Some data" "verifyProfileSignature P S D H path data = None"
    "(if path_ext path = ''.toml'' then dc_toml D data else dc_yaml D data) = Some raw"
    "Validate S (applyDefaults (raw\<lparr>pro_name := name, ch_source := path\<rparr>)) = Inr p"
  using assms by (auto simp: parseFile_def split: option.splits sum.splits)

lemma verifyProfileSignature_ok:
  assumes "verifyProfileSignature P S D H path data = None" "signedProfileEnforcementEnabled H"
  shows "\<exists>pub sig. DecodePublicKey S (verify_key_text H) = Inr pub \<and> ed_verify S pub data sig"
  using assms
  by (auto simp: verifyProfileSignature_def Signature_Verify_def Verify_content_def Let_def split: option.splits sum.splits if_splits)

lemma defaults_keep [simp]:
  "pro_name (applyDefaults p) = pro_name p" "ch_source (applyDefaults p) = ch_source p" "pro_policy (applyDefaults p) = pro_policy p"
  "ch_network (applyDefaults p) = ch_network p" "pro_policy_engine (applyDefaults p) = pro_policy_engine p"
  "pro_cel (applyDefaults p) = pro_cel p" "pro_policy_bundle (applyDefaults p) = pro_policy_bundle p" "ch_user (applyDefaults p) = ch_user p"
  "pro_env (applyDefaults p) = pro_env p" "pro_limits (applyDefaults p) = pro_limits p" "ch_files (applyDefaults p) = ch_files p"
  by (simp_all add: applyDefaults_def Let_def)

lemma ext_no_slash: "ext \<in> set profileExts \<Longrightarrow> slash \<notin> set ext \<and> length ext > 3"
  by (auto simp: profileExts_def)

lemma profile_entry:
  assumes "validateName name" "ext \<in> set profileExts" "is_abs dir"
  shows "path_join dir (name @ ext) = abs_path (rooted_comps dir @ [name @ ext])"
proof -
  have name: "slash \<notin> set (name @ ext)" "length (name @ ext) > 3"
    using assms(1) ext_no_slash [OF assms(2)] by (auto simp: validateName_def)
  then have "proper_name (name @ ext)" by (auto simp: proper_name_def dest!: arg_cong [where f = length])
  moreover have "rooted_comps (dir @ slash # (name @ ext)) = clean_comps True [] (split_byte slash dir @ [name @ ext])"
    using name(1) split_byte_no_sep [of slash "name @ ext"] by (simp add: split_byte_append_sep)
  moreover have "clean_comps True out (cs @ [c]) = clean_comps True out cs @ [c]" if "proper_name c" for c cs out
    using that by (induction cs arbitrary: out) (auto simp: proper_name_def)
  moreover have "is_abs (dir @ slash # (name @ ext))" "dir \<noteq> []" using assms(3) by (auto simp: is_abs_def)
  ultimately show ?thesis by (simp add: path_join_def path_clean_abs)
qed

lemma candidate_paths_set:
  "path \<in> set (candidate_paths H opts name) \<longleftrightarrow>
   (\<exists>dir \<in> set (searchDirs H opts). \<exists>ext \<in> set profileExts. path = path_join dir (name @ ext))"
  by (auto simp: candidate_paths_def)


text \<open>
  C26. A loaded profile fails closed: whatever engine the control plane builds from a profile that
  \<^verbatim>\<open>Load_profile\<close> accepted, unless its rules come from a bundle, the engine answers every action with one of the
  three verdicts that the governed path knows.
\<close>

theorem loaded_profile_has_known_verdicts:
  assumes "Load_profile P S D H opts name = Inr p" "\<not> UsesPolicyBundle (profile.truncate p)"
    and "newEngine E envDefault (profile.truncate p) = Inr e"
  shows "dec_verdict (engine_Evaluate e a) \<in> {VerdictAllow, VerdictDeny, VerdictRequireApprove}"
proof -
  obtain q where "Validate S q = Inr p" using assms(1) by (auto simp: Load_profile_def split: if_splits option.splits elim!: parseFile_ok)
  then have rules: "list_all (known_verdict \<circ> pr_verdict) (pro_policy p)" "list_all (\<lambda>r. cel_verdict r = [] \<or> known_verdict (cel_verdict r)) (pro_cel p)"
    by (auto elim!: Validate_ok simp: list_all_iff)
  have def_ok: "known_verdict (noMatchPolicyVerdict envDefault (Some (profile.truncate p)))"
    by (auto simp: noMatchPolicyVerdict_def known_verdict_def Let_def)
  have cel: "list_all (known_verdict \<circ> cr_verdict) crs" if "compile_rules c rs = Some crs" "list_all (\<lambda>r. cel_verdict r = [] \<or> known_verdict (cel_verdict r)) rs" for c rs crs
    using that by (induction rs arbitrary: crs) (auto simp: Let_def known_verdict_def split: if_splits option.splits)
  have "wf_impl e"
    using assms(2,3) rules def_ok cel
    by (auto simp: newEngine_def mkRego_def mkCEL_def NewCEL_def NewRego_def New_def wf_builtin_def wf_cel_def wf_rego_def Let_def profile.truncate_def
        split: if_splits option.splits)
  then show ?thesis using impl.evaluate_known by (auto simp: known_verdict_def)
qed

text \<open>A profile file in a pinned directory, signed with a scheme whose signature is the text itself.\<close>

definition charter0 :: "int charter" where
  "charter0 = profile.extend
     (profile0\<lparr>pro_policy := [\<lparr>pr_tool = ''shell'', pr_match = ''rm*'', pr_match_argv = [], pr_verdict = VerdictDeny, pr_reason = []\<rparr>]\<rparr>)
     (charter.fields [] [] [] [] [] [] [] [] False [] [] [] [] [] \<lparr>nw_default = [], nw_rules = [], nw_enforce = []\<rparr> [] 0 None []
        \<lparr>ide_enabled = False, ide_port = 0, ide_path = [], ide_agents = []\<rparr> [])"

definition host0 :: host_env where
  "host0 = \<lparr>he_getenv = (\<lambda>v. if v = ''RUNEWARD_REQUIRE_SIGNED_PROFILES'' then ''1''
                              else if v = ''RUNEWARD_PROFILE_VERIFY_KEY'' then ''k'' else []),
     he_cwd = None, he_home = None, he_stat = (\<lambda>p. p = ''/c/dev.yaml''),
     he_read = (\<lambda>p. if p = ''/c/dev.yaml'' then Some ''text'' else if p = ''/c/dev.yaml.sig'' then Some ''sig'' else None),
     he_dir = (\<lambda>d. if d = ''/c'' then Some [(''dev.yaml'', False)] else None)\<rparr>"

definition sign0 :: sigprims where
  "sign0 = \<lparr>ed_verify = (\<lambda>pub msg sig. sig = msg), b64_encode = (\<lambda>x. x),
     b64_decode = (\<lambda>x. if x = ''k'' then Some (replicate 32 CHR ''k'') else Some x)\<rparr>"

definition decoders0 :: "int decoders" where
  "decoders0 = \<lparr>dc_toml = (\<lambda>_. None), dc_yaml = (\<lambda>_. Some charter0),
     dc_sig = (\<lambda>_. Some \<lparr>sg_format = SignatureFormat, sg_key_id = [], sg_sig = ''text''\<rparr>)\<rparr>"

definition pinned0 :: load_options where
  "pinned0 = \<lparr>lo_config_dir = ''/c'', lo_working_dir = []\<rparr>"

lemma load_charter0: "\<exists>p. Load_profile P sign0 decoders0 host0 pinned0 ''dev'' = Inr p \<and> pro_policy_bundle p = None \<and> pro_policy_engine p = [] \<and>
  pro_policy p = pro_policy charter0"
proof -
  have paths: "candidate_paths host0 pinned0 ''dev'' = [''/c/dev.toml'', ''/c/dev.yaml'', ''/c/dev.yml'', ''/c/dev.json'']"
    by code_simp
  have ext: "path_ext ''/c/dev.yaml'' = ''.yaml''" by code_simp
  have keys: "trim_space ''k'' = ''k''" "to_lower (trim_space ''1'') = ''1''" by code_simp+
  have sig: "verifyProfileSignature P sign0 decoders0 host0 ''/c/dev.yaml'' ''text'' = None"
    by (simp add: verifyProfileSignature_def signedProfileEnforcementEnabled_def verify_key_text_def DecodePublicKey_def ParseSignature_def
        Signature_Verify_def Verify_content_def sign0_def host0_def decoders0_def keys Let_def)
  have val: "\<exists>p. Validate sign0 (applyDefaults (charter0\<lparr>pro_name := ''dev'', ch_source := ''/c/dev.yaml''\<rparr>)) = Inr p \<and>
      pro_policy_bundle p = None \<and> pro_policy_engine p = [] \<and> pro_policy p = pro_policy charter0"
    by (simp add: Validate_def first_error_def List.map_filter_simps validate_host_def validate_engine_def validate_bundle_def validate_ide_def
        applyDefaults_def charter0_def profile0_def profile.defs charter.defs StrictEgress_def HostContainer_def known_verdict_def)
  have found: "find (he_stat host0) [''/c/dev.toml'', ''/c/dev.yaml'', ''/c/dev.yml'', ''/c/dev.json''] = Some ''/c/dev.yaml''"
    "he_read host0 ''/c/dev.yaml'' = Some ''text''" "dc_yaml decoders0 ''text'' = Some charter0"
    by (simp_all add: host0_def decoders0_def)
  have "Load_profile P sign0 decoders0 host0 pinned0 ''dev'' =
      map_sum LoadInvalid id (Validate sign0 (applyDefaults (charter0\<lparr>pro_name := ''dev'', ch_source := ''/c/dev.yaml''\<rparr>)))"
    unfolding Load_profile_def paths found(1) by (simp add: validateName_def parseFile_def sig ext found(2,3))
  with val show ?thesis by auto
qed


theorem loaded_profile_has_known_verdicts_witness:
  "\<exists>p e. Load_profile id_prims sign0 decoders0 host0 pinned0 ''dev'' = Inr p \<and>
     (\<forall>a. dec_verdict (engine_Evaluate e a) \<in> {VerdictAllow, VerdictDeny, VerdictRequireApprove}) \<and>
     dec_verdict (engine_Evaluate e \<lparr>act_tool = ''shell'', act_arg = ''rm x'', act_args = []\<rparr>) = VerdictDeny"
proof -
  obtain p where p: "Load_profile id_prims sign0 decoders0 host0 pinned0 ''dev'' = Inr p" "pro_policy_bundle p = None" "pro_policy_engine p = []"
    "pro_policy p = pro_policy charter0"
    using load_charter0 by blast
  let ?e = "BuiltinEngine (New (pro_policy p) (noMatchPolicyVerdict [] (Some (profile.truncate p))))"
  have nb: "\<not> UsesPolicyBundle (profile.truncate p)" using p(2) by (simp add: UsesPolicyBundle_def profile.truncate_def)
  have e: "newEngine E [] (profile.truncate p) = Inr ?e" for E
    using nb p(3) by (simp add: newEngine_def UsesRego_def UsesCEL_def Let_def profile.truncate_def)
  have "rule_fires (hd (pro_policy p)) \<lparr>act_tool = ''shell'', act_arg = ''rm x'', act_args = []\<rparr>" unfolding p(4) by code_simp
  then have "dec_verdict (engine_Evaluate ?e \<lparr>act_tool = ''shell'', act_arg = ''rm x'', act_args = []\<rparr>) = VerdictDeny"
    by (simp add: Evaluate_def New_def p(4) charter0_def profile.defs rule_decision_def)
  with loaded_profile_has_known_verdicts [OF p(1) nb e] p(1) show ?thesis by blast
qed

text \<open>
  The rules of a bundle are not validated: a CEL fragment with a misspelt verdict gives an engine that
  answers with the misspelt word, which the governed path takes for permission.
\<close>

lemma bundle_verdicts_are_not_validated:
  fixes p :: "int profile"
  assumes "pro_policy_bundle p = Some \<lparr>pb_ref = ''r'', pb_verify_key = [], pb_plain_http = False, pb_insecure = True\<rparr>"
    and "ep_pull E ''r'' None False = Some \<lparr>bp_engine = ''cel'', bp_policy = pol, bp_query = []\<rparr>"
    and "ep_cel_fragment E pol = Some [\<lparr>cel_expr = ''true'', cel_verdict = ''denied'', cel_reason = []\<rparr>]"
    and "ep_compile E ''true'' = Some (\<lambda>_ _. Inr True)"
  shows "\<exists>e. newEngine E [] p = Inr e \<and> (\<forall>a. dec_verdict (engine_Evaluate e a) = ''denied'')"
  using assms
  by (auto simp: newEngine_def newBundleEngine_def UsesPolicyBundle_def mkCEL_def NewCEL_def CEL_Evaluate_def Let_def)

text \<open>A profile that \<^verbatim>\<open>List\<close> offers under a valid name is found by \<^verbatim>\<open>Load_profile\<close>.\<close>

lemma list_entries_names:
  "n \<in> set (list_entries es names) \<Longrightarrow>
   n \<in> set names \<or> (\<exists>e. (e, False) \<in> set es \<and> path_ext e \<in> set profileExts \<and> n = trim_suffix e (path_ext e))"
  by (induction es names rule: list_entries.induct) (auto simp: Let_def isProfileExt_def list_ex_iff split: if_splits)

lemma list_dirs_names:
  "n \<in> set (list_dirs H ds names) \<Longrightarrow>
   n \<in> set names \<or> (\<exists>d \<in> set ds. \<exists>es e. he_dir H d = Some es \<and> (e, False) \<in> set es \<and> path_ext e \<in> set profileExts \<and> n = trim_suffix e (path_ext e))"
proof (induction H ds names rule: list_dirs.induct)
  case (2 H d ds names)
  show ?case
  proof (cases "he_dir H d")
    case None
    with 2 show ?thesis by auto
  next
    case (Some es)
    with "2.prems" have "n \<in> set (list_dirs H ds (list_entries es names))" by simp
    with "2.IH"(2) [OF Some] list_entries_names [of n es names] Some show ?thesis by auto
  qed
qed simp

lemma path_ext_split:
  assumes "slash \<notin> set e"
  shows "trim_suffix e (path_ext e) @ path_ext e = e"
proof -
  have "takeWhile (\<lambda>c. c \<noteq> slash) (rev e) = rev e" using assms by (intro takeWhile_eq_all_conv [THEN iffD2]) auto
  then have "path_ext e = (case last_index_byte e CHR ''.'' of None \<Rightarrow> [] | Some i \<Rightarrow> drop i e)" by (simp only: path_ext_def rev_rev_ident Let_def)
  then have "suffix (path_ext e) e" by (simp add: suffix_drop split: option.split)
  then obtain zs where "e = zs @ path_ext e" "has_suffix e (path_ext e)" by (auto simp: suffix_def has_suffix_def)
  then show ?thesis by (metis trim_suffix_def append_eq_conv_conj length_append diff_add_inverse2)
qed

lemma listed_profile_is_found:
  assumes "n \<in> set (List_profiles H opts)" "validateName n"
    and "\<And>d es e. he_dir H d = Some es \<Longrightarrow> (e, False) \<in> set es \<Longrightarrow> slash \<notin> set e \<and> he_stat H (path_join d e)"
  shows "Load_profile P S D H opts n \<noteq> Inl (LoadNotFound n)"
proof -
  obtain d es e where e: "d \<in> set (searchDirs H opts)" "he_dir H d = Some es" "(e, False) \<in> set es" "path_ext e \<in> set profileExts"
    "n = trim_suffix e (path_ext e)"
    using assms(1) list_dirs_names [of n H "searchDirs H opts" "[]"] by (auto simp: List_profiles_def)
  then have "n @ path_ext e = e" using path_ext_split assms(3) by blast
  then have "path_join d e = path_join d (n @ path_ext e)" by simp
  then have "path_join d e \<in> set (candidate_paths H opts n)" using e(1,4) unfolding candidate_paths_set by blast
  then have "find (he_stat H) (candidate_paths H opts n) \<noteq> None" using assms(3) e(2,3) by (auto simp: find_None_iff)
  moreover have "parseFile P S D H path n \<noteq> Inl (LoadNotFound n)" for path
    by (auto simp: parseFile_def verifyProfileSignature_def map_sum_Inl split: option.splits sum.splits if_splits)
  ultimately show ?thesis using assms(2) by (auto simp: Load_profile_def split: option.splits)
qed

text \<open>A fresh signature verifies.\<close>

lemma signature_roundtrip:
  assumes "b64_decode S (b64_encode S (sign content)) = Some (sign content)" "length pub = 32" "ed_verify S pub content (sign content)"
  shows "Signature_Verify P S (NewSignature P S sign pub content) content pub = Inr (keyID P pub)"
  using assms by (simp add: Signature_Verify_def NewSignature_def Verify_content_def)

end
