(* ===== verification/Profile_Lint.thy ===== *)
theory Profile_Lint
  imports Profile_Files
begin

text \<open>
  The profile linter (\<^verbatim>\<open>internal/profile/lint.go\<close>) and the translation of a profile's network section into an
  egress policy (\<^verbatim>\<open>internal/backend/egress.go\<close>). The text of a finding is a constructor of \<open>lint_msg\<close> with
  the values that are printed in it. The properties compare what the linter says about unreachable rules
  with what the policy engine and the egress policy decide.
\<close>

section \<open>Findings\<close>

datatype lint_msg =
    NoImage | CopyFromMissing string | ReservedUID | WritableRootfs | BroadProjection string
  | EmptyExecutable | UnsupportedCapability string | DuplicateCapability string
  | DuplicateEnv string nat | SecretAtRuntime string string | SecretNotBuiltIn string string | EnvFileMissing string string
  | StrictNoAllow | DenyNoAllow | HostnameList string | NetworkUnreachable nat
  | NoPolicyRules | NoVerdict | BadVerdict string | PolicyUnreachable nat string

record lint_finding =
  fi_severity :: string
  fi_field :: string
  fi_msg :: lint_msg

definition SeverityError :: string where
  "SeverityError = ''error''"

definition SeverityWarn :: string where
  "SeverityWarn = ''warn''"

definition finding_of :: "string \<Rightarrow> string \<Rightarrow> lint_msg \<Rightarrow> lint_finding" where
  "finding_of sev field msg = \<lparr>fi_severity = sev, fi_field = field, fi_msg = msg\<rparr>"

text \<open>The path \<^verbatim>\<open>stanza[i]\<close> of a finding.\<close>

definition indexed :: "string \<Rightarrow> nat \<Rightarrow> string" where
  "indexed stanza i = stanza @ ''['' @ show_nat i @ '']''"

definition pathExists :: "host_env \<Rightarrow> string \<Rightarrow> bool" where
  "pathExists H path =
     (if path = [] then False
      else if has_prefix path ''~/'' then
        (case he_home H of Some home \<Rightarrow> he_stat H (path_join home (drop 2 path)) | None \<Rightarrow> he_stat H path)
      else he_stat H path)"

definition isRootUser :: "string \<Rightarrow> bool" where
  "isRootUser user = (let u = to_lower (trim_space user) in u = [] \<or> u = ''root'' \<or> parseProfileUID u = Some 0)"

definition isBroadProjectionPath :: "string \<Rightarrow> bool" where
  "isBroadProjectionPath pth = is_abs (path_clean (trim_space pth))"

definition validVerdict_lint :: "verdict \<Rightarrow> bool" where
  "validVerdict_lint v \<longleftrightarrow> v = VerdictAllow \<or> v = VerdictDeny \<or> v = VerdictRequireApprove"

definition isAllowVerdict :: "string \<Rightarrow> bool" where
  "isAllowVerdict v0 = (let v = to_lower (trim_space v0) in v = [] \<or> v = ''allow'')"

section \<open>Shadowed rules\<close>

definition toolCovers :: "string \<Rightarrow> string \<Rightarrow> bool" where
  "toolCovers a b \<longleftrightarrow> a = ''*'' \<or> a = b"

definition isCatchAllGlob :: "string \<Rightarrow> bool" where
  "isCatchAllGlob s \<longleftrightarrow> s = [] \<or> s = ''*''"

definition policyRuleShadows :: "policy_rule \<Rightarrow> policy_rule \<Rightarrow> bool" where
  "policyRuleShadows a b \<longleftrightarrow> toolCovers (pr_tool a) (pr_tool b) \<and> isCatchAllGlob (pr_match a) \<and> isCatchAllGlob (pr_match_argv a)"

definition ruleToolLabel :: "string \<Rightarrow> string" where
  "ruleToolLabel t = (if t = ''*'' then ''* (any)'' else t)"

definition hostnamePatternCovers :: "string \<Rightarrow> string \<Rightarrow> bool" where
  "hostnamePatternCovers a0 b0 =
     (let a = to_lower (trim_space a0); b = to_lower (trim_space b0) in
      if a = [] \<or> b = [] then False
      else if a = b then True
      else (case cut_prefix a ''*.'' of
              None \<Rightarrow> False
            | Some sfx \<Rightarrow>
                (case cut_prefix b ''*.'' of
                   Some bSuffix \<Rightarrow> bSuffix = sfx \<or> has_suffix bSuffix (''.'' @ sfx)
                 | None \<Rightarrow> has_suffix b (''.'' @ sfx) \<and> length b > length sfx + 1)))"

text \<open>What \<^verbatim>\<open>net.ParseCIDR\<close> returns: the address, and the network with the size of its mask and its
  membership test.\<close>

record 'ip cidr_block =
  cb_ip :: 'ip
  cb_ones :: nat
  cb_bits :: nat
  cb_contains :: "'ip \<Rightarrow> bool"

definition cidrCovers :: "(string \<Rightarrow> 'ip cidr_block option) \<Rightarrow> string \<Rightarrow> string \<Rightarrow> bool" where
  "cidrCovers parseCIDR a b =
     (case parseCIDR (trim_space a) of
        None \<Rightarrow> False
      | Some aNet \<Rightarrow>
          (case parseCIDR (trim_space b) of
             None \<Rightarrow> False
           | Some bNet \<Rightarrow>
               if cb_bits aNet \<noteq> cb_bits bNet \<or> cb_ones aNet > cb_ones bNet then False
               else cb_contains aNet (cb_ip bNet)))"

definition networkRuleShadows :: "(string \<Rightarrow> 'ip cidr_block option) \<Rightarrow> network_rule \<Rightarrow> network_rule \<Rightarrow> bool" where
  "networkRuleShadows parseCIDR a b \<longleftrightarrow>
     (nr_hostname b \<noteq> [] \<and> nr_hostname a \<noteq> [] \<and> hostnamePatternCovers (nr_hostname a) (nr_hostname b)) \<or>
     (nr_cidr b \<noteq> [] \<and> nr_cidr a \<noteq> [] \<and> cidrCovers parseCIDR (nr_cidr a) (nr_cidr b))"

text \<open>The first earlier rule that shadows rule \<open>j\<close>.\<close>

definition shadowed_by :: "('r \<Rightarrow> 'r \<Rightarrow> bool) \<Rightarrow> 'r list \<Rightarrow> nat \<Rightarrow> nat option" where
  "shadowed_by shadows rules j = find (\<lambda>i. shadows (rules ! i) (rules ! j)) [0..<j]"

section \<open>The linters\<close>

definition lintHostFootguns :: "'c charter \<Rightarrow> lint_finding list" where
  "lintHostFootguns p =
     (if StrictEgress (ch_network p) \<and> parseProfileUID (ch_user p) = Some StrictProxyUID
      then [finding_of SeverityError ''host.user'' ReservedUID] else []) @
     (if \<not> ch_read_only p \<and> (StrictEgress (ch_network p) \<or> ch_runtime_class p \<noteq> [])
      then [finding_of SeverityWarn ''host.read_only'' WritableRootfs] else []) @
     (if \<not> isRootUser (ch_user p) then []
      else List.map_filter (\<lambda>(i, f). if isBroadProjectionPath (pf_path f)
             then Some (finding_of SeverityWarn (indexed ''file'' i @ ''.path'') (BroadProjection (pf_path f))) else None)
             (enumerate 0 (ch_files p)))"

fun lint_capability_list :: "nat \<Rightarrow> string list \<Rightarrow> string list \<Rightarrow> lint_finding list" where
  "lint_capability_list i seen [] = []"
| "lint_capability_list i seen (raw # raws) =
     (let capability = to_lower (trim_space raw); field = indexed ''capabilities'' i in
      if \<not> known_capability capability
      then finding_of SeverityError field (UnsupportedCapability raw) # lint_capability_list (Suc i) seen raws
      else (if capability \<in> set seen then [finding_of SeverityWarn field (DuplicateCapability capability)] else []) @
           lint_capability_list (Suc i) (capability # seen) raws)"

definition lintCapabilities :: "'c charter \<Rightarrow> lint_finding list" where
  "lintCapabilities p =
     (case ch_command p of
        c # _ \<Rightarrow> if trim_space c = [] then [finding_of SeverityError ''host.command[0]'' EmptyExecutable] else []
      | [] \<Rightarrow> []) @
     lint_capability_list 0 [] (pro_capabilities p)"

definition secret_scheme :: "string \<Rightarrow> string" where
  "secret_scheme op = (case str_index op ''://'' of Some i \<Rightarrow> take i op | None \<Rightarrow> op)"

fun lint_env_list :: "host_env \<Rightarrow> nat \<Rightarrow> (string \<rightharpoonup> nat) \<Rightarrow> env_var list \<Rightarrow> lint_finding list" where
  "lint_env_list H i seen [] = []"
| "lint_env_list H i seen (e # es) =
     (let field = indexed ''env'' i;
          dup = (if ev_name e = [] then [] else case seen (ev_name e) of
                   Some first \<Rightarrow> [finding_of SeverityError (field @ ''.name'') (DuplicateEnv (ev_name e) first)] | None \<Rightarrow> []);
          seen' = (if ev_name e = [] \<or> seen (ev_name e) \<noteq> None then seen else seen(ev_name e \<mapsto> i));
          op = (if ev_op e = [] then []
                else if secret_scheme (ev_op e) \<in> {''env'', ''vault''}
                then [finding_of SeverityWarn (field @ ''.op'') (SecretAtRuntime (ev_name e) (ev_op e))]
                else [finding_of SeverityError (field @ ''.op'') (SecretNotBuiltIn (ev_name e) (ev_op e))]);
          missing = (if ev_file e \<noteq> [] \<and> \<not> pathExists H (ev_file e)
                     then [finding_of SeverityWarn (field @ ''.file'') (EnvFileMissing (ev_name e) (ev_file e))] else [])
      in dup @ op @ missing @ lint_env_list H (Suc i) seen' es)"

definition lintEnv :: "host_env \<Rightarrow> 'c charter \<Rightarrow> lint_finding list" where
  "lintEnv H p = lint_env_list H 0 Map.empty (pro_env p)"

definition lintNetwork :: "(string \<Rightarrow> 'ip cidr_block option) \<Rightarrow> 'c charter \<Rightarrow> lint_finding list" where
  "lintNetwork parseCIDR p =
     (let rules = nw_rules (ch_network p) in
      (if DenyByDefault (ch_network p) \<and> \<not> list_ex (\<lambda>r. isAllowVerdict (nr_verdict r)) rules
       then (if StrictEgress (ch_network p) then [finding_of SeverityWarn ''network.enforce'' StrictNoAllow]
             else [finding_of SeverityWarn ''network.default'' DenyNoAllow])
       else []) @
      List.map_filter (\<lambda>(i, r).
         (let h = trim_space (nr_hostname r) in
          if h \<noteq> [] \<and> (\<exists>c \<in> set h. c \<in> {CHR '','', CHR '' '', CHR 0x09})
          then Some (finding_of SeverityError (indexed ''network.rule'' i @ ''.hostname'') (HostnameList (nr_hostname r))) else None))
         (enumerate 0 rules) @
      List.map_filter (\<lambda>j. map_option (\<lambda>i. finding_of SeverityWarn (indexed ''network.rule'' j) (NetworkUnreachable i))
                             (shadowed_by (networkRuleShadows parseCIDR) rules j))
         [0..<length rules])"

definition lintPolicy :: "'c charter \<Rightarrow> lint_finding list" where
  "lintPolicy p =
     (let rules = pro_policy p in
      (if rules = [] \<and> (pro_policy_engine p = [] \<or> pro_policy_engine p = ''builtin'')
       then [finding_of SeverityWarn ''policy'' NoPolicyRules] else []) @
      List.map_filter (\<lambda>(i, r). if validVerdict_lint (pr_verdict r) then None
         else Some (finding_of SeverityError (indexed ''policy'' i) (if pr_verdict r = [] then NoVerdict else BadVerdict (pr_verdict r))))
         (enumerate 0 rules) @
      List.map_filter (\<lambda>j. map_option (\<lambda>i. finding_of SeverityError (indexed ''policy'' j)
                                             (PolicyUnreachable i (ruleToolLabel (pr_tool (rules ! i)))))
                             (shadowed_by policyRuleShadows rules j))
         [0..<length rules])"

definition Lint :: "host_env \<Rightarrow> (string \<Rightarrow> 'ip cidr_block option) \<Rightarrow> 'c charter \<Rightarrow> lint_finding list" where
  "Lint H parseCIDR p =
     (if trim_space (pro_image p) = [] then [finding_of SeverityWarn ''host.image'' NoImage] else []) @
     (if ch_copy_from p \<noteq> [] \<and> \<not> pathExists H (ch_copy_from p)
      then [finding_of SeverityWarn ''host.copy_from'' (CopyFromMissing (ch_copy_from p))] else []) @
     lintHostFootguns p @ lintCapabilities p @ lintEnv H p @ lintNetwork parseCIDR p @ lintPolicy p"

section \<open>From the network section to the egress policy\<close>

definition policyFromNetwork :: "network \<Rightarrow> egress_policy" where
  "policyFromNetwork n =
     \<lparr>ep_default = (if nw_default n = [] then ''allow'' else nw_default n),
      ep_rules = map (\<lambda>r. \<lparr>eg_verdict = (if nr_verdict r = [] then ''allow'' else nr_verdict r),
                           eg_hostname = nr_hostname r, eg_cidr = nr_cidr r\<rparr>) (nw_rules n)\<rparr>"

definition proxyEnv :: "string \<Rightarrow> (string \<times> string) list" where
  "proxyEnv proxyURL =
     [(''HTTP_PROXY'', proxyURL), (''HTTPS_PROXY'', proxyURL), (''http_proxy'', proxyURL), (''https_proxy'', proxyURL),
      (''NO_PROXY'', ''localhost,127.0.0.1,::1''), (''no_proxy'', ''localhost,127.0.0.1,::1'')]"

section \<open>Properties\<close>

definition without :: "nat \<Rightarrow> 'r list \<Rightarrow> 'r list" where
  "without j rules = take j rules @ drop (Suc j) rules"

text \<open>An element that only ever comes after a match is not the first match.\<close>

lemma find_without:
  assumes "i < j" "j < length xs" "P (xs ! j) \<Longrightarrow> P (xs ! i)"
  shows "find P (without j xs) = find P xs"
proof -
  have split: "xs = take j xs @ xs ! j # drop (Suc j) xs" using assms(2) by (rule id_take_nth_drop)
  show ?thesis
  proof (cases "find P (take j xs)")
    case None
    moreover have "xs ! i \<in> set (take j xs)" using assms(1,2) by (auto simp: in_set_conv_nth)
    ultimately have "\<not> P (xs ! j)" using assms(3) by (auto simp: find_None_iff)
    then have "find P (xs ! j # drop (Suc j) xs) = find P (drop (Suc j) xs)" by simp
    with None split show ?thesis unfolding without_def by (metis find_append)
  next
    case (Some x)
    with split show ?thesis unfolding without_def by (metis (no_types, lifting) find_append option.simps(5))
  qed
qed

lemma map_without: "map f (without j xs) = without j (map f xs)"
  by (simp add: without_def take_map drop_map)

lemma shadowed_by_Some:
  "shadowed_by shadows rules j = Some i \<Longrightarrow> i < j \<and> shadows (rules ! i) (rules ! j)"
  by (auto simp: shadowed_by_def find_Some_iff)

lemma indexed_inject [simp]: "indexed stanza i = indexed stanza j \<longleftrightarrow> i = j"
  by (simp add: indexed_def)

lemma in_map_filter: "y \<in> set (List.map_filter f xs) \<longleftrightarrow> (\<exists>x \<in> set xs. f x = Some y)"
  by (force simp: List.map_filter_def)

lemma lintNetwork_unreachable:
  assumes "finding_of SeverityWarn (indexed ''network.rule'' j) (NetworkUnreachable i) \<in> set (lintNetwork parseCIDR p)"
  shows "i < j \<and> j < length (nw_rules (ch_network p)) \<and>
    networkRuleShadows parseCIDR (nw_rules (ch_network p) ! i) (nw_rules (ch_network p) ! j)"
  using assms
  by (auto simp: lintNetwork_def Let_def finding_of_def in_map_filter dest!: shadowed_by_Some split: if_splits)

lemma lintPolicy_unreachable:
  assumes "finding_of SeverityError (indexed ''policy'' j) (PolicyUnreachable i l) \<in> set (lintPolicy p)"
  shows "i < j \<and> j < length (pro_policy p) \<and> policyRuleShadows (pro_policy p ! i) (pro_policy p ! j)"
  using assms
  by (auto simp: lintPolicy_def Let_def finding_of_def in_map_filter dest!: shadowed_by_Some split: if_splits)

lemma lintNetwork_reports:
  assumes "j < length (nw_rules (ch_network p))" "shadowed_by (networkRuleShadows parseCIDR) (nw_rules (ch_network p)) j = Some i"
  shows "finding_of SeverityWarn (indexed ''network.rule'' j) (NetworkUnreachable i) \<in> set (lintNetwork parseCIDR p)"
  unfolding lintNetwork_def Let_def set_append in_map_filter Un_iff using assms by (intro disjI2 bexI [of _ j]) auto

lemma lintPolicy_reports:
  assumes "j < length (pro_policy p)" "shadowed_by policyRuleShadows (pro_policy p) j = Some i"
  shows "finding_of SeverityError (indexed ''policy'' j) (PolicyUnreachable i (ruleToolLabel (pr_tool (pro_policy p ! i)))) \<in> set (lintPolicy p)"
  unfolding lintPolicy_def Let_def set_append in_map_filter Un_iff using assms by (intro disjI2 bexI [of _ j]) auto

lemma cut_prefix_Some: "cut_prefix s p = Some t \<longleftrightarrow> s = p @ t"
  by (auto simp: cut_prefix_def prefix_def)

lemma cut_prefix_None: "cut_prefix s p = None \<longleftrightarrow> \<not> prefix p s"
  by (auto simp: cut_prefix_def)

lemma covers_matches:
  assumes "hostnamePatternCovers a b" "hostnameMatches b host"
  shows "hostnameMatches a host"
proof -
  define A B h where "A = to_lower (trim_space a)" and "B = to_lower (trim_space b)" and "h = to_lower (trim_space host)"
  show ?thesis
  proof (cases "A = B")
    case True
    with assms(2) show ?thesis by (simp add: hostnameMatches_def A_def B_def)
  next
    case False
    then obtain sfx where sfx: "A = ''*.'' @ sfx"
      using assms(1) by (auto simp: hostnamePatternCovers_def Let_def cut_prefix_Some simp flip: A_def B_def split: option.splits if_splits)
    have goal: "\<exists>l. l \<noteq> [] \<and> h = l @ ''.'' @ sfx"
    proof (cases "cut_prefix B ''*.''")
      case None
      then have "\<not> prefix ''*.'' B" by (auto simp: cut_prefix_def)
      then have "B = h" using assms(2) by (auto simp: hostnameMatches_spec simp flip: B_def h_def)
      moreover have "has_suffix B (''.'' @ sfx)" "length B > length sfx + 1"
        using assms(1) False sfx None
        by (auto simp: hostnamePatternCovers_def Let_def cut_prefix_Some simp flip: A_def B_def split: option.splits if_splits)
      ultimately show ?thesis by (auto simp: has_suffix_def suffix_def)
    next
      case (Some bs)
      then have B: "B = ''*.'' @ bs" by (simp add: cut_prefix_Some)
      then obtain l where l: "l \<noteq> []" "h = l @ ''.'' @ bs" using assms(2) by (auto simp: hostnameMatches_spec simp flip: B_def h_def)
      have "bs = sfx \<or> has_suffix bs (''.'' @ sfx)"
        using assms(1) False sfx Some
        by (auto simp: hostnamePatternCovers_def Let_def cut_prefix_Some cut_prefix_None simp flip: A_def B_def split: option.splits if_splits)
      then show ?thesis
      proof
        assume "bs = sfx"
        with l show ?thesis by blast
      next
        assume "has_suffix bs (''.'' @ sfx)"
        then obtain z where "bs = z @ ''.'' @ sfx" by (auto simp: has_suffix_def suffix_def)
        with l show ?thesis by (intro exI [of _ "l @ ''.'' @ z"]) simp
      qed
    qed
    with sfx show ?thesis unfolding hostnameMatches_spec by (auto simp flip: A_def h_def)
  qed
qed

text \<open>
  What the code relies on about \<^verbatim>\<open>net.ParseCIDR\<close> and \<^verbatim>\<open>IPNet.Contains\<close>: a block contains the addresses of its
  family that agree with its own address on the first \<open>cb_ones\<close> of \<open>cb_bits\<close> bits. \<open>bits\<close> writes an address
  out, and the egress policy parses with the same function.
\<close>

definition cidr_ok :: "'ip netprims \<Rightarrow> (string \<Rightarrow> 'ip cidr_block option) \<Rightarrow> ('ip \<Rightarrow> bool list) \<Rightarrow> bool" where
  "cidr_ok N parseCIDR bits \<longleftrightarrow>
     (\<forall>s. np_parse_cidr N s = map_option cb_contains (parseCIDR s)) \<and>
     (\<forall>s blk. parseCIDR s = Some blk \<longrightarrow>
        (\<forall>x. cb_contains blk x \<longleftrightarrow> length (bits x) = cb_bits blk \<and> take (cb_ones blk) (bits x) = take (cb_ones blk) (bits (cb_ip blk))))"

lemma cidrCovers_sound:
  assumes "cidr_ok N parseCIDR bits" "cidrCovers parseCIDR a b" "trim_space a = a" "trim_space b = b"
    and "cidr_matches N b ip" "a \<noteq> []"
  shows "cidr_matches N a ip"
proof -
  obtain x B where x: "ip = Some x" "parseCIDR b = Some B" "cb_contains B x"
    using assms(1,5) by (auto simp: cidr_ok_def cidr_matches_def split: option.splits)
  obtain A where A: "parseCIDR a = Some A" "cb_bits A = cb_bits B" "cb_ones A \<le> cb_ones B" "cb_contains A (cb_ip B)"
    using assms(2-4) x(2) by (auto simp: cidrCovers_def split: option.splits if_splits)
  have "length (bits x) = cb_bits A" "take (cb_ones B) (bits x) = take (cb_ones B) (bits (cb_ip B))"
    "take (cb_ones A) (bits (cb_ip B)) = take (cb_ones A) (bits (cb_ip A))"
    using assms(1) x A by (auto simp: cidr_ok_def)
  moreover from this(2) have "take (cb_ones A) (bits x) = take (cb_ones A) (bits (cb_ip B))"
    using A(3) by (metis min.absorb1 take_take)
  ultimately have "cb_contains A x" using assms(1) A(1) by (simp add: cidr_ok_def)
  with x(1) A(1) assms(1,6) show ?thesis by (simp add: cidr_matches_def cidr_ok_def)
qed

definition to_rule :: "network_rule \<Rightarrow> egress_rule" where
  "to_rule r = \<lparr>eg_verdict = (if nr_verdict r = [] then ''allow'' else nr_verdict r), eg_hostname = nr_hostname r, eg_cidr = nr_cidr r\<rparr>"

lemma policyFromNetwork_rules: "ep_rules (policyFromNetwork n) = map to_rule (nw_rules n)"
  by (simp add: policyFromNetwork_def to_rule_def)

lemma policyFromNetwork_default: "defaultAllows (policyFromNetwork (n\<lparr>nw_rules := rs\<rparr>)) = defaultAllows (policyFromNetwork n)"
  by (simp add: policyFromNetwork_def defaultAllows_def)

text \<open>
  What the linter reports as an unreachable network rule never decides: if the rule has only one
  selector and the CIDR blocks are written without surrounding blanks, then removing it from the profile
  changes the answer of the egress policy for no host name and no address.
\<close>

theorem unreachable_network_rule_is_dead:
  assumes "finding_of SeverityWarn (indexed ''network.rule'' j) (NetworkUnreachable i) \<in> set (lintNetwork parseCIDR p)"
    and "n = ch_network p" "nr_hostname (nw_rules n ! j) = [] \<or> nr_cidr (nw_rules n ! j) = []"
    and "cidr_ok N parseCIDR bits" "\<forall>r \<in> set (nw_rules n). trim_space (nr_cidr r) = nr_cidr r"
    and "n' = n\<lparr>nw_rules := without j (nw_rules n)\<rparr>"
  shows "Allow (policyFromNetwork n') host = Allow (policyFromNetwork n) host \<and>
    AllowListedHostname (policyFromNetwork n') host = AllowListedHostname (policyFromNetwork n) host \<and>
    AllowAddr N (policyFromNetwork n') hostport = AllowAddr N (policyFromNetwork n) hostport"
proof -
  let ?a = "nw_rules n ! i" and ?b = "nw_rules n ! j"
  have ij: "i < j" "j < length (nw_rules n)" "networkRuleShadows parseCIDR ?a ?b"
    using lintNetwork_unreachable [OF assms(1)] assms(2) by auto
  have host_dead: "hostnameMatches (nr_hostname ?a) h \<and> nr_hostname ?a \<noteq> []"
    if "nr_hostname ?b \<noteq> []" "hostnameMatches (nr_hostname ?b) h" for h
    using that ij(3) assms(3) covers_matches by (auto simp: networkRuleShadows_def)
  have cidr_dead: "cidr_matches N (nr_cidr ?a) ip" if "cidr_matches N (nr_cidr ?b) ip" for ip
  proof -
    have "nr_cidr ?b \<noteq> []" using that by (simp add: cidr_matches_def)
    then have "cidrCovers parseCIDR (nr_cidr ?a) (nr_cidr ?b)" "nr_cidr ?a \<noteq> []"
      using ij(3) assms(3) by (auto simp: networkRuleShadows_def)
    then show ?thesis using cidrCovers_sound [OF assms(4) _ _ _ that] assms(5) ij(1,2) by simp
  qed
  have hosts: "host_rules (map to_rule (without j (nw_rules n))) h def = host_rules (map to_rule (nw_rules n)) h def" for h def
    unfolding host_rules_find map_without
    by (subst find_without [OF ij(1)]) (use ij host_dead in \<open>auto simp: to_rule_def\<close>)
  have addrs: "addr_rules N (map to_rule (without j (nw_rules n))) h ip def = addr_rules N (map to_rule (nw_rules n)) h ip def" for h ip def
    unfolding addr_rules_find map_without
    by (subst find_without [OF ij(1)]) (use ij host_dead cidr_dead in \<open>auto simp: to_rule_def addr_rule_matches_def\<close>)
  show ?thesis
    by (simp add: assms(6) Allow_def AllowListedHostname_def AllowAddr_def policyFromNetwork_rules policyFromNetwork_default hosts addrs Let_def)
qed

lemma catch_all_fires:
  assumes "isCatchAllGlob g" "g = [] \<or> CHR ''*'' \<notin> set s"
  shows "g = [] \<or> matchGlob g s"
  using assms matchGlob_complete [of s "''*''"] glob_star_split [of "[]" s] by (auto simp: isCatchAllGlob_def)

text \<open>
  What the linter reports as an unreachable policy rule never decides: removing it changes no decision
  of the built-in engine on an action whose argument has no literal star, provided that the action has
  an executable to match or the covering rule does not constrain it.
\<close>

theorem unreachable_policy_rule_is_dead:
  assumes "finding_of SeverityError (indexed ''policy'' j) (PolicyUnreachable i l) \<in> set (lintPolicy p)"
    and "CHR ''*'' \<notin> set (act_arg a)"
    and "pr_match_argv (pro_policy p ! i) = [] \<or> (\<exists>c \<in> set (argvCandidates a). CHR ''*'' \<notin> set c)"
  shows "Evaluate (New (without j (pro_policy p)) def) a = Evaluate (New (pro_policy p) def) a"
proof -
  have ij: "i < j" "j < length (pro_policy p)" "policyRuleShadows (pro_policy p ! i) (pro_policy p ! j)"
    using lintPolicy_unreachable [OF assms(1)] by auto
  let ?c = "pro_policy p ! i"
  have "rule_fires ?c a" if "rule_fires (pro_policy p ! j) a"
  proof -
    have "toolMatches (pr_tool ?c) (act_tool a)"
      using that ij(3) by (auto simp: rule_fires_def policyRuleShadows_def toolCovers_def toolMatches_def)
    moreover have "pr_match ?c = [] \<or> matchGlob (pr_match ?c) (act_arg a)"
      using ij(3) assms(2) catch_all_fires by (auto simp: policyRuleShadows_def)
    moreover have "pr_match_argv ?c = [] \<or> argvMatches (pr_match_argv ?c) a"
      using ij(3) assms(3) catch_all_fires [of "pr_match_argv ?c"] by (auto simp: policyRuleShadows_def argvMatches_def list_ex_iff)
    ultimately show ?thesis by (auto simp: rule_fires_def)
  qed
  then show ?thesis by (simp add: Evaluate_def New_def eval_rules_find find_without [OF ij(1,2)])
qed

text \<open>Two charters with a shadowed rule each.\<close>

definition net0 :: network where
  "net0 = \<lparr>nw_default = ''deny'', nw_rules = [\<lparr>nr_verdict = ''deny'', nr_hostname = ''*.example.com'', nr_cidr = []\<rparr>,
     \<lparr>nr_verdict = ''allow'', nr_hostname = ''api.example.com'', nr_cidr = []\<rparr>], nw_enforce = []\<rparr>"

definition rule0 :: "string \<Rightarrow> string \<Rightarrow> string \<Rightarrow> verdict \<Rightarrow> policy_rule" where
  "rule0 tool m argv v = \<lparr>pr_tool = tool, pr_match = m, pr_match_argv = argv, pr_verdict = v, pr_reason = []\<rparr>"

definition no_cidr :: "string \<Rightarrow> nat cidr_block option" where
  "no_cidr s = None"

definition no_ip :: "nat netprims" where
  "no_ip = \<lparr>np_parse_ip = (\<lambda>_. None), np_show_ip = (\<lambda>_. []), np_parse_cidr = (\<lambda>_. None), np_is_ip4 = (\<lambda>_. True), np_equal = (=)\<rparr>"

theorem unreachable_network_rule_is_dead_witness:
  "Allow (policyFromNetwork (net0\<lparr>nw_rules := without 1 (nw_rules net0)\<rparr>)) ''api.example.com'' = Allow (policyFromNetwork net0) ''api.example.com''"
proof -
  have "networkRuleShadows no_cidr (nw_rules net0 ! 0) (nw_rules net0 ! 1)" by code_simp
  then have "shadowed_by (networkRuleShadows no_cidr) (nw_rules net0) 1 = Some 0" by (simp add: shadowed_by_def)
  then have f: "finding_of SeverityWarn (indexed ''network.rule'' 1) (NetworkUnreachable 0) \<in> set (lintNetwork no_cidr (charter0\<lparr>ch_network := net0\<rparr>))"
    by (intro lintNetwork_reports) (simp_all add: net0_def)
  have c: "cidr_ok no_ip no_cidr (\<lambda>_. [])" by (simp add: cidr_ok_def no_ip_def no_cidr_def)
  show ?thesis
    using unreachable_network_rule_is_dead [OF f refl _ c _ refl, of "''api.example.com''"] by (simp add: net0_def)
qed

theorem unreachable_policy_rule_is_dead_witness:
  "Evaluate (New (without 1 [rule0 ''shell'' [] [] VerdictAllow, rule0 ''shell'' ''rm*'' [] VerdictDeny]) VerdictDeny)
     \<lparr>act_tool = ''shell'', act_arg = ''rm x'', act_args = []\<rparr> =
   Evaluate (New [rule0 ''shell'' [] [] VerdictAllow, rule0 ''shell'' ''rm*'' [] VerdictDeny] VerdictDeny)
     \<lparr>act_tool = ''shell'', act_arg = ''rm x'', act_args = []\<rparr>"
proof -
  let ?rules = "[rule0 ''shell'' [] [] VerdictAllow, rule0 ''shell'' ''rm*'' [] VerdictDeny]"
  have "shadowed_by policyRuleShadows ?rules 1 = Some 0"
    by (simp add: shadowed_by_def policyRuleShadows_def rule0_def toolCovers_def isCatchAllGlob_def)
  then have f: "finding_of SeverityError (indexed ''policy'' 1) (PolicyUnreachable 0 (ruleToolLabel (pr_tool (?rules ! 0))))
      \<in> set (lintPolicy (charter0\<lparr>pro_policy := ?rules\<rparr>))"
    using lintPolicy_reports [of 1 "charter0\<lparr>pro_policy := ?rules\<rparr>" 0] by simp
  show ?thesis
    using unreachable_policy_rule_is_dead [OF f, of "\<lparr>act_tool = ''shell'', act_arg = ''rm x'', act_args = []\<rparr>" VerdictDeny]
    by (simp add: rule0_def)
qed

text \<open>
  The comment on \<^verbatim>\<open>policyRuleShadows\<close> says that it never reports a false unreachable. It does: the
  pattern \<^verbatim>\<open>*\<close> does not match an argument that starts with a star and continues, and as \<^verbatim>\<open>match_argv\<close> it does not
  match an action without a command, so the later rule decides.
\<close>

lemma shadowed_rule_decides:
  defines "a \<equiv> \<lparr>act_tool = ''file.read'', act_arg = ''*.pem'', act_args = []\<rparr>"
  defines "rules \<equiv> [rule0 ''*'' ''*'' [] VerdictAllow, rule0 ''file.read'' [] [] VerdictDeny]"
  shows "shadowed_by policyRuleShadows rules 1 = Some 0 \<and> dec_verdict (Evaluate (New rules VerdictAllow) a) = VerdictDeny \<and>
    dec_verdict (Evaluate (New (without 1 rules) VerdictAllow) a) = VerdictAllow"
proof (intro conjI)
  show "shadowed_by policyRuleShadows rules 1 = Some 0" unfolding rules_def by code_simp
  show "dec_verdict (Evaluate (New rules VerdictAllow) a) = VerdictDeny" unfolding rules_def a_def by code_simp
  show "dec_verdict (Evaluate (New (without 1 rules) VerdictAllow) a) = VerdictAllow" unfolding rules_def a_def by code_simp
qed

text \<open>A rule with both selectors is reported unreachable when only its host name is covered, although its
  CIDR block still decides.\<close>

lemma half_shadowed_rule_decides:
  assumes "np_parse_ip N ''10.1.1.1'' = Some ip" "np_parse_cidr N ''10.0.0.0/8'' = Some network" "network ip"
  defines "rules \<equiv> [\<lparr>nr_verdict = ''allow'', nr_hostname = ''a.com'', nr_cidr = []\<rparr>,
    \<lparr>nr_verdict = ''deny'', nr_hostname = ''a.com'', nr_cidr = ''10.0.0.0/8''\<rparr>]"
  shows "networkRuleShadows parseCIDR (rules ! 0) (rules ! 1) \<and>
    \<not> AllowAddr N (policyFromNetwork \<lparr>nw_default = ''allow'', nw_rules = rules, nw_enforce = []\<rparr>) ''10.1.1.1'' \<and>
    AllowAddr N (policyFromNetwork \<lparr>nw_default = ''allow'', nw_rules = without 1 rules, nw_enforce = []\<rparr>) ''10.1.1.1''"
proof -
  have h: "to_lower (trim_space ''10.1.1.1'') = ''10.1.1.1''" "SplitHostPort ''10.1.1.1'' = Inl MissingPort"
    "hostnameMatches ''a.com'' ''10.1.1.1'' = False" "verdictAllows ''deny'' = False" "verdictAllows ''allow'' = True"
    "hostnamePatternCovers ''a.com'' ''a.com'' = True" "trim_space ''allow'' \<noteq> []"
    by code_simp+
  show ?thesis
    using assms(1-3) by (simp add: rules_def networkRuleShadows_def h AllowAddr_def policyFromNetwork_def addr_rule_matches_def cidr_matches_def
        defaultAllows_def without_def)
qed

end
