(* ===== verification/Sandbox_Spec.thy ===== *)
theory Sandbox_Spec
  imports Profile_Lint Snapshots
begin

text \<open>
  The parts of \<^verbatim>\<open>internal/backend\<close> that all backends share: the sandbox specification derived from a profile
  (\<^verbatim>\<open>backend.go\<close>, \<^verbatim>\<open>factory.go\<close>), the resource ceilings (\<^verbatim>\<open>docker.go\<close>), the checks on what a profile may
  project or copy into a sandbox (\<^verbatim>\<open>validate.go\<close>) and the filtering and extraction of archives (\<^verbatim>\<open>seed.go\<close>).
  A tar stream is the list of its decoded entries. Byte counts are 64 bit words.
\<close>

section \<open>Specifications\<close>

record spec_resources =
  re_nano_cpus :: "64 word"
  re_memory :: "64 word"

record spec =
  sx_profile :: string
  sx_image :: string
  sx_workdir :: string
  sx_user :: string
  sx_command :: "string list"
  sx_env :: "(string \<times> string) list"
  sx_labels :: "(string \<times> string) list"
  sx_files :: "projected_file list"
  sx_seed_dir :: string
  sx_network :: network
  sx_resources :: spec_resources
  sx_runtime_class :: string
  sx_read_only :: bool
  sx_seccomp :: string
  sx_apparmor :: string
  sx_ide_port :: int

definition expandHome :: "host_env \<Rightarrow> string \<Rightarrow> string" where
  "expandHome H p =
     (if has_prefix p ''~/'' then (case he_home H of Some home \<Rightarrow> path_join home (drop 2 p) | None \<Rightarrow> p) else p)"

text \<open>\<^verbatim>\<open>parseSize\<close>: the product is computed at 64 bits and may wrap.\<close>

definition size_suffix :: "char \<Rightarrow> (64 word) option" where
  "size_suffix c =
     (if c = CHR ''k'' \<or> c = CHR ''K'' then Some 1024
      else if c = CHR ''m'' \<or> c = CHR ''M'' then Some 1048576
      else if c = CHR ''g'' \<or> c = CHR ''G'' then Some 1073741824
      else if c = CHR ''t'' \<or> c = CHR ''T'' then Some 1099511627776
      else None)"

definition parseSize :: "string \<Rightarrow> (64 word) option" where
  "parseSize s0 =
     (let s = trim_space s0 in
      if s = [] then None
      else
        (let (mult, digits) = (case size_suffix (last s) of Some m \<Rightarrow> (m, butlast s) | None \<Rightarrow> (1, s)) in
         case atoi (trim_space digits) of
           None \<Rightarrow> None
         | Some n \<Rightarrow> if n < 0 then None else Some (word_of_int n * mult)))"

text \<open>\<open>nano\<close> converts a declared CPU count to nano-CPUs, \<^verbatim>\<open>int64(CPUs * 1e9)\<close> in floating point.\<close>

definition resourcesFromLimits :: "('c::{zero,linorder} \<Rightarrow> 64 word) \<Rightarrow> string \<Rightarrow> 'c \<Rightarrow> spec_resources" where
  "resourcesFromLimits nano memory cpus =
     \<lparr>re_nano_cpus = (if cpus > 0 then nano cpus else 0),
      re_memory = (if memory \<noteq> [] then (case parseSize memory of Some b \<Rightarrow> b | None \<Rightarrow> 0) else 0)\<rparr>"

definition SpecFromProfile :: "host_env \<Rightarrow> ('c::{zero,linorder} \<Rightarrow> 64 word) \<Rightarrow> 'c charter \<Rightarrow> (string \<times> string) list \<Rightarrow> spec" where
  "SpecFromProfile H nano p env =
     \<lparr>sx_profile = pro_name p, sx_image = pro_image p, sx_workdir = pro_workdir p, sx_user = ch_user p, sx_command = ch_command p,
      sx_env = env, sx_labels = [(''runeward.profile'', pro_name p)], sx_files = ch_files p, sx_seed_dir = expandHome H (ch_copy_from p),
      sx_network = ch_network p, sx_resources = resourcesFromLimits nano (ch_memory p) (ch_cpus p),
      sx_runtime_class = ch_runtime_class p, sx_read_only = ch_read_only p, sx_seccomp = ch_seccomp p, sx_apparmor = ch_apparmor p,
      sx_ide_port = (if ide_enabled (ch_ide p) \<and> ide_port (ch_ide p) > 0 then ide_port (ch_ide p) else 0)\<rparr>"

text \<open>\<open>lookPath\<close> tells whether an executable is on the search path.\<close>

definition selectContainerRuntime :: "host_env \<Rightarrow> (string \<Rightarrow> bool) \<Rightarrow> string option" where
  "selectContainerRuntime H lookPath =
     (let runtime = to_lower (trim_space (he_getenv H ''RUNEWARD_CONTAINER_RUNTIME'')) in
      if runtime = [] then Some (if \<not> lookPath ''docker'' \<and> lookPath ''podman'' then ''podman'' else ''docker'')
      else if runtime = ''docker'' \<or> runtime = ''podman'' then Some runtime
      else None)"

datatype backend_kind = DockerBackend | PodmanBackend | KubernetesBackend

definition For_backend :: "host_env \<Rightarrow> (string \<Rightarrow> bool) \<Rightarrow> 'c charter \<Rightarrow> backend_kind option" where
  "For_backend H lookPath p =
     (if ch_host_type p = HostContainer \<or> ch_host_type p = []
      then map_option (\<lambda>r. if r = ''podman'' then PodmanBackend else DockerBackend) (selectContainerRuntime H lookPath)
      else if ch_host_type p = HostK8s then Some KubernetesBackend
      else None)"

section \<open>Resource ceilings\<close>

definition limitFromEnv :: "host_env \<Rightarrow> string \<Rightarrow> 64 word \<Rightarrow> (string \<Rightarrow> (64 word) option) \<Rightarrow> 64 word" where
  "limitFromEnv H key fallback parse =
     (let v = trim_space (he_getenv H key) in
      if to_lower v = [] then fallback
      else if to_lower v \<in> {''0'', ''off'', ''none''} then 0
      else (case parse v of Some n \<Rightarrow> n | None \<Rightarrow> fallback))"

definition defaultMemoryBytes :: "host_env \<Rightarrow> 64 word" where
  "defaultMemoryBytes H = limitFromEnv H ''RUNEWARD_SANDBOX_MEMORY'' 4294967296 parseSize"

text \<open>\<open>parseCPUs\<close> is the floating point parser, a non-negative number times \<open>10\<^sup>9\<close>.\<close>

definition defaultNanoCPUs :: "host_env \<Rightarrow> (string \<Rightarrow> (64 word) option) \<Rightarrow> 64 word" where
  "defaultNanoCPUs H parseCPUs = limitFromEnv H ''RUNEWARD_SANDBOX_CPUS'' 2000000000 parseCPUs"

definition defaultPidsLimit :: "host_env \<Rightarrow> 64 word" where
  "defaultPidsLimit H = limitFromEnv H ''RUNEWARD_SANDBOX_PIDS'' 1024
     (\<lambda>s. case atoi s of Some n \<Rightarrow> if n < 0 then None else Some (word_of_int n) | None \<Rightarrow> None)"

section \<open>Checks on projected files and seed directories\<close>

definition octal_digit :: "char \<Rightarrow> bool" where
  "octal_digit c \<longleftrightarrow> c \<in> set ''01234567''"

definition validateFileMode :: "string \<Rightarrow> bool" where
  "validateFileMode mode \<longleftrightarrow> mode = [] \<or> (list_all octal_digit mode \<and> (length mode = 3 \<or> length mode = 4))"

definition name_start :: "char \<Rightarrow> bool" where
  "name_start c = (let n = (of_char c :: nat) in (65 \<le> n \<and> n \<le> 90) \<or> (97 \<le> n \<and> n \<le> 122) \<or> n = 95)"

definition name_char :: "char \<Rightarrow> bool" where
  "name_char c = (name_start c \<or> (let n = (of_char c :: nat) in 48 \<le> n \<and> n \<le> 57))"

definition validateEnvName :: "string \<Rightarrow> bool" where
  "validateEnvName name = (case name of [] \<Rightarrow> False | c # cs \<Rightarrow> name_start c \<and> list_all name_char cs)"

definition confineFilesEnabled :: "host_env \<Rightarrow> bool" where
  "confineFilesEnabled H \<longleftrightarrow> to_lower (trim_space (he_getenv H ''RUNEWARD_CONFINE_FILES'')) \<in> {''1'', ''true'', ''yes'', ''on''}"

datatype projection_error = ProjEmpty | ProjEscapes string | ProjAbsolute string

definition validateProjectionPath :: "host_env \<Rightarrow> string \<Rightarrow> projection_error option" where
  "validateProjectionPath H p =
     (if trim_space p = [] then Some ProjEmpty
      else
        (let clean = path_clean p in
         if clean = ''..'' \<or> has_prefix clean ''../'' \<or> str_contains clean ''/../'' then Some (ProjEscapes p)
         else if confineFilesEnabled H \<and> is_abs clean then Some (ProjAbsolute p)
         else None))"

text \<open>\<open>evalSymlinks\<close> is \<^verbatim>\<open>filepath.EvalSymlinks\<close>, \<^verbatim>\<open>None\<close> when it fails.\<close>

definition resolve_dir :: "(string \<Rightarrow> string option) \<Rightarrow> string \<Rightarrow> string" where
  "resolve_dir evalSymlinks d = (case evalSymlinks d of Some r \<Rightarrow> r | None \<Rightarrow> path_clean d)"

definition under_root :: "(string \<Rightarrow> string option) \<Rightarrow> string \<Rightarrow> string \<Rightarrow> bool" where
  "under_root evalSymlinks resolved root0 =
     (let root = trim_space root0 in
      root \<noteq> [] \<and>
      (let rr = resolve_dir evalSymlinks root in resolved = rr \<or> has_prefix resolved (rr @ [slash])))"

definition validateSeedDir :: "host_env \<Rightarrow> (string \<Rightarrow> string option) \<Rightarrow> string \<Rightarrow> bool" where
  "validateSeedDir H evalSymlinks srcDir =
     (let roots = trim_space (he_getenv H ''RUNEWARD_COPY_FROM_ROOTS'') in
      roots = [] \<or> list_ex (under_root evalSymlinks (resolve_dir evalSymlinks srcDir)) (split_byte CHR '':'' roots))"

definition validateStrictEgressUser :: "spec \<Rightarrow> bool" where
  "validateStrictEgressUser s \<longleftrightarrow>
     \<not> StrictEgress (sx_network s) \<or> parseProfileUID (sx_user s) \<noteq> Some StrictProxyUID"

section \<open>Archives\<close>

datatype tar_type = TarDir | TarReg | TarSymlink | TarOther

record tar_entry =
  te_name :: string
  te_link :: string
  te_type :: tar_type
  te_data :: string

definition relWithinRoot :: "string \<Rightarrow> bool" where
  "relWithinRoot p =
     (if p = [] then True
      else if has_prefix p ''/'' then False
      else (let clean = path_clean p in clean \<noteq> ''..'' \<and> \<not> has_prefix clean ''../''))"

definition tarEntrySafe :: "string \<Rightarrow> string \<Rightarrow> bool" where
  "tarEntrySafe name linkname \<longleftrightarrow> relWithinRoot name \<and> (linkname = [] \<or> relWithinRoot linkname)"

datatype archive_error = ArchiveRead | ArchiveUnsafe string string | ArchiveWrite

text \<open>\<open>readable\<close> tells whether the stream ends without an error; the result holds the entries that were
  written, and the error that stopped the copy.\<close>

fun filterTarSafe :: "bool \<Rightarrow> tar_entry list \<Rightarrow> tar_entry list \<times> archive_error option" where
  "filterTarSafe readable [] = ([], if readable then None else Some ArchiveRead)"
| "filterTarSafe readable (e # es) =
     (if \<not> tarEntrySafe (te_name e) (te_link e) then ([], Some (ArchiveUnsafe (te_name e) (te_link e)))
      else
        (let e' = (if te_type e = TarReg then e else e\<lparr>te_data := []\<rparr>);
             (out, err) = filterTarSafe readable es
         in (e' # out, err)))"

text \<open>\<open>hash\<close> is the SHA-256 of a file, \<^verbatim>\<open>None\<close> when it cannot be read.\<close>

definition verifySnapshot :: "(string \<Rightarrow> string option) \<Rightarrow> snapshot_ref \<Rightarrow> bool" where
  "verifySnapshot hash ref = (sr_sha256 ref = [] \<or> hash (sr_location ref) = Some (sr_sha256 ref))"

definition archiveEntryPath :: "string \<Rightarrow> string" where
  "archiveEntryPath name =
     (let clean = path_clean (slash # name); rel = (case cut_prefix clean ''/'' of Some r \<Rightarrow> r | None \<Rightarrow> clean) in
      if rel = [] then ''.'' else rel)"

text \<open>\<^verbatim>\<open>path.Dir\<close>.\<close>

definition path_dir :: "string \<Rightarrow> string" where
  "path_dir p = (case last_index_byte p slash of Some i \<Rightarrow> path_clean (take (Suc i) p) | None \<Rightarrow> ''.'')"

definition symlinkWithinArchive :: "string \<Rightarrow> string \<Rightarrow> bool" where
  "symlinkWithinArchive entry linkname =
     (if is_abs linkname then False
      else
        (let resolved = path_clean (path_join (path_dir entry) linkname) in
         resolved \<noteq> ''..'' \<and> \<not> has_prefix resolved ''../'' \<and> \<not> has_prefix resolved ''/''))"

text \<open>The operations on the opened destination directory that one entry leads to, in order. \<open>perform\<close>
  executes one of them, \<^verbatim>\<open>None\<close> for an error; removing a name that does not exist is none.\<close>

datatype root_op = RMkdirAll string | RWriteFile string string | RRemove string | RSymlink string string

definition extract_plan :: "tar_entry \<Rightarrow> (archive_error, root_op list) result" where
  "extract_plan e =
     (let entry = archiveEntryPath (te_name e) in
      case te_type e of
        TarDir \<Rightarrow> Inr [RMkdirAll entry]
      | TarReg \<Rightarrow> Inr [RMkdirAll (path_dir entry), RWriteFile entry (te_data e)]
      | TarSymlink \<Rightarrow>
          if \<not> symlinkWithinArchive entry (te_link e) then Inl (ArchiveUnsafe (te_name e) (te_link e))
          else Inr [RMkdirAll (path_dir entry), RRemove entry, RSymlink (te_link e) entry]
      | TarOther \<Rightarrow> Inr [])"

fun run_root :: "(root_op \<Rightarrow> 'r \<Rightarrow> 'r option) \<Rightarrow> root_op list \<Rightarrow> 'r \<Rightarrow> bool \<times> 'r" where
  "run_root perform [] r = (True, r)"
| "run_root perform (a # ops) r = (case perform a r of None \<Rightarrow> (False, r) | Some r' \<Rightarrow> run_root perform ops r')"

fun extractTar :: "(root_op \<Rightarrow> 'r \<Rightarrow> 'r option) \<Rightarrow> bool \<Rightarrow> tar_entry list \<Rightarrow> 'r \<Rightarrow> archive_error option \<times> 'r" where
  "extractTar perform readable [] r = (if readable then None else Some ArchiveRead, r)"
| "extractTar perform readable (e # es) r =
     (case extract_plan e of
        Inl err \<Rightarrow> (Some err, r)
      | Inr ops \<Rightarrow>
          (case run_root perform ops r of
             (False, r') \<Rightarrow> (Some ArchiveWrite, r')
           | (True, r') \<Rightarrow> extractTar perform readable es r'))"

section \<open>Relative paths that stay below their root\<close>

abbreviation rel_comps :: "string \<Rightarrow> string list" where
  "rel_comps p \<equiv> clean_comps False [] (split_byte slash p)"

lemma dots_stay:
  "out \<noteq> [] \<Longrightarrow> last out = ''..'' \<Longrightarrow> clean_comps False out cs \<noteq> [] \<and> hd (clean_comps False out cs) = ''..''"
proof (induction cs arbitrary: out)
  case Nil
  then show ?case by (simp add: hd_rev)
next
  case (Cons c cs)
  have "tl out \<noteq> [] \<and> last (tl out) = ''..''" if "hd out \<noteq> ''..''"
    using that Cons.prems by (cases out) (auto split: if_splits)
  with Cons show ?case by auto
qed

text \<open>When a relative path does not climb out, cleaning it below a root gives the root followed by its own
  components.\<close>

lemma clean_below:
  "list_all proper_name out \<Longrightarrow> list_all (\<lambda>c. slash \<notin> set c) cs \<Longrightarrow>
   clean_comps False out cs = [] \<or> hd (clean_comps False out cs) \<noteq> ''..'' \<Longrightarrow>
   clean_comps True (out @ rev rc) cs = rc @ clean_comps False out cs \<and> list_all proper_name (clean_comps False out cs)"
proof (induction cs arbitrary: out)
  case Nil
  then show ?case by (simp add: list_all_iff)
next
  case (Cons c cs)
  show ?case
  proof (cases "c = ''..''")
    case True
    show ?thesis
    proof (cases out)
      case Nil
      then have "clean_comps False [''..''] cs \<noteq> [] \<and> hd (clean_comps False [''..''] cs) = ''..''" by (intro dots_stay) auto
      with Cons.prems(3) True Nil show ?thesis by simp
    next
      case (Cons o1 os)
      with Cons.prems True Cons.IH [of os] show ?thesis by (simp add: proper_name_def)
    qed
  next
    case False
    then show ?thesis
      using Cons.prems Cons.IH [of out] Cons.IH [of "c # out"] by (auto simp: proper_name_def)
  qed
qed

lemma split_no_slash: "list_all (\<lambda>c. slash \<notin> set c) (split_byte slash p)"
  by (auto simp: list_all_iff dest: split_byte_pieces)

lemma join_dotdot:
  assumes "cs \<noteq> []" "hd cs = ''..''"
  shows "str_join cs [slash] = ''..'' \<or> prefix ''../'' (str_join cs [slash])"
  using assms by (cases cs; cases "tl cs") auto

lemma within_comps:
  assumes "\<not> is_abs p" "path_clean p \<noteq> ''..''" "\<not> has_prefix (path_clean p) ''../''"
  shows "rel_comps p = [] \<or> hd (rel_comps p) \<noteq> ''..''"
  using join_dotdot [of "rel_comps p"] assms by (auto simp: path_clean_def Let_def has_prefix_def split: if_splits)

lemma within_join:
  assumes "\<not> is_abs p" "rel_comps p = [] \<or> hd (rel_comps p) \<noteq> ''..''" "list_all proper_name rc"
  shows "path_join (abs_path rc) p = abs_path (rc @ rel_comps p) \<and> list_all proper_name (rel_comps p)"
  using path_join_root [OF assms(3), of p] clean_below [of "[]" "split_byte slash p" rc] split_no_slash assms(2) by simp

lemma relWithinRoot_comps:
  assumes "relWithinRoot p"
  shows "\<not> is_abs p \<and> (rel_comps p = [] \<or> hd (rel_comps p) \<noteq> ''..'')"
proof (cases "p = []")
  case True
  then show ?thesis by (simp add: is_abs_def)
next
  case False
  with assms have "\<not> is_abs p" "path_clean p \<noteq> ''..''" "\<not> has_prefix (path_clean p) ''../''"
    by (auto simp: relWithinRoot_def Let_def is_abs_def has_prefix_def split: if_splits)
  with within_comps show ?thesis by simp
qed

lemma filterTarSafe_safe:
  "e \<in> set (fst (filterTarSafe readable es)) \<Longrightarrow> tarEntrySafe (te_name e) (te_link e)"
  by (induction es) (auto simp: Let_def split: if_splits prod.splits)

text \<open>A joined list of proper names, or a dot for none, below a root.\<close>

definition rel_path :: "string list \<Rightarrow> string" where
  "rel_path cs = (if cs = [] then ''.'' else str_join cs [slash])"

lemma split_rel_path:
  assumes "list_all proper_name cs"
  shows "split_byte slash (rel_path cs) = (if cs = [] then [''.''] else cs)"
  using split_join [OF _ proper_no_slash [OF assms]] by (simp add: rel_path_def)

lemma rel_path_not_abs:
  assumes "list_all proper_name cs"
  shows "\<not> is_abs (rel_path cs) \<and> rel_path cs \<noteq> []"
  using assms by (cases cs; cases "tl cs") (auto simp: rel_path_def is_abs_def proper_name_def prefix_Cons neq_Nil_conv split: list.splits)

lemma clean_comps_proper_False:
  "list_all proper_name xs \<Longrightarrow> clean_comps False out (xs @ ys) = clean_comps False (rev xs @ out) ys"
  by (induction xs arbitrary: out) (auto simp: proper_name_def)

lemma rel_path_join:
  assumes "list_all proper_name cs" "list_all proper_name rc"
  shows "path_join (abs_path rc) (rel_path cs) = abs_path (rc @ cs)"
  using path_join_root [OF assms(2), of "rel_path cs"] clean_comps_append_proper [OF assms(1), of "rev rc" "[]"]
  by (auto simp: split_rel_path [OF assms(1)])

lemma archiveEntryPath_rel: "archiveEntryPath name = rel_path (rooted_comps (slash # name))"
proof -
  have "path_clean (slash # name) = abs_path (rooted_comps (slash # name))" by (rule path_clean_abs) (simp add: is_abs_def)
  then have "archiveEntryPath name = (if str_join (rooted_comps (slash # name)) [slash] = [] then ''.'' else str_join (rooted_comps (slash # name)) [slash])"
    by (simp add: archiveEntryPath_def abs_path_def cut_prefix_def Let_def)
  moreover have "str_join cs [slash] = [] \<longleftrightarrow> cs = []" if "list_all proper_name cs" for cs
    using that by (cases cs; cases "tl cs") (auto simp: proper_name_def)
  ultimately show ?thesis by (simp add: rel_path_def)
qed

lemma path_dir_rel:
  assumes "list_all proper_name cs"
  shows "path_dir (rel_path cs) = rel_path (butlast cs)"
proof (cases "butlast cs = []")
  case True
  then have "cs = [] \<or> (\<exists>c. cs = [c])" by (cases cs) (auto split: if_splits)
  then have "slash \<notin> set (rel_path cs)" using assms by (auto simp: rel_path_def proper_name_def)
  then have none: "last_index_byte (rel_path cs) slash = None" by simp
  show ?thesis unfolding path_dir_def none using True by (simp add: rel_path_def)
next
  case False
  then obtain ds c where cs: "cs = ds @ [c]" "ds \<noteq> []" by (cases cs rule: rev_cases) auto
  then have p: "list_all proper_name ds" "slash \<notin> set c" using assms by (auto simp: proper_name_def)
  have path: "rel_path cs = str_join ds [slash] @ slash # c" using cs by (simp add: rel_path_def str_join_append)
  have "last_index_byte (str_join ds [slash] @ slash # c) slash = Some (length (str_join ds [slash]))"
    using p(2) by (rule last_index_byte_last)
  then have "path_dir (rel_path cs) = path_clean (str_join ds [slash] @ [slash])" by (simp add: path_dir_def path)
  also have "\<dots> = str_join ds [slash]"
  proof -
    have "split_byte slash (str_join ds [slash] @ [slash]) = ds @ [[]]"
      using split_byte_append_sep [of slash "str_join ds [slash]" "[]"] split_join [OF cs(2) proper_no_slash [OF p(1)]] by simp
    moreover have "\<not> is_abs (str_join ds [slash] @ [slash])" "str_join ds [slash] \<noteq> []"
      using rel_path_not_abs [OF p(1)] cs(2) by (auto simp: rel_path_def is_abs_def prefix_def neq_Nil_conv Cons_eq_append_conv)
    ultimately show ?thesis using clean_comps_proper_False [OF p(1), of "[]" "[[]]"] by (simp add: path_clean_def)
  qed
  finally show ?thesis using cs by (simp add: rel_path_def)
qed

lemma symlinkWithinArchive_below:
  assumes "list_all proper_name cs" "list_all proper_name rc" "symlinkWithinArchive (rel_path cs) link"
  shows "\<exists>ys. path_join (abs_path (rc @ butlast cs)) link = abs_path (rc @ ys)"
proof -
  have ds: "list_all proper_name (butlast cs)" using assms(1) by (auto simp: list_all_iff dest: in_set_butlastD)
  define q where "q = rel_path (butlast cs) @ slash # link"
  have q: "\<not> is_abs q" "rel_path (butlast cs) \<noteq> []" using rel_path_not_abs [OF ds] by (auto simp: q_def is_abs_def prefix_def neq_Nil_conv Cons_eq_append_conv)
  have comps: "rel_comps q = clean_comps False (rev (butlast cs)) (split_byte slash link)"
    using clean_comps_proper_False [OF ds, of "[]"] by (simp add: q_def split_byte_append_sep split_rel_path [OF ds])
  have "path_join (path_dir (rel_path cs)) link = path_clean q"
    using q(2) by (simp add: path_dir_rel [OF assms(1)] path_join_def q_def)
  then have res: "path_clean (path_clean q) \<noteq> ''..''" "\<not> has_prefix (path_clean (path_clean q)) ''../''"
    using assms(3) by (auto simp: symlinkWithinArchive_def Let_def split: if_splits)
  have "rel_comps q = [] \<or> hd (rel_comps q) \<noteq> ''..''"
  proof (rule ccontr)
    assume "\<not> ?thesis"
    then have dots: "rel_comps q \<noteq> []" "hd (rel_comps q) = ''..''" by auto
    have "path_clean q = str_join (rel_comps q) [slash]" using q(1) dots join_dotdot [OF dots] by (auto simp: path_clean_def Let_def)
    then have "path_clean q = ''..'' \<or> (\<exists>t. path_clean q = ''..'' @ slash # t)"
      using join_dotdot [OF dots] by (auto simp: prefix_def)
    then have "\<exists>cs'. split_byte slash (path_clean q) = ''..'' # cs'"
      using split_byte_append_sep [of slash "''..''"] by fastforce
    then obtain cs' where "split_byte slash (path_clean q) = ''..'' # cs'" by blast
    moreover have "\<not> is_abs (path_clean q)" using \<open>path_clean q = ''..'' \<or> _\<close> by (auto simp: is_abs_def)
    ultimately show False using within_comps [OF _ res] dots_stay [of "[''..'']" cs'] by auto
  qed
  then have "clean_comps True (rev (butlast cs) @ rev rc) (split_byte slash link) = rc @ rel_comps q"
    using clean_below [of "rev (butlast cs)" "split_byte slash link" rc] split_no_slash ds by (simp add: comps list_all_iff)
  moreover have "list_all proper_name (rc @ butlast cs)" using assms(2) ds by simp
  ultimately show ?thesis using path_join_root [of "rc @ butlast cs" link] by auto
qed

text \<open>The path that an operation on the destination directory touches.\<close>

fun op_path :: "root_op \<Rightarrow> string" where
  "op_path (RMkdirAll p) = p"
| "op_path (RWriteFile p d) = p"
| "op_path (RRemove p) = p"
| "op_path (RSymlink l p) = p"



text \<open>A projected file that passes the check and is not absolute lies below the directory it is projected
  into; with confinement enabled no projection is absolute.\<close>

lemma validateProjectionPath_below:
  assumes "validateProjectionPath H p = None" "list_all proper_name rc" "\<not> is_abs p"
  shows "\<exists>xs. path_join (abs_path rc) p = abs_path (rc @ xs)"
proof -
  have "rel_comps p = [] \<or> hd (rel_comps p) \<noteq> ''..''"
    using assms(1,3) by (intro within_comps) (auto simp: validateProjectionPath_def Let_def split: if_splits)
  with within_join [OF assms(3) _ assms(2)] show ?thesis by blast
qed

lemma confined_projection_is_relative:
  assumes "validateProjectionPath H p = None" "confineFilesEnabled H"
  shows "\<not> is_abs p"
proof
  assume "is_abs p"
  then have "is_abs (path_clean p)" by (simp add: path_clean_abs)
  with assms show False by (auto simp: validateProjectionPath_def Let_def split: if_splits)
qed

text \<open>With an allowlist, a directory is copied into a sandbox only from one of its roots, all links
  resolved.\<close>

lemma seed_dir_is_allowed:
  assumes "validateSeedDir H ev src" "trim_space (he_getenv H ''RUNEWARD_COPY_FROM_ROOTS'') \<noteq> []"
    and "resolve_dir ev src = abs_path cs" "list_all proper_name cs"
    and "\<And>root. \<exists>rc. resolve_dir ev root = abs_path rc \<and> list_all proper_name rc \<and> rc \<noteq> []"
  shows "\<exists>root \<in> set (split_byte CHR '':'' (trim_space (he_getenv H ''RUNEWARD_COPY_FROM_ROOTS''))).
    \<exists>rc xs. resolve_dir ev (trim_space root) = abs_path rc \<and> cs = rc @ xs"
proof -
  obtain root where root: "root \<in> set (split_byte CHR '':'' (trim_space (he_getenv H ''RUNEWARD_COPY_FROM_ROOTS'')))"
    "under_root ev (abs_path cs) root"
    using assms(1-3) by (auto simp: validateSeedDir_def Let_def list_ex_iff)
  obtain rc where rc: "resolve_dir ev (trim_space root) = abs_path rc" "list_all proper_name rc" "rc \<noteq> []" using assms(5) by blast
  then have "abs_path cs = abs_path rc \<or> prefix (abs_path rc @ [slash]) (abs_path cs)"
    using root(2) by (auto simp: under_root_def Let_def has_prefix_def)
  then have "\<exists>xs. cs = rc @ xs"
    using abs_path_inject [OF assms(4) rc(2)] abs_path_prefix [OF rc(2) assms(4) rc(3)] by auto
  with root(1) rc(1) show ?thesis by blast
qed

end
