(* ===== verification/Docker_Backend.thy ===== *)
theory Docker_Backend
  imports Sandbox_Spec
begin

text \<open>
  The Docker and Podman backend (\<^verbatim>\<open>internal/backend/docker.go\<close>, \<^verbatim>\<open>egress.go\<close>, \<^verbatim>\<open>podman.go\<close>). The command line
  client is a parameter: \<open>dc_run\<close> executes it on an argument vector and gives its output and whether it
  succeeded, \<open>dc_cp\<close> copies bytes into a container, \<open>dc_untar\<close> feeds a tar stream to a command; \<open>'w\<close> is the
  state of the engine. Go maps that are turned into options are association lists. Every call of the
  client that the code makes is a call here, in the same order, so a recording client gives the trace.
\<close>

section \<open>State and client\<close>

record 'w dockercli =
  dc_run :: "string list \<Rightarrow> 'w \<Rightarrow> (string \<times> bool) \<times> 'w"
  dc_cp :: "string \<Rightarrow> string \<Rightarrow> 'w \<Rightarrow> bool \<times> 'w"
  dc_untar :: "string list \<Rightarrow> tar_entry list \<Rightarrow> bool \<Rightarrow> 'w \<Rightarrow> bool \<times> 'w"

record host_proxy =
  hp_port :: nat
  hp_user :: string
  hp_pass :: string
  hp_policy :: egress_policy

text \<open>\<open>dk_serving\<close> lists the host proxies that are being served.\<close>

record docker =
  dk_runtime :: string
  dk_snap_dir :: string
  dk_proxies :: "string \<rightharpoonup> host_proxy"
  dk_egress :: "string \<rightharpoonup> string"
  dk_serving :: "host_proxy list"

record sandbox =
  sb_id :: string
  sb_profile :: string
  sb_backend :: string
  sb_image :: string
  sb_status :: string
  sb_created :: gotime

text \<open>The host: its environment and files, whether a path is a directory, symbolic link resolution, the tar
  of a directory with whether the walk succeeded, number parsing and printing, and the JSON of a policy.\<close>

record docker_host =
  dh_env :: host_env
  dh_is_dir :: "string \<Rightarrow> bool"
  dh_links :: "string \<Rightarrow> string option"
  dh_dir_tar :: "string \<Rightarrow> tar_entry list \<times> bool"
  dh_parse_cpus :: "string \<Rightarrow> (64 word) option"
  dh_show_cpus :: "64 word \<Rightarrow> string"
  dh_policy_json :: "egress_policy \<Rightarrow> string option"

datatype docker_error =
    DkVolume | DkPolicyJSON | DkSidecar | DkSidecarExited | DkSidecarTimeout | DkProxy | DkRun | DkStartup | DkSeedDir string
  | DkSeed | DkProjection projection_error | DkFileMode string | DkReadFile string | DkCopy | DkTemp | DkInspect | DkRemove
  | DkSnapshot | DkSnapshotHash | DkSnapshotDigest | DkSnapshotOpen | DkUntar | DkExec | DkNoIP

section \<open>Names\<close>

definition docker_Name :: "docker \<Rightarrow> string" where
  "docker_Name d = (if dk_runtime d = [] then ''docker'' else dk_runtime d)"

definition containerName :: "string \<Rightarrow> string" where
  "containerName i = ''runeward-'' @ i"

definition volumeName :: "string \<Rightarrow> string" where
  "volumeName i = ''runeward-vol-'' @ i"

definition egressContainerName :: "string \<Rightarrow> string" where
  "egressContainerName i = ''runeward-egress-'' @ i"

definition kv :: "string \<Rightarrow> string \<Rightarrow> string" where
  "kv k v = k @ ''='' @ v"

definition hostGatewayName :: "docker \<Rightarrow> string" where
  "hostGatewayName d = (if docker_Name d = ''podman'' then ''host.containers.internal'' else ''host.docker.internal'')"

definition parseLabels :: "string \<Rightarrow> string \<rightharpoonup> string" where
  "parseLabels s =
     map_of (rev (List.map_filter
       (\<lambda>pair. case str_index pair ''='' of Some i \<Rightarrow> Some (take i pair, drop (Suc i) pair) | None \<Rightarrow> None)
       (split_byte CHR '','' s)))"

section \<open>The egress side\<close>

text \<open>\<open>listen\<close> is the port and the random token of the new proxy, \<^verbatim>\<open>None\<close> when the listener cannot be opened.\<close>

definition startHostProxy :: "(nat \<times> string) option \<Rightarrow> egress_policy \<Rightarrow> docker \<Rightarrow> (host_proxy \<times> docker) option" where
  "startHostProxy listen pol d =
     (case listen of
        None \<Rightarrow> None
      | Some (port, token) \<Rightarrow>
          (let hp = \<lparr>hp_port = port, hp_user = ''runeward'', hp_pass = token, hp_policy = pol\<rparr>
           in Some (hp, d\<lparr>dk_serving := hp # dk_serving d\<rparr>)))"

definition stop_proxy :: "host_proxy option \<Rightarrow> docker \<Rightarrow> docker" where
  "stop_proxy hp d = (case hp of None \<Rightarrow> d | Some h \<Rightarrow> d\<lparr>dk_serving := remove1 h (dk_serving d)\<rparr>)"

text \<open>\<open>polls\<close> is the number of rounds that start before the deadline.\<close>

fun waitEgressReady :: "'w dockercli \<Rightarrow> string \<Rightarrow> nat \<Rightarrow> 'w \<Rightarrow> docker_error option \<times> 'w" where
  "waitEgressReady C name 0 w = (Some DkSidecarTimeout, w)"
| "waitEgressReady C name (Suc polls) w =
     (let ((logs, _), w1) = dc_run C [''logs'', name] w in
      if str_contains logs ''transparent proxy listening'' then (None, w1)
      else
        (let ((st, ok), w2) = dc_run C [''inspect'', ''-f'', ''{{.State.Running}}'', name] w1 in
         if ok \<and> trim_space st = ''false'' then (Some DkSidecarExited, w2)
         else waitEgressReady C name polls w2))"

definition sidecar_args :: "docker_host \<Rightarrow> string \<Rightarrow> string \<Rightarrow> string list" where
  "sidecar_args K i polJSON =
     (let img0 = he_getenv (dh_env K) ''RUNEWARD_EGRESS_IMAGE'';
          img = (if img0 = [] then ''runeward-egress:latest'' else img0);
          r = trim_space (he_getenv (dh_env K) ''RUNEWARD_DNS_RESOLVERS'')
      in [''run'', ''-d'', ''--name'', egressContainerName i, ''--label'', kv ''runeward.managed'' ''true'', ''--label'', kv ''runeward.id'' i,
          ''--cap-add'', ''NET_ADMIN'', ''--cap-add'', ''NET_RAW'', ''-e'', ''RUNEWARD_EGRESS_POLICY='' @ polJSON] @
         (if r \<noteq> [] then [''-e'', ''RUNEWARD_DNS_RESOLVERS='' @ r] else []) @
         [img, ''--setup-iptables'', ''--transparent'', ''--redirect-port'', ''15001'', ''--proxy-uid'', ''1337''])"

definition startEgressContainer ::
  "'w dockercli \<Rightarrow> docker_host \<Rightarrow> nat \<Rightarrow> string \<Rightarrow> network \<Rightarrow> 'w \<Rightarrow> (docker_error, string) result \<times> 'w" where
  "startEgressContainer C K polls i net w =
     (case dh_policy_json K (policyFromNetwork net) of
        None \<Rightarrow> (Inl DkPolicyJSON, w)
      | Some polJSON \<Rightarrow>
          (let name = egressContainerName i; ((_, ok), w1) = dc_run C (sidecar_args K i polJSON) w in
           if \<not> ok then (Inl DkSidecar, w1)
           else (case waitEgressReady C name polls w1 of
                   (Some e, w2) \<Rightarrow> (Inl e, snd (dc_run C [''rm'', ''-f'', name] w2))
                 | (None, w2) \<Rightarrow> (Inr name, w2))))"

section \<open>Creating a sandbox\<close>

definition create_workdir :: "spec \<Rightarrow> string" where
  "create_workdir s = (if sx_workdir s = [] then ''/workspace'' else sx_workdir s)"

definition create_image :: "spec \<Rightarrow> string" where
  "create_image s = (if sx_image s = [] then ''debian:stable-slim'' else sx_image s)"

definition create_command :: "spec \<Rightarrow> string list" where
  "create_command s = (if sx_command s = [] then [''sleep'', ''infinity''] else sx_command s)"

definition env_args :: "(string \<times> string) list \<Rightarrow> string list" where
  "env_args env = concat (map (\<lambda>(k, v). [''-e'', kv k v]) env)"

definition proxy_url :: "docker \<Rightarrow> host_proxy \<Rightarrow> string" where
  "proxy_url d hp = ''http://'' @ hp_user hp @ '':'' @ hp_pass hp @ ''@'' @ hostGatewayName d @ '':'' @ show_nat (hp_port hp)"

definition memory_limit :: "docker_host \<Rightarrow> spec \<Rightarrow> 64 word" where
  "memory_limit K s = (if re_memory (sx_resources s) = 0 then defaultMemoryBytes (dh_env K) else re_memory (sx_resources s))"

definition cpu_limit :: "docker_host \<Rightarrow> spec \<Rightarrow> 64 word" where
  "cpu_limit K s = (if re_nano_cpus (sx_resources s) = 0 then defaultNanoCPUs (dh_env K) (dh_parse_cpus K) else re_nano_cpus (sx_resources s))"

text \<open>The argument vector of \<^verbatim>\<open>docker run\<close>: the identity and workspace options, and the rest.\<close>

definition run_head :: "string \<Rightarrow> spec \<Rightarrow> string list" where
  "run_head i s =
     [''run'', ''-d'', ''--name'', containerName i, ''--label'', kv ''runeward.managed'' ''true'', ''--label'', kv ''runeward.profile'' (sx_profile s),
      ''--label'', kv ''runeward.id'' i, ''--label'', kv ''runeward.volume'' (volumeName i)]"

definition run_tail :: "docker_host \<Rightarrow> docker \<Rightarrow> string \<Rightarrow> spec \<Rightarrow> host_proxy option \<Rightarrow> string option \<Rightarrow> string list" where
  "run_tail K d i s hp ctr =
     [''-w'', create_workdir s, ''-v'', volumeName i @ '':'' @ create_workdir s] @
     (case ctr of Some c \<Rightarrow> [''--network'', ''container:'' @ c] | None \<Rightarrow> []) @
     (case hp of
        Some h \<Rightarrow> (if docker_Name d = ''docker'' then [''--add-host'', ''host.docker.internal:host-gateway''] else []) @
          [''--sysctl'', ''net.ipv6.conf.all.disable_ipv6=1'', ''--sysctl'', ''net.ipv6.conf.default.disable_ipv6=1'']
      | None \<Rightarrow> []) @
     (if sx_runtime_class s \<noteq> [] then [''--runtime'', sx_runtime_class s] else []) @
     [''--cap-drop'', ''ALL'', ''--security-opt'', ''no-new-privileges''] @
     (if sx_seccomp s \<noteq> [] then [''--security-opt'', ''seccomp='' @ sx_seccomp s] else []) @
     (if sx_apparmor s \<noteq> [] then [''--security-opt'', ''apparmor='' @ sx_apparmor s] else []) @
     (if sx_read_only s then [''--read-only'', ''--tmpfs'', ''/tmp:rw,exec,nosuid,size=512m''] else []) @
     (let pids = defaultPidsLimit (dh_env K) in if sint pids > 0 then [''--pids-limit'', show_int (sint pids)] else []) @
     (if sx_user s \<noteq> [] then [''-u'', sx_user s] else []) @
     env_args (sx_env s) @
     (case hp of Some h \<Rightarrow> env_args (proxyEnv (proxy_url d h)) | None \<Rightarrow> []) @
     concat (map (\<lambda>(k, v). [''--label'', kv k v]) (sx_labels s)) @
     (if sint (memory_limit K s) > 0 then [''--memory'', show_int (sint (memory_limit K s))] else []) @
     (if sint (cpu_limit K s) > 0 then [''--cpus'', dh_show_cpus K (cpu_limit K s)] else []) @
     [''--entrypoint'', hd (create_command s), create_image s] @ tl (create_command s)"

definition run_args :: "docker_host \<Rightarrow> docker \<Rightarrow> string \<Rightarrow> spec \<Rightarrow> host_proxy option \<Rightarrow> string option \<Rightarrow> string list" where
  "run_args K d i s hp ctr = run_head i s @ run_tail K d i s hp ctr"

text \<open>\<open>ctxDone\<close> tells for each round whether the context is done by then.\<close>

fun waitRunning_rounds :: "'w dockercli \<Rightarrow> (nat \<Rightarrow> bool) \<Rightarrow> string \<Rightarrow> nat list \<Rightarrow> 'w \<Rightarrow> bool \<times> 'w" where
  "waitRunning_rounds C ctxDone name [] w = (True, w)"
| "waitRunning_rounds C ctxDone name (attempt # attempts) w =
     (if ctxDone attempt then (False, w)
      else
        (let ((out, ok), w1) = dc_run C [''inspect'', ''--format'', ''{{.State.Running}}'', name] w in
         if ok \<and> trim_space out = ''true'' then waitRunning_rounds C ctxDone name attempts w1 else (False, w1)))"

definition waitRunning :: "'w dockercli \<Rightarrow> (nat \<Rightarrow> bool) \<Rightarrow> string \<Rightarrow> 'w \<Rightarrow> bool \<times> 'w" where
  "waitRunning C ctxDone name w = waitRunning_rounds C ctxDone name [0, 1, 2] w"

definition volumeOf :: "'w dockercli \<Rightarrow> string \<Rightarrow> 'w \<Rightarrow> string \<times> 'w" where
  "volumeOf C i w =
     (let ((out, ok), w1) = dc_run C [''inspect'', ''-f'', ''{{index .Config.Labels \"runeward.volume\"}}'', containerName i] w
      in (if ok then trim_space out else [], w1))"

definition workdir_of :: "'w dockercli \<Rightarrow> string \<Rightarrow> 'w \<Rightarrow> string option \<times> 'w" where
  "workdir_of C i w =
     (let ((out, ok), w1) = dc_run C [''inspect'', ''-f'', ''{{.Config.WorkingDir}}'', containerName i] w
      in (if \<not> ok then None else Some (if trim_space out = [] then ''/workspace'' else trim_space out), w1))"

definition docker_Kill :: "'w dockercli \<Rightarrow> string \<Rightarrow> docker \<Rightarrow> 'w \<Rightarrow> docker_error option \<times> docker \<times> 'w" where
  "docker_Kill C i d w =
     (let hp = dk_proxies d i; ctr = dk_egress d i;
          d1 = stop_proxy hp (d\<lparr>dk_proxies := (dk_proxies d)(i := None), dk_egress := (dk_egress d)(i := None)\<rparr>);
          (vol, w1) = volumeOf C i w;
          ((_, ok), w2) = dc_run C [''rm'', ''-f'', containerName i] w1
      in if \<not> ok then (Some DkRemove, d1, w2)
         else
           (let w3 = (case ctr of Some c \<Rightarrow> snd (dc_run C [''rm'', ''-f'', c] w2) | None \<Rightarrow> w2);
                w4 = (if vol \<noteq> [] then snd (dc_run C [''volume'', ''rm'', ''-f'', vol] w3) else w3)
            in (None, d1, w4)))"

definition seedWorkspace :: "'w dockercli \<Rightarrow> docker_host \<Rightarrow> string \<Rightarrow> string \<Rightarrow> string \<Rightarrow> 'w \<Rightarrow> docker_error option \<times> 'w" where
  "seedWorkspace C K i workdir srcDir w =
     (if \<not> dh_is_dir K srcDir then (Some (DkSeedDir srcDir), w)
      else if \<not> validateSeedDir (dh_env K) (dh_links K) srcDir then (Some (DkSeedDir srcDir), w)
      else
        (let (entries, readable) = dh_dir_tar K srcDir; (out, err) = filterTarSafe readable entries;
             (ok, w1) = dc_untar C [''exec'', ''-i'', containerName i, ''tar'', ''-C'', workdir, ''-xf'', ''-''] out (err = None) w
         in (if ok then None else Some DkSeed, w1)))"

definition file_data :: "docker_host \<Rightarrow> projected_file \<Rightarrow> (docker_error, string option) result" where
  "file_data K f =
     (if pf_content f \<noteq> [] then Inr (Some (pf_content f))
      else if pf_file f \<noteq> []
      then (case he_read (dh_env K) (expandHome (dh_env K) (pf_file f)) of None \<Rightarrow> Inl (DkReadFile (pf_file f)) | Some b \<Rightarrow> Inr (Some b))
      else Inr None)"

definition copy_file :: "'w dockercli \<Rightarrow> string \<Rightarrow> projected_file \<Rightarrow> string \<Rightarrow> 'w \<Rightarrow> docker_error option \<times> 'w" where
  "copy_file C i f data w =
     (let dir = path_dir (pf_path f);
          w1 = (if dir \<noteq> [] \<and> dir \<noteq> ''.'' \<and> dir \<noteq> ''/'' then snd (dc_run C [''exec'', containerName i, ''mkdir'', ''-p'', dir] w) else w);
          (ok, w2) = dc_cp C data (containerName i @ '':'' @ pf_path f) w1
      in if \<not> ok then (Some DkCopy, w2)
         else
           (let mode = (if pf_mode f = [] then ''0444'' else pf_mode f);
                w3 = snd (dc_run C [''exec'', containerName i, ''chmod'', mode, pf_path f] w2);
                w4 = snd (dc_run C [''exec'', containerName i, ''chown'', ''root:root'', pf_path f] w3)
            in (None, w4)))"

text \<open>\<open>tempOK\<close> tells whether the temporary file on the host could be written.\<close>

fun CopyFiles :: "'w dockercli \<Rightarrow> docker_host \<Rightarrow> bool \<Rightarrow> string \<Rightarrow> projected_file list \<Rightarrow> 'w \<Rightarrow> docker_error option \<times> 'w" where
  "CopyFiles C K tempOK i [] w = (None, w)"
| "CopyFiles C K tempOK i (f # fs) w =
     (case validateProjectionPath (dh_env K) (pf_path f) of
        Some e \<Rightarrow> (Some (DkProjection e), w)
      | None \<Rightarrow>
          if \<not> validateFileMode (pf_mode f) then (Some (DkFileMode (pf_mode f)), w)
          else (case file_data K f of
                  Inl e \<Rightarrow> (Some e, w)
                | Inr None \<Rightarrow> CopyFiles C K tempOK i fs w
                | Inr (Some data) \<Rightarrow>
                    if \<not> tempOK then (Some DkTemp, w)
                    else (case copy_file C i f data w of
                            (Some e, w1) \<Rightarrow> (Some e, w1)
                          | (None, w1) \<Rightarrow> CopyFiles C K tempOK i fs w1)))"

text \<open>The inputs of one call: the new id, the proxy listener, the polls of the sidecar, the context, the
  temporary files and the clock.\<close>

record create_call =
  cc_id :: string
  cc_listen :: "(nat \<times> string) option"
  cc_polls :: nat
  cc_ctx_done :: "nat \<Rightarrow> bool"
  cc_temp_ok :: bool
  cc_now :: gotime

definition start_egress ::
  "'w dockercli \<Rightarrow> docker_host \<Rightarrow> create_call \<Rightarrow> network \<Rightarrow> docker \<Rightarrow> 'w \<Rightarrow>
   (docker_error, host_proxy option \<times> string option) result \<times> docker \<times> 'w" where
  "start_egress C K cc net d w =
     (if \<not> DenyByDefault net then (Inr (None, None), d, w)
      else if StrictEgress net then
        (case startEgressContainer C K (cc_polls cc) (cc_id cc) net w of
           (Inl e, w1) \<Rightarrow> (Inl e, d, w1)
         | (Inr c, w1) \<Rightarrow> (Inr (None, Some c), d, w1))
      else (case startHostProxy (cc_listen cc) (policyFromNetwork net) d of
              None \<Rightarrow> (Inl DkProxy, d, w)
            | Some (hp, d1) \<Rightarrow> (Inr (Some hp, None), d1, w)))"

definition cleanup :: "'w dockercli \<Rightarrow> string \<Rightarrow> host_proxy option \<Rightarrow> string option \<Rightarrow> docker \<Rightarrow> 'w \<Rightarrow> docker \<times> 'w" where
  "cleanup C i hp ctr d w =
     (let w1 = (case ctr of Some c \<Rightarrow> snd (dc_run C [''rm'', ''-f'', c] w) | None \<Rightarrow> w)
      in (stop_proxy hp d, snd (dc_run C [''volume'', ''rm'', ''-f'', volumeName i] w1)))"

definition register_egress :: "string \<Rightarrow> host_proxy option \<Rightarrow> string option \<Rightarrow> docker \<Rightarrow> docker" where
  "register_egress i hp ctr d =
     d\<lparr>dk_proxies := (case hp of Some h \<Rightarrow> (dk_proxies d)(i \<mapsto> h) | None \<Rightarrow> dk_proxies d),
       dk_egress := (case ctr of Some c \<Rightarrow> (dk_egress d)(i \<mapsto> c) | None \<Rightarrow> dk_egress d)\<rparr>"

definition fill_workspace :: "'w dockercli \<Rightarrow> docker_host \<Rightarrow> create_call \<Rightarrow> spec \<Rightarrow> 'w \<Rightarrow> docker_error option \<times> 'w" where
  "fill_workspace C K cc s w =
     (case (if sx_seed_dir s \<noteq> [] then seedWorkspace C K (cc_id cc) (create_workdir s) (sx_seed_dir s) w else (None, w)) of
        (Some e, w1) \<Rightarrow> (Some e, w1)
      | (None, w1) \<Rightarrow> if sx_files s \<noteq> [] then CopyFiles C K (cc_temp_ok cc) (cc_id cc) (sx_files s) w1 else (None, w1))"

text \<open>What follows the start of the container: on failure everything is torn down.\<close>

definition after_run ::
  "'w dockercli \<Rightarrow> docker_host \<Rightarrow> create_call \<Rightarrow> spec \<Rightarrow> host_proxy option \<Rightarrow> string option \<Rightarrow> docker \<Rightarrow> bool \<Rightarrow> 'w \<Rightarrow>
   (docker_error, sandbox) result \<times> docker \<times> 'w" where
  "after_run C K cc s hp ctr d1 runOK w3 =
     (let i = cc_id cc in
      if \<not> runOK then (Inl DkRun, cleanup C i hp ctr d1 w3)
      else (case waitRunning C (cc_ctx_done cc) (containerName i) w3 of
              (False, w4) \<Rightarrow>
                (let w5 = snd (dc_run C [''logs'', ''--tail'', ''50'', containerName i] w4);
                     w6 = snd (dc_run C [''rm'', ''-f'', containerName i] w5)
                 in (Inl DkStartup, cleanup C i hp ctr d1 w6))
            | (True, w4) \<Rightarrow>
                (let d2 = register_egress i hp ctr d1 in
                 case fill_workspace C K cc s w4 of
                   (Some e, w5) \<Rightarrow> (Inl e, snd (docker_Kill C i d2 w5))
                 | (None, w5) \<Rightarrow>
                     (Inr \<lparr>sb_id = i, sb_profile = sx_profile s, sb_backend = docker_Name d2, sb_image = create_image s,
                           sb_status = ''running'', sb_created = cc_now cc\<rparr>, d2, w5))))"

definition docker_Create ::
  "'w dockercli \<Rightarrow> docker_host \<Rightarrow> create_call \<Rightarrow> spec \<Rightarrow> docker \<Rightarrow> 'w \<Rightarrow> (docker_error, sandbox) result \<times> docker \<times> 'w" where
  "docker_Create C K cc s d w =
     (let i = cc_id cc;
          ((_, volOK), w1) = dc_run C [''volume'', ''create'', ''--label'', kv ''runeward.managed'' ''true'', ''--label'', kv ''runeward.id'' i, volumeName i] w
      in if \<not> volOK then (Inl DkVolume, d, w1)
         else (case start_egress C K cc (sx_network s) d w1 of
                 (Inl e, d1, w2) \<Rightarrow> (Inl e, d1, snd (dc_run C [''volume'', ''rm'', ''-f'', volumeName i] w2))
               | (Inr (hp, ctr), d1, w2) \<Rightarrow>
                   (let ((_, runOK), w3) = dc_run C (run_args K d1 i s hp ctr) w2 in after_run C K cc s hp ctr d1 runOK w3)))"

section \<open>The other operations\<close>

definition docker_has :: "'w dockercli \<Rightarrow> string \<Rightarrow> 'w \<Rightarrow> bool \<times> 'w" where
  "docker_has C i w = (let ((_, ok), w1) = dc_run C [''inspect'', ''-f'', ''{{.Id}}'', containerName i] w in (ok, w1))"

definition exec_args :: "string \<Rightarrow> string list \<Rightarrow> string \<Rightarrow> (string \<times> string) list \<Rightarrow> string list" where
  "exec_args i command workdir env =
     [''exec''] @ (if workdir \<noteq> [] then [''-w'', workdir] else []) @ env_args env @ [containerName i] @ command"

text \<open>\<open>exit\<close> is how the client process ended: with an exit code, or not at all.\<close>

definition docker_Exec ::
  "('w \<Rightarrow> string list \<Rightarrow> (string \<times> string \<times> int option) \<times> 'w) \<Rightarrow> string \<Rightarrow> string list \<Rightarrow> string \<Rightarrow> (string \<times> string) list \<Rightarrow> 'w \<Rightarrow>
   (docker_error, int \<times> string \<times> string) result \<times> 'w" where
  "docker_Exec run i command workdir env w =
     (let ((stdout, stderr, exit), w1) = run w (exec_args i command workdir env) in
      case exit of
        None \<Rightarrow> (Inl DkExec, w1)
      | Some code \<Rightarrow> (Inr (code, stdout, stderr), w1))"

text \<open>\<open>createOK\<close> and \<open>hashOK\<close> tell whether the file could be created and read back.\<close>

definition docker_Snapshot ::
  "prims \<Rightarrow> 'w dockercli \<Rightarrow> bool \<Rightarrow> bool \<Rightarrow> string \<Rightarrow> gotime \<Rightarrow> string \<Rightarrow> string \<Rightarrow> docker \<Rightarrow> files \<Rightarrow> 'w \<Rightarrow>
   (docker_error, snapshot_ref) result \<times> files \<times> 'w" where
  "docker_Snapshot P C createOK hashOK snapID now i name d fs w =
     (case workdir_of C i w of
        (None, w1) \<Rightarrow> (Inl DkInspect, fs, w1)
      | (Some workdir, w1) \<Rightarrow>
          (let loc = path_join (dk_snap_dir d) (snapID @ ''.tar'') in
           if \<not> createOK then (Inl DkSnapshot, fs, w1)
           else
             (let ((out, ok), w2) = dc_run C [''exec'', containerName i, ''tar'', ''-C'', workdir, ''-cf'', ''-'', ''.''] w1 in
              if \<not> ok then (Inl DkSnapshot, fs(loc := None), w2)
              else if \<not> hashOK then (Inl DkSnapshotHash, fs(loc := None), w2)
              else (Inr \<lparr>sr_id = snapID, sr_name = name, sr_profile = [], sr_backend = docker_Name d, sr_location = loc,
                          sr_sha256 = sha256hex P out, sr_created = now\<rparr>, fs(loc \<mapsto> out), w2))))"

text \<open>\<open>hash\<close> digests a file of the host, \<open>openTar\<close> opens and decodes one.\<close>

definition docker_RestoreWithSpec ::
  "'w dockercli \<Rightarrow> docker_host \<Rightarrow> create_call \<Rightarrow> (string \<Rightarrow> string option) \<Rightarrow> (string \<Rightarrow> (tar_entry list \<times> bool) option) \<Rightarrow>
   snapshot_ref \<Rightarrow> spec \<Rightarrow> docker \<Rightarrow> 'w \<Rightarrow> (docker_error, sandbox) result \<times> docker \<times> 'w" where
  "docker_RestoreWithSpec C K cc hash openTar ref s0 d w =
     (let s = (if sx_profile s0 = [] then s0\<lparr>sx_profile := sr_profile ref\<rparr> else s0) in
      case docker_Create C K cc s d w of
        (Inl e, d1, w1) \<Rightarrow> (Inl e, d1, w1)
      | (Inr sb, d1, w1) \<Rightarrow>
          (case workdir_of C (sb_id sb) w1 of
             (None, w2) \<Rightarrow> (Inl DkInspect, snd (docker_Kill C (sb_id sb) d1 w2))
           | (Some workdir, w2) \<Rightarrow>
               if \<not> verifySnapshot hash ref then (Inl DkSnapshotDigest, snd (docker_Kill C (sb_id sb) d1 w2))
               else (case openTar (sr_location ref) of
                       None \<Rightarrow> (Inl DkSnapshotOpen, snd (docker_Kill C (sb_id sb) d1 w2))
                     | Some (entries, readable) \<Rightarrow>
                         (let (out, err) = filterTarSafe readable entries;
                              (ok, w3) = dc_untar C [''exec'', ''-i'', containerName (sb_id sb), ''tar'', ''-C'', workdir, ''-xf'', ''-''] out (err = None) w2
                          in if ok then (Inr sb, d1, w3) else (Inl DkUntar, snd (docker_Kill C (sb_id sb) d1 w3))))))"

definition ContainerIP :: "'w dockercli \<Rightarrow> string \<Rightarrow> docker \<Rightarrow> 'w \<Rightarrow> (docker_error, string) result \<times> 'w" where
  "ContainerIP C i d w =
     (let target = (case dk_egress d i of Some c \<Rightarrow> if c \<noteq> [] then c else containerName i | None \<Rightarrow> containerName i);
          ((out, ok), w1) = dc_run C [''inspect'', ''-f'', ''{{range .NetworkSettings.Networks}}{{.IPAddress}}{{end}}'', target] w
      in if \<not> ok then (Inl DkInspect, w1)
         else if trim_space out \<noteq> [] then (Inr (trim_space out), w1)
         else
           (let ((out2, ok2), w2) = dc_run C [''inspect'', ''-f'', ''{{.NetworkSettings.IPAddress}}'', target] w1 in
            if \<not> ok2 then (Inl DkInspect, w2)
            else if trim_space out2 = [] then (Inl DkNoIP, w2)
            else (Inr (trim_space out2), w2)))"

text \<open>One line of \<^verbatim>\<open>docker ps\<close>, decoded from JSON: its labels, image and state.\<close>

definition docker_List ::
  "'w dockercli \<Rightarrow> (string \<Rightarrow> (string \<times> string \<times> string) option) \<Rightarrow> docker \<Rightarrow> 'w \<Rightarrow> sandbox list option \<times> 'w" where
  "docker_List C decode d w =
     (let ((out, ok), w1) = dc_run C [''ps'', ''-a'', ''--filter'', ''label=runeward.managed=true'', ''--format'', ''{{json .}}''] w;
          str = (\<lambda>m k. case m k of Some v \<Rightarrow> v | None \<Rightarrow> [])
      in if \<not> ok then (None, w1)
         else (Some (List.map_filter
                 (\<lambda>line. if line = [] then None
                   else map_option (\<lambda>(ls, img, state).
                     (let labels = parseLabels ls in
                      \<lparr>sb_id = str labels ''runeward.id'', sb_profile = str labels ''runeward.profile'', sb_backend = docker_Name d,
                       sb_image = img, sb_status = state, sb_created = 0\<rparr>)) (decode line))
                 (split_byte CHR 0x0A (trim_space out))), w1))"

section \<open>Quiet commands\<close>

text \<open>
  Most commands only look at the engine or run inside the sandbox. \<open>quiet_client\<close> is the interface for
  what such commands keep of the engine's state; it serves for the resources of the engine and for the
  trace of a recording client.
\<close>

locale quiet_client =
  fixes C :: "'w dockercli" and keeps :: "'w \<Rightarrow> 'w \<Rightarrow> bool"
  assumes keeps_refl: "keeps w w"
    and keeps_trans: "keeps w w1 \<Longrightarrow> keeps w1 w2 \<Longrightarrow> keeps w w2"
    and keeps_run: "cmd \<in> {''inspect'', ''logs'', ''exec''} \<Longrightarrow> keeps w (snd (dc_run C (cmd # args) w))"
    and keeps_cp: "keeps w (snd (dc_cp C data target w))"
    and keeps_untar: "keeps w (snd (dc_untar C (''exec'' # args) es ok w))"
begin

lemma run_keeps: "cmd \<in> {''inspect'', ''logs'', ''exec''} \<Longrightarrow> dc_run C (cmd # args) w = (x, w1) \<Longrightarrow> keeps w w1"
  using keeps_run [of cmd w args] by simp

lemma waitEgressReady_keeps: "waitEgressReady C name polls w = (e, w1) \<Longrightarrow> keeps w w1"
proof (induction polls arbitrary: w)
  case 0
  then show ?case by (simp add: keeps_refl)
next
  case (Suc polls)
  then show ?case
    by (auto simp: Let_def split: prod.splits if_splits intro: keeps_trans dest!: run_keeps [rotated])
qed

lemma waitRunning_rounds_keeps: "waitRunning_rounds C ctxDone name ns w = (ok, w1) \<Longrightarrow> keeps w w1"
  by (induction ns arbitrary: w)
     (auto simp: Let_def keeps_refl split: prod.splits if_splits intro: keeps_trans dest!: run_keeps [rotated])

lemma waitRunning_keeps: "waitRunning C ctxDone name w = (ok, w1) \<Longrightarrow> keeps w w1"
  unfolding waitRunning_def by (rule waitRunning_rounds_keeps)

lemma volumeOf_keeps: "volumeOf C i w = (v, w1) \<Longrightarrow> keeps w w1"
  by (auto simp: volumeOf_def Let_def split: prod.splits dest!: run_keeps [rotated])

lemma workdir_of_keeps: "workdir_of C i w = (v, w1) \<Longrightarrow> keeps w w1"
  by (auto simp: workdir_of_def Let_def split: prod.splits dest!: run_keeps [rotated])

lemma seedWorkspace_keeps: "seedWorkspace C K i workdir src w = (e, w1) \<Longrightarrow> keeps w w1"
  using keeps_untar [of w] by (auto simp: seedWorkspace_def Let_def keeps_refl split: prod.splits if_splits) (metis snd_conv)+

lemma copy_file_keeps: "copy_file C i f data w = (e, w1) \<Longrightarrow> keeps w w1"
proof -
  assume "copy_file C i f data w = (e, w1)"
  moreover define wa where "wa = (if path_dir (pf_path f) \<noteq> [] \<and> path_dir (pf_path f) \<noteq> ''.'' \<and> path_dir (pf_path f) \<noteq> ''/''
    then snd (dc_run C [''exec'', containerName i, ''mkdir'', ''-p'', path_dir (pf_path f)] w) else w)"
  have a: "keeps w wa" by (auto simp: wa_def keeps_refl keeps_run)
  obtain ok wb where b: "dc_cp C data (containerName i @ '':'' @ pf_path f) wa = (ok, wb)" by fastforce
  with keeps_cp [of wa data] have "keeps w wb" using a by (metis keeps_trans snd_conv)
  then show ?thesis
    using calculation b keeps_trans [OF _ keeps_run]
    by (auto simp: copy_file_def Let_def simp flip: wa_def split: if_splits)
qed

lemma CopyFiles_keeps: "CopyFiles C K tempOK i fs w = (e, w1) \<Longrightarrow> keeps w w1"
proof (induction fs arbitrary: w)
  case Nil
  then show ?case by (simp add: keeps_refl)
next
  case (Cons f fs)
  then show ?case
    by (auto simp: keeps_refl split: option.splits sum.splits if_splits prod.splits intro: keeps_trans dest!: copy_file_keeps)
qed

lemma fill_workspace_keeps: "fill_workspace C K cc s w = (e, w1) \<Longrightarrow> keeps w w1"
  by (auto simp: fill_workspace_def keeps_refl split: prod.splits option.splits if_splits
      intro: keeps_trans dest!: CopyFiles_keeps seedWorkspace_keeps)

end

section \<open>What the engine promises\<close>

text \<open>
  What the code relies on about the Docker and Podman clients, as their documentation has it: \<open>res\<close> is the
  set of names of containers and volumes, \<open>vol\<close> the workspace volume of a container, which it mounts and
  which its label names. Removal by force succeeds, except for a volume that a container uses; starting
  a container creates it under its name even when it fails afterwards; commands that inspect the engine or
  run inside a container do not create or remove any.
\<close>

definition volume_label :: string where
  "volume_label = ''runeward.volume=''"

definition no_volume_label :: "string list \<Rightarrow> bool" where
  "no_volume_label xs \<longleftrightarrow> list_all (\<lambda>x. \<not> has_prefix x volume_label) xs"

definition rm_law :: "'w dockercli \<Rightarrow> ('w \<Rightarrow> string set) \<Rightarrow> ('w \<Rightarrow> string \<rightharpoonup> string) \<Rightarrow> bool" where
  "rm_law C res vol \<longleftrightarrow>
     (\<forall>n w x w'. dc_run C [''rm'', ''-f'', n] w = (x, w') \<longrightarrow> snd x \<and> res w' = res w - {n} \<and> vol w' = (vol w)(n := None))"

definition volume_rm_law :: "'w dockercli \<Rightarrow> ('w \<Rightarrow> string set) \<Rightarrow> ('w \<Rightarrow> string \<rightharpoonup> string) \<Rightarrow> bool" where
  "volume_rm_law C res vol \<longleftrightarrow>
     (\<forall>v w x w'. dc_run C [''volume'', ''rm'', ''-f'', v] w = (x, w') \<longrightarrow>
        vol w' = vol w \<and> res w' = (if \<exists>n \<in> res w. vol w n = Some v then res w else res w - {v}))"

definition volume_create_law :: "'w dockercli \<Rightarrow> ('w \<Rightarrow> string set) \<Rightarrow> ('w \<Rightarrow> string \<rightharpoonup> string) \<Rightarrow> bool" where
  "volume_create_law C res vol \<longleftrightarrow>
     (\<forall>xs v w x w'. dc_run C (''volume'' # ''create'' # xs @ [v]) w = (x, w') \<longrightarrow>
        vol w' = vol w \<and> res w' \<subseteq> insert v (res w) \<and> (\<not> snd x \<longrightarrow> res w' \<subseteq> res w))"

definition run_law :: "'w dockercli \<Rightarrow> ('w \<Rightarrow> string set) \<Rightarrow> ('w \<Rightarrow> string \<rightharpoonup> string) \<Rightarrow> bool" where
  "run_law C res vol \<longleftrightarrow>
     (\<forall>n xs w x w'. dc_run C (''run'' # ''-d'' # ''--name'' # n # xs) w = (x, w') \<longrightarrow>
        res w' \<subseteq> insert n (res w) \<and> (\<forall>m. m \<noteq> n \<longrightarrow> vol w' m = vol w m) \<and> (no_volume_label xs \<longrightarrow> vol w' n = None))"

definition label_law :: "'w dockercli \<Rightarrow> ('w \<Rightarrow> string \<rightharpoonup> string) \<Rightarrow> bool" where
  "label_law C vol \<longleftrightarrow>
     (\<forall>n v ys zs w x w'. dc_run C (''run'' # ''-d'' # ''--name'' # n # ys @ [''--label'', volume_label @ v] @ zs) w = (x, w') \<longrightarrow>
        no_volume_label ys \<longrightarrow> no_volume_label zs \<longrightarrow> vol w' n = Some v) \<and>
     (\<forall>i v w. vol w (containerName i) = Some v \<longrightarrow> trim_space v = v \<longrightarrow> fst (volumeOf C i w) = v)"

definition docker_ok :: "'w dockercli \<Rightarrow> ('w \<Rightarrow> string set) \<Rightarrow> ('w \<Rightarrow> string \<rightharpoonup> string) \<Rightarrow> bool" where
  "docker_ok C res vol \<longleftrightarrow>
     quiet_client C (\<lambda>w w'. res w' = res w \<and> vol w' = vol w) \<and> rm_law C res vol \<and> volume_rm_law C res vol \<and>
     volume_create_law C res vol \<and> run_law C res vol \<and> label_law C vol"

lemma docker_okD:
  assumes "docker_ok C res vol"
  shows "quiet_client C (\<lambda>w w'. res w' = res w \<and> vol w' = vol w)" "rm_law C res vol" "volume_rm_law C res vol"
    "volume_create_law C res vol" "run_law C res vol" "label_law C vol"
  using assms by (simp_all add: docker_ok_def)

lemma rm_lawD:
  "rm_law C res vol \<Longrightarrow> dc_run C [''rm'', ''-f'', n] w = (x, w') \<Longrightarrow> snd x \<and> res w' = res w - {n} \<and> vol w' = (vol w)(n := None)"
  unfolding rm_law_def by blast

lemma volume_rm_lawD:
  "volume_rm_law C res vol \<Longrightarrow> dc_run C [''volume'', ''rm'', ''-f'', v] w = (x, w') \<Longrightarrow>
     vol w' = vol w \<and> res w' = (if \<exists>n \<in> res w. vol w n = Some v then res w else res w - {v})"
  unfolding volume_rm_law_def by blast

lemma volume_create_lawD:
  "volume_create_law C res vol \<Longrightarrow> dc_run C (''volume'' # ''create'' # xs @ [v]) w = (x, w') \<Longrightarrow>
     vol w' = vol w \<and> res w' \<subseteq> insert v (res w) \<and> (\<not> snd x \<longrightarrow> res w' \<subseteq> res w)"
  unfolding volume_create_law_def by blast

lemma run_lawD:
  "run_law C res vol \<Longrightarrow> dc_run C (''run'' # ''-d'' # ''--name'' # n # xs) w = (x, w') \<Longrightarrow>
     res w' \<subseteq> insert n (res w) \<and> (\<forall>m. m \<noteq> n \<longrightarrow> vol w' m = vol w m) \<and> (no_volume_label xs \<longrightarrow> vol w' n = None)"
  unfolding run_law_def by blast

lemma label_lawD:
  "label_law C vol \<Longrightarrow> dc_run C (''run'' # ''-d'' # ''--name'' # n # ys @ [''--label'', volume_label @ v] @ zs) w = (x, w') \<Longrightarrow>
     no_volume_label ys \<Longrightarrow> no_volume_label zs \<Longrightarrow> vol w' n = Some v"
  "label_law C vol \<Longrightarrow> vol w (containerName i) = Some u \<Longrightarrow> trim_space u = u \<Longrightarrow> fst (volumeOf C i w) = u"
  unfolding label_law_def by blast+

text \<open>The names that a sandbox with id \<open>i\<close> takes, and that it is fresh.\<close>

definition sandbox_names :: "string \<Rightarrow> string set" where
  "sandbox_names i = {containerName i, egressContainerName i, volumeName i}"

definition fresh_id :: "('w \<Rightarrow> string set) \<Rightarrow> ('w \<Rightarrow> string \<rightharpoonup> string) \<Rightarrow> string \<Rightarrow> 'w \<Rightarrow> bool" where
  "fresh_id res vol i w \<longleftrightarrow> sandbox_names i \<inter> res w = {} \<and> (\<forall>n. vol w n \<noteq> Some (volumeName i)) \<and>
     trim_space (volumeName i) = volumeName i"

lemma names_distinct [simp]:
  "containerName i \<noteq> volumeName i" "volumeName i \<noteq> containerName i" "containerName i \<noteq> egressContainerName i"
  "egressContainerName i \<noteq> containerName i" "volumeName i \<noteq> egressContainerName i" "egressContainerName i \<noteq> volumeName i"
  by (auto simp: containerName_def volumeName_def egressContainerName_def dest: arg_cong [where f = length])

text \<open>While the sandbox is being set up: only its own names are new, nothing but its container uses its
  volume, and \<open>others\<close> is what existed before.\<close>

definition setup_inv :: "('w \<Rightarrow> string set) \<Rightarrow> ('w \<Rightarrow> string \<rightharpoonup> string) \<Rightarrow> string \<Rightarrow> string set \<Rightarrow> 'w \<Rightarrow> bool" where
  "setup_inv res vol i others w \<longleftrightarrow>
     res w \<subseteq> others \<union> sandbox_names i \<and> sandbox_names i \<inter> others = {} \<and> trim_space (volumeName i) = volumeName i \<and>
     (\<forall>n. n \<noteq> containerName i \<longrightarrow> vol w n \<noteq> Some (volumeName i))"

text \<open>After the container and the sidecar are removed, removing the volume leaves what existed before.\<close>

lemma remove_volume:
  assumes "docker_ok C res vol" "setup_inv res vol i others w" "containerName i \<notin> res w" "egressContainerName i \<notin> res w"
    and "dc_run C [''volume'', ''rm'', ''-f'', volumeName i] w = (x, w')"
  shows "res w' \<subseteq> others"
proof -
  have "\<not> (\<exists>n \<in> res w. vol w n = Some (volumeName i))" using assms(2,3) unfolding setup_inv_def by metis
  then have "res w' = res w - {volumeName i}" using volume_rm_lawD [OF docker_okD(3) [OF assms(1)] assms(5)] by simp
  then show ?thesis using assms(2-4) by (auto simp: setup_inv_def sandbox_names_def)
qed

lemma remove_name:
  assumes "docker_ok C res vol" "setup_inv res vol i others w" "dc_run C [''rm'', ''-f'', n] w = (x, w')"
  shows "setup_inv res vol i others w' \<and> res w' = res w - {n} \<and> snd x"
  using rm_lawD [OF docker_okD(2) [OF assms(1)] assms(3)] assms(2) by (auto simp: setup_inv_def)

definition sidecar_of :: "string \<Rightarrow> string option \<Rightarrow> bool" where
  "sidecar_of i ctr \<longleftrightarrow> ctr \<in> {None, Some (egressContainerName i)}"

lemma cleanup_removes:
  assumes "docker_ok C res vol" "setup_inv res vol i others w" "containerName i \<notin> res w"
    and "sidecar_of i ctr" "ctr = None \<longrightarrow> egressContainerName i \<notin> res w" "cleanup C i hp ctr d w = (d', w')"
  shows "res w' \<subseteq> others \<and> d' = stop_proxy hp d"
proof -
  define w1 where "w1 = (case ctr of Some c \<Rightarrow> snd (dc_run C [''rm'', ''-f'', c] w) | None \<Rightarrow> w)"
  have w1: "setup_inv res vol i others w1 \<and> containerName i \<notin> res w1 \<and> egressContainerName i \<notin> res w1"
  proof (cases ctr)
    case None
    with assms show ?thesis by (simp add: w1_def)
  next
    case (Some c)
    then have "c = egressContainerName i" using assms(4) by (simp add: sidecar_of_def)
    moreover obtain x wx where "dc_run C [''rm'', ''-f'', c] w = (x, wx)" by fastforce
    ultimately show ?thesis using remove_name [OF assms(1,2)] assms(3) Some by (auto simp: w1_def)
  qed
  obtain x w2 where w2: "dc_run C [''volume'', ''rm'', ''-f'', volumeName i] w1 = (x, w2)" by fastforce
  with remove_volume [OF assms(1) _ _ _ w2, of others] w1 assms(6) show ?thesis by (auto simp: cleanup_def Let_def simp flip: w1_def)
qed

text \<open>No option but the one that labels the sandbox with its volume looks like that label.\<close>

definition plain_options :: "docker_host \<Rightarrow> string \<Rightarrow> spec \<Rightarrow> bool" where
  "plain_options K i s \<longleftrightarrow>
     (\<forall>j. no_volume_label (drop 4 (sidecar_args K i j))) \<and> (\<forall>d hp ctr. no_volume_label (run_tail K d i s hp ctr))"

lemma sidecar_args_form: "sidecar_args K i j = ''run'' # ''-d'' # ''--name'' # egressContainerName i # drop 4 (sidecar_args K i j)"
  by (simp add: sidecar_args_def Let_def)

lemma run_args_form:
  "run_args K d i s hp ctr = ''run'' # ''-d'' # ''--name'' # containerName i #
     [''--label'', kv ''runeward.managed'' ''true'', ''--label'', kv ''runeward.profile'' (sx_profile s), ''--label'', kv ''runeward.id'' i] @
     [''--label'', volume_label @ volumeName i] @ run_tail K d i s hp ctr"
  by (simp add: run_args_def run_head_def kv_def volume_label_def)

lemma head_no_label:
  "no_volume_label [''--label'', kv ''runeward.managed'' ''true'', ''--label'', kv ''runeward.profile'' p, ''--label'', kv ''runeward.id'' i]"
  by (simp add: no_volume_label_def kv_def has_prefix_def volume_label_def)

lemma run_container:
  assumes "docker_ok C res vol" "plain_options K i s" "setup_inv res vol i others w"
    and "dc_run C (run_args K d i s hp ctr) w = (x, w')"
  shows "setup_inv res vol i others w' \<and> vol w' (containerName i) = Some (volumeName i) \<and> res w' \<subseteq> insert (containerName i) (res w)"
proof -
  have "no_volume_label (run_tail K d i s hp ctr)" using assms(2) by (simp add: plain_options_def)
  then have v: "vol w' (containerName i) = Some (volumeName i)"
    using label_lawD(1) [OF docker_okD(6) [OF assms(1)] assms(4) [unfolded run_args_form] head_no_label] by simp
  have "res w' \<subseteq> insert (containerName i) (res w) \<and> (\<forall>m. m \<noteq> containerName i \<longrightarrow> vol w' m = vol w m)"
    using run_lawD [OF docker_okD(5) [OF assms(1)] assms(4) [unfolded run_args_form]] by simp
  with v assms(3) show ?thesis by (auto simp: setup_inv_def sandbox_names_def)
qed

lemma startEgressContainer_spec:
  assumes "docker_ok C res vol" "plain_options K i s" "setup_inv res vol i others w" "containerName i \<notin> res w" "egressContainerName i \<notin> res w"
    and "startEgressContainer C K polls i net w = (r, w')"
  shows "setup_inv res vol i others w' \<and> containerName i \<notin> res w' \<and>
    (case r of Inl e \<Rightarrow> e \<noteq> DkSidecar \<longrightarrow> egressContainerName i \<notin> res w' | Inr c \<Rightarrow> c = egressContainerName i)"
proof (cases "dh_policy_json K (policyFromNetwork net)")
  case None
  with assms show ?thesis by (auto simp: startEgressContainer_def)
next
  case (Some j)
  obtain x ok w1 where w1: "dc_run C (sidecar_args K i j) w = ((x, ok), w1)" by (metis prod.collapse)
  have w1q: "dc_run C (''run'' # ''-d'' # ''--name'' # egressContainerName i # drop 4 (sidecar_args K i j)) w = ((x, ok), w1)"
    using w1 by (simp only: sidecar_args_form [symmetric])
  have "no_volume_label (drop 4 (sidecar_args K i j))" using assms(2) by (simp add: plain_options_def)
  then have r: "res w1 \<subseteq> insert (egressContainerName i) (res w)" "\<forall>m. m \<noteq> egressContainerName i \<longrightarrow> vol w1 m = vol w m"
    "vol w1 (egressContainerName i) = None"
    using run_lawD [OF docker_okD(5) [OF assms(1)] w1q] by auto
  then have "\<forall>n. n \<noteq> containerName i \<longrightarrow> vol w1 n \<noteq> Some (volumeName i)"
    using assms(3) unfolding setup_inv_def by (metis option.distinct(1))
  then have s1: "setup_inv res vol i others w1" "containerName i \<notin> res w1"
    using r(1) assms(3,4) by (auto simp: setup_inv_def sandbox_names_def)
  show ?thesis
  proof (cases ok)
    case False
    with assms(6) Some w1 s1 show ?thesis by (auto simp: startEgressContainer_def Let_def)
  next
    case True
    obtain e w2 where w2: "waitEgressReady C (egressContainerName i) polls w1 = (e, w2)" by fastforce
    then have "res w2 = res w1 \<and> vol w2 = vol w1" by (rule quiet_client.waitEgressReady_keeps [OF docker_okD(1) [OF assms(1)]])
    with s1 have s2: "setup_inv res vol i others w2" "containerName i \<notin> res w2" by (auto simp: setup_inv_def)
    obtain y w3 where w3: "dc_run C [''rm'', ''-f'', egressContainerName i] w2 = (y, w3)" by fastforce
    have s3: "setup_inv res vol i others w3 \<and> res w3 = res w2 - {egressContainerName i}"
      using remove_name [OF assms(1) s2(1) w3] by simp
    have "(r, w') = (case e of Some e' \<Rightarrow> (Inl e', w3) | None \<Rightarrow> (Inr (egressContainerName i), w2))"
      using assms(6) Some w1 True w2 w3 by (cases e) (simp_all add: startEgressContainer_def Let_def)
    then show ?thesis using s2 s3 by (simp split: option.splits)
  qed
qed

lemma start_egress_spec:
  assumes "docker_ok C res vol" "plain_options K (cc_id cc) s" "setup_inv res vol (cc_id cc) others w"
    and "containerName (cc_id cc) \<notin> res w" "egressContainerName (cc_id cc) \<notin> res w"
    and "start_egress C K cc net d w = (r, d', w')"
  shows "setup_inv res vol (cc_id cc) others w' \<and> containerName (cc_id cc) \<notin> res w' \<and>
    (case r of
       Inl e \<Rightarrow> d' = d \<and> (e \<noteq> DkSidecar \<longrightarrow> egressContainerName (cc_id cc) \<notin> res w') \<and> e \<noteq> DkRun
     | Inr (hp, ctr) \<Rightarrow> sidecar_of (cc_id cc) ctr \<and> (ctr = None \<longrightarrow> egressContainerName (cc_id cc) \<notin> res w') \<and>
         stop_proxy hp d' = d \<and> dk_proxies d' = dk_proxies d \<and> dk_egress d' = dk_egress d)"
proof (cases "StrictEgress net")
  case True
  then have deny: "DenyByDefault net" by (simp add: StrictEgress_def DenyByDefault_def)
  obtain r1 w1 where w1: "startEgressContainer C K (cc_polls cc) (cc_id cc) net w = (r1, w1)" by fastforce
  have not_run: "r1 \<noteq> Inl DkRun"
  proof -
    have "waitEgressReady C n k v \<noteq> (Some DkRun, v')" for n k v v'
      by (induction k arbitrary: v) (auto simp: Let_def split: prod.splits if_splits)
    then show ?thesis using w1 by (auto simp: startEgressContainer_def Let_def split: option.splits if_splits prod.splits)
  qed
  show ?thesis
    using startEgressContainer_spec [OF assms(1-5) w1] assms(6) True deny w1 not_run
    by (cases r1) (auto simp: start_egress_def sidecar_of_def stop_proxy_def)
next
  case False
  with assms(3-6) show ?thesis
    by (auto simp: start_egress_def startHostProxy_def sidecar_of_def stop_proxy_def Let_def split: if_splits option.splits prod.splits)
qed

lemma Kill_removes:
  assumes "docker_ok C res vol" "setup_inv res vol i others w" "vol w (containerName i) = Some (volumeName i)"
    and "sidecar_of i (dk_egress d i)" "dk_egress d i = None \<longrightarrow> egressContainerName i \<notin> res w" "docker_Kill C i d w = (e, d', w')"
  shows "e = None \<and> res w' \<subseteq> others \<and>
    d' = stop_proxy (dk_proxies d i) (d\<lparr>dk_proxies := (dk_proxies d)(i := None), dk_egress := (dk_egress d)(i := None)\<rparr>)"
proof -
  obtain v w1 where w1: "volumeOf C i w = (v, w1)" by fastforce
  have v: "v = volumeName i" using label_lawD(2) [OF docker_okD(6) [OF assms(1)] assms(3)] w1 assms(2) by (simp add: setup_inv_def)
  have "res w1 = res w \<and> vol w1 = vol w" using w1 by (rule quiet_client.volumeOf_keeps [OF docker_okD(1) [OF assms(1)]])
  with assms(2) have s1: "setup_inv res vol i others w1" by (simp add: setup_inv_def)
  obtain x ok w2 where w2: "dc_run C [''rm'', ''-f'', containerName i] w1 = ((x, ok), w2)" by (metis prod.collapse)
  have s2: "setup_inv res vol i others w2" "res w2 = res w - {containerName i}" ok
    using remove_name [OF assms(1) s1 w2] \<open>res w1 = res w \<and> _\<close> by auto
  have none: "dk_egress d i = None \<longrightarrow> egressContainerName i \<notin> res w2" "containerName i \<notin> res w2" using s2(2) assms(5) by auto
  obtain d3 w3 where c: "cleanup C i (dk_proxies d i) (dk_egress d i) (d\<lparr>dk_proxies := (dk_proxies d)(i := None), dk_egress := (dk_egress d)(i := None)\<rparr>) w2 = (d3, w3)"
    by fastforce
  have "volumeName i \<noteq> []" by (simp add: volumeName_def)
  then have "(e, d', w') = (None, d3, w3)" using assms(6) w1 w2 s2(3) v c by (simp add: docker_Kill_def cleanup_def Let_def)
  with cleanup_removes [OF assms(1) s2(1) none(2) assms(4) none(1) c] show ?thesis by simp
qed

text \<open>The last phase of \<^verbatim>\<open>Create\<close>, once the container runs.\<close>

lemma created_then_killed:
  assumes "docker_ok C res vol" "setup_inv res vol i others w" "vol w (containerName i) = Some (volumeName i)"
    and "sidecar_of i ctr" "ctr = None \<longrightarrow> egressContainerName i \<notin> res w"
    and "dk_proxies d i = None" "dk_egress d i = None" "stop_proxy hp d1 = d" "dk_proxies d1 = dk_proxies d" "dk_egress d1 = dk_egress d"
    and "docker_Kill C i (register_egress i hp ctr d1) w = (e, d', w')"
  shows "e = None \<and> res w' \<subseteq> others \<and> d' = d"
proof -
  let ?d = "register_egress i hp ctr d1"
  have eg: "dk_egress ?d i = ctr" "dk_proxies ?d i = hp" using assms(6,7,9,10) by (auto simp: register_egress_def split: option.splits)
  have "e = None \<and> res w' \<subseteq> others \<and> d' = stop_proxy hp (?d\<lparr>dk_proxies := (dk_proxies ?d)(i := None), dk_egress := (dk_egress ?d)(i := None)\<rparr>)"
    using Kill_removes [OF assms(1-3) _ _ assms(11)] assms(4,5) eg by simp
  moreover have "?d\<lparr>dk_proxies := (dk_proxies ?d)(i := None), dk_egress := (dk_egress ?d)(i := None)\<rparr> = d1"
    using assms(6,7,9,10) by (cases hp; cases ctr) (auto simp: register_egress_def fun_upd_idem)
  ultimately show ?thesis using assms(8) by simp
qed

definition create_result ::
  "('w \<Rightarrow> string set) \<Rightarrow> 'w dockercli \<Rightarrow> string \<Rightarrow> docker \<Rightarrow> 'w \<Rightarrow> (docker_error, sandbox) result \<times> docker \<times> 'w \<Rightarrow> bool" where
  "create_result res C i d w out =
     (case out of
        (Inl e, d', w') \<Rightarrow> d' = d \<and> (e \<notin> {DkRun, DkSidecar} \<longrightarrow> res w' \<subseteq> res w)
      | (Inr sb, d', w') \<Rightarrow> sb_id sb = i \<and> (\<forall>e d'' w''. docker_Kill C i d' w' = (e, d'', w'') \<longrightarrow> e = None \<and> res w'' \<subseteq> res w \<and> d'' = d))"

lemma fill_workspace_error:
  assumes "fill_workspace C K cc s w = (Some e, w')"
  shows "e \<notin> {DkRun, DkSidecar}"
proof -
  have seed: "seedWorkspace C K i wd src v = (Some e, v') \<Longrightarrow> e \<notin> {DkRun, DkSidecar}" for i wd src v v'
    by (auto simp: seedWorkspace_def Let_def split: if_splits prod.splits)
  have copy: "CopyFiles C K t i fs v = (Some e, v') \<Longrightarrow> e \<notin> {DkRun, DkSidecar}" for t i fs v v'
    by (induction fs arbitrary: v)
       (auto simp: copy_file_def file_data_def Let_def split: if_splits prod.splits option.splits sum.splits)
  show ?thesis using assms seed copy by (auto simp: fill_workspace_def split: if_splits prod.splits option.splits)
qed

lemma create_after_egress:
  assumes "docker_ok C res vol" "setup_inv res vol i (res w) w2" "containerName i \<notin> res w2"
    and "sidecar_of i ctr" "ctr = None \<longrightarrow> egressContainerName i \<notin> res w2" "stop_proxy hp d2 = d"
    and "dk_proxies d2 = dk_proxies d" "dk_egress d2 = dk_egress d" "plain_options K i s" "dk_proxies d i = None" "dk_egress d i = None"
    and "i = cc_id cc" "dc_run C (run_args K d2 i s hp ctr) w2 = ((x, runOK), w3)" "after_run C K cc s hp ctr d2 runOK w3 = out"
  shows "create_result res C i d w out"
proof -
  note q = docker_okD(1) [OF assms(1)] and w3 = assms(13)
  have s3: "setup_inv res vol i (res w) w3" "vol w3 (containerName i) = Some (volumeName i)" "res w3 \<subseteq> insert (containerName i) (res w2)"
    using run_container [OF assms(1,9,2) w3] by auto
  have eg3: "ctr = None \<longrightarrow> egressContainerName i \<notin> res w3" using s3(3) assms(5) by auto
  obtain ok w4 where w4: "waitRunning C (cc_ctx_done cc) (containerName i) w3 = (ok, w4)" by fastforce
  have k4: "res w4 = res w3" "vol w4 = vol w3" using quiet_client.waitRunning_keeps [OF q w4] by auto
  show ?thesis
  proof (cases runOK)
    case False
    obtain da wa where "cleanup C i hp ctr d2 w3 = (da, wa)" by fastforce
    moreover from this have "da = d" using assms(6) by (auto simp: cleanup_def Let_def)
    ultimately show ?thesis using assms(12,14) False by (auto simp: create_result_def after_run_def Let_def)
  next
    case run: True
    show ?thesis
    proof (cases ok)
      case False
      define w5 where "w5 = snd (dc_run C [''logs'', ''--tail'', ''50'', containerName i] w4)"
      have k5: "res w5 = res w3" "vol w5 = vol w3" using quiet_client.keeps_run [OF q, where cmd = "''logs''" and w = w4] k4 by (auto simp: w5_def)
      obtain y w6 where w6: "dc_run C [''rm'', ''-f'', containerName i] w5 = (y, w6)" by fastforce
      have "setup_inv res vol i (res w) w5" using s3(1) k5 by (simp add: setup_inv_def)
      then have s6: "setup_inv res vol i (res w) w6" "res w6 = res w3 - {containerName i}"
        using remove_name [OF assms(1) _ w6] k5 by auto
      obtain da wa where c: "cleanup C i hp ctr d2 w6 = (da, wa)" by fastforce
      have "res wa \<subseteq> res w \<and> da = d"
        using cleanup_removes [OF assms(1) s6(1) _ assms(4) _ c] s6(2) eg3 assms(6) by auto
      moreover have "out = (Inl DkStartup, da, wa)" using assms(12,14) w4 run False w6 c by (simp add: w5_def after_run_def Let_def)
      ultimately show ?thesis by (simp add: create_result_def)
    next
      case True
      obtain e w5 where w5: "fill_workspace C K cc s w4 = (e, w5)" by fastforce
      have k5: "res w5 = res w3" "vol w5 = vol w3" using quiet_client.fill_workspace_keeps [OF q w5] k4 by auto
      have s5: "setup_inv res vol i (res w) w5" "vol w5 (containerName i) = Some (volumeName i)" "ctr = None \<longrightarrow> egressContainerName i \<notin> res w5"
        using s3(1,2) eg3 k5 by (auto simp: setup_inv_def)
      define mk where "mk = (\<lambda>dd. \<lparr>sb_id = i, sb_profile = sx_profile s, sb_backend = docker_Name dd, sb_image = create_image s,
        sb_status = ''running'', sb_created = cc_now cc\<rparr>)"
      have kill: "f = None \<and> res wb \<subseteq> res w \<and> db = d"
        if "docker_Kill C i (register_egress i hp ctr d2) w5 = (f, db, wb)" for f db wb
        using created_then_killed [OF assms(1) s5(1,2) assms(4) s5(3) assms(10,11,6,7,8) that] .
      have "out = (case e of Some e' \<Rightarrow> (Inl e', snd (docker_Kill C i (register_egress i hp ctr d2) w5))
          | None \<Rightarrow> (Inr (mk (register_egress i hp ctr d2)), register_egress i hp ctr d2, w5))"
        using assms(12,14) w4 run True w5 by (auto simp: after_run_def mk_def Let_def split: option.splits)
      moreover obtain f db wb where "docker_Kill C i (register_egress i hp ctr d2) w5 = (f, db, wb)" by (metis prod.collapse)
      ultimately show ?thesis using kill fill_workspace_error [of C K cc s w4] w5 by (auto simp: create_result_def mk_def split: option.splits)
    qed
  qed
qed


section \<open>The trace of a recording client\<close>

type_synonym command_log = "(string list \<times> string \<times> bool) list"

definition recording :: "'w dockercli \<Rightarrow> ('w \<times> command_log) dockercli" where
  "recording C =
     \<lparr>dc_run = (\<lambda>args (w, tr). let ((out, ok), w') = dc_run C args w in ((out, ok), (w', tr @ [(args, out, ok)]))),
      dc_cp = (\<lambda>data target (w, tr). let (ok, w') = dc_cp C data target w in (ok, (w', tr))),
      dc_untar = (\<lambda>args es fine (w, tr). let (ok, w') = dc_untar C args es fine w in (ok, (w', tr)))\<rparr>"

text \<open>A later state of the recording client whose new entries start no container.\<close>

definition starts_none :: "command_log \<Rightarrow> bool" where
  "starts_none log \<longleftrightarrow> list_all (\<lambda>e. hd (fst e) \<noteq> ''run'') log"

definition quiet_ext :: "'w \<times> command_log \<Rightarrow> 'w \<times> command_log \<Rightarrow> bool" where
  "quiet_ext s s' \<longleftrightarrow> (\<exists>ext. snd s' = snd s @ ext \<and> starts_none ext)"

lemma quiet_ext_refl: "quiet_ext s s"
  by (simp add: quiet_ext_def starts_none_def)

lemma quiet_ext_trans: "quiet_ext s s1 \<Longrightarrow> quiet_ext s1 s2 \<Longrightarrow> quiet_ext s s2"
  by (fastforce simp: quiet_ext_def starts_none_def)

lemma recorded_run: "cmd \<noteq> ''run'' \<Longrightarrow> quiet_ext s (snd (dc_run (recording C) (cmd # args) s))"
  by (auto simp: quiet_ext_def starts_none_def recording_def Let_def split: prod.splits)

interpretation recorded: quiet_client "recording C" quiet_ext for C :: "'w dockercli"
proof
  fix w :: "'w \<times> command_log" and cmd args data target es ok
  show "quiet_ext w w" by (rule quiet_ext_refl)
  show "quiet_ext w (snd (dc_run (recording C) (cmd # args) w))" if "cmd \<in> {''inspect'', ''logs'', ''exec''}"
    using that by (intro recorded_run) auto
  show "quiet_ext w (snd (dc_cp (recording C) data target w))"
    by (auto simp: quiet_ext_def starts_none_def recording_def split: prod.splits)
  show "quiet_ext w (snd (dc_untar (recording C) (''exec'' # args) es ok w))"
    by (auto simp: quiet_ext_def starts_none_def recording_def split: prod.splits)
qed (rule quiet_ext_trans)

lemma cleanup_quiet: "cleanup (recording C) i hp ctr d w = (d', w') \<Longrightarrow> quiet_ext w w'"
  unfolding cleanup_def Let_def
  by (auto simp: split: option.splits intro!: recorded_run quiet_ext_trans [OF recorded_run [where cmd = "''rm''"] recorded_run])

lemma Kill_quiet: "docker_Kill (recording C) i d w = (e, d', w') \<Longrightarrow> quiet_ext w w'"
proof -
  assume kill: "docker_Kill (recording C) i d w = (e, d', w')"
  obtain v w1 where w1: "volumeOf (recording C) i w = (v, w1)" by (metis prod.collapse)
  obtain x ok w2 where w2: "dc_run (recording C) [''rm'', ''-f'', containerName i] w1 = ((x, ok), w2)" by (metis prod.collapse)
  have q2: "quiet_ext w w2"
    using recorded.volumeOf_keeps [OF w1] recorded_run [of "''rm''" w1 C "[''-f'', containerName i]"] w2
    by (auto intro: quiet_ext_trans [of w w1 w2])
  define w3 where "w3 = (case dk_egress d i of Some c \<Rightarrow> snd (dc_run (recording C) [''rm'', ''-f'', c] w2) | None \<Rightarrow> w2)"
  have q3: "quiet_ext w w3" using q2 by (auto simp: w3_def split: option.splits intro: quiet_ext_trans [OF q2] recorded_run)
  have "quiet_ext w (snd (dc_run (recording C) [''volume'', ''rm'', ''-f'', v] w3))" by (rule quiet_ext_trans [OF q3 recorded_run]) simp
  with kill w1 w2 q2 q3 show "quiet_ext w w'" by (auto simp: docker_Kill_def Let_def w3_def split: if_splits)
qed

text \<open>The sidecar is ready when its log says so.\<close>

lemma waitEgressReady_logged:
  "waitEgressReady (recording C) name polls w = (None, w') \<Longrightarrow>
   \<exists>ext logs k. snd w' = snd w @ ext \<and> starts_none ext \<and> ([''logs'', name], logs, k) \<in> set ext \<and> str_contains logs ''transparent proxy listening''"
proof (induction polls arbitrary: w)
  case (Suc polls)
  obtain logs k w1 where w1: "dc_run (recording C) [''logs'', name] w = ((logs, k), w1)" by (metis prod.collapse)
  then have log1: "snd w1 = snd w @ [([''logs'', name], logs, k)]" by (auto simp: recording_def Let_def split: prod.splits)
  show ?case
  proof (cases "str_contains logs ''transparent proxy listening''")
    case True
    with Suc.prems w1 log1 show ?thesis by (auto simp: starts_none_def)
  next
    case False
    obtain st ok w2 where w2: "dc_run (recording C) [''inspect'', ''-f'', ''{{.State.Running}}'', name] w1 = ((st, ok), w2)" by (metis prod.collapse)
    have "quiet_ext w w2"
      using quiet_ext_trans [OF recorded_run [of "''logs''" w C "[name]"]]
        recorded_run [of "''inspect''" w1 C "[''-f'', ''{{.State.Running}}'', name]"] w1 w2 by simp
    then obtain e1 where e1: "snd w2 = snd w @ e1" "starts_none e1" by (auto simp: quiet_ext_def)
    have "waitEgressReady (recording C) name polls w2 = (None, w')" using Suc.prems w1 w2 False by (auto split: if_splits)
    from Suc.IH [OF this] e1 show ?thesis by (fastforce simp: starts_none_def)
  qed
qed simp

definition starts_container :: "string \<Rightarrow> string list \<times> string \<times> bool \<Rightarrow> bool" where
  "starts_container n e \<longleftrightarrow> take 4 (fst e) = [''run'', ''-d'', ''--name'', n]"

lemma starts_none_container: "starts_none log \<Longrightarrow> e \<in> set log \<Longrightarrow> \<not> starts_container n e"
  by (cases "fst e") (auto simp: starts_none_def starts_container_def list_all_iff)

lemma startEgressContainer_logged:
  assumes "startEgressContainer (recording C) K polls i net w = (r, w')"
  shows "\<exists>ext. snd w' = snd w @ ext \<and> (\<forall>e \<in> set ext. \<not> starts_container (containerName i) e) \<and>
    (case r of Inl _ \<Rightarrow> True
     | Inr c \<Rightarrow> c = egressContainerName i \<and> (\<exists>polJSON o1 p1 p2 logs k. dh_policy_json K (policyFromNetwork net) = Some polJSON \<and>
         ext = p1 @ (sidecar_args K i polJSON, o1, True) # p2 \<and> ([''logs'', egressContainerName i], logs, k) \<in> set p2 \<and>
         str_contains logs ''transparent proxy listening''))"
proof (cases "dh_policy_json K (policyFromNetwork net)")
  case None
  with assms show ?thesis by (auto simp: startEgressContainer_def)
next
  case (Some j)
  obtain o1 ok w1 where w1: "dc_run (recording C) (sidecar_args K i j) w = ((o1, ok), w1)" by (metis prod.collapse)
  then have log1: "snd w1 = snd w @ [(sidecar_args K i j, o1, ok)]" by (auto simp: recording_def Let_def split: prod.splits)
  have not_c: "\<not> starts_container (containerName i) (sidecar_args K i j, oa, b)" for oa b
    by (simp add: starts_container_def sidecar_args_def Let_def)
  show ?thesis
  proof (cases ok)
    case False
    with assms Some w1 log1 not_c show ?thesis by (auto simp: startEgressContainer_def Let_def)
  next
    case True
    obtain e w2 where w2: "waitEgressReady (recording C) (egressContainerName i) polls w1 = (e, w2)" by (metis prod.collapse)
    show ?thesis
    proof (cases e)
      case None
      from waitEgressReady_logged [OF w2 [unfolded None]] log1 obtain ext logs k where
        "snd w2 = snd w @ (sidecar_args K i j, o1, True) # ext" "starts_none ext" "([''logs'', egressContainerName i], logs, k) \<in> set ext"
        "str_contains logs ''transparent proxy listening''"
        using True by auto
      moreover have "r = Inr (egressContainerName i) \<and> w' = w2" using assms Some w1 True w2 None by (simp add: startEgressContainer_def Let_def)
      ultimately show ?thesis
        using Some not_c starts_none_container by (intro exI [of _ "(sidecar_args K i j, o1, True) # ext"]) fastforce
    next
      case (Some e')
      have "quiet_ext w1 (snd (dc_run (recording C) [''rm'', ''-f'', egressContainerName i] w2))"
        using quiet_ext_trans [OF recorded.waitEgressReady_keeps [OF w2] recorded_run [of "''rm''"]] by simp
      then obtain ext where ext: "snd (snd (dc_run (recording C) [''rm'', ''-f'', egressContainerName i] w2)) = snd w1 @ ext" "starts_none ext"
        by (auto simp: quiet_ext_def)
      have "r = Inl e' \<and> w' = snd (dc_run (recording C) [''rm'', ''-f'', egressContainerName i] w2)"
        using assms \<open>dh_policy_json K _ = Some j\<close> w1 True w2 Some by (simp add: startEgressContainer_def Let_def)
      with ext log1 not_c starts_none_container show ?thesis
        by (intro exI [of _ "(sidecar_args K i j, o1, ok) # ext"]) auto
    qed
  qed
qed

lemma run_args_network: "sublist [''--network'', ''container:'' @ c] (run_args K d i s hp (Some c))"
proof -
  have "\<exists>z. run_tail K d i s hp (Some c) =
      [''-w'', create_workdir s, ''-v'', volumeName i @ '':'' @ create_workdir s] @ [''--network'', ''container:'' @ c] @ z"
    by (simp add: run_tail_def)
  then show ?thesis unfolding run_args_def sublist_def by (metis append_assoc)
qed

lemma one_start:
  assumes "pre @ x # post = as @ y # bs" "P x" "\<forall>e \<in> set as. \<not> P e" "\<forall>e \<in> set bs. \<not> P e"
  shows "pre = as \<and> x = y \<and> post = bs"
proof -
  from assms(1) obtain us where "pre = as @ us \<and> us @ x # post = y # bs \<or> pre @ us = as \<and> x # post = us @ y # bs"
    by (auto simp: append_eq_append_conv2)
  with assms(2-4) show ?thesis by (cases us) auto
qed

lemma after_run_quiet:
  assumes "after_run (recording C) K cc s hp ctr d2 runOK w3 = (r, d', w')"
  shows "quiet_ext w3 w'"
proof (cases runOK)
  case False
  with assms show ?thesis by (auto simp: after_run_def Let_def intro: cleanup_quiet)
next
  case run: True
  obtain ok w4 where w4: "waitRunning (recording C) (cc_ctx_done cc) (containerName (cc_id cc)) w3 = (ok, w4)" by (metis prod.collapse)
  note q4 = recorded.waitRunning_keeps [OF w4]
  show ?thesis
  proof (cases ok)
    case False
    define w5 where "w5 = snd (dc_run (recording C) [''logs'', ''--tail'', ''50'', containerName (cc_id cc)] w4)"
    define w6 where "w6 = snd (dc_run (recording C) [''rm'', ''-f'', containerName (cc_id cc)] w5)"
    have "quiet_ext w4 w5" unfolding w5_def by (rule recorded_run) simp
    moreover have "quiet_ext w5 w6" unfolding w6_def by (rule recorded_run) simp
    moreover have "cleanup (recording C) (cc_id cc) hp ctr d2 w6 = (d', w')" using assms run w4 False by (simp add: after_run_def w5_def w6_def Let_def)
    ultimately show ?thesis using q4 by (blast intro: quiet_ext_trans dest: cleanup_quiet)
  next
    case True
    obtain e w5 where w5: "fill_workspace (recording C) K cc s w4 = (e, w5)" by (metis prod.collapse)
    note q5 = recorded.fill_workspace_keeps [OF w5]
    obtain f d4 w6 where w6: "docker_Kill (recording C) (cc_id cc) (register_egress (cc_id cc) hp ctr d2) w5 = (f, d4, w6)" by (metis prod.collapse)
    have "w' = (case e of None \<Rightarrow> w5 | Some _ \<Rightarrow> w6)" using assms run w4 True w5 w6 by (auto simp: after_run_def Let_def split: option.splits)
    then show ?thesis using q4 q5 Kill_quiet [OF w6] by (cases e) (auto intro: quiet_ext_trans)
  qed
qed

text \<open>The start of the sandbox container in the trace of \<^verbatim>\<open>Create\<close>.\<close>

lemma create_logged:
  assumes "StrictEgress (sx_network s)" "docker_Create (recording C) K cc s d (w, []) = (r, d', (w', tr))"
    and "e0 \<in> set tr" "starts_container (containerName (cc_id cc)) e0"
  shows "\<exists>as out ok bs. tr = as @ (run_args K d (cc_id cc) s None (Some (egressContainerName (cc_id cc))), out, ok) # bs \<and>
    (\<forall>e \<in> set as. \<not> starts_container (containerName (cc_id cc)) e) \<and> (\<forall>e \<in> set bs. \<not> starts_container (containerName (cc_id cc)) e) \<and>
    (\<exists>polJSON o1 p1 p2 logs k. dh_policy_json K (policyFromNetwork (sx_network s)) = Some polJSON \<and>
       as = p1 @ (sidecar_args K (cc_id cc) polJSON, o1, True) # p2 \<and> ([''logs'', egressContainerName (cc_id cc)], logs, k) \<in> set p2 \<and>
       str_contains logs ''transparent proxy listening'')"
proof -
  define i where "i = cc_id cc"
  have deny: "DenyByDefault (sx_network s)" using assms(1) by (simp add: StrictEgress_def DenyByDefault_def)
  define vargs where "vargs = [''volume'', ''create'', ''--label'', kv ''runeward.managed'' ''true'', ''--label'', kv ''runeward.id'' i, volumeName i]"
  obtain x volOK w1 where w1: "dc_run (recording C) vargs (w, []) = ((x, volOK), w1)" by (metis prod.collapse)
  then have log1: "snd w1 = [(vargs, x, volOK)]" by (auto simp: recording_def Let_def split: prod.splits)
  have v: "\<not> starts_container (containerName i) (vargs, x, volOK)" by (simp add: starts_container_def vargs_def)
  obtain r2 w2 where w2: "startEgressContainer (recording C) K (cc_polls cc) i (sx_network s) w1 = (r2, w2)" by (metis prod.collapse)
  obtain ext where ext: "snd w2 = (vargs, x, volOK) # ext" "\<forall>e \<in> set ext. \<not> starts_container (containerName i) e"
    "case r2 of Inl _ \<Rightarrow> True
     | Inr c \<Rightarrow> c = egressContainerName i \<and> (\<exists>polJSON o1 p1 p2 logs k. dh_policy_json K (policyFromNetwork (sx_network s)) = Some polJSON \<and>
         ext = p1 @ (sidecar_args K i polJSON, o1, True) # p2 \<and> ([''logs'', egressContainerName i], logs, k) \<in> set p2 \<and>
         str_contains logs ''transparent proxy listening'')"
    using startEgressContainer_logged [OF w2] log1 by auto
  have no_start: False if "tr = as @ bs" "\<forall>e \<in> set as. \<not> starts_container (containerName i) e" "starts_none bs" for as bs
    using that assms(3,4) starts_none_container [of bs e0] by (auto simp: i_def)
  have vol: volOK
  proof (rule ccontr)
    assume "\<not> volOK"
    then have "tr = [(vargs, x, volOK)]" using assms(2) w1 log1 by (auto simp: docker_Create_def Let_def i_def vargs_def)
    with no_start [of "[(vargs, x, volOK)]" "[]"] v show False by (simp add: starts_none_def)
  qed
  have se: "start_egress (recording C) K cc (sx_network s) d w1 =
      (case r2 of Inl e \<Rightarrow> (Inl e, d, w2) | Inr c \<Rightarrow> (Inr (None, Some c), d, w2))"
    using w2 assms(1) deny by (simp add: start_egress_def i_def split: sum.split)
  obtain c where c: "r2 = Inr c"
  proof (cases r2)
    case (Inl e)
    have "quiet_ext w2 (snd (dc_run (recording C) [''volume'', ''rm'', ''-f'', volumeName i] w2))" by (rule recorded_run) simp
    moreover have "(w', tr) = snd (dc_run (recording C) [''volume'', ''rm'', ''-f'', volumeName i] w2)"
      using assms(2) w1 vol se Inl by (simp add: docker_Create_def Let_def i_def vargs_def)
    ultimately have "quiet_ext w2 (w', tr)" by simp
    then obtain bs where "tr = ((vargs, x, volOK) # ext) @ bs" "starts_none bs" using ext(1) by (auto simp: quiet_ext_def)
    with no_start [of "(vargs, x, volOK) # ext" bs] ext(2) v show ?thesis by simp
  next
    case (Inr c)
    then show ?thesis by (rule that)
  qed
  let ?args = "run_args K d i s None (Some c)"
  obtain out ok w3 where w3: "dc_run (recording C) ?args w2 = ((out, ok), w3)" by (metis prod.collapse)
  then have log3: "snd w3 = ((vargs, x, volOK) # ext) @ [(?args, out, ok)]" using ext(1) by (auto simp: recording_def Let_def split: prod.splits)
  have "after_run (recording C) K cc s None (Some c) d ok w3 = (r, d', (w', tr))"
    using assms(2) w1 vol se c w3 by (simp add: docker_Create_def Let_def i_def vargs_def)
  note q3 = after_run_quiet [OF this]
  from q3 log3 obtain bs where bs: "tr = ((vargs, x, volOK) # ext) @ (?args, out, ok) # bs" "starts_none bs" by (auto simp: quiet_ext_def)
  from ext(3) c obtain polJSON o1 p1 p2 logs k where p: "c = egressContainerName i"
    "dh_policy_json K (policyFromNetwork (sx_network s)) = Some polJSON \<and>
     (vargs, x, volOK) # ext = ((vargs, x, volOK) # p1) @ (sidecar_args K i polJSON, o1, True) # p2 \<and>
     ([''logs'', egressContainerName i], logs, k) \<in> set p2 \<and> str_contains logs ''transparent proxy listening''"
    by auto
  define A where "A = (vargs, x, volOK) # ext"
  have "\<exists>polJSON o1 p1 p2 logs k. dh_policy_json K (policyFromNetwork (sx_network s)) = Some polJSON \<and>
      A = p1 @ (sidecar_args K i polJSON, o1, True) # p2 \<and> ([''logs'', egressContainerName i], logs, k) \<in> set p2 \<and>
      str_contains logs ''transparent proxy listening''"
    unfolding A_def by (intro exI, rule p(2))
  moreover have "tr = A @ (run_args K d i s None (Some (egressContainerName i)), out, ok) # bs" using bs(1) p(1) by (simp add: A_def)
  moreover have "\<forall>e \<in> set A. \<not> starts_container (containerName i) e" using ext(2) v by (simp add: A_def)
  moreover have "\<forall>e \<in> set bs. \<not> starts_container (containerName i) e" using starts_none_container [OF bs(2)] by blast
  ultimately show ?thesis unfolding i_def by blast
qed

text \<open>
  C28. In strict mode the packet filter is up before the sandbox starts: whatever the engine answers, when
  \<^verbatim>\<open>Create\<close> starts the sandbox container, it does so in the network namespace of the sidecar, and before that the
  sidecar was started with the policy of the profile's network section and its log said that the
  transparent proxy is listening.
\<close>

theorem strict_sandbox_waits_for_filter:
  assumes "StrictEgress (sx_network s)" "docker_Create (recording C) K cc s d (w, []) = (r, d', (w', tr))"
    and "tr = pre @ (args, out, ok) # post" "take 4 args = [''run'', ''-d'', ''--name'', containerName (cc_id cc)]"
  shows "sublist [''--network'', ''container:'' @ egressContainerName (cc_id cc)] args \<and>
    (\<exists>polJSON o1 p1 p2 logs k. dh_policy_json K (policyFromNetwork (sx_network s)) = Some polJSON \<and>
       pre = p1 @ (sidecar_args K (cc_id cc) polJSON, o1, True) # p2 \<and> ([''logs'', egressContainerName (cc_id cc)], logs, k) \<in> set p2 \<and>
       str_contains logs ''transparent proxy listening'')"
proof -
  let ?P = "starts_container (containerName (cc_id cc))"
  have here: "?P (args, out, ok)" "(args, out, ok) \<in> set tr" using assms(3,4) by (auto simp: starts_container_def)
  from create_logged [OF assms(1,2) here(2,1)] obtain as out' ok' bs where tr: "tr = as @ (run_args K d (cc_id cc) s None (Some (egressContainerName (cc_id cc))), out', ok') # bs"
    "\<forall>e \<in> set as. \<not> ?P e" "\<forall>e \<in> set bs. \<not> ?P e"
    "\<exists>polJSON o1 p1 p2 logs k. dh_policy_json K (policyFromNetwork (sx_network s)) = Some polJSON \<and>
       as = p1 @ (sidecar_args K (cc_id cc) polJSON, o1, True) # p2 \<and> ([''logs'', egressContainerName (cc_id cc)], logs, k) \<in> set p2 \<and>
       str_contains logs ''transparent proxy listening''"
    by blast
  have "pre = as \<and> (args, out, ok) = (run_args K d (cc_id cc) s None (Some (egressContainerName (cc_id cc))), out', ok')"
    using one_start [OF _ here(1) tr(2,3)] assms(3) tr(1) by metis
  moreover have "sublist [''--network'', ''container:'' @ egressContainerName (cc_id cc)] (run_args K d (cc_id cc) s None (Some (egressContainerName (cc_id cc))))"
    by (rule run_args_network)
  ultimately show ?thesis using tr(4) by auto
qed

section \<open>An engine\<close>

text \<open>A small engine that keeps the promises: the names in use and the volume of each container. Every
  container it starts runs, and every log says that the proxy listens.\<close>

type_synonym tiny_engine = "string list \<times> (string \<rightharpoonup> string)"

definition label_of :: "string list \<Rightarrow> string option" where
  "label_of xs = map_option (\<lambda>x. drop (length volume_label) x) (find (\<lambda>x. has_prefix x volume_label) xs)"

definition tiny_run :: "string list \<Rightarrow> tiny_engine \<Rightarrow> (string \<times> bool) \<times> tiny_engine" where
  "tiny_run args w =
     (let (names, vols) = w in
      if take 3 args = [''run'', ''-d'', ''--name''] \<and> 3 < length args
      then (([], True), (args ! 3 # names, vols(args ! 3 := label_of (drop 4 args))))
      else if take 2 args = [''rm'', ''-f''] \<and> length args = 3
      then (([], True), (filter (\<lambda>m. m \<noteq> args ! 2) names, vols(args ! 2 := None)))
      else if take 3 args = [''volume'', ''rm'', ''-f''] \<and> length args = 4
      then (([], True), (if list_ex (\<lambda>m. vols m = Some (args ! 3)) names then names else filter (\<lambda>m. m \<noteq> args ! 3) names, vols))
      else if take 2 args = [''volume'', ''create''] \<and> 2 < length args then (([], True), (last args # names, vols))
      else if take 3 args = [''inspect'', ''-f'', ''{{index .Config.Labels \"runeward.volume\"}}''] \<and> length args = 4
      then ((case vols (args ! 3) of Some v \<Rightarrow> v | None \<Rightarrow> [], True), w)
      else if take 1 args = [''logs''] then ((''transparent proxy listening'', True), w)
      else ((''true'', True), w))"

definition tiny :: "tiny_engine dockercli" where
  "tiny = \<lparr>dc_run = tiny_run, dc_cp = (\<lambda>_ _ w. (True, w)), dc_untar = (\<lambda>_ _ ok w. (ok, w))\<rparr>"

lemma label_of_none: "no_volume_label xs \<Longrightarrow> label_of xs = None"
  by (auto simp: label_of_def no_volume_label_def list_all_iff find_None_iff)

lemma label_of_first: "no_volume_label ys \<Longrightarrow> label_of (ys @ [''--label'', volume_label @ v] @ zs) = Some v"
  by (induction ys) (auto simp: label_of_def no_volume_label_def has_prefix_def volume_label_def)

lemma tiny_quiet: "cmd \<in> {''inspect'', ''logs'', ''exec''} \<Longrightarrow> snd (tiny_run (cmd # args) w) = w"
  by (auto simp: tiny_run_def split: prod.splits)

lemma tiny_ok: "docker_ok tiny (\<lambda>w. set (fst w)) snd"
  unfolding docker_ok_def
proof (intro conjI)
  show "quiet_client tiny (\<lambda>w w'. set (fst w') = set (fst w) \<and> snd w' = snd w)"
    by unfold_locales (auto simp: tiny_def tiny_quiet)
  show "rm_law tiny (\<lambda>w. set (fst w)) snd" by (auto simp: rm_law_def tiny_def tiny_run_def)
  show "volume_rm_law tiny (\<lambda>w. set (fst w)) snd"
    by (auto simp: volume_rm_law_def tiny_def tiny_run_def list_ex_iff split: if_splits)
  show "volume_create_law tiny (\<lambda>w. set (fst w)) snd" by (auto simp: volume_create_law_def tiny_def tiny_run_def)
  show "run_law tiny (\<lambda>w. set (fst w)) snd" by (auto simp: run_law_def tiny_def tiny_run_def label_of_none)
  show "label_law tiny snd"
    unfolding label_law_def
    using label_of_first by (auto simp: tiny_def tiny_run_def volumeOf_def split: prod.splits)
qed

definition docker0 :: docker where
  "docker0 = \<lparr>dk_runtime = [], dk_snap_dir = ''/snap'', dk_proxies = Map.empty, dk_egress = Map.empty, dk_serving = []\<rparr>"

definition docker_host0 :: docker_host where
  "docker_host0 = \<lparr>dh_env = host0\<lparr>he_getenv := (\<lambda>v. if v \<in> {''RUNEWARD_SANDBOX_MEMORY'', ''RUNEWARD_SANDBOX_PIDS''} then ''off'' else [])\<rparr>, dh_is_dir = (\<lambda>_. True), dh_links = (\<lambda>_. None), dh_dir_tar = (\<lambda>_. ([], True)),
     dh_parse_cpus = (\<lambda>_. None), dh_show_cpus = (\<lambda>_. ''2''), dh_policy_json = (\<lambda>_. Some ''{}'')\<rparr>"

definition call0 :: create_call where
  "call0 = \<lparr>cc_id = ''a1'', cc_listen = Some (4000, ''t''), cc_polls = 1, cc_ctx_done = (\<lambda>_. False), cc_temp_ok = True, cc_now = 0\<rparr>"

definition spec0 :: "string \<Rightarrow> projected_file list \<Rightarrow> spec" where
  "spec0 enforce fs = \<lparr>sx_profile = ''dev'', sx_image = [], sx_workdir = [], sx_user = [], sx_command = [], sx_env = [], sx_labels = [],
     sx_files = fs, sx_seed_dir = [], sx_network = \<lparr>nw_default = ''deny'', nw_rules = [], nw_enforce = enforce\<rparr>,
     sx_resources = \<lparr>re_nano_cpus = 0, re_memory = 0\<rparr>, sx_runtime_class = [], sx_read_only = False, sx_seccomp = [], sx_apparmor = [], sx_ide_port = 0\<rparr>"

lemma limits0 [simp]:
  "memory_limit docker_host0 (spec0 enforce fs) = 0" "cpu_limit docker_host0 (spec0 enforce fs) = 2000000000"
  "defaultPidsLimit (dh_env docker_host0) = 0"
proof -
  have none: "trim_space [] = []" "to_lower [] = []" "trim_space ''off'' = ''off''" "to_lower ''off'' = ''off''" by code_simp+
  show "memory_limit docker_host0 (spec0 enforce fs) = 0" "cpu_limit docker_host0 (spec0 enforce fs) = 2000000000"
    "defaultPidsLimit (dh_env docker_host0) = 0"
    by (simp_all add: memory_limit_def cpu_limit_def spec0_def docker_host0_def defaultMemoryBytes_def defaultNanoCPUs_def defaultPidsLimit_def limitFromEnv_def none)
qed

lemma plain_options0: "plain_options docker_host0 ''a1'' (spec0 enforce fs)"
  unfolding plain_options_def
proof (intro conjI allI)
  show "no_volume_label (drop 4 (sidecar_args docker_host0 ''a1'' j))" for j
    by (simp add: no_volume_label_def sidecar_args_def docker_host0_def volume_label_def has_prefix_def kv_def Let_def)
  fix d hp ctr
  show "no_volume_label (run_tail docker_host0 d ''a1'' (spec0 enforce fs) hp ctr)"
    unfolding run_tail_def limits0
    by (auto simp: no_volume_label_def spec0_def docker_host0_def volume_label_def has_prefix_def create_workdir_def create_image_def
        create_command_def env_args_def volumeName_def proxyEnv_def kv_def Let_def split: option.splits)
qed

lemma tiny_answers:
  "tiny_run [''inspect'', ''--format'', ''{{.State.Running}}'', n] w = ((''true'', True), w)"
  "tiny_run [''volume'', ''create'', ''--label'', k, ''--label'', l, v] (names, vols) = (([], True), v # names, vols)"
  "tiny_run [''logs'', n] w = ((''transparent proxy listening'', True), w)"
  "tiny_run [''volume'', ''rm'', ''-f'', v] (names, vols) =
     (([], True), (if list_ex (\<lambda>m. vols m = Some v) names then names else filter (\<lambda>m. m \<noteq> v) names, vols))"
  by (simp_all add: tiny_run_def split: prod.splits)

lemma tiny_start:
  "tiny_run (run_args K d i s hp ctr) (names, vols) = (([], True), (containerName i # names, vols(containerName i \<mapsto> volumeName i)))"
  using label_of_first [OF head_no_label, of "sx_profile s" i "volumeName i" "run_tail K d i s hp ctr"]
  by (simp add: run_args_form tiny_run_def)

lemma tiny_sidecar: "no_volume_label (drop 4 (sidecar_args K i j)) \<Longrightarrow>
  tiny_run (sidecar_args K i j) (names, vols) = (([], True), (egressContainerName i # names, vols(egressContainerName i := None)))"
  using label_of_none by (subst sidecar_args_form) (simp add: tiny_run_def)

lemma start_logs: "str_contains ''transparent proxy listening'' ''transparent proxy listening''" "trim_space ''true'' = ''true''"
  by code_simp+

lemma run_args_take: "take 4 (run_args K d i s hp ctr) = [''run'', ''-d'', ''--name'', containerName i]" "take (Suc 0) (run_args K d i s hp ctr) = [''run'']"
  by (simp_all add: run_args_form)

lemmas tiny_simps = docker_Create_def start_egress_def DenyByDefault_def StrictEgress_def startHostProxy_def startEgressContainer_def
  after_run_def waitRunning_def register_egress_def fill_workspace_def docker_Kill_def volumeOf_def tiny_start tiny_answers start_logs Let_def


theorem strict_sandbox_waits_for_filter_witness:
  "\<exists>r d' w' tr pre args out ok post. docker_Create (recording tiny) docker_host0 call0 (spec0 ''strict'' []) docker0 (([], Map.empty), []) = (r, d', (w', tr)) \<and>
     tr = pre @ (args, out, ok) # post \<and> take 4 args = [''run'', ''-d'', ''--name'', ''runeward-a1''] \<and>
     sublist [''--network'', ''container:runeward-egress-a1''] args \<and>
     (\<exists>o1 p1 p2 logs k. pre = p1 @ (sidecar_args docker_host0 ''a1'' ''{}'', o1, True) # p2 \<and> ([''logs'', ''runeward-egress-a1''], logs, k) \<in> set p2)"
proof -
  let ?c = "docker_Create (recording tiny) docker_host0 call0 (spec0 ''strict'' []) docker0 (([], Map.empty), [])"
  obtain r d' w' tr where c: "?c = (r, d', (w', tr))" by (metis prod.collapse)
  have "list_ex (\<lambda>e. take 4 (fst e) = [''run'', ''-d'', ''--name'', ''runeward-a1'']) (snd (snd (snd ?c)))"
  proof -
    have json: "dh_policy_json docker_host0 pol = Some ''{}''" for pol by (simp add: docker_host0_def)
    have side: "no_volume_label (drop 4 (sidecar_args docker_host0 ''a1'' ''{}''))" using plain_options0 by (simp add: plain_options_def)
    show ?thesis by (simp add: tiny_simps recording_def tiny_def tiny_sidecar [OF side] json run_args_take containerName_def spec0_def call0_def)
  qed
  then obtain args out ok where a: "(args, out, ok) \<in> set tr" "take 4 args = [''run'', ''-d'', ''--name'', ''runeward-a1'']"
    using c by (auto simp: list_ex_iff)
  then obtain pre post where tr: "tr = pre @ (args, out, ok) # post" by (meson split_list)
  have "StrictEgress (sx_network (spec0 ''strict'' []))" by (simp add: spec0_def StrictEgress_def)
  moreover have json: "dh_policy_json docker_host0 pol = Some ''{}''" for pol by (simp add: docker_host0_def)
  ultimately have "sublist [''--network'', ''container:runeward-egress-a1''] args \<and>
     (\<exists>o1 p1 p2 logs k. pre = p1 @ (sidecar_args docker_host0 ''a1'' ''{}'', o1, True) # p2 \<and> ([''logs'', ''runeward-egress-a1''], logs, k) \<in> set p2)"
    using strict_sandbox_waits_for_filter [OF _ c tr] a(2) by (simp add: json call0_def containerName_def egressContainerName_def) blast
  with c tr a(2) show ?thesis by blast
qed

text \<open>
  The start of the container is the one step that is not undone: when the engine creates the container and
  then fails to start it, \<^verbatim>\<open>Create\<close> reports the failure and removes the volume, but the container stays, and with
  it the volume it mounts.
\<close>

definition failing :: "tiny_engine dockercli" where
  "failing = tiny\<lparr>dc_run := (\<lambda>args w. if take 1 args = [''run''] then (([], False), snd (tiny_run args w)) else tiny_run args w)\<rparr>"

lemma failed_start_leaves_the_container:
  "\<exists>m. docker_Create failing docker_host0 call0 (spec0 [] []) docker0 ([], Map.empty) =
     (Inl DkRun, docker0, ([''runeward-a1'', ''runeward-vol-a1''], m))"
  by (simp add: tiny_simps failing_def tiny_def run_args_take cleanup_def stop_proxy_def spec0_def call0_def docker0_def
      containerName_def volumeName_def)

text \<open>
  A size is scaled with wrap-around, so a large one turns negative and the sandbox gets no memory limit at
  all, not even the default.
\<close>

lemma huge_memory_limit_is_dropped:
  "re_memory (resourcesFromLimits nano ''8388608t'' cpus) = - 9223372036854775808 \<and>
   (re_memory (sx_resources s) = - 9223372036854775808 \<longrightarrow> \<not> sint (memory_limit K s) > 0)"
proof
  have "trim_space ''8388608t'' = ''8388608t''" "trim_space ''8388608'' = ''8388608''" by code_simp+
  moreover have "atoi ''8388608'' = Some 8388608" by (simp add: atoi_def)
  ultimately have "parseSize ''8388608t'' = Some (word_of_int 8388608 * 1099511627776)" by (simp add: parseSize_def size_suffix_def)
  then show "re_memory (resourcesFromLimits nano ''8388608t'' cpus) = - 9223372036854775808" by (simp add: resourcesFromLimits_def)
  have "\<not> sint (- 9223372036854775808 :: 64 word) > 0" by simp
  then show "re_memory (sx_resources s) = - 9223372036854775808 \<longrightarrow> \<not> sint (memory_limit K s) > 0" by (auto simp: memory_limit_def)
qed

end
