(* ===== verification/Policy_Simulation.thy ===== *)
theory Policy_Simulation
  imports Govern Authz
begin

text \<open>
  The dry run of a policy (\<^verbatim>\<open>handlePolicySimulate\<close> of \<^verbatim>\<open>internal/server/handlers.go\<close> and its helpers):
  which profile is simulated, the engine built for it, the decision for each submitted action and the
  trace of rules that explains it. Loading and validating a profile are arguments, as are the readers
  and compilers of \<open>engineprims\<close>. The host type of an inline profile, which the model has no field for,
  does not take part in policy decisions.
\<close>

record sim_action =
  sm_name :: string
  sm_tool :: string
  sm_arg :: string
  sm_command :: string
  sm_args :: "string list"

datatype sim_error = SimNoProfile | SimBothProfiles | SimLoad | SimRegoFile | SimInvalid | SimBundle | SimEngine engine_error

definition resolveSimulationProfile ::
  "(string \<Rightarrow> 'c profile option) \<Rightarrow> ('c profile \<Rightarrow> bool) \<Rightarrow> string \<Rightarrow> 'c profile option \<Rightarrow> (sim_error, 'c profile) result" where
  "resolveSimulationProfile load validate name0 inline =
     (let name = trim_space name0 in
      case inline of
        None \<Rightarrow>
          if name = [] then Inl SimNoProfile
          else (case load name of None \<Rightarrow> Inl SimLoad | Some p \<Rightarrow> Inr p)
      | Some q \<Rightarrow>
          if name \<noteq> [] then Inl SimBothProfiles
          else if rp_file (pro_rego q) \<noteq> [] then Inl SimRegoFile
          else
            (let p1 = (if pro_name q = [] then q\<lparr>pro_name := ''inline''\<rparr> else q);
                 p2 = (if pro_workdir p1 = [] then p1\<lparr>pro_workdir := ''/workspace''\<rparr> else p1);
                 p3 = (if pro_image p2 = [] then p2\<lparr>pro_image := ''ghcr.io/runewardd/runeward-sandbox:latest''\<rparr> else p2)
             in if validate p3 then Inr p3 else Inl SimInvalid))"

definition simulation_default :: "'c profile \<Rightarrow> verdict" where
  "simulation_default p =
     (if equal_fold (trim_space (pro_policy_default p)) VerdictDeny then VerdictDeny else VerdictAllow)"

definition simulationEngineForProfile :: "engineprims \<Rightarrow> 'c profile \<Rightarrow> (sim_error, evaluator_impl) result" where
  "simulationEngineForProfile E p =
     (let noMatch = simulation_default p; up = map_sum SimEngine id in
      if UsesPolicyBundle p then Inl SimBundle
      else if UsesRego p then
        (let r = pro_rego p in
         if rp_module r = [] \<and> rp_file r \<noteq> [] then
           (case ep_read_file E (rp_file r) of
              None \<Rightarrow> Inl (SimEngine EngReadRego)
            | Some module \<Rightarrow> up (mkRego E module (rp_query r) noMatch))
         else up (mkRego E (rp_module r) (rp_query r) noMatch))
      else if UsesCEL p then up (mkCEL E (pro_cel p) noMatch)
      else Inr (BuiltinEngine (New (pro_policy p) noMatch)))"

definition sim_act :: "sim_action \<Rightarrow> action" where
  "sim_act a =
     (let a1 = trim_space (sm_arg a);
          a2 = (if a1 = [] then trim_space (sm_command a) else a1);
          a3 = (if a2 = [] \<and> sm_args a \<noteq> [] then str_join (sm_args a) '' '' else a2)
      in \<lparr>act_tool = trim_space (sm_tool a), act_arg = a3, act_args = sm_args a\<rparr>)"

text \<open>The trace: the rules tried in order, with their number and whether they matched, up to the first
  that did.\<close>

fun trace_rules :: "('r \<Rightarrow> bool) \<Rightarrow> nat \<Rightarrow> 'r list \<Rightarrow> (nat \<times> bool) list" where
  "trace_rules matched i [] = []"
| "trace_rules matched i (r # rs) = (i, matched r) # (if matched r then [] else trace_rules matched (Suc i) rs)"

definition cel_matched :: "engineprims \<Rightarrow> action \<Rightarrow> cel_rule \<Rightarrow> bool" where
  "cel_matched E act rule =
     (case NewCEL (ep_compile E) [rule] VerdictDeny of
        None \<Rightarrow> False
      | Some e \<Rightarrow> dec_rule (CEL_Evaluate e act) \<noteq> None)"

definition builtin_matched :: "action \<Rightarrow> policy_rule \<Rightarrow> bool" where
  "builtin_matched act rule = (dec_rule (Evaluate (New [rule] VerdictDeny) act) \<noteq> None)"

definition firstMatchTrace :: "engineprims \<Rightarrow> 'c profile \<Rightarrow> action \<Rightarrow> (nat \<times> bool) list" where
  "firstMatchTrace E p act =
     (if UsesCEL p then trace_rules (cel_matched E act) 1 (pro_cel p)
      else if UsesRego p then [(1, True)]
      else trace_rules (builtin_matched act) 1 (pro_policy p))"

record sim_result =
  smr_name :: string
  smr_action :: action
  smr_decision :: decision
  smr_trace :: "(nat \<times> bool) list"

definition handlePolicySimulate ::
  "path_matcher \<Rightarrow> engineprims \<Rightarrow> (string \<Rightarrow> 'c profile option) \<Rightarrow> ('c profile \<Rightarrow> bool) \<Rightarrow> principal option \<Rightarrow>
   (string \<times> 'c profile option \<times> sim_action list) option \<Rightarrow> nat \<times> sim_result list option" where
  "handlePolicySimulate pm E load validate caller body =
     (case body of
        None \<Rightarrow> (400, None)
      | Some (name, inline, actions) \<Rightarrow>
          if actions = [] then (400, None)
          else if (case caller of
                     None \<Rightarrow> False
                   | Some pr \<Rightarrow> \<not> pc_admin pr \<and> (inline \<noteq> None \<or> trim_space name = [] \<or> \<not> CanLaunch pm caller (trim_space name)))
          then (403, None)
          else (case resolveSimulationProfile load validate name inline of
                  Inl _ \<Rightarrow> (400, None)
                | Inr p \<Rightarrow>
                    (case simulationEngineForProfile E p of
                       Inl _ \<Rightarrow> (400, None)
                     | Inr engine \<Rightarrow>
                         (200, Some (map (\<lambda>a. \<lparr>smr_name = sm_name a, smr_action = sim_act a,
                            smr_decision = engine_Evaluate engine (sim_act a), smr_trace = firstMatchTrace E p (sim_act a)\<rparr>) actions)))))"

section \<open>The trace explains the decision\<close>

lemma builtin_matched_fires: "builtin_matched act rule = rule_fires rule act"
  by (simp add: builtin_matched_def Evaluate_def New_def rule_decision_def)

lemma trace_eval:
  "case find snd (trace_rules (builtin_matched act) i rules) of
     None \<Rightarrow> dec_rule (eval_rules rules d act) = None
   | Some (j, _) \<Rightarrow> i \<le> j \<and> j < i + length rules \<and> dec_rule (eval_rules rules d act) = Some (rules ! (j - i))"
proof (induction rules arbitrary: i)
  case (Cons r rules)
  show ?case
  proof (cases "rule_fires r act")
    case False
    then show ?thesis using Cons [of "Suc i"]
      by (auto simp: builtin_matched_fires Suc_diff_le nth_Cons' split: option.splits)
  qed (simp add: builtin_matched_fires rule_decision_def)
qed simp

lemma compile_single:
  "compile_rules compile (r # rs) = Some (c # cs) \<Longrightarrow> compile_rules compile [r] = Some [c] \<and> compile_rules compile rs = Some cs"
  by (auto simp: Let_def split: if_splits option.splits)

lemma cel_trace_eval:
  "compile_rules (ep_compile E) rules = Some cs \<Longrightarrow>
   (find snd (trace_rules (cel_matched E act) i rules) \<noteq> None) = (dec_rule (cel_eval k cs d act) \<noteq> None)"
proof (induction rules arbitrary: i k cs)
  case (Cons r rules)
  from Cons.prems obtain c cs' where cs: "cs = c # cs'"
    by (auto simp: Let_def split: if_splits option.splits)
  have one: "compile_rules (ep_compile E) [r] = Some [c]" and rest: "compile_rules (ep_compile E) rules = Some cs'"
    using compile_single Cons.prems cs by blast+
  have m: "cel_matched E act r = (case cr_prg c (act_tool act) (act_arg act) of Inl _ \<Rightarrow> True | Inr b \<Rightarrow> b)"
    unfolding cel_matched_def NewCEL_def one
    by (auto simp: CEL_Evaluate_def Let_def split: sum.split)
  show ?case using Cons.IH [OF rest] m by (auto simp: cs Let_def split: sum.splits)
qed simp

section \<open>The simulated engine is the enforced one\<close>

lemma to_lower_deny: "to_lower VerdictDeny = VerdictDeny"
  by (simp add: VerdictDeny_def) code_simp

lemma simulation_default_agrees:
  assumes "to_lower (trim_space (pro_policy_default p)) \<in> {VerdictDeny, VerdictAllow} \<or> to_lower (trim_space env) \<noteq> VerdictDeny"
  shows "noMatchPolicyVerdict env (Some p) = simulation_default p"
proof -
  have "VerdictDeny \<noteq> VerdictAllow" by (simp add: VerdictDeny_def VerdictAllow_def)
  then show ?thesis using assms
    by (auto simp: noMatchPolicyVerdict_def simulation_default_def Let_def equal_fold_def to_lower_deny)
qed

lemma simulation_engine_agrees:
  assumes "noMatchPolicyVerdict env (Some p) = simulation_default p" "\<not> UsesPolicyBundle p"
  shows "simulationEngineForProfile E p = map_sum SimEngine id (newEngine E env p)"
  using assms by (simp add: simulationEngineForProfile_def newEngine_def Let_def split: option.split)

section \<open>Properties\<close>

text \<open>
  C22. A dry run predicts enforcement: for a profile without a policy bundle whose default verdict is
  spelled out, or when the server's environment does not turn the default to deny, the decision that
  \<^verbatim>\<open>handlePolicySimulate\<close> reports for an action is the decision of the engine that a sandbox of that
  profile enforces.
\<close>

theorem simulation_predicts_enforcement:
  assumes "handlePolicySimulate pm E load validate caller (Some (name, None, actions)) = (200, Some results)"
    and "load (trim_space name) = Some p" "\<not> UsesPolicyBundle p"
    and "to_lower (trim_space (pro_policy_default p)) \<in> {VerdictDeny, VerdictAllow} \<or> to_lower (trim_space env) \<noteq> VerdictDeny"
  shows "\<exists>eng. newEngine E env p = Inr eng \<and> length results = length actions \<and>
    (\<forall>r \<in> set results. smr_decision r = engine_Evaluate eng (smr_action r))"
proof -
  have "\<exists>eng. simulationEngineForProfile E p = Inr eng \<and>
      results = map (\<lambda>a. \<lparr>smr_name = sm_name a, smr_action = sim_act a, smr_decision = engine_Evaluate eng (sim_act a),
        smr_trace = firstMatchTrace E p (sim_act a)\<rparr>) actions"
    using assms(1,2)
    by (auto simp: handlePolicySimulate_def resolveSimulationProfile_def Let_def split: if_splits sum.splits option.splits)
  then obtain eng where eng: "simulationEngineForProfile E p = Inr eng"
    and results: "results = map (\<lambda>a. \<lparr>smr_name = sm_name a, smr_action = sim_act a, smr_decision = engine_Evaluate eng (sim_act a),
        smr_trace = firstMatchTrace E p (sim_act a)\<rparr>) actions" by blast
  have "newEngine E env p = Inr eng"
    using eng simulation_engine_agrees [OF simulation_default_agrees [OF assms(4)] assms(3), of E]
    by (cases "newEngine E env p") auto
  then show ?thesis using results by auto
qed

definition sim0 :: sim_action where
  "sim0 = \<lparr>sm_name = ''t'', sm_tool = ''shell'', sm_arg = [], sm_command = ''ls'', sm_args = []\<rparr>"

definition simprims0 :: engineprims where
  "simprims0 = \<lparr>ep_read_file = (\<lambda>_. None), ep_compile = (\<lambda>_. None), ep_prepare = (\<lambda>_ _. None),
     ep_decode_key = (\<lambda>_. None), ep_pull = (\<lambda>_ _ _. None), ep_cel_fragment = (\<lambda>_. None)\<rparr>"

lemma profile0_engine:
  "\<not> UsesPolicyBundle profile0" "\<not> UsesCEL profile0" "\<not> UsesRego profile0" "pro_policy profile0 = []" "pro_policy_default profile0 = []"
  by (simp_all add: profile0_def UsesPolicyBundle_def UsesCEL_def UsesRego_def)

theorem simulation_predicts_enforcement_witness:
  "\<exists>results eng. handlePolicySimulate (\<lambda>_ _. None) simprims0 (\<lambda>_. Some profile0) (\<lambda>_. True) None (Some (''p'', None, [sim0])) =
     (200, Some results) \<and> newEngine simprims0 [] profile0 = Inr eng \<and>
     (\<forall>r \<in> set results. smr_decision r = engine_Evaluate eng (smr_action r))"
proof -
  have p: "trim_space ''p'' = ''p''" by code_simp
  obtain results where r: "handlePolicySimulate (\<lambda>_ _. None) simprims0 (\<lambda>_. Some profile0) (\<lambda>_. True) None (Some (''p'', None, [sim0])) =
      (200, Some results)"
    by (simp add: handlePolicySimulate_def resolveSimulationProfile_def simulationEngineForProfile_def p profile0_engine Let_def)
  have env: "to_lower (trim_space []) \<noteq> VerdictDeny" by code_simp
  show ?thesis using simulation_predicts_enforcement [OF r refl profile0_engine(1), of "[]"] env r by blast
qed

text \<open>
  The dry run ignores \<^verbatim>\<open>RUNEWARD_POLICY_DEFAULT\<close>: where that variable is \<^verbatim>\<open>deny\<close> and the profile leaves its
  default open, sandboxes deny an action that no rule matches while the dry run reports it as allowed.
\<close>

theorem simulation_ignores_env_default:
  "\<exists>enforced simulated. newEngine E ''deny'' profile0 = Inr enforced \<and> simulationEngineForProfile E profile0 = Inr simulated \<and>
     dec_verdict (engine_Evaluate enforced a) = VerdictDeny \<and> dec_verdict (engine_Evaluate simulated a) = VerdictAllow"
proof -
  have "noMatchPolicyVerdict ''deny'' (Some profile0) = VerdictDeny" by code_simp
  moreover have "simulation_default profile0 = VerdictAllow" by code_simp
  ultimately show ?thesis
    by (simp add: newEngine_def simulationEngineForProfile_def profile0_engine Let_def Evaluate_def New_def
        VerdictDeny_def VerdictAllow_def)
qed

text \<open>
  The trace of a dry run explains its decision: for a profile with built-in rules, the entry of
  \<^verbatim>\<open>firstMatchTrace\<close> that is marked as matched is the rule that decided, all entries before it did
  not match, and no entry is marked when the default decided.
\<close>

theorem firstMatchTrace_explains:
  assumes "\<not> UsesCEL p" "\<not> UsesRego p"
  shows "case find snd (firstMatchTrace E p act) of
      None \<Rightarrow> dec_rule (Evaluate (New (pro_policy p) d) act) = None
    | Some (j, _) \<Rightarrow> 1 \<le> j \<and> j \<le> length (pro_policy p) \<and>
        dec_rule (Evaluate (New (pro_policy p) d) act) = Some (pro_policy p ! (j - 1))"
  using trace_eval [where i = 1 and act = act and rules = "pro_policy p" and d = "eng_def (New (pro_policy p) d)"] assms
  by (auto simp: firstMatchTrace_def Evaluate_def New_def split: option.splits)

definition deny_ls :: policy_rule where
  "deny_ls = \<lparr>pr_tool = ''shell'', pr_match = ''ls*'', pr_match_argv = [], pr_verdict = VerdictDeny, pr_reason = []\<rparr>"

theorem firstMatchTrace_explains_witness:
  "dec_rule (Evaluate (New [deny_ls] VerdictAllow) (sim_act sim0)) = Some deny_ls"
proof -
  let ?p = "profile0\<lparr>pro_policy := [deny_ls]\<rparr>"
  have u: "\<not> UsesCEL ?p" "\<not> UsesRego ?p" by (simp_all add: profile0_def UsesCEL_def UsesRego_def)
  have "builtin_matched (sim_act sim0) deny_ls" unfolding builtin_matched_fires by code_simp
  then have "find snd (firstMatchTrace simprims0 ?p (sim_act sim0)) = Some (1, True)"
    using u by (simp add: firstMatchTrace_def)
  then show ?thesis
    using firstMatchTrace_explains [OF u, where E = simprims0 and act = "sim_act sim0" and d = VerdictAllow] by simp
qed

end
