(* ===== verification/Admission.thy ===== *)
theory Admission
  imports Glob
begin

text \<open>
  The Kubernetes admission webhook (\<^verbatim>\<open>internal/webhook/policy.go\<close> and \<^verbatim>\<open>internal/webhook/webhook.go\<close>): the
  decision on a resource under the cluster policies, the policy snapshot with its last-known-good
  cache, and the validating and mutating handlers. The API server's answer to listing the policies is
  an argument (\<^verbatim>\<open>None\<close>: the list failed), and so are the parts of the resource that the code reads.
\<close>

section \<open>Decisions\<close>

record cluster_policy =
  cp_allowed_profiles :: "string list"
  cp_denied_profiles :: "string list"
  cp_allowed_namespaces :: "string list"
  cp_required_labels :: "string list"
  cp_default_profile :: string

datatype violation = ProfileDenied string string | ProfileNotAllowed string | NamespaceNotAllowed string | LabelMissing string

text \<open>The package has its own copy of the glob matcher of \<^verbatim>\<open>internal/policy\<close>, line for line.\<close>

definition webhook_matchGlob :: "string \<Rightarrow> string \<Rightarrow> bool" where
  "webhook_matchGlob pattern s = matchGlob pattern s"

definition matchAny :: "string list \<Rightarrow> string \<Rightarrow> bool" where
  "matchAny patterns s = list_ex (\<lambda>pat. webhook_matchGlob pat s) patterns"

definition effective_profile :: "cluster_policy list \<Rightarrow> string \<Rightarrow> string" where
  "effective_profile policies profileName =
     (if profileName = [] then
        (case find (\<lambda>p. cp_default_profile p \<noteq> []) policies of Some p \<Rightarrow> cp_default_profile p | None \<Rightarrow> [])
      else profileName)"

definition policy_violation :: "cluster_policy \<Rightarrow> string \<Rightarrow> (string \<rightharpoonup> string) \<Rightarrow> string \<Rightarrow> violation option" where
  "policy_violation p namespace labels effective =
     (case find (\<lambda>pat. webhook_matchGlob pat effective) (cp_denied_profiles p) of
        Some pat \<Rightarrow> Some (ProfileDenied effective pat)
      | None \<Rightarrow>
          if cp_allowed_profiles p \<noteq> [] \<and> \<not> matchAny (cp_allowed_profiles p) effective then Some (ProfileNotAllowed effective)
          else if namespace \<noteq> [] \<and> cp_allowed_namespaces p \<noteq> [] \<and> \<not> matchAny (cp_allowed_namespaces p) namespace
          then Some (NamespaceNotAllowed namespace)
          else (case find (\<lambda>key. labels key = None) (cp_required_labels p) of
                  Some key \<Rightarrow> Some (LabelMissing key)
                | None \<Rightarrow> None))"

fun first_violation :: "cluster_policy list \<Rightarrow> string \<Rightarrow> (string \<rightharpoonup> string) \<Rightarrow> string \<Rightarrow> violation option" where
  "first_violation [] namespace labels effective = None"
| "first_violation (p # ps) namespace labels effective =
     (case policy_violation p namespace labels effective of
        Some v \<Rightarrow> Some v
      | None \<Rightarrow> first_violation ps namespace labels effective)"

text \<open>The result: the reason of a rejection, and the effective profile.\<close>

definition Decide :: "cluster_policy list \<Rightarrow> string \<Rightarrow> (string \<rightharpoonup> string) \<Rightarrow> string \<Rightarrow> violation option \<times> string" where
  "Decide policies namespace labels profileName =
     (let effective = effective_profile policies profileName in
      (first_violation policies namespace labels effective, effective))"

section \<open>The policy snapshot\<close>

record webhook_server =
  ws_cached :: "cluster_policy list"
  ws_cached_at :: gotime
  ws_ttl :: duration
  ws_loaded :: bool

definition defaultPolicyCacheTTL :: duration where
  "defaultPolicyCacheTTL = 600 * 1000000000"

text \<open>\<open>v\<close> is the value of \<^verbatim>\<open>RUNEWARD_WEBHOOK_POLICY_CACHE_TTL\<close>, \<open>parse\<close> is \<^verbatim>\<open>time.ParseDuration\<close>.\<close>

definition policyCacheTTL :: "(string \<Rightarrow> duration option) \<Rightarrow> string \<Rightarrow> duration" where
  "policyCacheTTL parse v =
     (if v = [] then defaultPolicyCacheTTL
      else if v = ''0'' \<or> v = ''off'' \<or> v = ''none'' then 0
      else (case parse v of Some d \<Rightarrow> if d \<ge> 0 then d else defaultPolicyCacheTTL | None \<Rightarrow> defaultPolicyCacheTTL))"

definition NewServer :: "duration \<Rightarrow> webhook_server" where
  "NewServer ttl = \<lparr>ws_cached = [], ws_cached_at = 0, ws_ttl = ttl, ws_loaded = False\<rparr>"

definition policySnapshot ::
  "gotime \<Rightarrow> cluster_policy list option \<Rightarrow> webhook_server \<Rightarrow> (cluster_policy list \<times> bool) option \<times> webhook_server" where
  "policySnapshot now live s =
     (case live of
        Some ps \<Rightarrow> (Some (ps, False), s\<lparr>ws_cached := ps, ws_cached_at := now, ws_loaded := True\<rparr>)
      | None \<Rightarrow>
          (if ws_loaded s \<and> ws_ttl s > 0 \<and> now - ws_cached_at s \<le> ws_ttl s then Some (ws_cached s, True) else None, s))"

section \<open>Handlers\<close>

record admission_request =
  ar_namespace :: string
  ar_profile :: string
  ar_labels :: "string \<rightharpoonup> string"
  ar_annotated :: bool

datatype patch_value = PatchString string | PatchMap "(string \<times> string) list"

record patch_op =
  pop_op :: string
  pop_path :: string
  pop_value :: patch_value

definition defaultedAnnotation :: string where
  "defaultedAnnotation = ''runeward.dev/cluster-policy-defaulted''"

fun escapeJSONPointer :: "string \<Rightarrow> string" where
  "escapeJSONPointer [] = []"
| "escapeJSONPointer (c # s) =
     (if c = CHR ''~'' then ''~0'' else if c = CHR ''/'' then ''~1'' else [c]) @ escapeJSONPointer s"

definition profilePatch :: "bool \<Rightarrow> string \<Rightarrow> patch_op list" where
  "profilePatch annotated profile =
     [\<lparr>pop_op = ''add'', pop_path = ''/spec/profile'', pop_value = PatchString profile\<rparr>,
      if \<not> annotated
      then \<lparr>pop_op = ''add'', pop_path = ''/metadata/annotations'', pop_value = PatchMap [(defaultedAnnotation, ''true'')]\<rparr>
      else \<lparr>pop_op = ''add'', pop_path = ''/metadata/annotations/'' @ escapeJSONPointer defaultedAnnotation,
            pop_value = PatchString ''true''\<rparr>]"

text \<open>The response: whether the resource is admitted, and the patch of the mutating handler.\<close>

definition handleValidate :: "gotime \<Rightarrow> cluster_policy list option \<Rightarrow> admission_request \<Rightarrow> webhook_server \<Rightarrow> bool \<times> webhook_server" where
  "handleValidate now live rq s =
     (case policySnapshot now live s of
        (None, s') \<Rightarrow> (False, s')
      | (Some (policies, fromCache), s') \<Rightarrow>
          (fst (Decide policies (ar_namespace rq) (ar_labels rq) (ar_profile rq)) = None, s'))"

definition handleMutate ::
  "gotime \<Rightarrow> cluster_policy list option \<Rightarrow> admission_request \<Rightarrow> webhook_server \<Rightarrow> (bool \<times> patch_op list) \<times> webhook_server" where
  "handleMutate now live rq s =
     (case policySnapshot now live s of
        (None, s') \<Rightarrow> ((True, []), s')
      | (Some (policies, fromCache), s') \<Rightarrow>
          (let mutated = snd (Decide policies (ar_namespace rq) (ar_labels rq) (ar_profile rq)) in
           ((True, if mutated \<noteq> [] \<and> mutated \<noteq> ar_profile rq then profilePatch (ar_annotated rq) mutated else []), s')))"

section \<open>Lemmas\<close>

lemma first_violation_None:
  "first_violation ps ns labels eff = None \<longleftrightarrow> list_all (\<lambda>p. policy_violation p ns labels eff = None) ps"
  by (induction ps) (auto split: option.splits)

lemma policy_violation_None:
  "policy_violation p ns labels eff = None \<longleftrightarrow>
     \<not> matchAny (cp_denied_profiles p) eff \<and> (cp_allowed_profiles p = [] \<or> matchAny (cp_allowed_profiles p) eff) \<and>
     (ns = [] \<or> cp_allowed_namespaces p = [] \<or> matchAny (cp_allowed_namespaces p) ns) \<and>
     set (cp_required_labels p) \<subseteq> dom labels"
proof -
  have labels: "find (\<lambda>key. labels key = None) ks = None \<longleftrightarrow> set ks \<subseteq> dom labels" for ks
    by (auto simp: find_None_all)
  have denied: "find (\<lambda>pat. webhook_matchGlob pat eff) ps = None \<longleftrightarrow> \<not> matchAny ps eff" for ps
    by (auto simp: find_None_all matchAny_def list_ex_iff)
  show ?thesis
    using labels [of "cp_required_labels p"] denied [of "cp_denied_profiles p"]
    by (cases "find (\<lambda>pat. webhook_matchGlob pat eff) (cp_denied_profiles p)";
        cases "find (\<lambda>key. labels key = None) (cp_required_labels p)") (auto simp: policy_violation_def)
qed

text \<open>Reading an escaped JSON pointer token back gives the token.\<close>

fun unescape :: "string \<Rightarrow> string" where
  "unescape [] = []"
| "unescape [c] = [c]"
| "unescape (c # d # s) =
     (if c = CHR ''~'' \<and> d = CHR ''0'' then CHR ''~'' # unescape s
      else if c = CHR ''~'' \<and> d = CHR ''1'' then CHR ''/'' # unescape s
      else c # unescape (d # s))"

lemma unescape_plain: "c \<noteq> CHR ''~'' \<Longrightarrow> unescape (c # s) = c # unescape s"
  by (cases s) auto

lemma unescape_escape: "unescape (escapeJSONPointer s) = s"
  by (induction s) (auto simp: unescape_plain)

lemma effective_profile_idem:
  "effective_profile ps (effective_profile ps name) = effective_profile ps name"
  by (auto simp: effective_profile_def split: option.splits)

section \<open>Properties\<close>

text \<open>
  Admission is exactly the conjunction of the cluster policies: a resource is admitted iff under every
  policy its effective profile matches no denied pattern and, where there is an allow list, one of its
  patterns; its namespace, unless empty, matches the namespace list where there is one; and it has every
  required label.
\<close>

theorem Decide_all_policies:
  "fst (Decide policies ns labels name) = None \<longleftrightarrow>
     (\<forall>p \<in> set policies.
        \<not> matchAny (cp_denied_profiles p) (effective_profile policies name) \<and>
        (cp_allowed_profiles p = [] \<or> matchAny (cp_allowed_profiles p) (effective_profile policies name)) \<and>
        (ns = [] \<or> cp_allowed_namespaces p = [] \<or> matchAny (cp_allowed_namespaces p) ns) \<and>
        set (cp_required_labels p) \<subseteq> dom labels)"
  by (simp add: Decide_def Let_def first_violation_None list_all_iff policy_violation_None)

definition cluster0 :: cluster_policy where
  "cluster0 = \<lparr>cp_allowed_profiles = [''dev-*''], cp_denied_profiles = [''*-root''], cp_allowed_namespaces = [],
     cp_required_labels = [''owner''], cp_default_profile = ''dev-go''\<rparr>"

theorem Decide_all_policies_witness:
  "fst (Decide [cluster0] ''ns'' [''owner'' \<mapsto> ''a''] []) = None \<and> set (cp_required_labels cluster0) \<subseteq> dom [''owner'' \<mapsto> ''a'']"
proof -
  have "fst (Decide [cluster0] ''ns'' [''owner'' \<mapsto> ''a''] []) = None" by code_simp
  then show ?thesis using Decide_all_policies [of "[cluster0]" "''ns''" "[''owner'' \<mapsto> ''a'']" "[]"] by simp
qed

text \<open>
  What the mutating handler writes, the validating handler judges alike: validating the resource with
  the defaulted profile gives the same answer as validating the original, under the same policies.
\<close>

theorem default_then_validate:
  "Decide policies ns labels (snd (Decide policies ns labels name)) = Decide policies ns labels name"
  by (simp add: Decide_def Let_def effective_profile_idem)

text \<open>A history of snapshots, and the policy sets that were listed live in it.\<close>

definition snapshot_run :: "(gotime \<times> cluster_policy list option) list \<Rightarrow> webhook_server \<Rightarrow> webhook_server" where
  "snapshot_run evs s = foldl (\<lambda>s (now, live). snd (policySnapshot now live s)) s evs"

definition was_live :: "(gotime \<times> cluster_policy list option) list \<Rightarrow> gotime \<Rightarrow> cluster_policy list \<Rightarrow> bool" where
  "was_live evs t ps \<longleftrightarrow> (t, Some ps) \<in> set evs"

lemma snapshot_run_snoc: "snapshot_run (evs @ [(t, l)]) s = snd (policySnapshot t l (snapshot_run evs s))"
  by (simp add: snapshot_run_def)

lemma snapshot_run_cache:
  "ws_ttl (snapshot_run evs (NewServer ttl)) = ttl \<and>
   (ws_loaded (snapshot_run evs (NewServer ttl)) \<longrightarrow>
      was_live evs (ws_cached_at (snapshot_run evs (NewServer ttl))) (ws_cached (snapshot_run evs (NewServer ttl))))"
proof (induction evs rule: rev_induct)
  case Nil
  then show ?case by (simp add: snapshot_run_def NewServer_def)
next
  case (snoc e evs)
  obtain t l where e: "e = (t, l)" by fastforce
  show ?case using snoc by (cases l) (auto simp: e snapshot_run_snoc policySnapshot_def was_live_def)
qed

text \<open>
  C40. The webhook fails closed on stale policies: after any history of snapshots of a fresh server, a
  resource is admitted only if a policy set that was listed live admits it: the current live list,
  or, when listing fails, one listed at most the cache's lifetime ago, and then only when the cache
  is enabled.
\<close>

theorem webhook_fails_closed:
  assumes "s = snapshot_run evs (NewServer ttl)" "fst (handleValidate now live rq s)"
  shows "\<exists>t ps. was_live (evs @ [(now, live)]) t ps \<and> fst (Decide ps (ar_namespace rq) (ar_labels rq) (ar_profile rq)) = None \<and>
    (live = Some ps \<or> live = None \<and> 0 < ttl \<and> now - t \<le> ttl)"
proof (cases live)
  case None
  then have "ws_loaded s" "ws_ttl s > 0" "now - ws_cached_at s \<le> ws_ttl s"
    "fst (Decide (ws_cached s) (ar_namespace rq) (ar_labels rq) (ar_profile rq)) = None"
    using assms(2) by (auto simp: handleValidate_def policySnapshot_def split: if_splits)
  then show ?thesis using None snapshot_run_cache [of evs ttl] unfolding assms(1) [symmetric] was_live_def by auto
next
  case (Some ps)
  then show ?thesis using assms(2) by (auto simp: handleValidate_def policySnapshot_def was_live_def)
qed

theorem webhook_fails_closed_witness:
  "\<exists>t ps. was_live [(5, Some [cluster0]), (9, None)] t ps \<and> 9 - t \<le> (10::int)"
proof -
  let ?rq = "\<lparr>ar_namespace = ''ns'', ar_profile = [], ar_labels = [''owner'' \<mapsto> ''a''], ar_annotated = False\<rparr>"
  have "fst (handleValidate 9 None ?rq (snapshot_run [(5, Some [cluster0])] (NewServer 10)))" by code_simp
  then show ?thesis using webhook_fails_closed [OF refl, of 9 None ?rq "[(5, Some [cluster0])]" 10] by auto
qed

end
