(* ===== verification/Anomaly.thy ===== *)
theory Anomaly
  imports Ledger_Encoding
begin

text \<open>
  The behavioural anomaly detector (\<^verbatim>\<open>internal/anomaly/detector.go\<close>), one of the audit sinks: per session it
  counts distinct destinations, shell executions in a sliding window and denials, and raises
  rate-limited warnings. \<open>Emit\<close> returns the warnings it logged with the new state.
\<close>

section \<open>State\<close>

datatype anomaly_kind = KindNovelHost | KindExecBurst | KindDenialSpike

record anomaly_counts =
  ac_novel_host :: int
  ac_exec_burst :: int
  ac_denial_spike :: int

text \<open>The set of hosts is a list without duplicates.\<close>

record session_state =
  sn_hosts :: "string list"
  sn_exec_times :: "gotime list"
  sn_denies :: int
  sn_last_warn :: "anomaly_kind \<rightharpoonup> gotime"

record detector =
  dt_max_hosts :: int
  dt_exec_burst :: int
  dt_window :: duration
  dt_max_denies :: int
  dt_sessions :: "string \<rightharpoonup> session_state"
  dt_counts :: anomaly_counts

definition newSessionState :: session_state where
  "newSessionState = \<lparr>sn_hosts = [], sn_exec_times = [], sn_denies = 0, sn_last_warn = Map.empty\<rparr>"

definition warnCooldown :: duration where
  "warnCooldown = 60 * 1000000000"

section \<open>Configuration\<close>

definition envInt :: "string \<Rightarrow> int \<Rightarrow> int" where
  "envInt value def =
     (let raw = trim_space value in
      if raw = [] then def else (case atoi raw of None \<Rightarrow> def | Some n \<Rightarrow> if n \<le> 0 then def else n))"

definition envDuration :: "(string \<Rightarrow> duration option) \<Rightarrow> string \<Rightarrow> duration \<Rightarrow> duration" where
  "envDuration parse value def =
     (let raw = trim_space value in
      if raw = [] then def else (case parse raw of None \<Rightarrow> def | Some d \<Rightarrow> if d \<le> 0 then def else d))"

definition anomaly_New :: "(string \<Rightarrow> duration option) \<Rightarrow> (string \<Rightarrow> string) \<Rightarrow> detector" where
  "anomaly_New parse getenv =
     \<lparr>dt_max_hosts = envInt (getenv ''RUNEWARD_ANOMALY_MAX_HOSTS'') 20,
      dt_exec_burst = envInt (getenv ''RUNEWARD_ANOMALY_EXEC_BURST'') 30,
      dt_window = envDuration parse (getenv ''RUNEWARD_ANOMALY_WINDOW'') (60 * 1000000000),
      dt_max_denies = envInt (getenv ''RUNEWARD_ANOMALY_MAX_DENIES'') 10,
      dt_sessions = Map.empty, dt_counts = \<lparr>ac_novel_host = 0, ac_exec_burst = 0, ac_denial_spike = 0\<rparr>\<rparr>"

section \<open>Observing events\<close>

definition parseHost :: "string \<Rightarrow> string" where
  "parseHost act =
     (let s = trim_space act in
      if s = [] then []
      else
        (let s = (case str_index s ''://'' of Some i \<Rightarrow> drop (i + 3) s | None \<Rightarrow> s);
             s = (case index_any s ''/?#'' of Some i \<Rightarrow> take i s | None \<Rightarrow> s);
             s = (case last_index_byte s CHR ''@'' of Some i \<Rightarrow> drop (i + 1) s | None \<Rightarrow> s);
             bracket = (if has_prefix s ''['' then index_byte s CHR '']'' else None)
         in case bracket of
              Some i \<Rightarrow> to_lower (trim_space (take (i - 1) (drop 1 s)))
            | None \<Rightarrow>
                to_lower (trim_space (case last_index_byte s CHR '':'' of Some i \<Rightarrow> take i s | None \<Rightarrow> s))))"

definition appendWithinWindow :: "gotime list \<Rightarrow> gotime \<Rightarrow> duration \<Rightarrow> gotime list" where
  "appendWithinWindow ts t window = dropWhile (\<lambda>x. x < t - window) (ts @ [t])"

definition bump :: "anomaly_kind \<Rightarrow> anomaly_counts \<Rightarrow> anomaly_counts" where
  "bump kind c =
     (case kind of
        KindNovelHost \<Rightarrow> c\<lparr>ac_novel_host := ac_novel_host c + 1\<rparr>
      | KindExecBurst \<Rightarrow> c\<lparr>ac_exec_burst := ac_exec_burst c + 1\<rparr>
      | KindDenialSpike \<Rightarrow> c\<lparr>ac_denial_spike := ac_denial_spike c + 1\<rparr>)"

text \<open>A session's state, the counters and the warnings raised so far by one call.\<close>

type_synonym emit_state = "session_state \<times> anomaly_counts \<times> (anomaly_kind \<times> gotime) list"

definition warn :: "anomaly_kind \<Rightarrow> gotime \<Rightarrow> emit_state \<Rightarrow> emit_state" where
  "warn kind t est =
     (case est of (st, counts, ws) \<Rightarrow>
        if (case sn_last_warn st kind of Some prev \<Rightarrow> t - prev < warnCooldown | None \<Rightarrow> False) then est
        else (st\<lparr>sn_last_warn := (sn_last_warn st)(kind \<mapsto> t)\<rparr>, bump kind counts, ws @ [(kind, t)]))"

definition observe_host :: "detector \<Rightarrow> gotime \<Rightarrow> event \<Rightarrow> emit_state \<Rightarrow> emit_state" where
  "observe_host d t ev est =
     (case est of (st, counts, ws) \<Rightarrow>
        let host = parseHost (ev_action ev) in
        if ev_verdict ev = ''allow'' \<and> host \<noteq> [] \<and> host \<notin> set (sn_hosts st) then
          (let st' = st\<lparr>sn_hosts := host # sn_hosts st\<rparr> in
           if int (length (sn_hosts st')) > dt_max_hosts d then warn KindNovelHost t (st', counts, ws) else (st', counts, ws))
        else est)"

definition observe_shell :: "detector \<Rightarrow> gotime \<Rightarrow> emit_state \<Rightarrow> emit_state" where
  "observe_shell d t est =
     (case est of (st, counts, ws) \<Rightarrow>
        let st' = st\<lparr>sn_exec_times := appendWithinWindow (sn_exec_times st) t (dt_window d)\<rparr> in
        if int (length (sn_exec_times st')) > dt_exec_burst d then warn KindExecBurst t (st', counts, ws) else (st', counts, ws))"

definition observe_deny :: "detector \<Rightarrow> gotime \<Rightarrow> emit_state \<Rightarrow> emit_state" where
  "observe_deny d t est =
     (case est of (st, counts, ws) \<Rightarrow>
        let st' = st\<lparr>sn_denies := sn_denies st + 1\<rparr> in
        if sn_denies st' > dt_max_denies d then warn KindDenialSpike t (st', counts, ws) else (st', counts, ws))"

definition session_before :: "detector \<Rightarrow> string \<Rightarrow> session_state" where
  "session_before d sid = (case dt_sessions d sid of Some st \<Rightarrow> st | None \<Rightarrow> newSessionState)"

definition Emit :: "gotime \<Rightarrow> event \<Rightarrow> detector \<Rightarrow> (anomaly_kind \<times> gotime) list \<times> detector" where
  "Emit now ev d =
     (let t = (if is_zero_time (ev_time ev) then now else ev_time ev);
          est0 = (session_before d (ev_session ev), dt_counts d, []);
          est1 = (if ev_tool ev = ''net'' \<or> ev_tool ev = ''browser'' then observe_host d t ev est0
                  else if ev_tool ev = ''shell'' then observe_shell d t est0
                  else est0);
          (st, counts, ws) = (if ev_verdict ev = ''deny'' then observe_deny d t est1 else est1)
      in (ws, d\<lparr>dt_sessions := (dt_sessions d)(ev_session ev \<mapsto> st), dt_counts := counts\<rparr>))"

section \<open>Runs\<close>

text \<open>The warnings of a run of events, each with its session.\<close>

fun emit_run :: "(gotime \<times> event) list \<Rightarrow> detector \<Rightarrow> (string \<times> anomaly_kind \<times> gotime) list" where
  "emit_run [] d = []"
| "emit_run ((now, ev) # evs) d =
     (let (ws, d') = Emit now ev d in map (Pair (ev_session ev)) ws @ emit_run evs d')"

definition last_warn :: "detector \<Rightarrow> string \<Rightarrow> anomaly_kind \<Rightarrow> gotime option" where
  "last_warn d sid k = (case dt_sessions d sid of Some st \<Rightarrow> sn_last_warn st k | None \<Rightarrow> None)"

definition times_of :: "string \<Rightarrow> anomaly_kind \<Rightarrow> (string \<times> anomaly_kind \<times> gotime) list \<Rightarrow> gotime list" where
  "times_of sid k ws = map (snd \<circ> snd) (filter (\<lambda>w. fst w = sid \<and> fst (snd w) = k) ws)"

definition kind_times :: "anomaly_kind \<Rightarrow> (anomaly_kind \<times> gotime) list \<Rightarrow> gotime list" where
  "kind_times k ws = map snd (filter (\<lambda>w. fst w = k) ws)"

text \<open>A sequence of warning times that respects the cooldown, after an earlier one.\<close>

fun spaced :: "gotime option \<Rightarrow> gotime list \<Rightarrow> bool" where
  "spaced prev [] = True"
| "spaced prev (t # ts) = ((case prev of None \<Rightarrow> True | Some l \<Rightarrow> l + warnCooldown \<le> t) \<and> spaced (Some t) ts)"

definition last_of :: "gotime option \<Rightarrow> gotime list \<Rightarrow> gotime option" where
  "last_of l ts = (if ts = [] then l else Some (last ts))"

lemma spaced_append: "spaced l (xs @ ys) \<longleftrightarrow> spaced l xs \<and> spaced (last_of l xs) ys"
  by (induction xs arbitrary: l) (auto simp: last_of_def)

text \<open>What one call keeps: the warnings of a kind respect the cooldown after the session's last one, the last
  one is remembered, and the counters count them.\<close>

definition count_of :: "anomaly_kind \<Rightarrow> anomaly_counts \<Rightarrow> int" where
  "count_of k c = (case k of KindNovelHost \<Rightarrow> ac_novel_host c | KindExecBurst \<Rightarrow> ac_exec_burst c | KindDenialSpike \<Rightarrow> ac_denial_spike c)"

definition est_ok :: "anomaly_kind \<Rightarrow> gotime option \<Rightarrow> int \<Rightarrow> emit_state \<Rightarrow> bool" where
  "est_ok k base n est =
     (case est of (st, counts, ws) \<Rightarrow>
        spaced base (kind_times k ws) \<and> sn_last_warn st k = last_of base (kind_times k ws) \<and>
        count_of k counts = n + int (length (kind_times k ws)))"

lemma kind_times_snoc: "kind_times k (ws @ [(k', t)]) = kind_times k ws @ (if k' = k then [t] else [])"
  by (simp add: kind_times_def)

lemma count_of_bump: "count_of k (bump k' c) = count_of k c + (if k' = k then 1 else 0)"
  by (cases k; cases k') (simp_all add: count_of_def bump_def)

lemma warn_ok: "est_ok k base n est \<Longrightarrow> est_ok k base n (warn k' t est)"
  by (cases est) (auto simp: est_ok_def warn_def kind_times_snoc count_of_bump spaced_append last_of_def split: option.splits)

lemma est_ok_session: "est_ok k base n (st, c, ws) \<Longrightarrow> sn_last_warn st' = sn_last_warn st \<Longrightarrow> est_ok k base n (st', c, ws)"
  by (simp add: est_ok_def)

lemma observe_ok:
  assumes "est_ok k base n est"
  shows "est_ok k base n (observe_host d t ev est)" "est_ok k base n (observe_shell d t est)" "est_ok k base n (observe_deny d t est)"
  using assms
  by (cases est; auto simp: observe_host_def observe_shell_def observe_deny_def Let_def intro!: warn_ok elim!: est_ok_session)+

lemma Emit_ok:
  assumes "Emit now ev d = (ws, d')"
  shows "spaced (last_warn d (ev_session ev) k) (kind_times k ws)"
    "last_warn d' sid k = (if sid = ev_session ev then last_of (last_warn d sid k) (kind_times k ws) else last_warn d sid k)"
    "count_of k (dt_counts d') = count_of k (dt_counts d) + int (length (kind_times k ws))"
proof -
  let ?st = "session_before d (ev_session ev)" and ?b = "last_warn d (ev_session ev) k" and ?n = "count_of k (dt_counts d)"
  let ?t = "if is_zero_time (ev_time ev) then now else ev_time ev"
  have 0: "est_ok k ?b ?n (?st, dt_counts d, [])"
    by (auto simp: est_ok_def kind_times_def last_of_def last_warn_def session_before_def newSessionState_def split: option.splits)
  define est where "est = (let est1 = (if ev_tool ev = ''net'' \<or> ev_tool ev = ''browser'' then observe_host d ?t ev (?st, dt_counts d, [])
      else if ev_tool ev = ''shell'' then observe_shell d ?t (?st, dt_counts d, []) else (?st, dt_counts d, []))
      in if ev_verdict ev = ''deny'' then observe_deny d ?t est1 else est1)"
  have ok: "est_ok k ?b ?n est" unfolding est_def Let_def using 0 observe_ok by simp
  obtain st counts ws' where e: "est = (st, counts, ws')" by (cases est) auto
  have "Emit now ev d = (ws', d\<lparr>dt_sessions := (dt_sessions d)(ev_session ev \<mapsto> st), dt_counts := counts\<rparr>)"
    using e unfolding Emit_def Let_def est_def by simp
  then show "spaced ?b (kind_times k ws)"
    "last_warn d' sid k = (if sid = ev_session ev then last_of (last_warn d sid k) (kind_times k ws) else last_warn d sid k)"
    "count_of k (dt_counts d') = count_of k (dt_counts d) + int (length (kind_times k ws))"
    using assms ok e by (auto simp: est_ok_def last_warn_def split: option.splits)
qed

lemma times_of_append: "times_of sid k (xs @ ys) = times_of sid k xs @ times_of sid k ys"
  by (simp add: times_of_def)

lemma times_of_session:
  "times_of sid k (map (Pair s) ws) = (if sid = s then kind_times k ws else [])"
  by (induction ws) (auto simp: times_of_def kind_times_def)

lemma emit_run_spaced: "spaced (last_warn d sid k) (times_of sid k (emit_run evs d))"
proof (induction evs arbitrary: d)
  case Nil
  then show ?case by (simp add: times_of_def)
next
  case (Cons e evs)
  obtain now ev where e: "e = (now, ev)" by fastforce
  obtain ws d' where em: "Emit now ev d = (ws, d')" by fastforce
  show ?case
    using Emit_ok(1) [OF em, of k] Emit_ok(2) [OF em, of sid k] Cons.IH [of d'] em e
    by (cases "sid = ev_session ev") (simp_all add: times_of_append times_of_session spaced_append last_of_def)
qed

lemma spaced_sorted: "spaced l ts \<Longrightarrow> sorted_wrt (\<lambda>a b. a + warnCooldown \<le> b) ts"
proof (induction ts arbitrary: l)
  case (Cons t ts)
  have "a + warnCooldown \<le> b" if "spaced (Some a) bs" "b \<in> set bs" for a b bs
    using that by (induction bs arbitrary: a) (auto simp: warnCooldown_def, force)
  then show ?case using Cons by auto
qed simp

section \<open>Properties\<close>

text \<open>
  Warnings are rate limited: over any stream of events, whatever their timestamps, two warnings of
  the same kind for the same session are at least one minute apart, in the order they are logged.
\<close>

theorem warnings_a_minute_apart:
  "sorted_wrt (\<lambda>a b. a + 60000000000 \<le> b) (times_of sid k (emit_run evs d))"
  using spaced_sorted [OF emit_run_spaced [of d sid k evs]] by (simp add: warnCooldown_def)

text \<open>
  The execution window is exact: if the shell events of a session arrive in time order, the kept
  timestamps after an event at time \<open>t\<close> are exactly those not older than the window, the new one
  included.
\<close>

theorem appendWithinWindow_exact:
  assumes "sorted (ts @ [t])"
  shows "appendWithinWindow ts t window = filter (\<lambda>x. x \<ge> t - window) (ts @ [t])"
proof -
  have "dropWhile (\<lambda>x. x < c) xs = filter (\<lambda>x. x \<ge> c) xs" if "sorted xs" for c and xs :: "int list"
    using that
  proof (induction xs)
    case (Cons x xs)
    then show ?case by (cases "x < c") (auto simp: not_less intro!: filter_True [symmetric])
  qed simp
  then show ?thesis using assms by (simp only: appendWithinWindow_def)
qed

theorem appendWithinWindow_exact_witness:
  "sorted [1, 5, 9 :: int] \<and> appendWithinWindow [1, 5] 9 4 = [5, 9]"
  using appendWithinWindow_exact [of "[1, 5]" 9 4] by simp

end
