(* ===== verification/Secret_Refs.thy ===== *)
theory Secret_Refs
  imports Session_Setup Lease_Token "HOL-Library.Char_ord" "HOL-Library.List_Lexorder"
begin

text \<open>
  Resolution of secret references (\<^verbatim>\<open>internal/secrets\<close>): the dispatcher by scheme and the resolvers for the
  process environment, HashiCorp Vault, AWS Secrets Manager with its request signature, and Google Secret
  Manager. The HTTP client, JSON and base64 decoding and URL parsing are the record \<open>secret_prims\<close>. The text
  of an error is a constructor of \<open>secret_error\<close>.
\<close>

section \<open>References\<close>

datatype secret_error =
    NoScheme | NotConfigured string | NotBuiltIn | UnsupportedScheme string | WrongScheme | MissingName | UnsetVariable string
  | MissingField | EmptyField | MissingPath | NoAddress | NoToken | NoRegion | NoCredentials | NoProject | BadVersion | BadForm
  | RequestFailed | BadStatus nat | BadResponse | FieldAbsent string | FieldNotString string | FieldEmpty string
  | NoSecretString | NotObject | EmptyPayload | BadPayload | NoHost

definition splitScheme :: "string \<Rightarrow> (string \<times> string) option" where
  "splitScheme ref =
     (case str_index ref ''://'' of
        None \<Rightarrow> None
      | Some i \<Rightarrow>
          if i = 0 then None
          else (let scheme = to_lower (take i ref) in
                if \<exists>c \<in> set scheme. c \<in> set ('' /'' @ [CHR 0x09]) then None else Some (scheme, drop (i + 3) ref)))"

text \<open>\<^verbatim>\<open>strings.TrimRight(_, "/")\<close> and \<^verbatim>\<open>strings.Trim(_, "/")\<close>.\<close>

definition trim_slashes_right :: "string \<Rightarrow> string" where
  "trim_slashes_right s = rev (dropWhile (\<lambda>c. c = CHR ''/'') (rev s))"

definition trim_slashes :: "string \<Rightarrow> string" where
  "trim_slashes s = dropWhile (\<lambda>c. c = CHR ''/'') (trim_slashes_right s)"

definition parseVaultRef :: "string \<Rightarrow> (secret_error, string \<times> string \<times> string) result" where
  "parseVaultRef ref =
     (case splitScheme ref of
        None \<Rightarrow> Inl WrongScheme
      | Some (scheme, rest) \<Rightarrow>
          if scheme \<noteq> ''vault'' then Inl WrongScheme
          else (case last_index_byte rest CHR ''#'' of
                  None \<Rightarrow> Inl MissingField
                | Some hash \<Rightarrow>
                    (let field = drop (Suc hash) rest; locator0 = take hash rest in
                     if field = [] then Inl EmptyField
                     else
                       (let locator = (case cut_prefix locator0 ''/'' of Some l \<Rightarrow> l | None \<Rightarrow> locator0) in
                        case index_byte locator CHR ''/'' of
                          None \<Rightarrow> Inl MissingPath
                        | Some i \<Rightarrow>
                            (let mount = take i locator; path = trim_slashes (drop (Suc i) locator) in
                             if mount = [] \<or> path = [] then Inl MissingPath else Inr (mount, path, field))))))"

definition parseAWSRef :: "string \<Rightarrow> (secret_error, string \<times> string) result" where
  "parseAWSRef ref =
     (case splitScheme ref of
        None \<Rightarrow> Inl WrongScheme
      | Some (scheme, rest) \<Rightarrow>
          if scheme \<noteq> ''aws'' then Inl WrongScheme
          else (case last_index_byte rest CHR ''#'' of
                  None \<Rightarrow> if rest = [] then Inl MissingName else Inr (rest, [])
                | Some hash \<Rightarrow>
                    if drop (Suc hash) rest = [] then Inl EmptyField
                    else if take hash rest = [] then Inl MissingName
                    else Inr (take hash rest, drop (Suc hash) rest)))"

definition parseGCPRef :: "string \<Rightarrow> string \<Rightarrow> (secret_error, string) result" where
  "parseGCPRef project ref =
     (case splitScheme ref of
        None \<Rightarrow> Inl WrongScheme
      | Some (scheme, rest) \<Rightarrow>
          if scheme \<noteq> ''gcp'' then Inl WrongScheme
          else if rest = [] then Inl MissingName
          else if has_prefix rest ''projects/'' then
            (if \<not> str_contains rest ''/secrets/'' \<or> \<not> str_contains rest ''/versions/'' then Inl BadForm else Inr rest)
          else
            (let (name, version) = (case last_index_byte rest CHR ''#'' of
                   None \<Rightarrow> (rest, ''latest'') | Some hash \<Rightarrow> (take hash rest, drop (Suc hash) rest)) in
             if version = [] then Inl BadVersion
             else if name = [] then Inl MissingName
             else if str_contains name ''/'' then Inl BadForm
             else if project = [] then Inl NoProject
             else Inr (''projects/'' @ project @ ''/secrets/'' @ name @ ''/versions/'' @ version)))"

section \<open>Requests\<close>

record http_call =
  hc_method :: string
  hc_url :: string
  hc_headers :: "(string \<times> string) list"
  hc_body :: string

record http_reply =
  hr_status :: nat
  hr_body :: string

datatype json_value = JString string | JOther

text \<open>\<open>sv_http\<close> sends a request, \<^verbatim>\<open>None\<close> when it cannot be built or sent. The decoders give the fields the code
  reads: the object \<^verbatim>\<open>data.data\<close> of Vault, \<^verbatim>\<open>SecretString\<close> of AWS and the object in it, \<^verbatim>\<open>payload.data\<close> and
  \<^verbatim>\<open>access_token\<close> of Google. \<open>sv_url\<close> gives host, escaped path and query of a URL.\<close>

record secret_prims =
  sv_http :: "http_call \<Rightarrow> http_reply option"
  sv_vault :: "string \<Rightarrow> (string \<rightharpoonup> json_value) option"
  sv_aws :: "string \<Rightarrow> string option"
  sv_object :: "string \<Rightarrow> (string \<rightharpoonup> json_value) option"
  sv_gcp :: "string \<Rightarrow> string option"
  sv_gcp_token :: "string \<Rightarrow> string option"
  sv_b64 :: "string \<Rightarrow> string option"
  sv_quote :: "string \<Rightarrow> string"
  sv_url :: "string \<Rightarrow> string \<times> string \<times> string"
  sv_lookup_env :: "string \<Rightarrow> string option"
  sv_hmac :: "string \<Rightarrow> string \<Rightarrow> string"
  sv_sha256hex :: "string \<Rightarrow> string"
  sv_hex :: "string \<Rightarrow> string"

definition getenv_of :: "secret_prims \<Rightarrow> string \<Rightarrow> string" where
  "getenv_of X name = (case sv_lookup_env X name of Some v \<Rightarrow> v | None \<Rightarrow> [])"

definition EnvResolver_Resolve :: "secret_prims \<Rightarrow> string \<Rightarrow> (secret_error, string) result" where
  "EnvResolver_Resolve X ref =
     (case splitScheme ref of
        None \<Rightarrow> Inl WrongScheme
      | Some (scheme, name) \<Rightarrow>
          if scheme \<noteq> ''env'' then Inl WrongScheme
          else if name = [] then Inl MissingName
          else (case sv_lookup_env X name of
                  None \<Rightarrow> Inl (UnsetVariable name)
                | Some v \<Rightarrow> if v = [] then Inl (UnsetVariable name) else Inr v))"

text \<open>The value of a field that has to be a non-empty string.\<close>

definition string_field :: "(string \<rightharpoonup> json_value) \<Rightarrow> string \<Rightarrow> (secret_error, string) result" where
  "string_field obj k =
     (case obj k of
        None \<Rightarrow> Inl (FieldAbsent k)
      | Some JOther \<Rightarrow> Inl (FieldNotString k)
      | Some (JString v) \<Rightarrow> if v = [] then Inl (FieldEmpty k) else Inr v)"

record vault_resolver =
  va_addr :: string
  va_token :: string

definition VaultResolverFromEnv :: "secret_prims \<Rightarrow> vault_resolver" where
  "VaultResolverFromEnv X =
     \<lparr>va_addr = trim_slashes_right (getenv_of X ''VAULT_ADDR''), va_token = getenv_of X ''VAULT_TOKEN''\<rparr>"

definition vault_request :: "vault_resolver \<Rightarrow> string \<Rightarrow> string \<Rightarrow> http_call" where
  "vault_request r mount path =
     \<lparr>hc_method = ''GET'', hc_url = trim_slashes_right (va_addr r) @ ''/v1/'' @ mount @ ''/data/'' @ path,
      hc_headers = [(''X-Vault-Token'', va_token r)], hc_body = []\<rparr>"

definition Vault_Resolve :: "secret_prims \<Rightarrow> vault_resolver \<Rightarrow> string \<Rightarrow> (secret_error, string) result" where
  "Vault_Resolve X r ref =
     (case parseVaultRef ref of
        Inl e \<Rightarrow> Inl e
      | Inr (mount, path, field) \<Rightarrow>
          if trim_slashes_right (va_addr r) = [] then Inl NoAddress
          else if va_token r = [] then Inl NoToken
          else (case sv_http X (vault_request r mount path) of
                  None \<Rightarrow> Inl RequestFailed
                | Some reply \<Rightarrow>
                    if hr_status reply \<noteq> 200 then Inl (BadStatus (hr_status reply))
                    else (case sv_vault X (hr_body reply) of None \<Rightarrow> Inl BadResponse | Some obj \<Rightarrow> string_field obj field)))"

section \<open>AWS\<close>

record aws_resolver =
  aw_region :: string
  aw_key_id :: string
  aw_secret_key :: string
  aw_session_token :: string
  aw_endpoint :: string

definition AWSResolverFromEnv :: "secret_prims \<Rightarrow> aws_resolver" where
  "AWSResolverFromEnv X =
     (let region0 = getenv_of X ''AWS_REGION''; region = (if region0 = [] then getenv_of X ''AWS_DEFAULT_REGION'' else region0)
      in \<lparr>aw_region = region, aw_key_id = getenv_of X ''AWS_ACCESS_KEY_ID'', aw_secret_key = getenv_of X ''AWS_SECRET_ACCESS_KEY'',
          aw_session_token = getenv_of X ''AWS_SESSION_TOKEN'', aw_endpoint = []\<rparr>)"

definition newline :: string where
  "newline = [CHR 0x0A]"

definition signed_headers :: "aws_resolver \<Rightarrow> string list" where
  "signed_headers r =
     sort ([''content-type'', ''host'', ''x-amz-date'', ''x-amz-target''] @ (if aw_session_token r \<noteq> [] then [''x-amz-security-token''] else []))"

text \<open>The value of a canonical header name; header names are compared without case.\<close>

definition header_value :: "string \<Rightarrow> (string \<times> string) list \<Rightarrow> string \<Rightarrow> string" where
  "header_value host headers name =
     (if name = ''host'' then host
      else trim_space (case find (\<lambda>h. to_lower (fst h) = name) headers of Some h \<Rightarrow> snd h | None \<Rightarrow> []))"

definition canonical_headers :: "string \<Rightarrow> (string \<times> string) list \<Rightarrow> string list \<Rightarrow> string" where
  "canonical_headers host headers names = concat (map (\<lambda>h. h @ '':'' @ header_value host headers h @ newline) names)"

definition canonical_request :: "secret_prims \<Rightarrow> aws_resolver \<Rightarrow> http_call \<Rightarrow> string" where
  "canonical_request X r req =
     (let (host, path, query) = sv_url X (hc_url req) in
      str_join [hc_method req, if path = [] then ''/'' else path, query, canonical_headers host (hc_headers req) (signed_headers r),
                str_join (signed_headers r) '';'', sv_sha256hex X (hc_body req)] newline)"

definition credential_scope :: "aws_resolver \<Rightarrow> string \<Rightarrow> string" where
  "credential_scope r dateStamp = str_join [dateStamp, aw_region r, ''secretsmanager'', ''aws4_request''] ''/''"

definition signing_key :: "secret_prims \<Rightarrow> aws_resolver \<Rightarrow> string \<Rightarrow> string" where
  "signing_key X r dateStamp =
     sv_hmac X (sv_hmac X (sv_hmac X (sv_hmac X (''AWS4'' @ aw_secret_key r) dateStamp) (aw_region r)) ''secretsmanager'') ''aws4_request''"

text \<open>\<open>amzDate\<close> and \<open>dateStamp\<close> are the formatted clock.\<close>

definition signV4 :: "secret_prims \<Rightarrow> aws_resolver \<Rightarrow> string \<Rightarrow> string \<Rightarrow> http_call \<Rightarrow> http_call option" where
  "signV4 X r amzDate dateStamp req0 =
     (let req = req0\<lparr>hc_headers := hc_headers req0 @ [(''X-Amz-Date'', amzDate)] @
                  (if aw_session_token r \<noteq> [] then [(''X-Amz-Security-Token'', aw_session_token r)] else [])\<rparr>
      in if fst (sv_url X (hc_url req)) = [] then None
         else
           (let stringToSign = str_join [''AWS4-HMAC-SHA256'', amzDate, credential_scope r dateStamp, sv_sha256hex X (canonical_request X r req)] newline;
                signature = sv_hex X (sv_hmac X (signing_key X r dateStamp) stringToSign)
            in Some (req\<lparr>hc_headers := hc_headers req @ [(''Authorization'', ''AWS4-HMAC-SHA256 Credential='' @ aw_key_id r @ ''/'' @
                 credential_scope r dateStamp @ '', SignedHeaders='' @ str_join (signed_headers r) '';'' @ '', Signature='' @ signature)]\<rparr>)))"

definition aws_request :: "secret_prims \<Rightarrow> aws_resolver \<Rightarrow> string \<Rightarrow> http_call" where
  "aws_request X r secretID =
     \<lparr>hc_method = ''POST'',
      hc_url = (if aw_endpoint r = [] then ''https://secretsmanager.'' @ aw_region r @ ''.amazonaws.com/'' else aw_endpoint r),
      hc_headers = [(''Content-Type'', ''application/x-amz-json-1.1''), (''X-Amz-Target'', ''secretsmanager.GetSecretValue'')],
      hc_body = ''{\"SecretId\":'' @ sv_quote X secretID @ ''}''\<rparr>"

definition AWS_Resolve :: "secret_prims \<Rightarrow> aws_resolver \<Rightarrow> string \<Rightarrow> string \<Rightarrow> string \<Rightarrow> (secret_error, string) result" where
  "AWS_Resolve X r amzDate dateStamp ref =
     (case parseAWSRef ref of
        Inl e \<Rightarrow> Inl e
      | Inr (secretID, jsonKey) \<Rightarrow>
          if aw_region r = [] then Inl NoRegion
          else if aw_key_id r = [] \<or> aw_secret_key r = [] then Inl NoCredentials
          else (case signV4 X r amzDate dateStamp (aws_request X r secretID) of
                  None \<Rightarrow> Inl NoHost
                | Some req \<Rightarrow>
                    (case sv_http X req of
                       None \<Rightarrow> Inl RequestFailed
                     | Some reply \<Rightarrow>
                         if hr_status reply \<noteq> 200 then Inl (BadStatus (hr_status reply))
                         else (case sv_aws X (hr_body reply) of
                                 None \<Rightarrow> Inl BadResponse
                               | Some secret \<Rightarrow>
                                   if secret = [] then Inl NoSecretString
                                   else if jsonKey = [] then Inr secret
                                   else (case sv_object X secret of None \<Rightarrow> Inl NotObject | Some obj \<Rightarrow> string_field obj jsonKey)))))"

section \<open>Google\<close>

record gcp_resolver =
  gc_project :: string
  gc_endpoint :: string
  gc_token :: string
  gc_metadata_base :: string

definition GCPResolverFromEnv :: "secret_prims \<Rightarrow> gcp_resolver" where
  "GCPResolverFromEnv X =
     \<lparr>gc_project = getenv_of X ''GOOGLE_CLOUD_PROJECT'', gc_endpoint = [], gc_token = getenv_of X ''GOOGLE_OAUTH_ACCESS_TOKEN'',
      gc_metadata_base = []\<rparr>"

definition metadataToken :: "secret_prims \<Rightarrow> gcp_resolver \<Rightarrow> (secret_error, string) result" where
  "metadataToken X r =
     (let base = trim_slashes_right (if gc_metadata_base r = [] then ''http://metadata.google.internal'' else gc_metadata_base r);
          req = \<lparr>hc_method = ''GET'', hc_url = base @ ''/computeMetadata/v1/instance/service-accounts/default/token'',
                 hc_headers = [(''Metadata-Flavor'', ''Google'')], hc_body = []\<rparr>
      in case sv_http X req of
           None \<Rightarrow> Inl RequestFailed
         | Some reply \<Rightarrow>
             if hr_status reply \<noteq> 200 then Inl (BadStatus (hr_status reply))
             else (case sv_gcp_token X (hr_body reply) of
                     None \<Rightarrow> Inl BadResponse
                   | Some tok \<Rightarrow> if tok = [] then Inl NoToken else Inr tok))"

definition gcp_token :: "secret_prims \<Rightarrow> gcp_resolver \<Rightarrow> (secret_error, string) result" where
  "gcp_token X r =
     (if gc_token r \<noteq> [] then Inr (gc_token r)
      else if getenv_of X ''GOOGLE_OAUTH_ACCESS_TOKEN'' \<noteq> [] then Inr (getenv_of X ''GOOGLE_OAUTH_ACCESS_TOKEN'')
      else metadataToken X r)"

definition gcp_request :: "gcp_resolver \<Rightarrow> string \<Rightarrow> string \<Rightarrow> http_call" where
  "gcp_request r token name =
     \<lparr>hc_method = ''GET'',
      hc_url = trim_slashes_right (if gc_endpoint r = [] then ''https://secretmanager.googleapis.com'' else gc_endpoint r) @ ''/v1/'' @ name @ '':access'',
      hc_headers = [(''Authorization'', ''Bearer '' @ token)], hc_body = []\<rparr>"

definition GCP_Resolve :: "secret_prims \<Rightarrow> gcp_resolver \<Rightarrow> string \<Rightarrow> (secret_error, string) result" where
  "GCP_Resolve X r ref =
     (case parseGCPRef (gc_project r) ref of
        Inl e \<Rightarrow> Inl e
      | Inr name \<Rightarrow>
          (case gcp_token X r of
             Inl e \<Rightarrow> Inl e
           | Inr token \<Rightarrow>
               (case sv_http X (gcp_request r token name) of
                  None \<Rightarrow> Inl RequestFailed
                | Some reply \<Rightarrow>
                    if hr_status reply \<noteq> 200 then Inl (BadStatus (hr_status reply))
                    else (case sv_gcp X (hr_body reply) of
                            None \<Rightarrow> Inl BadResponse
                          | Some data \<Rightarrow>
                              if data = [] then Inl EmptyPayload
                              else (case sv_b64 X data of
                                      None \<Rightarrow> Inl BadPayload
                                    | Some decoded \<Rightarrow> if decoded = [] then Inl EmptyPayload else Inr decoded)))))"

section \<open>The dispatcher\<close>

type_synonym resolver = "string \<Rightarrow> (secret_error, string) result"

record dispatcher =
  di_env :: "resolver option"
  di_vault :: "resolver option"
  di_aws :: "resolver option"
  di_gcp :: "resolver option"

definition Default_dispatcher :: "secret_prims \<Rightarrow> string \<Rightarrow> string \<Rightarrow> dispatcher" where
  "Default_dispatcher X amzDate dateStamp =
     \<lparr>di_env = Some (EnvResolver_Resolve X), di_vault = Some (Vault_Resolve X (VaultResolverFromEnv X)),
      di_aws = Some (AWS_Resolve X (AWSResolverFromEnv X) amzDate dateStamp), di_gcp = Some (GCP_Resolve X (GCPResolverFromEnv X))\<rparr>"

definition configured :: "string \<Rightarrow> resolver option \<Rightarrow> resolver" where
  "configured name r ref = (case r of None \<Rightarrow> Inl (NotConfigured name) | Some f \<Rightarrow> f ref)"

definition Dispatcher_Resolve :: "dispatcher \<Rightarrow> resolver" where
  "Dispatcher_Resolve d ref =
     (case splitScheme ref of
        None \<Rightarrow> Inl NoScheme
      | Some (scheme, _) \<Rightarrow>
          if scheme = ''env'' then configured ''env'' (di_env d) ref
          else if scheme = ''vault'' then configured ''vault'' (di_vault d) ref
          else if scheme = ''aws'' then configured ''aws'' (di_aws d) ref
          else if scheme = ''gcp'' then configured ''gcp'' (di_gcp d) ref
          else if scheme = ''op'' then Inl NotBuiltIn
          else Inl (UnsupportedScheme scheme))"

section \<open>Properties\<close>

lemma string_field_ok: "string_field obj k = Inr v \<longleftrightarrow> obj k = Some (JString v) \<and> v \<noteq> []"
  by (auto simp: string_field_def split: option.splits json_value.splits)

text \<open>What each resolver relied on when it returned a value.\<close>

lemma EnvResolver_ok:
  assumes "EnvResolver_Resolve X ref = Inr v"
  shows "v \<noteq> [] \<and> (\<exists>name. splitScheme ref = Some (''env'', name) \<and> sv_lookup_env X name = Some v)"
  using assms by (auto simp: EnvResolver_Resolve_def split: option.splits if_splits)

lemma Vault_ok:
  assumes "Vault_Resolve X r ref = Inr v"
  shows "v \<noteq> [] \<and> (\<exists>mount path field reply obj. parseVaultRef ref = Inr (mount, path, field) \<and>
    sv_http X (vault_request r mount path) = Some reply \<and> hr_status reply = 200 \<and> sv_vault X (hr_body reply) = Some obj \<and>
    obj field = Some (JString v))"
  using assms by (auto simp: Vault_Resolve_def string_field_ok split: sum.splits option.splits if_splits)

lemma AWS_ok:
  assumes "AWS_Resolve X r amz ds ref = Inr v"
  shows "v \<noteq> [] \<and> (\<exists>secretID jsonKey req reply secret. parseAWSRef ref = Inr (secretID, jsonKey) \<and>
    signV4 X r amz ds (aws_request X r secretID) = Some req \<and> sv_http X req = Some reply \<and> hr_status reply = 200 \<and>
    sv_aws X (hr_body reply) = Some secret \<and>
    (if jsonKey = [] then v = secret else \<exists>obj. sv_object X secret = Some obj \<and> obj jsonKey = Some (JString v)))"
  using assms by (auto simp: AWS_Resolve_def string_field_ok split: sum.splits option.splits if_splits)

lemma GCP_ok:
  assumes "GCP_Resolve X r ref = Inr v"
  shows "v \<noteq> [] \<and> (\<exists>name token reply data. parseGCPRef (gc_project r) ref = Inr name \<and> gcp_token X r = Inr token \<and>
    sv_http X (gcp_request r token name) = Some reply \<and> hr_status reply = 200 \<and> sv_gcp X (hr_body reply) = Some data \<and>
    sv_b64 X data = Some v)"
  using assms by (auto simp: GCP_Resolve_def split: sum.splits option.splits if_splits)

lemma parseGCPRef_scheme: "parseGCPRef project ref = Inr name \<Longrightarrow> \<exists>rest. splitScheme ref = Some (''gcp'', rest)"
  by (auto simp: parseGCPRef_def split: option.splits if_splits)

lemma Dispatcher_cases:
  assumes "Dispatcher_Resolve (Default_dispatcher X amz ds) ref = Inr v"
  obtains rest where "splitScheme ref = Some (''env'', rest)" "EnvResolver_Resolve X ref = Inr v"
  | rest where "splitScheme ref = Some (''vault'', rest)" "Vault_Resolve X (VaultResolverFromEnv X) ref = Inr v"
  | rest where "splitScheme ref = Some (''aws'', rest)" "AWS_Resolve X (AWSResolverFromEnv X) amz ds ref = Inr v"
  | rest where "splitScheme ref = Some (''gcp'', rest)" "GCP_Resolve X (GCPResolverFromEnv X) ref = Inr v"
  using assms by (auto simp: Dispatcher_Resolve_def Default_dispatcher_def configured_def split: option.splits if_splits)

lemma secrets_nonempty: "Dispatcher_Resolve (Default_dispatcher X amz ds) ref = Inr v \<Longrightarrow> v \<noteq> []"
  by (erule Dispatcher_cases) (auto dest: EnvResolver_ok Vault_ok AWS_ok GCP_ok)

lemma resolveEnv_keeps: "resolveEnv res readFile es acc = Some (env, secs) \<Longrightarrow> set (snd acc) \<subseteq> set secs"
  by (induction es arbitrary: acc) (fastforce simp: Let_def split: if_splits option.splits)+

lemma resolveEnv_declares:
  assumes "resolveEnv res readFile es acc = Some (env, secs)" "e \<in> set es" "ev_op e \<noteq> []" "\<And>ref v. res ref = Some v \<Longrightarrow> v \<noteq> []"
  shows "\<exists>v. res (ev_op e) = Some v \<and> v \<in> set secs"
  using assms(1,2)
proof (induction es arbitrary: acc)
  case (Cons x es)
  show ?case
  proof (cases "x = e")
    case True
    then obtain v where v: "res (ev_op e) = Some v" and
      rest: "resolveEnv res readFile es ((fst acc)(ev_name e \<mapsto> v), if Secret e \<and> v \<noteq> [] then snd acc @ [v] else snd acc) = Some (env, secs)"
      using Cons.prems(1) assms(3) by (auto simp: Let_def split: option.splits)
    moreover have "Secret e" using assms(3) by (simp add: Secret_def)
    ultimately show ?thesis using resolveEnv_keeps [OF rest] assms(4) [OF v] by auto
  next
    case False
    with Cons show ?thesis by (auto simp: Let_def split: if_splits option.splits)
  qed
qed simp

text \<open>
  C30. Secret resolution fails closed: whatever the environment and the secret stores answer, a reference
  resolves only to a non-empty value, and only to the one its backend delivered for it: the named
  variable, the named field of a Vault answer with status 200, the secret string of a signed AWS
  request or the string under the requested key in it, or the decoded payload of a Google secret
  version. A reference of any other scheme is an error.
\<close>

theorem secrets_fail_closed:
  assumes "Dispatcher_Resolve (Default_dispatcher X amz ds) ref = Inr v"
  shows "v \<noteq> [] \<and> (\<exists>scheme rest. splitScheme ref = Some (scheme, rest) \<and>
    (scheme = ''env'' \<and> sv_lookup_env X rest = Some v \<or>
     scheme = ''vault'' \<and> (\<exists>mount path field reply obj. parseVaultRef ref = Inr (mount, path, field) \<and>
       sv_http X (vault_request (VaultResolverFromEnv X) mount path) = Some reply \<and> hr_status reply = 200 \<and>
       sv_vault X (hr_body reply) = Some obj \<and> obj field = Some (JString v)) \<or>
     scheme = ''aws'' \<and> (\<exists>secretID jsonKey req reply secret. parseAWSRef ref = Inr (secretID, jsonKey) \<and>
       signV4 X (AWSResolverFromEnv X) amz ds (aws_request X (AWSResolverFromEnv X) secretID) = Some req \<and>
       sv_http X req = Some reply \<and> hr_status reply = 200 \<and> sv_aws X (hr_body reply) = Some secret \<and>
       (if jsonKey = [] then v = secret else \<exists>obj. sv_object X secret = Some obj \<and> obj jsonKey = Some (JString v))) \<or>
     scheme = ''gcp'' \<and> (\<exists>name token reply data. parseGCPRef (gc_project (GCPResolverFromEnv X)) ref = Inr name \<and>
       gcp_token X (GCPResolverFromEnv X) = Inr token \<and> sv_http X (gcp_request (GCPResolverFromEnv X) token name) = Some reply \<and>
       hr_status reply = 200 \<and> sv_gcp X (hr_body reply) = Some data \<and> sv_b64 X data = Some v)))"
  using assms
proof (cases rule: Dispatcher_cases)
  case (1 rest)
  with EnvResolver_ok [OF 1(2)] show ?thesis by simp
next
  case (2 rest)
  with Vault_ok [OF 2(2)] show ?thesis by simp
next
  case (3 rest)
  with AWS_ok [OF 3(2)] show ?thesis by simp
next
  case (4 rest)
  with GCP_ok [OF 4(2)] show ?thesis by simp
qed

text \<open>A Vault server with one secret.\<close>

definition secrets0 :: secret_prims where
  "secrets0 = \<lparr>sv_http = (\<lambda>req. if hc_url req = ''https://v/v1/kv/data/db'' \<and> hc_headers req = [(''X-Vault-Token'', ''t'')]
       then Some \<lparr>hr_status = 200, hr_body = ''b''\<rparr> else None),
     sv_vault = (\<lambda>_. Some [''pw'' \<mapsto> JString ''hunter2'']), sv_aws = (\<lambda>_. None), sv_object = (\<lambda>_. None), sv_gcp = (\<lambda>_. None),
     sv_gcp_token = (\<lambda>_. None), sv_b64 = (\<lambda>_. None), sv_quote = (\<lambda>s. s), sv_url = (\<lambda>_. ([], [], [])),
     sv_lookup_env = [''VAULT_ADDR'' \<mapsto> ''https://v/'', ''VAULT_TOKEN'' \<mapsto> ''t''], sv_hmac = (\<lambda>_ d. d), sv_sha256hex = (\<lambda>d. d), sv_hex = (\<lambda>d. d)\<rparr>"

lemma resolve_secrets0: "Dispatcher_Resolve (Default_dispatcher secrets0 [] []) ''vault://kv/db#pw'' = Inr ''hunter2''"
  by code_simp

theorem secrets_fail_closed_witness:
  "Dispatcher_Resolve (Default_dispatcher secrets0 [] []) ''vault://kv/db#pw'' = Inr ''hunter2'' \<and> ''hunter2'' \<noteq> [] \<and>
   (\<exists>scheme rest. splitScheme ''vault://kv/db#pw'' = Some (scheme, rest))"
  using secrets_fail_closed [OF resolve_secrets0] resolve_secrets0 by blast

text \<open>
  A sandbox never starts with a secret it will not scrub: when the environment of a profile resolves
  through the default dispatcher, every entry with a secret reference got a non-empty value, and that
  value is among the declared secrets of the session, which the governed path removes from output.
\<close>

theorem referenced_secrets_are_declared:
  assumes "resolveEnv (\<lambda>ref. case Dispatcher_Resolve (Default_dispatcher X amz ds) ref of Inr v \<Rightarrow> Some v | Inl _ \<Rightarrow> None)
      readFile entries (Map.empty, []) = Some (env, declared)"
    and "e \<in> set entries" "ev_op e \<noteq> []"
  shows "\<exists>v. Dispatcher_Resolve (Default_dispatcher X amz ds) (ev_op e) = Inr v \<and> v \<noteq> [] \<and> v \<in> set declared"
proof -
  define res where "res = (\<lambda>ref. case Dispatcher_Resolve (Default_dispatcher X amz ds) ref of Inr v \<Rightarrow> Some v | Inl _ \<Rightarrow> None)"
  have nonempty: "res ref = Some v \<Longrightarrow> v \<noteq> []" for ref v
    using secrets_nonempty by (auto simp: res_def split: sum.splits)
  have "\<exists>v. res (ev_op e) = Some v \<and> v \<in> set declared"
    using assms(1) [folded res_def] assms(2,3) nonempty by (rule resolveEnv_declares)
  then show ?thesis using nonempty by (fastforce simp: res_def split: sum.splits)
qed

theorem referenced_secrets_are_declared_witness:
  "\<exists>env v. resolveEnv (\<lambda>ref. case Dispatcher_Resolve (Default_dispatcher secrets0 [] []) ref of Inr v \<Rightarrow> Some v | Inl _ \<Rightarrow> None) (\<lambda>_. None)
     [\<lparr>ev_name = ''PW'', ev_value = [], ev_file = [], ev_op = ''vault://kv/db#pw'', ev_secret_flag = False\<rparr>] (Map.empty, []) = Some (env, [''hunter2'']) \<and>
   v \<noteq> [] \<and> v \<in> set [''hunter2'']"
proof -
  let ?e = "\<lparr>ev_name = ''PW'', ev_value = [], ev_file = [], ev_op = ''vault://kv/db#pw'', ev_secret_flag = False\<rparr>"
  let ?res = "\<lambda>ref. case Dispatcher_Resolve (Default_dispatcher secrets0 [] []) ref of Inr v \<Rightarrow> Some v | Inl _ \<Rightarrow> None"
  have r: "resolveEnv ?res (\<lambda>_. None) [?e] (Map.empty, []) = Some ([''PW'' \<mapsto> ''hunter2''], [''hunter2''])"
    by (simp add: resolve_secrets0 Secret_def)
  from referenced_secrets_are_declared [OF r, of ?e] show ?thesis using r by auto
qed

text \<open>Every well-formed Vault reference is read back as its parts.\<close>

lemma str_index_first: "x \<noteq> [] \<Longrightarrow> CHR '':'' \<notin> set s \<Longrightarrow> str_index (s @ ''://'' @ x) ''://'' = Some (length s)"
  by (induction s) auto

lemma vault_ref_roundtrip:
  assumes "mount \<noteq> []" "CHR ''/'' \<notin> set mount" "path \<noteq> []" "hd path \<noteq> CHR ''/''" "last path \<noteq> CHR ''/''"
    and "field \<noteq> []" "CHR ''#'' \<notin> set field"
  shows "parseVaultRef (''vault://'' @ mount @ ''/'' @ path @ ''#'' @ field) = Inr (mount, path, field)"
proof -
  have "str_index (''vault'' @ ''://'' @ (mount @ ''/'' @ path @ ''#'' @ field)) ''://'' = Some (length ''vault'')"
    by (rule str_index_first) auto
  moreover have "to_lower ''vault'' = ''vault''" by code_simp
  ultimately have split: "splitScheme (''vault://'' @ mount @ ''/'' @ path @ ''#'' @ field) = Some (''vault'', mount @ ''/'' @ path @ ''#'' @ field)"
    by (simp add: splitScheme_def)
  have hash: "last_index_byte (mount @ ''/'' @ path @ ''#'' @ field) CHR ''#'' = Some (length (mount @ ''/'' @ path))"
    using last_index_byte_last [OF assms(7), of "mount @ ''/'' @ path"] by simp
  have cut: "cut_prefix (mount @ ''/'' @ path) ''/'' = None"
    using assms(1,2) by (cases mount) (auto simp: cut_prefix_def)
  have idx: "index_byte (mount @ ''/'' @ path) CHR ''/'' = Some (length mount)"
    using assms(2) by (induction mount) (auto simp: index_byte_def)
  have "trim_slashes path = path"
    using assms(3-5) by (cases path rule: rev_cases) (auto simp: trim_slashes_def trim_slashes_right_def neq_Nil_conv hd_append split: if_splits)
  then show ?thesis unfolding parseVaultRef_def split using hash cut idx assms(1,3,6) by simp
qed

text \<open>
  The linter compares the scheme of a reference as it is written, the dispatcher without case, so a
  reference that the linter rejects as not built in resolves.
\<close>

lemma upper_case_scheme_resolves:
  "Dispatcher_Resolve (Default_dispatcher secrets0 [] []) ''VAULT://kv/db#pw'' = Inr ''hunter2''"
  by code_simp

end
