(* ===== verification/Packet_Filter.thy ===== *)
theory Packet_Filter
  imports Egress_Policy
begin

text \<open>
  The packet filter of strict egress (\<^verbatim>\<open>internal/egress/iptables_linux.go\<close>) and the start of the sidecar
  (\<^verbatim>\<open>cmd/runeward-egress/main.go\<close>). The programs \<^verbatim>\<open>iptables\<close> and \<^verbatim>\<open>ip6tables\<close> are a parameter that executes an
  argument vector on the state of the kernel; \<open>iptables_ok\<close> says what a successful command does to the
  chains, as their manual has it, and \<open>nf_output\<close> how the kernel takes an outgoing packet through the
  tables. The commands are translated from the source as argument vectors.
\<close>

section \<open>The commands\<close>

text \<open>\<open>parseIP\<close> is \<^verbatim>\<open>net.ParseIP\<close>; \<open>getenv\<close> is \<^verbatim>\<open>os.Getenv\<close>.\<close>

definition parseDNSResolvers :: "(string \<Rightarrow> string) \<Rightarrow> (string \<Rightarrow> 'ip option) \<Rightarrow> string list" where
  "parseDNSResolvers getenv parseIP =
     (let raw = trim_space (getenv ''RUNEWARD_DNS_RESOLVERS'') in
      if raw = [] then []
      else filter (\<lambda>f. f \<noteq> [] \<and> parseIP f \<noteq> None) (map trim_space (split_byte CHR '','' raw)))"

definition nat_steps :: "string \<Rightarrow> string \<Rightarrow> string list list" where
  "nat_steps uid port =
     [[''-t'', ''nat'', ''-N'', ''RUNEWARD_OUT''],
      [''-t'', ''nat'', ''-A'', ''RUNEWARD_OUT'', ''-m'', ''owner'', ''--uid-owner'', uid, ''-j'', ''RETURN''],
      [''-t'', ''nat'', ''-A'', ''RUNEWARD_OUT'', ''-o'', ''lo'', ''-j'', ''RETURN''],
      [''-t'', ''nat'', ''-A'', ''RUNEWARD_OUT'', ''-p'', ''udp'', ''--dport'', ''53'', ''-j'', ''RETURN''],
      [''-t'', ''nat'', ''-A'', ''RUNEWARD_OUT'', ''-p'', ''tcp'', ''--dport'', ''53'', ''-j'', ''RETURN''],
      [''-t'', ''nat'', ''-A'', ''RUNEWARD_OUT'', ''-p'', ''tcp'', ''-j'', ''REDIRECT'', ''--to-ports'', port],
      [''-t'', ''nat'', ''-A'', ''OUTPUT'', ''-p'', ''tcp'', ''-j'', ''RUNEWARD_OUT'']]"

definition udp_steps :: "string \<Rightarrow> string list \<Rightarrow> string list list" where
  "udp_steps uid resolvers =
     [[''-t'', ''filter'', ''-N'', ''RUNEWARD_UDP''],
      [''-t'', ''filter'', ''-A'', ''RUNEWARD_UDP'', ''-m'', ''owner'', ''--uid-owner'', uid, ''-j'', ''RETURN''],
      [''-t'', ''filter'', ''-A'', ''RUNEWARD_UDP'', ''-o'', ''lo'', ''-j'', ''RETURN'']] @
     (if resolvers \<noteq> []
      then map (\<lambda>ip. [''-t'', ''filter'', ''-A'', ''RUNEWARD_UDP'', ''-p'', ''udp'', ''-d'', ip, ''--dport'', ''53'', ''-j'', ''RETURN'']) resolvers
      else [[''-t'', ''filter'', ''-A'', ''RUNEWARD_UDP'', ''-p'', ''udp'', ''--dport'', ''53'', ''-j'', ''RETURN'']]) @
     [[''-t'', ''filter'', ''-A'', ''RUNEWARD_UDP'', ''-p'', ''udp'', ''-j'', ''DROP''],
      [''-t'', ''filter'', ''-A'', ''OUTPUT'', ''-p'', ''udp'', ''-j'', ''RUNEWARD_UDP'']]"

definition dns_tcp_steps :: "string \<Rightarrow> string list \<Rightarrow> string list list" where
  "dns_tcp_steps uid resolvers =
     (if resolvers = [] then []
      else
        [[''-t'', ''filter'', ''-N'', ''RUNEWARD_DNST''],
         [''-t'', ''filter'', ''-A'', ''RUNEWARD_DNST'', ''-m'', ''owner'', ''--uid-owner'', uid, ''-j'', ''RETURN''],
         [''-t'', ''filter'', ''-A'', ''RUNEWARD_DNST'', ''-o'', ''lo'', ''-j'', ''RETURN'']] @
        map (\<lambda>ip. [''-t'', ''filter'', ''-A'', ''RUNEWARD_DNST'', ''-p'', ''tcp'', ''-d'', ip, ''--dport'', ''53'', ''-j'', ''RETURN'']) resolvers @
        [[''-t'', ''filter'', ''-A'', ''RUNEWARD_DNST'', ''-p'', ''tcp'', ''--dport'', ''53'', ''-j'', ''DROP''],
         [''-t'', ''filter'', ''-A'', ''OUTPUT'', ''-p'', ''tcp'', ''--dport'', ''53'', ''-j'', ''RUNEWARD_DNST'']])"

definition flush_steps :: "string list list" where
  "flush_steps =
     [[''-t'', ''nat'', ''-D'', ''OUTPUT'', ''-p'', ''tcp'', ''-j'', ''RUNEWARD_OUT''],
      [''-t'', ''nat'', ''-F'', ''RUNEWARD_OUT''],
      [''-t'', ''nat'', ''-X'', ''RUNEWARD_OUT''],
      [''-t'', ''filter'', ''-D'', ''OUTPUT'', ''-p'', ''udp'', ''-j'', ''RUNEWARD_UDP''],
      [''-t'', ''filter'', ''-F'', ''RUNEWARD_UDP''],
      [''-t'', ''filter'', ''-X'', ''RUNEWARD_UDP''],
      [''-t'', ''filter'', ''-D'', ''OUTPUT'', ''-p'', ''tcp'', ''--dport'', ''53'', ''-j'', ''RUNEWARD_DNST''],
      [''-t'', ''filter'', ''-F'', ''RUNEWARD_DNST''],
      [''-t'', ''filter'', ''-X'', ''RUNEWARD_DNST'']]"

text \<open>Two ways to run a list of commands: whatever each returns, and up to the first failure.\<close>

type_synonym 'k runner = "string \<Rightarrow> string list \<Rightarrow> 'k \<Rightarrow> bool \<times> 'k"

fun run_all :: "'k runner \<Rightarrow> string \<Rightarrow> string list list \<Rightarrow> 'k \<Rightarrow> 'k" where
  "run_all run prog [] k = k"
| "run_all run prog (args # rest) k = run_all run prog rest (snd (run prog args k))"

fun run_until :: "'k runner \<Rightarrow> string \<Rightarrow> string list list \<Rightarrow> 'k \<Rightarrow> string list option \<times> 'k" where
  "run_until run prog [] k = (None, k)"
| "run_until run prog (args # rest) k =
     (let (ok, k') = run prog args k in if ok then run_until run prog rest k' else (Some args, k'))"

definition ipv6_steps :: "string list list" where
  "ipv6_steps =
     [[''-N'', ''RUNEWARD_OUT6''],
      [''-A'', ''RUNEWARD_OUT6'', ''-o'', ''lo'', ''-j'', ''RETURN''],
      [''-A'', ''RUNEWARD_OUT6'', ''-p'', ''udp'', ''--dport'', ''53'', ''-j'', ''RETURN''],
      [''-A'', ''RUNEWARD_OUT6'', ''-p'', ''tcp'', ''--dport'', ''53'', ''-j'', ''RETURN''],
      [''-A'', ''RUNEWARD_OUT6'', ''-j'', ''DROP''],
      [''-A'', ''OUTPUT'', ''-j'', ''RUNEWARD_OUT6'']]"

definition setupDropIPv6 :: "'k runner \<Rightarrow> 'k \<Rightarrow> 'k" where
  "setupDropIPv6 run k =
     run_all run ''ip6tables'' ipv6_steps
       (run_all run ''ip6tables'' [[''-D'', ''OUTPUT'', ''-j'', ''RUNEWARD_OUT6''], [''-F'', ''RUNEWARD_OUT6''], [''-X'', ''RUNEWARD_OUT6'']] k)"

text \<open>The result is the command that failed, if one did.\<close>

definition SetupRedirect ::
  "'k runner \<Rightarrow> (string \<Rightarrow> string) \<Rightarrow> (string \<Rightarrow> 'ip option) \<Rightarrow> nat \<Rightarrow> nat \<Rightarrow> 'k \<Rightarrow> string list option \<times> 'k" where
  "SetupRedirect run getenv parseIP proxyUID redirectPort k =
     (let uid = show_nat proxyUID; port = show_nat redirectPort; resolvers = parseDNSResolvers getenv parseIP;
          steps = nat_steps uid port @ udp_steps uid resolvers @ dns_tcp_steps uid resolvers
      in case run_until run ''iptables'' steps (run_all run ''iptables'' flush_steps k) of
           (Some args, k') \<Rightarrow> (Some args, k')
         | (None, k') \<Rightarrow> (None, setupDropIPv6 run k'))"

section \<open>The start of the sidecar\<close>

record egress_flags =
  ef_policy :: string
  ef_transparent :: bool
  ef_redirect_port :: nat
  ef_setup_iptables :: bool
  ef_proxy_uid :: nat

datatype egress_log =
    LogSetupFailed | LogInstalled nat nat | LogPrivilegesFailed | LogDroppedTo nat | LogPolicyFailed
  | LogListening nat | LogServeFailed | LogForward

text \<open>\<open>readFile\<close> is \<^verbatim>\<open>os.ReadFile\<close>, \<open>decode\<close> is \<^verbatim>\<open>json.Unmarshal\<close>.\<close>

definition loadPolicy ::
  "(string \<Rightarrow> string) \<Rightarrow> (string \<Rightarrow> string option) \<Rightarrow> (string \<Rightarrow> egress_policy option) \<Rightarrow> string \<Rightarrow> egress_policy option" where
  "loadPolicy getenv readFile decode path =
     (if path \<noteq> [] then LoadPolicy readFile decode path
      else if getenv ''RUNEWARD_EGRESS_POLICY'' \<noteq> [] then decode (getenv ''RUNEWARD_EGRESS_POLICY'')
      else Some \<lparr>ep_default = ''deny'', ep_rules = []\<rparr>)"

text \<open>The part of \<^verbatim>\<open>main\<close> up to serving: the log it writes, and the state of the kernel. \<open>setuid\<close> tells whether
  dropping privileges succeeds, \<open>serves\<close> whether the listener can be opened; the forward proxy is started
  when the flag for the transparent one is off.\<close>

definition egress_main ::
  "'k runner \<Rightarrow> (string \<Rightarrow> string) \<Rightarrow> (string \<Rightarrow> 'ip option) \<Rightarrow> (nat \<Rightarrow> bool) \<Rightarrow> (string \<Rightarrow> string option) \<Rightarrow> (string \<Rightarrow> egress_policy option) \<Rightarrow>
   bool \<Rightarrow> egress_flags \<Rightarrow> 'k \<Rightarrow> egress_log list \<times> 'k" where
  "egress_main run getenv parseIP setuid readFile decode serves f k =
     (let serve = (\<lambda>logs k1.
            case loadPolicy getenv readFile decode (ef_policy f) of
              None \<Rightarrow> (logs @ [LogPolicyFailed], k1)
            | Some pol \<Rightarrow>
                if ef_transparent f
                then (logs @ [LogListening (ef_redirect_port f)] @ (if serves then [] else [LogServeFailed]), k1)
                else (logs @ [LogForward], k1))
      in if \<not> ef_setup_iptables f then serve [] k
         else (case SetupRedirect run getenv parseIP (ef_proxy_uid f) (ef_redirect_port f) k of
                 (Some _, k1) \<Rightarrow> ([LogSetupFailed], k1)
               | (None, k1) \<Rightarrow>
                   (let installed = [LogInstalled (ef_proxy_uid f) (ef_redirect_port f)] in
                    if \<not> ef_transparent f then (installed, k1)
                    else if \<not> setuid (ef_proxy_uid f) then (installed @ [LogPrivilegesFailed], k1)
                    else serve (installed @ [LogDroppedTo (ef_proxy_uid f)]) k1)))"

section \<open>What the kernel does\<close>

datatype nf_match = MUid string | MOutLo | MProto string | MDport string | MDst string

datatype nf_target = TReturn | TDrop | TRedirect string | TJump string

type_synonym nf_rule = "nf_match list \<times> nf_target"

text \<open>The chains of a table, for each of the two programs.\<close>

type_synonym nf_chains = "string \<Rightarrow> string \<Rightarrow> string \<rightharpoonup> nf_rule list"

fun parse_rule :: "string list \<Rightarrow> nf_rule option" where
  "parse_rule (o1 # v # rest) =
     (if o1 = ''-m'' \<and> v = ''owner'' then parse_rule rest
      else if o1 = ''--uid-owner'' then map_option (apfst ((#) (MUid v))) (parse_rule rest)
      else if o1 = ''-o'' \<and> v = ''lo'' then map_option (apfst ((#) MOutLo)) (parse_rule rest)
      else if o1 = ''-p'' then map_option (apfst ((#) (MProto v))) (parse_rule rest)
      else if o1 = ''-d'' then map_option (apfst ((#) (MDst v))) (parse_rule rest)
      else if o1 = ''--dport'' then map_option (apfst ((#) (MDport v))) (parse_rule rest)
      else if o1 = ''-j'' \<and> rest = [] then Some ([], if v = ''RETURN'' then TReturn else if v = ''DROP'' then TDrop else TJump v)
      else if o1 = ''-j'' \<and> v = ''REDIRECT'' then
        (case rest of [a, port] \<Rightarrow> if a = ''--to-ports'' then Some ([], TRedirect port) else None | _ \<Rightarrow> None)
      else None)"
| "parse_rule _ = None"

text \<open>What a successful command does to the chains of one table: create, delete, empty, append, remove.\<close>

definition chain_effect :: "string list \<Rightarrow> (string \<rightharpoonup> nf_rule list) \<Rightarrow> (string \<rightharpoonup> nf_rule list)" where
  "chain_effect args cs =
     (case args of
        verb # c # opts \<Rightarrow>
          if verb = ''-N'' then cs(c \<mapsto> [])
          else if verb = ''-X'' then cs(c := None)
          else if verb = ''-F'' then cs(c \<mapsto> [])
          else (case (parse_rule opts, cs c) of
                  (Some r, Some rs) \<Rightarrow> if verb = ''-A'' then cs(c \<mapsto> rs @ [r]) else if verb = ''-D'' then cs(c \<mapsto> remove1 r rs) else cs
                | _ \<Rightarrow> cs)
      | _ \<Rightarrow> cs)"

text \<open>Without \<^verbatim>\<open>-t\<close> the table is \<^verbatim>\<open>filter\<close>.\<close>

definition table_effect :: "string list \<Rightarrow> (string \<Rightarrow> string \<rightharpoonup> nf_rule list) \<Rightarrow> (string \<Rightarrow> string \<rightharpoonup> nf_rule list)" where
  "table_effect args ts =
     (case args of
        o1 # t # rest \<Rightarrow> if o1 = ''-t'' then ts(t := chain_effect rest (ts t)) else ts(''filter'' := chain_effect args (ts ''filter''))
      | _ \<Rightarrow> ts)"

definition iptables_ok :: "'k runner \<Rightarrow> ('k \<Rightarrow> nf_chains) \<Rightarrow> bool" where
  "iptables_ok run view \<longleftrightarrow>
     (\<forall>prog args k ok k'. run prog args k = (ok, k') \<longrightarrow>
        view k' = (if ok then (view k)(prog := table_effect args (view k prog)) else view k))"

record 'ip packet =
  pk_uid :: nat
  pk_lo :: bool
  pk_proto :: string
  pk_dport :: nat
  pk_dst :: 'ip

fun nf_matches :: "(string \<Rightarrow> 'ip option) \<Rightarrow> 'ip packet \<Rightarrow> nf_match \<Rightarrow> bool" where
  "nf_matches parseIP p (MUid u) \<longleftrightarrow> show_nat (pk_uid p) = u"
| "nf_matches parseIP p MOutLo \<longleftrightarrow> pk_lo p"
| "nf_matches parseIP p (MProto x) \<longleftrightarrow> pk_proto p = x"
| "nf_matches parseIP p (MDport x) \<longleftrightarrow> show_nat (pk_dport p) = x"
| "nf_matches parseIP p (MDst x) \<longleftrightarrow> parseIP x = Some (pk_dst p)"

datatype nf_verdict = NfAccept | NfDrop | NfRedirect string

text \<open>A list of rules decides, or falls through to the calling chain; \<open>depth\<close> bounds nested jumps.\<close>

fun nf_rules :: "(string \<Rightarrow> 'ip option) \<Rightarrow> (string \<rightharpoonup> nf_rule list) \<Rightarrow> 'ip packet \<Rightarrow> nat \<Rightarrow> nf_rule list \<Rightarrow> nf_verdict option" where
  "nf_rules parseIP cs p depth [] = None"
| "nf_rules parseIP cs p depth ((ms, t) # rs) =
     (if \<not> list_all (nf_matches parseIP p) ms then nf_rules parseIP cs p depth rs
      else (case t of
              TReturn \<Rightarrow> None
            | TDrop \<Rightarrow> Some NfDrop
            | TRedirect port \<Rightarrow> Some (NfRedirect port)
            | TJump c \<Rightarrow>
                (case depth of
                   0 \<Rightarrow> Some NfDrop
                 | Suc d \<Rightarrow>
                     (case (case cs c of None \<Rightarrow> None | Some body \<Rightarrow> nf_rules parseIP cs p d body) of
                        Some v \<Rightarrow> Some v
                      | None \<Rightarrow> nf_rules parseIP cs p depth rs))))"

definition nf_chain :: "(string \<Rightarrow> 'ip option) \<Rightarrow> (string \<rightharpoonup> nf_rule list) \<Rightarrow> 'ip packet \<Rightarrow> nf_verdict" where
  "nf_chain parseIP cs p =
     (case cs ''OUTPUT'' of
        None \<Rightarrow> NfAccept
      | Some rs \<Rightarrow> (case nf_rules parseIP cs p 16 rs of Some v \<Rightarrow> v | None \<Rightarrow> NfAccept))"

datatype fate = Passed | Dropped | ToLocalPort string

text \<open>An outgoing packet goes through the \<^verbatim>\<open>OUTPUT\<close> chain of the table \<^verbatim>\<open>nat\<close>, which may turn it to a local port,
  and then through that of the table \<^verbatim>\<open>filter\<close>..\<close>

definition nf_output :: "(string \<Rightarrow> 'ip option) \<Rightarrow> (string \<Rightarrow> string \<rightharpoonup> nf_rule list) \<Rightarrow> 'ip packet \<Rightarrow> fate" where
  "nf_output parseIP ts p =
     (case nf_chain parseIP (ts ''nat'') p of
        NfDrop \<Rightarrow> Dropped
      | NfRedirect port \<Rightarrow>
          (if nf_chain parseIP (ts ''filter'') (p\<lparr>pk_lo := True, pk_dport := read_nat 0 port\<rparr>) = NfDrop then Dropped else ToLocalPort port)
      | NfAccept \<Rightarrow> (if nf_chain parseIP (ts ''filter'') p = NfDrop then Dropped else Passed))"

section \<open>The chains after the set-up\<close>

lemma run_chains:
  assumes "iptables_ok run view" "run prog args k = (ok, k')"
  shows "view k' = (if ok then (view k)(prog := table_effect args (view k prog)) else view k)"
  using assms unfolding iptables_ok_def by blast

lemma run_until_chains:
  assumes "iptables_ok run view" "run_until run prog steps k = (None, k')"
  shows "view k' = (view k)(prog := fold table_effect steps (view k prog))"
  using assms(2)
proof (induction steps arbitrary: k)
  case (Cons args steps)
  obtain ok k1 where k1: "run prog args k = (ok, k1)" by fastforce
  with Cons.prems have ok: "ok" "run_until run prog steps k1 = (None, k')" by (auto split: if_splits)
  from Cons.IH [OF ok(2)] run_chains [OF assms(1) k1] ok(1) show ?case by (simp add: fun_eq_iff)
qed simp

lemma run_all_other:
  assumes "iptables_ok run view" "prog' \<noteq> prog"
  shows "view (run_all run prog steps k) prog' = view k prog'"
proof (induction steps arbitrary: k)
  case (Cons args steps)
  obtain ok k1 where k1: "run prog args k = (ok, k1)" by fastforce
  show ?case using Cons.IH [of k1] run_chains [OF assms(1) k1] assms(2) k1 by simp
qed simp

lemma run_all_keeps:
  assumes "iptables_ok run view" "\<And>args ts. args \<in> set steps \<Longrightarrow> P ts \<Longrightarrow> P (table_effect args ts)" "P (view k prog)"
  shows "P (view (run_all run prog steps k) prog)"
  using assms(2,3)
proof (induction steps arbitrary: k)
  case (Cons args steps)
  obtain ok k1 where k1: "run prog args k = (ok, k1)" by fastforce
  have "P (view k1 prog)" using run_chains [OF assms(1) k1] Cons.prems by simp
  then show ?case using Cons.IH [of k1] Cons.prems(1) k1 by simp
qed simp

lemma run_all_succeeds:
  assumes "iptables_ok run view" "\<forall>args \<in> set steps. \<forall>k. fst (run prog args k)"
  shows "view (run_all run prog steps k) = (view k)(prog := fold table_effect steps (view k prog))"
  using assms(2)
proof (induction steps arbitrary: k)
  case (Cons args steps)
  obtain ok k1 where k1: "run prog args k = (ok, k1)" by fastforce
  with Cons.prems have "ok" by (metis fst_conv list.set_intros(1))
  then show ?case using Cons.IH [of k1] Cons.prems run_chains [OF assms(1) k1] k1 by (simp add: fun_eq_iff)
qed simp

text \<open>The built-in chains of a network namespace without rules.\<close>

definition fresh_output :: "(string \<Rightarrow> string \<rightharpoonup> nf_rule list) \<Rightarrow> bool" where
  "fresh_output ts \<longleftrightarrow> ts ''nat'' ''OUTPUT'' = Some [] \<and> ts ''filter'' ''OUTPUT'' = Some []"

lemma flush_fresh: "args \<in> set flush_steps \<Longrightarrow> fresh_output ts \<Longrightarrow> fresh_output (table_effect args ts)"
  by (auto simp: flush_steps_def fresh_output_def table_effect_def chain_effect_def)

text \<open>Appending a list of rules to a chain.\<close>

lemma fold_appends:
  assumes "ts t c = Some rs" "\<forall>opts \<in> set optss. parse_rule opts \<noteq> None"
  shows "fold table_effect (map (\<lambda>opts. ''-t'' # t # ''-A'' # c # opts) optss) ts = ts(t := (ts t)(c \<mapsto> rs @ map (the \<circ> parse_rule) optss))"
  using assms
proof (induction optss arbitrary: ts rs)
  case Nil
  then show ?case by (auto simp: fun_eq_iff)
next
  case (Cons opts optss)
  then obtain r where r: "parse_rule opts = Some r" by auto
  let ?ts = "ts(t := (ts t)(c \<mapsto> rs @ [r]))"
  have step: "table_effect (''-t'' # t # ''-A'' # c # opts) ts = ?ts" using Cons.prems(1) r by (simp add: table_effect_def chain_effect_def)
  have "fold table_effect (map (\<lambda>opts. ''-t'' # t # ''-A'' # c # opts) (opts # optss)) ts =
      fold table_effect (map (\<lambda>opts. ''-t'' # t # ''-A'' # c # opts) optss) ?ts" by (simp add: step)
  also have "\<dots> = ?ts(t := (?ts t)(c \<mapsto> (rs @ [r]) @ map (the \<circ> parse_rule) optss))"
    using Cons.prems(2) by (intro Cons.IH) auto
  also have "\<dots> = ts(t := (ts t)(c \<mapsto> rs @ map (the \<circ> parse_rule) (opts # optss)))" using r by simp
  finally show ?case .
qed

lemma fold_chain:
  assumes "\<forall>opts \<in> set optss. parse_rule opts \<noteq> None"
  shows "fold table_effect ([''-t'', t, ''-N'', c] # map (\<lambda>opts. ''-t'' # t # ''-A'' # c # opts) optss) ts =
    ts(t := (ts t)(c \<mapsto> map (the \<circ> parse_rule) optss))"
  using fold_appends [of "table_effect [''-t'', t, ''-N'', c] ts" t c "[]" optss] assms
  by (simp add: table_effect_def chain_effect_def)

definition nat_rules :: "string \<Rightarrow> string \<Rightarrow> nf_rule list" where
  "nat_rules uid port =
     [([MUid uid], TReturn), ([MOutLo], TReturn), ([MProto ''udp'', MDport ''53''], TReturn), ([MProto ''tcp'', MDport ''53''], TReturn),
      ([MProto ''tcp''], TRedirect port)]"

definition udp_rules :: "string \<Rightarrow> string list \<Rightarrow> nf_rule list" where
  "udp_rules uid resolvers =
     [([MUid uid], TReturn), ([MOutLo], TReturn)] @
     (if resolvers \<noteq> [] then map (\<lambda>ip. ([MProto ''udp'', MDst ip, MDport ''53''], TReturn)) resolvers
      else [([MProto ''udp'', MDport ''53''], TReturn)]) @ [([MProto ''udp''], TDrop)]"

definition dns_rules :: "string \<Rightarrow> string list \<Rightarrow> nf_rule list" where
  "dns_rules uid resolvers =
     [([MUid uid], TReturn), ([MOutLo], TReturn)] @ map (\<lambda>ip. ([MProto ''tcp'', MDst ip, MDport ''53''], TReturn)) resolvers @
     [([MProto ''tcp'', MDport ''53''], TDrop)]"

lemma nat_effect:
  assumes "ts ''nat'' ''OUTPUT'' = Some []"
  shows "fold table_effect (nat_steps uid port) ts =
    ts(''nat'' := (ts ''nat'')(''RUNEWARD_OUT'' \<mapsto> nat_rules uid port, ''OUTPUT'' \<mapsto> [([MProto ''tcp''], TJump ''RUNEWARD_OUT'')]))"
  using assms by (simp add: nat_steps_def nat_rules_def table_effect_def chain_effect_def)

lemma udp_effect:
  assumes "ts ''filter'' ''OUTPUT'' = Some []"
  shows "fold table_effect (udp_steps uid resolvers) ts =
    ts(''filter'' := (ts ''filter'')(''RUNEWARD_UDP'' \<mapsto> udp_rules uid resolvers, ''OUTPUT'' \<mapsto> [([MProto ''udp''], TJump ''RUNEWARD_UDP'')]))"
proof -
  define optss where "optss = [[''-m'', ''owner'', ''--uid-owner'', uid, ''-j'', ''RETURN''], [''-o'', ''lo'', ''-j'', ''RETURN'']] @
    (if resolvers \<noteq> [] then map (\<lambda>ip. [''-p'', ''udp'', ''-d'', ip, ''--dport'', ''53'', ''-j'', ''RETURN'']) resolvers
     else [[''-p'', ''udp'', ''--dport'', ''53'', ''-j'', ''RETURN'']]) @ [[''-p'', ''udp'', ''-j'', ''DROP'']]"
  have steps: "udp_steps uid resolvers = ([''-t'', ''filter'', ''-N'', ''RUNEWARD_UDP''] # map (\<lambda>opts. ''-t'' # ''filter'' # ''-A'' # ''RUNEWARD_UDP'' # opts) optss) @
      [[''-t'', ''filter'', ''-A'', ''OUTPUT'', ''-p'', ''udp'', ''-j'', ''RUNEWARD_UDP'']]"
    by (simp add: udp_steps_def optss_def)
  have parse: "map (the \<circ> parse_rule) optss = udp_rules uid resolvers" "\<forall>opts \<in> set optss. parse_rule opts \<noteq> None"
    by (auto simp: optss_def udp_rules_def)
  show ?thesis unfolding steps fold_append o_apply fold_chain [OF parse(2)] parse(1)
    using assms by (auto simp: table_effect_def chain_effect_def fun_eq_iff)
qed

lemma dns_effect:
  assumes "ts ''filter'' ''OUTPUT'' = Some rs" "resolvers \<noteq> []"
  shows "fold table_effect (dns_tcp_steps uid resolvers) ts =
    ts(''filter'' := (ts ''filter'')(''RUNEWARD_DNST'' \<mapsto> dns_rules uid resolvers,
      ''OUTPUT'' \<mapsto> rs @ [([MProto ''tcp'', MDport ''53''], TJump ''RUNEWARD_DNST'')]))"
proof -
  define optss where "optss = [[''-m'', ''owner'', ''--uid-owner'', uid, ''-j'', ''RETURN''], [''-o'', ''lo'', ''-j'', ''RETURN'']] @
    map (\<lambda>ip. [''-p'', ''tcp'', ''-d'', ip, ''--dport'', ''53'', ''-j'', ''RETURN'']) resolvers @ [[''-p'', ''tcp'', ''--dport'', ''53'', ''-j'', ''DROP'']]"
  have steps: "dns_tcp_steps uid resolvers = ([''-t'', ''filter'', ''-N'', ''RUNEWARD_DNST''] # map (\<lambda>opts. ''-t'' # ''filter'' # ''-A'' # ''RUNEWARD_DNST'' # opts) optss) @
      [[''-t'', ''filter'', ''-A'', ''OUTPUT'', ''-p'', ''tcp'', ''--dport'', ''53'', ''-j'', ''RUNEWARD_DNST'']]"
    using assms(2) by (simp add: dns_tcp_steps_def optss_def)
  have parse: "map (the \<circ> parse_rule) optss = dns_rules uid resolvers" "\<forall>opts \<in> set optss. parse_rule opts \<noteq> None"
    by (auto simp: optss_def dns_rules_def)
  show ?thesis unfolding steps fold_append o_apply fold_chain [OF parse(2)] parse(1)
    using assms by (auto simp: table_effect_def chain_effect_def fun_eq_iff)
qed

text \<open>The tables after a successful set-up.\<close>

definition strict_tables :: "string \<Rightarrow> string \<Rightarrow> string list \<Rightarrow> (string \<Rightarrow> string \<rightharpoonup> nf_rule list) \<Rightarrow> bool" where
  "strict_tables uid port resolvers ts \<longleftrightarrow>
     ts ''nat'' ''OUTPUT'' = Some [([MProto ''tcp''], TJump ''RUNEWARD_OUT'')] \<and> ts ''nat'' ''RUNEWARD_OUT'' = Some (nat_rules uid port) \<and>
     ts ''filter'' ''OUTPUT'' = Some (([MProto ''udp''], TJump ''RUNEWARD_UDP'') #
       (if resolvers = [] then [] else [([MProto ''tcp'', MDport ''53''], TJump ''RUNEWARD_DNST'')])) \<and>
     ts ''filter'' ''RUNEWARD_UDP'' = Some (udp_rules uid resolvers) \<and>
     (resolvers \<noteq> [] \<longrightarrow> ts ''filter'' ''RUNEWARD_DNST'' = Some (dns_rules uid resolvers))"

lemma steps_effect:
  assumes "fresh_output ts"
  shows "strict_tables uid port resolvers (fold table_effect (nat_steps uid port @ udp_steps uid resolvers @ dns_tcp_steps uid resolvers) ts)"
proof -
  define ts1 where "ts1 = fold table_effect (nat_steps uid port) ts"
  define ts2 where "ts2 = fold table_effect (udp_steps uid resolvers) ts1"
  have ts1: "ts1 = ts(''nat'' := (ts ''nat'')(''RUNEWARD_OUT'' \<mapsto> nat_rules uid port, ''OUTPUT'' \<mapsto> [([MProto ''tcp''], TJump ''RUNEWARD_OUT'')]))"
    unfolding ts1_def by (rule nat_effect) (use assms in \<open>simp add: fresh_output_def\<close>)
  have "ts1 ''filter'' ''OUTPUT'' = Some []" using assms by (simp add: ts1 fresh_output_def)
  then have ts2: "ts2 = ts1(''filter'' := (ts1 ''filter'')(''RUNEWARD_UDP'' \<mapsto> udp_rules uid resolvers, ''OUTPUT'' \<mapsto> [([MProto ''udp''], TJump ''RUNEWARD_UDP'')]))"
    unfolding ts2_def by (rule udp_effect)
  then have out: "ts2 ''filter'' ''OUTPUT'' = Some [([MProto ''udp''], TJump ''RUNEWARD_UDP'')]" by simp
  have "strict_tables uid port resolvers (fold table_effect (dns_tcp_steps uid resolvers) ts2)"
  proof (cases "resolvers = []")
    case True
    then show ?thesis using ts1 ts2 by (simp add: dns_tcp_steps_def strict_tables_def)
  next
    case False
    show ?thesis unfolding dns_effect [where ts = ts2 and rs = "[([MProto ''udp''], TJump ''RUNEWARD_UDP'')]", OF out False] using False ts1 ts2 by (simp add: strict_tables_def)
  qed
  then show ?thesis by (simp add: ts1_def ts2_def)
qed

lemma SetupRedirect_tables:
  assumes "iptables_ok run view" "SetupRedirect run getenv parseIP proxyUID redirectPort k = (None, k')" "fresh_output (view k ''iptables'')"
  shows "strict_tables (show_nat proxyUID) (show_nat redirectPort) (parseDNSResolvers getenv parseIP) (view k' ''iptables'')"
proof -
  define steps where "steps = nat_steps (show_nat proxyUID) (show_nat redirectPort) @ udp_steps (show_nat proxyUID) (parseDNSResolvers getenv parseIP) @
    dns_tcp_steps (show_nat proxyUID) (parseDNSResolvers getenv parseIP)"
  define k1 where "k1 = run_all run ''iptables'' flush_steps k"
  have fresh: "fresh_output (view k1 ''iptables'')"
    unfolding k1_def using run_all_keeps [OF assms(1), where P = fresh_output] flush_fresh assms(3) by blast
  obtain k2 where k2: "run_until run ''iptables'' steps k1 = (None, k2)" "k' = setupDropIPv6 run k2"
    using assms(2) by (auto simp: SetupRedirect_def steps_def k1_def Let_def split: prod.splits option.splits)
  have "view k' ''iptables'' = view k2 ''iptables''"
    unfolding k2(2) setupDropIPv6_def by (simp add: run_all_other [OF assms(1)] del: run_all.simps)
  also have "\<dots> = fold table_effect steps (view k1 ''iptables'')" using run_until_chains [OF assms(1) k2(1)] by simp
  finally show ?thesis using steps_effect [OF fresh] by (simp add: steps_def)
qed

section \<open>What happens to packets\<close>

lemma show_nat_53: "show_nat n = ''53'' \<longleftrightarrow> n = 53"
proof -
  have "show_nat 53 = ''53''" by code_simp
  then show ?thesis by (metis show_nat_inject)
qed

text \<open>A run of rules that only return for packets to a resolver.\<close>

lemma nf_resolver_rule:
  "nf_rules parseIP cs p d (([MProto x, MDst r, MDport ''53''], TReturn) # rest) =
     (if pk_proto p = x \<and> parseIP r = Some (pk_dst p) \<and> pk_dport p = 53 then None else nf_rules parseIP cs p d rest)"
  by (subst nf_rules.simps) (simp add: show_nat_53)

lemma nf_resolvers:
  "nf_rules parseIP cs p d (map (\<lambda>ip. ([MProto x, MDst ip, MDport ''53''], TReturn)) rs @ rest) =
     (if pk_proto p = x \<and> pk_dport p = 53 \<and> (\<exists>r \<in> set rs. parseIP r = Some (pk_dst p)) then None else nf_rules parseIP cs p d rest)"
proof (induction rs)
  case (Cons r rs)
  show ?case unfolding list.map append_Cons nf_resolver_rule Cons.IH
    by (cases "pk_proto p = x"; cases "pk_dport p = 53"; cases "parseIP r = Some (pk_dst p)") simp_all
qed simp

lemma udp_verdict:
  assumes "pk_proto p = ''udp''" "show_nat (pk_uid p) \<noteq> uid" "\<not> pk_lo p"
  shows "nf_rules parseIP cs p d (udp_rules uid resolvers) =
    (if pk_dport p = 53 \<and> (resolvers = [] \<or> (\<exists>r \<in> set resolvers. parseIP r = Some (pk_dst p))) then None else Some NfDrop)"
  using assms nf_resolvers [of parseIP cs p d "''udp''" resolvers] by (simp add: udp_rules_def show_nat_53)

lemma dns_verdict:
  assumes "pk_proto p = ''tcp''" "show_nat (pk_uid p) \<noteq> uid" "\<not> pk_lo p" "pk_dport p = 53"
  shows "nf_rules parseIP cs p d (dns_rules uid resolvers) = (if \<exists>r \<in> set resolvers. parseIP r = Some (pk_dst p) then None else Some NfDrop)"
  using assms nf_resolvers [of parseIP cs p d "''tcp''" resolvers] by (simp add: dns_rules_def show_nat_53)

lemma nf_jump:
  "nf_rules parseIP cs p 16 ((ms, TJump c) # rs) =
     (if \<not> list_all (nf_matches parseIP p) ms then nf_rules parseIP cs p 16 rs
      else (case (case cs c of None \<Rightarrow> None | Some body \<Rightarrow> nf_rules parseIP cs p 15 body) of Some v \<Rightarrow> Some v | None \<Rightarrow> nf_rules parseIP cs p 16 rs))"
proof -
  have d: "(16 :: nat) = Suc 15" by simp
  show ?thesis unfolding d nf_rules.simps nf_target.case nat.case ..
qed

lemma strict_output:
  assumes "strict_tables (show_nat uid) port resolvers ts" "pk_uid p \<noteq> uid" "\<not> pk_lo p"
  shows "pk_proto p = ''tcp'' \<Longrightarrow> pk_dport p \<noteq> 53 \<Longrightarrow> nf_output parseIP ts p = ToLocalPort port"
    and "pk_proto p = ''udp'' \<Longrightarrow> pk_dport p \<noteq> 53 \<Longrightarrow> nf_output parseIP ts p = Dropped"
    and "pk_proto p \<in> {''tcp'', ''udp''} \<Longrightarrow> pk_dport p = 53 \<Longrightarrow>
      nf_output parseIP ts p = (if resolvers = [] \<or> (\<exists>r \<in> set resolvers. parseIP r = Some (pk_dst p)) then Passed else Dropped)"
proof -
  have uid: "show_nat (pk_uid p) \<noteq> show_nat uid" using assms(2) by simp
  note tabs = assms(1) [unfolded strict_tables_def]
  note defs = nf_output_def nf_chain_def nat_rules_def nf_jump show_nat_53
  show "nf_output parseIP ts p = ToLocalPort port" if "pk_proto p = ''tcp''" "pk_dport p \<noteq> 53"
    using that tabs uid assms(3) by (simp add: defs dns_rules_def)
  show "nf_output parseIP ts p = Dropped" if "pk_proto p = ''udp''" "pk_dport p \<noteq> 53"
    using that tabs uid assms(3) udp_verdict [OF that(1) uid assms(3)] by (simp add: defs)
  show "nf_output parseIP ts p = (if resolvers = [] \<or> (\<exists>r \<in> set resolvers. parseIP r = Some (pk_dst p)) then Passed else Dropped)"
    if "pk_proto p \<in> {''tcp'', ''udp''}" "pk_dport p = 53"
    using that tabs uid assms(3) udp_verdict [OF _ uid assms(3)] dns_verdict [OF _ uid assms(3)] by (auto simp: defs)
qed

lemma ipv6_tables:
  assumes "iptables_ok run view" "fresh_output (view k ''ip6tables'')" "\<forall>args \<in> set ipv6_steps. \<forall>k. fst (run ''ip6tables'' args k)"
  shows "view (setupDropIPv6 run k) ''ip6tables'' ''nat'' ''OUTPUT'' = Some [] \<and>
    view (setupDropIPv6 run k) ''ip6tables'' ''filter'' ''OUTPUT'' = Some [([], TJump ''RUNEWARD_OUT6'')] \<and>
    view (setupDropIPv6 run k) ''ip6tables'' ''filter'' ''RUNEWARD_OUT6'' =
      Some [([MOutLo], TReturn), ([MProto ''udp'', MDport ''53''], TReturn), ([MProto ''tcp'', MDport ''53''], TReturn), ([], TDrop)]"
proof -
  let ?flush = "[[''-D'', ''OUTPUT'', ''-j'', ''RUNEWARD_OUT6''], [''-F'', ''RUNEWARD_OUT6''], [''-X'', ''RUNEWARD_OUT6'']]"
  have keeps: "fresh_output (table_effect args ts)" if "args \<in> set ?flush" "fresh_output ts" for args ts
    using that by (auto simp: fresh_output_def table_effect_def chain_effect_def)
  have "fresh_output (view (run_all run ''ip6tables'' ?flush k) ''ip6tables'')"
    using run_all_keeps [where P = fresh_output and view = view and k = k and steps = ?flush and prog = "''ip6tables''", OF assms(1)] keeps assms(2) by blast
  then show ?thesis
    unfolding setupDropIPv6_def run_all_succeeds [OF assms(1,3)]
    by (simp add: ipv6_steps_def fresh_output_def table_effect_def chain_effect_def)
qed

lemma ipv6_dropped:
  assumes "iptables_ok run view" "fresh_output (view k ''ip6tables'')" "\<forall>args \<in> set ipv6_steps. \<forall>k. fst (run ''ip6tables'' args k)"
    and "\<not> pk_lo p" "pk_dport p \<noteq> 53"
  shows "nf_output parseIP (view (setupDropIPv6 run k) ''ip6tables'') p = Dropped"
  using ipv6_tables [where view = view and k = k, OF assms(1-3)] assms(4,5) by (simp add: nf_output_def nf_chain_def nf_jump show_nat_53)


text \<open>A kernel that keeps the chains and executes every command.\<close>

definition exec_chains :: "nf_chains runner" where
  "exec_chains prog args k = (True, k(prog := table_effect args (k prog)))"

lemma exec_chains_ok: "iptables_ok exec_chains (\<lambda>k. k)"
  by (simp add: iptables_ok_def exec_chains_def)

lemma exec_chains_until: "\<exists>k'. run_until exec_chains prog steps k = (None, k')"
  by (induction steps arbitrary: k) (auto simp: exec_chains_def)

definition sidecar_flags :: egress_flags where
  "sidecar_flags = \<lparr>ef_policy = [], ef_transparent = True, ef_redirect_port = 15001, ef_setup_iptables = True, ef_proxy_uid = 1337\<rparr>"

definition empty_chains :: nf_chains where
  "empty_chains = (\<lambda>_ _. [''OUTPUT'' \<mapsto> []])"

lemma sidecar_listens:
  "\<exists>k'. egress_main exec_chains (\<lambda>_. []) parseIP (\<lambda>_. True) readFile decode True sidecar_flags empty_chains =
     ([LogInstalled 1337 15001, LogDroppedTo 1337, LogListening 15001], k')"
proof -
  let ?steps = "nat_steps (show_nat 1337) (show_nat 15001) @ udp_steps (show_nat 1337) (parseDNSResolvers (\<lambda>_. []) parseIP) @
    dns_tcp_steps (show_nat 1337) (parseDNSResolvers (\<lambda>_. []) parseIP)"
  obtain k2 where k2: "run_until exec_chains ''iptables'' ?steps (run_all exec_chains ''iptables'' flush_steps empty_chains) = (None, k2)"
    using exec_chains_until [of "''iptables''" ?steps "run_all exec_chains ''iptables'' flush_steps empty_chains"] by (elim exE)
  have "SetupRedirect exec_chains (\<lambda>_. []) parseIP 1337 15001 empty_chains = (None, setupDropIPv6 exec_chains k2)"
    unfolding SetupRedirect_def Let_def k2 by (simp only: prod.case option.case)
  then show ?thesis by (auto simp: egress_main_def sidecar_flags_def loadPolicy_def)
qed


text \<open>
  The comment in the Docker backend says that all TCP is forced through the proxy. TCP to port 53 is not:
  without pinned resolvers it leaves for any host. And a resolver list without a single valid address
  counts as no list, so a mistyped one leaves DNS open instead of closing it.
\<close>

lemma tcp_53_bypasses_the_proxy:
  assumes "iptables_ok run view" "SetupRedirect run getenv parseIP uid port k = (None, k')" "fresh_output (view k ''iptables'')"
    and "parseDNSResolvers getenv parseIP = []" "pk_uid p \<noteq> uid" "\<not> pk_lo p" "pk_proto p = ''tcp''" "pk_dport p = 53"
  shows "nf_output parseIP (view k' ''iptables'') p = Passed"
  using strict_output(3) [where ts = "view k' ''iptables''",
      OF SetupRedirect_tables [where view = view and k = k and k' = k', OF assms(1-3)] assms(5,6)] assms(4,7,8) by simp

lemma mistyped_resolvers_open_dns:
  "parseDNSResolvers (\<lambda>_. ''8.8.8'') (\<lambda>s. if s = ''8.8.8.8'' then Some s else None) = []"
  by code_simp

text \<open>Pinning the resolvers does not reach IPv6: port 53 stays open to every host.\<close>

lemma ipv6_dns_is_not_pinned:
  assumes "iptables_ok run view" "fresh_output (view k ''ip6tables'')" "\<forall>args \<in> set ipv6_steps. \<forall>k. fst (run ''ip6tables'' args k)"
    and "\<not> pk_lo p" "pk_dport p = 53" "pk_proto p \<in> {''tcp'', ''udp''}"
  shows "nf_output parseIP (view (setupDropIPv6 run k) ''ip6tables'') p = Passed"
  using ipv6_tables [where view = view and k = k, OF assms(1-3)] assms(4-6) by (auto simp: nf_output_def nf_chain_def nf_jump show_nat_53)

end
