(* ===== verification/Browser_Sessions.thy ===== *)
theory Browser_Sessions
  imports Api_Handlers
begin

text \<open>
  Stateful browser sessions (\<^verbatim>\<open>internal/controlplane/browser_session.go\<close>, the messages of
  \<^verbatim>\<open>internal/browser/protocol.go\<close> and the three HTTP handlers): opening a driver inside the sandbox, waiting
  until it answers, sending it one governed action at a time, and closing it. The sessions of all
  sandboxes form one table, indexed by sandbox and session. The random ids and the JSON encoding are
  arguments.
\<close>

section \<open>Messages and sessions\<close>

record browser_command =
  bc_action :: string
  bc_token :: string
  bc_url :: string
  bc_selector :: string
  bc_expr :: string
  bc_text :: string
  bc_timeout_ms :: int

record browser_result =
  bz_ok :: bool
  bz_error :: string
  bz_value :: string
  bz_screenshot :: string

record browser_session =
  bw_id :: string
  bw_socket :: string
  bw_token :: string

type_synonym browsers = "string \<Rightarrow> string \<rightharpoonup> browser_session"

text \<open>\<^verbatim>\<open>json.Marshal\<close> of a command, which has no value that cannot be encoded, and \<^verbatim>\<open>json.Unmarshal\<close> of a result.\<close>

record browser_codec =
  bk_marshal :: "browser_command \<Rightarrow> string"
  bk_unmarshal :: "string \<Rightarrow> browser_result option"

datatype browser_error =
    BrTool tool_error | BrNotStarted string | BrNotReady | BrCancelled | BrNoSession string | BrNoAction

definition browserDriverBin :: string where
  "browserDriverBin = ''runeward-browser''"

definition driver_call :: "string \<Rightarrow> string \<Rightarrow> string \<Rightarrow> string list" where
  "driver_call socket token payload = [browserDriverBin, ''call'', ''--socket'', socket, ''--token'', token, ''--json'', payload]"

definition sandbox_exec :: "'c session \<Rightarrow> string list \<Rightarrow> exec_request" where
  "sandbox_exec sess command = \<lparr>er_command = command, er_workdir = ss_workdir sess, er_env = ss_env sess\<rparr>"

definition plain_command :: "string \<Rightarrow> string \<Rightarrow> browser_command" where
  "plain_command act token =
     \<lparr>bc_action = act, bc_token = token, bc_url = [], bc_selector = [], bc_expr = [], bc_text = [], bc_timeout_ms = 0\<rparr>"

definition start_script :: "string \<Rightarrow> string \<Rightarrow> string \<Rightarrow> string" where
  "start_script socket token rid =
     ''command -v '' @ browserDriverBin @ '' >/dev/null 2>&1 || { echo '' @ [squote] @ ''runeward-browser not found in sandbox image'' @ [squote] @
     '' >&2; exit 127; }; '' @ ''PROXY='' @ [dquote] @ ''${HTTPS_PROXY:-$HTTP_PROXY}'' @ [dquote] @ ''; '' @
     ''setsid '' @ browserDriverBin @ '' serve --socket '' @ shQuote socket @ '' --token '' @ shQuote token @
     '' ${PROXY:+--proxy $PROXY} >/tmp/rw-browser-'' @ rid @ ''.log 2>&1 & echo started''"

section \<open>Opening\<close>

text \<open>One round of waiting: how the backend answers in it, and whether the request was cancelled while it
  slept. \<open>rounds\<close> lists the rounds up to the first one that ends after the deadline.\<close>

record wait_round =
  wr_exec :: "string \<Rightarrow> exec_request \<Rightarrow> string + exec_result"
  wr_cancelled :: bool

definition ping_answered :: "browser_codec \<Rightarrow> string + exec_result \<Rightarrow> bool" where
  "ping_answered J reply =
     (case reply of
        Inl _ \<Rightarrow> False
      | Inr res \<Rightarrow>
          xr_exit_code res = 0 \<and> (case bk_unmarshal J (trim_space (xr_stdout res)) of None \<Rightarrow> False | Some out \<Rightarrow> bz_ok out))"

fun browserWaitReady :: "browser_codec \<Rightarrow> string \<Rightarrow> exec_request \<Rightarrow> wait_round list \<Rightarrow> browser_error option" where
  "browserWaitReady J sb er [] = Some BrNotReady"
| "browserWaitReady J sb er (r # rs) =
     (if ping_answered J (wr_exec r sb er) then None
      else if rs = [] then Some BrNotReady
      else if wr_cancelled r then Some BrCancelled
      else browserWaitReady J sb er rs)"

text \<open>The result is an error, or the id of the new session, if one was opened, and the result of the governed
  call. As for the other tools, the request that was sent to the backend on behalf of the governed call comes with it.\<close>

type_synonym 'c open_outcome =
  "(browser_error, string option \<times> tool_result) result \<times> exec_request option \<times> 'c manager \<times> browsers"

definition BrowserOpen ::
  "browser_codec \<Rightarrow> 'c::{zero,linorder} govprims \<Rightarrow> 'c call_env \<Rightarrow> string \<Rightarrow> string \<Rightarrow> wait_round list \<Rightarrow> string \<Rightarrow> 'c manager \<Rightarrow> browsers \<Rightarrow>
   'c open_outcome" where
  "BrowserOpen J G cv rid token rounds sb m br =
     (if \<not> experimentalBrowserEnabled (cv_getenv cv) then (Inl (BrTool ToolBrowserOff), None, m, br)
      else
        (case session_of sb m of
           None \<Rightarrow> (Inl (BrTool ToolNoSandbox), None, m, br)
         | Some sess \<Rightarrow>
             if \<not> hasCapability (ss_profile sess) ''browser'' then (Inl (BrTool (ToolUndeclared ''browser'')), None, m, br)
             else
               (let socket = ''/tmp/rw-browser-'' @ rid @ ''.sock'';
                    (outcome, er, m') = govern G cv sb (tool_request cv ''browser'' ''open'' [''open'', rid])
                      (sandbox_exec sess [''sh'', ''-c'', start_script socket token rid]) sess m
                in case outcome of
                     Inl e \<Rightarrow> (Inl (BrTool e), er, m', br)
                   | Inr res \<Rightarrow>
                       if tr_verdict res \<noteq> VerdictAllow then (Inr (None, res), er, m', br)
                       else if tr_exit_code res \<noteq> 0 then (Inl (BrNotStarted (trim_space (tr_stderr res @ tr_stdout res))), er, m', br)
                       else
                         (case browserWaitReady J sb
                                 (sandbox_exec sess (driver_call socket token (bk_marshal J (plain_command ''ping'' token)))) rounds of
                            Some e \<Rightarrow> (Inl e, er, m', br)
                          | None \<Rightarrow>
                              (Inr (Some rid, res), er, m',
                               br(sb := (br sb)(rid \<mapsto> \<lparr>bw_id = rid, bw_socket = socket, bw_token = token\<rparr>)))))))"

section \<open>Acting and closing\<close>

definition browser_arg :: "browser_command \<Rightarrow> string" where
  "browser_arg cmd =
     (if bc_url cmd \<noteq> [] then bc_action cmd @ '' '' @ bc_url cmd
      else if bc_selector cmd \<noteq> [] then bc_action cmd @ '' '' @ bc_selector cmd
      else bc_action cmd)"

text \<open>What the reply of the driver makes of the result.\<close>

definition driver_reply :: "browser_codec \<Rightarrow> tool_result \<Rightarrow> tool_result" where
  "driver_reply J res =
     (case bk_unmarshal J (trim_space (tr_stdout res)) of
        None \<Rightarrow> res
      | Some out \<Rightarrow>
          res\<lparr>tr_stdout := (if bz_screenshot out \<noteq> [] then bz_screenshot out else bz_value out),
              tr_reason := (if \<not> bz_ok out \<and> bz_error out \<noteq> [] then bz_error out else tr_reason res)\<rparr>)"

definition act_call :: "browser_codec \<Rightarrow> browser_session \<Rightarrow> browser_command \<Rightarrow> string list" where
  "act_call J bs cmd = driver_call (bw_socket bs) (bw_token bs) (bk_marshal J (cmd\<lparr>bc_token := bw_token bs\<rparr>))"

definition BrowserAct ::
  "browser_codec \<Rightarrow> 'c::{zero,linorder} govprims \<Rightarrow> 'c call_env \<Rightarrow> string \<Rightarrow> string \<Rightarrow> browser_command \<Rightarrow> 'c manager \<Rightarrow> browsers \<Rightarrow>
   (browser_error, tool_result) result \<times> exec_request option \<times> 'c manager" where
  "BrowserAct J G cv sb rid cmd m br =
     (case session_of sb m of
        None \<Rightarrow> (Inl (BrTool ToolNoSandbox), None, m)
      | Some sess \<Rightarrow>
          (case br sb rid of
             None \<Rightarrow> (Inl (BrNoSession rid), None, m)
           | Some bs \<Rightarrow>
               if bc_action cmd = [] then (Inl BrNoAction, None, m)
               else
                 (let call = act_call J bs cmd;
                      (outcome, er, m') = govern G cv sb
                        ((tool_request cv ''browser'' (browser_arg cmd) call)\<lparr>rq_raw_stdout := (bc_action cmd = ''screenshot'')\<rparr>)
                        (sandbox_exec sess call) sess m
                  in case outcome of
                       Inl e \<Rightarrow> (Inl (BrTool e), er, m')
                     | Inr res \<Rightarrow> (Inr (if tr_verdict res \<noteq> VerdictAllow then res else driver_reply J res), er, m'))))"

text \<open>Closing is not governed: the driver is asked to stop, whatever it answers the session is forgotten, and
  the close is recorded. The second component is the request that was sent.\<close>

definition BrowserClose ::
  "browser_codec \<Rightarrow> 'c govprims \<Rightarrow> string option \<Rightarrow> string \<Rightarrow> string \<Rightarrow> 'c manager \<Rightarrow> browsers \<Rightarrow>
   browser_error option \<times> exec_request option \<times> 'c manager \<times> browsers" where
  "BrowserClose J G ctx sb rid m br =
     (case session_of sb m of
        None \<Rightarrow> (Some (BrTool ToolNoSandbox), None, m, br)
      | Some sess \<Rightarrow>
          (case br sb rid of
             None \<Rightarrow> (Some (BrNoSession rid), None, m, br)
           | Some bs \<Rightarrow>
               (None, Some (sandbox_exec sess (driver_call (bw_socket bs) (bw_token bs) (bk_marshal J (plain_command ''close'' (bw_token bs))))),
                record_audit G ctx sess ''browser'' ''close'' [''close'', rid] VerdictAllow 0 0 [] m,
                br(sb := (br sb)(rid := None)))))"

section \<open>The endpoints\<close>

fun browser_error_status :: "browser_error \<Rightarrow> nat" where
  "browser_error_status (BrTool e) = tool_error_status e"
| "browser_error_status (BrNoSession rid) = 404"
| "browser_error_status _ = 500"

definition browser_status :: "(browser_error, tool_result) result \<Rightarrow> tool_result response" where
  "browser_status res =
     (case res of Inl e \<Rightarrow> (browser_error_status e, None) | Inr t \<Rightarrow> writeToolResult (Inr t))"

definition handleBrowserOpen ::
  "browser_codec \<Rightarrow> 'c::{zero,linorder} govprims \<Rightarrow> 'c call_env \<Rightarrow> string \<Rightarrow> string \<Rightarrow> wait_round list \<Rightarrow> string \<Rightarrow> 'c manager \<Rightarrow> browsers \<Rightarrow>
   (tool_result + string option) response \<times> exec_request option \<times> 'c manager \<times> browsers" where
  "handleBrowserOpen J G cv rid token rounds sb m br =
     (case BrowserOpen J G cv rid token rounds sb m br of
        (Inl e, rest) \<Rightarrow> ((browser_error_status e, None), rest)
      | (Inr (opened, res), rest) \<Rightarrow>
          (if tr_verdict res \<noteq> VerdictAllow then map_prod id (map_option Inl) (writeToolResult (Inr res)) else (201, Some (Inr opened)), rest))"

definition handleBrowserAct ::
  "browser_codec \<Rightarrow> 'c::{zero,linorder} govprims \<Rightarrow> 'c call_env \<Rightarrow> string \<Rightarrow> string \<Rightarrow> browser_command option \<Rightarrow> 'c manager \<Rightarrow> browsers \<Rightarrow>
   tool_result response \<times> exec_request option \<times> 'c manager" where
  "handleBrowserAct J G cv sb rid body m br =
     (case body of
        None \<Rightarrow> ((400, None), None, m)
      | Some cmd \<Rightarrow> map_prod browser_status id (BrowserAct J G cv sb rid cmd m br))"

definition handleBrowserClose ::
  "browser_codec \<Rightarrow> 'c govprims \<Rightarrow> string option \<Rightarrow> string \<Rightarrow> string \<Rightarrow> 'c manager \<Rightarrow> browsers \<Rightarrow>
   unit response \<times> exec_request option \<times> 'c manager \<times> browsers" where
  "handleBrowserClose J G ctx sb rid m br =
     (case BrowserClose J G ctx sb rid m br of
        (Some _, rest) \<Rightarrow> ((404, None), rest)
      | (None, rest) \<Rightarrow> ((200, Some ()), rest))"

section \<open>Runs of browser operations\<close>

datatype 'c browser_op =
    OpOpen "'c call_env" string string "wait_round list" string
  | OpAct "'c call_env" string string browser_command
  | OpClose "string option" string string

text \<open>Other requests change the manager between two browser operations, so each operation of a run comes with
  the manager it starts from.\<close>

fun browser_step :: "browser_codec \<Rightarrow> 'c::{zero,linorder} govprims \<Rightarrow> browsers \<Rightarrow> 'c manager \<times> 'c browser_op \<Rightarrow> browsers" where
  "browser_step J G br (m, OpOpen cv rid token rounds sb) = snd (snd (snd (BrowserOpen J G cv rid token rounds sb m br)))"
| "browser_step J G br (m, OpAct cv sb rid cmd) = br"
| "browser_step J G br (m, OpClose ctx sb rid) = snd (snd (snd (BrowserClose J G ctx sb rid m br)))"

text \<open>An operation that opened session \<open>rid\<close> of sandbox \<open>sb\<close>, and one that closed it.\<close>

fun opens :: "browser_codec \<Rightarrow> 'c::{zero,linorder} govprims \<Rightarrow> string \<Rightarrow> string \<Rightarrow> browsers \<Rightarrow> 'c manager \<times> 'c browser_op \<Rightarrow> bool" where
  "opens J G sb rid br (m, OpOpen cv rid' token rounds sb') \<longleftrightarrow> sb' = sb \<and> rid' = rid \<and>
     (\<exists>res. fst (BrowserOpen J G cv rid token rounds sb m br) = Inr (Some rid, res) \<and> tr_verdict res = VerdictAllow)"
| "opens J G sb rid br _ \<longleftrightarrow> False"

fun closes :: "string \<Rightarrow> string \<Rightarrow> 'c manager \<times> 'c browser_op \<Rightarrow> bool" where
  "closes sb rid (m, OpClose ctx sb' rid') \<longleftrightarrow> sb' = sb \<and> rid' = rid \<and> session_of sb m \<noteq> None"
| "closes sb rid _ \<longleftrightarrow> False"

lemma BrowserOpen_cases:
  assumes "BrowserOpen J G cv rid token rounds sb m br = (out, er, m', br')"
  obtains "br' = br" "\<forall>res. out \<noteq> Inr (Some rid, res)"
  | res where "out = Inr (Some rid, res)" "tr_verdict res = VerdictAllow"
      "br' = br(sb := (br sb)(rid \<mapsto> \<lparr>bw_id = rid, bw_socket = ''/tmp/rw-browser-'' @ rid @ ''.sock'', bw_token = token\<rparr>))"
  using assms by (auto simp: BrowserOpen_def Let_def split: if_splits option.splits sum.splits prod.splits)

lemma browser_step_table:
  assumes "browser_step J G br e sb rid \<noteq> None"
  shows "opens J G sb rid br e \<or> (br sb rid \<noteq> None \<and> \<not> closes sb rid e)"
proof -
  obtain m op where e: "e = (m, op)" by fastforce
  show ?thesis
  proof (cases op)
    case (OpOpen cv rid' token rounds sb')
    obtain out er m' br' where b: "BrowserOpen J G cv rid' token rounds sb' m br = (out, er, m', br')"
      by (metis prod.collapse)
    from b show ?thesis
      by (rule BrowserOpen_cases) (use assms e OpOpen b in \<open>auto split: if_splits\<close>)
  next
    case (OpClose ctx sb' rid')
    then show ?thesis using assms e by (auto simp: BrowserClose_def split: option.splits if_splits)
  qed (use assms e in auto)
qed

lemma open_session_history:
  assumes "foldl (browser_step J G) (\<lambda>_. Map.empty) es sb rid \<noteq> None"
  shows "\<exists>pre e post. es = pre @ e # post \<and> opens J G sb rid (foldl (browser_step J G) (\<lambda>_. Map.empty) pre) e \<and>
    list_all (\<lambda>e'. \<not> closes sb rid e') post"
  using assms
proof (induction es rule: rev_induct)
  case (snoc e es)
  let ?br = "foldl (browser_step J G) (\<lambda>_. Map.empty) es"
  from snoc.prems have "browser_step J G ?br e sb rid \<noteq> None" by simp
  then consider "opens J G sb rid ?br e" | "?br sb rid \<noteq> None" "\<not> closes sb rid e" using browser_step_table by blast
  then show ?case
  proof cases
    case 1
    then show ?thesis by (intro exI [of _ es] exI [of _ e] exI [of _ "[]"]) simp
  next
    case 2
    from snoc.IH [OF 2(1)] obtain pre e1 post where "es = pre @ e1 # post"
      "opens J G sb rid (foldl (browser_step J G) (\<lambda>_. Map.empty) pre) e1" "list_all (\<lambda>e'. \<not> closes sb rid e') post" by blast
    with 2(2) show ?thesis by (intro exI [of _ pre] exI [of _ e1] exI [of _ "post @ [e]"]) simp
  qed
qed simp


text \<open>A sandbox with a browser whose driver answers every message.\<close>

definition codec0 :: browser_codec where
  "codec0 = \<lparr>bk_marshal = bc_action, bk_unmarshal = (\<lambda>s. Some \<lparr>bz_ok = True, bz_error = [], bz_value = s, bz_screenshot = []\<rparr>)\<rparr>"

definition manager_chrome :: "int manager" where
  "manager_chrome = manager0\<lparr>mg_sessions := [''sb'' \<mapsto> session0\<lparr>ss_profile := profile0\<lparr>pro_image := ''alpine-chrome''\<rparr>\<rparr>]\<rparr>"

definition call_chrome :: "int call_env" where
  "call_chrome = call0\<lparr>cv_getenv := (\<lambda>_. ''1'')\<rparr>"

definition open0 :: "int manager \<times> int browser_op" where
  "open0 = (manager_chrome, OpOpen call_chrome ''s1'' ''tok'' [\<lparr>wr_exec = (\<lambda>_ _. run0), wr_cancelled = False\<rparr>] ''sb'')"

lemma open0_opens: "browser_step codec0 prims0 (\<lambda>_. Map.empty) open0 ''sb'' ''s1'' =
    Some \<lparr>bw_id = ''s1'', bw_socket = ''/tmp/rw-browser-s1.sock'', bw_token = ''tok''\<rparr>"
  by code_simp

definition title_command :: browser_command where
  "title_command = plain_command ''title'' []"

lemma title_runs:
  assumes "br ''sb'' ''s1'' = Some bs"
  shows "\<exists>out m'. BrowserAct codec0 prims0 call_chrome ''sb'' ''s1'' title_command manager_chrome br =
    (out, Some (sandbox_exec session0 (act_call codec0 bs title_command)), m')"
  using assms
  by (simp add: BrowserAct_def session_of_def manager_chrome_def govern_def Let_def title_command_def plain_command_def
      governOut_def gov_execute_ran within_limits_def rq_decision_def tool_request_def session0_def New_def Evaluate_def
      VerdictAllow_def VerdictDeny_def VerdictRequireApprove_def profile0_def limits0_def fresh_guard_def CheckExec_def
      Over_def isEgressTool_def CheckEgress_def sandbox_exec_def call_chrome_def call0_def manager0_def split: sum.split)


text \<open>Closing always forgets the session, and asks the driver to stop before.\<close>

theorem closed_session_is_gone:
  assumes "BrowserClose J G ctx sb rid m br = (None, er, m', br')"
  shows "er \<noteq> None \<and> BrowserAct J G cv sb rid cmd m' br' = (Inl (BrNoSession rid), None, m')"
  using assms
  by (auto simp: BrowserClose_def BrowserAct_def session_of_def record_audit_def log_event_def split: option.splits)

theorem closed_session_is_gone_witness:
  "\<exists>er m' br'. BrowserClose codec0 prims0 None ''sb'' ''s1'' manager_chrome (browser_step codec0 prims0 (\<lambda>_. Map.empty) open0) =
     (None, er, m', br') \<and> BrowserAct codec0 prims0 call_chrome ''sb'' ''s1'' title_command m' br' = (Inl (BrNoSession ''s1''), None, m')"
proof -
  obtain er m' br' where c: "BrowserClose codec0 prims0 None ''sb'' ''s1'' manager_chrome (browser_step codec0 prims0 (\<lambda>_. Map.empty) open0) =
      (None, er, m', br')"
    using open0_opens by (simp add: BrowserClose_def session_of_def manager_chrome_def)
  from closed_session_is_gone [OF c] c show ?thesis by blast
qed

text \<open>
  The policy is shown the URL of a command in preference to its selector, whatever the action is. A rule that
  denies clicks on a selector is evaded by a click that also carries a URL, which the driver ignores.
\<close>

theorem decoy_url_hides_selector:
  "let rule = \<lparr>pr_tool = ''browser'', pr_match = ''click #pay*'', pr_match_argv = [], pr_verdict = VerdictDeny, pr_reason = []\<rparr>;
       click = (plain_command ''click'' [])\<lparr>bc_selector := ''#pay-now''\<rparr>;
       verdict = (\<lambda>cmd. dec_verdict (Evaluate (New [rule] VerdictAllow)
         \<lparr>act_tool = ''browser'', act_arg = browser_arg cmd, act_args = act_call codec0 \<lparr>bw_id = ''s'', bw_socket = ''x'', bw_token = ''t''\<rparr> cmd\<rparr>))
   in verdict click = VerdictDeny \<and> verdict (click\<lparr>bc_url := ''x''\<rparr>) = VerdictAllow"
  by code_simp

text \<open>
  When the driver starts but does not answer in time, the caller gets an error and no session, and nothing
  stops the driver: the only request of the governed call was the one that started it.
\<close>

lemma late_driver_is_left_running:
  assumes "BrowserOpen J G cv rid token rounds sb m br = (Inl BrNotReady, Some er, m', br')"
  shows "br' = br \<and> (\<exists>sess. session_of sb m = Some sess \<and>
    er_command er = [''sh'', ''-c'', start_script (''/tmp/rw-browser-'' @ rid @ ''.sock'') token rid])"
  using assms
  by (auto simp: BrowserOpen_def Let_def govern_def sandbox_exec_def split: if_splits option.splits sum.splits prod.splits)

end
