(* ===== verification/Mcp_Server.thy ===== *)
theory Mcp_Server
  imports Browser_Sessions
begin

text \<open>
  The MCP front end (\<^verbatim>\<open>internal/mcp/mcp.go\<close>): who the caller is, what each tool checks, and which operation of
  the control plane it calls. The tools act on one state, \<open>mcp_world\<close>, that joins the states of the
  components; \<open>mcp_env\<close> holds what the outside contributes to one call (clocks, random ids, outcomes of
  system calls, codecs, the texts of errors). A reply is an error with its code, a blocked call, or a payload.
\<close>

section \<open>Identity\<close>

record principal_identity =
  pi_owner :: string
  pi_actor :: string
  pi_principal :: "principal option"

definition identity_canLaunch :: "path_matcher \<Rightarrow> principal_identity \<Rightarrow> string \<Rightarrow> bool" where
  "identity_canLaunch pm p profileName = (pi_principal p = None \<or> CanLaunch pm (pi_principal p) profileName)"

definition identity_isAdmin :: "principal_identity \<Rightarrow> bool" where
  "identity_isAdmin p = (case pi_principal p of None \<Rightarrow> False | Some q \<Rightarrow> pc_admin q)"

definition identity_mayApprove :: "principal_identity \<Rightarrow> bool" where
  "identity_mayApprove p = (pi_principal p = None \<or> MayApprove (pi_principal p))"

record principal_resolver =
  px_store :: "store option"
  px_stdio_owner :: string
  px_stdio_actor :: string
  px_stdio_principal :: "principal option"

text \<open>\<open>McpResolver\<close> and \<open>McpOther\<close> carry the text of an error of another component.\<close>

datatype mcp_error =
    McpResolver string | McpStdioToken | McpNoBearer | McpUnknownBearer | McpNoCitadel | McpNoCohort | McpNoCharter
  | McpLaunch string string | McpCopyAdmin | McpCopyRoots | McpConclave | McpOther string

text \<open>\<open>loaded\<close> is the result of \<^verbatim>\<open>authz.FromEnv\<close>, \<open>kept\<close> the token that \<^verbatim>\<open>credentials.LoadToken\<close> finds, and
  \<open>oidc\<close> what the OIDC verifier makes of a token.\<close>

definition newPrincipalResolver ::
  "(string \<Rightarrow> string) \<Rightarrow> (string \<Rightarrow> principal option) \<Rightarrow> (string \<Rightarrow> string) \<Rightarrow> string \<Rightarrow> (string, store option) result \<Rightarrow>
   (string, principal_resolver) result" where
  "newPrincipalResolver sha oidc getenv kept loaded =
     (case loaded of
        Inl err \<Rightarrow> Inl err
      | Inr st \<Rightarrow>
          (let name = trim_space (getenv ''RUNEWARD_MCP_DEFAULT_PRINCIPAL'');
               owner = (if name = [] then ''mcp-stdio'' else name);
               r = \<lparr>px_store = st, px_stdio_owner = owner, px_stdio_actor = owner, px_stdio_principal = None\<rparr>
           in if st = None then Inr r
              else
                (let tok0 = trim_space (getenv ''RUNEWARD_MCP_DEFAULT_TOKEN''); tok = (if tok0 = [] then kept else tok0) in
                 if tok = [] then Inr r
                 else (case Identify sha st (oidc tok) tok of
                         None \<Rightarrow> Inl ''RUNEWARD_MCP_DEFAULT_TOKEN does not match any principal in RUNEWARD_AUTHZ_FILE''
                       | Some p \<Rightarrow>
                           Inr (r\<lparr>px_stdio_owner := TenantID (Some p), px_stdio_actor := pc_name p, px_stdio_principal := Some p\<rparr>)))))"

definition parseBearerToken :: "string \<Rightarrow> string option" where
  "parseBearerToken header0 =
     (let header = trim_space header0 in
      if header = [] then None
      else (case str_fields header of
              [kind, tok] \<Rightarrow> if \<not> equal_fold kind ''bearer'' then None else if tok = [] then None else Some tok
            | _ \<Rightarrow> None))"

text \<open>A request over stdio has no header (\<^verbatim>\<open>None\<close>); over HTTP it has the value of \<^verbatim>\<open>Authorization\<close>, empty if there
  is none.\<close>

definition resolve_identity ::
  "(string \<Rightarrow> string) \<Rightarrow> (string \<Rightarrow> principal option) \<Rightarrow> principal_resolver \<Rightarrow> string option \<Rightarrow> (mcp_error, principal_identity) result" where
  "resolve_identity sha oidc r req =
     (case req of
        None \<Rightarrow>
          if px_store r \<noteq> None \<and> px_stdio_principal r = None then Inl McpStdioToken
          else Inr \<lparr>pi_owner = px_stdio_owner r, pi_actor = px_stdio_actor r, pi_principal = px_stdio_principal r\<rparr>
      | Some header \<Rightarrow>
          (case parseBearerToken header of
             None \<Rightarrow> Inl McpNoBearer
           | Some tok \<Rightarrow>
               if px_store r = None then Inr \<lparr>pi_owner = ''mcp-http'', pi_actor = ''mcp-http'', pi_principal = None\<rparr>
               else (case Identify sha (px_store r) (oidc tok) tok of
                       None \<Rightarrow> Inl McpUnknownBearer
                     | Some p \<Rightarrow> Inr \<lparr>pi_owner = TenantID (Some p), pi_actor = pc_name p, pi_principal = Some p\<rparr>)))"

section \<open>State, environment and replies\<close>

record 'c mcp_world =
  mw_plane :: "'c plane"
  mw_hub :: conversation_hub
  mw_snaps :: snapshot_state
  mw_fleets :: fleetctl
  mw_browsers :: browsers
  mw_killed :: "string list"

datatype plane_error =
    PeTool tool_error | PeBrowser browser_error | PeCreate create_error | PeOp op_error | PeConv conversation_error
  | PeSnap snapshot_error | PeFleet fleet_error | PeProfiles | PeEvidence

record ('c, 'd) mcp_env =
  me_sha :: "string \<Rightarrow> string"
  me_oidc :: "string \<Rightarrow> principal option"
  me_pm :: path_matcher
  me_quote :: "string \<Rightarrow> string"
  me_text :: "plane_error \<Rightarrow> string"
  me_G :: "'c govprims"
  me_cv :: "'c call_env"
  me_bcodec :: browser_codec
  me_rid :: string
  me_btoken :: string
  me_rounds :: "wait_round list"
  me_create :: "'c create_env"
  me_members :: "'c create_env list"
  me_roots :: string
  me_ids :: "string list"
  me_profiles :: "string list option"
  me_ready :: "string \<Rightarrow> 'd"
  me_runs_codec :: runs_codec
  me_io :: state_io
  me_now :: gotime
  me_kill_err :: "string \<Rightarrow> string option"
  me_cost :: "'c costprims"
  me_raced :: "nat \<Rightarrow> bool"
  me_snap_codec :: snap_codec
  me_taken :: "snapshot_ref option"
  me_evidence :: "string \<Rightarrow> 'd option"
  me_verify :: "string option"
  me_fleet_codec :: fleet_codec
  me_tok :: tokprims
  me_nonce :: "string option"
  me_fid :: string
  me_task_ids :: "(gotime \<times> string) list"
  me_tid :: string
  me_cohort :: "(int \<times> string list) option option"

datatype ('c, 'd) mcp_payload =
    PWhoami principal_identity | PCharters "string list" | PDocument 'd | PSandbox string | PSandboxes "(string \<times> string) list"
  | PRuns "run list" | PExec verdict int string string int | PRaw verdict string | PWritten nat string | PText string
  | PApprovals "approval list" | PDone string | PUsage "'c usage" | PMessage conversation_message
  | PMessages "conversation_message list" | PSnapshot snapshot_ref | PSnapshots "snapshot_ref list" | PVerified "string option"
  | PFleet fleet_view | PFleets "fleet_view list" | PTasks "task list" | PTask task | PClaim "task option" | PState string string

datatype ('c, 'd) mcp_reply = McpErr string string | McpDenied string | McpApproval string string | McpOk "('c, 'd) mcp_payload"

text \<open>The flag \<^verbatim>\<open>IsError\<close> of the result.\<close>

fun reply_error :: "('c, 'd) mcp_reply \<Rightarrow> bool" where
  "reply_error (McpErr code msg) = True"
| "reply_error (McpDenied reason) = True"
| "reply_error _ = False"

type_synonym ('c, 'd) mcp_outcome = "('c, 'd) mcp_reply \<times> exec_request option \<times> 'c mcp_world"

fun mcp_message :: "(string \<Rightarrow> string) \<Rightarrow> mcp_error \<Rightarrow> string" where
  "mcp_message quote (McpResolver s) = s"
| "mcp_message quote McpStdioToken = ''RUNEWARD_MCP_DEFAULT_TOKEN or `runeward auth login` is required for MCP stdio when authentication is configured''"
| "mcp_message quote McpNoBearer = ''missing bearer token''"
| "mcp_message quote McpUnknownBearer = ''unknown bearer token''"
| "mcp_message quote McpNoCitadel = ''citadel not found''"
| "mcp_message quote McpNoCohort = ''cohort not found''"
| "mcp_message quote McpNoCharter = ''charter not found''"
| "mcp_message quote (McpLaunch actor profile) = ''principal '' @ quote actor @ '' is not allowed to launch charter '' @ quote profile"
| "mcp_message quote McpCopyAdmin = ''copy_from overrides require an administrator''"
| "mcp_message quote McpCopyRoots = ''copy_from is disabled under RBAC until RUNEWARD_COPY_FROM_ROOTS is configured''"
| "mcp_message quote McpConclave = ''not authorized to view conclave decisions''"
| "mcp_message quote (McpOther s) = s"

definition error_code :: "string \<Rightarrow> string" where
  "error_code msg =
     (let lower = to_lower msg in
      if str_contains lower ''bearer token'' \<or> str_contains lower ''not authorized'' \<or> str_contains lower ''not allowed'' then ''authz_denied''
      else if str_contains lower ''not found'' then ''not_found''
      else ''tool_error'')"

definition errText :: "('c, 'd) mcp_env \<Rightarrow> mcp_error \<Rightarrow> ('c, 'd) mcp_reply" where
  "errText E e = (let msg = mcp_message (me_quote E) e in McpErr (error_code msg) msg)"

definition plane_errText :: "('c, 'd) mcp_env \<Rightarrow> plane_error \<Rightarrow> ('c, 'd) mcp_reply" where
  "plane_errText E e = errText E (McpOther (me_text E e))"

definition blockedResult :: "('c, 'd) mcp_env \<Rightarrow> (plane_error, tool_result) result \<Rightarrow> ('c, 'd) mcp_reply option" where
  "blockedResult E res =
     (case res of
        Inl e \<Rightarrow> Some (plane_errText E e)
      | Inr t \<Rightarrow>
          if tr_verdict t = VerdictDeny then Some (McpDenied (tr_reason t))
          else if tr_verdict t = VerdictRequireApprove then Some (McpApproval (tr_approval_id t) (tr_reason t))
          else None)"

definition execResult :: "('c, 'd) mcp_env \<Rightarrow> (plane_error, tool_result) result \<Rightarrow> ('c, 'd) mcp_reply" where
  "execResult E res =
     (case (blockedResult E res, res) of
        (None, Inr t) \<Rightarrow> McpOk (PExec (tr_verdict t) (tr_exit_code t) (tr_stdout t) (tr_stderr t) (tr_duration_ms t))
      | (Some b, _) \<Rightarrow> b
      | (None, Inl e) \<Rightarrow> plane_errText E e)"

definition rawResult :: "('c, 'd) mcp_env \<Rightarrow> (plane_error, tool_result) result \<Rightarrow> ('c, 'd) mcp_reply" where
  "rawResult E res =
     (case (blockedResult E res, res) of
        (None, Inr t) \<Rightarrow> McpOk (PRaw (tr_verdict t) (tr_stdout t))
      | (Some b, _) \<Rightarrow> b
      | (None, Inl e) \<Rightarrow> plane_errText E e)"

section \<open>Checks\<close>

text \<open>Every tool starts with the error of the resolver, then the identity.\<close>

definition mcp_caller ::
  "('c, 'd) mcp_env \<Rightarrow> (string, principal_resolver) result \<Rightarrow> string option \<Rightarrow> (mcp_error, principal_identity) result" where
  "mcp_caller E R req = (case R of Inl err \<Rightarrow> Inl (McpResolver err) | Inr r \<Rightarrow> resolve_identity (me_sha E) (me_oidc E) r req)"

definition foreign :: "principal_identity \<Rightarrow> string option \<Rightarrow> bool" where
  "foreign p owner \<longleftrightarrow> owner = None \<or> (pi_principal p \<noteq> None \<and> \<not> identity_isAdmin p \<and> owner \<noteq> Some (pi_owner p))"

definition authorizeSandbox ::
  "('c, 'd) mcp_env \<Rightarrow> (string, principal_resolver) result \<Rightarrow> string option \<Rightarrow> string \<Rightarrow> 'c mcp_world \<Rightarrow> (mcp_error, principal_identity) result" where
  "authorizeSandbox E R req sb w =
     (case mcp_caller E R req of
        Inl e \<Rightarrow> Inl e
      | Inr p \<Rightarrow> if foreign p (SandboxOwner sb (pl_mgr (mw_plane w))) then Inl McpNoCitadel else Inr p)"

text \<open>The context of the call, with the caller as its actor.\<close>

definition authorizeSandboxContext ::
  "('c, 'd) mcp_env \<Rightarrow> (string, principal_resolver) result \<Rightarrow> string option \<Rightarrow> string \<Rightarrow> 'c mcp_world \<Rightarrow> (mcp_error, 'c call_env) result" where
  "authorizeSandboxContext E R req sb w =
     (case authorizeSandbox E R req sb w of
        Inl e \<Rightarrow> Inl e
      | Inr p \<Rightarrow> Inr ((me_cv E)\<lparr>cv_actor := WithActor (cv_actor (me_cv E)) (pi_actor p)\<rparr>))"

definition authorizeFleet ::
  "('c, 'd) mcp_env \<Rightarrow> (string, principal_resolver) result \<Rightarrow> string option \<Rightarrow> string \<Rightarrow> 'c mcp_world \<Rightarrow> (mcp_error, principal_identity) result" where
  "authorizeFleet E R req fleet w =
     (case mcp_caller E R req of
        Inl e \<Rightarrow> Inl e
      | Inr p \<Rightarrow> if foreign p (FleetOwner fleet (mw_fleets w)) then Inl McpNoCohort else Inr p)"

definition identity_restricted :: "principal_identity \<Rightarrow> bool" where
  "identity_restricted p = (pi_principal p \<noteq> None \<and> \<not> identity_isAdmin p)"

abbreviation mw_mgr :: "'c mcp_world \<Rightarrow> 'c manager" where
  "mw_mgr w \<equiv> pl_mgr (mw_plane w)"

definition set_mgr :: "'c manager \<Rightarrow> 'c mcp_world \<Rightarrow> 'c mcp_world" where
  "set_mgr m w = w\<lparr>mw_plane := (mw_plane w)\<lparr>pl_mgr := m\<rparr>\<rparr>"

section \<open>Tools about the caller and the charters\<close>

definition mcp_whoami ::
  "('c::{zero,plus,linorder}, 'd) mcp_env \<Rightarrow> (string, principal_resolver) result \<Rightarrow> string option \<Rightarrow> 'c mcp_world \<Rightarrow> ('c, 'd) mcp_outcome" where
  "mcp_whoami E R req w =
     (case mcp_caller E R req of
        Inl e \<Rightarrow> (errText E e, None, w)
      | Inr p \<Rightarrow>
          (McpOk (PWhoami p), None, w))"

definition mcp_list_charters ::
  "('c::{zero,plus,linorder}, 'd) mcp_env \<Rightarrow> (string, principal_resolver) result \<Rightarrow> string option \<Rightarrow> 'c mcp_world \<Rightarrow> ('c, 'd) mcp_outcome" where
  "mcp_list_charters E R req w =
     (case mcp_caller E R req of
        Inl e \<Rightarrow> (errText E e, None, w)
      | Inr p \<Rightarrow>
          (case me_profiles E of
             None \<Rightarrow> (plane_errText E PeProfiles, None, w)
           | Some names \<Rightarrow>
               (McpOk (PCharters (if identity_restricted p then filter (identity_canLaunch (me_pm E) p) names else names)), None, w)))"

definition mcp_readiness ::
  "('c::{zero,plus,linorder}, 'd) mcp_env \<Rightarrow> (string, principal_resolver) result \<Rightarrow> string option \<Rightarrow> string \<Rightarrow> 'c mcp_world \<Rightarrow> ('c, 'd) mcp_outcome" where
  "mcp_readiness E R req profileName w =
     (case mcp_caller E R req of
        Inl e \<Rightarrow> (errText E e, None, w)
      | Inr p \<Rightarrow>
          if \<not> identity_canLaunch (me_pm E) p profileName then (errText E McpNoCharter, None, w)
          else (McpOk (PDocument (me_ready E profileName)), None, w))"

definition mcp_create_citadel ::
  "('c::{zero,plus,linorder}, 'd) mcp_env \<Rightarrow> (string, principal_resolver) result \<Rightarrow> string option \<Rightarrow> create_request \<Rightarrow> 'c mcp_world \<Rightarrow> ('c, 'd) mcp_outcome" where
  "mcp_create_citadel E R req q w =
     (case mcp_caller E R req of
        Inl e \<Rightarrow> (errText E e, None, w)
      | Inr p \<Rightarrow>
          if \<not> identity_canLaunch (me_pm E) p (cq_profile q) then (errText E (McpLaunch (pi_actor p) (cq_profile q)), None, w)
          else if trim_space (cq_copy_from q) \<noteq> [] \<and> pi_principal p \<noteq> None \<and> \<not> identity_isAdmin p then (errText E McpCopyAdmin, None, w)
          else if trim_space (cq_copy_from q) \<noteq> [] \<and> pi_principal p \<noteq> None \<and> trim_space (me_roots E) = [] then (errText E McpCopyRoots, None, w)
          else
            (let (killed, res, pl) = CreateSandbox (me_G E) (me_create E)
                   \<lparr>co_owner = pi_owner p, co_actor = pi_actor p, co_parent = cq_parent q, co_run_id = cq_run_id q, co_agent = cq_agent q,
                    co_provider = cq_provider q, co_model = cq_model q\<rparr> (cv_actor (me_cv E)) (cq_profile q) (mw_plane w);
                 w' = w\<lparr>mw_plane := pl, mw_killed := mw_killed w @ killed\<rparr>
             in (case res of Inl e \<Rightarrow> plane_errText E (PeCreate e) | Inr sb \<Rightarrow> McpOk (PSandbox sb), None, w')))"

definition mcp_list_citadels ::
  "('c::{zero,plus,linorder}, 'd) mcp_env \<Rightarrow> (string, principal_resolver) result \<Rightarrow> string option \<Rightarrow> 'c mcp_world \<Rightarrow> ('c, 'd) mcp_outcome" where
  "mcp_list_citadels E R req w =
     (case mcp_caller E R req of
        Inl e \<Rightarrow> (errText E e, None, w)
      | Inr p \<Rightarrow>
          (McpOk (PSandboxes (filter (\<lambda>(sb, owner). \<not> (identity_restricted p \<and> owner \<noteq> pi_owner p)) (ListSandboxInfos (me_ids E) (mw_mgr w)))),
           None, w))"

definition mcp_list_runs ::
  "('c::{zero,plus,linorder}, 'd) mcp_env \<Rightarrow> (string, principal_resolver) result \<Rightarrow> string option \<Rightarrow> 'c mcp_world \<Rightarrow> ('c, 'd) mcp_outcome" where
  "mcp_list_runs E R req w =
     (case mcp_caller E R req of
        Inl e \<Rightarrow> (errText E e, None, w)
      | Inr p \<Rightarrow>
          (let runs = ListRuns (pl_runs (mw_plane w)) in
           (McpOk (PRuns (if identity_restricted p then filter (\<lambda>r. rn_tenant r = pi_owner p) runs else runs)), None, w)))"

section \<open>Tools that run in a sandbox\<close>

definition mcp_shell ::
  "('c::{zero,plus,linorder}, 'd) mcp_env \<Rightarrow> (string, principal_resolver) result \<Rightarrow> string option \<Rightarrow> string \<Rightarrow> string list \<Rightarrow> string \<Rightarrow> 'c mcp_world \<Rightarrow> ('c, 'd) mcp_outcome" where
  "mcp_shell E R req sb command workdir w =
     (case authorizeSandboxContext E R req sb w of
        Inl e \<Rightarrow> (errText E e, None, w)
      | Inr cv \<Rightarrow>
          (let (res, er, m) = Shell (me_G E) cv sb command workdir (mw_mgr w) in
           (execResult E (map_sum PeTool id res), er, set_mgr m w)))"

definition mcp_browser ::
  "('c::{zero,plus,linorder}, 'd) mcp_env \<Rightarrow> (string, principal_resolver) result \<Rightarrow> string option \<Rightarrow> string \<Rightarrow> string \<Rightarrow> string \<Rightarrow> 'c mcp_world \<Rightarrow> ('c, 'd) mcp_outcome" where
  "mcp_browser E R req sb url mode w =
     (case authorizeSandboxContext E R req sb w of
        Inl e \<Rightarrow> (errText E e, None, w)
      | Inr cv \<Rightarrow>
          (let (res, er, m) = Browser (me_G E) cv sb url mode (mw_mgr w) in
           (execResult E (map_sum PeTool id res), er, set_mgr m w)))"

definition mcp_browser_open ::
  "('c::{zero,plus,linorder}, 'd) mcp_env \<Rightarrow> (string, principal_resolver) result \<Rightarrow> string option \<Rightarrow> string \<Rightarrow> 'c mcp_world \<Rightarrow> ('c, 'd) mcp_outcome" where
  "mcp_browser_open E R req sb w =
     (case authorizeSandboxContext E R req sb w of
        Inl e \<Rightarrow> (errText E e, None, w)
      | Inr cv \<Rightarrow>
          (let (res, er, m, br) = BrowserOpen (me_bcodec E) (me_G E) cv (me_rid E) (me_btoken E) (me_rounds E) sb (mw_mgr w) (mw_browsers w);
               reply = (case res of
                          Inl e \<Rightarrow> plane_errText E (PeBrowser e)
                        | Inr (opened, t) \<Rightarrow>
                            if tr_verdict t \<noteq> VerdictAllow then execResult E (Inr t)
                            else McpOk (PText (''browser session '' @ (case opened of None \<Rightarrow> [] | Some sid \<Rightarrow> sid) @ '' opened'')))
           in (reply, er, (set_mgr m w)\<lparr>mw_browsers := br\<rparr>)))"

definition mcp_browser_act ::
  "('c::{zero,plus,linorder}, 'd) mcp_env \<Rightarrow> (string, principal_resolver) result \<Rightarrow> string option \<Rightarrow> string \<Rightarrow> string \<Rightarrow> browser_command \<Rightarrow> 'c mcp_world \<Rightarrow> ('c, 'd) mcp_outcome" where
  "mcp_browser_act E R req sb sid cmd w =
     (case authorizeSandboxContext E R req sb w of
        Inl e \<Rightarrow> (errText E e, None, w)
      | Inr cv \<Rightarrow>
          (let (res, er, m) = BrowserAct (me_bcodec E) (me_G E) cv sb sid (cmd\<lparr>bc_token := []\<rparr>) (mw_mgr w) (mw_browsers w) in
           (execResult E (map_sum PeBrowser id res), er, set_mgr m w)))"

definition mcp_browser_close ::
  "('c::{zero,plus,linorder}, 'd) mcp_env \<Rightarrow> (string, principal_resolver) result \<Rightarrow> string option \<Rightarrow> string \<Rightarrow> string \<Rightarrow> 'c mcp_world \<Rightarrow> ('c, 'd) mcp_outcome" where
  "mcp_browser_close E R req sb sid w =
     (case authorizeSandboxContext E R req sb w of
        Inl e \<Rightarrow> (errText E e, None, w)
      | Inr cv \<Rightarrow>
          (let (err, er, m, br) = BrowserClose (me_bcodec E) (me_G E) (cv_actor cv) sb sid (mw_mgr w) (mw_browsers w) in
           (case err of Some e \<Rightarrow> plane_errText E (PeBrowser e) | None \<Rightarrow> McpOk (PText (''browser session '' @ sid @ '' closed'')),
            er, (set_mgr m w)\<lparr>mw_browsers := br\<rparr>)))"

definition mcp_python ::
  "('c::{zero,plus,linorder}, 'd) mcp_env \<Rightarrow> (string, principal_resolver) result \<Rightarrow> string option \<Rightarrow> string \<Rightarrow> string \<Rightarrow> 'c mcp_world \<Rightarrow> ('c, 'd) mcp_outcome" where
  "mcp_python E R req sb code w =
     (case authorizeSandboxContext E R req sb w of
        Inl e \<Rightarrow> (errText E e, None, w)
      | Inr cv \<Rightarrow>
          (let (res, er, m) = Python (me_G E) cv sb code (mw_mgr w) in
           (execResult E (map_sum PeTool id res), er, set_mgr m w)))"

definition mcp_node ::
  "('c::{zero,plus,linorder}, 'd) mcp_env \<Rightarrow> (string, principal_resolver) result \<Rightarrow> string option \<Rightarrow> string \<Rightarrow> string \<Rightarrow> 'c mcp_world \<Rightarrow> ('c, 'd) mcp_outcome" where
  "mcp_node E R req sb code w =
     (case authorizeSandboxContext E R req sb w of
        Inl e \<Rightarrow> (errText E e, None, w)
      | Inr cv \<Rightarrow>
          (let (res, er, m) = Node (me_G E) cv sb code (mw_mgr w) in
           (execResult E (map_sum PeTool id res), er, set_mgr m w)))"

definition mcp_read_file ::
  "('c::{zero,plus,linorder}, 'd) mcp_env \<Rightarrow> (string, principal_resolver) result \<Rightarrow> string option \<Rightarrow> string \<Rightarrow> string \<Rightarrow> 'c mcp_world \<Rightarrow> ('c, 'd) mcp_outcome" where
  "mcp_read_file E R req sb path w =
     (case authorizeSandboxContext E R req sb w of
        Inl e \<Rightarrow> (errText E e, None, w)
      | Inr cv \<Rightarrow>
          (let (res, er, m) = FileRead (me_G E) cv sb path (mw_mgr w) in
           (rawResult E (map_sum PeTool id res), er, set_mgr m w)))"

definition mcp_write_file ::
  "('c::{zero,plus,linorder}, 'd) mcp_env \<Rightarrow> (string, principal_resolver) result \<Rightarrow> string option \<Rightarrow> string \<Rightarrow> string \<Rightarrow> string \<Rightarrow> 'c mcp_world \<Rightarrow> ('c, 'd) mcp_outcome" where
  "mcp_write_file E R req sb path data w =
     (case authorizeSandboxContext E R req sb w of
        Inl e \<Rightarrow> (errText E e, None, w)
      | Inr cv \<Rightarrow>
          (let (res, er, m) = FileWrite (me_G E) cv sb path data (mw_mgr w) in
           (case blockedResult E (map_sum PeTool id res) of Some b \<Rightarrow> b | None \<Rightarrow> McpOk (PWritten (length data) path), er, set_mgr m w)))"

definition mcp_list_files ::
  "('c::{zero,plus,linorder}, 'd) mcp_env \<Rightarrow> (string, principal_resolver) result \<Rightarrow> string option \<Rightarrow> string \<Rightarrow> string \<Rightarrow> 'c mcp_world \<Rightarrow> ('c, 'd) mcp_outcome" where
  "mcp_list_files E R req sb path w =
     (case authorizeSandboxContext E R req sb w of
        Inl e \<Rightarrow> (errText E e, None, w)
      | Inr cv \<Rightarrow>
          (let (res, er, m) = FileList (me_G E) cv sb path (mw_mgr w) in
           (rawResult E (map_sum PeTool id res), er, set_mgr m w)))"

definition mcp_search_files ::
  "('c::{zero,plus,linorder}, 'd) mcp_env \<Rightarrow> (string, principal_resolver) result \<Rightarrow> string option \<Rightarrow> string \<Rightarrow> string \<Rightarrow> string \<Rightarrow> 'c mcp_world \<Rightarrow> ('c, 'd) mcp_outcome" where
  "mcp_search_files E R req sb query path w =
     (case authorizeSandboxContext E R req sb w of
        Inl e \<Rightarrow> (errText E e, None, w)
      | Inr cv \<Rightarrow>
          (let (res, er, m) = FileSearch (me_G E) cv sb query path (mw_mgr w) in
           (rawResult E (map_sum PeTool id res), er, set_mgr m w)))"

section \<open>Approvals, usage, conversations, snapshots and evidence\<close>

definition mcp_list_conclave ::
  "('c::{zero,plus,linorder}, 'd) mcp_env \<Rightarrow> (string, principal_resolver) result \<Rightarrow> string option \<Rightarrow> 'c mcp_world \<Rightarrow> ('c, 'd) mcp_outcome" where
  "mcp_list_conclave E R req w =
     (case mcp_caller E R req of
        Inl e \<Rightarrow> (errText E e, None, w)
      | Inr p \<Rightarrow>
          if \<not> identity_mayApprove p then (errText E McpConclave, None, w)
          else
            (let pending = List_approvals (mg_approvals (mw_mgr w));
                 seen = (if identity_restricted p then filter (reviewable (me_pm E) (pi_principal p) (mw_mgr w)) pending else pending)
             in (McpOk (PApprovals (sort_key ap_created seen)), None, w)))"

definition mcp_kill_citadel ::
  "('c::{zero,plus,linorder}, 'd) mcp_env \<Rightarrow> (string, principal_resolver) result \<Rightarrow> string option \<Rightarrow> string \<Rightarrow> 'c mcp_world \<Rightarrow> ('c, 'd) mcp_outcome" where
  "mcp_kill_citadel E R req sb w =
     (case authorizeSandboxContext E R req sb w of
        Inl e \<Rightarrow> (errText E e, None, w)
      | Inr cv \<Rightarrow>
          (let (err, _, pl, hub) = kill_with_feed (me_G E) (me_runs_codec E) (me_io E) (me_now E) (cv_actor cv) (me_kill_err E sb) sb (mw_plane w, mw_hub w) in
           (case err of Some e \<Rightarrow> plane_errText E (PeOp e) | None \<Rightarrow> McpOk (PDone sb), None, w\<lparr>mw_plane := pl, mw_hub := hub\<rparr>)))"

definition mcp_report_usage ::
  "('c::{zero,plus,linorder}, 'd) mcp_env \<Rightarrow> (string, principal_resolver) result \<Rightarrow> string option \<Rightarrow> string \<Rightarrow> 64 word \<Rightarrow> 'c \<Rightarrow> 'c mcp_world \<Rightarrow> ('c, 'd) mcp_outcome" where
  "mcp_report_usage E R req sb tokens cost w =
     (case authorizeSandboxContext E R req sb w of
        Inl e \<Rightarrow> (errText E e, None, w)
      | Inr cv \<Rightarrow>
          (let (err, m) = RecordUsageContext (me_G E) (me_cost E) (cv_actor cv) sb tokens cost (mw_mgr w) in
           (case err of Some e \<Rightarrow> plane_errText E (PeOp e) | None \<Rightarrow> McpOk (PUsage (SandboxUsage sb m)), None, set_mgr m w)))"

definition mcp_publish_conversation ::
  "('c::{zero,plus,linorder}, 'd) mcp_env \<Rightarrow> (string, principal_resolver) result \<Rightarrow> string option \<Rightarrow> string \<Rightarrow> string \<Rightarrow> string \<Rightarrow> string \<Rightarrow> 'c mcp_world \<Rightarrow> ('c, 'd) mcp_outcome" where
  "mcp_publish_conversation E R req sb role body runID w =
     (case authorizeSandboxContext E R req sb w of
        Inl e \<Rightarrow> (errText E e, None, w)
      | Inr cv \<Rightarrow>
          (let (res, hub) = PublishConversation (gp_scrub (me_G E)) (me_now E) (me_raced E) (cv_actor cv) sb role body runID (mw_mgr w) (mw_hub w) in
           (case res of Inl e \<Rightarrow> plane_errText E (PeConv e) | Inr msg \<Rightarrow> McpOk (PMessage msg), None, w\<lparr>mw_hub := hub\<rparr>)))"

definition mcp_list_conversation ::
  "('c::{zero,plus,linorder}, 'd) mcp_env \<Rightarrow> (string, principal_resolver) result \<Rightarrow> string option \<Rightarrow> string \<Rightarrow> nat \<Rightarrow> int \<Rightarrow> 'c mcp_world \<Rightarrow> ('c, 'd) mcp_outcome" where
  "mcp_list_conversation E R req sb afterID limit w =
     (case authorizeSandbox E R req sb w of
        Inl e \<Rightarrow> (errText E e, None, w)
      | Inr p \<Rightarrow>
          (case ConversationHistory sb afterID limit (mw_mgr w) (mw_hub w) of
             Inl e \<Rightarrow> (plane_errText E (PeConv e), None, w)
           | Inr msgs \<Rightarrow> (McpOk (PMessages msgs), None, w)))"

definition mcp_snapshot_citadel ::
  "('c::{zero,plus,linorder}, 'd) mcp_env \<Rightarrow> (string, principal_resolver) result \<Rightarrow> string option \<Rightarrow> string \<Rightarrow> string \<Rightarrow> 'c mcp_world \<Rightarrow> ('c, 'd) mcp_outcome" where
  "mcp_snapshot_citadel E R req sb name w =
     (case authorizeSandboxContext E R req sb w of
        Inl e \<Rightarrow> (errText E e, None, w)
      | Inr cv \<Rightarrow>
          (let (res, s, m) = Snapshot (me_G E) (me_snap_codec E) (me_io E) (cv_actor cv) (me_taken E) sb name (mw_snaps w) (mw_mgr w) in
           (case res of Inl e \<Rightarrow> plane_errText E (PeSnap e) | Inr ref \<Rightarrow> McpOk (PSnapshot ref), None, (set_mgr m w)\<lparr>mw_snaps := s\<rparr>)))"

definition mcp_list_snapshots ::
  "('c::{zero,plus,linorder}, 'd) mcp_env \<Rightarrow> (string, principal_resolver) result \<Rightarrow> string option \<Rightarrow> 'c mcp_world \<Rightarrow> ('c, 'd) mcp_outcome" where
  "mcp_list_snapshots E R req w =
     (case mcp_caller E R req of
        Inl e \<Rightarrow> (errText E e, None, w)
      | Inr p \<Rightarrow>
          (let refs = ListSnapshots (mw_snaps w) in
           (McpOk (PSnapshots (if identity_restricted p then filter (\<lambda>ref. SnapshotOwner (sr_id ref) (mw_snaps w) = Some (pi_owner p)) refs else refs)),
            None, w)))"

definition mcp_export_evidence ::
  "('c::{zero,plus,linorder}, 'd) mcp_env \<Rightarrow> (string, principal_resolver) result \<Rightarrow> string option \<Rightarrow> string \<Rightarrow> 'c mcp_world \<Rightarrow> ('c, 'd) mcp_outcome" where
  "mcp_export_evidence E R req sb w =
     (case authorizeSandbox E R req sb w of
        Inl e \<Rightarrow> (errText E e, None, w)
      | Inr p \<Rightarrow>
          (case me_evidence E sb of
             None \<Rightarrow> (plane_errText E PeEvidence, None, w)
           | Some doc \<Rightarrow> (McpOk (PDocument doc), None, w)))"

definition mcp_verify_chronicle ::
  "('c::{zero,plus,linorder}, 'd) mcp_env \<Rightarrow> (string, principal_resolver) result \<Rightarrow> string option \<Rightarrow> 'c mcp_world \<Rightarrow> ('c, 'd) mcp_outcome" where
  "mcp_verify_chronicle E R req w =
     (case mcp_caller E R req of
        Inl e \<Rightarrow> (errText E e, None, w)
      | Inr p \<Rightarrow>
          (McpOk (PVerified (me_verify E)), None, w))"

section \<open>Cohorts\<close>

text \<open>The members of a cohort, created one after the other until one fails: the sandboxes killed on the way, and
  the outcome of every call.\<close>

fun create_members ::
  "'c govprims \<Rightarrow> create_options \<Rightarrow> string option \<Rightarrow> string \<Rightarrow> nat \<Rightarrow> 'c create_env list \<Rightarrow> 'c plane \<Rightarrow>
   string list \<times> string option list \<times> 'c plane" where
  "create_members G opts ctx profileName (Suc n) (e # es) pl =
     (case CreateSandbox G e opts ctx profileName pl of
        (killed, Inl _, pl') \<Rightarrow> (killed, [None], pl')
      | (killed, Inr sb, pl') \<Rightarrow>
          (let (killed', sbs, pl'') = create_members G opts ctx profileName n es pl' in (killed @ killed', Some sb # sbs, pl'')))"
| "create_members G opts ctx profileName n es pl = ([], [], pl)"

definition replicas_of :: "(int \<times> string list) option option \<Rightarrow> nat" where
  "replicas_of cohort = (case cohort of None \<Rightarrow> 0 | Some None \<Rightarrow> 1 | Some (Some (r, _)) \<Rightarrow> if r > 0 then nat r else 1)"

definition kill_members :: "('c, 'd) mcp_env \<Rightarrow> string option \<Rightarrow> string list \<Rightarrow> 'c mcp_world \<Rightarrow> 'c mcp_world" where
  "kill_members E ctx sbs w =
     foldl (\<lambda>w sb. let (_, _, pl, hub) = kill_with_feed (me_G E) (me_runs_codec E) (me_io E) (me_now E) ctx (me_kill_err E sb) sb (mw_plane w, mw_hub w)
                    in w\<lparr>mw_plane := pl, mw_hub := hub\<rparr>) w sbs"

definition mcp_create_cohort ::
  "('c::{zero,plus,linorder}, 'd) mcp_env \<Rightarrow> (string, principal_resolver) result \<Rightarrow> string option \<Rightarrow> string \<Rightarrow> 'c mcp_world \<Rightarrow> ('c, 'd) mcp_outcome" where
  "mcp_create_cohort E R req profileName w =
     (case mcp_caller E R req of
        Inl e \<Rightarrow> (errText E e, None, w)
      | Inr p \<Rightarrow>
          if \<not> identity_canLaunch (me_pm E) p profileName then (errText E (McpLaunch (pi_actor p) profileName), None, w)
          else
            (let opts = \<lparr>co_owner = pi_owner p, co_actor = pi_actor p, co_parent = [], co_run_id = [], co_agent = [], co_provider = [], co_model = []\<rparr>;
                 (killed, sbs, pl) = create_members (me_G E) opts (cv_actor (me_cv E)) profileName (replicas_of (me_cohort E)) (me_members E) (mw_plane w);
                 (doomed, res, fc) = CreateFleetForIdentity (me_fleet_codec E) (me_io E) (me_now E) (me_fid E) (me_task_ids E) sbs (me_cohort E)
                   profileName (pi_owner p) (mw_fleets w);
                 w' = kill_members E None doomed (w\<lparr>mw_plane := pl, mw_fleets := fc, mw_killed := mw_killed w @ killed\<rparr>)
             in (case res of Inl e \<Rightarrow> plane_errText E (PeFleet e) | Inr v \<Rightarrow> McpOk (PFleet v), None, w')))"

definition mcp_list_cohorts ::
  "('c::{zero,plus,linorder}, 'd) mcp_env \<Rightarrow> (string, principal_resolver) result \<Rightarrow> string option \<Rightarrow> 'c mcp_world \<Rightarrow> ('c, 'd) mcp_outcome" where
  "mcp_list_cohorts E R req w =
     (case mcp_caller E R req of
        Inl e \<Rightarrow> (errText E e, None, w)
      | Inr p \<Rightarrow>
          (let fleets = ListFleets (mw_fleets w) in
           (McpOk (PFleets (if identity_restricted p then filter (\<lambda>v. fv_owner v = pi_owner p) fleets else fleets)), None, w)))"

definition mcp_list_tasks ::
  "('c::{zero,plus,linorder}, 'd) mcp_env \<Rightarrow> (string, principal_resolver) result \<Rightarrow> string option \<Rightarrow> string \<Rightarrow> 'c mcp_world \<Rightarrow> ('c, 'd) mcp_outcome" where
  "mcp_list_tasks E R req fleet w =
     (case authorizeFleet E R req fleet w of
        Inl e \<Rightarrow> (errText E e, None, w)
      | Inr p \<Rightarrow>
          (case ListTasks fleet (mw_fleets w) of
             Inl e \<Rightarrow> (plane_errText E (PeFleet e), None, w)
           | Inr tasks \<Rightarrow> (McpOk (PTasks tasks), None, w)))"

definition mcp_add_task ::
  "('c::{zero,plus,linorder}, 'd) mcp_env \<Rightarrow> (string, principal_resolver) result \<Rightarrow> string option \<Rightarrow> string \<Rightarrow> string \<Rightarrow> 'c mcp_world \<Rightarrow> ('c, 'd) mcp_outcome" where
  "mcp_add_task E R req fleet payload w =
     (case authorizeFleet E R req fleet w of
        Inl e \<Rightarrow> (errText E e, None, w)
      | Inr p \<Rightarrow>
          (let (res, fc) = AddTask (me_fleet_codec E) (me_io E) (me_now E) (me_tid E) fleet payload (mw_fleets w) in
           (case res of Inl e \<Rightarrow> plane_errText E (PeFleet e) | Inr t \<Rightarrow> McpOk (PTask t), None, w\<lparr>mw_fleets := fc\<rparr>)))"

definition mcp_claim_task ::
  "('c::{zero,plus,linorder}, 'd) mcp_env \<Rightarrow> (string, principal_resolver) result \<Rightarrow> string option \<Rightarrow> string \<Rightarrow> 'c mcp_world \<Rightarrow> ('c, 'd) mcp_outcome" where
  "mcp_claim_task E R req fleet w =
     (case authorizeFleet E R req fleet w of
        Inl e \<Rightarrow> (errText E e, None, w)
      | Inr p \<Rightarrow>
          (let (res, fc) = ClaimTask (me_fleet_codec E) (me_tok E) (me_io E) (me_now E) (me_nonce E) fleet (pi_actor p) (mw_fleets w) in
           (case res of Inl e \<Rightarrow> plane_errText E (PeFleet e) | Inr t \<Rightarrow> McpOk (PClaim t), None, w\<lparr>mw_fleets := fc\<rparr>)))"

definition mcp_heartbeat_task ::
  "('c::{zero,plus,linorder}, 'd) mcp_env \<Rightarrow> (string, principal_resolver) result \<Rightarrow> string option \<Rightarrow> string \<Rightarrow> string \<Rightarrow> string \<Rightarrow> 'c mcp_world \<Rightarrow> ('c, 'd) mcp_outcome" where
  "mcp_heartbeat_task E R req fleet tid token w =
     (case authorizeFleet E R req fleet w of
        Inl e \<Rightarrow> (errText E e, None, w)
      | Inr p \<Rightarrow>
          (let (res, fc) = HeartbeatTask (me_fleet_codec E) (me_tok E) (me_io E) (me_now E) (me_nonce E) fleet tid (pi_actor p) token (mw_fleets w) in
           (case res of Inl e \<Rightarrow> plane_errText E (PeFleet e) | Inr t \<Rightarrow> McpOk (PTask t), None, w\<lparr>mw_fleets := fc\<rparr>)))"

definition mcp_complete_task ::
  "('c::{zero,plus,linorder}, 'd) mcp_env \<Rightarrow> (string, principal_resolver) result \<Rightarrow> string option \<Rightarrow> string \<Rightarrow> string \<Rightarrow> string \<Rightarrow> string \<Rightarrow> 'c mcp_world \<Rightarrow> ('c, 'd) mcp_outcome" where
  "mcp_complete_task E R req fleet tid token result0 w =
     (case authorizeFleet E R req fleet w of
        Inl e \<Rightarrow> (errText E e, None, w)
      | Inr p \<Rightarrow>
          (let (res, fc) = CompleteTask (me_fleet_codec E) (me_tok E) (me_io E) (me_now E) fleet tid (pi_actor p) token result0 (mw_fleets w) in
           (case res of Some e \<Rightarrow> plane_errText E (PeFleet e) | None \<Rightarrow> McpOk (PState tid ''done''), None, w\<lparr>mw_fleets := fc\<rparr>)))"

definition mcp_fail_task ::
  "('c::{zero,plus,linorder}, 'd) mcp_env \<Rightarrow> (string, principal_resolver) result \<Rightarrow> string option \<Rightarrow> string \<Rightarrow> string \<Rightarrow> string \<Rightarrow> string \<Rightarrow> bool \<Rightarrow> 'c mcp_world \<Rightarrow> ('c, 'd) mcp_outcome" where
  "mcp_fail_task E R req fleet tid token msg requeue w =
     (case authorizeFleet E R req fleet w of
        Inl e \<Rightarrow> (errText E e, None, w)
      | Inr p \<Rightarrow>
          (let (res, fc) = FailTask (me_fleet_codec E) (me_tok E) (me_io E) (me_now E) fleet tid (pi_actor p) token msg requeue (mw_fleets w) in
           (case res of Some e \<Rightarrow> plane_errText E (PeFleet e)
            | None \<Rightarrow> McpOk (PState tid (if requeue then ''failed and requeued'' else ''failed'')), None, w\<lparr>mw_fleets := fc\<rparr>)))"

definition mcp_kill_cohort ::
  "('c::{zero,plus,linorder}, 'd) mcp_env \<Rightarrow> (string, principal_resolver) result \<Rightarrow> string option \<Rightarrow> string \<Rightarrow> 'c mcp_world \<Rightarrow> ('c, 'd) mcp_outcome" where
  "mcp_kill_cohort E R req fleet w =
     (case authorizeFleet E R req fleet w of
        Inl e \<Rightarrow> (errText E e, None, w)
      | Inr p \<Rightarrow>
          (let (members, err, fc) = KillFleet (me_fleet_codec E) (me_io E) fleet (mw_fleets w) in
           (case err of Some e \<Rightarrow> plane_errText E (PeFleet e) | None \<Rightarrow> McpOk (PDone fleet), None,
            kill_members E (cv_actor (me_cv E)) members (w\<lparr>mw_fleets := fc\<rparr>))))"

section \<open>The tools of the server\<close>

datatype 'c mcp_call =
    Tool_whoami
  | Tool_list_charters
  | Tool_readiness string
  | Tool_create_citadel create_request
  | Tool_list_citadels
  | Tool_list_runs
  | Tool_shell string "string list" string
  | Tool_browser string string string
  | Tool_browser_open string
  | Tool_browser_act string string browser_command
  | Tool_browser_close string string
  | Tool_python string string
  | Tool_node string string
  | Tool_read_file string string
  | Tool_write_file string string string
  | Tool_list_files string string
  | Tool_search_files string string string
  | Tool_list_conclave
  | Tool_kill_citadel string
  | Tool_report_usage string "64 word" "'c"
  | Tool_publish_conversation string string string string
  | Tool_list_conversation string nat int
  | Tool_snapshot_citadel string string
  | Tool_list_snapshots
  | Tool_export_evidence string
  | Tool_verify_chronicle
  | Tool_create_cohort string
  | Tool_list_cohorts
  | Tool_list_tasks string
  | Tool_add_task string string
  | Tool_claim_task string
  | Tool_heartbeat_task string string string
  | Tool_complete_task string string string string
  | Tool_fail_task string string string string bool
  | Tool_kill_cohort string

fun mcp_serve ::
  "('c::{zero,plus,linorder}, 'd) mcp_env \<Rightarrow> (string, principal_resolver) result \<Rightarrow> string option \<Rightarrow> 'c mcp_call \<Rightarrow> 'c mcp_world \<Rightarrow> ('c, 'd) mcp_outcome" where
  "mcp_serve E R req Tool_whoami w = mcp_whoami E R req w"
| "mcp_serve E R req Tool_list_charters w = mcp_list_charters E R req w"
| "mcp_serve E R req (Tool_readiness profileName) w = mcp_readiness E R req profileName w"
| "mcp_serve E R req (Tool_create_citadel q) w = mcp_create_citadel E R req q w"
| "mcp_serve E R req Tool_list_citadels w = mcp_list_citadels E R req w"
| "mcp_serve E R req Tool_list_runs w = mcp_list_runs E R req w"
| "mcp_serve E R req (Tool_shell sb command workdir) w = mcp_shell E R req sb command workdir w"
| "mcp_serve E R req (Tool_browser sb url mode) w = mcp_browser E R req sb url mode w"
| "mcp_serve E R req (Tool_browser_open sb) w = mcp_browser_open E R req sb w"
| "mcp_serve E R req (Tool_browser_act sb sid cmd) w = mcp_browser_act E R req sb sid cmd w"
| "mcp_serve E R req (Tool_browser_close sb sid) w = mcp_browser_close E R req sb sid w"
| "mcp_serve E R req (Tool_python sb code) w = mcp_python E R req sb code w"
| "mcp_serve E R req (Tool_node sb code) w = mcp_node E R req sb code w"
| "mcp_serve E R req (Tool_read_file sb path) w = mcp_read_file E R req sb path w"
| "mcp_serve E R req (Tool_write_file sb path data) w = mcp_write_file E R req sb path data w"
| "mcp_serve E R req (Tool_list_files sb path) w = mcp_list_files E R req sb path w"
| "mcp_serve E R req (Tool_search_files sb query path) w = mcp_search_files E R req sb query path w"
| "mcp_serve E R req Tool_list_conclave w = mcp_list_conclave E R req w"
| "mcp_serve E R req (Tool_kill_citadel sb) w = mcp_kill_citadel E R req sb w"
| "mcp_serve E R req (Tool_report_usage sb tokens cost) w = mcp_report_usage E R req sb tokens cost w"
| "mcp_serve E R req (Tool_publish_conversation sb role body runID) w = mcp_publish_conversation E R req sb role body runID w"
| "mcp_serve E R req (Tool_list_conversation sb afterID limit) w = mcp_list_conversation E R req sb afterID limit w"
| "mcp_serve E R req (Tool_snapshot_citadel sb name) w = mcp_snapshot_citadel E R req sb name w"
| "mcp_serve E R req Tool_list_snapshots w = mcp_list_snapshots E R req w"
| "mcp_serve E R req (Tool_export_evidence sb) w = mcp_export_evidence E R req sb w"
| "mcp_serve E R req Tool_verify_chronicle w = mcp_verify_chronicle E R req w"
| "mcp_serve E R req (Tool_create_cohort profileName) w = mcp_create_cohort E R req profileName w"
| "mcp_serve E R req Tool_list_cohorts w = mcp_list_cohorts E R req w"
| "mcp_serve E R req (Tool_list_tasks fleet) w = mcp_list_tasks E R req fleet w"
| "mcp_serve E R req (Tool_add_task fleet payload) w = mcp_add_task E R req fleet payload w"
| "mcp_serve E R req (Tool_claim_task fleet) w = mcp_claim_task E R req fleet w"
| "mcp_serve E R req (Tool_heartbeat_task fleet tid token) w = mcp_heartbeat_task E R req fleet tid token w"
| "mcp_serve E R req (Tool_complete_task fleet tid token result0) w = mcp_complete_task E R req fleet tid token result0 w"
| "mcp_serve E R req (Tool_fail_task fleet tid token msg requeue) w = mcp_fail_task E R req fleet tid token msg requeue w"
| "mcp_serve E R req (Tool_kill_cohort fleet) w = mcp_kill_cohort E R req fleet w"

text \<open>The sandbox, cohort or charter that a call names.\<close>

fun call_sandbox :: "'c mcp_call \<Rightarrow> string option" where
  "call_sandbox (Tool_shell sb _ _) = Some sb"
| "call_sandbox (Tool_browser sb _ _) = Some sb"
| "call_sandbox (Tool_browser_open sb) = Some sb"
| "call_sandbox (Tool_browser_act sb _ _) = Some sb"
| "call_sandbox (Tool_browser_close sb _) = Some sb"
| "call_sandbox (Tool_python sb _) = Some sb"
| "call_sandbox (Tool_node sb _) = Some sb"
| "call_sandbox (Tool_read_file sb _) = Some sb"
| "call_sandbox (Tool_write_file sb _ _) = Some sb"
| "call_sandbox (Tool_list_files sb _) = Some sb"
| "call_sandbox (Tool_search_files sb _ _) = Some sb"
| "call_sandbox (Tool_kill_citadel sb) = Some sb"
| "call_sandbox (Tool_report_usage sb _ _) = Some sb"
| "call_sandbox (Tool_publish_conversation sb _ _ _) = Some sb"
| "call_sandbox (Tool_list_conversation sb _ _) = Some sb"
| "call_sandbox (Tool_snapshot_citadel sb _) = Some sb"
| "call_sandbox (Tool_export_evidence sb) = Some sb"
| "call_sandbox _ = None"

fun call_fleet :: "'c mcp_call \<Rightarrow> string option" where
  "call_fleet (Tool_list_tasks fleet) = Some fleet"
| "call_fleet (Tool_add_task fleet _) = Some fleet"
| "call_fleet (Tool_claim_task fleet) = Some fleet"
| "call_fleet (Tool_heartbeat_task fleet _ _) = Some fleet"
| "call_fleet (Tool_complete_task fleet _ _ _) = Some fleet"
| "call_fleet (Tool_fail_task fleet _ _ _ _) = Some fleet"
| "call_fleet (Tool_kill_cohort fleet) = Some fleet"
| "call_fleet _ = None"

fun call_launch :: "'c mcp_call \<Rightarrow> string option" where
  "call_launch (Tool_create_citadel q) = Some (cq_profile q)"
| "call_launch (Tool_create_cohort profileName) = Some profileName"
| "call_launch _ = None"

lemmas mcp_tool_defs =
  mcp_whoami_def mcp_list_charters_def mcp_readiness_def mcp_create_citadel_def mcp_list_citadels_def mcp_list_runs_def mcp_shell_def mcp_browser_def mcp_browser_open_def mcp_browser_act_def mcp_browser_close_def mcp_python_def mcp_node_def mcp_read_file_def mcp_write_file_def mcp_list_files_def mcp_search_files_def mcp_list_conclave_def mcp_kill_citadel_def mcp_report_usage_def mcp_publish_conversation_def mcp_list_conversation_def mcp_snapshot_citadel_def mcp_list_snapshots_def mcp_export_evidence_def mcp_verify_chronicle_def mcp_create_cohort_def mcp_list_cohorts_def mcp_list_tasks_def mcp_add_task_def mcp_claim_task_def mcp_heartbeat_task_def mcp_complete_task_def mcp_fail_task_def mcp_kill_cohort_def

end
