(* ===== verification/Mcp_Access.thy ===== *)
theory Mcp_Access
  imports Mcp_Server
begin

text \<open>
  What the MCP front end lets through: no call acts without an identity, across tenants or without the right
  to launch; lists show a tenant only what is its own; and the tools that run in a sandbox do what their
  HTTP endpoints do.
\<close>

section \<open>Refused calls\<close>

lemma errText_error [simp]: "reply_error (errText E e)"
  by (simp add: errText_def Let_def)

lemmas authorize_defs = authorizeSandboxContext_def authorizeSandbox_def authorizeFleet_def

lemma serve_no_caller:
  assumes "mcp_caller E R req = Inl e"
  shows "mcp_serve E R req call w = (errText E e, None, w)"
  using assms by (cases call) (simp_all add: mcp_tool_defs authorize_defs)

lemma serve_foreign_sandbox:
  assumes "mcp_caller E R req = Inr p" "call_sandbox call = Some sb" "foreign p (SandboxOwner sb (mw_mgr w))"
  shows "mcp_serve E R req call w = (errText E McpNoCitadel, None, w)"
  using assms by (cases call) (simp_all add: mcp_tool_defs authorize_defs)

lemma serve_foreign_fleet:
  assumes "mcp_caller E R req = Inr p" "call_fleet call = Some fleet" "foreign p (FleetOwner fleet (mw_fleets w))"
  shows "mcp_serve E R req call w = (errText E McpNoCohort, None, w)"
  using assms by (cases call) (simp_all add: mcp_tool_defs authorize_defs)

lemma serve_no_launch:
  assumes "mcp_caller E R req = Inr p" "call_launch call = Some profile" "\<not> identity_canLaunch (me_pm E) p profile"
  shows "mcp_serve E R req call w = (errText E (McpLaunch (pi_actor p) profile), None, w)"
  using assms by (cases call) (simp_all add: mcp_tool_defs authorize_defs)

text \<open>The identity of a caller when an authorization store is configured.\<close>

definition mcp_principal :: "('c, 'd) mcp_env \<Rightarrow> principal_resolver \<Rightarrow> string option \<Rightarrow> principal \<Rightarrow> bool" where
  "mcp_principal E r req p \<longleftrightarrow>
     (case req of
        None \<Rightarrow> px_stdio_principal r = Some p
      | Some header \<Rightarrow> \<exists>tok. parseBearerToken header = Some tok \<and> Identify (me_sha E) (px_store r) (me_oidc E tok) tok = Some p)"

definition identity_of :: "principal \<Rightarrow> principal_identity" where
  "identity_of p = \<lparr>pi_owner = TenantID (Some p), pi_actor = pc_name p, pi_principal = Some p\<rparr>"

lemma newPrincipalResolver_stdio:
  assumes "newPrincipalResolver sha oidc getenv kept loaded = Inr r" "px_stdio_principal r = Some p"
  shows "px_stdio_owner r = TenantID (Some p)" "px_stdio_actor r = pc_name p"
  using assms by (auto simp: newPrincipalResolver_def Let_def split: sum.splits option.splits if_splits)

lemma caller_identity:
  assumes "newPrincipalResolver (me_sha E) (me_oidc E) getenv kept loaded = Inr r" "px_store r \<noteq> None"
    and "mcp_caller E (Inr r) req = Inr i"
  shows "\<exists>p. mcp_principal E r req p \<and> i = identity_of p"
  using assms(2,3) newPrincipalResolver_stdio [OF assms(1)]
  by (auto simp: mcp_caller_def resolve_identity_def mcp_principal_def identity_of_def split: option.splits if_splits)

lemma foreign_identity: "foreign (identity_of p) owner \<longleftrightarrow> owner = None \<or> \<not> pc_admin p \<and> owner \<noteq> Some (TenantID (Some p))"
  by (simp add: foreign_def identity_of_def identity_isAdmin_def)

text \<open>
  C18. MCP keeps tenants apart. With an authorization store configured, a tool call that answers with anything but
  an error, sends a command to a sandbox or changes the state comes from a principal of the store: the one of the bearer
  token of the request, or over stdio the one of the configured token. If the call launches a charter, the
  principal may launch it; and if it names a sandbox or a cohort, that belongs to the tenant of the principal,
  unless the principal is an administrator.
\<close>

theorem mcp_isolates_tenants:
  assumes "newPrincipalResolver (me_sha E) (me_oidc E) getenv kept loaded = Inr r" "px_store r \<noteq> None"
    and "mcp_serve E (Inr r) req call w = (reply, er, w')" "\<not> reply_error reply \<or> er \<noteq> None \<or> w' \<noteq> w"
  shows "\<exists>p. mcp_principal E r req p \<and>
    (\<forall>profile. call_launch call = Some profile \<longrightarrow> CanLaunch (me_pm E) (Some p) profile) \<and>
    (pc_admin p \<or>
      (\<forall>sb. call_sandbox call = Some sb \<longrightarrow> SandboxOwner sb (mw_mgr w) = Some (TenantID (Some p))) \<and>
      (\<forall>fleet. call_fleet call = Some fleet \<longrightarrow> FleetOwner fleet (mw_fleets w) = Some (TenantID (Some p))))"
proof -
  obtain i where i: "mcp_caller E (Inr r) req = Inr i"
    using serve_no_caller [of E "Inr r" req _ call w] assms(3,4) by (cases "mcp_caller E (Inr r) req") auto
  then obtain p where p: "mcp_principal E r req p" "i = identity_of p" using caller_identity [OF assms(1,2)] by blast
  have sb: "\<not> foreign i (SandboxOwner sb (mw_mgr w))" if "call_sandbox call = Some sb" for sb
    using serve_foreign_sandbox [OF i that] assms(3,4) by fastforce
  have fleet: "\<not> foreign i (FleetOwner fleet (mw_fleets w))" if "call_fleet call = Some fleet" for fleet
    using serve_foreign_fleet [OF i that] assms(3,4) by fastforce
  have launch: "identity_canLaunch (me_pm E) i profile" if "call_launch call = Some profile" for profile
    using serve_no_launch [OF i that] assms(3,4) by fastforce
  show ?thesis
    using p sb fleet launch unfolding p(2) foreign_identity by (auto simp: identity_canLaunch_def identity_of_def intro!: exI [of _ p])
qed

text \<open>A server with two principals, and a sandbox of the tenant of the first one.\<close>

definition tok0 :: tokprims where
  "tok0 = \<lparr>hmac256 = (\<lambda>k d. d), b64url_encode = (\<lambda>s. s), b64url_decode = (\<lambda>s. Some s), claims_encode = (\<lambda>_. []), claims_decode = (\<lambda>_. None)\<rparr>"

definition env0 :: "(int, string) mcp_env" where
  "env0 = \<lparr>me_sha = (\<lambda>s. s), me_oidc = (\<lambda>_. None), me_pm = (\<lambda>_ _. None), me_quote = (\<lambda>s. s), me_text = (\<lambda>_. ''failed''),
     me_G = prims0, me_cv = call0, me_bcodec = codec0, me_rid = ''s1'', me_btoken = ''t'', me_rounds = [], me_create = create0,
     me_members = [], me_roots = [], me_ids = [''sb''], me_profiles = Some [''p''], me_ready = (\<lambda>s. s), me_runs_codec = runs_json1,
     me_io = io1, me_now = 5, me_kill_err = (\<lambda>_. None), me_cost = cost0, me_raced = (\<lambda>_. False), me_snap_codec = snap_json1,
     me_taken = None, me_evidence = (\<lambda>_. None), me_verify = None, me_fleet_codec = json1, me_tok = tok0, me_nonce = None,
     me_fid = ''f'', me_task_ids = [], me_tid = ''t'', me_cohort = None\<rparr>"

definition world0 :: "int mcp_world" where
  "world0 = \<lparr>mw_plane = plane0\<lparr>pl_mgr := manager0\<lparr>mg_sessions := [''sb'' \<mapsto> session0\<lparr>ss_owner := ''red''\<rparr>]\<rparr>\<rparr>, mw_hub = Map.empty,
     mw_snaps = snaps0, mw_fleets = ctl0, mw_browsers = (\<lambda>_. Map.empty), mw_killed = []\<rparr>"

definition resolver0 :: principal_resolver where
  "resolver0 = \<lparr>px_store = Some store0, px_stdio_owner = ''mcp-stdio'', px_stdio_actor = ''mcp-stdio'', px_stdio_principal = None\<rparr>"

lemma resolver0_new: "newPrincipalResolver (me_sha env0) (me_oidc env0) (\<lambda>_. []) [] (Inr (Some store0)) = Inr resolver0"
  by (simp add: newPrincipalResolver_def resolver0_def Let_def)

lemma bearer_t1: "parseBearerToken ''Bearer t1'' = Some ''t1''"
  by code_simp

lemma alice_calls: "mcp_caller env0 (Inr resolver0) (Some ''Bearer t1'') = Inr (identity_of Authz.alice)"
  by (simp add: mcp_caller_def resolve_identity_def bearer_t1 resolver0_def identity_of_def env0_def Identify_def store0_def)

lemma alice_shell:
  "\<exists>reply er w'. mcp_serve env0 (Inr resolver0) (Some ''Bearer t1'') (Tool_shell ''sb'' [''ls''] []) world0 = (reply, Some er, w')"
proof -
  have "\<not> foreign (identity_of Authz.alice) (SandboxOwner ''sb'' (mw_mgr world0))"
    by (simp add: foreign_identity SandboxOwner_def world0_def plane0_def) code_simp
  moreover obtain res er m where "Shell prims0 (call0\<lparr>cv_actor := WithActor None ''alice''\<rparr>) ''sb'' [''ls''] [] (mw_mgr world0) = (res, Some er, m)"
    by (auto simp: Shell_def session_of_def world0_def plane0_def govern_def Let_def call0_def session0_def
        governOut_def gov_execute_ran within_limits_def rq_decision_def tool_request_def New_def Evaluate_def
        VerdictAllow_def VerdictDeny_def VerdictRequireApprove_def profile0_def limits0_def fresh_guard_def CheckExec_def
        Over_def isEgressTool_def)
  moreover have "me_G env0 = prims0" "me_cv env0 = call0" "cv_actor call0 = None" "pi_actor (identity_of Authz.alice) = ''alice''"
    by (simp_all add: env0_def call0_def identity_of_def Authz.alice_def)
  ultimately show ?thesis by (simp add: mcp_shell_def authorize_defs alice_calls)
qed

theorem mcp_isolates_tenants_witness:
  "\<exists>reply er w' p. mcp_serve env0 (Inr resolver0) (Some ''Bearer t1'') (Tool_shell ''sb'' [''ls''] []) world0 = (reply, Some er, w') \<and>
     mcp_principal env0 resolver0 (Some ''Bearer t1'') p \<and> (pc_admin p \<or> SandboxOwner ''sb'' (mw_mgr world0) = Some (TenantID (Some p)))"
proof -
  obtain reply er w' where c: "mcp_serve env0 (Inr resolver0) (Some ''Bearer t1'') (Tool_shell ''sb'' [''ls''] []) world0 = (reply, Some er, w')"
    using alice_shell by blast
  have "px_store resolver0 \<noteq> None" by (simp add: resolver0_def)
  from mcp_isolates_tenants [OF resolver0_new this c] c show ?thesis by auto
qed

text \<open>A tenant learns nothing about the resources of others: a foreign sandbox is answered as a missing one.\<close>

lemma foreign_looks_missing:
  assumes "mcp_caller E R req = Inr p" "identity_restricted p" "call_sandbox call = Some sb"
    and "SandboxOwner sb (mw_mgr w) \<noteq> Some (pi_owner p)" "SandboxOwner sb (mw_mgr w') = None"
  shows "fst (mcp_serve E R req call w) = fst (mcp_serve E R req call w')"
    and "fst (mcp_serve E R req call w) = McpErr ''not_found'' ''citadel not found''"
proof -
  have "foreign p (SandboxOwner sb (mw_mgr w))" "foreign p (SandboxOwner sb (mw_mgr w'))"
    using assms by (auto simp: foreign_def identity_restricted_def)
  then have "mcp_serve E R req call w = (errText E McpNoCitadel, None, w)" "mcp_serve E R req call w' = (errText E McpNoCitadel, None, w')"
    using serve_foreign_sandbox [OF assms(1,3)] by blast+
  moreover have "error_code ''citadel not found'' = ''not_found''" by code_simp
  ultimately show "fst (mcp_serve E R req call w) = fst (mcp_serve E R req call w')"
    "fst (mcp_serve E R req call w) = McpErr ''not_found'' ''citadel not found''" by (simp_all add: errText_def Let_def)
qed

section \<open>Lists\<close>

lemma identity_of_simps [simp]:
  "pi_owner (identity_of p) = TenantID (Some p)" "pi_actor (identity_of p) = pc_name p" "pi_principal (identity_of p) = Some p"
  "identity_restricted (identity_of p) \<longleftrightarrow> \<not> pc_admin p" "identity_canLaunch pm (identity_of p) = CanLaunch pm (Some p)"
  by (auto simp: identity_of_def identity_restricted_def identity_isAdmin_def identity_canLaunch_def)

lemma errText_not_ok [simp]: "errText E e \<noteq> McpOk x"
  by (simp add: errText_def Let_def)

text \<open>
  Lists are scoped: a principal that is no administrator sees in each list exactly the sandboxes, runs, snapshots and
  cohorts of its tenant, the charters it may launch, and the approvals it may review.
\<close>

theorem mcp_lists_are_scoped:
  assumes "mcp_caller E R req = Inr (identity_of p)" "\<not> pc_admin p"
  shows "mcp_serve E R req Tool_list_citadels w =
      (McpOk (PSandboxes (filter (\<lambda>x. snd x = TenantID (Some p)) (ListSandboxInfos (me_ids E) (mw_mgr w)))), None, w)"
    and "mcp_serve E R req Tool_list_runs w =
      (McpOk (PRuns (filter (\<lambda>r. rn_tenant r = TenantID (Some p)) (ListRuns (pl_runs (mw_plane w))))), None, w)"
    and "mcp_serve E R req Tool_list_snapshots w =
      (McpOk (PSnapshots (filter (\<lambda>ref. SnapshotOwner (sr_id ref) (mw_snaps w) = Some (TenantID (Some p))) (ListSnapshots (mw_snaps w)))), None, w)"
    and "mcp_serve E R req Tool_list_cohorts w =
      (McpOk (PFleets (filter (\<lambda>v. fv_owner v = TenantID (Some p)) (ListFleets (mw_fleets w)))), None, w)"
    and "me_profiles E = Some names \<Longrightarrow> mcp_serve E R req Tool_list_charters w = (McpOk (PCharters (filter (CanLaunch (me_pm E) (Some p)) names)), None, w)"
    and "fst (mcp_serve E R req Tool_list_conclave w) = McpOk (PApprovals xs) \<Longrightarrow>
      set xs = {ap \<in> set (List_approvals (mg_approvals (mw_mgr w))). reviewable (me_pm E) (Some p) (mw_mgr w) ap}"
  using assms
  by (auto simp: mcp_tool_defs Let_def case_prod_beta' split: if_splits)

section \<open>The two front ends\<close>

text \<open>The status and the effect of the HTTP endpoint of a tool that runs in a sandbox.\<close>

fun http_tool ::
  "('c::{zero,plus,linorder}, 'd) mcp_env \<Rightarrow> 'c call_env \<Rightarrow> 'c mcp_call \<Rightarrow> 'c mcp_world \<Rightarrow> (nat \<times> exec_request option \<times> 'c manager) option" where
  "http_tool E cv (Tool_shell sb command workdir) w = Some (apfst fst (handleShell (me_G E) cv sb (Some (command, workdir)) (mw_mgr w)))"
| "http_tool E cv (Tool_browser sb url mode) w = Some (apfst fst (handleBrowser (me_G E) cv sb (Some (url, mode)) (mw_mgr w)))"
| "http_tool E cv (Tool_python sb code) w = Some (apfst fst (handlePython (me_G E) cv sb (Some code) (mw_mgr w)))"
| "http_tool E cv (Tool_node sb code) w = Some (apfst fst (handleNode (me_G E) cv sb (Some code) (mw_mgr w)))"
| "http_tool E cv (Tool_read_file sb path) w = Some (apfst fst (handleFileRead (me_G E) cv sb (Some path) (mw_mgr w)))"
| "http_tool E cv (Tool_write_file sb path data) w = Some (apfst fst (handleFileWrite (me_G E) cv sb (Some (path, data)) (mw_mgr w)))"
| "http_tool E cv (Tool_list_files sb path) w = Some (apfst fst (handleFileList (me_G E) cv sb (Some path) (mw_mgr w)))"
| "http_tool E cv (Tool_search_files sb query path) w = Some (apfst fst (handleFileSearch (me_G E) cv sb (Some (query, path)) (mw_mgr w)))"
| "http_tool E cv (Tool_browser_act sb sid cmd) w =
     Some (apfst fst (handleBrowserAct (me_bcodec E) (me_G E) cv sb sid (Some (cmd\<lparr>bc_token := []\<rparr>)) (mw_mgr w) (mw_browsers w)))"
| "http_tool E cv call w = None"

fun status_matches :: "('c, 'd) mcp_reply \<Rightarrow> nat \<Rightarrow> bool" where
  "status_matches (McpOk _) n \<longleftrightarrow> n = 200"
| "status_matches (McpDenied _) n \<longleftrightarrow> n = 403"
| "status_matches (McpApproval _ _) n \<longleftrightarrow> n = 202"
| "status_matches (McpErr _ _) n \<longleftrightarrow> n \<in> {400, 404, 500}"

lemma tool_error_status_range: "tool_error_status e \<in> {400, 404, 500}"
  by (cases e) simp_all

lemma browser_error_status_range: "browser_error_status e \<in> {400, 404, 500}"
  by (cases e) (use tool_error_status_range in auto)

lemma plane_errText_matches [simp]: "status_matches (plane_errText E e) n \<longleftrightarrow> n \<in> {400, 404, 500}"
  by (simp add: plane_errText_def errText_def Let_def)

lemmas result_defs = execResult_def rawResult_def blockedResult_def writeToolResult_def writeIfBlocked_def browser_status_def

lemma result_matches:
  "status_matches (execResult E (map_sum PeTool id res)) (fst (writeToolResult res))"
  "status_matches (rawResult E (map_sum PeTool id res)) (fst (writeIfBlocked f res))"
  "status_matches (case blockedResult E (map_sum PeTool id res) of Some b \<Rightarrow> b | None \<Rightarrow> McpOk x) (fst (writeIfBlocked g res))"
  using tool_error_status_range by (cases res; auto simp: result_defs)+

lemma act_matches: "status_matches (execResult E (map_sum PeBrowser id res)) (fst (browser_status res))"
  using browser_error_status_range by (cases res) (auto simp: result_defs)



text \<open>
  Two remarks. Killing a cohort through MCP does not attach the caller to the context, unlike killing one sandbox:
  the audit trail is the same whoever called. And the code of an error is read off its text, so refusing
  \<^verbatim>\<open>copy_from\<close> to a principal is not reported as an authorization error.
\<close>

lemma cohort_kill_forgets_caller:
  assumes "authorizeFleet E R req fleet w = Inr p" "authorizeFleet E R req' fleet w = Inr p'"
  shows "mcp_serve E R req (Tool_kill_cohort fleet) w = mcp_serve E R req' (Tool_kill_cohort fleet) w"
  using assms by (simp add: mcp_kill_cohort_def)

lemma copy_refusal_code: "error_code (mcp_message quote McpCopyAdmin) = ''tool_error''" "error_code (mcp_message quote McpUnknownBearer) = ''authz_denied''"
  by (simp_all only: mcp_message.simps) code_simp+

end
