(* ===== verification/Audit_Sinks.thy ===== *)
theory Audit_Sinks
  imports Decision_Log Audit_Trail "HOL-Library.Multiset"
begin

text \<open>
  Streaming audit events to outside sinks (\<^verbatim>\<open>internal/auditsink\<close>): the configuration from the environment, the
  bounded queue with its producers and its worker as a step relation, the delivery with retries, the file
  sink, and the OTLP log records. The OTLP client library, URL parsing and hex decoding are parameters.
\<close>

section \<open>Configuration\<close>

datatype sink_config =
    WebhookSink string string string
  | FileSink string
  | OTLPSink string "(string \<times> string) list" bool string "(string \<times> string) list"

datatype sink_error =
    BadURL string | NotHTTP string | NoURLHost string | BadHeader string | EmptyHeader string | BadFile string
  | BadItem string | EmptyKey string | NoPairs | BadBool string | ExporterFailed

text \<open>\<^verbatim>\<open>strconv.ParseBool\<close>.\<close>

definition parse_bool :: "string \<Rightarrow> bool option" where
  "parse_bool s =
     (if s \<in> {''1'', ''t'', ''T'', ''TRUE'', ''true'', ''True''} then Some True
      else if s \<in> {''0'', ''f'', ''F'', ''FALSE'', ''false'', ''False''} then Some False
      else None)"

fun parseKVList_loop :: "string list \<Rightarrow> (string \<times> string) list \<Rightarrow> (sink_error, (string \<times> string) list) result" where
  "parseKVList_loop [] out = (if out = [] then Inl NoPairs else Inr out)"
| "parseKVList_loop (part # parts) out =
     (let item = trim_space part in
      if item = [] then parseKVList_loop parts out
      else
        (case index_byte item CHR ''='' of
           None \<Rightarrow> Inl (BadItem item)
         | Some i \<Rightarrow>
             (let key = trim_space (take i item) in
              if key = [] then Inl (EmptyKey item)
              else parseKVList_loop parts (AList.update key (trim_space (drop (Suc i) item)) out))))"

definition parseKVList :: "string \<Rightarrow> (sink_error, (string \<times> string) list) result" where
  "parseKVList raw = parseKVList_loop (split_byte CHR '','' raw) []"

text \<open>\<open>parse_url\<close> gives the scheme, the host and the text of a URL.\<close>

type_synonym url_parser = "string \<Rightarrow> (string \<times> string \<times> string) option"

definition parseOTLPEndpoint :: "url_parser \<Rightarrow> string \<Rightarrow> sink_error option" where
  "parseOTLPEndpoint parse_url raw =
     (case parse_url raw of
        None \<Rightarrow> Some (BadURL raw)
      | Some (scheme, host, _) \<Rightarrow>
          if scheme \<noteq> ''http'' \<and> scheme \<noteq> ''https'' then Some (NotHTTP raw) else if host = [] then Some (NoURLHost raw) else None)"

definition webhook_header :: "string \<Rightarrow> (sink_error, string \<times> string) result" where
  "webhook_header h =
     (if h = [] then Inr ([], [])
      else
        (case index_byte h CHR '':'' of
           None \<Rightarrow> Inl (BadHeader h)
         | Some i \<Rightarrow>
             (let key = trim_space (take i h) in
              if key = [] then Inl (EmptyHeader h) else Inr (key, trim_space (drop (Suc i) h)))))"

definition webhook_config :: "url_parser \<Rightarrow> (string \<Rightarrow> string) \<Rightarrow> (sink_error, sink_config list) result" where
  "webhook_config parse_url getenv =
     (let raw = trim_space (getenv ''RUNEWARD_AUDIT_WEBHOOK_URL'') in
      if raw = [] then Inr []
      else
        (case parse_url raw of
           None \<Rightarrow> Inl (BadURL raw)
         | Some (scheme, host, url) \<Rightarrow>
             if scheme \<noteq> ''http'' \<and> scheme \<noteq> ''https'' then Inl (NotHTTP raw)
             else if host = [] then Inl (NoURLHost raw)
             else (case webhook_header (trim_space (getenv ''RUNEWARD_AUDIT_WEBHOOK_HEADER'')) of
                     Inl e \<Rightarrow> Inl e
                   | Inr (key, val) \<Rightarrow> Inr [WebhookSink url key val])))"

text \<open>\<open>openable\<close> tells whether the audit file can be opened for appending.\<close>

definition file_config :: "(string \<Rightarrow> bool) \<Rightarrow> (string \<Rightarrow> string) \<Rightarrow> (sink_error, sink_config list) result" where
  "file_config openable getenv =
     (let path = trim_space (getenv ''RUNEWARD_AUDIT_FILE'') in
      if path = [] then Inr [] else if openable path then Inr [FileSink path] else Inl (BadFile path))"

definition optional_pairs :: "string \<Rightarrow> (sink_error, (string \<times> string) list) result" where
  "optional_pairs raw = (if raw = [] then Inr [] else parseKVList raw)"

text \<open>\<open>exporter\<close> tells whether the OTLP library accepts the configuration.\<close>

definition otlp_config :: "url_parser \<Rightarrow> bool \<Rightarrow> (string \<Rightarrow> string) \<Rightarrow> (sink_error, sink_config list) result" where
  "otlp_config parse_url exporter getenv =
     (let endpoint = trim_space (getenv ''RUNEWARD_AUDIT_OTLP_ENDPOINT'') in
      if endpoint = [] then Inr []
      else
        (case optional_pairs (trim_space (getenv ''RUNEWARD_AUDIT_OTLP_HEADERS'')) of
           Inl e \<Rightarrow> Inl e
         | Inr headers \<Rightarrow>
             (let flag = trim_space (getenv ''RUNEWARD_AUDIT_OTLP_INSECURE'') in
              case (if flag = [] then Some False else parse_bool flag) of
                None \<Rightarrow> Inl (BadBool flag)
              | Some insecure \<Rightarrow>
                  (case optional_pairs (trim_space (getenv ''RUNEWARD_AUDIT_OTLP_RESOURCE_ATTRS'')) of
                     Inl e \<Rightarrow> Inl e
                   | Inr attrs \<Rightarrow>
                       (case parseOTLPEndpoint parse_url endpoint of
                          Some e \<Rightarrow> Inl e
                        | None \<Rightarrow>
                            if \<not> exporter then Inl ExporterFailed
                            else Inr [OTLPSink endpoint headers insecure (trim_space (getenv ''RUNEWARD_AUDIT_OTLP_SERVICE_NAME'')) attrs])))))"

text \<open>The sinks that the environment asks for, in order; none is the sink that discards events.\<close>

definition sinks_FromEnv :: "url_parser \<Rightarrow> bool \<Rightarrow> (string \<Rightarrow> bool) \<Rightarrow> (string \<Rightarrow> string) \<Rightarrow> (sink_error, sink_config list) result" where
  "sinks_FromEnv parse_url exporter openable getenv =
     (case webhook_config parse_url getenv of
        Inl e \<Rightarrow> Inl e
      | Inr s1 \<Rightarrow>
          (case file_config openable getenv of
             Inl e \<Rightarrow> Inl e
           | Inr s2 \<Rightarrow>
               (case otlp_config parse_url exporter getenv of
                  Inl e \<Rightarrow> Inl e
                | Inr s3 \<Rightarrow> Inr (s1 @ s2 @ s3))))"

text \<open>An event goes to every sink; closing closes each of them and returns the first error.\<close>

definition Multi_Emit :: "(event \<Rightarrow> 's \<Rightarrow> 's) \<Rightarrow> event \<Rightarrow> 's list \<Rightarrow> 's list" where
  "Multi_Emit emit ev sinks = map (emit ev) sinks"

fun Multi_Close :: "('s \<Rightarrow> 'e option \<times> 's) \<Rightarrow> 's list \<Rightarrow> 'e option \<times> 's list" where
  "Multi_Close close [] = (None, [])"
| "Multi_Close close (s # ss) =
     (let (err, s') = close s; (err', ss') = Multi_Close close ss in (case err of Some e \<Rightarrow> Some e | None \<Rightarrow> err', s' # ss'))"

section \<open>Delivery\<close>

definition webhookQueueSize :: nat where "webhookQueueSize = 1024"
definition webhookMaxTries :: nat where "webhookMaxTries = 3"
definition dropLogInterval :: int where "dropLogInterval = 10000000000"

datatype delivery = Delivered | GaveUp | Abandoned

text \<open>\<open>post i\<close> is the success of attempt \<open>i\<close>, \<open>stopping i\<close> whether the sink is closed during the pause after it. The last
  argument is the number of attempts left.\<close>

fun deliver_from :: "(nat \<Rightarrow> bool) \<Rightarrow> (nat \<Rightarrow> bool) \<Rightarrow> nat \<Rightarrow> nat \<Rightarrow> delivery" where
  "deliver_from post stopping attempt 0 = GaveUp"
| "deliver_from post stopping attempt (Suc left) =
     (if post attempt then Delivered
      else if left > 0 \<and> stopping attempt then Abandoned
      else deliver_from post stopping (Suc attempt) left)"

definition webhook_deliver :: "(nat \<Rightarrow> bool) \<Rightarrow> (nat \<Rightarrow> bool) \<Rightarrow> delivery" where
  "webhook_deliver post stopping = deliver_from post stopping 1 webhookMaxTries"

text \<open>One request: the headers, and whether the status of the answer says that it was accepted.\<close>

definition post_headers :: "string \<Rightarrow> string \<Rightarrow> (string \<times> string) list" where
  "post_headers key val = (''Content-Type'', ''application/json'') # (if key \<noteq> [] then [(key, val)] else [])"

definition webhook_post :: "(string \<Rightarrow> (string \<times> string) list \<Rightarrow> string \<Rightarrow> nat option) \<Rightarrow> string \<Rightarrow> string \<Rightarrow> string \<Rightarrow> string \<Rightarrow> bool" where
  "webhook_post http url key val body =
     (case http url (post_headers key val) body of None \<Rightarrow> False | Some status \<Rightarrow> 200 \<le> status \<and> status < 300)"

text \<open>The file sink writes one line per event, and stops complaining after the first failed write. \<open>write\<close> is the
  content of the file after the write and its success.\<close>

record file_sink =
  fs_open :: bool
  fs_content :: string
  fs_logged :: bool

definition fileSink_Emit :: "(event \<Rightarrow> string option) \<Rightarrow> (string \<Rightarrow> string \<Rightarrow> string \<times> bool) \<Rightarrow> event \<Rightarrow> file_sink \<Rightarrow> file_sink" where
  "fileSink_Emit encode write ev s =
     (case encode ev of
        None \<Rightarrow> s
      | Some line \<Rightarrow>
          if \<not> fs_open s then s
          else (let (data, ok) = write (fs_content s) (line @ [CHR 0x0A]) in s\<lparr>fs_content := data, fs_logged := (fs_logged s \<or> \<not> ok)\<rparr>))"

text \<open>\<open>ok\<close> tells whether closing the file succeeds.\<close>

definition fileSink_Close :: "bool \<Rightarrow> file_sink \<Rightarrow> bool \<times> file_sink" where
  "fileSink_Close ok s = (if \<not> fs_open s then (True, s) else (ok, s\<lparr>fs_open := False\<rparr>))"

section \<open>The queue\<close>

text \<open>
  The state of a queued sink while any number of goroutines emit events and one worker delivers them. An
  \<^verbatim>\<open>Emit\<close> in progress is its event with the point it has reached: before the attempt to send (\<open>False\<close>), or
  after it found the queue full (\<open>True\<close>). The last four components are history: the events in the order in which
  \<^verbatim>\<open>Emit\<close> was called, those in the order in which they entered the queue, how each left it, and what became of each
  delivery.
\<close>

datatype worker = Idle | Busy event | Stopped

record queue_sink =
  qs_cap :: nat
  qs_queue :: "event list"
  qs_emitting :: "(event \<times> bool) list"
  qs_worker :: worker
  qs_closed :: bool
  qs_dropped :: "64 word"
  qs_last_drop_log :: int
  qs_called :: "event list"
  qs_sent :: "event list"
  qs_removed :: "(event \<times> bool) list"
  qs_outcomes :: "(event \<times> delivery) list"

definition new_queue :: "int \<Rightarrow> queue_sink" where
  "new_queue queueSize =
     \<lparr>qs_cap = (if queueSize \<le> 0 then webhookQueueSize else nat queueSize), qs_queue = [], qs_emitting = [], qs_worker = Idle, qs_closed = False,
      qs_dropped = 0, qs_last_drop_log = 0, qs_called = [], qs_sent = [], qs_removed = [], qs_outcomes = []\<rparr>"

text \<open>Whether \<^verbatim>\<open>recordDrop\<close> writes a warning, and the new state.\<close>

definition recordDrop :: "int \<Rightarrow> queue_sink \<Rightarrow> bool \<times> queue_sink" where
  "recordDrop now s =
     (let s1 = s\<lparr>qs_dropped := qs_dropped s + 1\<rparr> in
      if now - qs_last_drop_log s \<ge> dropLogInterval then (True, s1\<lparr>qs_last_drop_log := now\<rparr>) else (False, s1))"

text \<open>The steps of the loop in \<^verbatim>\<open>Emit\<close> and of the worker. A flag in \<open>qs_removed\<close> tells that the worker took the event.\<close>

inductive sink_step :: "queue_sink \<Rightarrow> queue_sink \<Rightarrow> bool" where
  call: "sink_step s (s\<lparr>qs_emitting := (ev, False) # qs_emitting s, qs_called := qs_called s @ [ev]\<rparr>)"
| send: "(ev, False) \<in> set (qs_emitting s) \<Longrightarrow> length (qs_queue s) < qs_cap s \<Longrightarrow>
    sink_step s (s\<lparr>qs_emitting := remove1 (ev, False) (qs_emitting s), qs_queue := qs_queue s @ [ev], qs_sent := qs_sent s @ [ev]\<rparr>)"
| full: "(ev, False) \<in> set (qs_emitting s) \<Longrightarrow> \<not> length (qs_queue s) < qs_cap s \<Longrightarrow>
    sink_step s (s\<lparr>qs_emitting := (ev, True) # remove1 (ev, False) (qs_emitting s)\<rparr>)"
| discard: "(ev, True) \<in> set (qs_emitting s) \<Longrightarrow> qs_queue s = x # rest \<Longrightarrow>
    sink_step s (snd (recordDrop now (s\<lparr>qs_emitting := (ev, False) # remove1 (ev, True) (qs_emitting s), qs_queue := rest,
      qs_removed := qs_removed s @ [(x, False)]\<rparr>)))"
| retry: "(ev, True) \<in> set (qs_emitting s) \<Longrightarrow> qs_queue s = [] \<Longrightarrow>
    sink_step s (s\<lparr>qs_emitting := (ev, False) # remove1 (ev, True) (qs_emitting s)\<rparr>)"
| taken: "qs_worker s = Idle \<Longrightarrow> qs_queue s = x # rest \<Longrightarrow>
    sink_step s (s\<lparr>qs_worker := Busy x, qs_queue := rest, qs_removed := qs_removed s @ [(x, True)]\<rparr>)"
| finish: "qs_worker s = Busy x \<Longrightarrow>
    sink_step s (s\<lparr>qs_worker := Idle, qs_outcomes := qs_outcomes s @ [(x, webhook_deliver post stopping)]\<rparr>)"
| close: "sink_step s (s\<lparr>qs_closed := True\<rparr>)"
| stop: "qs_worker s = Idle \<Longrightarrow> qs_closed s \<Longrightarrow> qs_queue s = [] \<Longrightarrow> sink_step s (s\<lparr>qs_worker := Stopped\<rparr>)"

definition busy :: "worker \<Rightarrow> event list" where
  "busy wk = (case wk of Busy x \<Rightarrow> [x] | _ \<Rightarrow> [])"

definition sink_inv :: "queue_sink \<Rightarrow> bool" where
  "sink_inv s \<longleftrightarrow>
     map fst (qs_removed s) @ qs_queue s = qs_sent s \<and>
     map fst (filter snd (qs_removed s)) = map fst (qs_outcomes s) @ busy (qs_worker s) \<and>
     mset (qs_sent s) + mset (map fst (qs_emitting s)) = mset (qs_called s) \<and>
     length (qs_queue s) \<le> qs_cap s \<and> 0 < qs_cap s \<and>
     (list_ex snd (qs_emitting s) \<or> \<not> list_all snd (qs_removed s) \<longrightarrow> qs_cap s \<le> length (qs_sent s)) \<and>
     qs_dropped s = of_nat (length (filter (Not \<circ> snd) (qs_removed s)))"

lemma sink_inv_new: "sink_inv (new_queue n)"
  by (simp add: sink_inv_def new_queue_def busy_def webhookQueueSize_def)

lemma mset_split1: "x \<in> set xs \<Longrightarrow> mset xs = add_mset x (mset (remove1 x xs))"
  by simp

lemma sink_inv_step: "sink_step s s' \<Longrightarrow> sink_inv s \<Longrightarrow> sink_inv s'"
proof (induction rule: sink_step.induct)
  case (send ev s)
  have "list_ex snd (remove1 (ev, False) (qs_emitting s)) \<Longrightarrow> list_ex snd (qs_emitting s)"
    by (auto simp: list_ex_iff dest: notin_set_remove1)
  with send show ?case by (auto simp: sink_inv_def mset_split1 [OF send(1)] ac_simps simp del: mset_remove1)
next
  case (full ev s)
  then have "qs_sent s = map fst (qs_removed s) @ qs_queue s" by (simp add: sink_inv_def)
  then have "length (qs_queue s) \<le> length (qs_sent s)" by simp
  with full show ?case by (auto simp: sink_inv_def mset_split1 [OF full(1)] simp del: mset_remove1)
next
  case (discard ev s x rest now)
  have "list_ex snd (qs_emitting s)" using discard(1) by (force simp: list_ex_iff)
  with discard show ?case by (auto simp: sink_inv_def mset_split1 [OF discard(1)] recordDrop_def Let_def simp del: mset_remove1)
next
  case (retry ev s)
  have "list_ex snd (qs_emitting s)" using retry(1) by (force simp: list_ex_iff)
  with retry show ?case by (auto simp: sink_inv_def mset_split1 [OF retry(1)] simp del: mset_remove1)
qed (auto simp: sink_inv_def busy_def)

text \<open>
  C6. The audit stream keeps its order and its account: however producers and the worker interleave, the events that
  left the queue followed by those in it are the events sent, in the order in which they were sent; the worker
  handled, once each and in that order, exactly those it took; every event for which \<^verbatim>\<open>Emit\<close> was called is either still being
  emitted or was sent once; the counter of dropped events is exact up to its width; and no event is dropped before the
  queue has been filled once.
\<close>

theorem audit_stream_in_order:
  assumes "sink_step\<^sup>*\<^sup>* (new_queue n) s"
  shows "map fst (qs_removed s) @ qs_queue s = qs_sent s \<and>
    map fst (filter snd (qs_removed s)) = map fst (qs_outcomes s) @ busy (qs_worker s) \<and>
    mset (qs_sent s) + mset (map fst (qs_emitting s)) = mset (qs_called s) \<and>
    qs_dropped s = of_nat (length (filter (Not \<circ> snd) (qs_removed s))) \<and>
    (length (qs_sent s) < qs_cap s \<longrightarrow> list_all snd (qs_removed s))"
proof -
  have "sink_inv s" using assms by (induction rule: rtranclp_induct) (auto simp: sink_inv_new intro: sink_inv_step)
  then show ?thesis by (auto simp: sink_inv_def)
qed

definition event_a :: event where "event_a = zero_event\<lparr>ev_tool := ''shell''\<rparr>"
definition event_b :: event where "event_b = zero_event\<lparr>ev_tool := ''node''\<rparr>"

text \<open>A queue of one: the second event finds it full and drops the first.\<close>

lemma one_dropped:
  "\<exists>s. sink_step\<^sup>*\<^sup>* (new_queue 1) s \<and> qs_sent s = [event_a, event_b] \<and> qs_queue s = [event_b] \<and> qs_removed s = [(event_a, False)]"
proof -
  define s1 where "s1 = (new_queue 1)\<lparr>qs_emitting := [(event_a, False)], qs_called := [event_a]\<rparr>"
  define s2 where "s2 = s1\<lparr>qs_emitting := [], qs_queue := [event_a], qs_sent := [event_a]\<rparr>"
  define s3 where "s3 = s2\<lparr>qs_emitting := [(event_b, False)], qs_called := [event_a, event_b]\<rparr>"
  define s4 where "s4 = s3\<lparr>qs_emitting := [(event_b, True)]\<rparr>"
  define s5 where "s5 = snd (recordDrop 0 (s4\<lparr>qs_emitting := [(event_b, False)], qs_queue := [], qs_removed := [(event_a, False)]\<rparr>))"
  define s6 where "s6 = s5\<lparr>qs_emitting := [], qs_queue := [event_b], qs_sent := [event_a, event_b]\<rparr>"
  note defs = s1_def s2_def s3_def s4_def s5_def s6_def new_queue_def recordDrop_def dropLogInterval_def
  have "sink_step (new_queue 1) s1" using sink_step.call [of "new_queue 1" event_a] by (simp add: defs)
  moreover have "sink_step s1 s2" using sink_step.send [of event_a s1] by (simp add: defs)
  moreover have "sink_step s2 s3" using sink_step.call [of s2 event_b] by (simp add: defs)
  moreover have "sink_step s3 s4" using sink_step.full [of event_b s3] by (simp add: defs)
  moreover have "sink_step s4 s5" using sink_step.discard [of event_b s4 event_a "[]" 0] by (simp add: defs)
  moreover have "sink_step s5 s6" using sink_step.send [of event_b s5] by (simp add: defs)
  ultimately have "sink_step\<^sup>*\<^sup>* (new_queue 1) s6" by (meson converse_rtranclp_into_rtranclp rtranclp.rtrancl_refl)
  moreover have "qs_sent s6 = [event_a, event_b] \<and> qs_queue s6 = [event_b] \<and> qs_removed s6 = [(event_a, False)]" by (simp add: defs)
  ultimately show ?thesis by blast
qed

theorem audit_stream_in_order_witness:
  "\<exists>s. sink_step\<^sup>*\<^sup>* (new_queue 1) s \<and> qs_removed s = [(event_a, False)] \<and> map fst (qs_removed s) @ qs_queue s = [event_a, event_b] \<and>
     qs_dropped s = 1"
proof -
  obtain s where s: "sink_step\<^sup>*\<^sup>* (new_queue 1) s" "qs_sent s = [event_a, event_b]" "qs_removed s = [(event_a, False)]"
    using one_dropped by blast
  from audit_stream_in_order [OF s(1)] s show ?thesis by auto
qed

text \<open>
  \<^verbatim>\<open>Emit\<close> does not block: left alone, a producer is through after at most three of its own steps, whatever the
  state of the worker.
\<close>

theorem emit_returns:
  assumes "sink_inv s" "(ev, b) \<in> set (qs_emitting s)"
  shows "\<exists>k \<le> 3. \<exists>s'. (sink_step ^^ k) s s' \<and> mset (qs_emitting s') = mset (qs_emitting s) - {#(ev, b)#} \<and> qs_sent s' = qs_sent s @ [ev] \<and>
    qs_worker s' = qs_worker s \<and> qs_cap s' = qs_cap s \<and>
    qs_queue s' = (if \<not> b \<and> length (qs_queue s) < qs_cap s then qs_queue s else tl (qs_queue s)) @ [ev]"
proof -
  have send: "\<exists>s'. sink_step t s' \<and> mset (qs_emitting s') = mset (qs_emitting t) - {#(ev, False)#} \<and> qs_sent s' = qs_sent t @ [ev] \<and>
      qs_worker s' = qs_worker t \<and> qs_cap s' = qs_cap t \<and> qs_queue s' = qs_queue t @ [ev]"
    if "(ev, False) \<in> set (qs_emitting t)" "length (qs_queue t) < qs_cap t" for t
    using sink_step.send [OF that]
    by (intro exI [of _ "t\<lparr>qs_emitting := remove1 (ev, False) (qs_emitting t), qs_queue := qs_queue t @ [ev], qs_sent := qs_sent t @ [ev]\<rparr>"]) simp
  have drop: "\<exists>t'. sink_step t t' \<and> mset (qs_emitting t') = add_mset (ev, False) (mset (qs_emitting t) - {#(ev, True)#}) \<and>
      length (qs_queue t') < qs_cap t' \<and> qs_sent t' = qs_sent t \<and> qs_worker t' = qs_worker t \<and>
      qs_cap t' = qs_cap t \<and> qs_queue t' = tl (qs_queue t)"
    if "(ev, True) \<in> set (qs_emitting t)" "length (qs_queue t) \<le> qs_cap t" "0 < qs_cap t" for t
  proof (cases "qs_queue t")
    case Nil
    show ?thesis using sink_step.retry [OF that(1) Nil] Nil that(3)
      by (intro exI [of _ "t\<lparr>qs_emitting := (ev, False) # remove1 (ev, True) (qs_emitting t)\<rparr>"]) simp
  next
    case (Cons x rest)
    let ?t = "snd (recordDrop 0 (t\<lparr>qs_emitting := (ev, False) # remove1 (ev, True) (qs_emitting t), qs_queue := rest,
      qs_removed := qs_removed t @ [(x, False)]\<rparr>))"
    have "sink_step t ?t" using that(1) Cons by (rule sink_step.discard)
    then show ?thesis using Cons that(2) by (intro exI [of _ ?t]) (auto simp: recordDrop_def Let_def)
  qed
  have two: "\<exists>s'. (sink_step ^^ 2) t s' \<and> mset (qs_emitting s') = mset (qs_emitting t) - {#(ev, True)#} \<and> qs_sent s' = qs_sent t @ [ev] \<and>
      qs_worker s' = qs_worker t \<and> qs_cap s' = qs_cap t \<and> qs_queue s' = tl (qs_queue t) @ [ev]" if at: "(ev, True) \<in> set (qs_emitting t)" "length (qs_queue t) \<le> qs_cap t" "0 < qs_cap t" for t
  proof -
    obtain t1 where t1: "sink_step t t1" "mset (qs_emitting t1) = add_mset (ev, False) (mset (qs_emitting t) - {#(ev, True)#})"
      "length (qs_queue t1) < qs_cap t1" "qs_sent t1 = qs_sent t" "qs_worker t1 = qs_worker t" "qs_cap t1 = qs_cap t"
      "qs_queue t1 = tl (qs_queue t)" using drop [OF at] by blast
    then have "(ev, False) \<in> set (qs_emitting t1)" by (metis set_mset_mset union_single_eq_member)
    from send [OF this t1(3)] t1 show ?thesis by (auto simp: numeral_2_eq_2)
  qed
  have inv: "length (qs_queue s) \<le> qs_cap s" "0 < qs_cap s" using assms(1) by (simp_all add: sink_inv_def)
  show ?thesis
  proof (cases b)
    case True
    then show ?thesis using two [of s] assms(2) inv by (intro exI [of _ 2]) auto
  next
    case False
    show ?thesis
    proof (cases "length (qs_queue s) < qs_cap s")
      case True
      with send [of s] assms(2) False show ?thesis by (intro exI [of _ 1]) auto
    next
      case full: False
      let ?t = "s\<lparr>qs_emitting := (ev, True) # remove1 (ev, False) (qs_emitting s)\<rparr>"
      have "sink_step s ?t" using sink_step.full [of ev s] assms(2) False full by simp
      moreover obtain s' where "(sink_step ^^ 2) ?t s'" "mset (qs_emitting s') = mset (qs_emitting ?t) - {#(ev, True)#}"
        "qs_sent s' = qs_sent ?t @ [ev]" "qs_worker s' = qs_worker ?t" "qs_cap s' = qs_cap ?t" "qs_queue s' = tl (qs_queue ?t) @ [ev]" using two [of ?t] inv by auto
      ultimately show ?thesis using False full by (intro exI [of _ 3]) (auto simp: numeral_3_eq_3 numeral_2_eq_2 relpowp_Suc_I2)
    qed
  qed
qed

text \<open>When the worker is stuck in a delivery, the queue keeps the newest events: producers that emit one after the
  other turn it into the bounded log of what they emitted.\<close>

definition enqueue_newest :: "event \<Rightarrow> event list \<Rightarrow> event list" where
  "enqueue_newest ev q = (if length q < webhookQueueSize then q else tl q) @ [ev]"

interpretation newest: bounded_log enqueue_newest "\<lambda>q. q" "\<lambda>q. length q \<le> webhookQueueSize" webhookQueueSize
  by unfold_locales (auto simp: enqueue_newest_def webhookQueueSize_def)

theorem stalled_sink_keeps_newest:
  "\<exists>s. sink_step\<^sup>*\<^sup>* (new_queue 0) s \<and> qs_emitting s = [] \<and> qs_sent s = evs \<and> qs_queue s = drop (length evs - webhookQueueSize) evs"
proof -
  have "\<exists>s. sink_step\<^sup>*\<^sup>* (new_queue 0) s \<and> qs_emitting s = [] \<and> qs_cap s = webhookQueueSize \<and> qs_sent s = evs \<and> qs_queue s = fold enqueue_newest evs []"
  proof (induction evs rule: rev_induct)
    case Nil
    show ?case by (intro exI [of _ "new_queue 0"]) (simp add: new_queue_def)
  next
    case (snoc ev evs)
    then obtain s where s: "sink_step\<^sup>*\<^sup>* (new_queue 0) s" "qs_emitting s = []" "qs_cap s = webhookQueueSize" "qs_sent s = evs" "qs_queue s = fold enqueue_newest evs []"
      by blast
    let ?s = "s\<lparr>qs_emitting := (ev, False) # qs_emitting s, qs_called := qs_called s @ [ev]\<rparr>"
    have call: "sink_step s ?s" by (rule sink_step.call)
    have "sink_inv s" using s(1) by (induction rule: rtranclp_induct) (auto simp: sink_inv_new intro: sink_inv_step)
    then have "sink_inv ?s" using call sink_inv_step by blast
    from emit_returns [OF this, of ev False] obtain k s' where s': "(sink_step ^^ k) ?s s'" "mset (qs_emitting s') = {#}" "qs_sent s' = evs @ [ev]"
        "qs_cap s' = webhookQueueSize" "qs_queue s' = enqueue_newest ev (qs_queue s)"
      using s by (auto simp: enqueue_newest_def)
    have "sink_step\<^sup>*\<^sup>* (new_queue 0) s'"
      using s(1) call relpowp_imp_rtranclp [OF s'(1)] by (meson rtranclp.rtrancl_into_rtrancl rtranclp_trans)
    with s' s(5) show ?case by (intro exI [of _ s']) simp
  qed
  then show ?thesis using newest.run_recent [of "[]" evs] by (auto simp: newest.recent_def)
qed

section \<open>Draining and retrying\<close>

text \<open>Once closed, the worker handles everything that is queued and stops, when no producer interferes.\<close>

theorem close_drains:
  assumes "qs_closed s" "qs_worker s = Idle"
  shows "\<exists>s' outs. sink_step\<^sup>*\<^sup>* s s' \<and> qs_worker s' = Stopped \<and> qs_queue s' = [] \<and> map fst outs = qs_queue s \<and> qs_outcomes s' = qs_outcomes s @ outs"
  using assms
proof (induction "qs_queue s" arbitrary: s)
  case Nil
  then have "sink_step s (s\<lparr>qs_worker := Stopped\<rparr>)" using sink_step.stop [of s] by simp
  then show ?case using Nil by (intro exI [of _ "s\<lparr>qs_worker := Stopped\<rparr>"] exI [of _ "[]"]) auto
next
  case (Cons x rest)
  let ?s1 = "s\<lparr>qs_worker := Busy x, qs_queue := rest, qs_removed := qs_removed s @ [(x, True)]\<rparr>"
  let ?s2 = "?s1\<lparr>qs_worker := Idle, qs_outcomes := qs_outcomes ?s1 @ [(x, webhook_deliver (\<lambda>_. True) (\<lambda>_. False))]\<rparr>"
  have "sink_step s ?s1" using sink_step.taken [of s x rest] Cons by simp
  moreover have "sink_step ?s1 ?s2" by (rule sink_step.finish) simp
  moreover obtain s' outs where "sink_step\<^sup>*\<^sup>* ?s2 s'" "qs_worker s' = Stopped" "qs_queue s' = []" "map fst outs = qs_queue ?s2"
      "qs_outcomes s' = qs_outcomes ?s2 @ outs"
    using Cons(1) [of ?s2] Cons(3) by auto
  ultimately show ?case using Cons(2)
    by (intro exI [of _ s'] exI [of _ "(x, webhook_deliver (\<lambda>_. True) (\<lambda>_. False)) # outs"])
      (auto intro: converse_rtranclp_into_rtranclp)
qed

text \<open>An event is posted at most three times, and delivered exactly when one of these attempts is reached and accepted.\<close>

lemma webhook_deliver_iff:
  "webhook_deliver post stopping = Delivered \<longleftrightarrow> (\<exists>i \<in> {1..3}. post i \<and> (\<forall>j \<in> {1..<i}. \<not> post j \<and> \<not> stopping j))"
proof -
  have "{1..3} = {1, 2, 3 :: nat}" "{1..<1} = ({} :: nat set)" "{1..<2} = {1 :: nat}" "{1..<3} = {1, 2 :: nat}" by auto
  then show ?thesis by (auto simp: webhook_deliver_def webhookMaxTries_def numeral_3_eq_3 numeral_2_eq_2)
qed

text \<open>A closed sink does not retry: the first refused attempt is the last one.\<close>

lemma closed_sink_tries_once: "\<not> post 1 \<Longrightarrow> stopping 1 \<Longrightarrow> webhook_deliver post stopping = Abandoned"
  by (simp add: webhook_deliver_def webhookMaxTries_def numeral_3_eq_3)

section \<open>OTLP log records\<close>

datatype attr_value = AInt int | AString string | ASlice "string list"

record otlp_record =
  or_timestamp :: gotime
  or_observed :: gotime
  or_event_name :: string
  or_body :: string
  or_severity :: string
  or_severity_text :: string
  or_attributes :: "(string \<times> attr_value) list"

definition severityForVerdict :: "string \<Rightarrow> string \<times> string" where
  "severityForVerdict v =
     (let t = to_lower (trim_space v) in
      if t = ''allow'' then (''INFO'', ''allow'') else if t = ''deny'' then (''WARN'', ''deny'') else (''INFO'', v))"

definition meta_value :: "(string \<times> string) list \<Rightarrow> string \<Rightarrow> string" where
  "meta_value meta k = (case map_of meta k of None \<Rightarrow> [] | Some v \<Rightarrow> v)"

definition base_attributes :: "event \<Rightarrow> (string \<times> attr_value) list" where
  "base_attributes ev =
     [(''runeward.audit.seq'', AInt (ev_seq ev)), (''runeward.session_id'', AString (ev_session ev)), (''runeward.sandbox'', AString (ev_sandbox ev)),
      (''runeward.profile'', AString (ev_profile ev)), (''runeward.tool'', AString (ev_tool ev)), (''runeward.action'', AString (ev_action ev)),
      (''runeward.verdict'', AString (ev_verdict ev)), (''runeward.exit_code'', AInt (ev_exit_code ev)),
      (''runeward.duration_ms'', AInt (ev_duration_ms ev)), (''runeward.hash'', AString (ev_hash ev)), (''runeward.prev_hash'', AString (ev_prev_hash ev))]"

definition eventRecord :: "gotime \<Rightarrow> gotime \<Rightarrow> event \<Rightarrow> otlp_record" where
  "eventRecord now now' ev =
     (let (sev, sevText) = severityForVerdict (ev_verdict ev); reason = trim_space (meta_value (ev_meta ev) ''reason'') in
      \<lparr>or_timestamp = (if is_zero_time (ev_time ev) then now else ev_time ev), or_observed = now', or_event_name = ''runeward.audit'',
       or_body = ev_action ev, or_severity = sev, or_severity_text = sevText,
       or_attributes = base_attributes ev @ (if reason \<noteq> [] then [(''runeward.reason'', AString reason)] else []) @
         (if ev_args ev \<noteq> [] then [(''runeward.args'', ASlice (ev_args ev))] else []) @
         map (\<lambda>(k, v). (''runeward.meta.'' @ k, AString v)) (sort_key fst (ev_meta ev))\<rparr>)"

text \<open>The trace that an event belongs to. The record holds the parsers of the tracing library and of numbers: a valid trace or
  span id in hex, a byte in hex, a byte with a base prefix.\<close>

record trace_parsers =
  tq_trace_id :: "string \<Rightarrow> string option"
  tq_span_id :: "string \<Rightarrow> string option"
  tq_hex_byte :: "string \<Rightarrow> nat option"
  tq_byte :: "string \<Rightarrow> nat option"

definition parseTraceID :: "trace_parsers \<Rightarrow> string \<Rightarrow> string option" where
  "parseTraceID Q s = tq_trace_id Q (trim_space s)"

definition parseSpanID :: "trace_parsers \<Rightarrow> string \<Rightarrow> string option" where
  "parseSpanID Q s = tq_span_id Q (trim_space s)"

definition parseTraceFlags :: "trace_parsers \<Rightarrow> string \<Rightarrow> nat option" where
  "parseTraceFlags Q s = (let trimmed = trim_space s in if trimmed = [] then None else tq_byte Q trimmed)"

definition parseTraceparent :: "trace_parsers \<Rightarrow> string \<Rightarrow> (string \<times> string \<times> nat) option" where
  "parseTraceparent Q s =
     (case split_byte CHR ''-'' (trim_space s) of
        [_, t, sp, fl] \<Rightarrow>
          (case (parseTraceID Q t, parseSpanID Q sp, tq_hex_byte Q fl) of
             (Some tid, Some sid, Some flags) \<Rightarrow> Some (tid, sid, flags)
           | _ \<Rightarrow> None)
      | _ \<Rightarrow> None)"

definition contextWithTrace :: "trace_parsers \<Rightarrow> (string \<times> string) list \<Rightarrow> (string \<times> string \<times> nat) option" where
  "contextWithTrace Q meta =
     (if meta = [] then None
      else
        (let tp = trim_space (meta_value meta ''traceparent'') in
         case (if tp = [] then None else parseTraceparent Q tp) of
           Some ctx \<Rightarrow> Some ctx
         | None \<Rightarrow>
             (case (parseTraceID Q (meta_value meta ''trace_id''), parseSpanID Q (meta_value meta ''span_id'')) of
                (Some tid, Some sid) \<Rightarrow>
                  Some (tid, sid, case parseTraceFlags Q (meta_value meta ''trace_flags'') of Some flags \<Rightarrow> flags | None \<Rightarrow> 0)
              | _ \<Rightarrow> None)))"

text \<open>The exported record determines every field it is built from: nothing of an event is lost or confused on the way, except the text of
  the verdict's severity and the order of the metadata.\<close>

theorem eventRecord_faithful:
  assumes "eventRecord now now' e = eventRecord now now' e'"
  shows "ev_seq e = ev_seq e' \<and> ev_session e = ev_session e' \<and> ev_sandbox e = ev_sandbox e' \<and> ev_profile e = ev_profile e' \<and> ev_tool e = ev_tool e' \<and>
    ev_action e = ev_action e' \<and> ev_verdict e = ev_verdict e' \<and> ev_exit_code e = ev_exit_code e' \<and> ev_duration_ms e = ev_duration_ms e' \<and>
    ev_hash e = ev_hash e' \<and> ev_prev_hash e = ev_prev_hash e'"
  using assms by (simp add: eventRecord_def base_attributes_def Let_def case_prod_beta)

section \<open>Configuration\<close>

lemma parseKVList_loop_keys:
  "parseKVList_loop parts out = Inr pairs \<Longrightarrow> (\<forall>(k, v) \<in> set out. k \<noteq> []) \<Longrightarrow> distinct (map fst out) \<Longrightarrow>
   pairs \<noteq> [] \<and> (\<forall>(k, v) \<in> set pairs. k \<noteq> []) \<and> distinct (map fst pairs)"
proof (induction parts out rule: parseKVList_loop.induct)
  case (2 part parts out)
  let ?item = "trim_space part"
  show ?case
  proof (cases "?item = []")
    case False
    then obtain i where i: "index_byte ?item CHR ''='' = Some i" using 2(3) by (cases "index_byte ?item CHR ''=''") (auto simp: Let_def)
    let ?key = "trim_space (take i ?item)"
    let ?out = "AList.update ?key (trim_space (drop (Suc i) ?item)) out"
    have key: "?key \<noteq> []" using 2(3) False i by (auto simp: Let_def split: if_splits)
    have "\<forall>(k, v) \<in> set ?out. k \<noteq> []"
    proof clarify
      fix v assume "([], v) \<in> set ?out"
      then have "[] \<in> fst ` set ?out" by force
      then have "[] \<in> insert ?key (fst ` set out)" by (simp add: dom_update)
      then show False using key 2(4) by auto
    qed
    moreover have "distinct (map fst ?out)" using 2(5) by (rule distinct_update)
    ultimately show ?thesis using 2(2) [OF refl False i refl key] 2(3) False i key by (simp add: Let_def)
  qed (use 2 in simp)
qed (auto split: if_splits)

text \<open>A configuration that is accepted has an HTTP endpoint with a host wherever one is needed, and only pairs with a key.\<close>

theorem accepted_sinks_are_usable:
  assumes "sinks_FromEnv parse_url exporter openable getenv = Inr sinks" "c \<in> set sinks"
  shows "case c of
      WebhookSink url key val \<Rightarrow> (\<exists>scheme host. parse_url (trim_space (getenv ''RUNEWARD_AUDIT_WEBHOOK_URL'')) = Some (scheme, host, url) \<and> scheme \<in> {''http'', ''https''} \<and> host \<noteq> []) \<and> (key = [] \<longrightarrow> val = [])
    | FileSink path \<Rightarrow> path \<noteq> [] \<and> openable path
    | OTLPSink endpoint headers insecure service attrs \<Rightarrow>
        parseOTLPEndpoint parse_url endpoint = None \<and> (\<forall>(k, v) \<in> set (headers @ attrs). k \<noteq> [])"
proof -
  have pairs: "\<forall>(k, v) \<in> set ps. k \<noteq> []" if "optional_pairs raw = Inr ps" for raw ps
    using that parseKVList_loop_keys [of "split_byte CHR '','' raw" "[]" ps] by (auto simp: optional_pairs_def parseKVList_def split: if_splits)
  have w: ?thesis if "webhook_config parse_url getenv = Inr s1" "c \<in> set s1" for s1
    using that by (auto simp: webhook_config_def webhook_header_def Let_def split: option.splits sum.splits if_splits)
  have f: ?thesis if "file_config openable getenv = Inr s2" "c \<in> set s2" for s2
    using that by (auto simp: file_config_def Let_def split: if_splits)
  have o3: ?thesis if "otlp_config parse_url exporter getenv = Inr s3" "c \<in> set s3" for s3
    using that by (auto simp: otlp_config_def Let_def split: option.splits sum.splits if_splits dest!: pairs)
  show ?thesis using assms w f o3 by (auto simp: sinks_FromEnv_def split: sum.splits)
qed

end
