(* ===== verification/Startup.thy ===== *)
theory Startup
  imports Server_Auth State_File Go_Paths
begin

text \<open>
  Starting the control plane and the MCP server (the checks of \<^verbatim>\<open>internal/cli/serve.go\<close> before a listener is opened),
  and the login that the client keeps in a file (\<^verbatim>\<open>internal/credentials/store.go\<close>). The flags are a record; the
  environment, the loaded authorization store and the parser of addresses are arguments.
\<close>

section \<open>Flags and checks\<close>

record serve_flags =
  sf_bind :: string
  sf_token :: string
  sf_tls_cert :: string
  sf_tls_key :: string
  sf_allow_insecure :: bool

datatype start_error =
    StartAuthz authz_error | NoAuthentication | ShortAPIToken | WeakStore authz_error | TLSPair | PlaintextRefused

text \<open>\<open>parseIP\<close> is \<^verbatim>\<open>net.ParseIP\<close> with the answer of \<^verbatim>\<open>IsLoopback\<close>.\<close>

definition isLoopbackHost :: "(string \<Rightarrow> bool option) \<Rightarrow> string \<Rightarrow> bool" where
  "isLoopbackHost parseIP host =
     (if host = ''localhost'' then True
      else if host = [] then False
      else (case parseIP host of Some loopback \<Rightarrow> loopback | None \<Rightarrow> False))"

definition resolveConfigDir :: "(string \<Rightarrow> string) \<Rightarrow> string \<Rightarrow> string" where
  "resolveConfigDir getenv configDir = (if configDir = [] then getenv ''RUNEWARD_CONFIG_DIR'' else configDir)"

text \<open>The checks that the two commands share: the error, or the token that requests are compared with.\<close>

definition network_checks :: "(string \<Rightarrow> bool option) \<Rightarrow> (string \<Rightarrow> string) \<Rightarrow> store option \<Rightarrow> serve_flags \<Rightarrow> (start_error, string) result" where
  "network_checks parseIP getenv st f =
     (let token = (if sf_token f = [] then getenv ''RUNEWARD_API_TOKEN'' else sf_token f);
          exposed = \<not> isLoopbackHost parseIP (sf_bind f)
      in if exposed \<and> token = [] \<and> st = None then Inl NoAuthentication
         else if exposed \<and> token \<noteq> [] \<and> length token < 32 then Inl ShortAPIToken
         else if exposed \<and> ValidateForNetwork st \<noteq> None then Inl (WeakStore (the (ValidateForNetwork st)))
         else if (sf_tls_cert f = []) \<noteq> (sf_tls_key f = []) then Inl TLSPair
         else if exposed \<and> sf_tls_cert f = [] \<and> \<not> sf_allow_insecure f then Inl PlaintextRefused
         else Inr token)"

text \<open>\<^verbatim>\<open>runeward serve\<close> up to the server it builds; \<open>loaded\<close> is the result of \<^verbatim>\<open>authz.FromEnv\<close>.\<close>

definition serve_start ::
  "(string \<Rightarrow> bool option) \<Rightarrow> (string \<Rightarrow> string) \<Rightarrow> (string \<Rightarrow> string) \<Rightarrow> (string \<Rightarrow> principal option) \<Rightarrow> (authz_error, store option) result \<Rightarrow> bool \<Rightarrow>
   serve_flags \<Rightarrow> (start_error, server) result" where
  "serve_start parseIP getenv sha oidc loaded ui f =
     (case loaded of
        Inl e \<Rightarrow> Inl (StartAuthz e)
      | Inr st \<Rightarrow>
          (case network_checks parseIP getenv st f of
             Inl e \<Rightarrow> Inl e
           | Inr token \<Rightarrow> Inr \<lparr>sv_auth_token = token, sv_authz = st, sv_dashboard = ui, sv_sha = sha, sv_oidc = oidc\<rparr>))"

text \<open>\<^verbatim>\<open>runeward mcp\<close>: stdio has no listener; over HTTP the token is checked in front of the handler when no store is configured.\<close>

datatype mcp_listener = McpStdio | McpHTTP "string option"

definition mcp_start ::
  "(string \<Rightarrow> bool option) \<Rightarrow> (string \<Rightarrow> string) \<Rightarrow> (authz_error, store option) result \<Rightarrow> bool \<Rightarrow> serve_flags \<Rightarrow> (start_error, mcp_listener) result" where
  "mcp_start parseIP getenv loaded asHTTP f =
     (case loaded of
        Inl e \<Rightarrow> Inl (StartAuthz e)
      | Inr st \<Rightarrow>
          if \<not> asHTTP then Inr McpStdio
          else (case network_checks parseIP getenv st f of
                  Inl e \<Rightarrow> Inl e
                | Inr token \<Rightarrow> Inr (McpHTTP (if st = None then Some token else None))))"

section \<open>The stored login\<close>

record login =
  lg_token :: string
  lg_issuer :: string
  lg_client_id :: string
  lg_audience :: string
  lg_expires :: gotime

datatype cred_error = CredNoPath | CredPermissions | CredUnreadable | CredDecode | CredEmpty | CredEncode | CredIO io_stage

text \<open>Files with their permission bits.\<close>

record cred_files =
  cf_data :: files
  cf_mode :: "string \<Rightarrow> nat"

definition cred_Path :: "(string \<Rightarrow> string) \<Rightarrow> string option \<Rightarrow> string option" where
  "cred_Path getenv configDir =
     (let path = trim_space (getenv ''RUNEWARD_CREDENTIALS_FILE'') in
      if path \<noteq> [] then Some path
      else map_option (\<lambda>dir. path_join (path_join dir ''runeward'') ''credentials.json'') configDir)"

definition cred_Load :: "bool \<Rightarrow> (string \<Rightarrow> login option) \<Rightarrow> (string \<Rightarrow> string) \<Rightarrow> string option \<Rightarrow> cred_files \<Rightarrow> (cred_error, login) result" where
  "cred_Load windows decode getenv configDir st =
     (case cred_Path getenv configDir of
        None \<Rightarrow> Inl CredNoPath
      | Some path \<Rightarrow>
          if \<not> windows \<and> cf_data st path \<noteq> None \<and> cf_mode st path mod 64 \<noteq> 0 then Inl CredPermissions
          else
            (case cf_data st path of
               None \<Rightarrow> Inl CredUnreadable
             | Some data \<Rightarrow>
                 (case decode data of
                    None \<Rightarrow> Inl CredDecode
                  | Some l \<Rightarrow> if trim_space (lg_token l) = [] then Inl CredEmpty else Inr l)))"

definition LoadToken :: "bool \<Rightarrow> (string \<Rightarrow> login option) \<Rightarrow> gotime \<Rightarrow> (string \<Rightarrow> string) \<Rightarrow> string option \<Rightarrow> cred_files \<Rightarrow> string" where
  "LoadToken windows decode now getenv configDir st =
     (case cred_Load windows decode getenv configDir st of
        Inl _ \<Rightarrow> []
      | Inr l \<Rightarrow> if \<not> is_zero_time (lg_expires l) \<and> lg_expires l < now then [] else lg_token l)"

text \<open>The system calls of \<^verbatim>\<open>Save\<close> are those of \<open>State_File\<close>. The second component of the result is the directory after each of
  them.\<close>

definition cred_Save ::
  "(login \<Rightarrow> string option) \<Rightarrow> state_io \<Rightarrow> (string \<Rightarrow> string) \<Rightarrow> string option \<Rightarrow> login \<Rightarrow> cred_files \<Rightarrow> cred_error option \<times> files list \<times> cred_files" where
  "cred_Save encode io getenv configDir l0 st =
     (let l = l0\<lparr>lg_token := trim_space (lg_token l0)\<rparr> in
      if lg_token l = [] then (Some CredEmpty, [], st)
      else
        (case cred_Path getenv configDir of
           None \<Rightarrow> (Some CredNoPath, [], st)
         | Some path \<Rightarrow>
             if io_fault io = Some StMkdir then (Some (CredIO StMkdir), [], st)
             else
               (case encode l of
                  None \<Rightarrow> (Some CredEncode, [], st)
                | Some data \<Rightarrow>
                    (let fs = cf_data st; tmps = tmp_states io data fs in
                     case io_fault io of
                       None \<Rightarrow>
                         (let fs' = (fs(io_tmp io \<mapsto> data))(io_tmp io := None, path \<mapsto> data) in
                          (None, tmps @ [fs'], st\<lparr>cf_data := fs', cf_mode := (cf_mode st)(path := 384)\<rparr>))
                     | Some stage \<Rightarrow>
                         (let fs' = (if stage = StCreateTemp then fs else (last tmps)(io_tmp io := None)) in
                          (Some (CredIO stage), tmps @ [fs'], st\<lparr>cf_data := fs'\<rparr>))))))"

text \<open>\<open>removable\<close> tells whether an existing file can be removed.\<close>

definition cred_Delete :: "bool \<Rightarrow> (string \<Rightarrow> string) \<Rightarrow> string option \<Rightarrow> cred_files \<Rightarrow> cred_error option \<times> cred_files" where
  "cred_Delete removable getenv configDir st =
     (case cred_Path getenv configDir of
        None \<Rightarrow> (Some CredNoPath, st)
      | Some path \<Rightarrow>
          if cf_data st path = None then (None, st)
          else if \<not> removable then (Some CredUnreadable, st)
          else (None, st\<lparr>cf_data := (cf_data st)(path := None)\<rparr>))"

section \<open>A listener on the network\<close>

lemma identify_loop_static: "identify_loop ps hs h acc = Some p \<Longrightarrow> p \<in> set ps \<or> acc = Some p"
  by (induction ps hs h acc rule: identify_loop.induct) (auto split: if_splits)

lemma ValidateForNetwork_strong: "ValidateForNetwork (Some st) = None \<Longrightarrow> p \<in> set (st_principals st) \<Longrightarrow> 32 \<le> length (pc_token p)"
  by (force simp: ValidateForNetwork_def find_None_iff)

lemma no_cookie: "wr_cookie r = None \<Longrightarrow> ideSessionFromCookie now r sb ax \<noteq> (Some p, ax')"
  by (simp add: ideSessionFromCookie_def)

lemma authenticate_token:
  assumes "sv_authz s = None" "sv_auth_token s \<noteq> []" "authenticate s now sid r ax = (Pass po, ax')" "\<not> public_request s r"
    and "trim_space (wr_query_ticket r) = []" "wr_cookie r = None"
  shows "presentedToken r False = sv_auth_token s"
proof -
  have t: "fst (consumeRequestTicket now r ax) = None"
    using assms(5) by (simp add: consumeRequestTicket_def consumeTicket_def Let_def)
  show ?thesis
    using assms(1-4) t no_cookie [OF assms(6)]
    by (auto simp: authenticate_def public_request_def Let_def tokenMatches_def split: prod.splits option.splits if_splits)
qed


text \<open>A server on every interface whose principals come from the identity provider.\<close>

definition flags0 :: serve_flags where
  "flags0 = \<lparr>sf_bind = ''0.0.0.0'', sf_token = [], sf_tls_cert = ''c'', sf_tls_key = ''k'', sf_allow_insecure = False\<rparr>"

definition network_server :: server where
  "network_server = \<lparr>sv_auth_token = [], sv_authz = Some empty_store, sv_dashboard = False, sv_sha = (\<lambda>x. x), sv_oidc = (\<lambda>_. Some alice)\<rparr>"

lemma flags0_start: "serve_start (\<lambda>_. Some False) (\<lambda>_. []) (\<lambda>x. x) (\<lambda>_. Some alice) (Inr (Some empty_store)) False flags0 = Inr network_server"
  by (simp add: serve_start_def network_checks_def isLoopbackHost_def flags0_def network_server_def ValidateForNetwork_def empty_store_def)

lemma oidc_request_passes: "\<exists>ax'. serve network_server resources0 (\<lambda>_. None) 5 None (get0 ''/v1/citadels/sb1'') access0 = (Pass (Some alice), ax')"
proof -
  have "fst (serve network_server resources0 (\<lambda>_. None) 5 None (get0 ''/v1/citadels/sb1'') access0) = Pass (Some alice)" by code_simp
  then show ?thesis by (metis prod.collapse)
qed


text \<open>Without an address the listener is on every interface, and the checks treat it so; a host name other than
  \<^verbatim>\<open>localhost\<close> counts as exposed even if it resolves to a loopback address.\<close>

lemma exposed_hosts: "\<not> isLoopbackHost parseIP []" "host \<noteq> ''localhost'' \<Longrightarrow> parseIP host = None \<Longrightarrow> \<not> isLoopbackHost parseIP host"
  by (simp_all add: isLoopbackHost_def)

section \<open>Trimming twice\<close>

lemma trim_left_with_done: "space_len seqs (trim_left_with seqs s) = 0 \<or> trim_left_with seqs s = []"
proof (induction seqs s rule: trim_left_with.induct)
  case (1 seqs s)
  then show ?case by (cases "space_len seqs s = 0 \<or> s = []") (auto simp: trim_left_with.simps [of seqs s])
qed

lemma space_len_0: "[] \<notin> set seqs \<Longrightarrow> space_len seqs s = 0 \<longleftrightarrow> (\<forall>p \<in> set seqs. \<not> prefix p s)"
proof (cases "find (\<lambda>p. prefix p s) seqs")
  case (Some p)
  assume "[] \<notin> set seqs"
  moreover have "p \<in> set seqs" "prefix p s" using Some by (auto simp: find_Some_iff)
  ultimately show ?thesis using Some by (auto simp: space_len_def)
next
  case None
  then have "\<forall>p \<in> set seqs. \<not> prefix p s" by (simp add: find_None_iff)
  with None show ?thesis by (simp add: space_len_def)
qed

lemma space_len_prefix: "prefix t s \<Longrightarrow> [] \<notin> set seqs \<Longrightarrow> space_len seqs s = 0 \<Longrightarrow> space_len seqs t = 0"
  by (auto simp: space_len_0 dest: prefix_order.trans)

lemma trim_space_trim: "trim_space (trim_space s) = trim_space s"
proof -
  let ?l = "trim_left s" and ?rs = "map rev space_seqs"
  let ?t = "trim_space s"
  have t: "rev ?t = trim_left_with ?rs (rev ?l)" by (simp add: trim_space_def trim_right_def)
  have "suffix (rev ?t) (rev ?l)" unfolding t by (rule trim_left_with_suffix)
  then have "prefix ?t ?l" by (simp add: suffix_to_prefix)
  moreover have "space_len space_seqs ?l = 0 \<or> ?l = []" unfolding trim_left_def by (rule trim_left_with_done)
  ultimately have left: "space_len space_seqs ?t = 0 \<or> ?t = []"
    using space_len_prefix [OF _ space_seqs_nonempty] by auto
  have "space_len ?rs (rev ?t) = 0 \<or> rev ?t = []" unfolding t by (rule trim_left_with_done)
  then show ?thesis using left trim_space_id by auto
qed

section \<open>Saving and loading\<close>

lemma cred_Save_refused:
  assumes "cred_Path getenv configDir = Some path"
    and "trim_space (lg_token l) = [] \<or> io_fault io = Some StMkdir \<or> encode (l\<lparr>lg_token := trim_space (lg_token l)\<rparr>) = None"
  shows "\<exists>e. cred_Save encode io getenv configDir l st = (Some e, [], st)"
  using assms by (auto simp: cred_Save_def Let_def)

text \<open>Otherwise saving does what writing a state file does.\<close>

lemma cred_Save_writes:
  assumes "cred_Path getenv configDir = Some path" "trim_space (lg_token l) \<noteq> []" "io_fault io \<noteq> Some StMkdir"
    and "encode (l\<lparr>lg_token := trim_space (lg_token l)\<rparr>) = Some data"
  shows "cred_Save encode io getenv configDir l st =
    (case writeStateFile io ''.'' path data (cf_data st) of
       (None, tr, fs) \<Rightarrow> (None, tr, st\<lparr>cf_data := fs, cf_mode := (cf_mode st)(path := 384)\<rparr>)
     | (Some stage, tr, fs) \<Rightarrow> (Some (CredIO stage), tr, st\<lparr>cf_data := fs\<rparr>))"
  using assms by (cases "io_fault io") (simp_all add: cred_Save_def writeStateFile_def Let_def)

lemma writeStateFile_trace:
  assumes "tmp_ok io path fs" "writeStateFile io ''.'' path data fs = (Some stage, tr, fs')"
  shows "fs' = fs" "\<forall>x \<in> set tr. x path = fs path"
proof -
  have fault: "io_fault io = Some stage" using assms(2) by (auto simp: writeStateFile_def Let_def split: option.splits)
  then show fs: "fs' = fs" using writeStateFile_fails [OF _ assms(1) fault, of "''.''" data] assms(2) by simp
  have "tr = tmp_states io data fs @ [fs']" using assms(2) fault by (auto simp: writeStateFile_def Let_def)
  then show "\<forall>x \<in> set tr. x path = fs path" using fs tmp_states_target [OF assms(1)] by auto
qed

text \<open>
  Saving a login is atomic, and what was saved is loaded: after every system call the file holds its old content or the whole new one, a
  failure leaves it as it was, and after a success loading gives the login back, with its token trimmed, until it is deleted.
\<close>

theorem login_saved_and_loaded:
  assumes "cred_Save encode io getenv configDir l st = (err, trace, st')" "cred_Path getenv configDir = Some path"
    and "tmp_ok io path (cf_data st)" "\<And>x data. encode x = Some data \<Longrightarrow> decode data = Some x"
  shows "(\<forall>fs \<in> set trace. fs path = cf_data st path \<or> err = None) \<and> (err \<noteq> None \<longrightarrow> st' = st) \<and>
    (err = None \<longrightarrow> cred_Load windows decode getenv configDir st' = Inr (l\<lparr>lg_token := trim_space (lg_token l)\<rparr>))"
proof (cases "trim_space (lg_token l) = [] \<or> io_fault io = Some StMkdir \<or> encode (l\<lparr>lg_token := trim_space (lg_token l)\<rparr>) = None")
  case True
  obtain e where "cred_Save encode io getenv configDir l st = (Some e, [], st)" using cred_Save_refused [OF assms(2), of l io encode] True by blast
  then show ?thesis using assms(1) by auto
next
  case False
  then obtain data where ok: "trim_space (lg_token l) \<noteq> []" "io_fault io \<noteq> Some StMkdir"
    and data: "encode (l\<lparr>lg_token := trim_space (lg_token l)\<rparr>) = Some data" by auto
  obtain e tr fs where w: "writeStateFile io ''.'' path data (cf_data st) = (e, tr, fs)" by (metis prod.collapse)
  note save = assms(1) [unfolded cred_Save_writes [where encode = encode and l = l, OF assms(2) ok data] w prod.case]
  show ?thesis
  proof (cases e)
    case None
    then have "io_fault io = None" using w by (auto simp: writeStateFile_def Let_def split: option.splits)
    then have "fs = (cf_data st)(path \<mapsto> data)" using writeStateFile_ok [OF _ assms(3), of "''.''" data] w by simp
    then show ?thesis using save None assms(2) assms(4) [where x = "l\<lparr>lg_token := trim_space (lg_token l)\<rparr>", OF data] ok(1) by (auto simp: cred_Load_def trim_space_trim)
  next
    case (Some stage)
    then show ?thesis using save writeStateFile_trace [OF assms(3)] w by auto
  qed
qed

text \<open>A login whose file others may read is refused, and an expired one yields no token.\<close>

lemma LoadToken_cases:
  "LoadToken windows decode now getenv configDir st \<noteq> [] \<Longrightarrow>
   \<exists>l path. cred_Path getenv configDir = Some path \<and> cred_Load windows decode getenv configDir st = Inr l \<and>
     LoadToken windows decode now getenv configDir st = lg_token l \<and> (is_zero_time (lg_expires l) \<or> now \<le> lg_expires l) \<and>
     (windows \<or> cf_mode st path mod 64 = 0)"
  by (auto simp: LoadToken_def cred_Load_def split: sum.splits option.splits if_splits)

lemma deleted_login_is_gone:
  "cred_Delete removable getenv configDir st = (None, st') \<Longrightarrow> LoadToken windows decode now getenv configDir st' = []"
  by (auto simp: LoadToken_def cred_Load_def cred_Delete_def split: sum.splits option.splits if_splits)

end
