(* ===== verification/Spec2Isabelle.thy ===== *)
theory Spec2Isabelle
  imports Audit_Trail Fleet_Control Executor Egress_Proxy Api_Handlers Agent_Api Docker_Backend Policy_Simulation Admission Anomaly Secret_Refs Packet_Filter Mcp_Access Audit_Sinks Startup
begin

text \<open>
  Verification development of Runeward, a control plane that runs coding agents in sandboxes
  ("citadels") under a policy contract ("charter"), keeps a tamper-evident audit ledger ("chronicle"),
  and distributes work to cohorts of agents ("fleets").

  \<^bold>\<open>The program.\<close> An HTTP API (\<^verbatim>\<open>internal/server\<close>) authenticates a caller, checks that the resource
  belongs to the caller's tenant and calls the manager (\<^verbatim>\<open>internal/controlplane\<close>). The manager turns a
  profile into a sandbox session and sends each tool call of an agent through one governed path: policy
  decision (\<^verbatim>\<open>internal/policy\<close>), human approval if the policy asks for it, guardrails and token budget
  (\<^verbatim>\<open>internal/policy/guardrails.go\<close>, \<^verbatim>\<open>internal/accounting\<close>), execution in the backend, audit record
  (\<^verbatim>\<open>internal/ledger\<close>) and scrubbing of secrets from the output. Network traffic of a sandbox goes
  through an egress proxy (\<^verbatim>\<open>internal/egress\<close>). A fleet is a task board (\<^verbatim>\<open>internal/fleet\<close>) with leases
  whose tokens the manager signs. On Kubernetes an admission webhook (\<^verbatim>\<open>internal/webhook\<close>) applies cluster
  policies. An anomaly detector (\<^verbatim>\<open>internal/anomaly\<close>) watches the stream of audit events.

  \<^bold>\<open>Theories and sources.\<close>
  \<^item> Rune_Prelude, Go_Strings, Go_Paths: conventions, the machine locales, and the routines of Go's
    standard library that the code calls (strings, path cleaning).
  \<^item> Glob, Policy_Engine: \<^verbatim>\<open>internal/policy/policy.go\<close>, \<^verbatim>\<open>cel.go\<close>, \<^verbatim>\<open>rego.go\<close>. The glob matcher is
    compared with a declarative semantics and its running time is bounded; the three engines implement
    the locale \<^verbatim>\<open>evaluator\<close>.
  \<^item> Guardrails, Accounting: \<^verbatim>\<open>internal/policy/guardrails.go\<close>, \<^verbatim>\<open>internal/accounting/accounting.go\<close>.
    Budgets hold over every sequence of operations; the loop detector is characterised by the failures
    since the last success.
  \<^item> Ledger_Encoding, Ledger, Ledger_Sign, Ledger_Scrub: \<^verbatim>\<open>internal/ledger\<close>, \<^verbatim>\<open>internal/evidence\<close>. The
    hashed bytes determine the event, the last hash determines a verified chain, appending keeps the
    chain verified, exported evidence verifies, declared secrets are masked.
  \<^item> Fleet_Board, State_File, Lease_Token, Fleet_Control: \<^verbatim>\<open>internal/fleet/board.go\<close>,
    \<^verbatim>\<open>internal/controlplane/statefile.go\<close>, \<^verbatim>\<open>leasetoken.go\<close>, \<^verbatim>\<open>fleet.go\<close>, \<^verbatim>\<open>fleetstore.go\<close>. Claims are
    exclusive and first-in first-out, a swept task is handed out again, state files are replaced
    atomically, tokens are bound to one lease, and an acknowledged operation survives a restart.
  \<^item> Approvals, Session_Setup, Govern, Runs, Manager_Ops, Executor, Audit_Trail:
    \<^verbatim>\<open>internal/controlplane/approvals.go\<close>, \<^verbatim>\<open>manager.go\<close>, \<^verbatim>\<open>runs.go\<close>, \<^verbatim>\<open>executor.go\<close>, and the profile
    fields of \<^verbatim>\<open>internal/profile/schema.go\<close>. Nothing runs without the policy's or an operator's
    permission and within every budget, every call is recorded, output is scrubbed, sandbox creation is
    all or nothing, file tools stay in the workspace, and the audit trail stays verifiable.
  \<^item> Egress_Policy, SNI, Decision_Log, Egress_Proxy: \<^verbatim>\<open>internal/egress/policy.go\<close>, \<^verbatim>\<open>resolve.go\<close>,
    \<^verbatim>\<open>sni.go\<close>, \<^verbatim>\<open>decisionlog.go\<close>, \<^verbatim>\<open>proxy.go\<close>, \<^verbatim>\<open>transparent_linux.go\<close>. The proxies dial only what the
    policy permits; the decision ring refines a list of the most recent decisions.
  \<^item> Authz, Server_Auth: \<^verbatim>\<open>internal/authz/authz.go\<close>, \<^verbatim>\<open>oidc.go\<close>, \<^verbatim>\<open>internal/server/server.go\<close>, \<^verbatim>\<open>ide.go\<close>
    and the ticket endpoint of \<^verbatim>\<open>handlers.go\<close>. Tokens identify exactly one principal, OIDC tokens are
    accepted only when signed and current, tenants cannot reach each other's resources, tickets work
    once.
  \<^item> Go_Utf8, Conversation, Snapshots: \<^verbatim>\<open>internal/controlplane/conversation.go\<close>, \<^verbatim>\<open>snapshots.go\<close>,
    \<^verbatim>\<open>snapshotstore.go\<close>. Observers of a conversation see the messages in order, once, and safe to
    display; snapshots survive a restart, and a restored sandbox is governed by its profile again.
  \<^item> Policy_Simulation, Api_Handlers: \<^verbatim>\<open>internal/server/handlers.go\<close>, \<^verbatim>\<open>fleet.go\<close>, \<^verbatim>\<open>conversation.go\<close>. A
    simulation predicts what the session's engine decides; launching, approving and working on tasks
    need the permission and happen under the name of the authenticated principal.
  \<^item> Agent_Sessions, Agent_Api: \<^verbatim>\<open>internal/controlplane/agent_sessions.go\<close>,
    \<^verbatim>\<open>internal/server/agent_sessions.go\<close>. The transcript of an agent is complete and numbered without
    gaps, reconnecting misses nothing, a restart settles every session, and tenants see their own.
  \<^item> Policy_Bundle: \<^verbatim>\<open>internal/policybundle/bundle.go\<close>. A bundle that verifies is one its signer pushed.
  \<^item> Profile_Files, Profile_Lint: \<^verbatim>\<open>internal/profile/schema.go\<close>, \<^verbatim>\<open>load.go\<close>, \<^verbatim>\<open>signature.go\<close>, \<^verbatim>\<open>lint.go\<close>. A
    loaded profile is signed when signatures are enforced and has known verdicts; a rule that the linter
    calls unreachable can be removed.
  \<^item> Sandbox_Spec, Docker_Backend: \<^verbatim>\<open>internal/backend/backend.go\<close>, \<^verbatim>\<open>factory.go\<close>, \<^verbatim>\<open>validate.go\<close>, \<^verbatim>\<open>seed.go\<close>,
    \<^verbatim>\<open>docker.go\<close>, \<^verbatim>\<open>egress.go\<close>. Archives stay below their root; creating a container sandbox is all or
    nothing, and a strict one starts only after its packet filter is up.
  \<^item> Secret_Refs: \<^verbatim>\<open>internal/secrets\<close>. A resolved secret comes from the store its scheme names, every
    failure is an error and never an empty value, and only declared references are resolved.
  \<^item> Packet_Filter: \<^verbatim>\<open>internal/egress/iptables_linux.go\<close>, \<^verbatim>\<open>cmd/runeward-egress/main.go\<close>. Once the sidecar
    reports that it listens, the rules in the kernel leave no way around the proxy; what \<^verbatim>\<open>iptables\<close> does is
    specified in the theory.
  \<^item> Browser_Sessions: \<^verbatim>\<open>internal/controlplane/browser_session.go\<close>, \<^verbatim>\<open>internal/browser/protocol.go\<close> and their
    endpoints. A browser is driven only through a session that was opened and not closed, one authorized
    action at a time.
  \<^item> Mcp_Server, Mcp_Access: \<^verbatim>\<open>internal/mcp/mcp.go\<close>. Every tool of the MCP front end, on a state that joins
    those of the components; tenants are kept apart, lists are scoped, and a tool that runs in a sandbox does
    what its HTTP endpoint does.
  \<^item> Audit_Sinks: \<^verbatim>\<open>internal/auditsink\<close>. Events reach the outside in order and each at most once, every event is
    accounted for, and emitting never blocks.
  \<^item> Startup: \<^verbatim>\<open>internal/cli/serve.go\<close>, \<^verbatim>\<open>internal/credentials/store.go\<close>. A listener on the network is protected;
    the login of the client is saved atomically and loaded back.
  \<^item> Admission: \<^verbatim>\<open>internal/webhook/policy.go\<close>, \<^verbatim>\<open>webhook.go\<close>. Admission fails closed.
  \<^item> Anomaly: \<^verbatim>\<open>internal/anomaly/detector.go\<close>. Warnings are rate-limited.

  \<^bold>\<open>How the code is translated.\<close> A struct is a record, a method one function on it; the mutex of a
  struct makes each exported method one step, and interleavings of callers are sequences of such steps
  (\<^verbatim>\<open>board_op\<close>, \<^verbatim>\<open>fleet_op\<close>, \<^verbatim>\<open>approval_op\<close>, \<^verbatim>\<open>guard_op\<close>, \<^verbatim>\<open>access_op\<close>). Clock readings, random ids and the
  outcome of system calls are arguments. A Go map is a HOL map, or an association list when its
  iteration order matters. Errors are values of a sum or option type. Strings are byte strings.
  Token counters are 64 bit words. Every loop of the code is a recursive function with a termination
  proof, so no fuel is used.

  \<^bold>\<open>Parameters.\<close> Code outside the repository is an argument: SHA-256, HMAC, Ed25519 and RSA
  signatures, base64url and JSON codecs, regular expressions, CEL and Rego evaluation, IP parsing, CIDR
  containment and DNS, TOML and YAML decoders, the Docker client, the
  Kubernetes client, the HTTP clients of secret stores, \<^verbatim>\<open>iptables\<close>. What the code relies on about them
  is a named predicate (\<^verbatim>\<open>codec_ok\<close>, \<^verbatim>\<open>tokprims_ok\<close> and the like) or an alternative of the conclusion (a hash collision),
  and every theorem with such a hypothesis has a witness with concrete functions.

  \<^bold>\<open>Interfaces.\<close> \<^verbatim>\<open>invariant_machine\<close> (steps keep an invariant) is interpreted by the guard, the approval
  store, the fleets, the run records and the access state; \<^verbatim>\<open>monotone_machine\<close> extends it and is
  interpreted by the task board; \<^verbatim>\<open>evaluator\<close> by the built-in, CEL and Rego engines and by the engine a
  session selects; \<^verbatim>\<open>bounded_log\<close> by the decision ring, the conversation history and the agent
  transcript, and by the queue of an audit sink; \<^verbatim>\<open>quiet_client\<close> (what commands that only look at the engine keep) by the recording Docker
  client.

  \<^bold>\<open>Not modelled.\<close> Terminals, IDE sessions and the browser driver inside a sandbox
  (\<^verbatim>\<open>internal/browser/cdp.go\<close>, \<^verbatim>\<open>internal/controlplane/ide.go\<close>); the Kubernetes backend; the handlers that
  only stream data; the command line except for its start-up
  checks (\<^verbatim>\<open>internal/cli\<close>, \<^verbatim>\<open>cmd\<close>); the Kubernetes
  controller and certificate handling; metrics, logging and tracing.
\<close>

end
